(* ===== verification/Prelude.thy ===== *)
theory Prelude
  imports Main "HOL-Library.AList"
begin

text \<open>
  Shared vocabulary of the development. JavaScript's insertion-ordered Map and plain-object
  dictionaries are association lists updated in place (js_set keeps the position of an existing
  key and appends a new one, as both do); the comparator sort of a command queue is the stable
  sort_key; effectful methods are state transformers that return a thrown error or a value; and
  a component that is driven by a stream of events is an instance of the locale stepper, whose
  one lemma lifts an invariant from a single step to every run.
\<close>

named_theorems keeps_intros
named_theorems act_defs

section \<open>Insertion-ordered maps\<close>

abbreviation js_get :: "('k \<times> 'v) list \<Rightarrow> 'k \<Rightarrow> 'v option" where
  "js_get m k \<equiv> map_of m k"

abbreviation js_set :: "'k \<Rightarrow> 'v \<Rightarrow> ('k \<times> 'v) list \<Rightarrow> ('k \<times> 'v) list" where
  "js_set k v m \<equiv> AList.update k v m"

abbreviation js_delete :: "'k \<Rightarrow> ('k \<times> 'v) list \<Rightarrow> ('k \<times> 'v) list" where
  "js_delete k m \<equiv> AList.delete k m"

definition js_has :: "('k \<times> 'v) list \<Rightarrow> 'k \<Rightarrow> bool" where
  "js_has m k = (map_of m k \<noteq> None)"

text \<open>The constructor call new Map(entries): later entries overwrite earlier ones in place.\<close>

definition js_map_of :: "('k \<times> 'v) list \<Rightarrow> ('k \<times> 'v) list" where
  "js_map_of es = fold (\<lambda>(k, v) m. js_set k v m) es []"

text \<open>Nullish coalescing on an optional value.\<close>

definition coalesce :: "'a option \<Rightarrow> 'a \<Rightarrow> 'a" where
  "coalesce x d = (case x of None \<Rightarrow> d | Some v \<Rightarrow> v)"

lemma coalesce_simps [simp]: "coalesce None d = d" "coalesce (Some v) d = v"
  by (simp_all add: coalesce_def)

text \<open>Facts about lookups are kept as facts about lookups, not turned into membership.\<close>

declare map_of_eq_Some_iff [simp del]

lemma js_get_set [simp]: "js_get (js_set k v m) k' = (if k = k' then Some v else js_get m k')"
  by (simp add: update_conv')

lemma js_get_delete [simp]: "js_get (js_delete k m) k' = (if k = k' then None else js_get m k')"
  by (simp add: delete_conv')

lemma js_keys_set: "fst ` set (js_set k v m) = insert k (fst ` set m)"
  by (simp add: dom_update)

lemma js_keys_delete: "fst ` set (js_delete k m) = fst ` set m - {k}"
  by (auto simp: AList.delete_eq)

lemma js_get_Some_iff:
  "distinct (map fst m) \<Longrightarrow> (js_get m k = Some v) = ((k, v) \<in> set m)"
  by (simp add: map_of_eq_Some_iff)

lemma js_distinct_set [simp, intro]:
  "distinct (map fst m) \<Longrightarrow> distinct (map fst (js_set k v m))"
  by (rule distinct_update)

lemma js_distinct_delete [simp, intro]:
  "distinct (map fst m) \<Longrightarrow> distinct (map fst (js_delete k m))"
  by (simp add: distinct_delete)

lemma fold_js_set_distinct:
  "distinct (map fst m) \<Longrightarrow> distinct (map fst (fold (\<lambda>(k, v) m. js_set k v m) es m))"
  by (induction es arbitrary: m) auto

lemma js_map_of_distinct [simp]: "distinct (map fst (js_map_of es))"
  by (simp add: js_map_of_def fold_js_set_distinct)

lemma js_set_append_new:
  "k \<notin> fst ` set m \<Longrightarrow> js_set k v m = m @ [(k, v)]"
  by (induction m) auto

lemma fold_js_set_append:
  "distinct (map fst (m @ es)) \<Longrightarrow> fold (\<lambda>(k, v) m. js_set k v m) es m = m @ es"
proof (induction es arbitrary: m)
  case (Cons e es)
  obtain k v where e: "e = (k, v)" by (cases e)
  have "k \<notin> fst ` set m" using Cons.prems e by auto
  with Cons e show ?case by (simp add: js_set_append_new)
qed simp

lemma js_map_of_id: "distinct (map fst es) \<Longrightarrow> js_map_of es = es"
  using fold_js_set_append [of "[]" es] by (simp add: js_map_of_def)

lemma js_get_fold_set:
  "js_get (fold (\<lambda>(k, v) m. js_set k v m) es m) k =
     (case js_get (rev es) k of None \<Rightarrow> js_get m k | Some v \<Rightarrow> Some v)"
  by (induction es arbitrary: m) (auto simp: map_add_def split: option.splits)

lemma js_keys_map_of [simp]: "fst ` set (js_map_of es) = fst ` set es"
proof -
  have "dom (map_of (js_map_of es)) = dom (map_of (rev es))"
    by (auto simp: js_map_of_def js_get_fold_set dom_def split: option.splits)
  then show ?thesis by (simp add: dom_map_of_conv_image_fst)
qed

lemma js_has_iff: "js_has m k = (k \<in> fst ` set m)"
  by (auto simp: js_has_def map_of_eq_None_iff)

section \<open>Lists as arrays\<close>

text \<open>findIndex: the least index whose element satisfies a predicate of element and index.\<close>

fun find_index_from :: "nat \<Rightarrow> (nat \<Rightarrow> 'a \<Rightarrow> bool) \<Rightarrow> 'a list \<Rightarrow> nat option" where
  "find_index_from i p [] = None"
| "find_index_from i p (x # xs) = (if p i x then Some i else find_index_from (Suc i) p xs)"

definition find_index :: "(nat \<Rightarrow> 'a \<Rightarrow> bool) \<Rightarrow> 'a list \<Rightarrow> nat option" where
  "find_index p xs = find_index_from 0 p xs"

text \<open>splice(i, 1): remove the element at an index; past the end it removes nothing.\<close>

definition splice_at :: "nat \<Rightarrow> 'a list \<Rightarrow> 'a list" where
  "splice_at i xs = take i xs @ drop (Suc i) xs"

lemma find_index_from_Some:
  "find_index_from n p xs = Some i \<Longrightarrow>
     n \<le> i \<and> i < n + length xs \<and> p i (xs ! (i - n)) \<and> (\<forall>j. n \<le> j \<and> j < i \<longrightarrow> \<not> p j (xs ! (j - n)))"
proof (induction xs arbitrary: n)
  case (Cons x xs)
  show ?case
  proof (cases "p n x")
    case True
    with Cons.prems show ?thesis by auto
  next
    case False
    with Cons.prems have *: "find_index_from (Suc n) p xs = Some i" by simp
    have "\<not> p j ((x # xs) ! (j - n))" if "n \<le> j" "j < i" for j
    proof (cases "j = n")
      case True
      with False show ?thesis by simp
    next
      case False
      with that have "(x # xs) ! (j - n) = xs ! (j - Suc n)" by (simp add: nth_Cons')
      with Cons.IH [OF *] that False show ?thesis by auto
    qed
    moreover have "(x # xs) ! (i - n) = xs ! (i - Suc n)"
      using Cons.IH [OF *] by (simp add: nth_Cons')
    ultimately show ?thesis using Cons.IH [OF *] by auto
  qed
qed simp

lemma find_index_Some:
  assumes "find_index p xs = Some i"
  shows "i < length xs" "p i (xs ! i)" "\<And>j. j < i \<Longrightarrow> \<not> p j (xs ! j)"
  using find_index_from_Some [of 0 p xs i] assms by (auto simp: find_index_def)

lemma find_index_from_None:
  "find_index_from n p xs = None \<longleftrightarrow> (\<forall>j < length xs. \<not> p (n + j) (xs ! j))"
proof (induction xs arbitrary: n)
  case (Cons x xs)
  have "(\<forall>j < length (x # xs). \<not> p (n + j) ((x # xs) ! j)) \<longleftrightarrow>
        \<not> p n x \<and> (\<forall>j < length xs. \<not> p (Suc n + j) (xs ! j))"
    by (auto simp: less_Suc_eq_0_disj)
  with Cons show ?case by simp
qed simp

lemma find_index_None: "find_index p xs = None \<longleftrightarrow> (\<forall>j < length xs. \<not> p j (xs ! j))"
  by (simp add: find_index_def find_index_from_None)

lemma splice_at_split:
  "i < length xs \<Longrightarrow> xs = take i xs @ xs ! i # drop (Suc i) xs"
  by (rule id_take_nth_drop)

lemma set_splice_at_subset: "set (splice_at i xs) \<subseteq> set xs"
  by (auto simp: splice_at_def dest: in_set_takeD in_set_dropD)

lemma length_splice_at: "i < length xs \<Longrightarrow> Suc (length (splice_at i xs)) = length xs"
  by (simp add: splice_at_def)

lemma map_splice_at: "map f (splice_at i xs) = splice_at i (map f xs)"
  by (simp add: splice_at_def take_map drop_map)

lemma distinct_splice_at: "distinct xs \<Longrightarrow> distinct (splice_at i xs)"
  by (auto simp: splice_at_def set_take_disj_set_drop_if_distinct)

lemma sorted_splice_at:
  fixes xs :: "'a::linorder list"
  assumes "sorted xs"
  shows "sorted (splice_at i xs)"
proof (cases "i < length xs")
  case True
  then show ?thesis using assms
    by (subst (asm) splice_at_split [OF True]) (auto simp: splice_at_def sorted_append)
next
  case False
  then show ?thesis using assms by (simp add: splice_at_def)
qed

text \<open>Array.sort with a comparator: stable, equal elements keep their order.\<close>

fun insort_cmp :: "('a \<Rightarrow> 'a \<Rightarrow> int) \<Rightarrow> 'a \<Rightarrow> 'a list \<Rightarrow> 'a list" where
  "insort_cmp cmp x [] = [x]"
| "insort_cmp cmp x (y # ys) = (if cmp x y \<le> 0 then x # y # ys else y # insort_cmp cmp x ys)"

definition sort_cmp :: "('a \<Rightarrow> 'a \<Rightarrow> int) \<Rightarrow> 'a list \<Rightarrow> 'a list" where
  "sort_cmp cmp xs = foldr (insort_cmp cmp) xs []"

lemma set_insort_cmp [simp]: "set (insort_cmp cmp x xs) = insert x (set xs)"
  by (induction xs) auto

lemma length_insort_cmp [simp]: "length (insort_cmp cmp x xs) = Suc (length xs)"
  by (induction xs) auto

lemma set_sort_cmp [simp]: "set (sort_cmp cmp xs) = set xs"
  by (induction xs) (auto simp: sort_cmp_def)

lemma length_sort_cmp [simp]: "length (sort_cmp cmp xs) = length xs"
  by (induction xs) (auto simp: sort_cmp_def)

section \<open>Strings\<close>

text \<open>
  JavaScript strings are modelled by HOL strings; every string the modelled code compares,
  splits or tests against a pattern is ASCII.
\<close>

definition to_lower_char :: "char \<Rightarrow> char" where
  "to_lower_char c = coalesce (map_of (zip ''ABCDEFGHIJKLMNOPQRSTUVWXYZ''
     ''abcdefghijklmnopqrstuvwxyz'') c) c"

definition to_upper_char :: "char \<Rightarrow> char" where
  "to_upper_char c = coalesce (map_of (zip ''abcdefghijklmnopqrstuvwxyz''
     ''ABCDEFGHIJKLMNOPQRSTUVWXYZ'') c) c"

definition starts_with :: "string \<Rightarrow> string \<Rightarrow> bool" where
  "starts_with p s = (take (length p) s = p)"

text \<open>split at a separator character.\<close>

fun split_at :: "char \<Rightarrow> string \<Rightarrow> string list" where
  "split_at c [] = [[]]"
| "split_at c (x # xs) = (if x = c then [] # split_at c xs
     else case split_at c xs of [] \<Rightarrow> [[x]] | p # ps \<Rightarrow> (x # p) # ps)"

fun contains_str :: "string \<Rightarrow> string \<Rightarrow> bool" where
  "contains_str p [] = (p = [])"
| "contains_str p (c # cs) = (starts_with p (c # cs) \<or> contains_str p cs)"

text \<open>trimStart and trim: the white space of ASCII.\<close>

definition whitespace :: "char list" where
  "whitespace = [CHR 0x09, CHR 0x0A, CHR 0x0B, CHR 0x0C, CHR 0x0D, CHR 0x20]"

definition trimStart :: "string \<Rightarrow> string" where
  "trimStart s = dropWhile (\<lambda>c. c \<in> set whitespace) s"

definition trim :: "string \<Rightarrow> string" where
  "trim s = rev (trimStart (rev (trimStart s)))"

text \<open>Decimal digits, as the pattern class for them and parseInt read them.\<close>

definition digit_val :: "char \<Rightarrow> nat option" where
  "digit_val c = map_of (zip ''0123456789'' [0..<10]) c"

definition is_digit :: "char \<Rightarrow> bool" where
  "is_digit c = (digit_val c \<noteq> None)"

definition decimal :: "string \<Rightarrow> nat" where
  "decimal s = foldl (\<lambda>n c. 10 * n + coalesce (digit_val c) 0) 0 s"

section \<open>Effectful code\<close>

text \<open>
  A method that reads and writes a state and may throw is a function from the state to its
  outcome (Inl for a thrown error) and the state it leaves. An awaited call is the application
  of such a function; what the state holds after a throw is what the code had written by then.
\<close>

type_synonym ('e, 's, 'a) act = "'s \<Rightarrow> ('e + 'a) \<times> 's"

definition ok :: "'a \<Rightarrow> ('e, 's, 'a) act" where
  "ok a = (\<lambda>s. (Inr a, s))"

definition throw :: "'e \<Rightarrow> ('e, 's, 'a) act" where
  "throw e = (\<lambda>s. (Inl e, s))"

definition and_then :: "('e, 's, 'a) act \<Rightarrow> ('a \<Rightarrow> ('e, 's, 'b) act) \<Rightarrow> ('e, 's, 'b) act" where
  "and_then m f = (\<lambda>s. case m s of (Inl e, s') \<Rightarrow> (Inl e, s') | (Inr a, s') \<Rightarrow> f a s')"

definition catch :: "('e, 's, 'a) act \<Rightarrow> ('e \<Rightarrow> ('e, 's, 'a) act) \<Rightarrow> ('e, 's, 'a) act" where
  "catch m h = (\<lambda>s. case m s of (Inl e, s') \<Rightarrow> h e s' | (Inr a, s') \<Rightarrow> (Inr a, s'))"

text \<open>try .. finally with a synchronous, non-throwing final block.\<close>

definition try_finally :: "('e, 's, 'a) act \<Rightarrow> ('s \<Rightarrow> 's) \<Rightarrow> ('e, 's, 'a) act" where
  "try_finally m g = (\<lambda>s. case m s of (r, s') \<Rightarrow> (r, g s'))"

definition get_state :: "('s \<Rightarrow> 'a) \<Rightarrow> ('e, 's, 'a) act" where
  "get_state f = (\<lambda>s. (Inr (f s), s))"

definition put_state :: "('s \<Rightarrow> 's) \<Rightarrow> ('e, 's, unit) act" where
  "put_state g = (\<lambda>s. (Inr (), g s))"

definition with_state :: "('s \<Rightarrow> ('e, 's, 'a) act) \<Rightarrow> ('e, 's, 'a) act" where
  "with_state f = (\<lambda>s. f s s)"

text \<open>A for .. of loop: the body runs for each element in order; a throw ends the loop.\<close>

fun for_each :: "'x list \<Rightarrow> ('x \<Rightarrow> ('e, 's, unit) act) \<Rightarrow> ('e, 's, unit) act" where
  "for_each [] f = ok ()"
| "for_each (x # xs) f = and_then (f x) (\<lambda>_. for_each xs f)"

text \<open>The same loop collecting the value the body makes of each element.\<close>

fun map_each :: "'x list \<Rightarrow> ('x \<Rightarrow> ('e, 's, 'y) act) \<Rightarrow> ('e, 's, 'y list) act" where
  "map_each [] f = ok []"
| "map_each (x # xs) f = and_then (f x) (\<lambda>y. and_then (map_each xs f) (\<lambda>ys. ok (y # ys)))"

text \<open>
  Promise.all over started operations: every one of them runs, and the first failure is thrown
  after they have.
\<close>

fun all_each :: "'x list \<Rightarrow> ('x \<Rightarrow> ('e, 's, unit) act) \<Rightarrow> ('e, 's, unit) act" where
  "all_each [] f = ok ()"
| "all_each (x # xs) f = (\<lambda>s. case f x s of (r, s') \<Rightarrow>
     (case all_each xs f s' of (r', s'') \<Rightarrow> (case r of Inl e \<Rightarrow> (Inl e, s'') | Inr _ \<Rightarrow> (r', s''))))"

lemmas act_basic_defs [act_defs] =
  ok_def throw_def and_then_def catch_def try_finally_def get_state_def put_state_def with_state_def

subsection \<open>Invariants of effectful code\<close>

text \<open>
  keeps I m: whatever m does, returning or throwing, it leaves a state satisfying I when it
  started in one. The rules below follow the combinators, so the invariant of a method is
  proved from the invariant of the pieces it is made of.
\<close>

definition keeps :: "('s \<Rightarrow> bool) \<Rightarrow> ('e, 's, 'a) act \<Rightarrow> bool" where
  "keeps I m \<longleftrightarrow> (\<forall>s. I s \<longrightarrow> I (snd (m s)))"

lemma keepsI: "(\<And>s. I s \<Longrightarrow> I (snd (m s))) \<Longrightarrow> keeps I m"
  by (simp add: keeps_def)

lemma keepsD: "keeps I m \<Longrightarrow> I s \<Longrightarrow> I (snd (m s))"
  by (simp add: keeps_def)

lemma keepsE: "keeps I m \<Longrightarrow> m s = (r, s') \<Longrightarrow> I s \<Longrightarrow> I s'"
  using keepsD [of I m s] by simp

lemma keeps_ok [keeps_intros]: "keeps I (ok a)"
  by (simp add: keeps_def ok_def)

lemma keeps_throw [keeps_intros]: "keeps I (throw e)"
  by (simp add: keeps_def throw_def)

lemma keeps_get_state [keeps_intros]: "keeps I (get_state f)"
  by (simp add: keeps_def get_state_def)

lemma keeps_put_state: "(\<And>s. I s \<Longrightarrow> I (g s)) \<Longrightarrow> keeps I (put_state g)"
  by (simp add: keeps_def put_state_def)

lemma keeps_and_then [keeps_intros]:
  assumes "keeps I m" and "\<And>a. keeps I (f a)"
  shows "keeps I (and_then m f)"
  using assms by (auto simp: keeps_def and_then_def split: prod.splits sum.splits)

lemma keeps_catch [keeps_intros]:
  assumes "keeps I m" and "\<And>e. keeps I (h e)"
  shows "keeps I (catch m h)"
  using assms by (auto simp: keeps_def catch_def split: prod.splits sum.splits)

lemma keeps_try_finally:
  assumes "keeps I m" and "\<And>s. I s \<Longrightarrow> I (g s)"
  shows "keeps I (try_finally m g)"
  using assms by (auto simp: keeps_def try_finally_def split: prod.splits)

lemma keeps_with_state [keeps_intros]:
  assumes "\<And>t. I t \<Longrightarrow> keeps I (f t)"
  shows "keeps I (with_state f)"
  using assms by (simp add: keeps_def with_state_def)

lemma keeps_for_each [keeps_intros]:
  assumes "\<And>x. keeps I (f x)"
  shows "keeps I (for_each xs f)"
  by (induction xs) (auto intro!: keeps_ok keeps_and_then assms)

lemma keeps_all_each:
  assumes "\<And>x. x \<in> set xs \<Longrightarrow> keeps I (f x)"
  shows "keeps I (all_each xs f)"
  using assms
proof (induction xs)
  case (Cons x xs)
  then have "keeps I (f x)" and "keeps I (all_each xs f)" by auto
  then show ?case by (auto simp: keeps_def split: prod.splits sum.splits)
qed (simp add: keeps_ok)

lemma keeps_for_each_in:
  assumes "\<And>x. x \<in> set xs \<Longrightarrow> keeps I (f x)"
  shows "keeps I (for_each xs f)"
  using assms by (induction xs) (auto intro!: keeps_ok keeps_and_then)

lemma keeps_map_each [keeps_intros]:
  assumes "\<And>x. keeps I (f x)"
  shows "keeps I (map_each xs f)"
  by (induction xs) (auto intro!: keeps_ok keeps_and_then assms)

lemma keeps_case_prod [keeps_intros]:
  assumes "\<And>x y. keeps I (f x y)"
  shows "keeps I (case p of (x, y) \<Rightarrow> f x y)"
  using assms by (cases p) auto

lemma keeps_if [keeps_intros]:
  "keeps I m \<Longrightarrow> keeps I n \<Longrightarrow> keeps I (if b then m else n)"
  by simp

lemma keeps_case_option [keeps_intros]:
  assumes "keeps I m" and "\<And>x. keeps I (f x)"
  shows "keeps I (case z of None \<Rightarrow> m | Some x \<Rightarrow> f x)"
  using assms by (cases z) auto

lemma keeps_case_sum [keeps_intros]:
  assumes "\<And>x. keeps I (f x)" and "\<And>x. keeps I (g x)"
  shows "keeps I (case z of Inl x \<Rightarrow> f x | Inr x \<Rightarrow> g x)"
  using assms by (cases z) auto

text \<open>returns P m: every value m returns satisfies P.\<close>

definition returns :: "('a \<Rightarrow> bool) \<Rightarrow> ('e, 's, 'a) act \<Rightarrow> bool" where
  "returns P m \<longleftrightarrow> (\<forall>s a s'. m s = (Inr a, s') \<longrightarrow> P a)"

lemma keeps_and_then_returns:
  assumes "keeps I m" and "returns P m" and "\<And>a. P a \<Longrightarrow> keeps I (f a)"
  shows "keeps I (and_then m f)"
  using assms by (fastforce simp: keeps_def returns_def and_then_def split: prod.splits sum.splits)

lemma returns_ok: "P a \<Longrightarrow> returns P (ok a)"
  by (simp add: returns_def ok_def)

lemma returns_and_then:
  assumes "\<And>a. returns P (f a)"
  shows "returns P (and_then m f)"
  using assms by (auto simp: returns_def and_then_def split: prod.splits sum.splits)

lemma returns_and_then_from:
  assumes "returns Q m" and "\<And>a. Q a \<Longrightarrow> returns P (f a)"
  shows "returns P (and_then m f)"
  using assms by (fastforce simp: returns_def and_then_def split: prod.splits sum.splits)

lemma returns_if: "returns P m \<Longrightarrow> returns P n \<Longrightarrow> returns P (if b then m else n)"
  by simp

lemma returns_map_each:
  assumes "\<And>x. returns (P x) (f x)"
  shows "returns (list_all2 P xs) (map_each xs f)"
proof (induction xs)
  case Nil
  show ?case by (simp add: returns_ok)
next
  case (Cons x xs)
  then show ?case
    by (simp, intro returns_and_then_from [OF assms] returns_and_then_from [OF Cons] returns_ok) simp
qed

text \<open>keeps_on_error I m: when m throws, it leaves a state satisfying I.\<close>

definition keeps_on_error :: "('s \<Rightarrow> bool) \<Rightarrow> ('e, 's, 'a) act \<Rightarrow> bool" where
  "keeps_on_error I m \<longleftrightarrow> (\<forall>s e s'. I s \<longrightarrow> m s = (Inl e, s') \<longrightarrow> I s')"

lemma keeps_on_error_and_then:
  assumes "keeps I m" and "\<And>a. keeps_on_error I (f a)"
  shows "keeps_on_error I (and_then m f)"
  using assms
  by (fastforce simp: keeps_on_error_def keeps_def and_then_def split: prod.splits sum.splits)

lemma keeps_on_error_last:
  assumes "keeps_on_error I m"
  shows "keeps_on_error I (and_then m (\<lambda>_. ok x))"
  using assms
  by (auto simp: keeps_on_error_def and_then_def ok_def split: prod.splits sum.splits)

section \<open>Event-driven components\<close>

text \<open>
  The contract every event-driven component of the program has: a step function and an
  invariant that one step keeps. What is proved here once is that every run keeps it, and that
  a run over a concatenation is the run of the second part from where the first part ended.
\<close>

locale stepper =
  fixes step :: "'s \<Rightarrow> 'e \<Rightarrow> 's"
    and inv :: "'s \<Rightarrow> bool"
  assumes step_inv: "inv s \<Longrightarrow> inv (step s e)"
begin

lemma run_inv: "inv s \<Longrightarrow> inv (foldl step s es)"
  by (induction es arbitrary: s) (auto intro: step_inv)

lemma run_inv_prefix: "inv s \<Longrightarrow> inv (foldl step s (take n es))"
  by (rule run_inv)

lemma run_safe:
  assumes "inv s" and "\<And>t. inv t \<Longrightarrow> safe t"
  shows "safe (foldl step s es)"
  using assms run_inv by blast

end

end
