(* ===== verification/SyncTypes.thy ===== *)
theory SyncTypes
  imports Prelude
begin

text \<open>
  The vocabulary of packages/types and of the error classes of packages/api-contract: the
  errors a call may throw, the durable Item command the outbound queue carries, the requests
  it turns into, and the acknowledgement a server write yields. Field names are the source's;
  a field the TypeScript type declares optional is an option here, undefined being None.
\<close>

section \<open>Errors\<close>

text \<open>
  A thrown value: a transport failure (the request never reached the server), an answered API
  error with its HTTP status, or any other Error; each with its message.
\<close>

datatype js_error =
    TransportError string
  | ApiError int string
  | JsError string

fun error_message :: "js_error \<Rightarrow> string" where
  "error_message (TransportError m) = m"
| "error_message (ApiError _ m) = m"
| "error_message (JsError m) = m"

fun isApiErrorStatus :: "js_error \<Rightarrow> int \<Rightarrow> bool" where
  "isApiErrorStatus (ApiError s _) status = (s = status)"
| "isApiErrorStatus _ status = False"

fun isApiTransportError :: "js_error \<Rightarrow> bool" where
  "isApiTransportError (TransportError _) = True"
| "isApiTransportError _ = False"

definition network_words :: "string list" where
  "network_words = [''network'', ''fetch'', ''offline'', ''timeout'', ''connection'', ''abort'']"

fun isNetworkError :: "js_error \<Rightarrow> bool" where
  "isNetworkError (TransportError _) = True"
| "isNetworkError (ApiError status _) = (status \<ge> 500)"
| "isNetworkError (JsError m) =
     list_ex (\<lambda>w. contains_str w (map to_lower_char m)) network_words"

section \<open>Item commands\<close>

datatype command_type =
    Create | Update | Delete | PermanentDelete | Restore | Move | CrossAccountMove | ToggleFavorite

datatype command_status = Staged | Applying | Pending | Retrying | Conflicted | Failed

record encrypted_payload =
  payloadData :: string
  payloadIv :: string
  payloadAlgorithm :: string
  payloadVersion :: int
  payloadUserId :: string

record command =
  accountId :: string
  accountEmail :: "string option"
  commandId :: string
  operationId :: "string option"
  attemptId :: "string option"
  commandType :: command_type
  entityId :: string
  vaultId :: string
  targetVaultId :: "string option"
  targetAccountId :: "string option"
  targetItemId :: "string option"
  category :: "string option"
  encryptedPayload :: "encrypted_payload option"
  favorite :: "bool option"
  baseVersion :: int
  timestamp :: int
  retryCount :: nat
  status :: "command_status option"
  lastError :: "string option"
  nextAttemptAt :: "int option"
  conflictCopyId :: "string option"
  projectionClaimId :: "string option"
  projectionClaimExpiresAt :: "int option"

text \<open>The identity of a command, operationId ?? id, by which every queue operation finds it.\<close>

definition opId :: "command \<Rightarrow> string" where
  "opId c = coalesce (operationId c) (commandId c)"

record acknowledgement =
  ackEntityId :: string
  ackEtag :: "string option"
  ackVersion :: "int option"

section \<open>Requests and responses\<close>

record write_options =
  optEtag :: string
  optIdempotencyKey :: string

record encrypted_body =
  bodyData :: string
  bodyIv :: string
  bodyAlgorithm :: string

datatype api_request =
    ItemsCreate string string string encrypted_body string
  | ItemsUpdate string encrypted_body write_options
  | ItemsTrash string write_options
  | ItemsDeletePermanently string write_options
  | ItemsRestore string write_options
  | ItemsMove string string string encrypted_body write_options
  | ItemsSetFavorite string bool write_options

record api_response =
  respEtag :: "string option"
  respId :: "string option"
  respItemId :: "string option"

section \<open>Items on the wire and in the cache\<close>

text \<open>
  An attachment is the wire object, its field names with their values; the code modelled here
  copies it whole. serverDeletedAt is absent (None), null (Some None) or a time stamp on the
  wire; the cache stores null or a time stamp. serverAttachments is None when the wire leaves the
  list out or sends null, which the optional call in toCachedItem does not tell apart.
\<close>

datatype attachment = Attachment "(string \<times> string) list"

record item_fields =
  itemId :: string
  itemVaultId :: string
  itemCategory :: string
  itemFavorite :: bool
  itemData :: string
  itemIv :: string
  itemAlgorithm :: string
  itemVersion :: int
  itemLastModifiedBy :: string
  itemEncryptionVersion :: int
  itemEncryptedBy :: string
  itemCreatedAt :: string
  itemUpdatedAt :: string

record server_item = item_fields +
  serverDeletedAt :: "string option option"
  serverAttachments :: "attachment list option"

record item_scope =
  scopeAccountId :: "string option"
  scopeAccountEmail :: "string option"
  scopeServerUrl :: "string option"

record cached_item = item_fields +
  cachedDeletedAt :: "string option"
  cachedScope :: item_scope
  cachedAttachments :: "attachment list option"

fun toCachedAttachment :: "attachment \<Rightarrow> attachment" where
  "toCachedAttachment (Attachment fs) = Attachment fs"

definition toCachedItem :: "server_item \<Rightarrow> item_scope \<Rightarrow> cached_item" where
  "toCachedItem item scope =
     \<lparr>itemId = itemId item, itemVaultId = itemVaultId item,
      itemCategory = itemCategory item, itemFavorite = itemFavorite item,
      itemData = itemData item, itemIv = itemIv item, itemAlgorithm = itemAlgorithm item,
      itemVersion = itemVersion item, itemLastModifiedBy = itemLastModifiedBy item,
      itemEncryptionVersion = itemEncryptionVersion item,
      itemEncryptedBy = itemEncryptedBy item,
      itemCreatedAt = itemCreatedAt item, itemUpdatedAt = itemUpdatedAt item,
      cachedDeletedAt = coalesce (serverDeletedAt item) None,
      cachedScope = scope,
      cachedAttachments = map_option (map toCachedAttachment) (serverAttachments item)\<rparr>"

record item_response =
  getEtag :: "string option"
  getData :: server_item

end
