(* ===== verification/QueueRules.thy ===== *)
theory QueueRules
  imports SyncTypes
begin

text \<open>
  The pure part of packages/sync/src/outbound-queue.ts: which commands are active, ready or
  sealed, how a failed command is rescheduled, how a command that trailed an acknowledged one is
  rebased, what each command sends to the server, and how an ETag is read.
\<close>

section \<open>Constants and classification\<close>

definition MAX_RETRY_COUNT :: nat where "MAX_RETRY_COUNT = 5"
definition BASE_RETRY_DELAY_MS :: int where "BASE_RETRY_DELAY_MS = 1000"
definition MAX_RETRY_DELAY_MS :: int where "MAX_RETRY_DELAY_MS = 60000"
definition MAX_SAFE_INTEGER :: nat where "MAX_SAFE_INTEGER = 9007199254740991"

definition isActiveMutation :: "command \<Rightarrow> bool" where
  "isActiveMutation m =
     (status m = None \<or> status m = Some Staged \<or> status m = Some Applying \<or>
      status m = Some Pending \<or> status m = Some Retrying)"

definition isReadyMutation :: "command \<Rightarrow> int \<Rightarrow> bool" where
  "isReadyMutation m now =
     ((status m = None \<or> status m = Some Pending \<or> status m = Some Retrying) \<and>
      (case nextAttemptAt m of None \<Rightarrow> True | Some t \<Rightarrow> t \<le> now))"

definition carriesSealedCiphertext :: "command \<Rightarrow> bool" where
  "carriesSealedCiphertext m =
     (commandType m = Create \<or> commandType m = Update \<or> commandType m = Move \<or>
      commandType m = CrossAccountMove)"

definition normalizeMutation :: "command \<Rightarrow> command" where
  "normalizeMutation m =
     m\<lparr>operationId := Some (coalesce (operationId m) (commandId m)),
       attemptId := Some (coalesce (attemptId m) (commandId m)),
       status := Some (coalesce (status m) Pending)\<rparr>"

text \<open>Array.sort by timestamp; both sorts are stable.\<close>

definition sort_by_timestamp :: "command list \<Rightarrow> command list" where
  "sort_by_timestamp q = sort_key timestamp q"

section \<open>Retries and conflicts\<close>

text \<open>The identifiers below take the random suffix the platform supplies.\<close>

definition newAttemptId :: "command \<Rightarrow> string \<Rightarrow> string" where
  "newAttemptId m suffix = opId m @ '':attempt:'' @ suffix"

definition retryDelay :: "nat \<Rightarrow> int" where
  "retryDelay retries = min (BASE_RETRY_DELAY_MS * 2 ^ (retries - 1)) MAX_RETRY_DELAY_MS"

definition scheduleRetry :: "int \<Rightarrow> command \<Rightarrow> js_error \<Rightarrow> command" where
  "scheduleRetry now m error =
     (if retryCount m \<ge> MAX_RETRY_COUNT
      then m\<lparr>status := Some Failed, nextAttemptAt := None,
             lastError := Some (error_message error)\<rparr>
      else m\<lparr>status := Some Retrying, nextAttemptAt := Some (now + retryDelay (retryCount m)),
             lastError := Some (error_message error)\<rparr>)"

definition bumpRetry :: "command \<Rightarrow> command" where
  "bumpRetry m = m\<lparr>retryCount := retryCount m + 1\<rparr>"

definition markRetrying :: "int \<Rightarrow> string \<Rightarrow> command \<Rightarrow> js_error \<Rightarrow> command" where
  "markRetrying now suffix m error =
     (let m1 = bumpRetry m;
          m2 = (if commandType m1 = CrossAccountMove
                then m1\<lparr>attemptId := Some (newAttemptId m1 suffix)\<rparr> else m1)
      in scheduleRetry now m2 error)"

definition markEncryptedConflict :: "string \<Rightarrow> command \<Rightarrow> js_error \<Rightarrow> command" where
  "markEncryptedConflict copyId m error =
     m\<lparr>status := Some Conflicted, nextAttemptAt := None,
       lastError := Some (error_message error),
       conflictCopyId := Some (coalesce (conflictCopyId m) copyId)\<rparr>"

definition rebaseChainedCommand :: "string \<Rightarrow> command \<Rightarrow> int \<Rightarrow> command" where
  "rebaseChainedCommand suffix chained serverVersion =
     (if baseVersion chained = serverVersion then chained
      else if carriesSealedCiphertext chained
      then markEncryptedConflict suffix chained
             (JsError ''The Item changed before this edit was sent'')
      else chained\<lparr>baseVersion := serverVersion,
                   attemptId := Some (newAttemptId chained suffix),
                   status := Some Pending, nextAttemptAt := None\<rparr>)"

text \<open>
  What a 409 or 412 answer does to a command once the server's current revision is known
  (version is None when the server named none): the part of rebaseMetadataMutation after its two
  awaited calls. The flag says whether the command may be retried at once.
\<close>

definition rebaseOnto :: "string \<Rightarrow> command \<Rightarrow> int option \<Rightarrow> command \<times> bool" where
  "rebaseOnto suffix m version =
     (if carriesSealedCiphertext m
      then (markEncryptedConflict suffix m (JsError ''The Item changed on another device''), False)
      else
        let m1 = bumpRetry m in
        if retryCount m1 \<ge> MAX_RETRY_COUNT
        then (m1\<lparr>status := Some Failed, nextAttemptAt := None,
                 lastError := Some ''Conflict retry limit reached''\<rparr>, False)
        else case version of
            None \<Rightarrow> (m1\<lparr>status := Some Failed,
                         lastError := Some ''Server returned no authoritative Item revision''\<rparr>,
                     False)
          | Some v \<Rightarrow> (m1\<lparr>baseVersion := v, attemptId := Some (newAttemptId m1 suffix),
                            status := Some Retrying, nextAttemptAt := None, lastError := None\<rparr>,
                       True))"

section \<open>ETags\<close>

text \<open>
  strongNumericEtag: a quoted run of decimal digits whose value is a safe integer. A value above
  the safe range is converted to a double that is not safe either, so it is refused.
\<close>

fun etag_digits :: "string \<Rightarrow> string option" where
  "etag_digits (q # rest) =
     (if q = CHR 0x22 \<and> rest \<noteq> [] \<and> last rest = CHR 0x22 \<and> butlast rest \<noteq> [] \<and>
         list_all is_digit (butlast rest)
      then Some (butlast rest) else None)"
| "etag_digits [] = None"

definition strongNumericEtag :: "string option \<Rightarrow> int option" where
  "strongNumericEtag etag =
     (case etag_digits (coalesce etag []) of
        None \<Rightarrow> None
      | Some ds \<Rightarrow> if decimal ds \<le> MAX_SAFE_INTEGER then Some (int (decimal ds)) else None)"

text \<open>The decimal text of an integer, as the template literal renders a revision.\<close>

fun nat_text :: "nat \<Rightarrow> string" where
  "nat_text n = (if n < 10 then [''0123456789'' ! n]
                 else nat_text (n div 10) @ [''0123456789'' ! (n mod 10)])"

declare nat_text.simps [simp del]

definition int_text :: "int \<Rightarrow> string" where
  "int_text i = (if i < 0 then CHR ''-'' # nat_text (nat (- i)) else nat_text (nat i))"

section \<open>Requests\<close>

definition writeOptions :: "command \<Rightarrow> write_options" where
  "writeOptions m =
     \<lparr>optEtag = [CHR 0x22] @ int_text (baseVersion m) @ [CHR 0x22],
      optIdempotencyKey = coalesce (attemptId m) (commandId m)\<rparr>"

definition payload_body :: "encrypted_payload \<Rightarrow> encrypted_body" where
  "payload_body p = \<lparr>bodyData = payloadData p, bodyIv = payloadIv p,
                     bodyAlgorithm = payloadAlgorithm p\<rparr>"

text \<open>
  The request processMutation sends, or the error it throws before sending any. JavaScript's
  falsy test also refuses an empty category or target vault.
\<close>

definition truthy :: "string option \<Rightarrow> bool" where
  "truthy s = (s \<noteq> None \<and> s \<noteq> Some [])"

definition mutationRequest :: "command \<Rightarrow> js_error + api_request" where
  "mutationRequest m = (case commandType m of
       Create \<Rightarrow>
         (case (encryptedPayload m, category m) of
            (Some p, Some cat) \<Rightarrow>
              if cat = [] then Inl (JsError (''Invalid create mutation payload for '' @ entityId m))
              else Inr (ItemsCreate (vaultId m) (entityId m) cat (payload_body p)
                          (coalesce (attemptId m) (commandId m)))
          | _ \<Rightarrow> Inl (JsError (''Invalid create mutation payload for '' @ entityId m)))
     | Update \<Rightarrow>
         (case encryptedPayload m of
            Some p \<Rightarrow> Inr (ItemsUpdate (entityId m) (payload_body p) (writeOptions m))
          | None \<Rightarrow> Inl (JsError (''Invalid update mutation payload for '' @ entityId m)))
     | Delete \<Rightarrow> Inr (ItemsTrash (entityId m) (writeOptions m))
     | PermanentDelete \<Rightarrow> Inr (ItemsDeletePermanently (entityId m) (writeOptions m))
     | Restore \<Rightarrow> Inr (ItemsRestore (entityId m) (writeOptions m))
     | Move \<Rightarrow>
         (case (encryptedPayload m, targetVaultId m) of
            (Some p, Some target) \<Rightarrow>
              if target = [] then Inl (JsError (''Invalid move payload for '' @ entityId m))
              else Inr (ItemsMove (entityId m) (vaultId m) target (payload_body p) (writeOptions m))
          | _ \<Rightarrow> Inl (JsError (''Invalid move payload for '' @ entityId m)))
     | CrossAccountMove \<Rightarrow>
         Inl (JsError (''Cross-account move '' @ opId m @ '' requires a semantic executor''))
     | ToggleFavorite \<Rightarrow>
         Inr (ItemsSetFavorite (entityId m) (coalesce (favorite m) False) (writeOptions m)))"

text \<open>
  The identifier a create was answered with: the item id, or else an id that is not the vault's.
\<close>

definition createdId :: "command \<Rightarrow> api_response \<Rightarrow> string option" where
  "createdId m r =
     (case respItemId r of
        Some i \<Rightarrow> Some i
      | None \<Rightarrow> if truthy (respId r) \<and> respId r \<noteq> Some (vaultId m) then respId r else None)"

section \<open>Choosing the next command\<close>

text \<open>
  findRunnableMutationIndex: the first ready command this pass has not attempted yet and behind
  no earlier active command on the same Item.
\<close>

definition isRunnable :: "int \<Rightarrow> string list \<Rightarrow> command list \<Rightarrow> nat \<Rightarrow> command \<Rightarrow> bool" where
  "isRunnable now attempted q i candidate =
     (isReadyMutation candidate now \<and> opId candidate \<notin> set attempted \<and>
      \<not> list_ex (\<lambda>earlier. entityId earlier = entityId candidate \<and> isActiveMutation earlier)
          (take i q))"

definition findRunnable :: "int \<Rightarrow> string list \<Rightarrow> command list \<Rightarrow> nat option" where
  "findRunnable now attempted q = find_index (isRunnable now attempted q) q"

end
