(* ===== verification/QueueEngine.thy ===== *)
theory QueueEngine
  imports QueueRules
begin

text \<open>
  The state of ItemSyncEngine (packages/sync/src/outbound-queue.ts), its storage document, and
  the persistence of a queue: a merge with what other processes wrote, made inside one atomic
  update of the document, followed by the adoption of the merged result.

  The platform is the record env: the clock, the random suffixes, the outcome of a storage
  update, the API client and the reconciler, each a function of a world it may change. Persisting
  is chained by the code (persistenceTail), so one write runs after another; writeQueue is
  nevertheless given as its two halves, writeBegin up to and including the atomic update and
  writeFinish after it, because other calls of the engine can run between them.
\<close>

section \<open>State\<close>

type_synonym queue_document = "(string \<times> command list) list"

record temp_id_mapping =
  tempId :: string
  realId :: string
  mappingAccountId :: string
  mappingAccountEmail :: "string option"

record 'w engine =
  queuesByAccountId :: queue_document
  latestMappings :: "temp_id_mapping list"
  draining :: bool
  drainRequested :: bool
  persistedOperationIds :: "(string \<times> string list) list"
  persistedCommandSignatures :: "(string \<times> (string \<times> command) list) list"
  document :: "queue_document option"
  notified :: nat
  world :: 'w

text \<open>
  A reconciler's optional methods are options. apply answers the error it threw, if any, and the
  status it left on the command, the one field the engine reads back from it.
\<close>

record 'w reconciler_port =
  rcApply :: "command \<Rightarrow> 'w \<Rightarrow> (js_error option \<times> command_status option) \<times> 'w"
  rcExecuteSemantic :: "(command \<Rightarrow> 'w \<Rightarrow> (js_error + acknowledgement option) \<times> 'w) option"
  rcDiscardElsewhere :: "(command \<Rightarrow> 'w \<Rightarrow> (js_error + unit) \<times> 'w) option"
  rcPreserveConflict :: "(command \<Rightarrow> 'w \<Rightarrow> (js_error + command option) \<times> 'w) option"
  rcReconcileAuthoritative :: "(command \<Rightarrow> cached_item \<Rightarrow> 'w \<Rightarrow> (js_error + unit) \<times> 'w) option"
  rcAcknowledge :: "command \<Rightarrow> acknowledgement \<Rightarrow> 'w \<Rightarrow> (js_error + unit) \<times> 'w"

record 'w env =
  now :: "'w \<Rightarrow> int"
  freshSuffix :: "'w \<Rightarrow> string \<times> 'w"
  localeCompare :: "string \<Rightarrow> string \<Rightarrow> int"
  storageOutcome :: "'w \<Rightarrow> (js_error + unit) \<times> 'w"
  getClient :: "string \<Rightarrow> 'w \<Rightarrow> (js_error + unit) \<times> 'w"
  sendRequest :: "string \<Rightarrow> api_request \<Rightarrow> 'w \<Rightarrow> (js_error + api_response) \<times> 'w"
  fetchItem :: "string \<Rightarrow> string \<Rightarrow> 'w \<Rightarrow> (js_error + item_response) \<times> 'w"
  reconciler :: "'w reconciler_port option"

type_synonym ('w, 'a) eng = "(js_error, 'w engine, 'a) act"

definition new_engine :: "'w \<Rightarrow> queue_document option \<Rightarrow> 'w engine" where
  "new_engine w doc =
     \<lparr>queuesByAccountId = [], latestMappings = [], draining = False, drainRequested = False,
      persistedOperationIds = [], persistedCommandSignatures = [], document = doc,
      notified = 0, world = w\<rparr>"

definition queue_of :: "'w engine \<Rightarrow> string \<Rightarrow> command list" where
  "queue_of s acc = coalesce (js_get (queuesByAccountId s) acc) []"

definition stored_queue :: "'w engine \<Rightarrow> string \<Rightarrow> command list" where
  "stored_queue s acc = coalesce (js_get (coalesce (document s) []) acc) []"

definition in_world :: "('w \<Rightarrow> (js_error + 'a) \<times> 'w) \<Rightarrow> ('w, 'a) eng" where
  "in_world f = (\<lambda>s. let (r, w) = f (world s) in (r, s\<lparr>world := w\<rparr>))"

definition clock :: "'w env \<Rightarrow> ('w, int) eng" where
  "clock env = get_state (\<lambda>s. now env (world s))"

definition suffix :: "'w env \<Rightarrow> ('w, string) eng" where
  "suffix env = in_world (\<lambda>w. let (x, w') = freshSuffix env w in (Inr x, w'))"

definition emit :: "('w, unit) eng" where
  "emit = put_state (\<lambda>s. s\<lparr>notified := Suc (notified s)\<rparr>)"

text \<open>
  A command held across an awaited call is an object of the account's queue; the code changes it
  through that reference. In the model the change is made to the queue's element with the
  command's operation id, and to none when the element has left the queue.
\<close>

definition set_queue :: "string \<Rightarrow> command list \<Rightarrow> 'w engine \<Rightarrow> 'w engine" where
  "set_queue acc q s = s\<lparr>queuesByAccountId := js_set acc q (queuesByAccountId s)\<rparr>"

definition replace_in :: "command \<Rightarrow> command list \<Rightarrow> command list" where
  "replace_in m q = map (\<lambda>c. if opId c = opId m then m else c) q"

definition update_command :: "string \<Rightarrow> command \<Rightarrow> ('w, unit) eng" where
  "update_command acc m = put_state (\<lambda>s.
     if js_has (queuesByAccountId s) acc then set_queue acc (replace_in m (queue_of s acc)) s
     else s)"

definition find_command :: "'w engine \<Rightarrow> string \<Rightarrow> string \<Rightarrow> command option" where
  "find_command s acc oid = List.find (\<lambda>c. opId c = oid) (queue_of s acc)"

section \<open>Persistence\<close>

text \<open>
  JSON.stringify(command): two commands have the same signature exactly when they have the same
  fields, so the command itself stands for its text.
\<close>

definition commandSignature :: "command \<Rightarrow> command" where
  "commandSignature c = c"

definition by_operation :: "command list \<Rightarrow> (string \<times> command) list" where
  "by_operation q = js_map_of (map (\<lambda>c. (opId c, c)) q)"

definition rememberPersistedCommands :: "string \<Rightarrow> command list \<Rightarrow> 'w engine \<Rightarrow> 'w engine" where
  "rememberPersistedCommands acc cs s =
     s\<lparr>persistedOperationIds := js_set acc (remdups (map opId cs)) (persistedOperationIds s),
       persistedCommandSignatures :=
         js_set acc (js_map_of (map (\<lambda>c. (opId c, commandSignature c)) cs))
           (persistedCommandSignatures s)\<rparr>"

definition adoptReconciledQueue :: "string \<Rightarrow> command list \<Rightarrow> 'w engine \<Rightarrow> 'w engine" where
  "adoptReconciledQueue acc reconciled s =
     (if reconciled = [] then s\<lparr>queuesByAccountId := js_delete acc (queuesByAccountId s)\<rparr>
      else set_queue acc reconciled s)"

text \<open>
  The updater of writeQueue. One command of the queue is skipped when another process
  acknowledged it (known here, gone from the document) and when another process changed it since
  this engine last saw it; every other one is written.
\<close>

fun merge_command ::
  "string list \<Rightarrow> (string \<times> command) list \<Rightarrow> string \<times> command \<Rightarrow>
   (string \<times> command) list \<times> command list \<Rightarrow> (string \<times> command) list \<times> command list" where
  "merge_command knownIds knownSigs (oid, c) (merged, elsewhere) =
     (if oid \<in> set knownIds \<and> \<not> js_has merged oid then (merged, elsewhere @ [c])
      else case (js_get merged oid, js_get knownSigs oid) of
          (Some current, Some sig) \<Rightarrow>
            if commandSignature current \<noteq> sig then (merged, elsewhere)
            else (js_set oid c merged, elsewhere)
        | _ \<Rightarrow> (js_set oid c merged, elsewhere))"

definition merge_queue ::
  "string list \<Rightarrow> (string \<times> command) list \<Rightarrow> command list \<Rightarrow> command list \<Rightarrow>
   command list \<times> command list" where
  "merge_queue knownIds knownSigs queue stored =
     (let desired = by_operation queue;
          pruned = fold (\<lambda>k m. if js_has desired k then m else js_delete k m) knownIds
                     (by_operation stored);
          (merged, elsewhere) = fold (merge_command knownIds knownSigs) desired (pruned, [])
      in (sort_by_timestamp (map snd merged), elsewhere))"

definition put_account :: "string \<Rightarrow> command list \<Rightarrow> queue_document option \<Rightarrow> queue_document option" where
  "put_account acc next doc =
     (let d = coalesce doc [];
          d' = (if next \<noteq> [] then js_set acc next d else js_delete acc d)
      in if d' \<noteq> [] then Some d' else None)"

text \<open>
  writeBegin: the desired queue and the known ids are read, and the document is updated
  atomically. Answers the desired queue and the commands found acknowledged elsewhere.
\<close>

definition writeBegin ::
  "'w env \<Rightarrow> string \<Rightarrow> ('w, command list \<times> command list) eng" where
  "writeBegin env acc = with_state (\<lambda>s.
     let queue = queue_of s acc;
         knownIds = coalesce (js_get (persistedOperationIds s) acc) [];
         knownSigs = coalesce (js_get (persistedCommandSignatures s) acc) []
     in and_then (in_world (storageOutcome env)) (\<lambda>_. with_state (\<lambda>t.
          let (next, elsewhere) = merge_queue knownIds knownSigs queue (stored_queue t acc)
          in and_then (put_state (\<lambda>u. u\<lparr>document := put_account acc next (document u)\<rparr>))
               (\<lambda>_. ok (queue, elsewhere)))))"

definition discardAll :: "'w env \<Rightarrow> command list \<Rightarrow> ('w, unit) eng" where
  "discardAll env cs = for_each cs (\<lambda>c.
     case reconciler env of None \<Rightarrow> ok ()
     | Some rc \<Rightarrow> (case rcDiscardElsewhere rc of None \<Rightarrow> ok () | Some f \<Rightarrow> in_world (f c)))"

text \<open>
  writeFinish: the commands acknowledged elsewhere are discarded, a command another process added
  asks for a further drain, and the document's queue (as the update answered it) is adopted.
\<close>

definition writeFinish ::
  "'w env \<Rightarrow> string \<Rightarrow> command list \<Rightarrow> command list \<Rightarrow> command list \<Rightarrow> ('w, unit) eng" where
  "writeFinish env acc queue elsewhere reconciled =
     and_then (discardAll env elsewhere) (\<lambda>_. put_state (\<lambda>s.
       let s1 = (if list_ex (\<lambda>c. opId c \<notin> set (map opId queue)) reconciled
                 then s\<lparr>drainRequested := True\<rparr> else s)
       in rememberPersistedCommands acc reconciled (adoptReconciledQueue acc reconciled s1)))"

definition writeQueue :: "'w env \<Rightarrow> string \<Rightarrow> ('w, unit) eng" where
  "writeQueue env acc =
     and_then (writeBegin env acc) (\<lambda>(queue, elsewhere).
       with_state (\<lambda>s. writeFinish env acc queue elsewhere (stored_queue s acc)))"

definition schedulePersistence :: "'w env \<Rightarrow> string \<Rightarrow> ('w, unit) eng" where
  "schedulePersistence env acc = writeQueue env acc"

text \<open>
  persistAcknowledgement: inside the update the acknowledged command is dropped and the first
  active command on the same Item is rebased onto the server's revision.
\<close>

definition rebase_first ::
  "string \<Rightarrow> string \<Rightarrow> int \<Rightarrow> command list \<Rightarrow> command list \<times> string option" where
  "rebase_first sfx entity version cs =
     (case find_index (\<lambda>_ c. entityId c = entity \<and> isActiveMutation c) cs of
        None \<Rightarrow> (cs, None)
      | Some i \<Rightarrow>
          let c = rebaseChainedCommand sfx (cs ! i) version
          in (cs[i := c], if status c = Some Conflicted then Some (opId c) else None))"

definition acknowledge_in ::
  "string \<Rightarrow> command \<Rightarrow> int option \<Rightarrow> command list \<Rightarrow> command list \<times> string option" where
  "acknowledge_in sfx m serverVersion stored =
     (let next = filter (\<lambda>c. opId c \<noteq> opId m) stored
      in case serverVersion of None \<Rightarrow> (next, None)
         | Some v \<Rightarrow> rebase_first sfx (entityId m) v next)"

definition persistAcknowledgement ::
  "'w env \<Rightarrow> string \<Rightarrow> command \<Rightarrow> int option \<Rightarrow> ('w, command option) eng" where
  "persistAcknowledgement env acc m serverVersion =
     and_then (in_world (storageOutcome env)) (\<lambda>_.
     and_then (suffix env) (\<lambda>sfx. with_state (\<lambda>s.
       let (next, conflicted) = acknowledge_in sfx m serverVersion (stored_queue s acc)
       in and_then (put_state (\<lambda>t.
            rememberPersistedCommands acc next (adoptReconciledQueue acc next
              (t\<lparr>document := put_account acc next (document t)\<rparr>))))
          (\<lambda>_. ok (case conflicted of None \<Rightarrow> None
                   | Some oid \<Rightarrow> List.find (\<lambda>c. opId c = oid) next)))))"

end
