(* ===== verification/QueueOps.thy ===== *)
theory QueueOps
  imports QueueEngine
begin

text \<open>
  The public operations of ItemSyncEngine (packages/sync/src/outbound-queue.ts) that put commands
  into a queue and move them through their life: enqueue, stage, claimStaged, activate, cancel,
  restore, clear, and the read-only projections.
\<close>

section \<open>Projection by the reconciler\<close>

text \<open>The outcome of reconciler.apply: the error it threw, if any, and the status it left.\<close>

definition apply_command ::
  "'w env \<Rightarrow> command \<Rightarrow> ('w, js_error option \<times> command_status option) eng" where
  "apply_command env c = (case reconciler env of
       None \<Rightarrow> ok (None, status c)
     | Some rc \<Rightarrow> in_world (\<lambda>w. let (r, w') = rcApply rc c w in (Inr r, w')))"

section \<open>enqueue\<close>

text \<open>
  The part of enqueue before its first awaited call: nothing when the operation is already
  queued, otherwise the normalised command is pushed and the queue sorted.
\<close>

definition already_queued :: "'w engine \<Rightarrow> string \<Rightarrow> string \<Rightarrow> bool" where
  "already_queued s acc oid = list_ex (\<lambda>c. opId c = oid) (queue_of s acc)"

definition push_command :: "command \<Rightarrow> 'w engine \<Rightarrow> 'w engine" where
  "push_command c s =
     set_queue (accountId c) (sort_by_timestamp (queue_of s (accountId c) @ [c])) s"

definition terminal_status :: "command \<Rightarrow> command_status option" where
  "terminal_status c =
     (if status c = Some Conflicted \<or> status c = Some Failed then status c else None)"

definition normalize_enqueued :: "bool \<Rightarrow> command \<Rightarrow> command" where
  "normalize_enqueued hasProjection m =
     normalizeMutation (m\<lparr>status := Some (coalesce (terminal_status m)
        (if hasProjection then Applying else Pending))\<rparr>)"

text \<open>A command is applying first when there is a projection to run, an explicit one or a reconciler.\<close>

definition enqueue_form ::
  "'w env \<Rightarrow> ('w \<Rightarrow> (js_error + unit) \<times> 'w) option \<Rightarrow> command \<Rightarrow> command" where
  "enqueue_form env applyOptimistic m =
     (let hasProjection = (applyOptimistic \<noteq> None \<or> reconciler env \<noteq> None)
      in normalize_enqueued hasProjection m)"

text \<open>
  The rest of enqueue, once the pushed command has been written: the optimistic projection, then
  the command becomes pending, or failed when the projection (or its persistence) threw.
\<close>

definition failCommand :: "'w env \<Rightarrow> string \<Rightarrow> string \<Rightarrow> js_error \<Rightarrow> ('w, unit) eng" where
  "failCommand env acc oid error = with_state (\<lambda>s.
     and_then (case find_command s acc oid of None \<Rightarrow> ok ()
               | Some c \<Rightarrow> update_command acc (c\<lparr>status := Some Failed,
                             lastError := Some (error_message error)\<rparr>))
       (\<lambda>_. and_then (schedulePersistence env acc)
       (\<lambda>_. and_then emit (\<lambda>_. throw error))))"

definition project_durable ::
  "'w env \<Rightarrow> ('w \<Rightarrow> (js_error + unit) \<times> 'w) option \<Rightarrow> command \<Rightarrow> ('w, unit) eng" where
  "project_durable env applyOptimistic durable = (case applyOptimistic of
       Some f \<Rightarrow> in_world f
     | None \<Rightarrow> and_then (apply_command env durable) (\<lambda>(error, _).
                 case error of Some e \<Rightarrow> throw e | None \<Rightarrow> ok ()))"

definition finish_enqueue ::
  "'w env \<Rightarrow> ('w \<Rightarrow> (js_error + unit) \<times> 'w) option \<Rightarrow> string \<Rightarrow> string \<Rightarrow> ('w, unit) eng" where
  "finish_enqueue env applyOptimistic acc oid = with_state (\<lambda>s.
     case find_command s acc oid of
       None \<Rightarrow> ok ()
     | Some durable \<Rightarrow>
         if status durable = Some Conflicted \<or> status durable = Some Failed then emit
         else catch
           (and_then (project_durable env applyOptimistic durable) (\<lambda>_.
            and_then (update_command acc (durable\<lparr>status := Some Pending, lastError := None\<rparr>)) (\<lambda>_.
            and_then (schedulePersistence env acc) (\<lambda>_. emit))))
           (failCommand env acc oid))"

definition enqueue ::
  "'w env \<Rightarrow> command \<Rightarrow> ('w \<Rightarrow> (js_error + unit) \<times> 'w) option \<Rightarrow> ('w, unit) eng" where
  "enqueue env mutation applyOptimistic = with_state (\<lambda>s.
     let normalized = enqueue_form env applyOptimistic mutation;
         acc = accountId mutation
     in if already_queued s acc (opId normalized) then ok ()
        else and_then (put_state (push_command normalized)) (\<lambda>_.
             and_then (schedulePersistence env acc) (\<lambda>_.
             finish_enqueue env applyOptimistic acc (opId normalized))))"

section \<open>Staging\<close>

definition stage :: "'w env \<Rightarrow> command \<Rightarrow> (string \<times> int) option \<Rightarrow> ('w, bool) eng" where
  "stage env mutation claim = with_state (\<lambda>s.
     let normalized = normalizeMutation (mutation\<lparr>status := Some Staged,
           projectionClaimId := map_option fst claim,
           projectionClaimExpiresAt := map_option snd claim\<rparr>);
         acc = accountId mutation
     in if already_queued s acc (opId normalized) then ok False
        else and_then (put_state (push_command normalized)) (\<lambda>_.
             and_then (schedulePersistence env acc) (\<lambda>_.
             and_then emit (\<lambda>_. ok True))))"

text \<open>
  A staged command may be claimed when no other claim on it is still running; a claim with no
  expiry never ends, and the empty claim id counts as none.
\<close>

definition claimable :: "int \<Rightarrow> command \<Rightarrow> bool" where
  "claimable time c =
     (status c = Some Staged \<and>
      \<not> (truthy (projectionClaimId c) \<and>
         (case projectionClaimExpiresAt c of None \<Rightarrow> True | Some t \<Rightarrow> t > time)))"

definition claim_command :: "string \<Rightarrow> int \<Rightarrow> command \<Rightarrow> command" where
  "claim_command claimId expiresAt c =
     c\<lparr>projectionClaimId := Some claimId, projectionClaimExpiresAt := Some expiresAt\<rparr>"

definition claim_queue :: "string \<Rightarrow> int \<Rightarrow> int \<Rightarrow> command list \<Rightarrow> command list \<times> command list" where
  "claim_queue claimId expiresAt time q =
     (map (\<lambda>c. if claimable time c then claim_command claimId expiresAt c else c) q,
      map (claim_command claimId expiresAt) (filter (claimable time) q))"

definition claim_account ::
  "'w env \<Rightarrow> string \<Rightarrow> int \<Rightarrow> string \<Rightarrow> ('w, command list) eng" where
  "claim_account env claimId expiresAt acc = with_state (\<lambda>s.
     let (q, claimed) = claim_queue claimId expiresAt (now env (world s)) (queue_of s acc)
     in if claimed = [] then ok []
        else and_then (put_state (set_queue acc q)) (\<lambda>_.
             and_then (schedulePersistence env acc) (\<lambda>_. ok claimed)))"

definition claimStaged :: "'w env \<Rightarrow> string \<Rightarrow> int \<Rightarrow> ('w, command list) eng" where
  "claimStaged env claimId leaseMs = with_state (\<lambda>s.
     let expiresAt = now env (world s) + leaseMs
     in and_then (map_each (map fst (queuesByAccountId s)) (claim_account env claimId expiresAt))
          (\<lambda>claimed. if concat claimed = [] then ok []
                     else and_then emit (\<lambda>_. ok (concat claimed))))"

definition holds_claim :: "string \<Rightarrow> command \<Rightarrow> bool" where
  "holds_claim claimId c = (status c = Some Staged \<and> projectionClaimId c = Some claimId)"

definition activate :: "'w env \<Rightarrow> string \<Rightarrow> string \<Rightarrow> string \<Rightarrow> ('w, bool) eng" where
  "activate env acc oid claimId = with_state (\<lambda>s.
     case find_command s acc oid of
       None \<Rightarrow> ok False
     | Some c \<Rightarrow>
         if \<not> holds_claim claimId c then ok False
         else catch
           (and_then (project_durable env None c) (\<lambda>_.
            and_then (update_command acc (c\<lparr>status := Some Pending, lastError := None,
                        projectionClaimId := None, projectionClaimExpiresAt := None\<rparr>)) (\<lambda>_.
            and_then (schedulePersistence env acc) (\<lambda>_.
            and_then emit (\<lambda>_. ok True)))))
           (\<lambda>error. and_then (failCommand env acc oid error) (\<lambda>_. ok False)))"

definition cancel :: "'w env \<Rightarrow> string \<Rightarrow> string \<Rightarrow> string \<Rightarrow> ('w, bool) eng" where
  "cancel env acc oid claimId = with_state (\<lambda>s.
     case js_get (queuesByAccountId s) acc of
       None \<Rightarrow> ok False
     | Some q \<Rightarrow>
         (case find_index (\<lambda>_ c. opId c = oid) q of
            None \<Rightarrow> ok False
          | Some i \<Rightarrow>
              if \<not> holds_claim claimId (q ! i) then ok False
              else and_then (put_state (set_queue acc (splice_at i q))) (\<lambda>_.
                   and_then (schedulePersistence env acc) (\<lambda>_.
                   and_then emit (\<lambda>_. ok True)))))"

section \<open>Conflict copies\<close>

text \<open>preserveConflict: a copy of the conflicted edit is enqueued; a failure is only recorded.\<close>

definition preserveConflict :: "'w env \<Rightarrow> command \<Rightarrow> ('w, unit) eng" where
  "preserveConflict env m = catch
     (and_then
       (case reconciler env of None \<Rightarrow> ok None
        | Some rc \<Rightarrow> (case rcPreserveConflict rc of None \<Rightarrow> ok None | Some f \<Rightarrow> in_world (f m)))
       (\<lambda>copy. case copy of None \<Rightarrow> ok () | Some c \<Rightarrow> enqueue env c None))
     (\<lambda>error. with_state (\<lambda>s.
        and_then (case find_command s (accountId m) (opId m) of None \<Rightarrow> ok ()
          | Some c \<Rightarrow> update_command (accountId m)
              (c\<lparr>lastError := Some (''Conflict copy failed: '' @ error_message error)\<rparr>))
        (\<lambda>_. and_then (schedulePersistence env (accountId m)) (\<lambda>_. emit))))"

section \<open>restore\<close>

text \<open>
  restore re-reads the whole document, then replays every command that is neither staged nor
  terminal: an applying one becomes pending, one whose projection throws becomes failed, and one
  the projection left conflicted is preserved as a copy once its account is written.
\<close>

definition replayable :: "command \<Rightarrow> bool" where
  "replayable c =
     (status c \<noteq> Some Staged \<and> status c \<noteq> Some Conflicted \<and> status c \<noteq> Some Failed)"

definition replay_result ::
  "string \<Rightarrow> command \<Rightarrow> js_error option \<times> command_status option \<Rightarrow> command \<times> bool \<times> bool" where
  "replay_result copyId c outcome = (case outcome of
       (Some e, _) \<Rightarrow> (c\<lparr>status := Some Failed, lastError := Some (error_message e)\<rparr>, True, False)
     | (None, st) \<Rightarrow>
         if st = Some Conflicted
         then (c\<lparr>status := st, conflictCopyId := Some (coalesce (conflictCopyId c) copyId)\<rparr>,
               True, True)
         else if st = Some Applying
         then (c\<lparr>status := Some Pending, lastError := None\<rparr>, True, False)
         else (c\<lparr>status := st\<rparr>, False, False))"

definition replay_command :: "'w env \<Rightarrow> command \<Rightarrow> ('w, command \<times> bool \<times> bool) eng" where
  "replay_command env c =
     (if replayable c
      then and_then (apply_command env c) (\<lambda>outcome.
           and_then (suffix env) (\<lambda>copyId. ok (replay_result copyId c outcome)))
      else ok (c, False, False))"

definition replay_account :: "'w env \<Rightarrow> string \<Rightarrow> ('w, command list) eng" where
  "replay_account env acc = with_state (\<lambda>s.
     and_then (map_each (queue_of s acc) (replay_command env)) (\<lambda>rs.
     and_then (put_state (set_queue acc (map fst rs))) (\<lambda>_.
     and_then (if list_ex (\<lambda>(_, changed, _). changed) rs then schedulePersistence env acc
               else ok ()) (\<lambda>_.
     ok (map fst (filter (\<lambda>(_, _, conflict). conflict) rs))))))"

definition load_account :: "string \<times> command list \<Rightarrow> 'w engine \<Rightarrow> 'w engine" where
  "load_account = (\<lambda>(acc, q) s.
     if q = [] then s
     else rememberPersistedCommands acc q
       (set_queue acc
         (sort_by_timestamp (map (\<lambda>c. normalizeMutation (c\<lparr>accountId := acc\<rparr>)) q)) s))"

definition restore :: "'w env \<Rightarrow> ('w, unit) eng" where
  "restore env =
     and_then (put_state (\<lambda>s. s\<lparr>queuesByAccountId := [], persistedOperationIds := [],
                                persistedCommandSignatures := []\<rparr>)) (\<lambda>_.
     and_then (in_world (storageOutcome env)) (\<lambda>_.
     and_then (put_state (\<lambda>s. fold load_account (coalesce (document s) []) s)) (\<lambda>_.
     and_then (if reconciler env = None then ok ()
               else with_state (\<lambda>s.
                 and_then (map_each (map fst (queuesByAccountId s)) (replay_account env))
                   (\<lambda>conflicts. for_each (concat conflicts) (preserveConflict env)))) (\<lambda>_.
     emit))))"

section \<open>clear\<close>

definition clear :: "'w env \<Rightarrow> string option \<Rightarrow> ('w, unit) eng" where
  "clear env acc =
     (if truthy acc
      then and_then (put_state (\<lambda>s. s\<lparr>queuesByAccountId :=
                       js_delete (the acc) (queuesByAccountId s)\<rparr>)) (\<lambda>_.
           and_then (schedulePersistence env (the acc)) (\<lambda>_. emit))
      else and_then (put_state (\<lambda>s. s\<lparr>queuesByAccountId := [], persistedOperationIds := [],
                       persistedCommandSignatures := []\<rparr>)) (\<lambda>_.
           and_then (in_world (storageOutcome env)) (\<lambda>_.
           and_then (put_state (\<lambda>s. s\<lparr>document := None\<rparr>)) (\<lambda>_. emit))))"

section \<open>Projections\<close>

record command_summary =
  sumPending :: nat
  sumRetrying :: nat
  sumConflicted :: nat
  sumFailed :: nat

definition getPendingCount :: "'w engine \<Rightarrow> nat" where
  "getPendingCount s = sum_list (map (length \<circ> snd) (queuesByAccountId s))"

definition getCommands :: "string option \<Rightarrow> 'w engine \<Rightarrow> command list" where
  "getCommands acc s =
     (if truthy acc then queue_of s (the acc) else concat (map snd (queuesByAccountId s)))"

fun count_command :: "command_summary \<Rightarrow> command \<Rightarrow> command_summary" where
  "count_command n c = (case status c of
       Some Retrying \<Rightarrow> n\<lparr>sumRetrying := Suc (sumRetrying n)\<rparr>
     | Some Conflicted \<Rightarrow> n\<lparr>sumConflicted := Suc (sumConflicted n)\<rparr>
     | Some Failed \<Rightarrow> n\<lparr>sumFailed := Suc (sumFailed n)\<rparr>
     | _ \<Rightarrow> n\<lparr>sumPending := Suc (sumPending n)\<rparr>)"

definition getCommandSummary :: "'w engine \<Rightarrow> command_summary" where
  "getCommandSummary s = foldl count_command
     \<lparr>sumPending = 0, sumRetrying = 0, sumConflicted = 0, sumFailed = 0\<rparr> (getCommands None s)"

definition hasPendingForItem :: "string \<Rightarrow> 'w engine \<Rightarrow> bool" where
  "hasPendingForItem item s =
     list_ex (\<lambda>(_, q). list_ex (\<lambda>m. entityId m = item) q) (queuesByAccountId s)"

definition getPendingForItem :: "string \<Rightarrow> 'w engine \<Rightarrow> command option" where
  "getPendingForItem item s =
     List.find (\<lambda>m. entityId m = item) (concat (map snd (queuesByAccountId s)))"

definition min_option :: "int option \<Rightarrow> int \<Rightarrow> int option" where
  "min_option next t = Some (case next of None \<Rightarrow> t | Some n \<Rightarrow> min n t)"

definition getNextRetryAt :: "'w engine \<Rightarrow> int option" where
  "getNextRetryAt s = foldl (\<lambda>next c. case nextAttemptAt c of
       Some t \<Rightarrow> if status c = Some Retrying then min_option next t else next
     | None \<Rightarrow> next) None (concat (map snd (queuesByAccountId s)))"

definition getStagedCommands :: "'w engine \<Rightarrow> command list" where
  "getStagedCommands s = filter (\<lambda>c. status c = Some Staged) (getCommands None s)"

definition getNextStagedClaimAt :: "int \<Rightarrow> 'w engine \<Rightarrow> int option" where
  "getNextStagedClaimAt time s = foldl (\<lambda>next c. case projectionClaimExpiresAt c of
       Some t \<Rightarrow> if t \<le> time then next else min_option next t
     | None \<Rightarrow> next) None (getStagedCommands s)"

definition consumeTempIdMappings :: "'w engine \<Rightarrow> temp_id_mapping list \<times> 'w engine" where
  "consumeTempIdMappings s = (latestMappings s, s\<lparr>latestMappings := []\<rparr>)"

end
