(* ===== verification/QueueDrain.thy ===== *)
theory QueueDrain
  imports QueueOps
begin

text \<open>
  Draining the queues of ItemSyncEngine (packages/sync/src/outbound-queue.ts): one command is
  sent, acknowledged and removed, or its failure is classified (conflict, rejection, network,
  unexpected); an account's pass goes on while a command is runnable; a drain runs the accounts
  in order and again while another process asked for it.

  Both loops may in principle go on for ever (a reconciler can keep enqueuing conflict copies),
  so they take fuel and answer whether they ended; QueueTermination shows how much is enough.
\<close>

section \<open>Sending a command\<close>

definition rename_entity :: "string \<Rightarrow> string \<Rightarrow> command \<Rightarrow> command" where
  "rename_entity oldId newId c =
     (if entityId c = oldId then c\<lparr>entityId := newId\<rparr> else c)"

text \<open>
  The write of every queue that was renamed in is started, and the first failure is thrown when
  they have run (Promise.all); the listeners are told only when all of them succeeded.
\<close>

definition rewritePendingIds :: "'w env \<Rightarrow> string \<Rightarrow> string \<Rightarrow> ('w, unit) eng" where
  "rewritePendingIds env oldId newId = with_state (\<lambda>s.
     let touched = map fst (filter (\<lambda>(_, q). list_ex (\<lambda>c. entityId c = oldId) q)
                     (queuesByAccountId s))
     in and_then (put_state (\<lambda>t. t\<lparr>queuesByAccountId :=
          map (\<lambda>(acc, q). (acc, map (rename_entity oldId newId) q)) (queuesByAccountId t)\<rparr>)) (\<lambda>_.
        and_then (all_each touched (schedulePersistence env)) (\<lambda>_. emit)))"

text \<open>
  processMutation answers the ETag and the command as it stands afterwards: a create that was
  answered with another id has its entity id rewritten with the rest of the queue.
\<close>

definition processMutation ::
  "'w env \<Rightarrow> string \<Rightarrow> command \<Rightarrow> ('w, string option \<times> command) eng" where
  "processMutation env acc m = (case mutationRequest m of
       Inl e \<Rightarrow> throw e
     | Inr req \<Rightarrow> and_then (in_world (sendRequest env acc req)) (\<lambda>r.
         if commandType m = Create \<and> truthy (createdId m r) \<and> createdId m r \<noteq> Some (entityId m)
         then let newId = the (createdId m r) in
           and_then (put_state (\<lambda>s. s\<lparr>latestMappings := latestMappings s @
             [\<lparr>tempId = entityId m, realId = newId, mappingAccountId = accountId m,
               mappingAccountEmail = accountEmail m\<rparr>]\<rparr>)) (\<lambda>_.
           and_then (rewritePendingIds env (entityId m) newId) (\<lambda>_.
           ok (respEtag r, m\<lparr>entityId := newId\<rparr>)))
         else ok (respEtag r, m)))"

section \<open>A conflict answer\<close>

definition reconcileAuthoritative ::
  "'w env \<Rightarrow> command \<Rightarrow> server_item \<Rightarrow> ('w, unit) eng" where
  "reconcileAuthoritative env m item = (case reconciler env of
       None \<Rightarrow> ok ()
     | Some rc \<Rightarrow> (case rcReconcileAuthoritative rc of
         None \<Rightarrow> ok ()
       | Some f \<Rightarrow> in_world (f m (toCachedItem item
           \<lparr>scopeAccountId = Some (accountId m), scopeAccountEmail = accountEmail m,
            scopeServerUrl = None\<rparr>))))"

definition authoritative_version :: "item_response \<Rightarrow> int option" where
  "authoritative_version r =
     (case strongNumericEtag (getEtag r) of Some v \<Rightarrow> Some v
      | None \<Rightarrow> Some (itemVersion (getData r)))"

definition rebaseMetadataMutation ::
  "'w env \<Rightarrow> string \<Rightarrow> command \<Rightarrow> ('w, command \<times> bool) eng" where
  "rebaseMetadataMutation env acc m = catch
     (and_then (in_world (fetchItem env acc (entityId m))) (\<lambda>current.
      and_then (reconcileAuthoritative env m (getData current)) (\<lambda>_.
      and_then (suffix env) (\<lambda>sfx.
      ok (rebaseOnto sfx m (authoritative_version current))))))
     (\<lambda>error. and_then (clock env) (\<lambda>time.
        ok (scheduleRetry time (bumpRetry m) error, False)))"

section \<open>One attempt\<close>

definition executeSemantic :: "'w env \<Rightarrow> command \<Rightarrow> ('w, acknowledgement option) eng" where
  "executeSemantic env m =
     (if commandType m \<noteq> CrossAccountMove then ok None
      else case reconciler env of None \<Rightarrow> ok None
        | Some rc \<Rightarrow> (case rcExecuteSemantic rc of None \<Rightarrow> ok None | Some f \<Rightarrow> in_world (f m)))"

definition acknowledgeReconciler ::
  "'w env \<Rightarrow> command \<Rightarrow> acknowledgement \<Rightarrow> ('w, unit) eng" where
  "acknowledgeReconciler env m ack = (case reconciler env of
       None \<Rightarrow> ok () | Some rc \<Rightarrow> in_world (rcAcknowledge rc m ack))"

text \<open>
  The try block of drainOnce for the command m found at index i. A cross-account move without
  an executor's acknowledgement throws before anything is sent.
\<close>

definition send_command ::
  "'w env \<Rightarrow> string \<Rightarrow> command \<Rightarrow> ('w, command \<times> acknowledgement) eng" where
  "send_command env acc m = and_then (executeSemantic env m) (\<lambda>semantic.
     case semantic of
       Some a \<Rightarrow> ok (m, a\<lparr>ackVersion := (case ackVersion a of Some v \<Rightarrow> Some v
                              | None \<Rightarrow> strongNumericEtag (ackEtag a))\<rparr>)
     | None \<Rightarrow>
         if commandType m = CrossAccountMove
         then throw (JsError (''Cross-account move '' @ opId m @ '' requires a semantic executor''))
         else and_then (processMutation env acc m) (\<lambda>(etag, m').
              ok (m', \<lparr>ackEntityId = entityId m', ackEtag = etag,
                       ackVersion = strongNumericEtag etag\<rparr>)))"

definition attempt_command :: "'w env \<Rightarrow> string \<Rightarrow> nat \<Rightarrow> command \<Rightarrow> ('w, unit) eng" where
  "attempt_command env acc i m =
     and_then (send_command env acc m) (\<lambda>(m', ack).
     and_then (acknowledgeReconciler env m' ack) (\<lambda>_.
     and_then (put_state (\<lambda>s. if js_has (queuesByAccountId s) acc
                 then set_queue acc (splice_at i (queue_of s acc)) s else s)) (\<lambda>_.
     and_then (persistAcknowledgement env acc m' (ackVersion ack)) (\<lambda>conflicted.
     and_then (case conflicted of None \<Rightarrow> ok () | Some c \<Rightarrow> preserveConflict env c) (\<lambda>_.
     emit)))))"

text \<open>The catch block: what an error does to the command, and whether this pass may retry it.\<close>

definition after_conflict :: "'w env \<Rightarrow> string \<Rightarrow> command \<Rightarrow> ('w, unit) eng" where
  "after_conflict env acc m =
     and_then (update_command acc m) (\<lambda>_.
     and_then (schedulePersistence env acc) (\<lambda>_.
     and_then emit (\<lambda>_.
     if status m = Some Conflicted then preserveConflict env m else ok ())))"

definition retry_later ::
  "'w env \<Rightarrow> string \<Rightarrow> command \<Rightarrow> js_error \<Rightarrow> ('w, unit) eng" where
  "retry_later env acc m error =
     and_then (suffix env) (\<lambda>sfx. and_then (clock env) (\<lambda>time.
     and_then (update_command acc (markRetrying time sfx m error)) (\<lambda>_.
     and_then (schedulePersistence env acc) (\<lambda>_. emit))))"

definition reject_command :: "string \<Rightarrow> command \<Rightarrow> js_error \<Rightarrow> command" where
  "reject_command copyId m error =
     (if isApiErrorStatus error 404 \<and>
         (commandType m = Update \<or> commandType m = Move \<or> commandType m = CrossAccountMove)
      then markEncryptedConflict copyId m error
      else m\<lparr>status := Some Failed, lastError := Some (error_message error)\<rparr>)"

definition handle_failure ::
  "'w env \<Rightarrow> string \<Rightarrow> string list \<Rightarrow> command \<Rightarrow> js_error \<Rightarrow> ('w, string list) eng" where
  "handle_failure env acc attempted m0 error = with_state (\<lambda>s.
     let m = coalesce (find_command s acc (opId m0)) m0 in
     if isApiErrorStatus error 409 \<or> isApiErrorStatus error 412
     then and_then (rebaseMetadataMutation env acc m) (\<lambda>(m', _).
          and_then (after_conflict env acc m') (\<lambda>_. ok attempted))
     else if isApiErrorStatus error 400 \<or> isApiErrorStatus error 404
     then and_then (suffix env) (\<lambda>copyId.
          and_then (after_conflict env acc (reject_command copyId m error)) (\<lambda>_. ok attempted))
     else and_then (retry_later env acc m error) (\<lambda>_. ok (opId m # attempted)))"

section \<open>The loops\<close>

text \<open>
  The code holds the account's array across the awaits of a pass. The array is changed in place
  by the enqueues, the splices and the merge of a stored document (adoptReconciledQueue), so
  reading the account's queue again at each step reads the same array. The two part only when one
  attempt empties the queue, which deletes the account's entry, and then enqueues a conflict copy
  into a new array: the code's pass ends with the old, empty array and leaves the copy to its next
  pass, and the model's pass goes on to it. A clear in the middle of a pass is not modelled (a
  call runs to its end before the next one): the code would go on sending from the old array.
\<close>

fun drain_account ::
  "nat \<Rightarrow> 'w env \<Rightarrow> string \<Rightarrow> string list \<Rightarrow> ('w, bool) eng" where
  "drain_account 0 env acc attempted = ok False"
| "drain_account (Suc fuel) env acc attempted = with_state (\<lambda>s.
     case findRunnable (now env (world s)) attempted (queue_of s acc) of
       None \<Rightarrow> ok True
     | Some i \<Rightarrow>
         let m = queue_of s acc ! i in
         and_then
           (catch (and_then (attempt_command env acc i m) (\<lambda>_. ok attempted))
                  (handle_failure env acc attempted m))
           (\<lambda>attempted'. drain_account fuel env acc attempted'))"

definition drain_entry :: "nat \<Rightarrow> 'w env \<Rightarrow> string \<Rightarrow> ('w, bool) eng" where
  "drain_entry fuel env acc = with_state (\<lambda>s.
     case findRunnable (now env (world s)) [] (queue_of s acc) of
       None \<Rightarrow> ok True
     | Some first \<Rightarrow>
         and_then (catch (and_then (in_world (getClient env acc)) (\<lambda>_. ok None))
                    (\<lambda>error. ok (Some error)))
           (\<lambda>failed. case failed of
              Some error \<Rightarrow> and_then (retry_later env acc (queue_of s acc ! first) error)
                              (\<lambda>_. ok True)
            | None \<Rightarrow> drain_account fuel env acc []))"

definition drain_once :: "nat \<Rightarrow> 'w env \<Rightarrow> ('w, bool) eng" where
  "drain_once fuel env = with_state (\<lambda>s.
     and_then (map_each (sort_cmp (localeCompare env) (map fst (queuesByAccountId s)))
                 (drain_entry fuel env))
       (\<lambda>ended. ok (list_all id ended)))"

fun drain_passes :: "nat \<Rightarrow> 'w env \<Rightarrow> ('w, bool) eng" where
  "drain_passes 0 env = ok False"
| "drain_passes (Suc fuel) env =
     and_then (put_state (\<lambda>s. s\<lparr>drainRequested := False\<rparr>)) (\<lambda>_.
     and_then (drain_once (Suc fuel) env) (\<lambda>ended.
     with_state (\<lambda>s. if \<not> ended then ok False
                     else if drainRequested s then drain_passes fuel env else ok True)))"

definition drain :: "nat \<Rightarrow> 'w env \<Rightarrow> ('w, bool) eng" where
  "drain fuel env = with_state (\<lambda>s.
     if draining s then and_then (put_state (\<lambda>t. t\<lparr>drainRequested := True\<rparr>)) (\<lambda>_. ok True)
     else and_then (put_state (\<lambda>t. t\<lparr>draining := True, latestMappings := []\<rparr>)) (\<lambda>_.
          try_finally (drain_passes fuel env) (\<lambda>t. t\<lparr>draining := False\<rparr>)))"

end
