(* ===== verification/QueueInvariant.thy ===== *)
theory QueueInvariant
  imports QueueDrain
begin

text \<open>
  The well-formedness of an engine and of its document, and that every public operation keeps
  it, whatever the platform, the server and the reconciler answer: within an account no two
  commands have the same operation id, no stored queue is empty, and every stored queue is in
  time order.
\<close>

section \<open>Well-formedness\<close>

definition distinct_ops :: "command list \<Rightarrow> bool" where
  "distinct_ops q = distinct (map opId q)"

definition stored_ok :: "command list \<Rightarrow> bool" where
  "stored_ok q = (q \<noteq> [] \<and> sorted (map timestamp q) \<and> distinct_ops q)"

definition document_ok :: "queue_document option \<Rightarrow> bool" where
  "document_ok d = (case d of None \<Rightarrow> True
     | Some m \<Rightarrow> m \<noteq> [] \<and> distinct (map fst m) \<and> (\<forall>acc q. js_get m acc = Some q \<longrightarrow> stored_ok q))"

definition queues_ok :: "queue_document \<Rightarrow> bool" where
  "queues_ok m = (distinct (map fst m) \<and> (\<forall>acc q. js_get m acc = Some q \<longrightarrow> distinct_ops q))"

lemma keyed_all_iff:
  "distinct (map fst m) \<Longrightarrow> (\<forall>k v. js_get m k = Some v \<longrightarrow> Q v) = list_all (\<lambda>(k, v). Q v) m"
  by (auto simp: list_all_iff js_get_Some_iff)

lemma document_ok_code [code]:
  "document_ok d = (case d of None \<Rightarrow> True
     | Some m \<Rightarrow> m \<noteq> [] \<and> distinct (map fst m) \<and> list_all (\<lambda>(acc, q). stored_ok q) m)"
  using keyed_all_iff [of _ stored_ok] by (auto simp: document_ok_def split: option.splits)

lemma queues_ok_code [code]:
  "queues_ok m = (distinct (map fst m) \<and> list_all (\<lambda>(acc, q). distinct_ops q) m)"
  using keyed_all_iff [of m distinct_ops] by (auto simp: queues_ok_def)

definition engine_ok :: "'w engine \<Rightarrow> bool" where
  "engine_ok s = (queues_ok (queuesByAccountId s) \<and> document_ok (document s))"

section \<open>Lists of commands\<close>

lemma distinct_ops_Nil [simp]: "distinct_ops []"
  by (simp add: distinct_ops_def)

lemma distinct_ops_sort [simp]: "distinct_ops (sort_by_timestamp q) = distinct_ops q"
  by (simp add: distinct_ops_def sort_by_timestamp_def distinct_map)

lemma sorted_sort [simp]: "sorted (map timestamp (sort_by_timestamp q))"
  by (simp add: sort_by_timestamp_def)

lemma set_sort_by_timestamp [simp]: "set (sort_by_timestamp q) = set q"
  by (simp add: sort_by_timestamp_def)

lemma sort_by_timestamp_Nil [simp]: "(sort_by_timestamp q = []) = (q = [])"
  by (metis set_empty set_sort_by_timestamp)

lemma distinct_ops_map:
  assumes "\<And>c. opId (f c) = opId c"
  shows "distinct_ops (map f q) = distinct_ops q"
  using assms by (simp add: distinct_ops_def comp_def)

lemma distinct_ops_replace_in [simp]: "distinct_ops (replace_in m q) = distinct_ops q"
proof -
  have "map opId (replace_in m q) = map opId q"
    by (induction q) (auto simp: replace_in_def)
  then show ?thesis by (simp add: distinct_ops_def)
qed

lemma distinct_ops_splice: "distinct_ops q \<Longrightarrow> distinct_ops (splice_at i q)"
  by (simp add: distinct_ops_def map_splice_at distinct_splice_at)

lemma distinct_ops_filter: "distinct_ops q \<Longrightarrow> distinct_ops (filter P q)"
  by (auto simp: distinct_ops_def intro: distinct_map_filter)

lemma distinct_ops_append_new:
  "distinct_ops q \<Longrightarrow> \<not> list_ex (\<lambda>c. opId c = opId d) q \<Longrightarrow> distinct_ops (q @ [d])"
  by (auto simp: distinct_ops_def list_ex_iff)

lemma opId_cong [simp]:
  "opId (m\<lparr>status := a\<rparr>) = opId m" "opId (m\<lparr>lastError := b\<rparr>) = opId m"
  "opId (m\<lparr>nextAttemptAt := d\<rparr>) = opId m" "opId (m\<lparr>baseVersion := v\<rparr>) = opId m"
  "opId (m\<lparr>attemptId := e\<rparr>) = opId m" "opId (m\<lparr>conflictCopyId := g\<rparr>) = opId m"
  "opId (m\<lparr>entityId := h\<rparr>) = opId m" "opId (m\<lparr>accountId := h\<rparr>) = opId m"
  "opId (m\<lparr>projectionClaimId := e\<rparr>) = opId m"
  "opId (m\<lparr>projectionClaimExpiresAt := d\<rparr>) = opId m" "opId (m\<lparr>retryCount := n\<rparr>) = opId m"
  by (simp_all add: opId_def)

lemma opId_normalize [simp]: "opId (normalizeMutation c) = opId c"
  by (simp add: normalizeMutation_def opId_def)

lemma opId_rebase [simp]: "opId (rebaseChainedCommand sfx c v) = opId c"
  by (simp add: rebaseChainedCommand_def markEncryptedConflict_def)

lemma timestamp_rebase [simp]: "timestamp (rebaseChainedCommand sfx c v) = timestamp c"
  by (simp add: rebaseChainedCommand_def markEncryptedConflict_def)

lemma opId_claim [simp]: "opId (claim_command x t c) = opId c"
  by (simp add: claim_command_def)

lemma opId_rename [simp]: "opId (rename_entity a b c) = opId c"
  by (simp add: rename_entity_def)

lemma opId_replay [simp]: "opId (fst (replay_result x c r)) = opId c"
  by (auto simp: replay_result_def split: prod.splits option.splits)

section \<open>Documents\<close>

lemma stored_queue_ok:
  assumes "document_ok (document s)"
  shows "stored_queue s acc = [] \<or> stored_ok (stored_queue s acc)"
  using assms
  by (cases "document s"; cases "js_get (coalesce (document s) []) acc")
     (auto simp: stored_queue_def document_ok_def)

lemma stored_queue_distinct: "document_ok (document s) \<Longrightarrow> distinct_ops (stored_queue s acc)"
  using stored_queue_ok [of s acc] by (auto simp: stored_ok_def)

lemma stored_queue_sorted: "document_ok (document s) \<Longrightarrow> sorted (map timestamp (stored_queue s acc))"
  using stored_queue_ok [of s acc] by (auto simp: stored_ok_def)

lemma put_account_ok:
  assumes "document_ok d" and "next \<noteq> [] \<Longrightarrow> stored_ok next"
  shows "document_ok (put_account acc next d)"
  using assms
  by (cases d) (auto simp: put_account_def document_ok_def Let_def split: if_splits)

lemma put_account_get:
  "coalesce (js_get (coalesce (put_account acc next d) []) acc') [] =
     (if acc' = acc then next else coalesce (js_get (coalesce d []) acc') [])"
  by (auto simp: put_account_def Let_def)
     (metis coalesce_simps(1) js_get_delete map_of.simps(1))+

section \<open>The merge keeps operation ids apart\<close>

definition keyed :: "(string \<times> command) list \<Rightarrow> bool" where
  "keyed m = (distinct (map fst m) \<and> (\<forall>k c. js_get m k = Some c \<longrightarrow> opId c = k))"

lemma keyed_Nil [simp]: "keyed []"
  by (simp add: keyed_def)

lemma keyed_set: "keyed m \<Longrightarrow> opId c = k \<Longrightarrow> keyed (js_set k c m)"
  by (auto simp: keyed_def)

lemma keyed_delete: "keyed m \<Longrightarrow> keyed (js_delete k m)"
  by (auto simp: keyed_def)

lemma keyed_fold_set:
  "keyed m \<Longrightarrow> keyed (fold (\<lambda>(k, v) m. js_set k v m) (map (\<lambda>c. (opId c, c)) q) m)"
  by (induction q arbitrary: m) (auto intro: keyed_set)

lemma keyed_by_operation [simp]: "keyed (by_operation q)"
  by (simp add: by_operation_def js_map_of_def keyed_fold_set)

lemma keyed_prune:
  "keyed m \<Longrightarrow> keyed (fold (\<lambda>k m. if js_has desired k then m else js_delete k m) ks m)"
  by (induction ks arbitrary: m) (auto intro: keyed_delete)

lemma keyed_merge_command:
  assumes "keyed (fst acc)" and "opId (snd e) = fst e"
  shows "keyed (fst (merge_command ids sigs e acc))"
proof -
  obtain k c where e: "e = (k, c)" by (cases e)
  obtain m x where a: "acc = (m, x)" by (cases acc)
  from assms e a have "keyed m" and "opId c = k" by auto
  then show ?thesis
    by (auto simp: e a intro: keyed_set split: option.splits)
qed

lemma keyed_merge_fold:
  assumes "keyed (fst acc)" and "\<And>e. e \<in> set es \<Longrightarrow> opId (snd e) = fst e"
  shows "keyed (fst (fold (merge_command ids sigs) es acc))"
  using assms
proof (induction es arbitrary: acc)
  case (Cons e es)
  have "keyed (fst (merge_command ids sigs e acc))"
    by (rule keyed_merge_command) (use Cons.prems in auto)
  with Cons show ?case by auto
qed simp

lemma keyed_entries: "keyed m \<Longrightarrow> e \<in> set m \<Longrightarrow> opId (snd e) = fst e"
  by (cases e) (auto simp: keyed_def js_get_Some_iff)

lemma keyed_distinct_ops: "keyed m \<Longrightarrow> distinct_ops (map snd m)"
proof -
  assume k: "keyed m"
  have "map opId (map snd m) = map fst m"
    using keyed_entries [OF k] by simp
  moreover have "distinct (map fst m)" using k by (simp add: keyed_def)
  ultimately show ?thesis by (simp only: distinct_ops_def)
qed

lemma merge_queue_ok:
  "distinct_ops (fst (merge_queue ids sigs q st))"
  "sorted (map timestamp (fst (merge_queue ids sigs q st)))"
proof -
  let ?p = "fold (\<lambda>k m. if js_has (by_operation q) k then m else js_delete k m) ids (by_operation st)"
  let ?r = "fold (merge_command ids sigs) (by_operation q) (?p, [])"
  have "keyed (fst ?r)"
    by (rule keyed_merge_fold) (use keyed_entries [OF keyed_by_operation] in \<open>auto intro: keyed_prune\<close>)
  then have "distinct_ops (map snd (fst ?r))" by (rule keyed_distinct_ops)
  then show "distinct_ops (fst (merge_queue ids sigs q st))"
    by (simp add: merge_queue_def Let_def case_prod_beta)
  show "sorted (map timestamp (fst (merge_queue ids sigs q st)))"
    by (simp add: merge_queue_def Let_def case_prod_beta)
qed

lemma rebase_first_ok:
  assumes "distinct_ops cs" and "sorted (map timestamp cs)"
  shows "distinct_ops (fst (rebase_first sfx e v cs))"
    and "sorted (map timestamp (fst (rebase_first sfx e v cs)))"
proof -
  have *: "map f (cs[i := rebaseChainedCommand sfx (cs ! i) v]) = map f cs"
    if "\<And>c. f (rebaseChainedCommand sfx c v) = f c" for f :: "command \<Rightarrow> 'b" and i
    using that by (cases "i < length cs") (auto simp: map_update list_update_beyond list_update_same_conv)
  show "distinct_ops (fst (rebase_first sfx e v cs))"
    using assms(1) by (auto simp: rebase_first_def distinct_ops_def Let_def * split: option.splits)
  show "sorted (map timestamp (fst (rebase_first sfx e v cs)))"
    using assms(2) by (auto simp: rebase_first_def Let_def * split: option.splits)
qed

lemma acknowledge_in_ok:
  assumes "distinct_ops st" and "sorted (map timestamp st)"
  shows "distinct_ops (fst (acknowledge_in sfx m v st))"
    and "sorted (map timestamp (fst (acknowledge_in sfx m v st)))"
  using assms
  by (auto simp: acknowledge_in_def Let_def intro!: rebase_first_ok distinct_ops_filter sorted_filter
      split: option.splits)

section \<open>Every operation keeps the engine well-formed\<close>

lemma engine_okI:
  "queues_ok (queuesByAccountId s) \<Longrightarrow> document_ok (document s) \<Longrightarrow> engine_ok s"
  by (simp add: engine_ok_def)

lemma engine_ok_queue: "engine_ok s \<Longrightarrow> distinct_ops (queue_of s acc)"
  by (cases "js_get (queuesByAccountId s) acc") (auto simp: engine_ok_def queues_ok_def queue_of_def)

lemma engine_ok_get: "engine_ok s \<Longrightarrow> js_get (queuesByAccountId s) acc = Some q \<Longrightarrow> distinct_ops q"
  by (auto simp: engine_ok_def queues_ok_def)

lemma engine_ok_set_queue:
  "engine_ok s \<Longrightarrow> distinct_ops q \<Longrightarrow> engine_ok (set_queue acc q s)"
  by (auto simp: engine_ok_def queues_ok_def set_queue_def)

lemma engine_ok_frame [simp]:
  "engine_ok (s\<lparr>latestMappings := a\<rparr>) = engine_ok s"
  "engine_ok (s\<lparr>draining := b\<rparr>) = engine_ok s"
  "engine_ok (s\<lparr>drainRequested := b\<rparr>) = engine_ok s"
  "engine_ok (s\<lparr>persistedOperationIds := c\<rparr>) = engine_ok s"
  "engine_ok (s\<lparr>persistedCommandSignatures := d\<rparr>) = engine_ok s"
  "engine_ok (s\<lparr>notified := n\<rparr>) = engine_ok s"
  "engine_ok (s\<lparr>world := w\<rparr>) = engine_ok s"
  by (simp_all add: engine_ok_def)

lemma engine_ok_remember [simp]:
  "engine_ok (rememberPersistedCommands acc cs s) = engine_ok s"
  by (simp add: rememberPersistedCommands_def engine_ok_def)

lemma engine_ok_adopt:
  "engine_ok s \<Longrightarrow> distinct_ops q \<Longrightarrow> engine_ok (adoptReconciledQueue acc q s)"
  by (auto simp: adoptReconciledQueue_def engine_ok_set_queue)
     (auto simp: engine_ok_def queues_ok_def)

lemma engine_ok_put_account:
  assumes "engine_ok s" and "distinct_ops q" and "sorted (map timestamp q)"
  shows "engine_ok (s\<lparr>document := put_account acc q (document s)\<rparr>)"
  using assms by (auto simp: engine_ok_def stored_ok_def intro: put_account_ok)

lemma engine_ok_push:
  assumes "engine_ok s" and "\<not> already_queued s (accountId c) (opId c)"
  shows "engine_ok (push_command c s)"
  using assms by (auto simp: push_command_def already_queued_def
      intro!: engine_ok_set_queue distinct_ops_append_new engine_ok_queue)

lemma keeps_in_world [keeps_intros]: "keeps engine_ok (in_world f)"
  by (auto simp: keeps_def in_world_def Let_def split: prod.splits)

lemma keeps_suffix [keeps_intros]: "keeps engine_ok (suffix env)"
  by (simp add: suffix_def keeps_in_world)

lemma keeps_clock [keeps_intros]: "keeps engine_ok (clock env)"
  by (simp add: clock_def keeps_get_state)

lemma keeps_emit [keeps_intros]: "keeps engine_ok emit"
  by (simp add: emit_def keeps_put_state)

lemma keeps_update_command [keeps_intros]: "keeps engine_ok (update_command acc m)"
  unfolding update_command_def
  by (rule keeps_put_state) (auto intro!: engine_ok_set_queue engine_ok_queue)

lemma keeps_writeBegin [keeps_intros]: "keeps engine_ok (writeBegin env acc)"
  unfolding writeBegin_def Let_def case_prod_beta
  by (intro keeps_intros keeps_put_state) (auto intro: engine_ok_put_account merge_queue_ok)

lemma keeps_discardAll [keeps_intros]: "keeps engine_ok (discardAll env cs)"
  unfolding discardAll_def by (intro keeps_intros)

lemma keeps_writeFinish:
  "distinct_ops r \<Longrightarrow> keeps engine_ok (writeFinish env acc q e r)"
  unfolding writeFinish_def Let_def
  by (intro keeps_intros keeps_put_state) (auto intro: engine_ok_adopt)

lemma keeps_writeQueue [keeps_intros]: "keeps engine_ok (writeQueue env acc)"
  unfolding writeQueue_def case_prod_beta
  by (intro keeps_intros keeps_writeFinish) (auto simp: engine_ok_def intro: stored_queue_distinct)

lemma keeps_schedulePersistence [keeps_intros]: "keeps engine_ok (schedulePersistence env acc)"
  by (simp add: schedulePersistence_def keeps_writeQueue)

lemma engine_ok_stored:
  assumes "engine_ok s"
  shows "distinct_ops (stored_queue s acc)" and "sorted (map timestamp (stored_queue s acc))"
  using assms by (simp_all add: engine_ok_def stored_queue_distinct stored_queue_sorted)

lemma engine_ok_acknowledge:
  assumes "engine_ok t" and "engine_ok s"
    and "next = fst (acknowledge_in sfx m v (stored_queue s acc))"
  shows "engine_ok (rememberPersistedCommands acc next (adoptReconciledQueue acc next
           (t\<lparr>document := put_account acc next (document t)\<rparr>)))"
  using assms
  by (simp add: engine_ok_adopt engine_ok_put_account acknowledge_in_ok engine_ok_stored)

lemma keeps_persistAcknowledgement [keeps_intros]:
  "keeps engine_ok (persistAcknowledgement env acc m v)"
  unfolding persistAcknowledgement_def Let_def case_prod_beta
  by (intro keeps_intros keeps_put_state engine_ok_acknowledge) auto

lemma keeps_apply_command [keeps_intros]: "keeps engine_ok (apply_command env c)"
  unfolding apply_command_def by (intro keeps_intros)

lemma keeps_failCommand [keeps_intros]: "keeps engine_ok (failCommand env acc oid e)"
  unfolding failCommand_def by (intro keeps_intros)

lemma keeps_project_durable [keeps_intros]: "keeps engine_ok (project_durable env f c)"
  unfolding project_durable_def by (intro keeps_intros)

lemma keeps_finish_enqueue [keeps_intros]: "keeps engine_ok (finish_enqueue env f acc oid)"
  unfolding finish_enqueue_def by (intro keeps_intros)

text \<open>
  enqueue and stage push a command only after looking its operation id up in the same state, so
  the push is justified by the test before it.
\<close>

lemma keeps_push:
  assumes "\<not> already_queued s (accountId c) (opId c)" and "keeps engine_ok m"
  shows "engine_ok s \<Longrightarrow> engine_ok (snd (and_then (put_state (push_command c)) (\<lambda>_. m) s))"
  using assms(2) engine_ok_push [OF _ assms(1)]
  by (simp add: and_then_def put_state_def keeps_def)

lemma keeps_with_state_at:
  assumes "\<And>t. I t \<Longrightarrow> I (snd (f t t))"
  shows "keeps I (with_state f)"
  using assms by (simp add: keeps_def with_state_def)

lemma accountId_normalize [simp]: "accountId (normalizeMutation c) = accountId c"
  by (simp add: normalizeMutation_def)

lemma accountId_enqueue_form [simp]: "accountId (enqueue_form env f c) = accountId c"
  by (simp add: enqueue_form_def normalize_enqueued_def Let_def)

lemma keeps_enqueue [keeps_intros]: "keeps engine_ok (enqueue env c f)"
  unfolding enqueue_def Let_def
proof (rule keeps_with_state_at)
  fix t :: "'a engine" assume t: "engine_ok t"
  let ?n = "enqueue_form env f c"
  have "keeps engine_ok (and_then (schedulePersistence env (accountId c))
          (\<lambda>_. finish_enqueue env f (accountId c) (opId ?n)))"
    by (intro keeps_intros)
  moreover have "accountId ?n = accountId c" by simp
  ultimately show "engine_ok (snd ((if already_queued t (accountId c) (opId ?n) then ok ()
      else and_then (put_state (push_command ?n)) (\<lambda>_.
             and_then (schedulePersistence env (accountId c)) (\<lambda>_.
             finish_enqueue env f (accountId c) (opId ?n)))) t))"
    using keeps_push [of t ?n] t by (auto simp: ok_def)
qed

lemma keeps_stage [keeps_intros]: "keeps engine_ok (stage env c claim)"
  unfolding stage_def Let_def
proof (rule keeps_with_state_at)
  fix t :: "'a engine" assume t: "engine_ok t"
  let ?n = "normalizeMutation (c\<lparr>status := Some Staged, projectionClaimId := map_option fst claim,
              projectionClaimExpiresAt := map_option snd claim\<rparr>)"
  have "keeps engine_ok (and_then (schedulePersistence env (accountId c))
          (\<lambda>_. and_then emit (\<lambda>_. ok True)))"
    by (intro keeps_intros)
  moreover have "accountId ?n = accountId c" by simp
  ultimately show "engine_ok (snd ((if already_queued t (accountId c) (opId ?n) then ok False
      else and_then (put_state (push_command ?n)) (\<lambda>_.
             and_then (schedulePersistence env (accountId c)) (\<lambda>_.
             and_then emit (\<lambda>_. ok True)))) t))"
    using keeps_push [of t ?n] t by (auto simp: ok_def)
qed

lemma claim_queue_distinct: "distinct_ops (fst (claim_queue x e t q)) = distinct_ops q"
  unfolding claim_queue_def fst_conv by (rule distinct_ops_map) simp

lemma keeps_claim_account [keeps_intros]: "keeps engine_ok (claim_account env x e acc)"
  unfolding claim_account_def Let_def case_prod_beta
  by (intro keeps_intros keeps_put_state engine_ok_set_queue)
     (auto simp: claim_queue_distinct engine_ok_queue)

lemma keeps_claimStaged [keeps_intros]: "keeps engine_ok (claimStaged env x l)"
  unfolding claimStaged_def Let_def by (intro keeps_intros)

lemma keeps_activate [keeps_intros]: "keeps engine_ok (activate env acc oid x)"
  unfolding activate_def by (intro keeps_intros)

lemma keeps_case_option_at:
  assumes "keeps I m" and "\<And>x. z = Some x \<Longrightarrow> keeps I (f x)"
  shows "keeps I (case z of None \<Rightarrow> m | Some x \<Rightarrow> f x)"
  using assms by (cases z) auto

lemma keeps_cancel [keeps_intros]: "keeps engine_ok (cancel env acc oid x)"
  unfolding cancel_def
  by (intro keeps_with_state keeps_case_option_at keeps_if keeps_ok keeps_and_then keeps_put_state
        keeps_schedulePersistence keeps_emit engine_ok_set_queue)
     (auto intro: distinct_ops_splice engine_ok_get)

lemma keeps_preserveConflict [keeps_intros]: "keeps engine_ok (preserveConflict env m)"
  unfolding preserveConflict_def by (intro keeps_intros)

section \<open>restore and clear\<close>

lemma engine_ok_load_account:
  assumes "engine_ok s" and "distinct_ops (snd e)"
  shows "engine_ok (load_account e s)"
  using assms
  by (cases e) (auto simp: load_account_def distinct_ops_map intro!: engine_ok_set_queue)

lemma engine_ok_load:
  assumes "engine_ok s" and "\<And>e. e \<in> set es \<Longrightarrow> distinct_ops (snd e)"
  shows "engine_ok (fold load_account es s)"
  using assms by (induction es arbitrary: s) (auto intro: engine_ok_load_account)

lemma document_ok_entries:
  assumes "document_ok d" and "e \<in> set (coalesce d [])"
  shows "distinct_ops (snd e)"
  using assms
  by (cases e; cases d) (auto simp: document_ok_def stored_ok_def js_get_Some_iff)

lemma returns_replay_command: "returns (\<lambda>r. opId (fst r) = opId c) (replay_command env c)"
  unfolding replay_command_def
  by (intro returns_if returns_and_then returns_ok) simp_all

lemma keeps_replay_command [keeps_intros]: "keeps engine_ok (replay_command env c)"
  unfolding replay_command_def by (intro keeps_intros)

lemma replayed_distinct:
  assumes "list_all2 (\<lambda>c r. opId (fst r) = opId c) q rs" and "distinct_ops q"
  shows "distinct_ops (map fst rs)"
proof -
  have "map opId (map fst rs) = map opId q"
    using assms(1) by (induction rule: list_all2_induct) simp_all
  with assms(2) show ?thesis by (simp only: distinct_ops_def)
qed

lemma keeps_replay_account [keeps_intros]: "keeps engine_ok (replay_account env acc)"
  unfolding replay_account_def
  by (rule keeps_with_state,
      rule keeps_and_then_returns [OF keeps_map_each [OF keeps_replay_command]
        returns_map_each [OF returns_replay_command]],
      intro keeps_intros keeps_put_state engine_ok_set_queue)
     (auto intro: replayed_distinct engine_ok_queue)

lemma engine_ok_reset:
  "engine_ok s \<Longrightarrow> engine_ok (s\<lparr>queuesByAccountId := [], persistedOperationIds := [],
     persistedCommandSignatures := []\<rparr>)"
  by (simp add: engine_ok_def queues_ok_def)

lemma engine_ok_forget: "engine_ok s \<Longrightarrow> engine_ok (s\<lparr>document := None\<rparr>)"
  by (simp add: engine_ok_def document_ok_def)

lemma engine_ok_drop:
  "engine_ok s \<Longrightarrow> engine_ok (s\<lparr>queuesByAccountId := js_delete acc (queuesByAccountId s)\<rparr>)"
  by (auto simp: engine_ok_def queues_ok_def)

lemma keeps_restore: "keeps engine_ok (restore env)"
  unfolding restore_def
  by (intro keeps_intros keeps_put_state engine_ok_reset engine_ok_load)
     (auto simp: engine_ok_def intro: document_ok_entries)

lemma keeps_clear: "keeps engine_ok (clear env acc)"
  unfolding clear_def
  by (intro keeps_intros keeps_put_state engine_ok_reset engine_ok_forget engine_ok_drop)

section \<open>Draining\<close>

lemma queues_ok_rename:
  assumes "queues_ok m"
  shows "queues_ok (map (\<lambda>(acc, q). (acc, map (rename_entity a b) q)) m)"
proof -
  have k: "map fst (map (\<lambda>(acc, q). (acc, map (rename_entity a b) q)) m) = map fst m"
    by (induction m) auto
  have g: "js_get (map (\<lambda>(acc, q). (acc, map (rename_entity a b) q)) m) acc =
             map_option (map (rename_entity a b)) (js_get m acc)" for acc
    by (induction m) auto
  show ?thesis
    using assms unfolding queues_ok_def k g by (auto simp: distinct_ops_map)
qed

lemma engine_ok_rename:
  "engine_ok s \<Longrightarrow> engine_ok (s\<lparr>queuesByAccountId :=
     map (\<lambda>(acc, q). (acc, map (rename_entity a b) q)) (queuesByAccountId s)\<rparr>)"
  by (simp add: engine_ok_def queues_ok_rename)

lemma keeps_rewritePendingIds [keeps_intros]: "keeps engine_ok (rewritePendingIds env a b)"
  unfolding rewritePendingIds_def Let_def
  by (intro keeps_intros keeps_all_each keeps_put_state engine_ok_rename)

lemma keeps_processMutation [keeps_intros]: "keeps engine_ok (processMutation env acc m)"
  unfolding processMutation_def Let_def
  by (intro keeps_intros keeps_put_state) simp

lemma keeps_reconcileAuthoritative [keeps_intros]:
  "keeps engine_ok (reconcileAuthoritative env m item)"
  unfolding reconcileAuthoritative_def by (intro keeps_intros)

lemma keeps_rebaseMetadataMutation [keeps_intros]:
  "keeps engine_ok (rebaseMetadataMutation env acc m)"
  unfolding rebaseMetadataMutation_def by (intro keeps_intros)

lemma keeps_executeSemantic [keeps_intros]: "keeps engine_ok (executeSemantic env m)"
  unfolding executeSemantic_def by (intro keeps_intros)

lemma keeps_acknowledgeReconciler [keeps_intros]:
  "keeps engine_ok (acknowledgeReconciler env m ack)"
  unfolding acknowledgeReconciler_def by (intro keeps_intros)

lemma keeps_send_command [keeps_intros]: "keeps engine_ok (send_command env acc m)"
  unfolding send_command_def by (intro keeps_intros)

lemma engine_ok_splice:
  "engine_ok s \<Longrightarrow> engine_ok (set_queue acc (splice_at i (queue_of s acc)) s)"
  by (intro engine_ok_set_queue distinct_ops_splice engine_ok_queue)

lemma keeps_attempt_command [keeps_intros]: "keeps engine_ok (attempt_command env acc i m)"
  unfolding attempt_command_def
  by (intro keeps_intros keeps_put_state) (simp add: engine_ok_splice)

lemma keeps_after_conflict [keeps_intros]: "keeps engine_ok (after_conflict env acc m)"
  unfolding after_conflict_def by (intro keeps_intros)

lemma keeps_retry_later [keeps_intros]: "keeps engine_ok (retry_later env acc m e)"
  unfolding retry_later_def by (intro keeps_intros)

lemma keeps_handle_failure [keeps_intros]: "keeps engine_ok (handle_failure env acc att m e)"
  unfolding handle_failure_def Let_def by (intro keeps_intros)

lemma keeps_drain_account [keeps_intros]: "keeps engine_ok (drain_account fuel env acc att)"
proof (induction fuel arbitrary: att)
  case (Suc fuel)
  show ?case
    unfolding drain_account.simps Let_def by (intro keeps_intros Suc)
qed (simp add: keeps_ok)

lemma keeps_drain_entry [keeps_intros]: "keeps engine_ok (drain_entry fuel env acc)"
  unfolding drain_entry_def by (intro keeps_intros)

lemma keeps_drain_once [keeps_intros]: "keeps engine_ok (drain_once fuel env)"
  unfolding drain_once_def by (intro keeps_intros)

lemma keeps_drain_passes [keeps_intros]: "keeps engine_ok (drain_passes fuel env)"
proof (induction fuel)
  case (Suc fuel)
  show ?case
    unfolding drain_passes.simps by (intro keeps_intros keeps_put_state Suc) simp
qed (simp add: keeps_ok)

lemma keeps_drain: "keeps engine_ok (drain fuel env)"
  unfolding drain_def
  by (intro keeps_intros keeps_put_state keeps_try_finally) simp_all

end
