(* ===== verification/QueueMerge.thy ===== *)
theory QueueMerge
  imports QueueInvariant
begin

text \<open>
  What persisting a queue does to the shared document: the merge of writeQueue as a three-way
  merge, operation by operation, of the queue in memory, the document, and what this engine last
  saw of the document; and, for an engine that is the only writer, that the document then holds
  exactly the queue.
\<close>

section \<open>The abstract merge\<close>

text \<open>
  mine is the queue in memory and theirs the document, both by operation id; known and seen are
  the ids and commands this engine last saw there. A command removed here is removed there; a
  command another process removed stays removed; a command another process changed keeps that
  change; a command only another process has is taken over.
\<close>

definition merge_spec ::
  "string list \<Rightarrow> (string \<Rightarrow> command option) \<Rightarrow> (string \<Rightarrow> command option) \<Rightarrow>
   (string \<Rightarrow> command option) \<Rightarrow> string \<Rightarrow> command option" where
  "merge_spec known seen mine theirs oid = (case (mine oid, theirs oid) of
       (None, t) \<Rightarrow> if oid \<in> set known then None else t
     | (Some c, None) \<Rightarrow> if oid \<in> set known then None else Some c
     | (Some c, Some t) \<Rightarrow> if seen oid \<noteq> None \<and> seen oid \<noteq> Some t then Some t else Some c)"

definition lookup_op :: "command list \<Rightarrow> string \<Rightarrow> command option" where
  "lookup_op q oid = List.find (\<lambda>c. opId c = oid) q"

lemma lookup_op_Some_iff:
  assumes "distinct_ops q"
  shows "(lookup_op q oid = Some c) = (c \<in> set q \<and> opId c = oid)"
proof
  assume "lookup_op q oid = Some c"
  then show "c \<in> set q \<and> opId c = oid"
    by (auto simp: lookup_op_def find_Some_iff)
next
  assume c: "c \<in> set q \<and> opId c = oid"
  show "lookup_op q oid = Some c"
  proof (cases "lookup_op q oid")
    case None
    with c show ?thesis by (auto simp: lookup_op_def find_None_iff)
  next
    case (Some d)
    then have "d \<in> set q" and "opId d = opId c" using c by (auto simp: lookup_op_def find_Some_iff)
    with c assms have "d = c" by (auto simp: distinct_ops_def distinct_map dest: inj_onD)
    with Some show ?thesis by simp
  qed
qed

lemma lookup_op_None_iff: "(lookup_op q oid = None) = (oid \<notin> opId ` set q)"
  by (auto simp: lookup_op_def find_None_iff)

lemma lookup_op_Nil [simp]: "lookup_op [] = (\<lambda>_. None)"
  by (rule ext) (simp add: lookup_op_def)

lemma lookup_op_eqI:
  assumes "distinct_ops q" and "distinct_ops r" and "set q = set r"
  shows "lookup_op q = lookup_op r"
proof (rule ext)
  fix x show "lookup_op q x = lookup_op r x"
  proof (cases "lookup_op r x")
    case None
    then show ?thesis using assms(3) by (metis lookup_op_None_iff)
  next
    case (Some c)
    then show ?thesis
      using lookup_op_Some_iff [OF assms(1), of x c] lookup_op_Some_iff [OF assms(2), of x c] assms(3)
      by simp
  qed
qed

lemma lookup_op_keyed:
  assumes "keyed m"
  shows "lookup_op (map snd m) = js_get m"
proof (rule ext)
  fix x
  have d: "distinct_ops (map snd m)" by (rule keyed_distinct_ops [OF assms])
  have k: "distinct (map fst m)" using assms by (simp add: keyed_def)
  show "lookup_op (map snd m) x = js_get m x"
  proof (cases "js_get m x")
    case None
    then have "x \<notin> fst ` set m" by (simp add: map_of_eq_None_iff)
    then have "x \<notin> opId ` set (map snd m)" using keyed_entries [OF assms] by auto
    with None show ?thesis using lookup_op_None_iff [of "map snd m" x] by simp
  next
    case (Some c)
    then have "(x, c) \<in> set m" and "opId c = x"
      using assms by (auto simp: js_get_Some_iff [OF k] keyed_def)
    then have "c \<in> set (map snd m) \<and> opId c = x" by force
    then show ?thesis using lookup_op_Some_iff [OF d, of x c] Some by simp
  qed
qed

lemma by_operation_id: "distinct_ops q \<Longrightarrow> by_operation q = map (\<lambda>c. (opId c, c)) q"
  unfolding by_operation_def by (rule js_map_of_id) (simp add: distinct_ops_def comp_def)

lemma by_operation_get: "distinct_ops q \<Longrightarrow> js_get (by_operation q) = lookup_op q"
  using lookup_op_keyed [OF keyed_by_operation, of q] by (simp add: by_operation_id comp_def)

section \<open>The merge implements it\<close>

lemma prune_get:
  "js_get (fold (\<lambda>k m. if js_has desired k then m else js_delete k m) ks m) oid =
     (if oid \<in> set ks \<and> \<not> js_has desired oid then None else js_get m oid)"
  by (induction ks arbitrary: m) auto

definition merge_one ::
  "string list \<Rightarrow> (string \<times> command) list \<Rightarrow> command \<Rightarrow> command option \<Rightarrow> command option" where
  "merge_one known seen c cur = (case cur of
       None \<Rightarrow> if opId c \<in> set known then None else Some c
     | Some t \<Rightarrow> if js_get seen (opId c) \<noteq> None \<and> js_get seen (opId c) \<noteq> Some t then Some t else Some c)"

lemma merge_command_get:
  assumes "opId c = k"
  shows "js_get (fst (merge_command known seen (k, c) (m, e))) oid =
     (if oid = k then merge_one known seen c (js_get m k) else js_get m oid)"
  using assms
  by (auto simp: merge_one_def js_has_def commandSignature_def split: option.splits)

lemma merge_command_elsewhere:
  "snd (merge_command known seen (k, c) (m, e)) =
     (if k \<in> set known \<and> js_get m k = None then e @ [c] else e)"
  by (auto simp: js_has_def split: option.splits)

lemma merge_fold_get:
  assumes "distinct_ops q"
  shows "js_get (fst (fold (merge_command known seen) (map (\<lambda>c. (opId c, c)) q) (m, e))) oid =
     (case lookup_op q oid of None \<Rightarrow> js_get m oid
      | Some c \<Rightarrow> merge_one known seen c (js_get m oid))"
  using assms
proof (induction q arbitrary: m e)
  case (Cons c q)
  obtain m' e' where r: "merge_command known seen (opId c, c) (m, e) = (m', e')"
    by (cases "merge_command known seen (opId c, c) (m, e)")
  have get: "js_get m' x = (if x = opId c then merge_one known seen c (js_get m x) else js_get m x)" for x
    using merge_command_get [of c "opId c" known seen m e x] r by auto
  have "distinct_ops q" and new: "opId c \<notin> opId ` set q"
    using Cons.prems by (auto simp: distinct_ops_def)
  then have none: "lookup_op q (opId c) = None" by (simp add: lookup_op_None_iff)
  have step: "lookup_op (c # q) oid = (if opId c = oid then Some c else lookup_op q oid)"
    by (simp add: lookup_op_def)
  show ?case
    using Cons.IH [OF \<open>distinct_ops q\<close>, of m' e'] r none get [of oid] step
    by (auto split: option.splits)
qed (simp add: lookup_op_def)

lemma merge_fold_elsewhere:
  assumes "distinct_ops q"
  shows "snd (fold (merge_command known seen) (map (\<lambda>c. (opId c, c)) q) (m, e)) =
     e @ filter (\<lambda>c. opId c \<in> set known \<and> js_get m (opId c) = None) q"
  using assms
proof (induction q arbitrary: m e)
  case (Cons c q)
  obtain m' e' where r: "merge_command known seen (opId c, c) (m, e) = (m', e')"
    by (cases "merge_command known seen (opId c, c) (m, e)")
  have get: "js_get m' x = js_get m x" if "x \<noteq> opId c" for x
    using merge_command_get [of c "opId c" known seen m e x] r that by auto
  have e': "e' = (if opId c \<in> set known \<and> js_get m (opId c) = None then e @ [c] else e)"
    using merge_command_elsewhere [of known seen "opId c" c m e] r by simp
  have d: "distinct_ops q" and new: "\<And>d. d \<in> set q \<Longrightarrow> opId d \<noteq> opId c"
    using Cons.prems by (auto simp: distinct_ops_def image_iff)
  have "filter (\<lambda>c. opId c \<in> set known \<and> js_get m' (opId c) = None) q =
        filter (\<lambda>c. opId c \<in> set known \<and> js_get m (opId c) = None) q"
    by (rule filter_cong) (auto simp: get dest: new)
  with Cons.IH [OF d, of m' e'] r e' show ?case by simp
qed simp

lemma merge_queue_lookup:
  assumes "distinct_ops q" and "distinct_ops st"
  shows "lookup_op (fst (merge_queue known seen q st)) =
         merge_spec known (js_get seen) (lookup_op q) (lookup_op st)"
proof (rule ext)
  fix oid
  let ?d = "map (\<lambda>c. (opId c, c)) q"
  let ?p = "fold (\<lambda>k m. if js_has (by_operation q) k then m else js_delete k m) known (by_operation st)"
  let ?r = "fold (merge_command known seen) ?d (?p, [])"
  have k: "keyed (fst ?r)"
    by (rule keyed_merge_fold) (auto intro: keyed_prune)
  have has: "js_has (by_operation q) oid = (lookup_op q oid \<noteq> None)"
    using by_operation_get [OF assms(1)] by (simp add: js_has_def)
  have p: "js_get ?p oid = (if oid \<in> set known \<and> lookup_op q oid = None then None
                            else lookup_op st oid)"
    by (simp add: prune_get has by_operation_get [OF assms(2)])
  have id: "opId c = oid" if "lookup_op q oid = Some c" for c
    using that lookup_op_Some_iff [OF assms(1)] by blast
  have "lookup_op (fst (merge_queue known seen q st)) = lookup_op (map snd (fst ?r))"
  proof (rule lookup_op_eqI)
    show "distinct_ops (fst (merge_queue known seen q st))" by (rule merge_queue_ok)
    show "distinct_ops (map snd (fst ?r))" by (rule keyed_distinct_ops [OF k])
    show "set (fst (merge_queue known seen q st)) = set (map snd (fst ?r))"
      by (simp add: merge_queue_def Let_def case_prod_beta by_operation_id [OF assms(1)])
  qed
  also have "\<dots> = js_get (fst ?r)" by (rule lookup_op_keyed [OF k])
  finally show "lookup_op (fst (merge_queue known seen q st)) oid =
      merge_spec known (js_get seen) (lookup_op q) (lookup_op st) oid"
    by (auto simp: merge_fold_get [OF assms(1)] p merge_spec_def merge_one_def
        split: option.splits dest: id)
qed

lemma merge_queue_elsewhere:
  assumes "distinct_ops q" and "distinct_ops st"
  shows "snd (merge_queue known seen q st) =
         filter (\<lambda>c. opId c \<in> set known \<and> lookup_op st (opId c) = None) q"
proof -
  let ?p = "fold (\<lambda>k m. if js_has (by_operation q) k then m else js_delete k m) known (by_operation st)"
  have "js_get ?p (opId c) = lookup_op st (opId c)" if "c \<in> set q" for c
  proof -
    have "js_has (by_operation q) (opId c)"
      using that by (force simp: by_operation_id [OF assms(1)] js_has_iff)
    then show ?thesis by (simp add: prune_get by_operation_get [OF assms(2)])
  qed
  then have "filter (\<lambda>c. opId c \<in> set known \<and> js_get ?p (opId c) = None) q =
        filter (\<lambda>c. opId c \<in> set known \<and> lookup_op st (opId c) = None) q"
    by (intro filter_cong) auto
  then show ?thesis
    by (simp add: merge_queue_def Let_def case_prod_beta by_operation_id [OF assms(1)]
        merge_fold_elsewhere [OF assms(1)])
qed

end
