(* ===== verification/QueueWrites.thy ===== *)
theory QueueWrites
  imports QueueMerge "HOL-Library.Multiset"
begin

text \<open>
  The single-writer behaviour of the queue: an engine that last wrote (or read) the document
  itself writes exactly its queue, and what enqueue, activate and the acknowledgement of a sent
  command leave behind in memory and in the document is stated command by command.
\<close>

section \<open>What the engine remembers of the document\<close>

definition remembered :: "'w engine \<Rightarrow> string \<Rightarrow> bool" where
  "remembered s acc =
     (set (coalesce (js_get (persistedOperationIds s) acc) []) = opId ` set (stored_queue s acc) \<and>
      js_get (coalesce (js_get (persistedCommandSignatures s) acc) []) =
        lookup_op (stored_queue s acc))"

definition settled :: "'w engine \<Rightarrow> string \<Rightarrow> bool" where
  "settled s acc = (queue_of s acc = stored_queue s acc \<and> remembered s acc)"

definition reliable :: "'w env \<Rightarrow> bool" where
  "reliable env =
     ((\<forall>w. fst (storageOutcome env w) = Inr ()) \<and>
      (case reconciler env of None \<Rightarrow> True | Some rc \<Rightarrow> rcDiscardElsewhere rc = None))"

lemma reliable_storage:
  "reliable env \<Longrightarrow> storageOutcome env w = (Inr (), snd (storageOutcome env w))"
  by (simp add: reliable_def prod_eq_iff)

definition after_write :: "string \<Rightarrow> command list \<Rightarrow> 'w engine \<Rightarrow> 'w engine" where
  "after_write acc r s = rememberPersistedCommands acc r (adoptReconciledQueue acc r
     (s\<lparr>document := put_account acc r (document s)\<rparr>))"

lemma queue_of_frame [simp]:
  "queue_of (s\<lparr>latestMappings := a\<rparr>) acc = queue_of s acc"
  "queue_of (s\<lparr>draining := b\<rparr>) acc = queue_of s acc"
  "queue_of (s\<lparr>drainRequested := b\<rparr>) acc = queue_of s acc"
  "queue_of (s\<lparr>document := d\<rparr>) acc = queue_of s acc"
  "queue_of (s\<lparr>notified := n\<rparr>) acc = queue_of s acc"
  "queue_of (s\<lparr>world := w\<rparr>) acc = queue_of s acc"
  by (simp_all add: queue_of_def)

lemma stored_queue_frame [simp]:
  "stored_queue (s\<lparr>latestMappings := a\<rparr>) acc = stored_queue s acc"
  "stored_queue (s\<lparr>draining := b\<rparr>) acc = stored_queue s acc"
  "stored_queue (s\<lparr>drainRequested := b\<rparr>) acc = stored_queue s acc"
  "stored_queue (s\<lparr>notified := n\<rparr>) acc = stored_queue s acc"
  "stored_queue (s\<lparr>world := w\<rparr>) acc = stored_queue s acc"
  "stored_queue (set_queue b2 q s) acc = stored_queue s acc"
  by (simp_all add: stored_queue_def set_queue_def)

lemma remembered_frame [simp]:
  "remembered (s\<lparr>latestMappings := a\<rparr>) acc = remembered s acc"
  "remembered (s\<lparr>draining := b\<rparr>) acc = remembered s acc"
  "remembered (s\<lparr>drainRequested := b\<rparr>) acc = remembered s acc"
  "remembered (s\<lparr>notified := n\<rparr>) acc = remembered s acc"
  "remembered (s\<lparr>world := w\<rparr>) acc = remembered s acc"
  "remembered (set_queue b2 q s) acc = remembered s acc"
  by (simp_all add: remembered_def set_queue_def stored_queue_def)

lemma settled_frame [simp]:
  "settled (s\<lparr>latestMappings := a\<rparr>) acc = settled s acc"
  "settled (s\<lparr>draining := b\<rparr>) acc = settled s acc"
  "settled (s\<lparr>drainRequested := b\<rparr>) acc = settled s acc"
  "settled (s\<lparr>notified := n\<rparr>) acc = settled s acc"
  "settled (s\<lparr>world := w\<rparr>) acc = settled s acc"
  by (simp_all add: settled_def)

lemma queue_of_set_queue [simp]: "queue_of (set_queue a q s) acc = (if acc = a then q else queue_of s acc)"
  by (simp add: queue_of_def set_queue_def)

lemma world_set_queue [simp]: "world (set_queue a q s) = world s"
  by (simp add: set_queue_def)

lemma drainRequested_set_queue [simp]: "drainRequested (set_queue a q s) = drainRequested s"
  by (simp add: set_queue_def)

lemma after_write_simps [simp]:
  "queue_of (after_write acc r s) a = (if a = acc then r else queue_of s a)"
  "stored_queue (after_write acc r s) a = (if a = acc then r else stored_queue s a)"
  "world (after_write acc r s) = world s"
  "drainRequested (after_write acc r s) = drainRequested s"
proof -
  show "stored_queue (after_write acc r s) a = (if a = acc then r else stored_queue s a)"
    using put_account_get [of acc r "document s" a]
    by (cases "a = acc"; cases "r = []") (simp_all add: after_write_def rememberPersistedCommands_def adoptReconciledQueue_def
        stored_queue_def set_queue_def)
qed (simp_all add: after_write_def rememberPersistedCommands_def adoptReconciledQueue_def
       queue_of_def set_queue_def)

lemma remembered_after_write:
  assumes "distinct_ops r"
  shows "remembered (after_write acc r s) a = (a = acc \<or> remembered s a)"
proof -
  have *: "js_get (coalesce (js_get (persistedCommandSignatures (after_write acc r s)) a) []) =
      (if a = acc then lookup_op r
       else js_get (coalesce (js_get (persistedCommandSignatures s) a) []))"
    using by_operation_get [OF assms]
    by (simp add: after_write_def rememberPersistedCommands_def adoptReconciledQueue_def
        set_queue_def commandSignature_def by_operation_def)
  have **: "set (coalesce (js_get (persistedOperationIds (after_write acc r s)) a) []) =
      (if a = acc then opId ` set r else set (coalesce (js_get (persistedOperationIds s) a) []))"
    by (simp add: after_write_def rememberPersistedCommands_def adoptReconciledQueue_def
        set_queue_def)
  show ?thesis unfolding remembered_def * ** by simp
qed

lemma settled_after_write:
  "distinct_ops r \<Longrightarrow> settled (after_write acc r s) a = (a = acc \<or> settled s a)"
  by (auto simp: settled_def remembered_after_write)

section \<open>A single writer\<close>

lemma merge_remembered:
  assumes "engine_ok s" and "remembered s acc"
  defines "known \<equiv> coalesce (js_get (persistedOperationIds s) acc) []"
    and "seen \<equiv> coalesce (js_get (persistedCommandSignatures s) acc) []"
  shows "mset (fst (merge_queue known seen (queue_of s acc) (stored_queue s acc))) =
           mset (queue_of s acc)"
    and "snd (merge_queue known seen (queue_of s acc) (stored_queue s acc)) = []"
proof -
  let ?r = "fst (merge_queue known seen (queue_of s acc) (stored_queue s acc))"
  note q = engine_ok_queue [OF assms(1), of acc]
  note st = engine_ok_stored(1) [OF assms(1), of acc]
  have known: "set known = opId ` set (stored_queue s acc)"
    and seen: "js_get seen = lookup_op (stored_queue s acc)"
    using assms(2) by (simp_all add: remembered_def known_def seen_def)
  have mem: "(x \<in> set known) = (lookup_op (stored_queue s acc) x \<noteq> None)" for x
    by (metis known lookup_op_None_iff)
  have "lookup_op ?r = lookup_op (queue_of s acc)"
  proof (rule ext)
    fix x
    show "lookup_op ?r x = lookup_op (queue_of s acc) x"
      using mem [of x]
      by (auto simp: merge_queue_lookup [OF q st] seen merge_spec_def split: option.splits)
  qed
  then have "c \<in> set ?r \<longleftrightarrow> c \<in> set (queue_of s acc)" for c
    using lookup_op_Some_iff [OF q, of "opId c" c]
      lookup_op_Some_iff [OF merge_queue_ok(1), of known seen "queue_of s acc" "stored_queue s acc" "opId c" c]
    by simp
  then have "set ?r = set (queue_of s acc)" by blast
  moreover have "distinct ?r" and "distinct (queue_of s acc)"
    using merge_queue_ok(1) q by (auto simp: distinct_ops_def distinct_map)
  ultimately show "mset ?r = mset (queue_of s acc)" by (simp add: set_eq_iff_mset_eq_distinct)
  show "snd (merge_queue known seen (queue_of s acc) (stored_queue s acc)) = []"
    by (simp add: merge_queue_elsewhere [OF q st] mem filter_empty_conv del: not_None_eq)
qed

lemma writeQueue_single:
  assumes "engine_ok s" and "remembered s acc" and "storageOutcome env (world s) = (Inr (), w')"
  obtains r where "writeQueue env acc s = (Inr (), after_write acc r (s\<lparr>world := w'\<rparr>))"
    and "mset r = mset (queue_of s acc)" and "sorted (map timestamp r)" and "distinct_ops r"
proof -
  define known where "known = coalesce (js_get (persistedOperationIds s) acc) []"
  define seen where "seen = coalesce (js_get (persistedCommandSignatures s) acc) []"
  define r where "r = fst (merge_queue known seen (queue_of s acc) (stored_queue s acc))"
  have m: "mset r = mset (queue_of s acc)"
    and e: "snd (merge_queue known seen (queue_of s acc) (stored_queue s acc)) = []"
    using merge_remembered [OF assms(1,2)] by (simp_all add: r_def known_def seen_def)
  have set: "set r = set (queue_of s acc)" using m by (rule mset_eq_setD)
  let ?s1 = "s\<lparr>world := w', document := put_account acc r (document s)\<rparr>"
  have begin_eq: "writeBegin env acc s = (Inr (queue_of s acc, []), ?s1)"
    using assms(3) e
    by (simp add: writeBegin_def act_defs in_world_def Let_def known_def [symmetric]
        seen_def [symmetric] case_prod_beta r_def [symmetric])
  have stored: "stored_queue ?s1 acc = r"
    using put_account_get [of acc r "document s" acc] by (simp add: stored_queue_def)
  have none: "\<not> list_ex (\<lambda>c. opId c \<notin> set (map opId (queue_of s acc))) r"
    using set by (auto simp: list_ex_iff)
  have "writeQueue env acc s = (Inr (), after_write acc r (s\<lparr>world := w'\<rparr>))"
    using begin_eq stored none
    by (simp add: writeQueue_def writeFinish_def discardAll_def act_defs after_write_def)
  moreover have "sorted (map timestamp r)" and "distinct_ops r"
    by (simp_all add: r_def merge_queue_ok)
  ultimately show thesis using m that by blast
qed

lemma schedulePersistence_reliable:
  assumes "engine_ok s" and "remembered s acc" and "reliable env"
  obtains r w' where
    "schedulePersistence env acc s = (Inr (), after_write acc r (s\<lparr>world := w'\<rparr>))"
    and "mset r = mset (queue_of s acc)" and "sorted (map timestamp r)" and "distinct_ops r"
  using writeQueue_single [OF assms(1,2) reliable_storage [OF assms(3)]]
  by (metis schedulePersistence_def)

lemma lookup_op_mset:
  assumes "mset r = mset q" and "distinct_ops q"
  shows "lookup_op r = lookup_op q" "distinct_ops r"
proof -
  have "mset (map opId r) = mset (map opId q)" using assms(1) by simp
  then show d: "distinct_ops r"
    using assms(2) unfolding distinct_ops_def by (metis mset_eq_imp_distinct_iff)
  show "lookup_op r = lookup_op q"
    using assms by (intro lookup_op_eqI d) (auto dest: mset_eq_setD)
qed

section \<open>What enqueue leaves behind\<close>

lemma find_append: "List.find P (xs @ ys) = (case List.find P xs of None \<Rightarrow> List.find P ys | Some x \<Rightarrow> Some x)"
  by (induction xs) auto

lemma lookup_op_sort [simp]: "distinct_ops q \<Longrightarrow> lookup_op (sort_by_timestamp q) = lookup_op q"
  by (rule lookup_op_mset) (simp_all add: sort_by_timestamp_def)

lemma already_queued_iff: "already_queued s acc x = (lookup_op (queue_of s acc) x \<noteq> None)"
  by (auto simp: already_queued_def list_ex_iff lookup_op_None_iff simp del: not_None_eq)

lemma lookup_op_push:
  assumes "distinct_ops q" and "lookup_op q (opId c) = None"
  shows "lookup_op (sort_by_timestamp (q @ [c])) = (lookup_op q)(opId c \<mapsto> c)"
proof -
  have "\<not> list_ex (\<lambda>d. opId d = opId c) q"
    using assms(2) by (auto simp: list_ex_iff lookup_op_None_iff image_iff)
  then have "distinct_ops (q @ [c])" by (rule distinct_ops_append_new [OF assms(1)])
  then have "lookup_op (sort_by_timestamp (q @ [c])) = lookup_op (q @ [c])" by simp
  also have "\<dots> = (lookup_op q)(opId c \<mapsto> c)"
    using assms(2) by (auto simp: lookup_op_def find_append fun_eq_iff split: option.splits)
  finally show ?thesis .
qed

lemma lookup_op_replace_in:
  "lookup_op (replace_in m q) x =
     (if x = opId m \<and> lookup_op q x \<noteq> None then Some m else lookup_op q x)"
  by (induction q) (auto simp: lookup_op_def replace_in_def)

lemma find_command_lookup: "find_command s acc x = lookup_op (queue_of s acc) x"
  by (simp add: find_command_def lookup_op_def)

lemma update_command_lookup:
  assumes "lookup_op (queue_of s acc) (opId m) \<noteq> None"
  shows "update_command acc m s = (Inr (), set_queue acc (replace_in m (queue_of s acc)) s)"
proof -
  have "js_has (queuesByAccountId s) acc"
    using assms by (cases "js_get (queuesByAccountId s) acc") (auto simp: js_has_def queue_of_def)
  then show ?thesis by (simp add: update_command_def put_state_def)
qed

lemma queue_of_push [simp]:
  "queue_of (push_command c s) acc =
     (if acc = accountId c then sort_by_timestamp (queue_of s acc @ [c]) else queue_of s acc)"
  by (simp add: push_command_def)

lemma push_frame [simp]:
  "stored_queue (push_command c s) acc = stored_queue s acc"
  "remembered (push_command c s) acc = remembered s acc"
  "world (push_command c s) = world s"
  by (simp_all add: push_command_def)

lemma project_durable_frame:
  "\<exists>w. snd (project_durable env f c s) = s\<lparr>world := w\<rparr>"
proof -
  have "\<exists>w. s = s\<lparr>world := w\<rparr>" by (rule exI [where x = "world s"]) simp
  then show ?thesis
    by (auto simp: project_durable_def apply_command_def act_defs in_world_def Let_def
        split: option.splits sum.splits prod.splits)
qed

definition projects :: "'w env \<Rightarrow> ('w \<Rightarrow> (js_error + unit) \<times> 'w) option \<Rightarrow> command \<Rightarrow> bool" where
  "projects env f c = (case f of
       Some g \<Rightarrow> \<forall>w. fst (g w) = Inr ()
     | None \<Rightarrow> (case reconciler env of None \<Rightarrow> True
                | Some rc \<Rightarrow> \<forall>w. fst (fst (rcApply rc c w)) = None))"

lemma project_durable_ok:
  assumes "projects env f c"
  obtains w where "project_durable env f c s = (Inr (), s\<lparr>world := w\<rparr>)"
proof -
  have "fst (project_durable env f c s) = Inr ()"
    using assms
    by (auto simp: projects_def project_durable_def apply_command_def act_defs in_world_def Let_def
        split: option.splits sum.splits prod.splits) (metis fst_conv)+
  with project_durable_frame [of env f c s] that show thesis by (metis prod.collapse)
qed

text \<open>One write of a queue whose lookup is known, as the steps of enqueue use it.\<close>

lemma write_lookup:
  assumes "engine_ok s" and "remembered s acc" and "reliable env"
  obtains s' where "schedulePersistence env acc s = (Inr (), s')" and "engine_ok s'"
    and "settled s' acc" and "lookup_op (queue_of s' acc) = lookup_op (queue_of s acc)"
proof -
  obtain r w' where w: "schedulePersistence env acc s = (Inr (), after_write acc r (s\<lparr>world := w'\<rparr>))"
    and m: "mset r = mset (queue_of s acc)" and d: "distinct_ops r"
    by (rule schedulePersistence_reliable [OF assms])
  show thesis
  proof (rule that [OF w])
    show "engine_ok (after_write acc r (s\<lparr>world := w'\<rparr>))"
      using keepsE [OF keeps_schedulePersistence w assms(1)] .
    show "settled (after_write acc r (s\<lparr>world := w'\<rparr>)) acc"
      by (simp add: settled_after_write d)
    show "lookup_op (queue_of (after_write acc r (s\<lparr>world := w'\<rparr>)) acc) = lookup_op (queue_of s acc)"
      using lookup_op_mset [OF m engine_ok_queue [OF assms(1)]] by simp
  qed
qed

lemma settled_stored: "settled s acc \<Longrightarrow> stored_queue s acc = queue_of s acc"
  by (simp add: settled_def)

lemma settled_remembered: "settled s acc \<Longrightarrow> remembered s acc"
  by (simp add: settled_def)

definition enqueued :: "command \<Rightarrow> command" where
  "enqueued n = (if status n = Some Conflicted \<or> status n = Some Failed then n
                 else n\<lparr>status := Some Pending, lastError := None\<rparr>)"

lemma finish_enqueue_ok:
  assumes ok: "engine_ok s" and st: "settled s acc" and rel: "reliable env"
    and n: "lookup_op (queue_of s acc) x = Some n" and x: "opId n = x"
    and proj: "projects env f n"
  obtains s' where "finish_enqueue env f acc x s = (Inr (), s')" and "settled s' acc"
    and "lookup_op (queue_of s' acc) = (lookup_op (queue_of s acc))(x \<mapsto> enqueued n)"
proof (cases "status n = Some Conflicted \<or> status n = Some Failed")
  case True
  then have "finish_enqueue env f acc x s = (Inr (), s\<lparr>notified := Suc (notified s)\<rparr>)"
    using n by (simp add: finish_enqueue_def with_state_def find_command_lookup emit_def put_state_def)
  moreover have "(lookup_op (queue_of s acc))(x \<mapsto> enqueued n) = lookup_op (queue_of s acc)"
    using n True by (simp add: enqueued_def fun_upd_idem)
  ultimately show thesis using that st by simp
next
  case False
  let ?d = "n\<lparr>status := Some Pending, lastError := None\<rparr>"
  obtain w where p: "project_durable env f n s = (Inr (), s\<lparr>world := w\<rparr>)"
    by (rule project_durable_ok [OF proj])
  let ?s1 = "s\<lparr>world := w\<rparr>"
  let ?s2 = "set_queue acc (replace_in ?d (queue_of s acc)) ?s1"
  have u: "update_command acc ?d ?s1 = (Inr (), ?s2)"
    using update_command_lookup [of ?s1 acc ?d] n x by simp
  have ok2: "engine_ok ?s2" by (rule engine_ok_set_queue) (simp_all add: ok engine_ok_queue)
  have rem2: "remembered ?s2 acc" using st by (simp add: settled_remembered)
  obtain s3 where w3: "schedulePersistence env acc ?s2 = (Inr (), s3)" and st3: "settled s3 acc"
    and l3: "lookup_op (queue_of s3 acc) = lookup_op (queue_of ?s2 acc)"
    by (rule write_lookup [OF ok2 rem2 rel])
  have "finish_enqueue env f acc x s = (Inr (), s3\<lparr>notified := Suc (notified s3)\<rparr>)"
    using n False p u w3
    by (simp add: finish_enqueue_def find_command_lookup emit_def act_defs)
  moreover have "lookup_op (queue_of s3 acc) = (lookup_op (queue_of s acc))(x \<mapsto> enqueued n)"
    using n x False by (auto simp: l3 lookup_op_replace_in fun_eq_iff enqueued_def)
  ultimately show thesis using that st3 by simp
qed

lemma enqueue_ok:
  fixes f :: "('w \<Rightarrow> (js_error + unit) \<times> 'w) option" and c :: command and env :: "'w env"
  assumes ok: "engine_ok s" and rem: "remembered s (accountId c)" and rel: "reliable env"
  defines "n \<equiv> enqueue_form env f c"
  assumes fresh: "lookup_op (queue_of s (accountId c)) (opId n) = None"
    and proj: "projects env f n"
  obtains s' where "enqueue env c f s = (Inr (), s')" and "settled s' (accountId c)"
    and "lookup_op (queue_of s' (accountId c)) =
           (lookup_op (queue_of s (accountId c)))(opId n \<mapsto> enqueued n)"
proof -
  let ?a = "accountId c"
  let ?s1 = "push_command n s"
  have acc: "accountId n = ?a" by (simp add: n_def)
  have "\<not> already_queued s ?a (opId n)" using fresh by (simp add: already_queued_iff)
  then have ok1: "engine_ok ?s1" by (intro engine_ok_push [OF ok]) (simp add: acc)
  have l1: "lookup_op (queue_of ?s1 ?a) = (lookup_op (queue_of s ?a))(opId n \<mapsto> n)"
    using lookup_op_push [OF engine_ok_queue [OF ok] fresh] by (simp add: acc)
  obtain s2 where w2: "schedulePersistence env ?a ?s1 = (Inr (), s2)" and ok2: "engine_ok s2"
    and st2: "settled s2 ?a" and l2: "lookup_op (queue_of s2 ?a) = lookup_op (queue_of ?s1 ?a)"
    by (rule write_lookup [OF ok1 _ rel]) (use rem in simp)
  obtain s3 where f3: "finish_enqueue env f ?a (opId n) s2 = (Inr (), s3)" and st3: "settled s3 ?a"
    and l3: "lookup_op (queue_of s3 ?a) = (lookup_op (queue_of s2 ?a))(opId n \<mapsto> enqueued n)"
    by (rule finish_enqueue_ok [OF ok2 st2 rel _ refl proj]) (simp only: l1 l2 fun_upd_same)
  have "enqueue env c f s = (Inr (), s3)"
    using fresh w2 f3
    by (simp add: enqueue_def act_defs Let_def n_def [symmetric] already_queued_iff)
  moreover have "lookup_op (queue_of s3 ?a) = (lookup_op (queue_of s ?a))(opId n \<mapsto> enqueued n)"
    by (simp only: l3 l2 l1 fun_upd_upd)
  ultimately show thesis using that st3 by blast
qed

section \<open>An enqueue that meets a write in flight\<close>

text \<open>
  The schedule of two overlapping calls: a write of the account has been handed to the storage
  when enqueue pushes its command; the write then finishes, and only after it does the write
  that enqueue asked for run, followed by the rest of enqueue.
\<close>

definition enqueue_during_write ::
  "'w env \<Rightarrow> command \<Rightarrow> ('w \<Rightarrow> (js_error + unit) \<times> 'w) option \<Rightarrow> ('w, unit) eng" where
  "enqueue_during_write env c f =
     (let acc = accountId c;
          n = enqueue_form env f c
      in and_then (writeBegin env acc) (\<lambda>(queue, elsewhere).
         and_then (put_state (push_command n)) (\<lambda>_.
         and_then (with_state (\<lambda>s. writeFinish env acc queue elsewhere (stored_queue s acc))) (\<lambda>_.
         and_then (schedulePersistence env acc) (\<lambda>_.
         finish_enqueue env f acc (opId n))))))"

lemma discardAll_reliable: "reliable env \<Longrightarrow> discardAll env cs = ok ()"
  by (induction cs)
     (auto simp: discardAll_def reliable_def act_defs fun_eq_iff split: option.splits)

lemma enqueue_during_write_lost:
  fixes f :: "('w \<Rightarrow> (js_error + unit) \<times> 'w) option" and c :: command and env :: "'w env"
  assumes ok: "engine_ok s" and rel: "reliable env"
  defines "n \<equiv> enqueue_form env f c"
  assumes fresh: "lookup_op (queue_of s (accountId c)) (opId n) = None"
    and unknown: "lookup_op (stored_queue s (accountId c)) (opId n) = None"
  obtains s' where "enqueue_during_write env c f s = (Inr (), s')"
    and "lookup_op (queue_of s' (accountId c)) (opId n) = None"
    and "lookup_op (stored_queue s' (accountId c)) (opId n) = None"
proof -
  let ?a = "accountId c"
  let ?ids = "coalesce (js_get (persistedOperationIds s) ?a) []"
  let ?sigs = "coalesce (js_get (persistedCommandSignatures s) ?a) []"
  define r where "r = fst (merge_queue ?ids ?sigs (queue_of s ?a) (stored_queue s ?a))"
  define e where "e = snd (merge_queue ?ids ?sigs (queue_of s ?a) (stored_queue s ?a))"
  obtain w1 where w1: "storageOutcome env (world s) = (Inr (), w1)"
    using reliable_storage [OF rel] by blast
  have "lookup_op r (opId n) = None"
    using fresh unknown
    by (simp add: r_def merge_queue_lookup engine_ok_queue engine_ok_stored ok merge_spec_def)
  have acc: "accountId n = ?a" by (simp add: n_def)
  let ?s1 = "s\<lparr>world := w1, document := put_account ?a r (document s)\<rparr>"
  let ?s2 = "push_command n ?s1"
  have b: "writeBegin env ?a s = (Inr (queue_of s ?a, e), ?s1)"
    using w1 by (simp add: writeBegin_def act_defs in_world_def Let_def case_prod_beta r_def e_def)
  have ok1: "engine_ok ?s1" using keepsE [OF keeps_writeBegin b ok] .
  have ok2: "engine_ok ?s2"
    using fresh by (intro engine_ok_push ok1) (simp add: acc already_queued_iff)
  have st2: "stored_queue ?s2 ?a = r"
    using put_account_get [of ?a r "document s" ?a] by (simp add: stored_queue_def push_command_def set_queue_def)
  let ?x = "list_ex (\<lambda>d. opId d \<notin> set (map opId (queue_of s ?a))) r"
  define s3 where "s3 = rememberPersistedCommands ?a r (adoptReconciledQueue ?a r
      (if ?x then ?s2\<lparr>drainRequested := True\<rparr> else ?s2))"
  have f3: "writeFinish env ?a (queue_of s ?a) e (stored_queue ?s2 ?a) ?s2 = (Inr (), s3)"
    using st2 by (simp add: writeFinish_def discardAll_reliable [OF rel] act_defs s3_def)
  have "distinct_ops r" by (simp add: r_def merge_queue_ok)
  then have ok3: "engine_ok s3"
    by (intro keepsE [OF keeps_writeFinish f3 ok2]) (simp only: st2)
  have q3: "queue_of s3 ?a = r"
    by (simp add: s3_def rememberPersistedCommands_def adoptReconciledQueue_def queue_of_def set_queue_def)
  have d3: "document s3 = put_account ?a r (document s)"
    by (simp add: s3_def rememberPersistedCommands_def adoptReconciledQueue_def push_command_def set_queue_def)
  have t3: "stored_queue s3 ?a = r"
    using put_account_get [of ?a r "document s" ?a] d3 by (simp add: stored_queue_def)
  have rem3: "remembered s3 ?a"
    using by_operation_get [OF \<open>distinct_ops r\<close>]
    unfolding remembered_def t3
    by (simp add: s3_def rememberPersistedCommands_def commandSignature_def by_operation_def)
  obtain s4 where w4: "schedulePersistence env ?a s3 = (Inr (), s4)" and st4: "settled s4 ?a"
    and l4: "lookup_op (queue_of s4 ?a) = lookup_op (queue_of s3 ?a)"
    by (rule write_lookup [OF ok3 rem3 rel])
  have gone: "lookup_op (queue_of s4 ?a) (opId n) = None"
    using l4 q3 \<open>lookup_op r (opId n) = None\<close> by simp
  have "enqueue_during_write env c f s = (Inr (), s4)"
    using b f3 w4 gone
    by (simp add: enqueue_during_write_def act_defs Let_def n_def [symmetric] finish_enqueue_def
        find_command_lookup)
  then show thesis using that gone st4 by (simp add: settled_stored)
qed

end
