(* ===== verification/QueueCalls.thy ===== *)
theory QueueCalls
  imports QueueWrites
begin

text \<open>
  The engine as its clients drive it: one constructor per public method of ItemSyncEngine, plus
  the two things that happen to it from outside, another process writing the document and the
  synchronous first half of an enqueue whose write is still to come. A history is a list of
  these; the laws of a history are the locale stepper, interpreted here on the engine.
\<close>

datatype 'w engine_call =
    CallEnqueue command "('w \<Rightarrow> (js_error + unit) \<times> 'w) option"
  | CallEnqueueBegin command
  | CallPersist string
  | CallStage command "(string \<times> int) option"
  | CallClaimStaged string int
  | CallActivate string string string
  | CallCancel string string string
  | CallRestore
  | CallClear "string option"
  | CallRewriteIds string string
  | CallDrain nat
  | CallConsumeMappings
  | WrittenElsewhere "queue_document option"

definition begin_enqueue :: "'w env \<Rightarrow> command \<Rightarrow> 'w engine \<Rightarrow> 'w engine" where
  "begin_enqueue env c s =
     (let n = enqueue_form env None c
      in if already_queued s (accountId n) (opId n) then s else push_command n s)"

fun run_call :: "'w env \<Rightarrow> 'w engine \<Rightarrow> 'w engine_call \<Rightarrow> 'w engine" where
  "run_call env s (CallEnqueue c f) = snd (enqueue env c f s)"
| "run_call env s (CallEnqueueBegin c) = begin_enqueue env c s"
| "run_call env s (CallPersist acc) = snd (writeQueue env acc s)"
| "run_call env s (CallStage c claim) = snd (stage env c claim s)"
| "run_call env s (CallClaimStaged x l) = snd (claimStaged env x l s)"
| "run_call env s (CallActivate acc oid x) = snd (activate env acc oid x s)"
| "run_call env s (CallCancel acc oid x) = snd (cancel env acc oid x s)"
| "run_call env s CallRestore = snd (restore env s)"
| "run_call env s (CallClear acc) = snd (clear env acc s)"
| "run_call env s (CallRewriteIds a b) = snd (rewritePendingIds env a b s)"
| "run_call env s (CallDrain fuel) = snd (drain fuel env s)"
| "run_call env s CallConsumeMappings = snd (consumeTempIdMappings s)"
| "run_call env s (WrittenElsewhere doc) = (if document_ok doc then s\<lparr>document := doc\<rparr> else s)"

lemma run_call_ok: "engine_ok s \<Longrightarrow> engine_ok (run_call env s call)"
proof (cases call)
  case (CallEnqueueBegin c)
  then show "engine_ok s \<Longrightarrow> ?thesis"
    by (auto simp: begin_enqueue_def Let_def intro: engine_ok_push)
next
  case (WrittenElsewhere doc)
  then show "engine_ok s \<Longrightarrow> ?thesis" by (auto simp: engine_ok_def)
qed (auto intro: keepsD keeps_intros keeps_restore keeps_clear keeps_drain
       simp: consumeTempIdMappings_def)

interpretation calls: stepper "run_call env" engine_ok for env
  by unfold_locales (rule run_call_ok)

lemma engine_ok_new: "document_ok doc \<Longrightarrow> engine_ok (new_engine w doc)"
  by (simp add: engine_ok_def new_engine_def queues_ok_def)

section \<open>A sample platform\<close>

text \<open>
  A platform for the concrete histories of the witnesses: the world counts the calls made, storage
  always succeeds, suffixes are u, and the server answers every write with the revision 8.
\<close>

definition sample_env :: "nat env" where
  "sample_env = \<lparr>now = (\<lambda>w. 1000), freshSuffix = (\<lambda>w. (''u'', Suc w)),
     localeCompare = (\<lambda>a b. if a = b then 0 else 1),
     storageOutcome = (\<lambda>w. (Inr (), Suc w)),
     getClient = (\<lambda>acc w. (Inr (), Suc w)),
     sendRequest = (\<lambda>acc req w. (Inr \<lparr>respEtag = Some [CHR 0x22, CHR ''8'', CHR 0x22],
                                       respId = None, respItemId = None\<rparr>, Suc w)),
     fetchItem = (\<lambda>acc item w. (Inl (TransportError ''offline''), Suc w)),
     reconciler = None\<rparr>"

definition sample_command :: "string \<Rightarrow> command_type \<Rightarrow> int \<Rightarrow> command" where
  "sample_command oid ty v =
     \<lparr>accountId = ''a'', accountEmail = None, commandId = oid, operationId = Some oid,
      attemptId = Some oid, commandType = ty, entityId = ''item'', vaultId = ''v'',
      targetVaultId = None, targetAccountId = None, targetItemId = None,
      category = Some ''login'',
      encryptedPayload = Some \<lparr>payloadData = ''d'', payloadIv = ''i'', payloadAlgorithm = ''g'',
        payloadVersion = v, payloadUserId = ''u''\<rparr>,
       favorite = None, baseVersion = v,
      timestamp = 5, retryCount = 0, status = None, lastError = None, nextAttemptAt = None,
      conflictCopyId = None, projectionClaimId = None, projectionClaimExpiresAt = None\<rparr>"

lemma reliable_sample [simp]: "reliable sample_env"
  by (simp add: reliable_def sample_env_def)

section \<open>Properties\<close>

text \<open>
  C21. Starting from any well-formed document and through any history of public calls, half-
  finished enqueues, writes by other processes, storage failures and server answers, no queue
  holds two commands of one operation, and the stored document has no empty queue, no duplicate
  operation and every queue in order of time.
\<close>

theorem engine_well_formed_always:
  assumes "document_ok doc"
  shows "engine_ok (foldl (run_call env) (new_engine w doc) calls)"
  by (rule calls.run_inv) (rule engine_ok_new [OF assms])

theorem engine_well_formed_always_witness:
  "engine_ok (foldl (run_call sample_env)
     (new_engine 0 (Some [(''a'', [sample_command ''o1'' Delete 7])]))
     [CallRestore, CallEnqueue (sample_command ''o2'' Restore 7) None, CallDrain 5])"
  by (rule engine_well_formed_always)
     (simp add: document_ok_def stored_ok_def distinct_ops_def)

end
