(* ===== verification/QueueSealed.thy ===== *)
theory QueueSealed
  imports QueueCalls
begin

text \<open>
  What the engine never changes about a command. The locale command_law is the interface: a
  property of single commands that every rule by which the engine edits a command respects; under
  it the property holds of every command in memory and in the document after any history. Its
  interpretation is the property that makes the ciphertext readable: the payload, type and
  vaults of a command stay what they were when it was queued, and so does the revision a sealed
  ciphertext is bound to.
\<close>

definition all_commands :: "(command \<Rightarrow> bool) \<Rightarrow> 'w engine \<Rightarrow> bool" where
  "all_commands P s =
     ((\<forall>acc. list_all P (queue_of s acc)) \<and> (\<forall>acc. list_all P (stored_queue s acc)))"

definition law_state :: "(command \<Rightarrow> bool) \<Rightarrow> 'w engine \<Rightarrow> bool" where
  "law_state P s = (engine_ok s \<and> all_commands P s)"

lemma all_commands_queue: "all_commands P s \<Longrightarrow> c \<in> set (queue_of s acc) \<Longrightarrow> P c"
  by (auto simp: all_commands_def list_all_iff)

lemma all_commands_stored: "all_commands P s \<Longrightarrow> c \<in> set (stored_queue s acc) \<Longrightarrow> P c"
  by (auto simp: all_commands_def list_all_iff)

lemma all_commands_frame [simp]:
  "all_commands P (s\<lparr>latestMappings := a\<rparr>) = all_commands P s"
  "all_commands P (s\<lparr>draining := b\<rparr>) = all_commands P s"
  "all_commands P (s\<lparr>drainRequested := b\<rparr>) = all_commands P s"
  "all_commands P (s\<lparr>notified := n\<rparr>) = all_commands P s"
  "all_commands P (s\<lparr>world := w\<rparr>) = all_commands P s"
  by (simp_all add: all_commands_def)

lemma all_commands_set_queue:
  "all_commands P s \<Longrightarrow> list_all P q \<Longrightarrow> all_commands P (set_queue acc q s)"
  by (simp add: all_commands_def)

lemma all_commands_adopt:
  assumes "all_commands P s" and "list_all P q"
  shows "all_commands P (rememberPersistedCommands acc q (adoptReconciledQueue acc q s))"
proof -
  have "queue_of (rememberPersistedCommands acc q (adoptReconciledQueue acc q s)) a =
          (if a = acc then q else queue_of s a)"
    and "stored_queue (rememberPersistedCommands acc q (adoptReconciledQueue acc q s)) a =
          stored_queue s a" for a
    by (simp_all add: rememberPersistedCommands_def adoptReconciledQueue_def queue_of_def
        stored_queue_def set_queue_def)
  with assms show ?thesis by (simp add: all_commands_def)
qed

lemma all_commands_put_account:
  assumes "all_commands P s" and "list_all P q"
  shows "all_commands P (s\<lparr>document := put_account acc q (document s)\<rparr>)"
  using assms put_account_get [of acc q "document s"]
  by (simp add: all_commands_def stored_queue_def)

lemma merge_queue_members:
  assumes "c \<in> set (fst (merge_queue known seen q st))" and "distinct_ops q" and "distinct_ops st"
  shows "c \<in> set q \<or> c \<in> set st"
proof -
  have "lookup_op (fst (merge_queue known seen q st)) (opId c) = Some c"
    using lookup_op_Some_iff [OF merge_queue_ok(1), of known seen q st "opId c" c] assms(1) by simp
  then have "lookup_op q (opId c) = Some c \<or> lookup_op st (opId c) = Some c"
    by (auto simp: merge_queue_lookup [OF assms(2,3)] merge_spec_def split: option.splits if_splits)
  then show ?thesis using lookup_op_Some_iff assms(2,3) by blast
qed

lemma law_merge:
  assumes "law_state P s"
  shows "list_all P (fst (merge_queue known seen (queue_of s a) (stored_queue s b)))"
  using assms merge_queue_members [of _ known seen "queue_of s a" "stored_queue s b"]
  by (auto simp: law_state_def list_all_iff engine_ok_queue engine_ok_stored
      dest: all_commands_queue all_commands_stored)

locale command_law =
  fixes P :: "command \<Rightarrow> bool" and env :: "'w env"
  assumes edit [simp]:
      "P (c\<lparr>status := st\<rparr>) = P c" "P (c\<lparr>lastError := le\<rparr>) = P c"
      "P (c\<lparr>nextAttemptAt := t\<rparr>) = P c" "P (c\<lparr>attemptId := ai\<rparr>) = P c"
      "P (c\<lparr>conflictCopyId := cc\<rparr>) = P c" "P (c\<lparr>entityId := ei\<rparr>) = P c"
      "P (c\<lparr>accountId := acc\<rparr>) = P c" "P (c\<lparr>projectionClaimId := pc\<rparr>) = P c"
      "P (c\<lparr>projectionClaimExpiresAt := pe\<rparr>) = P c" "P (c\<lparr>retryCount := rc\<rparr>) = P c"
    and normalize: "P c \<Longrightarrow> P (normalizeMutation c)"
    and rebase_chained: "P c \<Longrightarrow> P (rebaseChainedCommand sfx c v)"
    and rebase_onto: "P c \<Longrightarrow> P (fst (rebaseOnto sfx c ver))"
    and copies: "reconciler env = Some port \<Longrightarrow> rcPreserveConflict port = Some f \<Longrightarrow>
      fst (f c w) = Inr (Some d) \<Longrightarrow> P d"
begin

abbreviation "I \<equiv> law_state P :: 'w engine \<Rightarrow> bool"

lemma keepsLaw:
  assumes "keeps engine_ok m"
    and "\<And>s. I s \<Longrightarrow> all_commands P (snd (m s))"
  shows "keeps I m"
  using assms by (auto simp: keeps_def law_state_def)

lemma put_law:
  assumes "\<And>s. engine_ok s \<Longrightarrow> engine_ok (g s)" and "\<And>s. I s \<Longrightarrow> all_commands P (g s)"
  shows "keeps I (put_state g)"
  using assms by (auto simp: law_state_def intro: keeps_put_state)

lemma law_in_world [keeps_intros]: "keeps I (in_world f)"
  by (auto simp: keeps_def in_world_def Let_def law_state_def split: prod.splits)

lemma law_suffix [keeps_intros]: "keeps I (suffix env)"
  by (simp add: suffix_def law_in_world)

lemma law_clock [keeps_intros]: "keeps I (clock env)"
  by (simp add: clock_def keeps_get_state)

lemma law_emit [keeps_intros]: "keeps I emit"
  unfolding emit_def by (rule keeps_put_state) (simp add: law_state_def)

lemma law_replace: "list_all P q \<Longrightarrow> P m \<Longrightarrow> list_all P (replace_in m q)"
  by (auto simp: replace_in_def list_all_iff)

lemma law_update_command: "P m \<Longrightarrow> keeps I (update_command acc m)"
  by (rule keepsLaw [OF keeps_update_command])
     (auto simp: update_command_def put_state_def law_state_def all_commands_def
       intro: law_replace)

lemma law_discardAll [keeps_intros]: "keeps I (discardAll env cs)"
  unfolding discardAll_def by (intro keeps_intros)

lemma law_writeBegin [keeps_intros]: "keeps I (writeBegin env acc)"
proof (rule keepsLaw [OF keeps_writeBegin])
  fix s :: "'w engine" assume s: "I s"
  then show "all_commands P (snd (writeBegin env acc s))"
    by (cases "storageOutcome env (world s)"; cases "fst (storageOutcome env (world s))")
       (auto simp: writeBegin_def act_defs in_world_def Let_def case_prod_beta law_state_def
         intro!: all_commands_put_account [of P "s\<lparr>world := w\<rparr>" _ acc for w, simplified]
           law_merge [OF s, unfolded law_state_def])
qed

lemma law_writeQueue [keeps_intros]: "keeps I (writeQueue env acc)"
proof -
  have "keeps I (writeFinish env acc q e r)" if "list_all P r" "distinct_ops r" for q e r
    unfolding writeFinish_def Let_def
    by (intro keeps_intros put_law)
       (auto simp: law_state_def engine_ok_adopt that intro!: all_commands_adopt that)
  then show ?thesis
    unfolding writeQueue_def case_prod_beta
    by (intro keeps_intros)
       (auto simp: law_state_def all_commands_def engine_ok_stored)
qed

lemma law_schedulePersistence [keeps_intros]: "keeps I (schedulePersistence env acc)"
  by (simp add: schedulePersistence_def law_writeQueue)

lemma law_rebase_first:
  assumes "list_all P cs"
  shows "list_all P (fst (rebase_first sfx e v cs))"
proof (cases "find_index (\<lambda>_ c. entityId c = e \<and> isActiveMutation c) cs")
  case (Some i)
  then have "i < length cs" by (rule find_index_Some)
  then have "P (cs ! i)" using assms by (simp add: list_all_length)
  then have "list_all P (cs[i := rebaseChainedCommand sfx (cs ! i) v])"
    using assms rebase_chained by (auto simp: list_all_iff dest: set_update_subset_insert [THEN subsetD])
  with Some show ?thesis by (simp add: rebase_first_def Let_def)
qed (simp add: rebase_first_def assms)

lemma law_acknowledge_in:
  "list_all P st \<Longrightarrow> list_all P (fst (acknowledge_in sfx m v st))"
  by (auto simp: acknowledge_in_def Let_def intro!: law_rebase_first split: option.splits)
     (auto simp: list_all_iff)

lemma law_persistAcknowledgement [keeps_intros]: "keeps I (persistAcknowledgement env acc m v)"
  unfolding persistAcknowledgement_def Let_def case_prod_beta
proof (intro keeps_intros put_law)
  fix t s :: "'w engine" and sfx
  assume "I t"
  then have "list_all P (fst (acknowledge_in sfx m v (stored_queue t acc)))"
    by (intro law_acknowledge_in) (simp add: law_state_def all_commands_def)
  then show "all_commands P (rememberPersistedCommands acc
       (fst (acknowledge_in sfx m v (stored_queue t acc)))
       (adoptReconciledQueue acc (fst (acknowledge_in sfx m v (stored_queue t acc)))
         (s\<lparr>document := put_account acc (fst (acknowledge_in sfx m v (stored_queue t acc)))
                         (document s)\<rparr>)))" if "I s"
    using that by (intro all_commands_adopt all_commands_put_account) (simp_all add: law_state_def)
  show "engine_ok (rememberPersistedCommands acc
       (fst (acknowledge_in sfx m v (stored_queue t acc)))
       (adoptReconciledQueue acc (fst (acknowledge_in sfx m v (stored_queue t acc)))
         (s\<lparr>document := put_account acc (fst (acknowledge_in sfx m v (stored_queue t acc)))
                         (document s)\<rparr>)))" if "engine_ok s"
    using that \<open>I t\<close> by (intro engine_ok_acknowledge) (auto simp: law_state_def)
qed

lemma law_apply_command [keeps_intros]: "keeps I (apply_command env c)"
  unfolding apply_command_def by (intro keeps_intros)

lemma law_find: "I s \<Longrightarrow> find_command s acc oid = Some c \<Longrightarrow> P c"
  by (metis all_commands_queue find_Some_iff find_command_def law_state_def nth_mem)

lemma law_failCommand [keeps_intros]: "keeps I (failCommand env acc oid e)"
  unfolding failCommand_def
  by (intro keeps_with_state keeps_and_then keeps_case_option_at keeps_ok law_update_command
        law_schedulePersistence law_emit keeps_throw)
     (auto dest: law_find)

lemma law_project_durable [keeps_intros]: "keeps I (project_durable env f c)"
  unfolding project_durable_def by (intro keeps_intros)

lemma law_finish_enqueue [keeps_intros]: "keeps I (finish_enqueue env f acc oid)"
  unfolding finish_enqueue_def
  by (intro keeps_with_state keeps_and_then keeps_case_option_at keeps_ok keeps_if keeps_catch
        law_update_command law_schedulePersistence law_emit law_project_durable law_failCommand)
     (auto dest: law_find)

lemma law_normalize_enqueued: "P c \<Longrightarrow> P (enqueue_form env f c)"
  by (simp add: enqueue_form_def normalize_enqueued_def Let_def normalize)

lemma law_push: "I s \<Longrightarrow> P c \<Longrightarrow> all_commands P (push_command c s)"
  unfolding push_command_def
  by (rule all_commands_set_queue)
     (auto simp: law_state_def list_all_iff dest: all_commands_queue)

lemma law_push_then:
  assumes "\<not> already_queued s (accountId c) (opId c)" and "P c" and "keeps I m"
  shows "I s \<Longrightarrow> I (snd (and_then (put_state (push_command c)) (\<lambda>_. m) s))"
  using assms engine_ok_push [OF _ assms(1)] law_push
  by (simp add: and_then_def put_state_def keeps_def law_state_def)

lemma law_enqueue: "P c \<Longrightarrow> keeps I (enqueue env c f)"
  unfolding enqueue_def Let_def
proof (rule keeps_with_state_at)
  fix t :: "'w engine" assume t: "I t" and c: "P c"
  let ?n = "enqueue_form env f c"
  have "keeps I (and_then (schedulePersistence env (accountId c))
          (\<lambda>_. finish_enqueue env f (accountId c) (opId ?n)))"
    by (intro keeps_intros)
  then show "I (snd ((if already_queued t (accountId c) (opId ?n) then ok ()
      else and_then (put_state (push_command ?n)) (\<lambda>_.
             and_then (schedulePersistence env (accountId c)) (\<lambda>_.
             finish_enqueue env f (accountId c) (opId ?n)))) t))"
    using law_push_then [of t ?n] t law_normalize_enqueued [OF c] by (auto simp: ok_def)
qed

lemma law_stage: "P c \<Longrightarrow> keeps I (stage env c claim)"
  unfolding stage_def Let_def
proof (rule keeps_with_state_at)
  fix t :: "'w engine" assume t: "I t" and c: "P c"
  let ?n = "normalizeMutation (c\<lparr>status := Some Staged, projectionClaimId := map_option fst claim,
              projectionClaimExpiresAt := map_option snd claim\<rparr>)"
  have "keeps I (and_then (schedulePersistence env (accountId c)) (\<lambda>_. and_then emit (\<lambda>_. ok True)))"
    by (intro keeps_intros)
  moreover have "P ?n" using c by (intro normalize) simp
  ultimately show "I (snd ((if already_queued t (accountId c) (opId ?n) then ok False
      else and_then (put_state (push_command ?n)) (\<lambda>_.
             and_then (schedulePersistence env (accountId c)) (\<lambda>_.
             and_then emit (\<lambda>_. ok True)))) t))"
    using law_push_then [of t ?n] t by (auto simp: ok_def)
qed

lemma law_queue: "I s \<Longrightarrow> list_all P (queue_of s acc)"
  by (simp add: law_state_def all_commands_def)

lemma put_queue_law:
  assumes "distinct_ops q" and "list_all P q"
  shows "keeps I (put_state (set_queue acc q))"
  using assms by (intro put_law engine_ok_set_queue all_commands_set_queue) (auto simp: law_state_def)

lemma law_claim_account [keeps_intros]: "keeps I (claim_account env x e acc)"
  unfolding claim_account_def Let_def case_prod_beta
proof (intro keeps_with_state keeps_if keeps_ok keeps_and_then put_queue_law law_schedulePersistence)
  fix t :: "'w engine" assume t: "I t"
  show "distinct_ops (fst (claim_queue x e (now env (world t)) (queue_of t acc)))"
    using t by (simp add: claim_queue_distinct engine_ok_queue law_state_def)
  show "list_all P (fst (claim_queue x e (now env (world t)) (queue_of t acc)))"
    using law_queue [OF t, of acc] by (auto simp: claim_queue_def claim_command_def list_all_iff)
qed

lemma law_claimStaged: "keeps I (claimStaged env x l)"
  unfolding claimStaged_def Let_def by (intro keeps_intros)

lemma law_activate: "keeps I (activate env acc oid x)"
  unfolding activate_def
  by (intro keeps_with_state keeps_case_option_at keeps_if keeps_ok keeps_catch keeps_and_then
        law_update_command law_schedulePersistence law_emit law_project_durable law_failCommand)
     (auto dest: law_find)

lemma law_splice: "list_all P q \<Longrightarrow> list_all P (splice_at i q)"
  by (auto simp: list_all_iff dest: set_splice_at_subset [THEN subsetD])

lemma law_get: "I s \<Longrightarrow> js_get (queuesByAccountId s) acc = Some q \<Longrightarrow> distinct_ops q \<and> list_all P q"
  using law_queue [of s acc] by (auto simp: law_state_def queue_of_def dest: engine_ok_get)

lemma law_cancel: "keeps I (cancel env acc oid x)"
  unfolding cancel_def
  by (intro keeps_with_state keeps_case_option_at keeps_if keeps_ok keeps_and_then put_queue_law
        law_schedulePersistence law_emit)
     (auto intro: distinct_ops_splice law_splice dest: law_get)

lemma law_copies:
  "returns (\<lambda>r. \<forall>d. r = Some d \<longrightarrow> P d)
     (case reconciler env of None \<Rightarrow> ok None
      | Some rc \<Rightarrow> (case rcPreserveConflict rc of None \<Rightarrow> ok None | Some f \<Rightarrow> in_world (f m)))"
  using copies by (auto simp: returns_def ok_def in_world_def Let_def split: option.splits prod.splits)
    (metis fst_conv)

lemma law_preserveConflict [keeps_intros]: "keeps I (preserveConflict env m)"
  unfolding preserveConflict_def
  by (rule keeps_catch, rule keeps_and_then_returns [OF _ law_copies],
      intro keeps_intros,
      (intro keeps_case_option_at keeps_ok law_enqueue, simp),
      (intro keeps_with_state keeps_and_then keeps_case_option_at keeps_ok law_update_command
        law_schedulePersistence law_emit))
     (auto dest: law_find)

lemma law_load_account: "I s \<Longrightarrow> distinct_ops (snd e) \<Longrightarrow> list_all P (snd e) \<Longrightarrow> I (load_account e s)"
proof -
  assume s: "I s" and d: "distinct_ops (snd e)" and p: "list_all P (snd e)"
  obtain acc q where e: "e = (acc, q)" by (cases e)
  have "all_commands P (set_queue acc
      (sort_by_timestamp (map (\<lambda>c. normalizeMutation (c\<lparr>accountId := acc\<rparr>)) q)) s)"
    using s p e by (intro all_commands_set_queue) (auto simp: law_state_def list_all_iff normalize)
  then have "all_commands P (load_account e s)"
    using s by (simp add: load_account_def e law_state_def rememberPersistedCommands_def
        all_commands_def queue_of_def stored_queue_def set_queue_def)
  with engine_ok_load_account [of s e] d s show ?thesis by (simp add: law_state_def)
qed

lemma law_load:
  assumes "I s" and "\<And>e. e \<in> set es \<Longrightarrow> distinct_ops (snd e) \<and> list_all P (snd e)"
  shows "I (fold load_account es s)"
  using assms by (induction es arbitrary: s) (auto intro: law_load_account)

lemma law_entries:
  assumes "I s" and "e \<in> set (coalesce (document s) [])"
  shows "distinct_ops (snd e) \<and> list_all P (snd e)"
proof -
  have d: "document_ok (document s)" using assms(1) by (simp add: law_state_def engine_ok_def)
  have "stored_queue s (fst e) = snd e"
    using d assms(2)
    by (cases e; cases "document s") (auto simp: stored_queue_def document_ok_def js_get_Some_iff)
  then have "list_all P (snd e)"
    using assms(1) by (metis law_state_def all_commands_def)
  with document_ok_entries [OF d assms(2)] show ?thesis by simp
qed

lemma law_replay: "P c \<Longrightarrow> returns (\<lambda>r. P (fst r)) (replay_command env c)"
  unfolding replay_command_def
  by (intro returns_if returns_and_then returns_ok)
     (auto simp: replay_result_def split: option.splits)

lemma law_replay_command [keeps_intros]: "keeps I (replay_command env c)"
  unfolding replay_command_def by (intro keeps_intros)

lemma law_replayed:
  "list_all2 (\<lambda>c r. opId (fst r) = opId c \<and> (P c \<longrightarrow> P (fst r))) q rs \<Longrightarrow> list_all P q \<Longrightarrow>
     list_all P (map fst rs)"
  by (induction rule: list_all2_induct) auto

lemma law_replay_one:
  "returns (\<lambda>r. opId (fst r) = opId c \<and> (P c \<longrightarrow> P (fst r))) (replay_command env c)"
  using law_replay [of c] returns_replay_command [of c env] by (auto simp: returns_def)

lemma law_replay_account [keeps_intros]: "keeps I (replay_account env acc)"
  unfolding replay_account_def
proof (rule keeps_with_state,
       rule keeps_and_then_returns [OF keeps_map_each [OF law_replay_command]
         returns_map_each [OF law_replay_one]],
       intro keeps_intros put_queue_law)
  fix t :: "'w engine" and rs
  assume t: "I t"
    and r: "list_all2 (\<lambda>c r. opId (fst r) = opId c \<and> (P c \<longrightarrow> P (fst r))) (queue_of t acc) rs"
  then have "list_all2 (\<lambda>c r. opId (fst r) = opId c) (queue_of t acc) rs"
    by (auto elim: list_all2_mono)
  then show "distinct_ops (map fst rs)"
    using t by (intro replayed_distinct) (auto simp: law_state_def engine_ok_queue)
  show "list_all P (map fst rs)" using law_replayed [OF r] law_queue [OF t] by simp
qed

lemma all_commands_weaken:
  "(\<And>acc. list_all P (queue_of t acc)) \<Longrightarrow> (\<And>acc. list_all P (stored_queue t acc)) \<Longrightarrow> all_commands P t"
  by (simp add: all_commands_def)

lemma law_stored: "I s \<Longrightarrow> list_all P (stored_queue s acc)"
  by (simp add: law_state_def all_commands_def)

lemma law_reset:
  "keeps I (put_state (\<lambda>s. s\<lparr>queuesByAccountId := [], persistedOperationIds := [],
     persistedCommandSignatures := []\<rparr>))"
  by (intro put_law engine_ok_reset all_commands_weaken)
     (auto dest: law_stored simp: queue_of_def stored_queue_def)

lemma law_restore: "keeps I (restore env)"
  unfolding restore_def
  by (intro keeps_intros law_reset keeps_put_state law_load law_entries)

lemma law_clear: "keeps I (clear env acc)"
  unfolding clear_def
  by (intro keeps_intros law_reset put_law engine_ok_drop engine_ok_forget all_commands_weaken)
     (auto dest: law_queue law_stored simp: stored_queue_def queue_of_def)

lemma law_rename [simp]: "P (rename_entity a b c) = P c"
  by (simp add: rename_entity_def)

lemma law_rewritePendingIds [keeps_intros]: "keeps I (rewritePendingIds env a b)"
proof -
  have g: "js_get (map (\<lambda>(acc, q). (acc, map (rename_entity a b) q)) m) acc =
             map_option (map (rename_entity a b)) (js_get m acc)" for acc m
    by (induction m) auto
  have "all_commands P (s\<lparr>queuesByAccountId :=
          map (\<lambda>(acc, q). (acc, map (rename_entity a b) q)) (queuesByAccountId s)\<rparr>)"
    if "I s" for s :: "'w engine"
  proof (rule all_commands_weaken)
    fix acc
    show "list_all P (queue_of (s\<lparr>queuesByAccountId :=
          map (\<lambda>(acc, q). (acc, map (rename_entity a b) q)) (queuesByAccountId s)\<rparr>) acc)"
      using law_queue [OF that, of acc]
      by (cases "js_get (queuesByAccountId s) acc") (auto simp: queue_of_def g list.pred_map comp_def)
    show "list_all P (stored_queue (s\<lparr>queuesByAccountId :=
          map (\<lambda>(acc, q). (acc, map (rename_entity a b) q)) (queuesByAccountId s)\<rparr>) acc)"
      using law_stored [OF that, of acc] by (simp add: stored_queue_def)
  qed
  then show ?thesis
    unfolding rewritePendingIds_def Let_def
    by (intro keeps_intros keeps_all_each put_law engine_ok_rename)
qed

lemma law_processMutation [keeps_intros]: "keeps I (processMutation env acc m)"
  unfolding processMutation_def Let_def
  by (intro keeps_intros keeps_put_state) (simp add: law_state_def)

lemma law_send_command [keeps_intros]: "keeps I (send_command env acc m)"
  unfolding send_command_def executeSemantic_def by (intro keeps_intros)

lemma law_attempt_command [keeps_intros]: "keeps I (attempt_command env acc i m)"
  unfolding attempt_command_def acknowledgeReconciler_def
  by (intro keeps_intros put_law)
     (auto simp: engine_ok_splice law_state_def all_commands_def intro: law_splice)

lemma law_after_conflict: "P m \<Longrightarrow> keeps I (after_conflict env acc m)"
  unfolding after_conflict_def by (intro keeps_intros law_update_command)

lemma law_scheduleRetry [simp]: "P (scheduleRetry t m e) = P m"
  by (simp add: scheduleRetry_def)

lemma law_markRetrying [simp]: "P (markRetrying t sfx m e) = P m"
  by (simp add: markRetrying_def Let_def bumpRetry_def)

lemma law_retry_later: "P m \<Longrightarrow> keeps I (retry_later env acc m e)"
  unfolding retry_later_def by (intro keeps_intros law_update_command) simp

lemma law_rebaseMetadataMutation [keeps_intros]: "keeps I (rebaseMetadataMutation env acc m)"
  unfolding rebaseMetadataMutation_def reconcileAuthoritative_def by (intro keeps_intros)

lemma law_rebased: "P m \<Longrightarrow> returns (\<lambda>r. P (fst r)) (rebaseMetadataMutation env acc m)"
  using rebase_onto [of m]
  by (auto simp: returns_def rebaseMetadataMutation_def act_defs clock_def bumpRetry_def
      split: prod.splits sum.splits) (metis fst_conv)

lemma law_handle_failure: "P m \<Longrightarrow> keeps I (handle_failure env acc att m e)"
  unfolding handle_failure_def Let_def
proof (rule keeps_with_state)
  fix t :: "'w engine" assume t: "I t" and m: "P m"
  let ?m = "coalesce (find_command t acc (opId m)) m"
  have p: "P ?m" using law_find [OF t] m by (cases "find_command t acc (opId m)") auto
  then have r: "P (reject_command copyId ?m e)" for copyId
    by (simp add: reject_command_def markEncryptedConflict_def)
  show "keeps I (if isApiErrorStatus e 409 \<or> isApiErrorStatus e 412
     then and_then (rebaseMetadataMutation env acc ?m) (\<lambda>(m', _).
          and_then (after_conflict env acc m') (\<lambda>_. ok att))
     else if isApiErrorStatus e 400 \<or> isApiErrorStatus e 404
     then and_then (suffix env) (\<lambda>copyId.
          and_then (after_conflict env acc (reject_command copyId ?m e)) (\<lambda>_. ok att))
     else and_then (retry_later env acc ?m e) (\<lambda>_. ok (opId ?m # att)))"
    unfolding case_prod_beta
    by (intro keeps_if keeps_and_then_returns [OF law_rebaseMetadataMutation law_rebased [OF p]]
          keeps_and_then keeps_ok law_after_conflict law_suffix law_retry_later r p)
qed

lemma law_runnable:
  assumes "I s" and "findRunnable t att (queue_of s acc) = Some i"
  shows "P (queue_of s acc ! i)"
  using law_queue [OF assms(1), of acc] find_index_Some(1) assms(2)
  unfolding findRunnable_def by (auto simp: list_all_length)

lemma law_drain_account [keeps_intros]: "keeps I (drain_account fuel env acc att)"
proof (induction fuel arbitrary: att)
  case (Suc fuel)
  show ?case
    unfolding drain_account.simps Let_def
    by (intro keeps_with_state keeps_case_option_at keeps_ok keeps_and_then keeps_catch Suc
          law_attempt_command law_handle_failure law_runnable)
qed (simp add: keeps_ok)

lemma law_drain_entry [keeps_intros]: "keeps I (drain_entry fuel env acc)"
  unfolding drain_entry_def
  by (intro keeps_with_state keeps_case_option_at keeps_ok keeps_and_then keeps_catch
        law_in_world law_retry_later law_drain_account law_runnable keeps_case_option)

lemma law_drain_passes [keeps_intros]: "keeps I (drain_passes fuel env)"
proof (induction fuel)
  case (Suc fuel)
  show ?case
    unfolding drain_passes.simps drain_once_def
    by (intro keeps_intros keeps_put_state Suc) (simp add: law_state_def)
qed (simp add: keeps_ok)

lemma law_drain: "keeps I (drain fuel env)"
  unfolding drain_def
  by (intro keeps_intros keeps_put_state keeps_try_finally) (simp_all add: law_state_def)

lemma law_begin_enqueue: "I s \<Longrightarrow> P c \<Longrightarrow> I (begin_enqueue env c s)"
  using law_push [of s "enqueue_form env None c"] law_normalize_enqueued [of c None]
    engine_ok_push [of s "enqueue_form env None c"]
  by (auto simp: begin_enqueue_def Let_def law_state_def)

lemma law_written:
  assumes "I s" and "list_all (\<lambda>(_, q). list_all P q) (coalesce doc [])" and "document_ok doc"
  shows "I (s\<lparr>document := doc\<rparr>)"
proof -
  have "list_all P (coalesce (js_get (coalesce doc []) acc) [])" for acc
    using assms(2) by (cases "js_get (coalesce doc []) acc") (auto simp: list_all_iff dest: map_of_SomeD)
  with assms show ?thesis
    by (auto simp: law_state_def engine_ok_def all_commands_def queue_of_def stored_queue_def)
qed

fun call_respects :: "'w engine_call \<Rightarrow> bool" where
  "call_respects (CallEnqueue c f) = P c"
| "call_respects (CallEnqueueBegin c) = P c"
| "call_respects (CallStage c claim) = P c"
| "call_respects (WrittenElsewhere doc) = list_all (\<lambda>(_, q). list_all P q) (coalesce doc [])"
| "call_respects _ = True"

lemma law_call: "I s \<Longrightarrow> call_respects call \<Longrightarrow> I (run_call env s call)"
proof (cases call)
  case (CallEnqueue c f)
  then show "I s \<Longrightarrow> call_respects call \<Longrightarrow> ?thesis" by (auto intro: keepsD law_enqueue)
next
  case (CallStage c claim)
  then show "I s \<Longrightarrow> call_respects call \<Longrightarrow> ?thesis" by (auto intro: keepsD law_stage)
next
  case (CallEnqueueBegin c)
  then show "I s \<Longrightarrow> call_respects call \<Longrightarrow> ?thesis" by (auto intro: law_begin_enqueue)
next
  case (WrittenElsewhere doc)
  then show "I s \<Longrightarrow> call_respects call \<Longrightarrow> ?thesis" by (auto intro: law_written)
next
  case CallConsumeMappings
  then show "I s \<Longrightarrow> call_respects call \<Longrightarrow> ?thesis"
    by (auto simp: consumeTempIdMappings_def law_state_def)
qed (auto intro: keepsD law_claimStaged law_activate law_cancel law_restore law_clear law_drain
       law_rewritePendingIds law_writeQueue)

lemma law_history:
  "I s \<Longrightarrow> list_all call_respects calls \<Longrightarrow> I (foldl (run_call env) s calls)"
  by (induction calls arbitrary: s) (auto intro: law_call)

end

section \<open>The binding of a sealed command\<close>

text \<open>
  orig gives the command as it was first queued under each operation id. A platform is restricted
  to copies that satisfy a law by answering no copy instead of an offending one; a platform all of
  whose copies satisfy the law is unchanged by the restriction.
\<close>

definition kept_as :: "(string \<Rightarrow> command) \<Rightarrow> command \<Rightarrow> bool" where
  "kept_as orig c =
     (let d = orig (opId c)
      in commandType c = commandType d \<and> encryptedPayload c = encryptedPayload d \<and>
         vaultId c = vaultId d \<and> targetVaultId c = targetVaultId d \<and>
         targetAccountId c = targetAccountId d \<and> targetItemId c = targetItemId d \<and>
         category c = category d \<and> favorite c = favorite d \<and>
         (carriesSealedCiphertext c \<longrightarrow> baseVersion c = baseVersion d))"

definition law_copies_of ::
  "(command \<Rightarrow> bool) \<Rightarrow> (command \<Rightarrow> 'w \<Rightarrow> (js_error + command option) \<times> 'w) \<Rightarrow>
   command \<Rightarrow> 'w \<Rightarrow> (js_error + command option) \<times> 'w" where
  "law_copies_of P f = (\<lambda>c w. case f c w of
       (Inr (Some d), w') \<Rightarrow> (Inr (if P d then Some d else None), w') | r \<Rightarrow> r)"

definition only_copies :: "(command \<Rightarrow> bool) \<Rightarrow> 'w env \<Rightarrow> 'w env" where
  "only_copies P env = env\<lparr>reconciler := map_option
     (\<lambda>port. port\<lparr>rcPreserveConflict := map_option (law_copies_of P) (rcPreserveConflict port)\<rparr>)
     (reconciler env)\<rparr>"

definition copies_in :: "(command \<Rightarrow> bool) \<Rightarrow> 'w env \<Rightarrow> bool" where
  "copies_in P env = (case reconciler env of None \<Rightarrow> True
     | Some port \<Rightarrow> (case rcPreserveConflict port of None \<Rightarrow> True
       | Some f \<Rightarrow> (\<forall>c w d. fst (f c w) = Inr (Some d) \<longrightarrow> P d)))"

lemma law_copies_of_id:
  assumes "\<And>c w d. fst (f c w) = Inr (Some d) \<Longrightarrow> P d"
  shows "law_copies_of P f = f"
proof (intro ext)
  fix c w
  show "law_copies_of P f c w = f c w"
    using assms [of c w]
    by (cases "f c w") (auto simp: law_copies_of_def split: sum.splits option.splits)
qed

lemma only_copies_id: "copies_in P env \<Longrightarrow> only_copies P env = env"
proof (cases "reconciler env")
  case None
  then show ?thesis by (simp add: only_copies_def)
next
  case (Some port)
  assume c: "copies_in P env"
  have "map_option (law_copies_of P) (rcPreserveConflict port) = rcPreserveConflict port"
    using c Some
    by (cases "rcPreserveConflict port") (auto simp: copies_in_def intro!: law_copies_of_id)
  then have "port\<lparr>rcPreserveConflict := map_option (law_copies_of P) (rcPreserveConflict port)\<rparr> = port"
    by simp
  with Some show ?thesis by (simp add: only_copies_def)
qed

lemma opId_only_fields [simp]:
  "opId (m\<lparr>encryptedPayload := p\<rparr>) = opId m"
  by (simp add: opId_def)

lemma kept_normalize: "kept_as orig (normalizeMutation c) = kept_as orig c"
proof -
  have "opId (normalizeMutation c) = opId c" by simp
  then show ?thesis
    unfolding kept_as_def Let_def
    by (simp add: normalizeMutation_def carriesSealedCiphertext_def)
qed

interpretation sealed: command_law "kept_as orig" "only_copies (kept_as orig) env"
  for orig :: "string \<Rightarrow> command" and env :: "'w env"
proof unfold_locales
  fix c sfx v
  assume c: "kept_as orig c"
  show "kept_as orig (rebaseChainedCommand sfx c v)"
    using c
    by (auto simp: rebaseChainedCommand_def markEncryptedConflict_def kept_as_def Let_def
        carriesSealedCiphertext_def opId_def)
next
  fix c sfx ver
  assume c: "kept_as orig c"
  show "kept_as orig (fst (rebaseOnto sfx c ver))"
    using c
    by (auto simp: rebaseOnto_def markEncryptedConflict_def bumpRetry_def kept_as_def Let_def
        carriesSealedCiphertext_def opId_def split: option.splits)
next
  fix port f c w d
  assume "reconciler (only_copies (kept_as orig) env) = Some port" "rcPreserveConflict port = Some f"
    and "fst (f c w) = Inr (Some d)"
  then show "kept_as orig d"
    by (auto simp: only_copies_def law_copies_of_def split: prod.splits sum.splits option.splits if_splits)
qed (simp_all add: kept_normalize, simp_all add: kept_as_def Let_def carriesSealedCiphertext_def)

definition lawful_call :: "(string \<Rightarrow> command) \<Rightarrow> 'w engine_call \<Rightarrow> bool" where
  "lawful_call orig call = (case call of
       CallEnqueue c f \<Rightarrow> kept_as orig c
     | CallEnqueueBegin c \<Rightarrow> kept_as orig c
     | CallStage c claim \<Rightarrow> kept_as orig c
     | WrittenElsewhere doc \<Rightarrow> list_all (\<lambda>(_, q). list_all (kept_as orig) q) (coalesce doc [])
     | _ \<Rightarrow> True)"

lemma lawful_call_eq: "lawful_call orig call = command_law.call_respects (kept_as orig) call"
  by (cases call) (simp_all add: lawful_call_def sealed.call_respects.simps)


lemma history_kept:
  assumes "document_ok doc" and "list_all (\<lambda>(_, q). list_all (kept_as orig) q) (coalesce doc [])"
    and "copies_in (kept_as orig) env" and "list_all (lawful_call orig) calls"
  shows "all_commands (kept_as orig) (foldl (run_call env) (new_engine w doc) calls)"
proof -
  have "engine_ok (new_engine w None)"
    by (rule engine_ok_new) (simp add: document_ok_def)
  then have "law_state (kept_as orig) (new_engine w None)"
    by (simp add: law_state_def all_commands_def queue_of_def stored_queue_def new_engine_def)
  then have "law_state (kept_as orig) ((new_engine w None)\<lparr>document := doc\<rparr>)"
    by (rule sealed.law_written [OF _ assms(2,1)])
  then have "law_state (kept_as orig) (new_engine w doc)"
    by (simp add: new_engine_def)
  then have "law_state (kept_as orig)
      (foldl (run_call (only_copies (kept_as orig) env)) (new_engine w doc) calls)"
    by (rule sealed.law_history) (use assms(4) in \<open>simp add: lawful_call_eq [symmetric] fun_eq_iff [symmetric] list_all_iff\<close>)
  then show ?thesis by (simp add: only_copies_id [OF assms(3)] law_state_def)
qed

section \<open>Properties\<close>

text \<open>
  C1. Whatever the clients, the server, the clock, storage and other processes do, a command
  that is queued or stored has the type and the encrypted payload of the command it was enqueued
  as, and when it carries ciphertext sealed against a revision it still has that base revision:
  no retry, rebase, conflict, acknowledgement, claim, restore or merge ever moves the binding
  that makes the ciphertext readable.
\<close>

theorem sealed_binding_never_moves:
  assumes "document_ok doc" and "list_all (\<lambda>(_, q). list_all (kept_as orig) q) (coalesce doc [])"
    and "copies_in (kept_as orig) env" and "list_all (lawful_call orig) calls"
    and "c \<in> set (queue_of (foldl (run_call env) (new_engine w doc) calls) acc) \<or>
         c \<in> set (stored_queue (foldl (run_call env) (new_engine w doc) calls) acc)"
  shows "commandType c = commandType (orig (opId c)) \<and>
         encryptedPayload c = encryptedPayload (orig (opId c)) \<and>
         (carriesSealedCiphertext c \<longrightarrow> baseVersion c = baseVersion (orig (opId c)))"
proof -
  have "kept_as orig c"
    using history_kept [OF assms(1-4)] assms(5)
    by (auto dest: all_commands_queue all_commands_stored)
  then show ?thesis by (simp add: kept_as_def Let_def)
qed

definition one_edit :: "nat engine" where
  "one_edit = foldl (run_call sample_env) (new_engine 0 None)
     [CallEnqueue (sample_command ''o1'' Update 7) None]"

lemma one_edit_result:
  "map (\<lambda>c. (opId c, status c, baseVersion c)) (queue_of one_edit ''a'') = [(''o1'', Some Pending, 7)]"
  by code_simp

theorem sealed_binding_never_moves_witness:
  "(let c = hd (queue_of one_edit ''a'')
    in commandType c = Update \<and> baseVersion c = 7)"
proof -
  let ?c = "hd (queue_of one_edit ''a'')"
  let ?orig = "\<lambda>x. sample_command x Update 7"
  have "queue_of one_edit ''a'' \<noteq> []" using one_edit_result by auto
  then have "?c \<in> set (queue_of one_edit ''a'')" by simp
  then have mem: "?c \<in> set (queue_of (foldl (run_call sample_env) (new_engine 0 None)
     [CallEnqueue (sample_command ''o1'' Update 7) None]) ''a'')"
    by (simp only: one_edit_def)
  have copies: "copies_in (kept_as ?orig) sample_env" by (simp add: copies_in_def sample_env_def)
  have lawful: "list_all (lawful_call ?orig)
     [CallEnqueue (sample_command ''o1'' Update 7) (None :: (nat \<Rightarrow> (js_error + unit) \<times> nat) option)]"
    by (simp add: lawful_call_def kept_as_def sample_command_def opId_def Let_def)
  have "commandType ?c = commandType (?orig (opId ?c)) \<and>
      encryptedPayload ?c = encryptedPayload (?orig (opId ?c)) \<and>
      (carriesSealedCiphertext ?c \<longrightarrow> baseVersion ?c = baseVersion (?orig (opId ?c)))"
    by (rule sealed_binding_never_moves [OF _ _ copies lawful, where doc = None])
       (use mem in \<open>auto simp: document_ok_def\<close>)
  then show ?thesis by (simp add: Let_def sample_command_def carriesSealedCiphertext_def)
qed

end
