(* ===== verification/QueueProps.thy ===== *)
theory QueueProps
  imports QueueSealed
begin

text \<open>
  The properties of the queue that are about single operations: what a write and an enqueue do,
  which command is sent next, how claims exclude each other, how a retry is delayed, and how a
  revision travels in an ETag. Two of them state behaviour the code does not mean to have.
\<close>

section \<open>Supporting facts\<close>

lemma is_digit_nth: "n < 10 \<Longrightarrow> is_digit (''0123456789'' ! n)"
proof -
  have "\<forall>n \<in> set [0..<10]. is_digit (''0123456789'' ! n)" by code_simp
  then show "n < 10 \<Longrightarrow> ?thesis" by simp
qed

lemma digit_val_nth: "n < 10 \<Longrightarrow> digit_val (''0123456789'' ! n) = Some n"
proof -
  have "\<forall>n \<in> set [0..<10]. digit_val (''0123456789'' ! n) = Some n" by code_simp
  then show "n < 10 \<Longrightarrow> ?thesis" by simp
qed

lemma nat_text_digits: "nat_text n \<noteq> [] \<and> list_all is_digit (nat_text n)"
proof (induction n rule: nat_text.induct)
  case (1 n)
  then show ?case by (subst (1 2) nat_text.simps) (simp add: is_digit_nth)
qed

lemma decimal_snoc: "decimal (s @ [c]) = 10 * decimal s + coalesce (digit_val c) 0"
  by (simp add: decimal_def)

lemma decimal_nat_text: "decimal (nat_text n) = n"
proof (induction n rule: nat_text.induct)
  case (1 n)
  show ?case
  proof (cases "n < 10")
    case True
    then show ?thesis by (subst nat_text.simps) (simp add: decimal_def digit_val_nth)
  next
    case False
    with 1 have "decimal (nat_text (n div 10)) = n div 10" by simp
    with False show ?thesis
      by (subst nat_text.simps) (simp add: decimal_snoc digit_val_nth)
  qed
qed

lemma etag_digits_quoted:
  "ds \<noteq> [] \<Longrightarrow> list_all is_digit ds \<Longrightarrow> etag_digits (CHR 0x22 # ds @ [CHR 0x22]) = Some ds"
  by (simp add: butlast_append)

lemma reconciler_sample: "reconciler sample_env = None"
  by (simp add: sample_env_def)

lemma remembered_new [simp]: "remembered (new_engine w None) acc"
  by (simp add: remembered_def stored_queue_def new_engine_def lookup_op_def fun_eq_iff)

lemma new_engine_simps [simp]:
  "engine_ok (new_engine w None)" "queue_of (new_engine w doc) acc = []"
  "stored_queue (new_engine w None) acc = []"
  by (simp_all add: engine_ok_new document_ok_def queue_of_def stored_queue_def)
     (simp_all add: new_engine_def)

section \<open>Properties\<close>

text \<open>
  C15. Looked up by operation, the result of the merge is the three-way merge specification: a
  command removed here or by another process is gone, a new one is kept, and where both sides
  hold it another process's change wins over ours exactly when it differs from what this process
  last saw. The commands reported as acknowledged elsewhere are exactly the known ones still
  queued here and gone from the document.
\<close>

theorem merge_is_three_way:
  assumes "distinct_ops q" and "distinct_ops st"
  shows "lookup_op (fst (merge_queue known seen q st)) oid =
           merge_spec known (js_get seen) (lookup_op q) (lookup_op st) oid \<and>
         (\<exists>c \<in> set (snd (merge_queue known seen q st)). opId c = oid) =
           (oid \<in> set known \<and> lookup_op q oid \<noteq> None \<and> lookup_op st oid = None)"
proof
  show "lookup_op (fst (merge_queue known seen q st)) oid =
          merge_spec known (js_get seen) (lookup_op q) (lookup_op st) oid"
    by (simp add: merge_queue_lookup [OF assms])
  show "(\<exists>c \<in> set (snd (merge_queue known seen q st)). opId c = oid) =
          (oid \<in> set known \<and> lookup_op q oid \<noteq> None \<and> lookup_op st oid = None)"
    unfolding merge_queue_elsewhere [OF assms] lookup_op_None_iff by auto
qed

theorem merge_is_three_way_witness:
  "lookup_op (fst (merge_queue [''o1''] [] [sample_command ''o1'' Delete 7, sample_command ''o2'' Delete 7]
      [sample_command ''o3'' Delete 7])) ''o1'' =
     merge_spec [''o1''] (js_get []) (lookup_op [sample_command ''o1'' Delete 7, sample_command ''o2'' Delete 7])
       (lookup_op [sample_command ''o3'' Delete 7]) ''o1''"
  by (rule merge_is_three_way [THEN conjunct1])
     (simp_all add: distinct_ops_def sample_command_def opId_def)

text \<open>
  When this process knows what is stored and storage accepts the write, writing an
  account's queue returns, stores exactly the commands it holds, sorted by time, leaves memory,
  storage and what is remembered in agreement, and changes neither the stored nor the held queue
  of any other account.
\<close>

theorem write_by_single_writer:
  assumes "engine_ok s" and "remembered s acc" and "storageOutcome env (world s) = (Inr (), w')"
  shows "\<exists>s'. writeQueue env acc s = (Inr (), s') \<and>
           mset (stored_queue s' acc) = mset (queue_of s acc) \<and>
           sorted (map timestamp (stored_queue s' acc)) \<and> settled s' acc \<and>
           (\<forall>b. b \<noteq> acc \<longrightarrow> stored_queue s' b = stored_queue s b \<and> queue_of s' b = queue_of s b)"
proof -
  obtain r where "writeQueue env acc s = (Inr (), after_write acc r (s\<lparr>world := w'\<rparr>))"
    and "mset r = mset (queue_of s acc)" and "sorted (map timestamp r)" and "distinct_ops r"
    by (rule writeQueue_single [OF assms])
  then show ?thesis by (auto simp: settled_after_write)
qed

theorem write_by_single_writer_witness:
  "\<exists>s'. writeQueue sample_env ''a''
          (push_command (sample_command ''o1'' Delete 7) (new_engine 0 None)) = (Inr (), s') \<and>
     settled s' ''a''"
proof -
  let ?s = "push_command (sample_command ''o1'' Delete 7) (new_engine 0 None)"
  have e: "engine_ok ?s"
    by (intro engine_ok_push) (simp_all add: already_queued_def)
  have r: "remembered ?s ''a''" by simp
  have w: "storageOutcome sample_env (world ?s) = (Inr (), 1)"
    by (simp add: sample_env_def new_engine_def)
  obtain s' where "writeQueue sample_env ''a'' ?s = (Inr (), s')" and "settled s' ''a''"
    using write_by_single_writer [OF e r w] by (elim exE conjE)
  then show ?thesis by (intro exI conjI)
qed



text \<open>
  C38. The code's behaviour, not its intent: when a command is pushed while a write of its
  account's queue has made its storage update but not yet adopted the result, the adoption
  removes it from the queue, so the enqueue returns without an error and the command is neither
  queued nor stored.
\<close>

theorem enqueue_during_write_is_lost:
  assumes "engine_ok s" and "reliable env"
    and "lookup_op (queue_of s (accountId c)) (opId (enqueue_form env f c)) = None"
    and "lookup_op (stored_queue s (accountId c)) (opId (enqueue_form env f c)) = None"
  shows "\<exists>s'. enqueue_during_write env c f s = (Inr (), s') \<and>
           lookup_op (queue_of s' (accountId c)) (opId (enqueue_form env f c)) = None \<and>
           lookup_op (stored_queue s' (accountId c)) (opId (enqueue_form env f c)) = None"
  by (rule enqueue_during_write_lost [OF assms]) blast

theorem enqueue_during_write_is_lost_witness:
  "\<exists>s'. enqueue_during_write sample_env (sample_command ''o1'' Delete 7) None (new_engine 0 None) =
     (Inr (), s') \<and> lookup_op (stored_queue s' ''a'') ''o1'' = None"
proof -
  have a: "accountId (sample_command ''o1'' Delete 7) = ''a''" by (simp add: sample_command_def)
  have o: "opId (enqueue_form sample_env None (sample_command ''o1'' Delete 7)) = ''o1''"
    by (simp add: enqueue_form_def normalize_enqueued_def Let_def sample_command_def opId_def
        normalizeMutation_def)
  show ?thesis
    using enqueue_during_write_is_lost [of "new_engine (0::nat) None" sample_env
        "sample_command ''o1'' Delete 7" None]
    by (auto simp: a o)
qed



text \<open>
  The code's behaviour, not its intent: when the command before it is acknowledged at
  another revision, a staged command without sealed ciphertext becomes pending, so the holder of
  its claim can no longer activate or cancel it and it is sent without having been projected.
\<close>

theorem acknowledgement_unstages_metadata_edit:
  assumes "status c = Some Staged" and "\<not> carriesSealedCiphertext c"
    and "entityId c = entityId m" and "baseVersion c \<noteq> v" and "opId c \<noteq> opId m"
  shows "fst (acknowledge_in sfx m (Some v) [c]) =
           [c\<lparr>baseVersion := v, attemptId := Some (newAttemptId c sfx), status := Some Pending,
              nextAttemptAt := None\<rparr>] \<and>
         \<not> holds_claim claim (hd (fst (acknowledge_in sfx m (Some v) [c])))"
  using assms
  by (auto simp: acknowledge_in_def rebase_first_def find_index_def isActiveMutation_def
      rebaseChainedCommand_def holds_claim_def Let_def)

theorem acknowledgement_unstages_metadata_edit_witness:
  "\<not> holds_claim ''popup'' (hd (fst (acknowledge_in ''u'' (sample_command ''o1'' Update 7) (Some 8)
      [(sample_command ''o2'' ToggleFavorite 7)\<lparr>status := Some Staged,
         projectionClaimId := Some ''popup''\<rparr>])))"
  by (rule acknowledgement_unstages_metadata_edit [THEN conjunct2])
     (simp_all add: sample_command_def carriesSealedCiphertext_def opId_def)

text \<open>
  For every base revision in the safe integer range, the strong ETag written into a request
  is parsed back to exactly that revision.
\<close>

theorem etag_roundtrip:
  assumes "0 \<le> baseVersion m" and "baseVersion m \<le> int MAX_SAFE_INTEGER"
  shows "strongNumericEtag (Some (optEtag (writeOptions m))) = Some (baseVersion m)"
proof -
  let ?n = "nat (baseVersion m)"
  have "optEtag (writeOptions m) = CHR 0x22 # nat_text ?n @ [CHR 0x22]"
    using assms(1) by (simp add: writeOptions_def int_text_def)
  moreover have "etag_digits (CHR 0x22 # nat_text ?n @ [CHR 0x22]) = Some (nat_text ?n)"
    using nat_text_digits [of ?n] by (intro etag_digits_quoted) auto
  ultimately show ?thesis
    using assms by (simp add: strongNumericEtag_def decimal_nat_text nat_le_iff del: etag_digits.simps)
qed

theorem etag_roundtrip_witness:
  "strongNumericEtag (Some (optEtag (writeOptions (sample_command ''o1'' Update 412)))) = Some 412"
  using etag_roundtrip [of "sample_command ''o1'' Update 412"]
  by (simp add: sample_command_def MAX_SAFE_INTEGER_def)



text \<open>
  The fifth failure of a command makes it failed with no next attempt; an earlier one makes
  it retrying, due after exactly 1000 * 2^n milliseconds, at least one second and at most a
  minute, and only a cross-account move gets a new attempt id.
\<close>

theorem retry_is_bounded:
  "if Suc (retryCount m) \<ge> 5
   then status (markRetrying time sfx m e) = Some Failed \<and> nextAttemptAt (markRetrying time sfx m e) = None
   else status (markRetrying time sfx m e) = Some Retrying \<and>
        (\<exists>d. nextAttemptAt (markRetrying time sfx m e) = Some (time + d) \<and>
             1000 \<le> d \<and> d \<le> 60000 \<and> d = 1000 * 2 ^ retryCount m) \<and>
        attemptId (markRetrying time sfx m e) =
          (if commandType m = CrossAccountMove then Some (newAttemptId m sfx) else attemptId m)"
proof -
  have "min (1000 * 2 ^ n) 60000 = (1000 * 2 ^ n :: int) \<and> 1000 * 2 ^ n \<le> (60000::int)"
    if "n < 4" for n :: nat
    using that by (auto simp: less_Suc_eq numeral_eq_Suc)
  then show ?thesis
    by (simp add: markRetrying_def scheduleRetry_def bumpRetry_def retryDelay_def Let_def
        MAX_RETRY_COUNT_def BASE_RETRY_DELAY_MS_def MAX_RETRY_DELAY_MS_def newAttemptId_def opId_def)
qed

end
