(* ===== verification/VaultMapping.thy ===== *)
theory VaultMapping
  imports SyncTypes
begin

text \<open>
  The vault vocabulary shared by sync and storage: packages/shared/src/vault-mapping.ts (the
  decoders of the two closed sets and the mappings of a server vault to a cached vault and to a
  stored vault key) and the normalisations of packages/sync/src/delta-sync.ts. On the wire an
  icon may be absent (None), null (Some None) or present.
\<close>

datatype vault_type = PersonalVault | TeamVault
datatype vault_role = OwnerRole | AdminRole | MemberRole | ReadOnlyRole

record vault_summary =
  vsId :: string
  vsName :: string
  vsType :: vault_type
  vsIcon :: "string option"
  vsImageUrl :: "string option"

record cached_vault = vault_summary +
  vaultScope :: item_scope

record vault_key_entry =
  vkVaultId :: string
  vkVaultName :: string
  vkVaultType :: vault_type
  vkVaultIcon :: "string option"
  vkVaultImageUrl :: "string option"
  vkEncryptedVaultKey :: string
  vkRole :: vault_role

record wire_vault =
  wvId :: string
  wvName :: string
  wvVaultType :: string
  wvIcon :: "string option option"
  wvImageUrl :: "string option option"
  wvEncryptedVaultKey :: string
  wvRole :: string

record server_vault =
  svId :: string
  svName :: string
  svVaultType :: string
  svIcon :: "string option"
  svImageUrl :: "string option"
  svEncryptedVaultKey :: string
  svRole :: string

record auth_vault_key =
  akVaultId :: string
  akVaultName :: string
  akVaultType :: string
  akVaultIcon :: "string option"
  akVaultImageUrl :: "string option"
  akEncryptedVaultKey :: string
  akRole :: string

definition decodeVaultType :: "string option \<Rightarrow> vault_type" where
  "decodeVaultType t = (if t = Some ''team'' then TeamVault else PersonalVault)"

definition decodeVaultRole :: "string option \<Rightarrow> vault_role" where
  "decodeVaultRole r =
     (if r = Some ''owner'' then OwnerRole else if r = Some ''admin'' then AdminRole
      else if r = Some ''member'' then MemberRole else if r = Some ''read-only'' then ReadOnlyRole
      else MemberRole)"

definition toCanonicalVaultKeyEntry :: "auth_vault_key \<Rightarrow> vault_key_entry" where
  "toCanonicalVaultKeyEntry k =
     \<lparr>vkVaultId = akVaultId k, vkVaultName = akVaultName k,
      vkVaultType = decodeVaultType (Some (akVaultType k)), vkVaultIcon = akVaultIcon k,
      vkVaultImageUrl = akVaultImageUrl k, vkEncryptedVaultKey = akEncryptedVaultKey k,
      vkRole = decodeVaultRole (Some (akRole k))\<rparr>"

definition toVaultKeyEntry :: "server_vault \<Rightarrow> vault_key_entry" where
  "toVaultKeyEntry v = toCanonicalVaultKeyEntry
     \<lparr>akVaultId = svId v, akVaultName = svName v, akVaultType = svVaultType v,
      akVaultIcon = svIcon v, akVaultImageUrl = svImageUrl v,
      akEncryptedVaultKey = svEncryptedVaultKey v, akRole = svRole v\<rparr>"

definition toCachedVaultFields :: "server_vault \<Rightarrow> vault_summary" where
  "toCachedVaultFields v =
     \<lparr>vsId = svId v, vsName = svName v, vsType = decodeVaultType (Some (svVaultType v)),
      vsIcon = svIcon v, vsImageUrl = svImageUrl v\<rparr>"

definition toAuthVaultKeyEntry :: "auth_vault_key \<Rightarrow> vault_key_entry" where
  "toAuthVaultKeyEntry k = toCanonicalVaultKeyEntry k"

text \<open>
  normalizeVaultSummary and normalizeVaultListEntry resolve an absent icon to null; they differ
  only in the endpoint whose payload they take.
\<close>

definition normalizeVaultListEntry :: "wire_vault \<Rightarrow> server_vault" where
  "normalizeVaultListEntry v =
     \<lparr>svId = wvId v, svName = wvName v, svVaultType = wvVaultType v,
      svIcon = coalesce (wvIcon v) None, svImageUrl = coalesce (wvImageUrl v) None,
      svEncryptedVaultKey = wvEncryptedVaultKey v, svRole = wvRole v\<rparr>"

definition normalizeVaultSummary :: "wire_vault \<Rightarrow> server_vault" where
  "normalizeVaultSummary v = normalizeVaultListEntry v"

definition with_scope :: "vault_summary \<Rightarrow> item_scope \<Rightarrow> cached_vault" where
  "with_scope v scope =
     \<lparr>vsId = vsId v, vsName = vsName v, vsType = vsType v, vsIcon = vsIcon v,
      vsImageUrl = vsImageUrl v, vaultScope = scope\<rparr>"

end
