(* ===== verification/CatchUp.thy ===== *)
theory CatchUp
  imports VaultMapping
begin

text \<open>
  Sync events (packages/sync/src/types.ts) and the paged catch-up over the server's change log
  (packages/sync/src/catch-up.ts). A cursor is its id; the empty id is no position. The loop asks
  for pages until one says there are no more, or does not advance; it takes fuel and answers None
  when the fuel ran out.
\<close>

section \<open>Events\<close>

datatype sync_event_type =
    ItemCreated | ItemUpdated | ItemDeleted | ItemRestored | ItemPermanentlyDeleted | ItemMoved
  | VaultCreated | VaultUpdated | VaultDeleted | VaultAccessRevoked | VaultMemberAdded
  | VaultMemberRemoved | VaultKeyRotated | TravelModeUpdated

text \<open>Of the free-form metadata only the reason is read below.\<close>

record event_fields =
  evId :: string
  evType :: sync_event_type
  evEntityId :: string
  evEntityType :: string
  evVersion :: int
  evUserId :: string
  evTimestamp :: int
  evReason :: "string option"

record wire_event = event_fields +
  wireVaultId :: "string option option"
  wireClientId :: "string option option"

record sync_event = event_fields +
  evVaultId :: "string option"
  evClientId :: "string option"

definition toClientTimestamp :: "int \<Rightarrow> int" where
  "toClientTimestamp t = t"

definition toSyncEvent :: "wire_event \<Rightarrow> sync_event" where
  "toSyncEvent e =
     \<lparr>evId = evId e, evType = evType e, evEntityId = evEntityId e, evEntityType = evEntityType e,
      evVersion = evVersion e, evUserId = evUserId e,
      evTimestamp = toClientTimestamp (evTimestamp e), evReason = evReason e,
      evVaultId = coalesce (wireVaultId e) None, evClientId = coalesce (wireClientId e) None\<rparr>"

section \<open>Pages\<close>

record api_page =
  apEvents :: "wire_event list"
  apHasMore :: bool
  apRequiresFullRefresh :: bool
  apCursor :: "string option option"

record 's catchup_port =
  changes :: "string option \<Rightarrow> nat \<Rightarrow> (js_error, 's, api_page) act"
  shouldProcessEvent :: "(sync_event \<Rightarrow> (js_error, 's, bool) act) option"
  onEvent :: "(sync_event \<Rightarrow> (js_error, 's, unit) act) option"
  onRequiresFullRefresh :: "(string option \<Rightarrow> (js_error, 's, unit) act) option"

record catchup_result =
  resCursor :: string
  resProcessedCount :: nat
  resRequiresFullRefresh :: bool

fun process_events ::
  "'s catchup_port \<Rightarrow> sync_event list \<Rightarrow> nat \<Rightarrow> (js_error, 's, nat) act" where
  "process_events port [] n = ok n"
| "process_events port (e # es) n =
     and_then (case shouldProcessEvent port of None \<Rightarrow> ok True | Some p \<Rightarrow> p e) (\<lambda>process.
     if \<not> process then process_events port es n
     else and_then (case onEvent port of None \<Rightarrow> ok () | Some f \<Rightarrow> f e) (\<lambda>_.
          process_events port es (Suc n)))"

definition page_cursor :: "api_page \<Rightarrow> string option" where
  "page_cursor page = coalesce (apCursor page) None"

definition next_cursor :: "api_page \<Rightarrow> string \<Rightarrow> string" where
  "next_cursor page cursor =
     (case page_cursor page of
        Some c \<Rightarrow> c
      | None \<Rightarrow> if apEvents page = [] then cursor else evId (last (apEvents page)))"

fun run_pages ::
  "nat \<Rightarrow> 's catchup_port \<Rightarrow> nat \<Rightarrow> string \<Rightarrow> nat \<Rightarrow> (js_error, 's, catchup_result option) act" where
  "run_pages 0 port limit cursor n = ok None"
| "run_pages (Suc fuel) port limit cursor n =
     and_then (changes port (if cursor = [] then None else Some cursor) limit) (\<lambda>page.
     if apRequiresFullRefresh page
     then let cursor' = coalesce (page_cursor page) cursor in
          and_then (case onRequiresFullRefresh port of None \<Rightarrow> ok ()
                    | Some f \<Rightarrow> f (page_cursor page)) (\<lambda>_.
          ok (Some \<lparr>resCursor = cursor', resProcessedCount = n, resRequiresFullRefresh = True\<rparr>))
     else and_then (process_events port (map toSyncEvent (apEvents page)) n) (\<lambda>n'.
          let cursor' = next_cursor page cursor in
          if \<not> apHasMore page \<or> cursor' = cursor
          then ok (Some \<lparr>resCursor = cursor', resProcessedCount = n', resRequiresFullRefresh = False\<rparr>)
          else run_pages fuel port limit cursor' n'))"

definition runCatchUp ::
  "nat \<Rightarrow> 's catchup_port \<Rightarrow> nat \<Rightarrow> string \<Rightarrow> (js_error, 's, catchup_result option) act" where
  "runCatchUp fuel port limit initialCursor = run_pages fuel port limit initialCursor 0"

section \<open>A server with a change log\<close>

text \<open>
  What the server documents of its change log: a page holds the next events after the position,
  at most limit of them, says whether more follow, and names the last one as the new position or
  leaves that to the client. A fixed log stands for what the server has while a catch-up runs.
\<close>

fun after_event :: "string \<Rightarrow> wire_event list \<Rightarrow> wire_event list" where
  "after_event i [] = []"
| "after_event i (e # es) = (if evId e = i then es else after_event i es)"

definition remaining :: "wire_event list \<Rightarrow> string option \<Rightarrow> wire_event list" where
  "remaining log since = (case since of None \<Rightarrow> log | Some i \<Rightarrow> after_event i log)"

definition log_page :: "bool \<Rightarrow> wire_event list \<Rightarrow> string option \<Rightarrow> nat \<Rightarrow> api_page" where
  "log_page named log since limit =
     (let rest = remaining log since; es = take limit rest
      in \<lparr>apEvents = es, apHasMore = (limit < length rest), apRequiresFullRefresh = False,
          apCursor = (if named \<and> es \<noteq> [] then Some (Some (evId (last es))) else None)\<rparr>)"

definition serves_log :: "bool \<Rightarrow> wire_event list \<Rightarrow> 's catchup_port \<Rightarrow> bool" where
  "serves_log named log port = (\<forall>since limit s.
     changes port since limit s = (Inr (log_page named log since limit), s))"

definition log_ok :: "wire_event list \<Rightarrow> bool" where
  "log_ok log = (distinct (map evId log) \<and> list_all (\<lambda>e. evId e \<noteq> []) log)"

definition cursor_of :: "wire_event list \<Rightarrow> string" where
  "cursor_of es = (if es = [] then [] else evId (last es))"

lemma after_event_append:
  assumes "distinct (map evId (xs @ e # ys))"
  shows "after_event (evId e) (xs @ e # ys) = ys"
  using assms by (induction xs) auto

lemma remaining_prefix:
  assumes "log_ok (past @ rest)"
  shows "remaining (past @ rest) (if cursor_of past = [] then None else Some (cursor_of past)) = rest"
proof (cases past rule: rev_cases)
  case Nil
  then show ?thesis by (simp add: remaining_def cursor_of_def)
next
  case (snoc xs e)
  then have "evId e \<noteq> []" and "distinct (map evId (xs @ e # rest))"
    using assms by (auto simp: log_ok_def)
  then show ?thesis
    using after_event_append [of xs e rest] snoc by (simp add: remaining_def cursor_of_def)
qed

text \<open>When handling an event cannot fail, its events are handled in order, each exactly once.\<close>

definition handles ::
  "wire_event list \<Rightarrow> (sync_event \<Rightarrow> 's \<Rightarrow> 's) \<Rightarrow> 's catchup_port \<Rightarrow> bool" where
  "handles log g port = (shouldProcessEvent port = None \<and> (case onEvent port of None \<Rightarrow> False
     | Some f \<Rightarrow> (\<forall>e \<in> set log. \<forall>s. f (toSyncEvent e) s = (Inr (), g (toSyncEvent e) s))))"

lemma process_events_handles:
  assumes "handles log g port" and "set es \<subseteq> set log"
  shows "process_events port (map toSyncEvent es) n s =
     (Inr (n + length es), fold g (map toSyncEvent es) s)"
  using assms(2)
proof (induction es arbitrary: n s)
  case (Cons e es)
  then show ?case using assms(1) by (auto simp: handles_def act_defs split: option.splits)
qed (simp add: ok_def)

lemma cursor_advances:
  assumes "log_ok (past @ rest)" and "rest \<noteq> []" and "0 < limit"
  shows "cursor_of (past @ take limit rest) \<noteq> cursor_of past"
proof
  let ?es = "take limit rest"
  assume e: "cursor_of (past @ ?es) = cursor_of past"
  have ne: "?es \<noteq> []" using assms by simp
  have m: "last ?es \<in> set rest" by (rule in_set_takeD [OF last_in_set [OF ne]])
  have lst: "cursor_of (past @ ?es) = evId (last ?es)" using ne by (simp add: cursor_of_def)
  show False
  proof (cases "past = []")
    case True
    have "evId (last ?es) \<noteq> []" using m assms(1) by (auto simp: log_ok_def list_all_iff)
    with e lst True show False by (simp add: cursor_of_def)
  next
    case False
    then have "evId (last past) = evId (last ?es)" using e lst by (simp add: cursor_of_def)
    moreover have "last past \<in> set past" using False by simp
    ultimately show False using m assms(1) by (auto simp: log_ok_def)
  qed
qed

lemma next_cursor_log_page:
  assumes "remaining log since = rest"
  shows "next_cursor (log_page named log since limit) (cursor_of past) = cursor_of (past @ take limit rest)"
  by (auto simp: next_cursor_def page_cursor_def log_page_def Let_def assms cursor_of_def)

lemma run_pages_log:
  assumes "serves_log named log port" and "handles es g port" and "log_ok log" and "0 < limit"
    and "log = past @ rest" and "length rest < fuel" and "set rest \<subseteq> set es"
  shows "run_pages fuel port limit (cursor_of past) n s =
     (Inr (Some \<lparr>resCursor = cursor_of log, resProcessedCount = n + length rest,
                 resRequiresFullRefresh = False\<rparr>),
      fold g (map toSyncEvent rest) s)"
  using assms(5-7)
proof (induction fuel arbitrary: past rest n s)
  case (Suc fuel)
  let ?since = "if cursor_of past = [] then None else Some (cursor_of past)"
  let ?es = "take limit rest"
  let ?page = "log_page named log ?since limit"
  have ok: "log_ok (past @ rest)" using assms(3) Suc.prems(1) by simp
  have rem: "remaining log ?since = rest"
    using remaining_prefix [OF ok] Suc.prems(1) by simp
  have page: "changes port ?since limit s = (Inr ?page, s)" for s
    using assms(1) by (simp add: serves_log_def)
  have flds: "apEvents ?page = ?es" "apHasMore ?page = (limit < length rest)"
    "\<not> apRequiresFullRefresh ?page"
    by (simp_all add: log_page_def Let_def rem)
  have nc: "next_cursor ?page (cursor_of past) = cursor_of (past @ ?es)"
    by (rule next_cursor_log_page [OF rem])
  have pe: "process_events port (map toSyncEvent ?es) n s =
      (Inr (n + length ?es), fold g (map toSyncEvent ?es) s)" for s
    using process_events_handles [OF assms(2), of ?es n s] Suc.prems(3)
    by (auto dest: in_set_takeD)
  have step: "run_pages (Suc fuel) port limit (cursor_of past) n s =
      (if \<not> limit < length rest \<or> cursor_of (past @ ?es) = cursor_of past
       then (Inr (Some \<lparr>resCursor = cursor_of (past @ ?es), resProcessedCount = n + length ?es,
                        resRequiresFullRefresh = False\<rparr>), fold g (map toSyncEvent ?es) s)
       else run_pages fuel port limit (cursor_of (past @ ?es)) (n + length ?es)
              (fold g (map toSyncEvent ?es) s))"
    using page pe flds nc by (simp add: and_then_def Let_def ok_def)
  show ?case
  proof (cases "limit < length rest")
    case False
    then have "?es = rest" by simp
    with False step Suc.prems(1) show ?thesis by simp
  next
    case True
    then have "rest \<noteq> []" by auto
    then have "cursor_of (past @ ?es) \<noteq> cursor_of past" by (rule cursor_advances [OF ok _ assms(4)])
    moreover have "run_pages fuel port limit (cursor_of (past @ ?es)) (n + length ?es)
              (fold g (map toSyncEvent ?es) s) =
        (Inr (Some \<lparr>resCursor = cursor_of log, resProcessedCount = n + length ?es + length (drop limit rest),
                 resRequiresFullRefresh = False\<rparr>),
         fold g (map toSyncEvent (drop limit rest)) (fold g (map toSyncEvent ?es) s))"
      by (rule Suc.IH) (use Suc.prems True assms(4) in \<open>auto dest: in_set_dropD\<close>)
    moreover have "fold g (map toSyncEvent (drop limit rest)) (fold g (map toSyncEvent ?es) s) =
        fold g (map toSyncEvent rest) s"
      by (metis append_take_drop_id fold_append map_append comp_apply)
    ultimately show ?thesis using step True by simp
  qed
qed simp

section \<open>Handlers that may fail\<close>

text \<open>
  The rule for a catch-up whose handler and whose connection may fail. Q past s says the events
  of past have been handled in s; a handler that throws has handled nothing. Whatever happens,
  a prefix of the remaining events has been handled, in order, and all of them when it returns.
\<close>

definition may_serve :: "bool \<Rightarrow> wire_event list \<Rightarrow> 's catchup_port \<Rightarrow> bool" where
  "may_serve named log port = (\<forall>since limit s page s'.
     changes port since limit s = (Inr page, s') \<longrightarrow> page = log_page named log since limit)"

definition handled_prefix ::
  "(wire_event list \<Rightarrow> 's \<Rightarrow> bool) \<Rightarrow> wire_event list \<Rightarrow> wire_event list \<Rightarrow> 's \<Rightarrow> bool" where
  "handled_prefix Q past rest s = (\<exists>k. Q (past @ take k rest) s)"

definition tracks ::
  "wire_event list \<Rightarrow> (wire_event list \<Rightarrow> 's \<Rightarrow> bool) \<Rightarrow> (sync_event \<Rightarrow> (js_error, 's, unit) act) \<Rightarrow> bool" where
  "tracks log Q f = (\<forall>past e rest s. log = past @ e # rest \<longrightarrow> Q past s \<longrightarrow> (case f (toSyncEvent e) s of
     (Inl _, s') \<Rightarrow> Q past s' | (Inr _, s') \<Rightarrow> Q (past @ [e]) s'))"

lemma tracksD: "tracks log Q f \<Longrightarrow> log = past @ e # rest \<Longrightarrow> Q past s \<Longrightarrow> case f (toSyncEvent e) s of
     (Inl _, s') \<Rightarrow> Q past s' | (Inr _, s') \<Rightarrow> Q (past @ [e]) s'"
  by (simp add: tracks_def)

definition ends_with ::
  "(wire_event list \<Rightarrow> 's \<Rightarrow> bool) \<Rightarrow> wire_event list \<Rightarrow> wire_event list \<Rightarrow>
   (js_error + catchup_result option) \<times> 's \<Rightarrow> bool" where
  "ends_with Q past rest out = (case out of
       (Inl e, s') \<Rightarrow> handled_prefix Q past rest s'
     | (Inr None, s') \<Rightarrow> False
     | (Inr (Some r), s') \<Rightarrow> Q (past @ rest) s' \<and> resCursor r = cursor_of (past @ rest) \<and>
         \<not> resRequiresFullRefresh r)"

lemma handled_prefixI: "Q (past @ take k rest) s \<Longrightarrow> handled_prefix Q past rest s"
  by (auto simp: handled_prefix_def)

lemma handled_prefix_append:
  assumes "handled_prefix Q (past @ xs) rest s"
  shows "handled_prefix Q past (xs @ rest) s"
proof -
  obtain k where "Q ((past @ xs) @ take k rest) s" using assms by (auto simp: handled_prefix_def)
  then show ?thesis by (intro handled_prefixI [where k = "length xs + k"]) simp
qed

lemma handled_prefix_take:
  assumes "handled_prefix Q past (take n rest) s"
  shows "handled_prefix Q past rest s"
  using assms by (auto simp: handled_prefix_def)

lemma process_events_prefix:
  assumes "shouldProcessEvent port = None" and "onEvent port = Some f"
    and "tracks log Q f" and "Q past s" and "log = past @ es @ later"
  shows "case process_events port (map toSyncEvent es) n s of
     (Inl err, s') \<Rightarrow> handled_prefix Q past es s' | (Inr m, s') \<Rightarrow> Q (past @ es) s'"
  using assms(4,5)
proof (induction es arbitrary: past n s)
  case (Cons e es)
  show ?case
  proof (cases "f (toSyncEvent e) s")
    case (Pair r s1)
    show ?thesis
    proof (cases r)
      case (Inl err)
      have "Q past s1" using tracksD [OF assms(3), of past e "es @ later" s] Cons.prems Pair Inl by simp
      with Pair Inl show ?thesis
        by (auto simp: assms(1,2) act_defs intro: handled_prefixI [where k = 0])
    next
      case (Inr u)
      then have q: "Q (past @ [e]) s1" using tracksD [OF assms(3), of past e "es @ later" s] Cons.prems Pair by simp
      show ?thesis
        using Cons.IH [OF q, of "Suc n"] Cons.prems(2) Pair Inr
        by (auto simp: assms(1,2) act_defs dest: handled_prefix_append split: prod.splits sum.splits)
    qed
  qed
qed (simp add: ok_def)

lemma run_pages_prefix:
  assumes serve: "may_serve named log port" and ok: "log_ok log" and lim: "0 < limit"
    and port: "shouldProcessEvent port = None" "onEvent port = Some f"
    and step: "tracks log Q f"
    and keep: "\<And>past since s. Q past s \<Longrightarrow> Q past (snd (changes port since limit s))"
    and "log = past @ rest" and "length rest < fuel" and "Q past s"
  shows "ends_with Q past rest (run_pages fuel port limit (cursor_of past) n s)"
  using assms(8-10)
proof (induction fuel arbitrary: past rest n s)
  case (Suc fuel)
  let ?since = "if cursor_of past = [] then None else Some (cursor_of past)"
  let ?es = "take limit rest"
  have rem: "remaining log ?since = rest"
    using remaining_prefix [of past rest] ok Suc.prems(1) by simp
  obtain r s1 where c: "changes port ?since limit s = (r, s1)" by fastforce
  have q1: "Q past s1" using keep [OF Suc.prems(3), of ?since] by (simp add: c)
  show ?case
  proof (cases r)
    case (Inl err)
    with c q1 show ?thesis
      by (auto simp: ends_with_def and_then_def intro: handled_prefixI [where k = 0])
  next
    case (Inr page)
    then have page: "page = log_page named log ?since limit"
      using serve c unfolding may_serve_def by blast
    have flds: "apEvents page = ?es" "apHasMore page = (limit < length rest)"
      "\<not> apRequiresFullRefresh page"
      by (simp_all add: page log_page_def Let_def rem)
    have nc: "next_cursor page (cursor_of past) = cursor_of (past @ ?es)"
      unfolding page by (rule next_cursor_log_page [OF rem])
    obtain r2 s2 where p: "process_events port (map toSyncEvent ?es) n s1 = (r2, s2)" by fastforce
    have pe: "case (r2, s2) of (Inl err, s') \<Rightarrow> handled_prefix Q past ?es s' | (Inr m, s') \<Rightarrow> Q (past @ ?es) s'"
      using process_events_prefix [OF port step q1, of ?es "drop limit rest" n] p Suc.prems(1) by simp
    show ?thesis
    proof (cases r2)
      case (Inl err)
      with pe have "handled_prefix Q past rest s2" by (auto intro: handled_prefix_take)
      with Inl Inr c p flds show ?thesis by (simp add: ends_with_def and_then_def)
    next
      case (Inr m)
      with pe have q2: "Q (past @ ?es) s2" by simp
      show ?thesis
      proof (cases "limit < length rest")
        case False
        then show ?thesis using Inr \<open>r = Inr page\<close> c p flds nc q2
          by (simp add: ends_with_def and_then_def ok_def)
      next
        case True
        then have "rest \<noteq> []" by auto
        then have ne: "cursor_of (past @ ?es) \<noteq> cursor_of past"
          using cursor_advances [OF _ _ lim] ok Suc.prems(1) by simp
        have "ends_with Q (past @ ?es) (drop limit rest) (run_pages fuel port limit (cursor_of (past @ ?es)) m s2)"
          by (rule Suc.IH) (use Suc.prems True lim q2 in auto)
        then have "ends_with Q past rest (run_pages fuel port limit (cursor_of (past @ ?es)) m s2)"
          using handled_prefix_append [of Q past ?es "drop limit rest"]
          by (auto simp: ends_with_def split: prod.splits sum.splits option.splits)
        with Inr \<open>r = Inr page\<close> c p flds nc ne True show ?thesis
          by (simp add: and_then_def)
      qed
    qed
  qed
qed simp

section \<open>Properties\<close>

definition sample_event :: "string \<Rightarrow> sync_event_type \<Rightarrow> wire_event" where
  "sample_event i ty =
     \<lparr>evId = i, evType = ty, evEntityId = ''x'', evEntityType = ''item'', evVersion = 1,
      evUserId = ''u'', evTimestamp = 5, evReason = None, wireVaultId = None, wireClientId = None\<rparr>"

definition sample_log :: "wire_event list" where
  "sample_log = [sample_event ''e1'' ItemCreated, sample_event ''e2'' ItemUpdated,
                 sample_event ''e3'' ItemUpdated]"

definition logging_port :: "bool \<Rightarrow> wire_event list \<Rightarrow> string list catchup_port" where
  "logging_port named log =
     \<lparr>changes = (\<lambda>since limit. ok (log_page named log since limit)), shouldProcessEvent = None,
      onEvent = Some (\<lambda>e. put_state (\<lambda>seen. seen @ [evId e])), onRequiresFullRefresh = None\<rparr>"

text \<open>
  C35. Whatever the page size and whether or not the server names the cursor, a catch-up that
  starts behind some prefix of the log returns, with fuel for one page more than there are
  events, having handled exactly the remaining events, in order and once each, and with the end
  of the log as its cursor.
\<close>

theorem catch_up_delivers_the_log_once:
  assumes "serves_log named log port" and "handles rest g port" and "log_ok log" and "0 < limit"
    and "log = past @ rest" and "length rest < fuel"
  shows "runCatchUp fuel port limit (cursor_of past) s =
     (Inr (Some \<lparr>resCursor = cursor_of log, resProcessedCount = length rest,
                 resRequiresFullRefresh = False\<rparr>),
      fold g (map toSyncEvent rest) s)"
  using run_pages_log [OF assms order_refl, of 0 s] by (simp add: runCatchUp_def)

theorem catch_up_delivers_the_log_once_witness:
  "runCatchUp 3 (logging_port True sample_log) 1 ''e1'' [] =
     (Inr (Some \<lparr>resCursor = ''e3'', resProcessedCount = 2, resRequiresFullRefresh = False\<rparr>),
      [''e2'', ''e3''])"
proof -
  have "serves_log True sample_log (logging_port True sample_log)"
    by (simp add: serves_log_def logging_port_def ok_def)
  moreover have "handles [sample_event ''e2'' ItemUpdated, sample_event ''e3'' ItemUpdated] (\<lambda>e seen. seen @ [evId e]) (logging_port True sample_log)"
    by (simp add: handles_def logging_port_def act_defs)
  moreover have "log_ok sample_log"
    by (simp add: log_ok_def sample_log_def sample_event_def)
  moreover have "sample_log = [sample_event ''e1'' ItemCreated] @
      [sample_event ''e2'' ItemUpdated, sample_event ''e3'' ItemUpdated]"
    by (simp add: sample_log_def)
  ultimately have "runCatchUp 3 (logging_port True sample_log) 1 (cursor_of [sample_event ''e1'' ItemCreated]) [] =
     (Inr (Some \<lparr>resCursor = cursor_of sample_log,
        resProcessedCount = length [sample_event ''e2'' ItemUpdated, sample_event ''e3'' ItemUpdated],
        resRequiresFullRefresh = False\<rparr>),
      fold (\<lambda>e seen. seen @ [evId e])
        (map toSyncEvent [sample_event ''e2'' ItemUpdated, sample_event ''e3'' ItemUpdated]) [])"
    by (intro catch_up_delivers_the_log_once) simp_all
  then show ?thesis
    by (simp add: cursor_of_def sample_log_def sample_event_def toSyncEvent_def)
qed

end
