(* ===== verification/RecordPort.thy ===== *)
theory RecordPort
  imports VaultMapping
begin

text \<open>
  The bulk-record seam of packages/storage/src/record-port.ts: a store of opaque texts by
  collection and id. The port is a record of effectful operations, each of which may throw. What
  an adapter promises is the locale record_store, over the view of a collection as an
  insertion-ordered map; it is interpreted on the in-memory adapter of
  packages/storage/src/testing/in-memory-port.ts, and on the same adapter made to fail after a
  number of writes, which is how an interrupted operation is observed.
\<close>

section \<open>The texts\<close>

text \<open>
  A stored text is a JSON document of one of the three kinds ItemCache writes, or a text that
  does not parse; parsing what was stringified gives the document back.
\<close>

record sync_baseline_ref =
  baselineServerUrl :: string
  baselineCursorId :: "string option"

record cache_metadata =
  lastFullSyncAt :: int
  itemCount :: nat
  cacheVersion :: int
  metaSyncBaseline :: "sync_baseline_ref option"

record native_view =
  nvVersion :: int
  itemsKeyPrefix :: string
  vaultsKeyPrefix :: string

record cache_state =
  stateVersion :: int
  itemsPrimed :: bool
  vaultsPrimed :: bool
  stateMetadata :: "cache_metadata option"
  activeGeneration :: "string option"
  stateNativeView :: "native_view option"

datatype record_value =
    ItemText cached_item
  | VaultText cached_vault
  | StateText cache_state
  | CorruptText string

type_synonym bucket = "(string \<times> record_value) list"

fun parseItem :: "record_value \<Rightarrow> cached_item option" where
  "parseItem (ItemText i) = Some i" | "parseItem _ = None"

fun parseVault :: "record_value \<Rightarrow> cached_vault option" where
  "parseVault (VaultText v) = Some v" | "parseVault _ = None"

fun parseState :: "record_value \<Rightarrow> cache_state option" where
  "parseState (StateText s) = Some s" | "parseState _ = None"

section \<open>The port\<close>

record 's record_port =
  recordKeyPrefix :: string
  recordPut :: "string \<Rightarrow> string \<Rightarrow> record_value \<Rightarrow> (js_error, 's, unit) act"
  recordPutMany :: "string \<Rightarrow> bucket \<Rightarrow> (js_error, 's, unit) act"
  recordGet :: "string \<Rightarrow> string \<Rightarrow> (js_error, 's, record_value option) act"
  recordDelete :: "string \<Rightarrow> string \<Rightarrow> (js_error, 's, unit) act"
  recordList :: "string \<Rightarrow> (js_error, 's, bucket) act"
  recordClear :: "string \<Rightarrow> (js_error, 's, unit) act"

definition put_many :: "bucket \<Rightarrow> bucket \<Rightarrow> bucket" where
  "put_many rs b = fold (\<lambda>(k, v) m. js_set k v m) rs b"

text \<open>
  The laws. A write that returns did exactly what it says and touched no other collection; one
  that throws touched no other collection, and a single put, delete or clear that throws did
  nothing. Reads change nothing.
\<close>

locale record_store =
  fixes port :: "'s record_port"
    and view :: "'s \<Rightarrow> string \<Rightarrow> bucket"
  assumes put_ok: "recordPut port c i v s = (Inr (), s') \<Longrightarrow> view s' = (view s)(c := js_set i v (view s c))"
    and put_fail: "recordPut port c i v s = (Inl e, s') \<Longrightarrow> view s' = view s"
    and put_many_ok: "recordPutMany port c rs s = (Inr (), s') \<Longrightarrow> view s' = (view s)(c := put_many rs (view s c))"
    and put_many_fail: "recordPutMany port c rs s = (Inl e, s') \<Longrightarrow> d \<noteq> c \<Longrightarrow> view s' d = view s d"
    and get_ok: "recordGet port c i s = (Inr r, s') \<Longrightarrow> r = js_get (view s c) i"
    and get_view: "view (snd (recordGet port c i s)) = view s"
    and delete_ok: "recordDelete port c i s = (Inr (), s') \<Longrightarrow> view s' = (view s)(c := js_delete i (view s c))"
    and delete_fail: "recordDelete port c i s = (Inl e, s') \<Longrightarrow> view s' = view s"
    and list_ok: "recordList port c s = (Inr b, s') \<Longrightarrow> b = view s c"
    and list_view: "view (snd (recordList port c s)) = view s"
    and clear_ok: "recordClear port c s = (Inr (), s') \<Longrightarrow> view s' = (view s)(c := [])"
    and clear_fail: "recordClear port c s = (Inl e, s') \<Longrightarrow> view s' = view s"
begin

lemma put_others: "d \<noteq> c \<Longrightarrow> view (snd (recordPut port c i v s)) d = view s d"
  by (cases "recordPut port c i v s"; cases "fst (recordPut port c i v s)")
     (auto dest: put_ok put_fail)

lemma put_many_others: "d \<noteq> c \<Longrightarrow> view (snd (recordPutMany port c rs s)) d = view s d"
  by (cases "recordPutMany port c rs s"; cases "fst (recordPutMany port c rs s)")
     (auto dest: put_many_ok put_many_fail)

lemma delete_others: "d \<noteq> c \<Longrightarrow> view (snd (recordDelete port c i s)) d = view s d"
  by (cases "recordDelete port c i s"; cases "fst (recordDelete port c i s)")
     (auto dest: delete_ok delete_fail)

lemma clear_others: "d \<noteq> c \<Longrightarrow> view (snd (recordClear port c s)) d = view s d"
  by (cases "recordClear port c s"; cases "fst (recordClear port c s)")
     (auto dest: clear_ok clear_fail)

text \<open>An invariant that is about some collections only is kept by every operation on the others.\<close>

lemma keeps_others:
  assumes "\<And>s t. (\<And>d. d \<in> D \<Longrightarrow> view t d = view s d) \<Longrightarrow> J s \<Longrightarrow> J t" and "c \<notin> D"
  shows "keeps J (recordPut port c i v)" "keeps J (recordPutMany port c rs)"
    "keeps J (recordDelete port c i)" "keeps J (recordClear port c)"
proof -
  have frame: "keeps J m" if "\<And>s d. d \<noteq> c \<Longrightarrow> view (snd (m s)) d = view s d"
    for m :: "(js_error, 's, unit) act"
  proof (rule keepsI)
    fix s assume "J s"
    moreover have "view (snd (m s)) d = view s d" if "d \<in> D" for d
      using \<open>\<And>s d. d \<noteq> c \<Longrightarrow> view (snd (m s)) d = view s d\<close> assms(2) that by metis
    ultimately show "J (snd (m s))" using assms(1) by blast
  qed
  show "keeps J (recordPut port c i v)" by (rule frame) (rule put_others)
  show "keeps J (recordPutMany port c rs)" by (rule frame) (rule put_many_others)
  show "keeps J (recordDelete port c i)" by (rule frame) (rule delete_others)
  show "keeps J (recordClear port c)" by (rule frame) (rule clear_others)
qed

lemma keeps_reads:
  assumes "\<And>s t. (\<And>d. d \<in> D \<Longrightarrow> view t d = view s d) \<Longrightarrow> J s \<Longrightarrow> J t"
  shows "keeps J (recordGet port c i)" "keeps J (recordList port c)"
proof -
  show "keeps J (recordGet port c i)"
    by (rule keepsI, rule assms [rotated]) (simp_all add: get_view)
  show "keeps J (recordList port c)"
    by (rule keepsI, rule assms [rotated]) (simp_all add: list_view)
qed

end

section \<open>The in-memory adapter\<close>

type_synonym memory = "(string \<times> bucket) list"

definition bucketFor :: "memory \<Rightarrow> string \<Rightarrow> bucket" where
  "bucketFor m c = coalesce (js_get m c) []"

definition createInMemoryRecordPort :: "string \<Rightarrow> memory record_port" where
  "createInMemoryRecordPort prefix =
     \<lparr>recordKeyPrefix = prefix,
      recordPut = (\<lambda>c i v m. (Inr (), js_set c (js_set i v (bucketFor m c)) m)),
      recordPutMany = (\<lambda>c rs m. (Inr (), if rs = [] then m else js_set c (put_many rs (bucketFor m c)) m)),
      recordGet = (\<lambda>c i m. (Inr (js_get (bucketFor m c) i), m)),
      recordDelete = (\<lambda>c i m. (Inr (), case js_get m c of None \<Rightarrow> m
                        | Some b \<Rightarrow> js_set c (js_delete i b) m)),
      recordList = (\<lambda>c m. (Inr (bucketFor m c), m)),
      recordClear = (\<lambda>c m. (Inr (), js_delete c m))\<rparr>"

definition collections :: "memory \<Rightarrow> string list" where
  "collections m = map fst (filter (\<lambda>(c, b). b \<noteq> []) m)"

lemma bucketFor_set [simp]: "bucketFor (js_set c b m) = (bucketFor m)(c := b)"
  by (auto simp: bucketFor_def)

lemma bucketFor_delete [simp]: "bucketFor (js_delete c m) = (bucketFor m)(c := [])"
  by (auto simp: bucketFor_def)

interpretation memory: record_store "createInMemoryRecordPort prefix" bucketFor for prefix
  by unfold_locales
     (auto simp: createInMemoryRecordPort_def put_many_def fun_eq_iff bucketFor_def
       split: option.splits if_splits)

text \<open>
  An adapter whose first writes succeed and whose every later write fails: the state carries the
  number of writes left. A failing batch leaves its collection as it was.
\<close>

definition failing ::
  "(js_error, memory, unit) act \<Rightarrow> (js_error, nat \<times> memory, unit) act" where
  "failing m = (\<lambda>(n, s). if n = 0 then (Inl (JsError ''write failed''), (0, s))
                        else case m s of (r, s') \<Rightarrow> (r, (n - 1, s')))"

definition reading :: "(js_error, memory, 'a) act \<Rightarrow> (js_error, nat \<times> memory, 'a) act" where
  "reading m = (\<lambda>(n, s). case m s of (r, s') \<Rightarrow> (r, (n, s')))"

definition failing_port :: "string \<Rightarrow> (nat \<times> memory) record_port" where
  "failing_port prefix = (let p = createInMemoryRecordPort prefix in
     \<lparr>recordKeyPrefix = prefix,
      recordPut = (\<lambda>c i v. failing (recordPut p c i v)),
      recordPutMany = (\<lambda>c rs. failing (recordPutMany p c rs)),
      recordGet = (\<lambda>c i. reading (recordGet p c i)),
      recordDelete = (\<lambda>c i. failing (recordDelete p c i)),
      recordList = (\<lambda>c. reading (recordList p c)),
      recordClear = (\<lambda>c. failing (recordClear p c))\<rparr>)"

interpretation interrupted: record_store "failing_port prefix" "\<lambda>s. bucketFor (snd s)" for prefix
  by unfold_locales
     (auto simp: failing_port_def failing_def reading_def Let_def case_prod_beta
       createInMemoryRecordPort_def put_many_def fun_eq_iff bucketFor_def
       split: option.splits if_splits)

end
