(* ===== verification/ItemCache.thy ===== *)
theory ItemCache
  imports RecordPort
begin

text \<open>
  The encrypted item cache (packages/storage/src/item-cache.ts) over the record seam, with the
  collection names of packages/storage/src/keys.ts: cold and primed state, single and batched
  upserts that never go back to an older version, the vault cascade, and a staged generation
  that a bootstrap fills out of sight and publishes by one write of the state record.

  The per-account lock makes the operations of an account run one after another; the model's
  operations are such runs. The generation id, which the code draws from the clock and a random
  number, is an argument of beginStagedGeneration.
\<close>

section \<open>Collections\<close>

definition itemsCollection :: "string \<Rightarrow> string" where
  "itemsCollection acc = acc @ '':items''"
definition vaultsCollection :: "string \<Rightarrow> string" where
  "vaultsCollection acc = acc @ '':vaults''"
definition metaCollection :: "string \<Rightarrow> string" where
  "metaCollection acc = acc @ '':meta''"
definition stagedItemsCollection :: "string \<Rightarrow> string \<Rightarrow> string" where
  "stagedItemsCollection acc gen = ''item-cache-stage:'' @ acc @ '':'' @ gen @ '':items''"
definition stagedVaultsCollection :: "string \<Rightarrow> string \<Rightarrow> string" where
  "stagedVaultsCollection acc gen = ''item-cache-stage:'' @ acc @ '':'' @ gen @ '':vaults''"
definition stagedItemBaselineCollection :: "string \<Rightarrow> string \<Rightarrow> string" where
  "stagedItemBaselineCollection acc gen = ''item-cache-stage:'' @ acc @ '':'' @ gen @ '':item-baseline''"
definition stagedVaultBaselineCollection :: "string \<Rightarrow> string \<Rightarrow> string" where
  "stagedVaultBaselineCollection acc gen = ''item-cache-stage:'' @ acc @ '':'' @ gen @ '':vault-baseline''"

definition META_RECORD_ID :: string where "META_RECORD_ID = ''meta''"
definition ITEM_CACHE_STATE_VERSION :: int where "ITEM_CACHE_STATE_VERSION = 2"
definition ITEM_CACHE_NATIVE_VIEW_VERSION :: int where "ITEM_CACHE_NATIVE_VIEW_VERSION = 1"

text \<open>An empty generation string is falsy, so it names the active collection too.\<close>

definition itemCollectionFor :: "string \<Rightarrow> string option \<Rightarrow> string" where
  "itemCollectionFor acc gen = (case gen of None \<Rightarrow> itemsCollection acc
     | Some g \<Rightarrow> if g = [] then itemsCollection acc else stagedItemsCollection acc g)"

definition vaultCollectionFor :: "string \<Rightarrow> string option \<Rightarrow> string" where
  "vaultCollectionFor acc gen = (case gen of None \<Rightarrow> vaultsCollection acc
     | Some g \<Rightarrow> if g = [] then vaultsCollection acc else stagedVaultsCollection acc g)"

section \<open>The state record\<close>

definition nativeViewFor :: "'s record_port \<Rightarrow> string \<Rightarrow> string option \<Rightarrow> native_view" where
  "nativeViewFor port acc gen =
     \<lparr>nvVersion = ITEM_CACHE_NATIVE_VIEW_VERSION,
      itemsKeyPrefix = recordKeyPrefix port @ itemCollectionFor acc gen @ '':'',
      vaultsKeyPrefix = recordKeyPrefix port @ vaultCollectionFor acc gen @ '':''\<rparr>"

definition coldState :: "'s record_port \<Rightarrow> string \<Rightarrow> cache_state" where
  "coldState port acc =
     \<lparr>stateVersion = ITEM_CACHE_STATE_VERSION, itemsPrimed = False, vaultsPrimed = False,
      stateMetadata = None, activeGeneration = None,
      stateNativeView = Some (nativeViewFor port acc None)\<rparr>"

text \<open>What readState makes of the stored record, if there is one.\<close>

definition decode_state :: "'s record_port \<Rightarrow> string \<Rightarrow> record_value option \<Rightarrow> cache_state" where
  "decode_state port acc raw = (case raw of
       None \<Rightarrow> coldState port acc
     | Some text \<Rightarrow> (case parseState text of
         None \<Rightarrow> coldState port acc
       | Some parsed \<Rightarrow>
           (case stateNativeView parsed of
              None \<Rightarrow> coldState port acc
            | Some nv \<Rightarrow>
                let expected = nativeViewFor port acc (activeGeneration parsed) in
                if stateVersion parsed \<noteq> ITEM_CACHE_STATE_VERSION \<or>
                   nvVersion nv \<noteq> ITEM_CACHE_NATIVE_VIEW_VERSION \<or>
                   itemsKeyPrefix nv \<noteq> itemsKeyPrefix expected \<or>
                   vaultsKeyPrefix nv \<noteq> vaultsKeyPrefix expected
                then coldState port acc
                else parsed\<lparr>stateNativeView := Some expected\<rparr>)))"

definition readState :: "'s record_port \<Rightarrow> string \<Rightarrow> (js_error, 's, cache_state) act" where
  "readState port acc =
     and_then (recordGet port (metaCollection acc) META_RECORD_ID)
       (\<lambda>raw. ok (decode_state port acc raw))"

definition writeState :: "'s record_port \<Rightarrow> string \<Rightarrow> cache_state \<Rightarrow> (js_error, 's, unit) act" where
  "writeState port acc st = recordPut port (metaCollection acc) META_RECORD_ID (StateText st)"

definition prime_items :: "'s record_port \<Rightarrow> string \<Rightarrow> (js_error, 's, unit) act" where
  "prime_items port acc = and_then (readState port acc) (\<lambda>st.
     if itemsPrimed st then ok () else writeState port acc (st\<lparr>itemsPrimed := True\<rparr>))"

definition prime_vaults :: "'s record_port \<Rightarrow> string \<Rightarrow> (js_error, 's, unit) act" where
  "prime_vaults port acc = and_then (readState port acc) (\<lambda>st.
     if vaultsPrimed st then ok () else writeState port acc (st\<lparr>vaultsPrimed := True\<rparr>))"

section \<open>Collections as values\<close>

text \<open>Corrupt records are skipped, never thrown.\<close>

definition parse_records :: "(record_value \<Rightarrow> 'a option) \<Rightarrow> bucket \<Rightarrow> 'a list" where
  "parse_records parse b = List.map_filter (\<lambda>(_, v). parse v) b"

definition readCollection ::
  "'s record_port \<Rightarrow> string \<Rightarrow> (record_value \<Rightarrow> 'a option) \<Rightarrow> bool \<Rightarrow> (js_error, 's, 'a list option) act" where
  "readCollection port c parse primed =
     and_then (recordList port c) (\<lambda>records.
       ok (if records \<noteq> [] then Some (parse_records parse records)
           else if primed then Some [] else None))"

definition replaceCollection ::
  "'s record_port \<Rightarrow> string \<Rightarrow> bucket \<Rightarrow> (js_error, 's, unit) act" where
  "replaceCollection port c values =
     and_then (recordClear port c) (\<lambda>_. recordPutMany port c values)"

definition valuesOf :: "'s record_port \<Rightarrow> string \<Rightarrow> (js_error, 's, bucket) act" where
  "valuesOf port c = and_then (recordList port c) (\<lambda>records. ok (js_map_of records))"

definition item_records :: "cached_item list \<Rightarrow> bucket" where
  "item_records items = map (\<lambda>i. (itemId i, ItemText i)) items"

definition vault_records :: "cached_vault list \<Rightarrow> bucket" where
  "vault_records vaults = map (\<lambda>v. (vsId v, VaultText v)) vaults"

definition storedIsNewer :: "record_value option \<Rightarrow> cached_item \<Rightarrow> bool" where
  "storedIsNewer existing item = (case existing of
       None \<Rightarrow> False
     | Some text \<Rightarrow> (case parseItem text of None \<Rightarrow> False
                     | Some parsed \<Rightarrow> itemVersion parsed > itemVersion item))"

definition writeNewerItem ::
  "'s record_port \<Rightarrow> string \<Rightarrow> cached_item \<Rightarrow> (js_error, 's, bool) act" where
  "writeNewerItem port c item =
     and_then (recordGet port c (itemId item)) (\<lambda>existing.
       if storedIsNewer existing item then ok False
       else and_then (recordPut port c (itemId item) (ItemText item)) (\<lambda>_. ok True))"

definition accept_item :: "bucket \<Rightarrow> cached_item \<Rightarrow> bucket \<Rightarrow> bucket" where
  "accept_item stored item accepted =
     (let existing = (case js_get accepted (itemId item) of Some v \<Rightarrow> Some v
                      | None \<Rightarrow> js_get stored (itemId item))
      in if storedIsNewer existing item then accepted
         else js_set (itemId item) (ItemText item) accepted)"

definition writeNewerItems ::
  "'s record_port \<Rightarrow> string \<Rightarrow> cached_item list \<Rightarrow> (js_error, 's, unit) act" where
  "writeNewerItems port c items =
     (if items = [] then ok ()
      else and_then (valuesOf port c) (\<lambda>stored.
        recordPutMany port c (fold (accept_item stored) items [])))"

section \<open>The cache\<close>

definition setCachedItems ::
  "'s record_port \<Rightarrow> cached_item list \<Rightarrow> string \<Rightarrow> (js_error, 's, unit) act" where
  "setCachedItems port items acc =
     and_then (readState port acc) (\<lambda>st.
     and_then (replaceCollection port (itemCollectionFor acc (activeGeneration st))
                 (item_records items)) (\<lambda>_.
     prime_items port acc))"

definition getCachedItems ::
  "'s record_port \<Rightarrow> string \<Rightarrow> (js_error, 's, cached_item list option) act" where
  "getCachedItems port acc =
     and_then (readState port acc) (\<lambda>st.
       readCollection port (itemCollectionFor acc (activeGeneration st)) parseItem (itemsPrimed st))"

definition upsertCachedItem ::
  "'s record_port \<Rightarrow> cached_item \<Rightarrow> string \<Rightarrow> (js_error, 's, bool) act" where
  "upsertCachedItem port item acc =
     and_then (readState port acc) (\<lambda>st.
       writeNewerItem port (itemCollectionFor acc (activeGeneration st)) item)"

definition removeCachedItem ::
  "'s record_port \<Rightarrow> string \<Rightarrow> string \<Rightarrow> (js_error, 's, unit) act" where
  "removeCachedItem port item acc =
     and_then (readState port acc) (\<lambda>st.
       recordDelete port (itemCollectionFor acc (activeGeneration st)) item)"

definition setCachedVaults ::
  "'s record_port \<Rightarrow> cached_vault list \<Rightarrow> string \<Rightarrow> (js_error, 's, unit) act" where
  "setCachedVaults port vaults acc =
     and_then (readState port acc) (\<lambda>st.
     and_then (replaceCollection port (vaultCollectionFor acc (activeGeneration st))
                 (vault_records vaults)) (\<lambda>_.
     prime_vaults port acc))"

definition getCachedVaults ::
  "'s record_port \<Rightarrow> string \<Rightarrow> (js_error, 's, cached_vault list option) act" where
  "getCachedVaults port acc =
     and_then (readState port acc) (\<lambda>st.
       readCollection port (vaultCollectionFor acc (activeGeneration st)) parseVault (vaultsPrimed st))"

definition upsertCachedVault ::
  "'s record_port \<Rightarrow> cached_vault \<Rightarrow> string \<Rightarrow> (js_error, 's, unit) act" where
  "upsertCachedVault port vault acc =
     and_then (readState port acc) (\<lambda>st.
       recordPut port (vaultCollectionFor acc (activeGeneration st)) (vsId vault) (VaultText vault))"

definition in_vault :: "string \<Rightarrow> record_value \<Rightarrow> bool" where
  "in_vault vault text = (case parseItem text of None \<Rightarrow> False | Some i \<Rightarrow> itemVaultId i = vault)"

definition removeCachedVault ::
  "'s record_port \<Rightarrow> string \<Rightarrow> string \<Rightarrow> (js_error, 's, unit) act" where
  "removeCachedVault port vault acc =
     and_then (readState port acc) (\<lambda>st.
     and_then (recordDelete port (vaultCollectionFor acc (activeGeneration st)) vault) (\<lambda>_.
     let c = itemCollectionFor acc (activeGeneration st) in
     and_then (recordList port c) (\<lambda>records.
       for_each records (\<lambda>(i, text). if in_vault vault text then recordDelete port c i else ok ()))))"

definition getItemCacheMetadata ::
  "'s record_port \<Rightarrow> string \<Rightarrow> (js_error, 's, cache_metadata option) act" where
  "getItemCacheMetadata port acc =
     and_then (readState port acc) (\<lambda>st. ok (stateMetadata st))"

definition setItemCacheMetadata ::
  "'s record_port \<Rightarrow> cache_metadata \<Rightarrow> string \<Rightarrow> (js_error, 's, unit) act" where
  "setItemCacheMetadata port metadata acc =
     and_then (readState port acc) (\<lambda>st. writeState port acc (st\<lparr>stateMetadata := Some metadata\<rparr>))"

definition clearItemCache :: "'s record_port \<Rightarrow> string \<Rightarrow> (js_error, 's, unit) act" where
  "clearItemCache port acc =
     and_then (readState port acc) (\<lambda>st.
     all_each [itemsCollection acc, vaultsCollection acc,
               itemCollectionFor acc (activeGeneration st),
               vaultCollectionFor acc (activeGeneration st), metaCollection acc]
       (recordClear port))"

section \<open>Staged generations\<close>

record staging =
  stAccount :: string
  stGeneration :: string
  settled :: bool

definition stage_items :: "staging \<Rightarrow> string" where
  "stage_items g = stagedItemsCollection (stAccount g) (stGeneration g)"
definition stage_vaults :: "staging \<Rightarrow> string" where
  "stage_vaults g = stagedVaultsCollection (stAccount g) (stGeneration g)"
definition stage_item_baseline :: "staging \<Rightarrow> string" where
  "stage_item_baseline g = stagedItemBaselineCollection (stAccount g) (stGeneration g)"
definition stage_vault_baseline :: "staging \<Rightarrow> string" where
  "stage_vault_baseline g = stagedVaultBaselineCollection (stAccount g) (stGeneration g)"

definition stage_collections :: "staging \<Rightarrow> string list" where
  "stage_collections g =
     [stage_items g, stage_vaults g, stage_item_baseline g, stage_vault_baseline g]"

definition beginStagedGeneration ::
  "'s record_port \<Rightarrow> string \<Rightarrow> string \<Rightarrow> (js_error, 's, staging) act" where
  "beginStagedGeneration port acc gen =
     (let g = \<lparr>stAccount = acc, stGeneration = gen, settled = False\<rparr> in
      and_then (readState port acc) (\<lambda>st.
      and_then (recordList port (itemCollectionFor acc (activeGeneration st))) (\<lambda>activeItems.
      and_then (recordList port (vaultCollectionFor acc (activeGeneration st))) (\<lambda>activeVaults.
      and_then (all_each (stage_collections g) (recordClear port)) (\<lambda>_.
      and_then (recordPutMany port (stage_item_baseline g) activeItems) (\<lambda>_.
      and_then (recordPutMany port (stage_vault_baseline g) activeVaults) (\<lambda>_.
      ok g)))))))"

definition assertPending :: "staging \<Rightarrow> (js_error, 's, unit) act" where
  "assertPending g = (if settled g
     then throw (JsError ''Item cache staging generation is no longer writable.'') else ok ())"

definition stageItem :: "'s record_port \<Rightarrow> staging \<Rightarrow> cached_item \<Rightarrow> (js_error, 's, bool) act" where
  "stageItem port g item = and_then (assertPending g) (\<lambda>_. writeNewerItem port (stage_items g) item)"

definition stageItems :: "'s record_port \<Rightarrow> staging \<Rightarrow> cached_item list \<Rightarrow> (js_error, 's, unit) act" where
  "stageItems port g batch = and_then (assertPending g) (\<lambda>_. writeNewerItems port (stage_items g) batch)"

definition stageVault :: "'s record_port \<Rightarrow> staging \<Rightarrow> cached_vault \<Rightarrow> (js_error, 's, unit) act" where
  "stageVault port g vault = and_then (assertPending g) (\<lambda>_.
     recordPut port (stage_vaults g) (vsId vault) (VaultText vault))"

definition stageVaults :: "'s record_port \<Rightarrow> staging \<Rightarrow> cached_vault list \<Rightarrow> (js_error, 's, unit) act" where
  "stageVaults port g batch = and_then (assertPending g) (\<lambda>_.
     recordPutMany port (stage_vaults g) (js_map_of (vault_records batch)))"

text \<open>
  The reconciliation of promote. An item deleted locally while the bootstrap ran is dropped from
  the stage; an active record that changed since the baseline, or is newer than the staged one,
  is kept over it; a vault deleted locally takes its staged items with it.
\<close>

definition keep_active :: "bucket \<Rightarrow> bucket \<Rightarrow> string \<times> record_value \<Rightarrow> bool" where
  "keep_active baseline staged = (\<lambda>(i, text).
     (case parseItem text of
        None \<Rightarrow> False
      | Some active \<Rightarrow>
          js_get baseline i \<noteq> Some text \<or>
          (case js_get staged i of
             None \<Rightarrow> False
           | Some s \<Rightarrow> (case parseItem s of None \<Rightarrow> False
                        | Some st \<Rightarrow> itemVersion active > itemVersion st))))"

definition gone_since :: "bucket \<Rightarrow> bucket \<Rightarrow> string list" where
  "gone_since baseline current = filter (\<lambda>i. \<not> js_has current i) (map fst baseline)"

definition promoted_state ::
  "'s record_port \<Rightarrow> staging \<Rightarrow> cache_metadata \<Rightarrow> nat \<Rightarrow> cache_state" where
  "promoted_state port g metadata count =
     \<lparr>stateVersion = ITEM_CACHE_STATE_VERSION, itemsPrimed = True, vaultsPrimed = True,
      stateMetadata = Some (metadata\<lparr>itemCount := count\<rparr>),
      activeGeneration = Some (stGeneration g),
      stateNativeView = Some (nativeViewFor port (stAccount g) (Some (stGeneration g)))\<rparr>"

text \<open>Everything before the state is written: answers the number of items published.\<close>

definition reconcile_items ::
  "'s record_port \<Rightarrow> staging \<Rightarrow> string \<Rightarrow> (js_error, 's, bucket) act" where
  "reconcile_items port g previousItems =
     and_then (valuesOf port (stage_item_baseline g)) (\<lambda>baseline.
     and_then (recordList port previousItems) (\<lambda>previous.
     and_then (valuesOf port (stage_items g)) (\<lambda>staged.
     let previousValues = js_map_of previous;
         gone = gone_since baseline previousValues;
         staged' = fold js_delete gone staged;
         kept = filter (keep_active baseline staged') previous
     in and_then (for_each gone (recordDelete port (stage_items g))) (\<lambda>_.
        and_then (recordPutMany port (stage_items g) kept) (\<lambda>_.
        ok (put_many kept staged'))))))"

definition reconcile_vaults ::
  "'s record_port \<Rightarrow> staging \<Rightarrow> string \<Rightarrow> bucket \<Rightarrow> (js_error, 's, nat) act" where
  "reconcile_vaults port g previousVaults staged =
     and_then (valuesOf port (stage_vault_baseline g)) (\<lambda>baseline.
     and_then (recordList port previousVaults) (\<lambda>previous.
     let previousValues = js_map_of previous;
         gone = gone_since baseline previousValues;
         orphans = map fst (filter (\<lambda>(_, text). list_ex (\<lambda>v. in_vault v text) gone) staged);
         kept = filter (\<lambda>(i, text). js_get baseline i \<noteq> Some text) previous
     in and_then (for_each gone (recordDelete port (stage_vaults g))) (\<lambda>_.
        and_then (for_each orphans (recordDelete port (stage_items g))) (\<lambda>_.
        and_then (recordPutMany port (stage_vaults g) kept) (\<lambda>_.
        ok (length (fold js_delete orphans staged)))))))"

text \<open>
  publish runs up to and including the write of the state record and answers the state it
  replaced; what follows clears what can no longer be read. The handle is settled as soon as the
  state is written, whether or not the clearing succeeds.
\<close>

definition publish ::
  "'s record_port \<Rightarrow> staging \<Rightarrow> cache_metadata \<Rightarrow> (js_error, 's, cache_state) act" where
  "publish port g metadata =
     and_then (assertPending g) (\<lambda>_.
     and_then (readState port (stAccount g)) (\<lambda>previous.
     and_then (reconcile_items port g
                 (itemCollectionFor (stAccount g) (activeGeneration previous))) (\<lambda>staged.
     and_then (reconcile_vaults port g
                 (vaultCollectionFor (stAccount g) (activeGeneration previous)) staged) (\<lambda>count.
     and_then (writeState port (stAccount g) (promoted_state port g metadata count)) (\<lambda>_.
     ok previous)))))"

definition sweep :: "'s record_port \<Rightarrow> staging \<Rightarrow> cache_state \<Rightarrow> (js_error, 's, unit) act" where
  "sweep port g previous =
     and_then (if activeGeneration previous \<noteq> None
               then all_each [itemCollectionFor (stAccount g) (activeGeneration previous),
                              vaultCollectionFor (stAccount g) (activeGeneration previous)]
                      (recordClear port)
               else ok ()) (\<lambda>_.
     all_each [stage_item_baseline g, stage_vault_baseline g] (recordClear port))"

definition promote ::
  "'s record_port \<Rightarrow> staging \<Rightarrow> cache_metadata \<Rightarrow> 's \<Rightarrow> ((js_error + unit) \<times> staging) \<times> 's" where
  "promote port g metadata = (\<lambda>s. case publish port g metadata s of
       (Inl e, s') \<Rightarrow> ((Inl e, g), s')
     | (Inr previous, s') \<Rightarrow>
         (case sweep port g previous s' of (r, s'') \<Rightarrow> ((r, g\<lparr>settled := True\<rparr>), s'')))"

definition discard ::
  "'s record_port \<Rightarrow> staging \<Rightarrow> 's \<Rightarrow> ((js_error + unit) \<times> staging) \<times> 's" where
  "discard port g = (\<lambda>s.
     if settled g then ((Inr (), g), s)
     else (case all_each (stage_collections g) (recordClear port) s of
             (r, s') \<Rightarrow> ((r, g\<lparr>settled := True\<rparr>), s')))"

end
