(* ===== verification/ItemCacheSpec.thy ===== *)
theory ItemCacheSpec
  imports ItemCacheProps
begin

text \<open>
  The item cache against its specification on a store whose operations succeed: what every
  operation leaves behind is stated on the view of the store, and for the publication of a staged
  generation it is a three-way merge of the records at the start of the bootstrap, the active
  records and the staged ones.
\<close>

section \<open>Buckets\<close>

definition bucket_ok :: "bucket \<Rightarrow> bool" where
  "bucket_ok b = distinct (map fst b)"

lemma js_get_fold_delete:
  "js_get (fold js_delete ks m) i = (if i \<in> set ks then None else js_get m i)"
  by (induction ks arbitrary: m) auto

lemma bucket_ok_delete: "bucket_ok m \<Longrightarrow> bucket_ok (fold js_delete ks m)"
  by (induction ks arbitrary: m) (auto simp: bucket_ok_def)

lemma bucket_ok_put_many: "bucket_ok m \<Longrightarrow> bucket_ok (put_many rs m)"
  unfolding put_many_def bucket_ok_def by (rule fold_js_set_distinct)

lemma js_get_rev_distinct:
  assumes "distinct (map fst rs)"
  shows "js_get (rev rs) i = js_get rs i"
proof -
  have "distinct (map fst (rev rs))" using assms by (simp add: rev_map [symmetric])
  then show ?thesis
    using assms js_get_Some_iff [of rs i] js_get_Some_iff [of "rev rs" i]
    by (metis not_None_eq set_rev)
qed

lemma js_get_put_many:
  "bucket_ok rs \<Longrightarrow> js_get (put_many rs m) i = (case js_get rs i of None \<Rightarrow> js_get m i | Some v \<Rightarrow> Some v)"
  by (simp add: put_many_def js_get_fold_set js_get_rev_distinct bucket_ok_def)

lemma js_get_filter:
  assumes "bucket_ok b"
  shows "js_get (filter P b) i = (case js_get b i of None \<Rightarrow> None
           | Some v \<Rightarrow> if P (i, v) then Some v else None)"
  using assms unfolding bucket_ok_def
  by (induction b) (auto simp: map_of_eq_None_iff [symmetric] split: option.splits)

lemma bucket_ok_filter: "bucket_ok b \<Longrightarrow> bucket_ok (filter P b)"
  by (auto simp: bucket_ok_def intro: distinct_map_filter)

lemma bucket_ok_map_of: "bucket_ok b \<Longrightarrow> js_map_of b = b"
  unfolding bucket_ok_def by (rule js_map_of_id)

section \<open>The specification of a publication\<close>

text \<open>
  One item after a publication, from what the three buckets and the locally deleted vaults say of
  it: base at the start of the bootstrap, mine active now, theirs staged.
\<close>

definition newer_than :: "record_value \<Rightarrow> record_value option \<Rightarrow> bool" where
  "newer_than active other = (case other of None \<Rightarrow> False
     | Some o' \<Rightarrow> (case (parseItem active, parseItem o') of
         (Some a, Some b) \<Rightarrow> itemVersion a > itemVersion b | _ \<Rightarrow> False))"

definition published_item ::
  "record_value option \<Rightarrow> record_value option \<Rightarrow> record_value option \<Rightarrow> string list \<Rightarrow> record_value option" where
  "published_item base mine theirs goneVaults =
     (let survivor = (case mine of
            None \<Rightarrow> if base = None then theirs else None
          | Some a \<Rightarrow> if parseItem a \<noteq> None \<and> (base \<noteq> Some a \<or> newer_than a theirs)
                     then Some a else theirs)
      in case survivor of None \<Rightarrow> None
         | Some t \<Rightarrow> if list_ex (\<lambda>v. in_vault v t) goneVaults then None else Some t)"

definition merged_items :: "bucket \<Rightarrow> bucket \<Rightarrow> bucket \<Rightarrow> bucket" where
  "merged_items base mine theirs =
     (let S = fold js_delete (gone_since base mine) theirs
      in put_many (filter (keep_active base S) mine) S)"

definition orphaned :: "string list \<Rightarrow> bucket \<Rightarrow> string list" where
  "orphaned gone m = map fst (filter (\<lambda>(_, text). list_ex (\<lambda>v. in_vault v text) gone) m)"

lemma bucket_ok_merged: "bucket_ok theirs \<Longrightarrow> bucket_ok (merged_items base mine theirs)"
  by (simp add: merged_items_def Let_def bucket_ok_put_many bucket_ok_delete)

lemma gone_since_iff: "(i \<in> set (gone_since base mine)) = (js_get base i \<noteq> None \<and> js_get mine i = None)"
  by (auto simp: gone_since_def js_has_def map_of_eq_None_iff image_iff)

lemma merged_items_get:
  assumes "bucket_ok mine" and "bucket_ok theirs"
  shows "js_get (merged_items base mine theirs) i =
     (case js_get mine i of
        None \<Rightarrow> if js_get base i = None then js_get theirs i else None
      | Some a \<Rightarrow> if parseItem a \<noteq> None \<and> (js_get base i \<noteq> Some a \<or> newer_than a (js_get theirs i))
                 then Some a else js_get theirs i)"
  by (auto simp: merged_items_def Let_def js_get_put_many bucket_ok_filter assms js_get_filter
      js_get_fold_delete gone_since_iff keep_active_def newer_than_def split: option.splits)

lemma orphaned_iff:
  assumes "bucket_ok m"
  shows "(i \<in> set (orphaned gone m)) =
     (\<exists>t. js_get m i = Some t \<and> list_ex (\<lambda>v. in_vault v t) gone)"
  using assms js_get_Some_iff [of m i]
  by (force simp: orphaned_def bucket_ok_def)

lemma published_item_get:
  assumes "bucket_ok mine" and "bucket_ok theirs"
  shows "js_get (fold js_delete (orphaned gone (merged_items base mine theirs))
                   (merged_items base mine theirs)) i =
         published_item (js_get base i) (js_get mine i) (js_get theirs i) gone"
  using orphaned_iff [OF bucket_ok_merged [OF assms(2)], of i gone base mine]
  by (auto simp: js_get_fold_delete merged_items_get assms published_item_def Let_def split: option.splits)

section \<open>A store whose operations succeed\<close>

locale total_store = readable_store +
  assumes puts: "fst (recordPut port c i x s) = Inr ()"
    and put_manys: "fst (recordPutMany port c rs s) = Inr ()"
    and deletes: "fst (recordDelete port c i s) = Inr ()"
    and clears: "fst (recordClear port c s) = Inr ()"
begin

text \<open>runs m V a W: from every state with the view V, m returns a and leaves the view W.\<close>

definition "runs m V a W \<longleftrightarrow> (\<forall>s. view s = V \<longrightarrow> (\<exists>s'. m s = (Inr a, s') \<and> view s' = W))"

lemma runsD: "runs m (view s) a W \<Longrightarrow> \<exists>s'. m s = (Inr a, s') \<and> view s' = W"
  by (simp add: runs_def)

lemma runs_ok: "runs (ok a) V a V"
  by (simp add: runs_def ok_def)

lemma runs_and_then: "runs m V a W \<Longrightarrow> runs (f a) W b X \<Longrightarrow> runs (and_then m f) V b X"
  by (fastforce simp: runs_def and_then_def)

lemma runs_to: "runs m V a W \<Longrightarrow> W = W' \<Longrightarrow> runs m V a W'"
  by simp

lemma runs_get: "runs (recordGet port c i) V (js_get (V c) i) V"
  by (auto simp: runs_def get_returns)

lemma runs_list: "runs (recordList port c) V (V c) V"
  by (auto simp: runs_def list_returns)

lemma runs_put: "runs (recordPut port c i x) V () (V(c := js_set i x (V c)))"
  unfolding runs_def using puts put_ok by (metis prod.collapse)

lemma runs_put_many: "runs (recordPutMany port c rs) V () (V(c := put_many rs (V c)))"
  unfolding runs_def using put_manys put_many_ok by (metis prod.collapse)

lemma runs_delete: "runs (recordDelete port c i) V () (V(c := js_delete i (V c)))"
  unfolding runs_def using deletes delete_ok by (metis prod.collapse)

lemma runs_clear: "runs (recordClear port c) V () (V(c := []))"
  unfolding runs_def using clears clear_ok by (metis prod.collapse)

lemma runs_readState: "runs (readState port acc) V (visible_state port V acc) V"
  by (auto simp: runs_def readState_returns)

lemma runs_valuesOf: "runs (valuesOf port c) V (js_map_of (V c)) V"
  unfolding valuesOf_def by (rule runs_and_then [OF runs_list runs_ok])

lemma runs_for_delete:
  "runs (for_each is (recordDelete port c)) V () (V(c := fold js_delete is (V c)))"
proof (induction "is" arbitrary: V)
  case (Cons i "is")
  show ?case
    unfolding for_each.simps
    by (rule runs_to [OF runs_and_then [OF runs_delete Cons]]) auto
qed (simp add: runs_ok)

lemma runs_all_clear:
  "runs (all_each cs (recordClear port)) V () (\<lambda>d. if d \<in> set cs then [] else V d)"
proof (induction cs arbitrary: V)
  case (Cons c cs)
  show ?case
    unfolding runs_def
  proof (intro allI impI)
    fix s assume "view s = V"
    then obtain s1 where 1: "recordClear port c s = (Inr (), s1)" and v1: "view s1 = V(c := [])"
      using runs_clear [of c V] by (auto simp: runs_def)
    obtain s2 where 2: "all_each cs (recordClear port) s1 = (Inr (), s2)"
      and v2: "view s2 = (\<lambda>d. if d \<in> set cs then [] else (V(c := [])) d)"
      using Cons [of "V(c := [])"] v1 unfolding runs_def by blast
    show "\<exists>s'. all_each (c # cs) (recordClear port) s = (Inr (), s') \<and>
        view s' = (\<lambda>d. if d \<in> set (c # cs) then [] else V d)"
      using 1 2 v2 by (auto simp: fun_eq_iff)
  qed
qed (simp add: runs_ok)

lemma runs_writeNewerItem:
  "runs (writeNewerItem port c i) V (\<not> storedIsNewer (js_get (V c) (itemId i)) i)
     (if storedIsNewer (js_get (V c) (itemId i)) i then V
      else V(c := js_set (itemId i) (ItemText i) (V c)))"
  unfolding writeNewerItem_def
  by (rule runs_and_then [OF runs_get]) (auto intro: runs_ok runs_and_then [OF runs_put runs_ok])

lemma runs_upsert:
  "runs (upsertCachedItem port i acc) V
     (\<not> storedIsNewer (js_get (visible_items port V acc) (itemId i)) i)
     (if storedIsNewer (js_get (visible_items port V acc) (itemId i)) i then V
      else V(itemCollectionFor acc (activeGeneration (visible_state port V acc)) :=
             js_set (itemId i) (ItemText i) (visible_items port V acc)))"
  unfolding upsertCachedItem_def visible_items_def
  by (rule runs_and_then [OF runs_readState runs_writeNewerItem])

lemma runs_replace:
  "runs (replaceCollection port c rs) V () (V(c := put_many rs []))"
  unfolding replaceCollection_def
  by (rule runs_to [OF runs_and_then [OF runs_clear runs_put_many]]) auto

lemma runs_reconcile_items:
  assumes "bucket_ok (V (stage_items g))" and "bucket_ok (V c)" and "bucket_ok (V (stage_item_baseline g))"
    and "c \<noteq> stage_items g"
  defines "M \<equiv> merged_items (V (stage_item_baseline g)) (V c) (V (stage_items g))"
  shows "runs (reconcile_items port g c) V M (V(stage_items g := M))"
proof -
  let ?gone = "gone_since (V (stage_item_baseline g)) (V c)"
  let ?S = "fold js_delete ?gone (V (stage_items g))"
  let ?kept = "filter (keep_active (V (stage_item_baseline g)) ?S) (V c)"
  have M: "M = put_many ?kept ?S" by (simp add: M_def merged_items_def Let_def)
  have 2: "runs (recordPutMany port (stage_items g) ?kept) (V(stage_items g := ?S)) () (V(stage_items g := M))"
    using runs_put_many [of "stage_items g" ?kept "V(stage_items g := ?S)"] by (simp add: M)
  have tail: "runs (and_then (for_each ?gone (recordDelete port (stage_items g))) (\<lambda>_.
        and_then (recordPutMany port (stage_items g) ?kept) (\<lambda>_. ok M))) V M (V(stage_items g := M))"
    by (rule runs_and_then [OF runs_for_delete runs_and_then [OF 2 runs_ok]])
  show ?thesis
    unfolding reconcile_items_def Let_def
    by (rule runs_and_then [OF runs_valuesOf], rule runs_and_then [OF runs_list],
        rule runs_and_then [OF runs_valuesOf])
       (use tail in \<open>simp add: bucket_ok_map_of assms(1-3) M [symmetric]\<close>)
qed

lemma runs_reconcile_vaults:
  assumes "bucket_ok (V c)" and "bucket_ok (V (stage_vault_baseline g))" and "c \<noteq> stage_vaults g"
    and "V (stage_items g) = M"
  defines "gone \<equiv> gone_since (V (stage_vault_baseline g)) (V c)"
  defines "N \<equiv> put_many (filter (\<lambda>(i, text). js_get (V (stage_vault_baseline g)) i \<noteq> Some text) (V c))
              (fold js_delete gone (V (stage_vaults g)))"
  shows "runs (reconcile_vaults port g c M) V (length (fold js_delete (orphaned gone M) M))
     (V(stage_vaults g := N, stage_items g := fold js_delete (orphaned gone M) M))"
proof -
  let ?kept = "filter (\<lambda>(i, text). js_get (V (stage_vault_baseline g)) i \<noteq> Some text) (V c)"
  let ?S = "fold js_delete gone (V (stage_vaults g))"
  let ?O = "fold js_delete (orphaned gone M) M"
  let ?V1 = "V(stage_vaults g := ?S)"
  let ?V2 = "?V1(stage_items g := ?O)"
  have 2: "runs (for_each (orphaned gone M) (recordDelete port (stage_items g))) ?V1 () ?V2"
    using runs_for_delete [of "orphaned gone M" "stage_items g" ?V1] assms(4) by simp
  have 3: "runs (recordPutMany port (stage_vaults g) ?kept) ?V2 ()
      (V(stage_vaults g := N, stage_items g := ?O))"
    by (rule runs_to [OF runs_put_many]) (auto simp: N_def fun_eq_iff stage_names [THEN not_sym])
  have tail: "runs (and_then (for_each gone (recordDelete port (stage_vaults g))) (\<lambda>_.
        and_then (for_each (orphaned gone M) (recordDelete port (stage_items g))) (\<lambda>_.
        and_then (recordPutMany port (stage_vaults g) ?kept) (\<lambda>_. ok (length ?O))))) V (length ?O)
      (V(stage_vaults g := N, stage_items g := ?O))"
    by (rule runs_and_then [OF runs_for_delete runs_and_then [OF 2 runs_and_then [OF 3 runs_ok]]])
  show ?thesis
    unfolding reconcile_vaults_def Let_def
    by (rule runs_and_then [OF runs_valuesOf], rule runs_and_then [OF runs_list])
       (use tail in \<open>simp add: bucket_ok_map_of assms(1,2) gone_def [symmetric] orphaned_def [symmetric]\<close>)
qed

lemma runs_sweep:
  "\<exists>W. runs (sweep port g p) V () W \<and>
     (\<forall>d. d \<notin> {itemCollectionFor (stAccount g) (activeGeneration p),
               vaultCollectionFor (stAccount g) (activeGeneration p),
               stage_item_baseline g, stage_vault_baseline g} \<longrightarrow> W d = V d)"
proof (cases "activeGeneration p = None")
  case True
  show ?thesis
    unfolding sweep_def
    by (rule exI, rule conjI, rule runs_and_then, simp add: True, rule runs_ok, rule runs_all_clear) auto
next
  case False
  show ?thesis
    unfolding sweep_def
    by (rule exI, rule conjI, rule runs_and_then, simp add: False del: all_each.simps,
        rule runs_all_clear, rule runs_all_clear) auto
qed

text \<open>Publishing, end to end.\<close>

lemma promote_publishes:
  fixes s :: 'a and g :: staging
  defines "acc \<equiv> stAccount g" and "V \<equiv> view s"
  defines "gone \<equiv> gone_since (V (stage_vault_baseline g)) (visible_vaults port V acc)"
  defines "I \<equiv> merged_items (V (stage_item_baseline g)) (visible_items port V acc) (V (stage_items g))"
  assumes un: "unpublished port V g" and pend: "\<not> settled g" and gen: "stGeneration g \<noteq> []"
    and ok: "\<And>c. bucket_ok (V c)"
  obtains s' where "promote port g md s = ((Inr (), g\<lparr>settled := True\<rparr>), s')"
    and "visible_items port (view s') acc = fold js_delete (orphaned gone I) I"
    and "stateMetadata (visible_state port (view s') acc) =
           Some (md\<lparr>itemCount := length (visible_items port (view s') acc)\<rparr>)"
    and "itemsPrimed (visible_state port (view s') acc)"
proof -
  let ?p = "visible_state port V acc"
  let ?ci = "itemCollectionFor acc (activeGeneration ?p)"
  let ?cv = "vaultCollectionFor acc (activeGeneration ?p)"
  let ?O = "fold js_delete (orphaned gone I) I"
  let ?V1 = "V(stage_items g := I)"
  let ?st = "promoted_state port g md (length ?O)"
  have unread: "c \<notin> {metaCollection acc, ?ci, ?cv}"
    if "c \<in> {stage_items g, stage_vaults g, stage_item_baseline g, stage_vault_baseline g}" for c
    using stage_unread [OF un that] by (simp add: read_set_def acc_def)
  note neq = unread [of "stage_items g"] unread [of "stage_vaults g"]
    unread [of "stage_item_baseline g"] unread [of "stage_vault_baseline g"]
  have 1: "runs (reconcile_items port g ?ci) V I ?V1"
    unfolding I_def visible_items_def using neq by (intro runs_reconcile_items ok) auto
  define N where "N = put_many (filter (\<lambda>(i, text). js_get (?V1 (stage_vault_baseline g)) i \<noteq> Some text) (?V1 ?cv))
              (fold js_delete (gone_since (?V1 (stage_vault_baseline g)) (?V1 ?cv)) (?V1 (stage_vaults g)))"
  let ?V2 = "V(stage_vaults g := N, stage_items g := ?O)"
  have cv: "?V1 ?cv = visible_vaults port V acc" using neq by (auto simp: visible_vaults_def)
  have bv: "?V1 (stage_vault_baseline g) = V (stage_vault_baseline g)"
    by (simp add: stage_names [THEN not_sym])
  have "runs (reconcile_vaults port g ?cv I) ?V1 (length ?O) (?V1(stage_vaults g := N, stage_items g := ?O))"
    using runs_reconcile_vaults [of ?V1 ?cv g I] cv bv ok neq
    by (auto simp: gone_def N_def visible_vaults_def)
  then have 2: "runs (reconcile_vaults port g ?cv I) ?V1 (length ?O) ?V2"
    by (rule runs_to) (auto simp: fun_eq_iff)
  let ?V3 = "?V2(metaCollection acc := js_set META_RECORD_ID (StateText ?st) (?V2 (metaCollection acc)))"
  have 3: "runs (writeState port acc ?st) ?V2 () ?V3" unfolding writeState_def by (rule runs_put)
  have "runs (publish port g md) V ?p ?V3"
    unfolding publish_def assertPending_def acc_def [symmetric]
    by (rule runs_and_then, simp add: pend, rule runs_ok, rule runs_and_then [OF runs_readState],
        rule runs_and_then [OF 1], rule runs_and_then [OF 2], rule runs_and_then [OF 3 runs_ok])
  then obtain s1 where p: "publish port g md s = (Inr ?p, s1)" and v1: "view s1 = ?V3"
    using runsD [of "publish port g md" s] by (auto simp: V_def)
  obtain W where sw: "runs (sweep port g ?p) ?V3 () W"
    and W: "\<And>d. d \<notin> {?ci, ?cv, stage_item_baseline g, stage_vault_baseline g} \<Longrightarrow> W d = ?V3 d"
    using runs_sweep [of g ?p ?V3] unfolding acc_def by blast
  obtain s' where sw': "sweep port g ?p s1 = (Inr (), s')" and v': "view s' = W"
    using runsD [of "sweep port g ?p" s1] sw v1 by auto
  have plain: "plain_id acc" using un by (simp add: unpublished_def acc_def)
  have "W (metaCollection acc) = ?V3 (metaCollection acc)"
    using meta_unswept [OF plain] by (intro W) (auto simp: stage_item_baseline_def stage_vault_baseline_def acc_def)
  then have meta: "js_get (view s' (metaCollection acc)) META_RECORD_ID = Some (StateText ?st)"
    by (simp add: v')
  have st: "visible_state port (view s') acc = ?st"
    unfolding visible_state_def meta
    by (simp add: decode_state_def promoted_state_def Let_def nativeViewFor_def acc_def)
  have "W (stage_items g) = ?V3 (stage_items g)"
    using neq by (intro W) (auto simp: stage_names [THEN not_sym])
  moreover have "stage_items g \<noteq> metaCollection acc" using neq by auto
  moreover have "itemCollectionFor acc (Some (stGeneration g)) = stage_items g"
    by (simp add: itemCollectionFor_def gen stage_items_def acc_def)
  ultimately have items: "visible_items port (view s') acc = ?O"
    unfolding visible_items_def st by (simp add: promoted_state_def v')
  show thesis
  proof (rule that)
    show "promote port g md s = ((Inr (), g\<lparr>settled := True\<rparr>), s')"
      using p sw' by (simp add: promote_def)
    show "visible_items port (view s') acc = ?O" by (rule items)
    show "stateMetadata (visible_state port (view s') acc) =
        Some (md\<lparr>itemCount := length (visible_items port (view s') acc)\<rparr>)"
      by (simp add: items) (simp add: st promoted_state_def)
    show "itemsPrimed (visible_state port (view s') acc)" by (simp add: st promoted_state_def)
  qed
qed

section \<open>The other operations\<close>

lemma state_elsewhere:
  assumes "c \<noteq> metaCollection acc"
  shows "visible_state port (V(c := b)) acc = visible_state port V acc"
  using assms by (auto simp: visible_state_def)

lemma active_not_meta:
  assumes "plain_id acc"
  shows "itemCollectionFor acc a \<noteq> metaCollection acc" "vaultCollectionFor acc a \<noteq> metaCollection acc"
  using meta_unswept [OF assms] by metis+

lemma items_vaults_apart:
  assumes "plain_id acc"
  shows "itemCollectionFor acc a \<noteq> vaultCollectionFor acc a"
  using stage_not_plain [OF assms] 
  by (auto simp: itemCollectionFor_def vaultCollectionFor_def collection_defs split: option.splits if_splits)

lemma upsert_effect:
  assumes "plain_id acc" and "upsertCachedItem port i acc s = (r, s')"
  shows "r = Inr (\<not> storedIsNewer (js_get (visible_items port (view s) acc) (itemId i)) i) \<and>
         js_get (visible_items port (view s') acc) x =
           (if x = itemId i \<and> \<not> storedIsNewer (js_get (visible_items port (view s) acc) (itemId i)) i
            then Some (ItemText i) else js_get (visible_items port (view s) acc) x)"
proof -
  let ?c = "itemCollectionFor acc (activeGeneration (visible_state port (view s) acc))"
  obtain s2 where "upsertCachedItem port i acc s =
        (Inr (\<not> storedIsNewer (js_get (visible_items port (view s) acc) (itemId i)) i), s2)"
    and "view s2 = (if storedIsNewer (js_get (visible_items port (view s) acc) (itemId i)) i then view s
      else (view s)(?c := js_set (itemId i) (ItemText i) (visible_items port (view s) acc)))"
    using runsD [OF runs_upsert] by blast
  then show ?thesis
    using assms state_elsewhere [OF active_not_meta(1) [OF assms(1)]]
    by (auto simp: visible_items_def)
qed

lemma runs_prime_items:
  "\<exists>W. runs (prime_items port acc) V () W \<and> itemsPrimed (visible_state port W acc) \<and>
     activeGeneration (visible_state port W acc) = activeGeneration (visible_state port V acc) \<and>
     (\<forall>d. d \<noteq> metaCollection acc \<longrightarrow> W d = V d)"
proof (cases "itemsPrimed (visible_state port V acc)")
  case True
  then show ?thesis
    unfolding prime_items_def
    by (intro exI [of _ V] conjI runs_and_then [OF runs_readState]) (simp_all add: runs_ok)
next
  case False
  let ?st = "(visible_state port V acc)\<lparr>itemsPrimed := True\<rparr>"
  let ?W = "V(metaCollection acc := js_set META_RECORD_ID (StateText ?st) (V (metaCollection acc)))"
  have r: "runs (prime_items port acc) V () ?W"
    unfolding prime_items_def
    by (rule runs_and_then [OF runs_readState]) (simp add: False writeState_def runs_put)
  have "stateVersion (visible_state port V acc) = ITEM_CACHE_STATE_VERSION \<and>
      stateNativeView (visible_state port V acc) =
        Some (nativeViewFor port acc (activeGeneration (visible_state port V acc)))"
    by (auto simp: visible_state_def decode_state_def coldState_def Let_def split: option.splits)
  then have "visible_state port ?W acc = ?st"
    unfolding visible_state_def [of port ?W]
    by (simp add: decode_state_def Let_def nativeViewFor_def)
  with r show ?thesis by (intro exI [of _ ?W]) simp
qed

lemma put_many_item_records:
  "distinct (map itemId items) \<Longrightarrow> put_many (item_records items) [] = item_records items"
  using fold_js_set_append [of "[]" "item_records items"]
  by (simp add: put_many_def item_records_def comp_def)

lemma parse_item_records: "parse_records parseItem (item_records items) = items"
  by (induction items) (simp_all add: parse_records_def item_records_def List.map_filter_simps)

lemma set_then_get:
  assumes "plain_id acc" and "distinct (map itemId items)"
  obtains s' where "setCachedItems port items acc s = (Inr (), s')"
    and "getCachedItems port acc s' = (Inr (Some items), s')"
proof -
  let ?c = "itemCollectionFor acc (activeGeneration (visible_state port (view s) acc))"
  let ?W = "(view s)(?c := item_records items)"
  have 1: "runs (replaceCollection port ?c (item_records items)) (view s) () ?W"
    using runs_replace [of ?c "item_records items"] put_many_item_records [OF assms(2)] by simp
  obtain X where 2: "runs (prime_items port acc) ?W () X" and p: "itemsPrimed (visible_state port X acc)"
    and a: "activeGeneration (visible_state port X acc) = activeGeneration (visible_state port ?W acc)"
    and X: "\<And>d. d \<noteq> metaCollection acc \<Longrightarrow> X d = ?W d"
    using runs_prime_items by blast
  have R: "runs (setCachedItems port items acc) (view s) () X"
    unfolding setCachedItems_def
    by (rule runs_and_then [OF runs_readState], rule runs_and_then [OF 1 2])
  obtain s' where s': "setCachedItems port items acc s = (Inr (), s')" and v: "view s' = X"
    using runsD [OF R] by blast
  have "activeGeneration (visible_state port X acc) = activeGeneration (visible_state port (view s) acc)"
    using a state_elsewhere [OF active_not_meta(1) [OF assms(1)]] by simp
  then have "visible_items port X acc = item_records items"
    using X [OF active_not_meta(1) [OF assms(1)]] by (simp add: visible_items_def)
  then have "items_answer port X acc = Some items"
    using p parse_item_records [of items] by (auto simp: items_answer_def item_records_def)
  with s' v show thesis using that by (simp add: items_read)
qed

lemma clear_then_get:
  obtains s' where "clearItemCache port acc s = (Inr (), s')"
    and "getCachedItems port acc s' = (Inr None, s')" and "getCachedVaults port acc s' = (Inr None, s')"
proof -
  let ?cs = "[itemsCollection acc, vaultsCollection acc,
     itemCollectionFor acc (activeGeneration (visible_state port (view s) acc)),
     vaultCollectionFor acc (activeGeneration (visible_state port (view s) acc)), metaCollection acc]"
  have R: "runs (clearItemCache port acc) (view s) () (\<lambda>d. if d \<in> set ?cs then [] else view s d)"
    unfolding clearItemCache_def by (rule runs_and_then [OF runs_readState], rule runs_all_clear)
  obtain s' where s': "clearItemCache port acc s = (Inr (), s')"
    and v: "view s' = (\<lambda>d. if d \<in> set ?cs then [] else view s d)"
    using runsD [OF R] by (elim exE conjE)
  have st: "visible_state port (view s') acc = coldState port acc"
    by (simp add: visible_state_def v decode_state_def)
  have "items_answer port (view s') acc = None" "vaults_answer port (view s') acc = None"
    by (simp_all add: items_answer_def vaults_answer_def visible_items_def visible_vaults_def st)
       (simp_all add: coldState_def itemCollectionFor_def vaultCollectionFor_def v)
  with s' show thesis using that by (simp add: items_read vaults_read)
qed

lemma runs_cascade:
  "runs (for_each rs (\<lambda>(i, text). if P text then recordDelete port c i else ok ())) V ()
     (V(c := fold js_delete (map fst (filter (\<lambda>(i, text). P text) rs)) (V c)))"
proof (induction rs arbitrary: V)
  case (Cons r rs)
  obtain i t where r: "r = (i, t)" by (cases r)
  show ?case
  proof (cases "P t")
    case True
    show ?thesis
      unfolding for_each.simps r
      by (rule runs_to, rule runs_and_then, simp add: True, rule runs_delete, rule Cons)
         (simp add: True fun_eq_iff)
  next
    case False
    show ?thesis
      unfolding for_each.simps r
      by (rule runs_to, rule runs_and_then, simp add: False, rule runs_ok, rule Cons)
         (simp add: False)
  qed
qed (simp add: runs_ok)

lemma remove_vault_effect:
  assumes "plain_id acc" and "bucket_ok (visible_items port (view s) acc)"
    and "removeCachedVault port v acc s = (r, s')"
  shows "r = Inr () \<and> js_get (visible_vaults port (view s') acc) v = None \<and>
     js_get (visible_items port (view s') acc) x =
       (case js_get (visible_items port (view s) acc) x of
          None \<Rightarrow> None | Some t \<Rightarrow> if in_vault v t then None else Some t)"
proof -
  let ?st = "visible_state port (view s) acc"
  let ?ci = "itemCollectionFor acc (activeGeneration ?st)"
  let ?cv = "vaultCollectionFor acc (activeGeneration ?st)"
  let ?W = "(view s)(?cv := js_delete v (view s ?cv))"
  let ?rs = "?W ?ci"
  have R: "runs (removeCachedVault port v acc) (view s) ()
      (?W(?ci := fold js_delete (map fst (filter (\<lambda>(i, text). in_vault v text) ?rs)) (?W ?ci)))"
    unfolding removeCachedVault_def Let_def
    by (rule runs_and_then [OF runs_readState], rule runs_and_then [OF runs_delete],
        rule runs_and_then [OF runs_list], rule runs_cascade)
  obtain s2 where s2: "removeCachedVault port v acc s = (Inr (), s2)"
    and v2: "view s2 = ?W(?ci := fold js_delete (map fst (filter (\<lambda>(i, text). in_vault v text) ?rs)) (?W ?ci))"
    using runsD [OF R] by (elim exE conjE)
  have ap: "?ci \<noteq> ?cv" by (rule items_vaults_apart [OF assms(1)])
  have st: "visible_state port (view s2) acc = ?st"
    unfolding v2 using active_not_meta [OF assms(1)] by (simp add: state_elsewhere)
  have rs: "?rs = visible_items port (view s) acc" using ap by (simp add: visible_items_def)
  have mem: "(x \<in> fst ` {e \<in> set (visible_items port (view s) acc). case e of (i, t) \<Rightarrow> in_vault v t}) =
      (\<exists>t. js_get (visible_items port (view s) acc) x = Some t \<and> in_vault v t)"
    using assms(2) js_get_Some_iff [of "visible_items port (view s) acc" x]
    by (force simp: bucket_ok_def)
  have vi: "visible_items port (view s2) acc = fold js_delete
      (map fst (filter (\<lambda>(i, text). in_vault v text) (visible_items port (view s) acc)))
      (visible_items port (view s) acc)"
    unfolding visible_items_def [of port "view s2"] st by (simp only: v2 fun_upd_same rs)
  have "js_get (visible_items port (view s2) acc) x =
       (case js_get (visible_items port (view s) acc) x of
          None \<Rightarrow> None | Some t \<Rightarrow> if in_vault v t then None else Some t)"
    using mem by (auto simp: vi js_get_fold_delete split: option.splits)
  moreover have "js_get (visible_vaults port (view s2) acc) v = None"
  proof -
    have "view s2 ?cv = js_delete v (view s ?cv)" unfolding v2 using ap by simp
    then show ?thesis unfolding visible_vaults_def [of port "view s2"] st by simp
  qed
  ultimately show ?thesis using s2 assms(3) by simp
qed

end

interpretation memory: total_store "createInMemoryRecordPort prefix" bucketFor for prefix
  by unfold_locales (simp_all add: createInMemoryRecordPort_def)

section \<open>A batch is its items one by one\<close>

definition write_one :: "cached_item \<Rightarrow> bucket \<Rightarrow> bucket" where
  "write_one i b = (if storedIsNewer (js_get b (itemId i)) i then b
                    else js_set (itemId i) (ItemText i) b)"

definition overlay :: "bucket \<Rightarrow> bucket \<Rightarrow> string \<Rightarrow> record_value option" where
  "overlay accepted stored x = (case js_get accepted x of None \<Rightarrow> js_get stored x | Some v \<Rightarrow> Some v)"

lemma accept_overlay:
  "overlay (accept_item stored i accepted) stored x =
     (if x = itemId i \<and> \<not> storedIsNewer (overlay accepted stored (itemId i)) i then Some (ItemText i)
      else overlay accepted stored x)"
  by (auto simp: accept_item_def overlay_def Let_def split: option.splits)

lemma accept_ok: "bucket_ok accepted \<Longrightarrow> bucket_ok (accept_item stored i accepted)"
  by (auto simp: accept_item_def bucket_ok_def Let_def)

lemma batch_overlay:
  assumes "js_get b = overlay accepted stored"
  shows "js_get (fold write_one is b) = overlay (fold (accept_item stored) is accepted) stored"
  using assms
proof (induction "is" arbitrary: b accepted)
  case (Cons i "is")
  have "js_get (write_one i b) = overlay (accept_item stored i accepted) stored"
    by (rule ext) (simp add: accept_overlay write_one_def Cons.prems)
  then show ?case using Cons.IH by simp
qed simp

lemma fold_accept_ok: "bucket_ok accepted \<Longrightarrow> bucket_ok (fold (accept_item stored) is accepted)"
  by (induction "is" arbitrary: accepted) (auto intro: accept_ok)

end
