(* ===== verification/DeltaSync.thy ===== *)
theory DeltaSync
  imports CatchUp ItemCacheSpec
begin

text \<open>
  The delta fetch of packages/sync/src/delta-sync.ts: what one sync event makes the client fetch
  and write to its replica. The replica is the record replica_port (SyncReplicaStore of
  packages/sync/src/types.ts); what sync relies on of its item operations is the locale
  sync_replica, interpreted on the item cache over the in-memory record port. The server is the
  record delta_api; a server that answers from one snapshot of its items is what convergence is
  stated against.
\<close>

section \<open>Ports\<close>

record 's replica_port =
  rpUpsertItem :: "cached_item \<Rightarrow> string \<Rightarrow> (js_error, 's, unit) act"
  rpRemoveItem :: "string \<Rightarrow> string \<Rightarrow> (js_error, 's, unit) act"
  rpUpsertVault :: "cached_vault \<Rightarrow> string \<Rightarrow> (js_error, 's, unit) act"
  rpRemoveVault :: "string \<Rightarrow> string \<Rightarrow> (js_error, 's, unit) act"
  rpClear :: "string \<Rightarrow> (js_error, 's, unit) act"
  rpSyncVaultKeys :: "vault_key_entry list \<Rightarrow> string \<Rightarrow> (js_error, 's, unit) act"
  rpReplaceItemId :: "string \<Rightarrow> string \<Rightarrow> string \<Rightarrow> 's \<Rightarrow> 's"

record 's delta_api =
  daItemGet :: "string \<Rightarrow> (js_error, 's, server_item) act"
  daListInVault :: "string \<Rightarrow> (js_error, 's, server_item list) act"
  daVaultsList :: "(js_error, 's, wire_vault list) act"
  daVaultGet :: "string \<Rightarrow> (js_error, 's, wire_vault) act"

section \<open>One event\<close>

definition is_bulk_import :: "sync_event \<Rightarrow> bool" where
  "is_bulk_import e = (evType e = VaultUpdated \<and> evReason e = Some ''bulk_import'')"

definition refreshes_keys :: "sync_event \<Rightarrow> bool" where
  "refreshes_keys e =
     (evType e = VaultCreated \<or> evType e = VaultDeleted \<or> evType e = VaultAccessRevoked \<or>
      evType e = VaultMemberAdded \<or> evType e = VaultMemberRemoved \<or> is_bulk_import e \<or>
      evType e = VaultKeyRotated)"

definition reconcileCurrentItem ::
  "'s delta_api \<Rightarrow> 's replica_port \<Rightarrow> string \<Rightarrow> item_scope \<Rightarrow> string \<Rightarrow> (js_error, 's, unit) act" where
  "reconcileCurrentItem api cache acc scope item = catch
     (and_then (daItemGet api item) (\<lambda>x. rpUpsertItem cache (toCachedItem x scope) acc))
     (\<lambda>error. if \<not> isApiErrorStatus error 404 then throw error else rpRemoveItem cache item acc)"

definition syncVaultKeysFromServer ::
  "'s delta_api \<Rightarrow> 's replica_port \<Rightarrow> string \<Rightarrow> (js_error, 's, unit) act" where
  "syncVaultKeysFromServer api cache acc =
     and_then (daVaultsList api) (\<lambda>vaults.
       rpSyncVaultKeys cache (map (\<lambda>v. toVaultKeyEntry (normalizeVaultListEntry v)) vaults) acc)"

text \<open>Every item of a vault is listed and written, for a bulk import and for a changed key set.\<close>

definition refreshVaultItems ::
  "'s delta_api \<Rightarrow> 's replica_port \<Rightarrow> string \<Rightarrow> item_scope \<Rightarrow> sync_event \<Rightarrow> (js_error, 's, unit) act" where
  "refreshVaultItems api cache acc scope e =
     and_then (daListInVault api (coalesce (evVaultId e) (evEntityId e))) (\<lambda>items.
       for_each items (\<lambda>i. rpUpsertItem cache (toCachedItem i scope) acc))"

definition refreshVault ::
  "'s delta_api \<Rightarrow> 's replica_port \<Rightarrow> string \<Rightarrow> item_scope \<Rightarrow> sync_event \<Rightarrow> (js_error, 's, unit) act" where
  "refreshVault api cache acc scope e =
     and_then (daVaultGet api (evEntityId e)) (\<lambda>raw.
       rpUpsertVault cache (with_scope (toCachedVaultFields (normalizeVaultSummary raw)) scope) acc)"

definition delta_action ::
  "'s delta_api \<Rightarrow> 's replica_port \<Rightarrow> string \<Rightarrow> item_scope \<Rightarrow> sync_event \<Rightarrow> (js_error, 's, unit) act" where
  "delta_action api cache acc scope e = (case evType e of
       ItemCreated \<Rightarrow> reconcileCurrentItem api cache acc scope (evEntityId e)
     | ItemUpdated \<Rightarrow> reconcileCurrentItem api cache acc scope (evEntityId e)
     | ItemRestored \<Rightarrow> reconcileCurrentItem api cache acc scope (evEntityId e)
     | ItemMoved \<Rightarrow> reconcileCurrentItem api cache acc scope (evEntityId e)
     | ItemDeleted \<Rightarrow> reconcileCurrentItem api cache acc scope (evEntityId e)
     | ItemPermanentlyDeleted \<Rightarrow> rpRemoveItem cache (evEntityId e) acc
     | VaultCreated \<Rightarrow> refreshVault api cache acc scope e
     | VaultUpdated \<Rightarrow>
         and_then (if is_bulk_import e then refreshVaultItems api cache acc scope e else ok ())
           (\<lambda>_. refreshVault api cache acc scope e)
     | VaultDeleted \<Rightarrow> rpRemoveVault cache (evEntityId e) acc
     | VaultMemberAdded \<Rightarrow> refreshVaultItems api cache acc scope e
     | VaultKeyRotated \<Rightarrow> refreshVaultItems api cache acc scope e
     | VaultAccessRevoked \<Rightarrow> rpRemoveVault cache (evEntityId e) acc
     | VaultMemberRemoved \<Rightarrow> ok ()
     | TravelModeUpdated \<Rightarrow> ok ())"

definition performDeltaSync ::
  "'s delta_api \<Rightarrow> 's replica_port \<Rightarrow> sync_event \<Rightarrow> string \<Rightarrow> string option \<Rightarrow> string option \<Rightarrow>
   (js_error, 's, unit) act" where
  "performDeltaSync api cache e accountScope serverUrl email =
     (if evType e = TravelModeUpdated then ok ()
      else let scope = \<lparr>scopeAccountId = Some accountScope, scopeAccountEmail = email,
                        scopeServerUrl = serverUrl\<rparr>
           in and_then (if refreshes_keys e then syncVaultKeysFromServer api cache accountScope
                        else ok ())
                (\<lambda>_. delta_action api cache accountScope scope e))"

section \<open>A server that answers from a snapshot\<close>

record server_snapshot =
  srvItem :: "string \<Rightarrow> server_item option"
  srvInVault :: "string \<Rightarrow> server_item list"
  srvVaults :: "wire_vault list"
  srvVault :: "string \<Rightarrow> wire_vault option"

definition or_404 :: "'a option \<Rightarrow> (js_error, 's, 'a) act" where
  "or_404 x = (case x of None \<Rightarrow> throw (ApiError 404 ''not found'') | Some v \<Rightarrow> ok v)"

definition snapshot_api :: "server_snapshot \<Rightarrow> 's delta_api" where
  "snapshot_api srv =
     \<lparr>daItemGet = (\<lambda>i. or_404 (srvItem srv i)), daListInVault = (\<lambda>v. ok (srvInVault srv v)),
      daVaultsList = ok (srvVaults srv), daVaultGet = (\<lambda>v. or_404 (srvVault srv v))\<rparr>"

definition names_its_items :: "server_snapshot \<Rightarrow> bool" where
  "names_its_items srv = (\<forall>i x. srvItem srv i = Some x \<longrightarrow> itemId x = i)"

definition item_event :: "sync_event \<Rightarrow> bool" where
  "item_event e = (evType e \<in> {ItemCreated, ItemUpdated, ItemRestored, ItemMoved, ItemDeleted,
     ItemPermanentlyDeleted})"

text \<open>What an item event makes of the cached item it names, when the server has current for it.\<close>

definition newest :: "cached_item option \<Rightarrow> cached_item \<Rightarrow> cached_item" where
  "newest cur new = (case cur of None \<Rightarrow> new
     | Some c \<Rightarrow> if itemVersion c > itemVersion new then c else new)"

definition item_after ::
  "server_snapshot \<Rightarrow> item_scope \<Rightarrow> sync_event \<Rightarrow> cached_item option \<Rightarrow> cached_item option" where
  "item_after srv scope e cur =
     (if evType e = ItemPermanentlyDeleted then None
      else case srvItem srv (evEntityId e) of None \<Rightarrow> None
         | Some x \<Rightarrow> Some (newest cur (toCachedItem x scope)))"

lemma toCachedItem_id [simp]: "itemId (toCachedItem x scope) = itemId x"
  and toCachedItem_version [simp]: "itemVersion (toCachedItem x scope) = itemVersion x"
  by (simp_all add: toCachedItem_def)

section \<open>What sync relies on of a replica\<close>

locale sync_replica =
  fixes cache :: "'s replica_port" and account :: "string \<Rightarrow> bool"
    and items :: "string \<Rightarrow> 's \<Rightarrow> string \<Rightarrow> cached_item option"
  assumes upsert_item: "account acc \<Longrightarrow> \<exists>s'. rpUpsertItem cache i acc s = (Inr (), s') \<and>
      items acc s' = (items acc s)(itemId i := Some (newest (items acc s (itemId i)) i))"
    and remove_item: "account acc \<Longrightarrow> \<exists>s'. rpRemoveItem cache x acc s = (Inr (), s') \<and>
      items acc s' = (items acc s)(x := None)"
begin

lemma item_event_effect:
  fixes url email :: "string option"
  assumes acc: "account acc" and ev: "item_event e" and srv: "names_its_items srv"
  defines "scope \<equiv> \<lparr>scopeAccountId = Some acc, scopeAccountEmail = email, scopeServerUrl = url\<rparr>"
  obtains s' where "performDeltaSync (snapshot_api srv) cache e acc url email s = (Inr (), s')"
    and "items acc s' = (items acc s)(evEntityId e := item_after srv scope e (items acc s (evEntityId e)))"
proof -
  let ?i = "evEntityId e"
  have perm: "evType e = ItemPermanentlyDeleted \<Longrightarrow>
      performDeltaSync (snapshot_api srv) cache e acc url email s = rpRemoveItem cache ?i acc s"
    by (simp add: performDeltaSync_def delta_action_def refreshes_keys_def is_bulk_import_def act_defs)
  have recon: "evType e \<noteq> ItemPermanentlyDeleted \<Longrightarrow>
      performDeltaSync (snapshot_api srv) cache e acc url email s =
        reconcileCurrentItem (snapshot_api srv) cache acc scope ?i s"
    using ev
    by (auto simp: performDeltaSync_def delta_action_def refreshes_keys_def is_bulk_import_def
        item_event_def scope_def act_defs)
  obtain r where r: "rpRemoveItem cache ?i acc s = (Inr (), r)" and vr: "items acc r = (items acc s)(?i := None)"
    using remove_item [OF acc] by metis
  show thesis
  proof (cases "evType e = ItemPermanentlyDeleted")
    case True
    with r vr perm that show thesis by (simp add: item_after_def)
  next
    case False
    show thesis
    proof (cases "srvItem srv ?i")
      case None
      with False recon r vr that show thesis
        by (simp add: item_after_def reconcileCurrentItem_def snapshot_api_def or_404_def act_defs)
    next
      case (Some x)
      then have id: "itemId x = ?i" using srv by (simp add: names_its_items_def)
      obtain u where "rpUpsertItem cache (toCachedItem x scope) acc s = (Inr (), u)"
        and "items acc u = (items acc s)(?i := Some (newest (items acc s ?i) (toCachedItem x scope)))"
        using upsert_item [OF acc, of "toCachedItem x scope" s] id by auto
      with False Some recon that show thesis
        by (simp add: item_after_def reconcileCurrentItem_def snapshot_api_def or_404_def act_defs)
    qed
  qed
qed

text \<open>Processing a list of item events leaves every named item at the server's current one.\<close>

definition "sync_one acc srv url email e s = snd (performDeltaSync (snapshot_api srv) cache e acc url email s)"

definition "current acc srv url email i =
  map_option (\<lambda>x. toCachedItem x \<lparr>scopeAccountId = Some acc, scopeAccountEmail = email,
     scopeServerUrl = url\<rparr>) (srvItem srv i)"

definition "not_ahead acc srv s i \<longleftrightarrow>
  (\<forall>c x. items acc s i = Some c \<longrightarrow> srvItem srv i = Some x \<longrightarrow> itemVersion c \<le> itemVersion x)"

lemma sync_one_items:
  assumes acc: "account acc" and ev: "item_event e" and srv: "names_its_items srv"
    and "evType e = ItemPermanentlyDeleted \<Longrightarrow> srvItem srv (evEntityId e) = None"
    and "not_ahead acc srv s (evEntityId e)"
  shows "items acc (sync_one acc srv url email e s) = (items acc s)(evEntityId e := current acc srv url email (evEntityId e))"
proof -
  obtain s' where "performDeltaSync (snapshot_api srv) cache e acc url email s = (Inr (), s')"
    and s': "items acc s' = (items acc s)(evEntityId e := item_after srv
        \<lparr>scopeAccountId = Some acc, scopeAccountEmail = email, scopeServerUrl = url\<rparr> e
        (items acc s (evEntityId e)))"
    by (rule item_event_effect [OF acc ev srv])
  then have "sync_one acc srv url email e s = s'" by (simp add: sync_one_def)
  moreover have "item_after srv \<lparr>scopeAccountId = Some acc, scopeAccountEmail = email,
      scopeServerUrl = url\<rparr> e (items acc s (evEntityId e)) = current acc srv url email (evEntityId e)"
    using assms(4,5)
    by (auto simp: item_after_def current_def newest_def not_ahead_def split: option.splits)
  ultimately show ?thesis using s' by simp
qed

lemma sync_all_items:
  assumes acc: "account acc" and srv: "names_its_items srv"
    and "\<And>e. e \<in> set es \<Longrightarrow> item_event e"
    and "\<And>e. e \<in> set es \<Longrightarrow> evType e = ItemPermanentlyDeleted \<Longrightarrow> srvItem srv (evEntityId e) = None"
    and "\<And>e. e \<in> set es \<Longrightarrow> not_ahead acc srv s (evEntityId e)"
  shows "items acc (fold (sync_one acc srv url email) es s) i =
     (if i \<in> evEntityId ` set es then current acc srv url email i else items acc s i)"
  using assms(3-)
proof (induction es arbitrary: s)
  case (Cons e es)
  let ?s = "sync_one acc srv url email e s"
  have one: "items acc ?s = (items acc s)(evEntityId e := current acc srv url email (evEntityId e))"
    by (rule sync_one_items) (use acc srv Cons.prems in auto)
  have ahead: "not_ahead acc srv ?s (evEntityId d)" if "d \<in> set es" for d
    using Cons.prems(3) [of d] that by (auto simp: not_ahead_def one current_def)
  have "items acc (fold (sync_one acc srv url email) es ?s) i =
      (if i \<in> evEntityId ` set es then current acc srv url email i else items acc ?s i)"
    by (rule Cons.IH) (use Cons.prems ahead in auto)
  then show ?case by (auto simp: one)
qed simp

end

section \<open>The item cache as a replica\<close>

text \<open>
  The item operations of the replica are the item cache's over the in-memory record port; the
  vault keys it is given are kept beside the cache by account.
\<close>

type_synonym keyed_memory = "memory \<times> (string \<times> vault_key_entry list) list"

definition on_memory :: "(js_error, memory, 'a) act \<Rightarrow> (js_error, keyed_memory, unit) act" where
  "on_memory m = (\<lambda>(mem, keys). case m mem of
       (Inl e, mem') \<Rightarrow> (Inl e, (mem', keys)) | (Inr _, mem') \<Rightarrow> (Inr (), (mem', keys)))"

definition cache_replica :: "string \<Rightarrow> keyed_memory replica_port" where
  "cache_replica prefix = (let port = createInMemoryRecordPort prefix in
     \<lparr>rpUpsertItem = (\<lambda>i acc. on_memory (upsertCachedItem port i acc)),
      rpRemoveItem = (\<lambda>i acc. on_memory (removeCachedItem port i acc)),
      rpUpsertVault = (\<lambda>v acc. on_memory (upsertCachedVault port v acc)),
      rpRemoveVault = (\<lambda>v acc. on_memory (removeCachedVault port v acc)),
      rpClear = (\<lambda>acc. on_memory (clearItemCache port acc)),
      rpSyncVaultKeys = (\<lambda>ks acc. put_state (\<lambda>(mem, keys). (mem, js_set acc ks keys))),
      rpReplaceItemId = (\<lambda>tmp real acc s. s)\<rparr>)"

definition cached_items :: "string \<Rightarrow> string \<Rightarrow> keyed_memory \<Rightarrow> string \<Rightarrow> cached_item option" where
  "cached_items prefix acc s i =
     Option.bind (js_get (visible_items (createInMemoryRecordPort prefix) (bucketFor (fst s)) acc) i) parseItem"

lemma remove_item_runs:
  assumes "plain_id acc"
  shows "\<exists>s'. on_memory (removeCachedItem (createInMemoryRecordPort prefix) x acc) s = (Inr (), s') \<and>
     cached_items prefix acc s' = (cached_items prefix acc s)(x := None)"
proof -
  let ?p = "createInMemoryRecordPort prefix"
  let ?V = "bucketFor (fst s)"
  let ?c = "itemCollectionFor acc (activeGeneration (visible_state ?p ?V acc))"
  have R: "memory.runs (removeCachedItem ?p x acc) ?V () (?V(?c := js_delete x (?V ?c)))"
    unfolding removeCachedItem_def
    by (rule memory.runs_and_then [OF memory.runs_readState memory.runs_delete])
  obtain m where m: "removeCachedItem ?p x acc (fst s) = (Inr (), m)"
    and v: "bucketFor m = ?V(?c := js_delete x (?V ?c))"
    using memory.runsD [OF R] by (elim exE conjE)
  have "visible_items ?p (bucketFor m) acc = js_delete x (visible_items ?p ?V acc)"
    by (simp add: visible_items_def v memory.state_elsewhere [OF memory.active_not_meta(1) [OF assms]])
  with m show ?thesis
    by (cases s) (auto simp: on_memory_def cached_items_def fun_eq_iff)
qed

lemma upsert_item_runs:
  assumes "plain_id acc"
  shows "\<exists>s'. on_memory (upsertCachedItem (createInMemoryRecordPort prefix) i acc) s = (Inr (), s') \<and>
     cached_items prefix acc s' =
       (cached_items prefix acc s)(itemId i := Some (newest (cached_items prefix acc s (itemId i)) i))"
proof -
  let ?p = "createInMemoryRecordPort prefix"
  obtain r m where m: "upsertCachedItem ?p i acc (fst s) = (r, m)" by fastforce
  note eff = memory.upsert_effect [OF assms m]
  have "r = Inr (\<not> storedIsNewer (js_get (visible_items ?p (bucketFor (fst s)) acc) (itemId i)) i)"
    using eff [of "itemId i"] by blast
  moreover have "cached_items prefix acc (m, snd s) =
       (cached_items prefix acc s)(itemId i := Some (newest (cached_items prefix acc s (itemId i)) i))"
    using eff
    by (auto simp: cached_items_def fun_eq_iff newest_def storedIsNewer_def split: option.splits)
  ultimately show ?thesis using m by (cases s) (auto simp: on_memory_def)
qed

interpretation cache: sync_replica "cache_replica prefix" plain_id "cached_items prefix" for prefix
  by unfold_locales (simp_all only: cache_replica_def Let_def replica_port.simps upsert_item_runs remove_item_runs)

section \<open>Catching up\<close>

definition delta_port ::
  "string \<Rightarrow> string \<Rightarrow> string option \<Rightarrow> string option \<Rightarrow> server_snapshot \<Rightarrow> bool \<Rightarrow> wire_event list \<Rightarrow>
   keyed_memory catchup_port" where
  "delta_port prefix acc url email srv named log =
     \<lparr>changes = (\<lambda>since limit. ok (log_page named log since limit)), shouldProcessEvent = None,
      onEvent = Some (\<lambda>e. performDeltaSync (snapshot_api srv) (cache_replica prefix) e acc url email),
      onRequiresFullRefresh = None\<rparr>"

text \<open>
  A log that matches a snapshot: only item events, an item deleted for good is gone from it, and
  no cached item is ahead of it.
\<close>

definition matches_log ::
  "server_snapshot \<Rightarrow> (string \<Rightarrow> cached_item option) \<Rightarrow> wire_event list \<Rightarrow> bool" where
  "matches_log srv cached log = (names_its_items srv \<and> list_all (\<lambda>e. item_event (toSyncEvent e) \<and>
     (evType e = ItemPermanentlyDeleted \<longrightarrow> srvItem srv (evEntityId e) = None) \<and>
     (case (cached (evEntityId e), srvItem srv (evEntityId e)) of
        (Some c, Some x) \<Rightarrow> itemVersion c \<le> itemVersion x | _ \<Rightarrow> True)) log)"

lemma toSyncEvent_sel [simp]:
  "evEntityId (toSyncEvent e) = evEntityId e" "evType (toSyncEvent e) = evType e"
  "evId (toSyncEvent e) = evId e"
  by (simp_all add: toSyncEvent_def)

lemma delta_port_handles:
  assumes "plain_id acc" and "names_its_items srv" and "list_all (\<lambda>e. item_event (toSyncEvent e)) log"
  shows "handles log (cache.sync_one prefix acc srv url email) (delta_port prefix acc url email srv named log')"
proof -
  have "performDeltaSync (snapshot_api srv) (cache_replica prefix) (toSyncEvent e) acc url email s =
      (Inr (), cache.sync_one prefix acc srv url email (toSyncEvent e) s)" if "e \<in> set log" for e s
  proof -
    have "item_event (toSyncEvent e)" using assms(3) that by (auto simp: list_all_iff)
    then obtain s' where "performDeltaSync (snapshot_api srv) (cache_replica prefix) (toSyncEvent e) acc url email s =
        (Inr (), s')"
      by (rule cache.item_event_effect [OF assms(1) _ assms(2)])
    then show ?thesis by (simp add: cache.sync_one_def)
  qed
  then show ?thesis by (auto simp: handles_def delta_port_def)
qed


definition sample_snapshot :: server_snapshot where
  "sample_snapshot =
     \<lparr>srvItem = (\<lambda>i. if i = ''x'' then Some
        \<lparr>itemId = ''x'', itemVaultId = ''v'', itemCategory = ''login'', itemFavorite = False,
         itemData = ''d'', itemIv = ''i'', itemAlgorithm = ''g'', itemVersion = 3,
         itemLastModifiedBy = ''u'', itemEncryptionVersion = 3, itemEncryptedBy = ''u'',
         itemCreatedAt = ''t'', itemUpdatedAt = ''t'', serverDeletedAt = None,
         serverAttachments = None\<rparr> else None),
      srvInVault = (\<lambda>v. []), srvVaults = [], srvVault = (\<lambda>v. None)\<rparr>"


end
