(* ===== verification/SyncExtras.thy ===== *)
theory SyncExtras
  imports DeltaSync QueueSealed
begin

text \<open>
  Three small modules of packages/sync: which queries an event invalidates and the invalidator
  built on it (query-invalidation.ts, with the keys of packages/shared/src/api-query.ts), the
  command a native host's encrypted item becomes (native-command-handoff.ts), and the count of
  newly terminal commands a listener is told of (terminal-command-status.ts).
\<close>

section \<open>Query keys\<close>

type_synonym query_key = "string list"

definition vaults_list_key :: query_key where "vaults_list_key = [''api'', ''v1'', ''vaults'']"
definition vault_members_key :: "string \<Rightarrow> query_key" where
  "vault_members_key v = [''api'', ''v1'', ''vaults'', v, ''members'']"
definition items_all_key :: query_key where "items_all_key = [''api'', ''v1'', ''items'']"
definition item_get_key :: "string \<Rightarrow> query_key" where
  "item_get_key i = [''api'', ''v1'', ''items'', i]"
definition items_in_vault_key :: "string \<Rightarrow> query_key" where
  "items_in_vault_key v = [''api'', ''v1'', ''vaults'', v, ''items'']"
definition trashed_key :: query_key where "trashed_key = [''api'', ''v1'', ''trashed-items'']"
definition trashed_in_vault_key :: "string \<Rightarrow> query_key" where
  "trashed_in_vault_key v = [''api'', ''v1'', ''vaults'', v, ''trashed-items'']"
definition teams_all_key :: query_key where "teams_all_key = [''api'', ''v1'', ''teams'']"
definition pending_invitations_key :: query_key where
  "pending_invitations_key = [''api'', ''v1'', ''invitations'', ''mine'']"
definition travel_mode_key :: query_key where "travel_mode_key = [''api'', ''v1'', ''travel-mode'']"
definition shares_key :: "string \<Rightarrow> query_key" where
  "shares_key i = [''api'', ''v1'', ''items'', i, ''share-links'']"
definition vault_keys_key :: query_key where "vault_keys_key = [''vault-keys'']"

definition truthy_id :: "string option \<Rightarrow> bool" where
  "truthy_id v = (v \<noteq> None \<and> v \<noteq> Some [])"

definition getQueryKeysForEvent :: "sync_event \<Rightarrow> query_key list" where
  "getQueryKeysForEvent e = (case evType e of
       VaultCreated \<Rightarrow> [vault_keys_key, vaults_list_key]
     | VaultUpdated \<Rightarrow> [vault_keys_key, vaults_list_key] @
         (if evReason e = Some ''bulk_import'' \<and> truthy_id (evVaultId e)
          then [items_in_vault_key (the (evVaultId e)), items_all_key] else [])
     | VaultDeleted \<Rightarrow> [vault_keys_key, vaults_list_key]
     | VaultAccessRevoked \<Rightarrow> [vault_keys_key, vaults_list_key]
     | VaultMemberAdded \<Rightarrow>
         (if truthy_id (evVaultId e) then [vault_members_key (the (evVaultId e))] else []) @
         [vault_keys_key, vaults_list_key]
     | VaultMemberRemoved \<Rightarrow>
         (if truthy_id (evVaultId e) then [vault_members_key (the (evVaultId e))] else []) @
         [vault_keys_key, vaults_list_key]
     | VaultKeyRotated \<Rightarrow> [vault_keys_key, vaults_list_key]
     | TravelModeUpdated \<Rightarrow> [[''travel-mode''], [''all-vault-keys''], travel_mode_key, vaults_list_key]
     | _ \<Rightarrow> [])"

definition getEntityTypeForEventType :: "sync_event_type \<Rightarrow> string" where
  "getEntityTypeForEventType ty =
     (if ty \<in> {ItemCreated, ItemUpdated, ItemDeleted, ItemRestored, ItemPermanentlyDeleted, ItemMoved}
      then ''item''
      else if ty \<in> {VaultMemberAdded, VaultMemberRemoved} then ''vault_member''
      else if ty = VaultKeyRotated then ''vault_key''
      else if ty = TravelModeUpdated then ''user''
      else ''vault'')"

text \<open>What the invalidator asks of the query client, in order.\<close>

datatype query_action = InvalidateQueries query_key | RemoveQueries query_key

definition invalidateQueriesForEvent :: "sync_event \<Rightarrow> query_action list" where
  "invalidateQueriesForEvent e = map InvalidateQueries (getQueryKeysForEvent e)"

definition synthetic_event :: "string \<Rightarrow> int \<Rightarrow> sync_event_type \<Rightarrow> string \<Rightarrow> string option \<Rightarrow> sync_event" where
  "synthetic_event eventId time ty entity vault =
     \<lparr>evId = eventId, evType = ty, evEntityId = entity,
      evEntityType = getEntityTypeForEventType ty, evVersion = 0, evUserId = [],
      evTimestamp = time, evReason = None, evVaultId = vault, evClientId = None\<rparr>"

definition invalidateForEvent ::
  "string \<Rightarrow> int \<Rightarrow> sync_event_type \<Rightarrow> string \<Rightarrow> string option \<Rightarrow> query_action list" where
  "invalidateForEvent eventId time ty entity vault =
     invalidateQueriesForEvent (synthetic_event eventId time ty entity vault)"

definition invalidateItem :: "string \<Rightarrow> string \<Rightarrow> query_action list" where
  "invalidateItem item vault =
     map InvalidateQueries [items_in_vault_key vault, item_get_key item, items_all_key]"

definition invalidateVaultList :: "string \<Rightarrow> query_action list" where
  "invalidateVaultList vault = map InvalidateQueries [items_in_vault_key vault, items_all_key]"

definition invalidateDeletedItems :: "string \<Rightarrow> query_action list" where
  "invalidateDeletedItems vault =
     map InvalidateQueries [trashed_in_vault_key vault, trashed_key]"

definition invalidateVaultKeys :: "query_action list" where
  "invalidateVaultKeys = map InvalidateQueries [vault_keys_key, vaults_list_key]"

definition invalidateTeam :: "query_action list" where
  "invalidateTeam = [InvalidateQueries teams_all_key]"

definition invalidateTeamInvitations :: "query_action list" where
  "invalidateTeamInvitations = map InvalidateQueries [teams_all_key, pending_invitations_key]"

definition invalidateShare :: "string \<Rightarrow> query_action list" where
  "invalidateShare item = [InvalidateQueries (shares_key item)]"

definition invalidateVaultMembers :: "string \<Rightarrow> query_action list" where
  "invalidateVaultMembers vault = [InvalidateQueries (vault_members_key vault)]"

definition invalidateAllAccountData :: "query_action list" where
  "invalidateAllAccountData =
     map RemoveQueries [vaults_list_key, items_all_key, trashed_key] @
     map InvalidateQueries [vault_keys_key, [''accounts'', ''active''], [''accounts'', ''info''],
                            teams_all_key]"

section \<open>Native handoff\<close>

text \<open>A number of the handoff is None when it is not an integer.\<close>

datatype handoff_operation = CreateItem | UpdateItem

record native_handoff =
  hoId :: string
  hoVaultId :: string
  hoItemId :: string
  hoOperation :: handoff_operation
  hoData :: string
  hoIv :: string
  hoAlgorithm :: string
  hoBaseVersion :: "int option"
  hoEncryptionVersion :: "int option"
  hoUserId :: "string option"
  hoCreatedAt :: int

definition blank :: "string option \<Rightarrow> bool" where
  "blank u = (case u of None \<Rightarrow> True
     | Some t \<Rightarrow> list_all (\<lambda>c. c \<in> set [CHR 0x09, CHR 0x0A, CHR 0x0B, CHR 0x0C, CHR 0x0D, CHR 0x20]) t)"

definition exact_context :: "native_handoff \<Rightarrow> bool" where
  "exact_context h =
     ((case hoBaseVersion h of None \<Rightarrow> False | Some b \<Rightarrow> b \<ge> 0) \<and>
      (case hoEncryptionVersion h of None \<Rightarrow> False | Some v \<Rightarrow> v \<ge> 1) \<and> \<not> blank (hoUserId h))"

definition createNativeItemSyncCommand ::
  "native_handoff \<Rightarrow> string \<Rightarrow> string \<Rightarrow> js_error + command" where
  "createNativeItemSyncCommand h acc email =
     (if \<not> exact_context h
      then Inl (JsError (''Native Item operation '' @ hoId h @ '' has no exact encryption context''))
      else Inr
        \<lparr>accountId = acc, accountEmail = Some email, commandId = hoId h, operationId = Some (hoId h),
         attemptId = None, commandType = (if hoOperation h = CreateItem then Create else Update),
         entityId = hoItemId h, vaultId = hoVaultId h, targetVaultId = None,
         targetAccountId = None, targetItemId = None,
         category = (if hoOperation h = CreateItem then Some ''login'' else None),
         encryptedPayload = Some \<lparr>payloadData = hoData h, payloadIv = hoIv h,
           payloadAlgorithm = hoAlgorithm h, payloadVersion = the (hoEncryptionVersion h),
           payloadUserId = the (hoUserId h)\<rparr>,
         favorite = None, baseVersion = the (hoBaseVersion h), timestamp = hoCreatedAt h,
         retryCount = 0, status = None, lastError = None, nextAttemptAt = None,
         conflictCopyId = None, projectionClaimId = None, projectionClaimExpiresAt = None\<rparr>)"

section \<open>Terminal commands\<close>

definition getNewTerminalCommandCount :: "command_summary \<Rightarrow> command_summary \<Rightarrow> int" where
  "getNewTerminalCommandCount previous next =
     max 0 (int (sumFailed next) - int (sumFailed previous)) +
     max 0 (int (sumConflicted next) - int (sumConflicted previous))"

text \<open>The subscription: the counts told to the listener for the summaries it was notified of.\<close>

fun new_terminal_counts :: "command_summary \<Rightarrow> command_summary list \<Rightarrow> int list" where
  "new_terminal_counts previous [] = []"
| "new_terminal_counts previous (next # rest) =
     (let n = getNewTerminalCommandCount previous next
      in if n > 0 then n # new_terminal_counts next rest else new_terminal_counts next rest)"

section \<open>Properties\<close>

text \<open>
  Every event whose delta sync refetches the vault keys invalidates both the vault-key
  query and the vault list; item events invalidate nothing, and every other event invalidates
  the vault list.
\<close>

theorem key_changes_are_invalidated:
  "(if refreshes_keys e
    then vault_keys_key \<in> set (getQueryKeysForEvent e) \<and> vaults_list_key \<in> set (getQueryKeysForEvent e)
    else True) \<and>
   (if item_event e then getQueryKeysForEvent e = [] else vaults_list_key \<in> set (getQueryKeysForEvent e))"
  by (cases "evType e")
     (auto simp: refreshes_keys_def is_bulk_import_def getQueryKeysForEvent_def item_event_def)

text \<open>
  A handoff is accepted only with a non-negative integer base revision, a positive integer
  encryption version and a user; the command it becomes carries sealed ciphertext under the
  handoff's id and, once enqueued, is sent as exactly that ciphertext with that base revision
  and that idempotency key.
\<close>

theorem native_handoff_is_sent_as_sealed:
  assumes "createNativeItemSyncCommand h acc email = Inr c"
  shows "\<exists>b v u. hoBaseVersion h = Some b \<and> 0 \<le> b \<and> hoEncryptionVersion h = Some v \<and> 1 \<le> v \<and>
     hoUserId h = Some u \<and> opId c = hoId h \<and> carriesSealedCiphertext c \<and>
     mutationRequest (normalizeMutation c) = Inr (case hoOperation h of
       CreateItem \<Rightarrow> ItemsCreate (hoVaultId h) (hoItemId h) ''login''
         \<lparr>bodyData = hoData h, bodyIv = hoIv h, bodyAlgorithm = hoAlgorithm h\<rparr> (hoId h)
     | UpdateItem \<Rightarrow> ItemsUpdate (hoItemId h)
         \<lparr>bodyData = hoData h, bodyIv = hoIv h, bodyAlgorithm = hoAlgorithm h\<rparr>
         \<lparr>optEtag = [CHR 0x22] @ int_text b @ [CHR 0x22], optIdempotencyKey = hoId h\<rparr>)"
proof -
  have x: "exact_context h" and c: "c = projr (createNativeItemSyncCommand h acc email)"
    using assms by (auto simp: createNativeItemSyncCommand_def split: if_splits)
  obtain b v u where h: "hoBaseVersion h = Some b" "0 \<le> b" "hoEncryptionVersion h = Some v" "1 \<le> v"
      "hoUserId h = Some u"
    using x by (auto simp: exact_context_def blank_def split: option.splits)
  show ?thesis
    by (rule exI [where x = b], rule exI [where x = v], rule exI [where x = u])
       (use h x in \<open>auto simp: c createNativeItemSyncCommand_def opId_def carriesSealedCiphertext_def
          mutationRequest_def normalizeMutation_def payload_body_def writeOptions_def
          split: handoff_operation.splits\<close>)
qed

definition sample_handoff :: native_handoff where
  "sample_handoff = \<lparr>hoId = ''h'', hoVaultId = ''v'', hoItemId = ''i'', hoOperation = UpdateItem,
     hoData = ''d'', hoIv = ''n'', hoAlgorithm = ''g'', hoBaseVersion = Some 3,
     hoEncryptionVersion = Some 4, hoUserId = Some ''u'', hoCreatedAt = 9\<rparr>"

theorem native_handoff_is_sent_as_sealed_witness:
  "mutationRequest (normalizeMutation (projr (createNativeItemSyncCommand sample_handoff ''a'' ''e''))) =
     Inr (ItemsUpdate ''i'' \<lparr>bodyData = ''d'', bodyIv = ''n'', bodyAlgorithm = ''g''\<rparr>
       \<lparr>optEtag = [CHR 0x22] @ int_text 3 @ [CHR 0x22], optIdempotencyKey = ''h''\<rparr>)"
proof -
  have "exact_context sample_handoff"
    by (simp add: exact_context_def blank_def sample_handoff_def)
  then have "createNativeItemSyncCommand sample_handoff ''a'' ''e'' =
      Inr (projr (createNativeItemSyncCommand sample_handoff ''a'' ''e''))"
    by (simp add: createNativeItemSyncCommand_def)
  from native_handoff_is_sent_as_sealed [OF this] show ?thesis
    by (auto simp: sample_handoff_def)
qed

end
