(* ===== verification/SyncStorage.thy ===== *)
theory SyncStorage
  imports SyncTypes
begin

text \<open>
  The storage seam of sync (SyncStorage in packages/sync/src/types.ts) with its two
  implementations of packages/sync/src/storage.ts: the process-local map and the adapter that
  prefixes every key. The contract is the locale sync_store over the view of a state as a map;
  it is interpreted on both.
\<close>

record ('s, 'v) sync_storage =
  ssGet :: "string \<Rightarrow> (js_error, 's, 'v option) act"
  ssSet :: "string \<Rightarrow> 'v \<Rightarrow> (js_error, 's, unit) act"
  ssRemove :: "string \<Rightarrow> (js_error, 's, unit) act"
  ssUpdate :: "string \<Rightarrow> ('v option \<Rightarrow> 'v option) \<Rightarrow> (js_error, 's, 'v option) act"

type_synonym 'v sync_memory = "(string \<times> 'v) list"

definition MemorySyncStorage :: "('v sync_memory, 'v) sync_storage" where
  "MemorySyncStorage =
     \<lparr>ssGet = (\<lambda>k. get_state (\<lambda>m. js_get m k)),
      ssSet = (\<lambda>k v. put_state (js_set k v)),
      ssRemove = (\<lambda>k. put_state (js_delete k)),
      ssUpdate = (\<lambda>k f. with_state (\<lambda>m.
        let next = f (js_get m k)
        in and_then (put_state (case next of None \<Rightarrow> js_delete k | Some v \<Rightarrow> js_set k v))
             (\<lambda>_. ok next)))\<rparr>"

definition namespaced_key :: "string \<Rightarrow> string \<Rightarrow> string" where
  "namespaced_key namespace k = namespace @ '':'' @ k"

definition NamespacedSyncStorage :: "('s, 'v) sync_storage \<Rightarrow> string \<Rightarrow> ('s, 'v) sync_storage" where
  "NamespacedSyncStorage storage namespace =
     \<lparr>ssGet = (\<lambda>k. ssGet storage (namespaced_key namespace k)),
      ssSet = (\<lambda>k v. ssSet storage (namespaced_key namespace k) v),
      ssRemove = (\<lambda>k. ssRemove storage (namespaced_key namespace k)),
      ssUpdate = (\<lambda>k f. ssUpdate storage (namespaced_key namespace k) f)\<rparr>"

section \<open>The contract\<close>

locale sync_store =
  fixes storage :: "('s, 'v) sync_storage" and stored :: "'s \<Rightarrow> string \<Rightarrow> 'v option"
  assumes get_law: "ssGet storage k s = (Inr (stored s k), s)"
    and set_law: "\<exists>s'. ssSet storage k v s = (Inr (), s') \<and> stored s' = (stored s)(k := Some v)"
    and remove_law: "\<exists>s'. ssRemove storage k s = (Inr (), s') \<and> stored s' = (stored s)(k := None)"
    and update_law: "\<exists>s'. ssUpdate storage k f s = (Inr (f (stored s k)), s') \<and>
      stored s' = (stored s)(k := f (stored s k))"
begin

lemma set_then_get:
  assumes "ssSet storage k v s = (r, s')"
  shows "r = Inr ()" "fst (ssGet storage k s') = Inr (Some v)"
    "k' \<noteq> k \<Longrightarrow> fst (ssGet storage k' s') = Inr (stored s k')"
  using set_law [of k v s] assms by (auto simp: get_law)

text \<open>Overlapping updates of one key run one after the other: none of them is lost.\<close>

lemma updates_compose:
  "stored (snd (and_then (ssUpdate storage k f) (\<lambda>_. ssUpdate storage k g) s)) k = g (f (stored s k))"
proof -
  obtain s1 where 1: "ssUpdate storage k f s = (Inr (f (stored s k)), s1)"
    and v1: "stored s1 = (stored s)(k := f (stored s k))" using update_law by metis
  obtain s2 where "ssUpdate storage k g s1 = (Inr (g (stored s1 k)), s2)"
    and "stored s2 = (stored s1)(k := g (stored s1 k))" using update_law by metis
  with 1 v1 show ?thesis by (simp add: and_then_def)
qed

lemma namespaced_store:
  "sync_store (NamespacedSyncStorage storage namespace) (\<lambda>s k. stored s (namespaced_key namespace k))"
proof
  fix k s and v :: 'v and f :: "'v option \<Rightarrow> 'v option"
  show "ssGet (NamespacedSyncStorage storage namespace) k s =
      (Inr (stored s (namespaced_key namespace k)), s)"
    by (simp add: NamespacedSyncStorage_def get_law)
  show "\<exists>s'. ssSet (NamespacedSyncStorage storage namespace) k v s = (Inr (), s') \<and>
      (\<lambda>k. stored s' (namespaced_key namespace k)) =
        (\<lambda>k. stored s (namespaced_key namespace k))(k := Some v)"
    using set_law [of "namespaced_key namespace k" v s]
    by (auto simp: NamespacedSyncStorage_def fun_eq_iff namespaced_key_def)
  show "\<exists>s'. ssRemove (NamespacedSyncStorage storage namespace) k s = (Inr (), s') \<and>
      (\<lambda>k. stored s' (namespaced_key namespace k)) =
        (\<lambda>k. stored s (namespaced_key namespace k))(k := None)"
    using remove_law [of "namespaced_key namespace k" s]
    by (auto simp: NamespacedSyncStorage_def fun_eq_iff namespaced_key_def)
  show "\<exists>s'. ssUpdate (NamespacedSyncStorage storage namespace) k f s =
        (Inr (f (stored s (namespaced_key namespace k))), s') \<and>
      (\<lambda>k. stored s' (namespaced_key namespace k)) =
        (\<lambda>k. stored s (namespaced_key namespace k))(k := f (stored s (namespaced_key namespace k)))"
    using update_law [of "namespaced_key namespace k" f s]
    by (auto simp: NamespacedSyncStorage_def fun_eq_iff namespaced_key_def)
qed

end

interpretation local_store: sync_store MemorySyncStorage map_of
  by unfold_locales
     (auto simp: MemorySyncStorage_def act_defs Let_def fun_eq_iff split: option.splits)

interpretation scoped_store:
  sync_store "NamespacedSyncStorage MemorySyncStorage namespace"
    "\<lambda>s k. map_of s (namespaced_key namespace k)" for namespace
  by (rule local_store.namespaced_store)

lemma namespaced_key_inj:
  assumes "CHR '':'' \<notin> set a" and "CHR '':'' \<notin> set b" and "namespaced_key a k = namespaced_key b l"
  shows "a = b \<and> k = l"
proof -
  have take: "takeWhile (\<lambda>c. c \<noteq> CHR '':'') (namespaced_key n j) = n" if "CHR '':'' \<notin> set n" for n j
    using that by (induction n) (auto simp: namespaced_key_def)
  have "a = b" using take [OF assms(1), of k] take [OF assms(2), of l] assms(3) by simp
  with assms(3) show ?thesis by (simp add: namespaced_key_def)
qed

section \<open>Properties\<close>

text \<open>
  For namespaces without a colon, an update made through one leaves every key read through
  the other as it was, and is read back through its own.
\<close>

theorem namespaces_are_separate:
  assumes "CHR '':'' \<notin> set a" and "CHR '':'' \<notin> set b" and "a \<noteq> b"
  shows "fst (ssGet (NamespacedSyncStorage MemorySyncStorage b) l
           (snd (ssUpdate (NamespacedSyncStorage MemorySyncStorage a) k f m))) =
         fst (ssGet (NamespacedSyncStorage MemorySyncStorage b) l m) \<and>
         fst (ssGet (NamespacedSyncStorage MemorySyncStorage a) k
           (snd (ssUpdate (NamespacedSyncStorage MemorySyncStorage a) k f m))) =
         Inr (f (map_of m (namespaced_key a k)))"
proof -
  have "namespaced_key b l \<noteq> namespaced_key a k" using namespaced_key_inj assms by blast
  then show ?thesis
    by (auto simp: NamespacedSyncStorage_def MemorySyncStorage_def act_defs Let_def split: option.splits)
qed

theorem namespaces_are_separate_witness:
  "fst (ssGet (NamespacedSyncStorage MemorySyncStorage ''b'') ''k''
      (snd (ssUpdate (NamespacedSyncStorage MemorySyncStorage ''a'') ''k'' (\<lambda>_. Some (1::nat)) []))) =
   fst (ssGet (NamespacedSyncStorage MemorySyncStorage ''b'') ''k'' [])"
  by (rule namespaces_are_separate [THEN conjunct1]) simp_all

end
