(* ===== verification/SyncManager.thy ===== *)
theory SyncManager
  imports SyncStorage
begin

text \<open>
  SyncManager (packages/sync/src/sync-manager.ts): the event stream with its reconnection, the
  parsing of server-sent events, and the stored cursor. The manager is driven by the events of
  manager_event, one per callback or awaited outcome; what it does to the outside is the list
  mgActions. Times are milliseconds; a reconnect timer is the delay it was armed with. JSON.parse
  is a parameter, answering None for a text that does not parse and Some None for null.
\<close>

section \<open>Server-sent events\<close>

text \<open>The pattern for a line end, a line feed after an optional carriage return.\<close>

fun eat_eol :: "string \<Rightarrow> string option" where
  "eat_eol (a # b # s) = (if a = CHR 0x0A then Some (b # s)
     else if a = CHR 0x0D \<and> b = CHR 0x0A then Some s else None)"
| "eat_eol [a] = (if a = CHR 0x0A then Some [] else None)"
| "eat_eol [] = None"

definition eat_blank_line :: "string \<Rightarrow> string option" where
  "eat_blank_line s = Option.bind (eat_eol s) eat_eol"

text \<open>split with a pattern: at the first place from the left where it matches, a part ends.\<close>

lemma eat_eol_length: "eat_eol s = Some r \<Longrightarrow> length r < length s"
  by (induction s rule: eat_eol.induct) (auto split: if_splits)

lemma eat_blank_line_length: "eat_blank_line s = Some r \<Longrightarrow> length r < length s"
  by (auto simp: eat_blank_line_def bind_eq_Some_conv dest!: eat_eol_length)

function split_pattern :: "(string \<Rightarrow> string option) \<Rightarrow> string \<Rightarrow> string list" where
  "split_pattern eat s = (case eat s of
       Some r \<Rightarrow> (if length r < length s then [] # split_pattern eat r else [s])
     | None \<Rightarrow> (case s of [] \<Rightarrow> [[]]
         | c # cs \<Rightarrow> (case split_pattern eat cs of [] \<Rightarrow> [[c]] | p # ps \<Rightarrow> (c # p) # ps)))"
  by pat_completeness auto
termination by (relation "measure (\<lambda>(_, s). length s)") auto

declare split_pattern.simps [simp del]

definition split_events :: "string \<Rightarrow> string list" where
  "split_events = split_pattern eat_blank_line"

definition split_lines :: "string \<Rightarrow> string list" where
  "split_lines = split_pattern eat_eol"

text \<open>One chunk of the stream: the complete events and the incomplete one kept in the buffer.\<close>

definition feed :: "string \<Rightarrow> string \<Rightarrow> string list \<times> string" where
  "feed buffer chunk = (let parts = split_events (buffer @ chunk) in (butlast parts, last parts))"

text \<open>The line loop of processEvent: None when a heartbeat comment ends it.\<close>

fun read_lines :: "string list \<Rightarrow> string \<Rightarrow> string list \<Rightarrow> (string \<times> string list) option" where
  "read_lines [] ty ds = Some (ty, ds)"
| "read_lines (l # ls) ty ds =
     (if starts_with '': heartbeat'' l then None
      else if starts_with '':'' l then read_lines ls ty ds
      else if starts_with ''event: '' l then read_lines ls (drop 7 l) ds
      else if starts_with ''data:'' l then read_lines ls ty (ds @ [trimStart (drop 5 l)])
      else read_lines ls ty ds)"

fun join_lines :: "string list \<Rightarrow> string" where
  "join_lines [] = []"
| "join_lines [l] = l"
| "join_lines (l # ls) = l @ [CHR 0x0A] @ join_lines ls"

section \<open>State\<close>

datatype connection_status = Disconnected | Connecting | Connected | Reconnecting | ErrorStatus

text \<open>The fields processEvent reads of a parsed message, already defaulted as it defaults them.\<close>

record sse_message =
  smType :: "string option"
  smHasId :: bool
  smUserId :: string
  smSessionId :: string
  smTimestamp :: "int option"
  smReason :: "string option"

record revoked_payload =
  rpUserId :: string
  rpSessionId :: string
  rpTimestamp :: int
  rpReason :: "string option"

datatype manager_action =
    NotifyStatus connection_status
  | OpenStream
  | AbortStream
  | PingSync
  | NotifyRevoked revoked_payload
  | ArmReconnect int

record manager_options =
  optReconnectDelay :: int
  optMaxReconnectDelay :: int
  optParse :: "string \<Rightarrow> sse_message option option"

record sync_manager =
  connectionStatus :: connection_status
  abortController :: bool
  reconnectAttempt :: nat
  reconnectTimer :: "int option"
  lastEventCursor :: "string option"
  lastEventTimestamp :: "int option"
  lastHeartbeatTime :: "int option"
  staleCheck :: bool
  sseBuffer :: string
  mgActions :: "manager_action list"

definition STALE_CONNECTION_THRESHOLD :: int where "STALE_CONNECTION_THRESHOLD = 35000"

definition new_manager :: sync_manager where
  "new_manager = \<lparr>connectionStatus = Disconnected, abortController = False, reconnectAttempt = 0,
     reconnectTimer = None, lastEventCursor = None, lastEventTimestamp = None,
     lastHeartbeatTime = None, staleCheck = False, sseBuffer = [], mgActions = []\<rparr>"

definition act_on :: "manager_action \<Rightarrow> sync_manager \<Rightarrow> sync_manager" where
  "act_on a m = m\<lparr>mgActions := mgActions m @ [a]\<rparr>"

section \<open>Operations\<close>

definition setStatus :: "connection_status \<Rightarrow> sync_manager \<Rightarrow> sync_manager" where
  "setStatus st m = (if connectionStatus m \<noteq> st
     then act_on (NotifyStatus st) (m\<lparr>connectionStatus := st\<rparr>) else m)"

definition stopStaleCheck :: "sync_manager \<Rightarrow> sync_manager" where
  "stopStaleCheck m = m\<lparr>staleCheck := False\<rparr>"

definition startStaleCheck :: "int \<Rightarrow> sync_manager \<Rightarrow> sync_manager" where
  "startStaleCheck time m = (stopStaleCheck m)\<lparr>lastHeartbeatTime := Some time, staleCheck := True\<rparr>"

definition reconnect_delay :: "manager_options \<Rightarrow> nat \<Rightarrow> int" where
  "reconnect_delay opts attempt =
     min (optReconnectDelay opts * 2 ^ attempt) (optMaxReconnectDelay opts)"

definition scheduleReconnect :: "manager_options \<Rightarrow> sync_manager \<Rightarrow> sync_manager" where
  "scheduleReconnect opts m =
     (let delay = reconnect_delay opts (reconnectAttempt m)
      in act_on (ArmReconnect delay)
           (m\<lparr>reconnectAttempt := Suc (reconnectAttempt m), reconnectTimer := Some delay\<rparr>))"

definition disconnect :: "sync_manager \<Rightarrow> sync_manager" where
  "disconnect m =
     (let m1 = (stopStaleCheck m)\<lparr>reconnectTimer := None\<rparr>;
          m2 = (if abortController m1 then act_on AbortStream (m1\<lparr>abortController := False\<rparr>) else m1)
      in setStatus Disconnected m2)"

text \<open>connect up to the awaited opening of the stream, and from there to the reading of it.\<close>

definition connect :: "sync_manager \<Rightarrow> sync_manager" where
  "connect m =
     (if connectionStatus m = Connected \<or> connectionStatus m = Connecting then m
      else act_on OpenStream ((setStatus Connecting m)\<lparr>abortController := True\<rparr>))"

datatype open_result = OpenOk | OpenNotOk int | OpenNoBody | OpenThrew | OpenAborted

definition opened :: "manager_options \<Rightarrow> open_result \<Rightarrow> int \<Rightarrow> sync_manager \<Rightarrow> sync_manager" where
  "opened opts result time m = (case result of
       OpenOk \<Rightarrow> (startStaleCheck time ((setStatus Connected m)\<lparr>reconnectAttempt := 0\<rparr>))
                   \<lparr>sseBuffer := []\<rparr>
     | OpenAborted \<Rightarrow> m
     | _ \<Rightarrow> scheduleReconnect opts (setStatus ErrorStatus m))"

definition revoked_of :: "int \<Rightarrow> sse_message \<Rightarrow> revoked_payload" where
  "revoked_of time msg = \<lparr>rpUserId = smUserId msg, rpSessionId = smSessionId msg,
     rpTimestamp = coalesce (smTimestamp msg) time, rpReason = smReason msg\<rparr>"

text \<open>
  What a parsed message asks for. Reading a field of null throws and is logged, so with null only
  the tests that look at the event name alone can succeed.
\<close>

definition handle_message ::
  "string \<Rightarrow> sse_message option \<Rightarrow> int \<Rightarrow> sync_manager \<Rightarrow> sync_manager" where
  "handle_message ty message time m = (case message of
       None \<Rightarrow> m
     | Some msg \<Rightarrow>
         if ty = ''heartbeat'' \<or> smType msg = Some ''heartbeat'' then m
         else if ty = ''connected'' \<or> smType msg = Some ''connected'' then m
         else if ty = ''sync'' \<and> \<not> smHasId msg then act_on PingSync m
         else if ty = ''session_revoked'' then act_on (NotifyRevoked (revoked_of time msg)) m
         else m)"

definition processEvent ::
  "manager_options \<Rightarrow> int \<Rightarrow> sync_manager \<Rightarrow> string \<Rightarrow> sync_manager" where
  "processEvent opts time m eventStr =
     (case read_lines (split_lines (trim eventStr)) [] [] of
        None \<Rightarrow> m\<lparr>lastHeartbeatTime := Some time\<rparr>
      | Some (ty, ds) \<Rightarrow>
          let payload = join_lines ds in
          if payload = [] then m
          else case optParse opts payload of
              None \<Rightarrow> m
            | Some message \<Rightarrow>
                handle_message ty message time (m\<lparr>lastHeartbeatTime := Some time\<rparr>))"

definition read_chunk :: "manager_options \<Rightarrow> string \<Rightarrow> int \<Rightarrow> sync_manager \<Rightarrow> sync_manager" where
  "read_chunk opts chunk time m =
     (let (events, buffer) = feed (sseBuffer m) chunk
      in foldl (processEvent opts time) (m\<lparr>sseBuffer := buffer\<rparr>) events)"

definition stream_closed :: "manager_options \<Rightarrow> sync_manager \<Rightarrow> sync_manager" where
  "stream_closed opts m = scheduleReconnect opts (setStatus Reconnecting m)"

definition stream_failed :: "manager_options \<Rightarrow> bool \<Rightarrow> sync_manager \<Rightarrow> sync_manager" where
  "stream_failed opts aborted m =
     (if aborted then m else scheduleReconnect opts (setStatus Reconnecting m))"

definition stale_tick :: "manager_options \<Rightarrow> int \<Rightarrow> sync_manager \<Rightarrow> sync_manager" where
  "stale_tick opts time m =
     (case lastHeartbeatTime m of
        None \<Rightarrow> m
      | Some t \<Rightarrow>
          if t \<noteq> 0 \<and> time - t > STALE_CONNECTION_THRESHOLD
          then scheduleReconnect opts (setStatus Reconnecting (disconnect m)) else m)"

section \<open>Runs\<close>

datatype manager_event =
    McConnect
  | McOpened open_result int
  | McChunk string int
  | McClosed
  | McFailed bool
  | McStaleTick int
  | McTimer
  | McDisconnect

fun manager_step :: "manager_options \<Rightarrow> sync_manager \<Rightarrow> manager_event \<Rightarrow> sync_manager" where
  "manager_step opts m McConnect = connect m"
| "manager_step opts m (McOpened r time) = opened opts r time m"
| "manager_step opts m (McChunk c time) = read_chunk opts c time m"
| "manager_step opts m McClosed = stream_closed opts m"
| "manager_step opts m (McFailed aborted) = stream_failed opts aborted m"
| "manager_step opts m (McStaleTick time) = (if staleCheck m then stale_tick opts time m else m)"
| "manager_step opts m McTimer =
     (if reconnectTimer m \<noteq> None then connect (m\<lparr>reconnectTimer := None\<rparr>) else m)"
| "manager_step opts m McDisconnect = disconnect m"

section \<open>The stored cursor\<close>

text \<open>
  What storage may hold under the two keys: null, an object whose id is a string or is not one,
  or something else, by itself or as the cursor of a baseline with its initialized flag.
\<close>

datatype stored_cursor = CursorNull | CursorObject "string option" | CursorOther

datatype sync_value = CursorValue stored_cursor | BaselineValue bool stored_cursor | OtherValue

definition cursor_json :: "string option \<Rightarrow> stored_cursor" where
  "cursor_json c = (case c of None \<Rightarrow> CursorNull | Some i \<Rightarrow> CursorObject (Some i))"

definition setStoredSyncBaseline ::
  "('s, sync_value) sync_storage \<Rightarrow> string option \<Rightarrow> (js_error, 's, unit) act" where
  "setStoredSyncBaseline storage c =
     ssSet storage ''syncBaselineV1'' (BaselineValue True (cursor_json c))"

definition setStoredLastSyncCursor ::
  "('s, sync_value) sync_storage \<Rightarrow> string \<Rightarrow> (js_error, 's, unit) act" where
  "setStoredLastSyncCursor storage i =
     all_each [ssSet storage ''lastSyncCursor'' (CursorValue (CursorObject (Some i))),
               setStoredSyncBaseline storage (Some i)] id"

fun valid_cursor :: "stored_cursor \<Rightarrow> string option option" where
  "valid_cursor CursorNull = Some None"
| "valid_cursor (CursorObject (Some i)) = (if i \<noteq> [] then Some (Some i) else None)"
| "valid_cursor _ = None"

text \<open>The outer None is no usable baseline, the inner one a baseline without a cursor.\<close>

definition getStoredSyncBaseline ::
  "('s, sync_value) sync_storage \<Rightarrow> (js_error, 's, string option option) act" where
  "getStoredSyncBaseline storage = and_then (ssGet storage ''syncBaselineV1'') (\<lambda>v.
     ok (case v of Some (BaselineValue True c) \<Rightarrow> valid_cursor c | _ \<Rightarrow> None))"

definition getStoredLastSyncCursor ::
  "('s, sync_value) sync_storage \<Rightarrow> (js_error, 's, string option) act" where
  "getStoredLastSyncCursor storage = and_then (ssGet storage ''lastSyncCursor'') (\<lambda>v.
     ok (case v of Some (CursorValue c) \<Rightarrow> coalesce (valid_cursor c) None | _ \<Rightarrow> None))"

definition saveLastSyncCursor ::
  "('s, sync_value) sync_storage \<Rightarrow> sync_manager \<Rightarrow> (js_error, 's, unit) act" where
  "saveLastSyncCursor storage m = (case lastEventCursor m of
       None \<Rightarrow> ok () | Some i \<Rightarrow> setStoredLastSyncCursor storage i)"

end
