(* ===== verification/SyncManagerProps.thy ===== *)
theory SyncManagerProps
  imports SyncManager
begin

text \<open>
  What the manager guarantees: the parsing of the stream does not depend on how it is cut into
  chunks; every status change is notified once; reconnect delays double up to their maximum; a
  disconnected manager stays down; a stored cursor is read back.
\<close>

section \<open>Splitting a text\<close>

lemma split_Some: "eat s = Some r \<Longrightarrow> length r < length s \<Longrightarrow> split_pattern eat s = [] # split_pattern eat r"
  by (subst split_pattern.simps) simp

lemma split_Nil: "eat [] = None \<Longrightarrow> split_pattern eat [] = [[]]"
  by (subst split_pattern.simps) simp

lemma split_not_Nil [simp]: "split_pattern eat s \<noteq> []"
  by (subst split_pattern.simps) (auto split: option.splits list.splits)

lemma split_Cons:
  "eat (c # cs) = None \<Longrightarrow>
     split_pattern eat (c # cs) = (c # hd (split_pattern eat cs)) # tl (split_pattern eat cs)"
  by (subst split_pattern.simps) (auto split: list.splits)

lemma eat_eol_append: "2 \<le> length a \<Longrightarrow> eat_eol (a @ b) = map_option (\<lambda>r. r @ b) (eat_eol a)"
  by (cases a rule: eat_eol.cases) auto

lemma eat_eol_Some_append: "eat_eol a = Some r \<Longrightarrow> eat_eol (a @ b) = Some (r @ b)"
  by (cases a rule: eat_eol.cases; cases b) (auto split: if_splits)

lemma eat_eol_None [simp]: "eat_eol [] = None"
  by simp

lemma eat_blank_line_append:
  "eat_blank_line a = Some r \<Longrightarrow> eat_blank_line (a @ b) = Some (r @ b)"
  by (auto simp: eat_blank_line_def bind_eq_Some_conv dest: eat_eol_Some_append)

text \<open>A blank line that is there only with what follows begins in a text that holds none.\<close>

lemma short_list_cases:
  "length a \<le> 3 \<Longrightarrow> a = [] \<or> (\<exists>x. a = [x]) \<or> (\<exists>x y. a = [x, y]) \<or> (\<exists>x y z. a = [x, y, z])"
  by (cases a; cases "tl a"; cases "tl (tl a)"; cases "tl (tl (tl a))") auto

lemma eat_blank_line_cut:
  assumes "eat_blank_line a = None" and "eat_blank_line (a @ b) = Some r"
  shows "split_pattern eat_blank_line a = [a]"
proof -
  have "length a \<le> 3"
  proof (rule ccontr)
    assume long: "\<not> length a \<le> 3"
    then have "eat_eol (a @ b) = map_option (\<lambda>r. r @ b) (eat_eol a)" by (simp add: eat_eol_append)
    then obtain s where s: "eat_eol a = Some s" using assms(2)
      by (auto simp: eat_blank_line_def bind_eq_Some_conv)
    have "2 \<le> length s" using s long by (cases a rule: eat_eol.cases) (auto split: if_splits)
    then have "eat_eol (s @ b) = map_option (\<lambda>r. r @ b) (eat_eol s)" by (rule eat_eol_append)
    then show False
      using assms s eat_eol_Some_append [OF s, of b] by (auto simp: eat_blank_line_def)
  qed
  then consider "a = []" | x where "a = [x]" | x y where "a = [x, y]" | x y z where "a = [x, y, z]"
    using short_list_cases by blast
  then show ?thesis
    using assms
  proof cases
    case 1
    then show ?thesis using assms(1) by (simp add: split_Nil)
  next
    case (2 x)
    then show ?thesis using assms(1)
      by (simp add: split_Cons split_Nil eat_blank_line_def split: if_splits)
  next
    case (3 x y)
    then show ?thesis using assms
      by (cases b) (auto simp: split_Cons split_Nil eat_blank_line_def split: if_splits)
  next
    case (4 x y z)
    then show ?thesis using assms
      by (cases b) (auto simp: split_Cons split_Nil eat_blank_line_def split: if_splits)
  qed
qed

lemma split_single: "split_pattern eat_blank_line s = [p] \<Longrightarrow> p = s"
proof (induction s arbitrary: p)
  case Nil
  then show ?case by (simp add: split_Nil eat_blank_line_def)
next
  case (Cons c cs)
  show ?case
  proof (cases "eat_blank_line (c # cs)")
    case None
    then have "split_pattern eat_blank_line cs = [hd (split_pattern eat_blank_line cs)]"
      using Cons.prems by (cases "split_pattern eat_blank_line cs") (auto simp: split_Cons)
    with None Cons show ?thesis by (metis list.sel(1) list.inject split_Cons)
  next
    case (Some r)
    then show ?thesis using Cons.prems eat_blank_line_length [OF Some] by (simp add: split_Some)
  qed
qed

lemma split_append:
  "split_pattern eat_blank_line (a @ b) =
     butlast (split_pattern eat_blank_line a) @
     split_pattern eat_blank_line (last (split_pattern eat_blank_line a) @ b)"
proof (induction a rule: length_induct)
  case (1 a)
  let ?split = "split_pattern eat_blank_line"
  show ?case
  proof (cases "eat_blank_line a")
    case (Some r)
    note len = eat_blank_line_length [OF Some]
    have "?split (r @ b) = butlast (?split r) @ ?split (last (?split r) @ b)" using 1 len by blast
    moreover have "?split (a @ b) = [] # ?split (r @ b)"
      using eat_blank_line_append [OF Some, of b] len by (simp add: split_Some)
    moreover have "?split a = [] # ?split r" using Some len by (simp add: split_Some)
    ultimately show ?thesis by simp
  next
    case None
    show ?thesis
    proof (cases "eat_blank_line (a @ b)")
      case (Some r)
      then show ?thesis using eat_blank_line_cut [OF None Some] by simp
    next
      case both: None
      show ?thesis
      proof (cases a)
        case Nil
        then show ?thesis by (simp add: split_Nil eat_blank_line_def)
      next
        case (Cons c cs)
        have ih: "?split (cs @ b) = butlast (?split cs) @ ?split (last (?split cs) @ b)"
          using 1 Cons by simp
        have sa: "?split a = (c # hd (?split cs)) # tl (?split cs)"
          using None Cons by (simp add: split_Cons)
        have sab: "?split (a @ b) = (c # hd (?split (cs @ b))) # tl (?split (cs @ b))"
          using both Cons by (simp add: split_Cons)
        show ?thesis
        proof (cases "tl (?split cs) = []")
          case True
          then have "?split cs = [cs]" using split_single by (metis list.collapse split_not_Nil)
          then show ?thesis using sa Cons by simp
        next
          case False
          then obtain p q ps where "?split cs = p # q # ps"
            by (metis list.collapse split_not_Nil)
          then show ?thesis using sa sab ih by simp
        qed
      qed
    qed
  qed
qed

definition feed_all :: "string \<Rightarrow> string list \<Rightarrow> string list \<times> string" where
  "feed_all buffer chunks = foldl (\<lambda>(es, b) c. let (es', b') = feed b c in (es @ es', b')) ([], buffer) chunks"

lemma feed_all_snoc:
  "feed_all buffer (cs @ [c]) = (let (es, b) = feed_all buffer cs; (es', b') = feed b c in (es @ es', b'))"
  by (simp add: feed_all_def split: prod.splits)

lemma feed_all_split:
  "feed_all [] cs = (butlast (split_events (concat cs)), last (split_events (concat cs)))"
proof (induction cs rule: rev_induct)
  case Nil
  then show ?case by (simp add: feed_all_def split_events_def split_Nil eat_blank_line_def)
next
  case (snoc c cs)
  let ?a = "concat cs"
  have "split_events (?a @ c) = butlast (split_events ?a) @ split_events (last (split_events ?a) @ c)"
    unfolding split_events_def by (rule split_append)
  then show ?case
    by (simp add: feed_all_snoc snoc feed_def Let_def split_events_def butlast_append)
qed

section \<open>Invariant of the manager\<close>

text \<open>The statuses notified so far, each different from the one before, lead to the present one.\<close>

definition statuses :: "sync_manager \<Rightarrow> connection_status list" where
  "statuses m = concat (map (\<lambda>a. case a of NotifyStatus s \<Rightarrow> [s] | _ \<Rightarrow> []) (mgActions m))"

fun no_repeats :: "connection_status \<Rightarrow> connection_status list \<Rightarrow> bool" where
  "no_repeats s [] = True"
| "no_repeats s (t # ts) = (s \<noteq> t \<and> no_repeats t ts)"

fun armed_delays :: "manager_action list \<Rightarrow> int list" where
  "armed_delays [] = []"
| "armed_delays (ArmReconnect d # as) = d # armed_delays as"
| "armed_delays (a # as) = armed_delays as"

definition manager_ok :: "manager_options \<Rightarrow> sync_manager \<Rightarrow> bool" where
  "manager_ok opts m =
     (no_repeats Disconnected (statuses m) \<and>
      connectionStatus m = last (Disconnected # statuses m) \<and>
      list_all (\<lambda>d. d \<le> optMaxReconnectDelay opts) (armed_delays (mgActions m)) \<and>
      (staleCheck m \<longrightarrow> lastHeartbeatTime m \<noteq> None) \<and>
      lastEventCursor m = None)"

lemma no_repeats_snoc: "no_repeats s (xs @ [t]) = (no_repeats s xs \<and> last (s # xs) \<noteq> t)"
  by (induction xs arbitrary: s) auto

lemma armed_delays_append: "armed_delays (as @ bs) = armed_delays as @ armed_delays bs"
  by (induction as rule: armed_delays.induct) auto

lemma statuses_act [simp]:
  "statuses (act_on a m) = statuses m @ (case a of NotifyStatus s \<Rightarrow> [s] | _ \<Rightarrow> [])"
  by (simp add: statuses_def act_on_def)

lemma statuses_frame [simp]:
  "statuses (m\<lparr>connectionStatus := a\<rparr>) = statuses m" "statuses (m\<lparr>abortController := b\<rparr>) = statuses m"
  "statuses (m\<lparr>reconnectAttempt := c\<rparr>) = statuses m" "statuses (m\<lparr>reconnectTimer := d\<rparr>) = statuses m"
  "statuses (m\<lparr>lastHeartbeatTime := e\<rparr>) = statuses m" "statuses (m\<lparr>staleCheck := f\<rparr>) = statuses m"
  "statuses (m\<lparr>sseBuffer := g\<rparr>) = statuses m"
  by (simp_all add: statuses_def)

lemma manager_ok_frame [simp]:
  "manager_ok opts (m\<lparr>abortController := b\<rparr>) = manager_ok opts m"
  "manager_ok opts (m\<lparr>reconnectAttempt := c\<rparr>) = manager_ok opts m"
  "manager_ok opts (m\<lparr>reconnectTimer := d\<rparr>) = manager_ok opts m"
  "manager_ok opts (m\<lparr>sseBuffer := g\<rparr>) = manager_ok opts m"
  by (simp_all add: manager_ok_def)

lemma manager_ok_act:
  assumes "manager_ok opts m"
    and "case a of NotifyStatus s \<Rightarrow> False | ArmReconnect d \<Rightarrow> d \<le> optMaxReconnectDelay opts | _ \<Rightarrow> True"
  shows "manager_ok opts (act_on a m)"
  using assms
  by (cases a) (auto simp: manager_ok_def armed_delays_append act_on_def statuses_def)

lemma manager_ok_beat: "manager_ok opts m \<Longrightarrow> manager_ok opts (m\<lparr>lastHeartbeatTime := Some t\<rparr>)"
  by (simp add: manager_ok_def)

lemma manager_ok_setStatus: "manager_ok opts m \<Longrightarrow> manager_ok opts (setStatus st m)"
  by (auto simp: setStatus_def manager_ok_def no_repeats_snoc armed_delays_append)
     (auto simp: act_on_def armed_delays_append)

lemma manager_ok_stop: "manager_ok opts m \<Longrightarrow> manager_ok opts (stopStaleCheck m)"
  by (simp add: manager_ok_def stopStaleCheck_def)

lemma manager_ok_start: "manager_ok opts m \<Longrightarrow> manager_ok opts (startStaleCheck t m)"
  by (simp add: manager_ok_def startStaleCheck_def stopStaleCheck_def)

lemma manager_ok_schedule: "manager_ok opts m \<Longrightarrow> manager_ok opts (scheduleReconnect opts m)"
  unfolding scheduleReconnect_def Let_def
  by (rule manager_ok_act) (simp_all add: reconnect_delay_def)

lemma manager_ok_connect: "manager_ok opts m \<Longrightarrow> manager_ok opts (connect m)"
  by (auto simp: connect_def intro!: manager_ok_act manager_ok_setStatus)

lemma manager_ok_disconnect: "manager_ok opts m \<Longrightarrow> manager_ok opts (disconnect m)"
  unfolding disconnect_def Let_def
  by (rule manager_ok_setStatus) (auto intro!: manager_ok_act manager_ok_stop)

lemma manager_ok_message: "manager_ok opts m \<Longrightarrow> manager_ok opts (handle_message ty msg t m)"
  by (auto simp: handle_message_def intro!: manager_ok_act split: option.splits)

lemma manager_ok_process: "manager_ok opts m \<Longrightarrow> manager_ok opts (processEvent opts t m e)"
  by (auto simp: processEvent_def Let_def intro: manager_ok_beat manager_ok_message
      split: option.splits prod.splits)

lemma manager_ok_step: "manager_ok opts m \<Longrightarrow> manager_ok opts (manager_step opts m e)"
proof (cases e)
  case (McChunk c t)
  have "manager_ok opts m \<Longrightarrow> manager_ok opts (foldl (processEvent opts t) m es)" for m es
    by (induction es arbitrary: m) (auto intro: manager_ok_process)
  then show "manager_ok opts m \<Longrightarrow> ?thesis"
    using McChunk by (auto simp: read_chunk_def split: prod.splits)
qed (auto simp: opened_def stream_closed_def stream_failed_def stale_tick_def
       intro!: manager_ok_connect manager_ok_disconnect manager_ok_schedule manager_ok_setStatus
         manager_ok_start split: open_result.splits option.splits)

interpretation manager: stepper "manager_step opts" "manager_ok opts" for opts
  by unfold_locales (rule manager_ok_step)

lemma manager_ok_new: "manager_ok opts new_manager"
  by (simp add: manager_ok_def new_manager_def statuses_def)

section \<open>Reading chunk by chunk\<close>

lemma act_on_buffer: "act_on a (m\<lparr>sseBuffer := b\<rparr>) = (act_on a m)\<lparr>sseBuffer := b\<rparr>"
  by (simp add: act_on_def)

lemma processEvent_buffer:
  "processEvent opts t (m\<lparr>sseBuffer := b\<rparr>) e = (processEvent opts t m e)\<lparr>sseBuffer := b\<rparr>"
  by (auto simp: processEvent_def handle_message_def Let_def act_on_def split: option.splits prod.splits)

lemma process_all_buffer:
  "foldl (processEvent opts t) (m\<lparr>sseBuffer := b\<rparr>) es = (foldl (processEvent opts t) m es)\<lparr>sseBuffer := b\<rparr>"
  by (induction es arbitrary: m) (simp_all add: processEvent_buffer)

lemma processEvent_keeps_buffer: "sseBuffer (processEvent opts t m e) = sseBuffer m"
  by (auto simp: processEvent_def handle_message_def Let_def act_on_def split: option.splits prod.splits)

lemma read_chunks_feed:
  "foldl (\<lambda>m c. read_chunk opts c t m) m cs =
     (let (es, b) = feed_all (sseBuffer m) cs
      in (foldl (processEvent opts t) m es)\<lparr>sseBuffer := b\<rparr>)"
proof (induction cs rule: rev_induct)
  case Nil
  then show ?case by (simp add: feed_all_def)
next
  case (snoc c cs)
  then show ?case
    by (simp add: feed_all_snoc read_chunk_def process_all_buffer Let_def split: prod.splits)
qed

text \<open>The platform of the witnesses: no message parses, the delays are the defaults.\<close>

definition sample_options :: manager_options where
  "sample_options = \<lparr>optReconnectDelay = 1000, optMaxReconnectDelay = 30000, optParse = (\<lambda>s. None)\<rparr>"

section \<open>Properties\<close>

text \<open>
  C31. Two ways of cutting the same text into chunks, inside an event, inside a line end or
  between its carriage return and line feed, leave the manager in the same state: the same pings
  and revocations in the same order, the same heartbeat and the same buffered rest.
\<close>

theorem chunking_does_not_matter:
  assumes "sseBuffer m = []" and "concat cs = concat ds"
  shows "foldl (\<lambda>m c. read_chunk opts c t m) m cs = foldl (\<lambda>m c. read_chunk opts c t m) m ds"
  by (simp add: read_chunks_feed assms feed_all_split)

theorem chunking_does_not_matter_witness:
  "foldl (\<lambda>m c. read_chunk sample_options c 5 m) new_manager [''event: sync'', [CHR 0x0A, CHR 0x0D], CHR 0x0A # ''x''] =
   foldl (\<lambda>m c. read_chunk sample_options c 5 m) new_manager
     [''event: sync'' @ [CHR 0x0A, CHR 0x0D, CHR 0x0A] @ ''x'']"
  by (rule chunking_does_not_matter) (simp_all add: new_manager_def)

text \<open>
  C32. After any sequence of connects, openings, chunks, closings, failures, timer and stale-
  check ticks and disconnects, the notified statuses never repeat and end in the present status,
  no reconnect timer was armed for longer than the maximum delay, and a running stale check has
  a heartbeat time.
\<close>

theorem manager_well_formed_always:
  "manager_ok opts (foldl (manager_step opts) new_manager es)"
  by (rule manager.run_inv) (rule manager_ok_new)

text \<open>
  The events that find what disconnect aborted: the opening and the reading that were under way end
  with AbortError, a chunk that had already been read is still parsed, and the timers tick.
\<close>

definition quiet :: "manager_event \<Rightarrow> bool" where
  "quiet e = (case e of McConnect \<Rightarrow> False | McOpened r t \<Rightarrow> r = OpenAborted
     | McClosed \<Rightarrow> False | McFailed aborted \<Rightarrow> aborted | _ \<Rightarrow> True)"

definition is_down :: "sync_manager \<Rightarrow> bool" where
  "is_down m = (connectionStatus m = Disconnected \<and> \<not> abortController m \<and>
     reconnectTimer m = None \<and> \<not> staleCheck m)"

text \<open>What was told since the manager was m: pings and revocations, and no stream was opened.\<close>

definition only_told :: "sync_manager \<Rightarrow> sync_manager \<Rightarrow> bool" where
  "only_told m m' \<longleftrightarrow> (\<exists>as. mgActions m' = mgActions m @ as \<and>
     (\<forall>a \<in> set as. a = PingSync \<or> (\<exists>r. a = NotifyRevoked r)))"

lemma only_told_refl: "mgActions m' = mgActions m \<Longrightarrow> only_told m m'"
  by (simp add: only_told_def)

lemma only_told_trans: "only_told m m' \<Longrightarrow> only_told m' m'' \<Longrightarrow> only_told m m''"
  by (fastforce simp: only_told_def)

lemma disconnect_down: "is_down (disconnect m)"
  by (auto simp: disconnect_def Let_def setStatus_def act_on_def stopStaleCheck_def is_down_def)

lemma down_disconnect: "is_down m \<Longrightarrow> disconnect m = m"
  by (cases m) (simp add: is_down_def disconnect_def setStatus_def stopStaleCheck_def Let_def)

lemma down_event: "is_down m \<Longrightarrow> is_down (processEvent opts t m e) \<and> only_told m (processEvent opts t m e)"
  by (auto simp: processEvent_def handle_message_def Let_def act_on_def is_down_def only_told_def
      split: option.splits prod.splits)

lemma down_events:
  "is_down m \<Longrightarrow> is_down (foldl (processEvent opts t) m es) \<and> only_told m (foldl (processEvent opts t) m es)"
proof (induction es arbitrary: m)
  case (Cons e es)
  with down_event [OF Cons.prems, of opts t e] show ?case using only_told_trans by fastforce
qed (simp add: only_told_refl)

lemma down_chunk: "is_down m \<Longrightarrow> is_down (read_chunk opts c t m) \<and> only_told m (read_chunk opts c t m)"
  using down_events [of "m\<lparr>sseBuffer := b\<rparr>" opts t es for b es]
  by (auto simp: read_chunk_def is_down_def only_told_def split: prod.split)

lemma quiet_step_down:
  assumes "quiet e" and "is_down m"
  shows "is_down (manager_step opts m e) \<and> only_told m (manager_step opts m e)"
  using assms down_chunk [OF assms(2)]
  by (cases e) (auto simp: quiet_def opened_def stream_failed_def is_down_def only_told_refl down_disconnect)

lemma loud_step_up: "\<not> quiet e \<Longrightarrow> is_down m \<Longrightarrow> \<not> is_down (manager_step opts m e)"
  by (cases e) (auto simp: quiet_def is_down_def connect_def opened_def scheduleReconnect_def stream_closed_def
      stream_failed_def startStaleCheck_def setStatus_def act_on_def Let_def split: open_result.splits)



lemma failing_cycle:
  fixes opts :: manager_options and t :: int
  assumes "connectionStatus m = ErrorStatus" and "reconnectTimer m \<noteq> None"
  defines "m' \<equiv> foldl (manager_step opts) m [McTimer, McOpened OpenThrew t]"
  shows "connectionStatus m' = ErrorStatus" "reconnectTimer m' \<noteq> None"
    "reconnectAttempt m' = Suc (reconnectAttempt m)"
    "armed_delays (mgActions m') = armed_delays (mgActions m) @ [reconnect_delay opts (reconnectAttempt m)]"
  using assms(1,2)
  by (simp_all add: m'_def connect_def setStatus_def act_on_def opened_def scheduleReconnect_def
      Let_def armed_delays_append)

text \<open>
  From a failed connection with its timer armed, each further round of timer and failed
  opening arms exactly the next delay of the exponential back-off, the base delay doubled once
  per attempt and capped at the maximum.
\<close>

theorem reconnect_backs_off:
  assumes "connectionStatus m = ErrorStatus" and "reconnectTimer m \<noteq> None"
  shows "armed_delays (mgActions (foldl (manager_step opts) m
           (concat (replicate n [McTimer, McOpened OpenThrew t])))) =
         armed_delays (mgActions m) @
           map (reconnect_delay opts) [reconnectAttempt m..<reconnectAttempt m + n]"
  using assms
proof (induction n arbitrary: m)
  case (Suc n)
  let ?m = "foldl (manager_step opts) m [McTimer, McOpened OpenThrew t]"
  note f = failing_cycle [OF Suc.prems, of opts t]
  have "[reconnectAttempt m..<reconnectAttempt m + Suc n] =
      reconnectAttempt m # [Suc (reconnectAttempt m)..<Suc (reconnectAttempt m) + n]"
    by (simp add: upt_conv_Cons)
  then show ?case using Suc.IH [OF f(1,2)] f(3,4) by simp
qed simp

theorem reconnect_backs_off_witness:
  "armed_delays (mgActions (foldl (manager_step sample_options)
      (manager_step sample_options (connect new_manager) (McOpened OpenThrew 0))
      (concat (replicate 5 [McTimer, McOpened OpenThrew 0])))) =
   [1000, 2000, 4000, 8000, 16000, 30000]"
proof -
  let ?m = "manager_step sample_options (connect new_manager) (McOpened OpenThrew 0)"
  have "connectionStatus ?m = ErrorStatus" and "reconnectTimer ?m \<noteq> None"
    and m: "reconnectAttempt ?m = 1" "armed_delays (mgActions ?m) = [1000]"
    by code_simp+
  then show ?thesis
    using reconnect_backs_off [of ?m sample_options 5 0]
    by (simp add: m reconnect_delay_def sample_options_def upt_rec)
qed

text \<open>
  Storing a cursor makes both the last cursor and the baseline read as it; storing a
  baseline without a cursor makes it read as an initialized baseline that has none.
\<close>

theorem stored_cursor_round_trip:
  assumes "i \<noteq> []"
  shows "\<exists>s1. setStoredLastSyncCursor MemorySyncStorage i s = (Inr (), s1) \<and>
     fst (getStoredLastSyncCursor MemorySyncStorage s1) = Inr (Some i) \<and>
     fst (getStoredSyncBaseline MemorySyncStorage s1) = Inr (Some (Some i)) \<and>
     (\<exists>s2. setStoredSyncBaseline MemorySyncStorage None s1 = (Inr (), s2) \<and>
        fst (getStoredSyncBaseline MemorySyncStorage s2) = Inr (Some None))"
proof -
  obtain s0 where s0: "ssSet MemorySyncStorage ''lastSyncCursor'' (CursorValue (CursorObject (Some i))) s = (Inr (), s0)"
    and v0: "map_of s0 = (map_of s)(''lastSyncCursor'' := Some (CursorValue (CursorObject (Some i))))"
    using local_store.set_law by metis
  obtain s1 where s1: "setStoredSyncBaseline MemorySyncStorage (Some i) s0 = (Inr (), s1)"
    and v1: "map_of s1 = (map_of s0)(''syncBaselineV1'' := Some (BaselineValue True (CursorObject (Some i))))"
    using local_store.set_law [of "''syncBaselineV1''" "BaselineValue True (CursorObject (Some i))" s0]
    by (auto simp: setStoredSyncBaseline_def cursor_json_def)
  obtain s2 where s2: "setStoredSyncBaseline MemorySyncStorage None s1 = (Inr (), s2)"
    and v2: "map_of s2 = (map_of s1)(''syncBaselineV1'' := Some (BaselineValue True CursorNull))"
    using local_store.set_law [of "''syncBaselineV1''" "BaselineValue True CursorNull" s1]
    by (auto simp: setStoredSyncBaseline_def cursor_json_def)
  have "setStoredLastSyncCursor MemorySyncStorage i s = (Inr (), s1)"
    using s0 s1 by (simp add: setStoredLastSyncCursor_def ok_def)
  then show ?thesis
    using s2 v0 v1 v2 assms
    by (auto simp: getStoredLastSyncCursor_def getStoredSyncBaseline_def local_store.get_law act_defs)
qed

theorem stored_cursor_round_trip_witness:
  "\<exists>s1. setStoredLastSyncCursor MemorySyncStorage ''e1'' [] = (Inr (), s1) \<and>
     fst (getStoredSyncBaseline MemorySyncStorage s1) = Inr (Some (Some ''e1''))"
  using stored_cursor_round_trip [of "''e1''" "[]"] by auto

text \<open>
  The code's behaviour, not its documentation: no event of the stream ever sets the last
  event cursor, so saving it writes nothing, whatever the manager has read.
\<close>

theorem stream_cursor_is_never_saved:
  "saveLastSyncCursor storage (foldl (manager_step opts) new_manager es) s = (Inr (), s)"
proof -
  have "lastEventCursor (foldl (manager_step opts) new_manager es) = None"
    using manager.run_inv [OF manager_ok_new] by (auto simp: manager_ok_def)
  then show ?thesis by (simp add: saveLastSyncCursor_def ok_def)
qed

end
