(* ===== verification/Orchestrator.thy ===== *)
theory Orchestrator
  imports DeltaSync SyncManagerProps QueueCalls
begin

text \<open>
  SyncOrchestrator (packages/sync/src/sync-orchestrator.ts): it applies the events a catch-up
  delivers, stores the cursor behind each one it has applied, drains the outbound queue and arms
  the retry timer. Its state holds the queue engine, whose world is also the world the API client
  and the replica act on, and the state of the cursor storage, which sits under keys of its own.

  A trigger that arrives while a catch-up or a drain is running sets a flag the running one reads
  when it ends; ooPinged says of a world whether one arrived. The notifications the queue sends
  during one of its operations are delivered as one, after it. Both loops take fuel and answer
  whether they ended.
\<close>

section \<open>State\<close>

record sync_status =
  stConnection :: connection_status
  stLastSyncTime :: "int option"
  stPendingChanges :: nat
  stCommandSummary :: command_summary
  stError :: "string option"

record ('w, 'm) orch =
  orchQueue :: "'w engine"
  orchStore :: 'm
  orchStatus :: sync_status
  orchEmitted :: nat
  catchUpInFlight :: bool
  catchUpRequested :: bool
  initialBaselineValidated :: bool
  drainingInFlight :: bool
  drainPending :: bool
  retryTimer :: "int option"
  acknowledged :: "string list"

text \<open>acknowledged is a history of the events acknowledged so far; the code keeps none.\<close>

record ('w, 'm) orch_options =
  ooQueueEnv :: "'w env"
  ooApi :: "'w delta_api"
  ooChanges :: "string option \<Rightarrow> nat \<Rightarrow> (js_error, 'w, api_page) act"
  ooReplica :: "'w replica_port"
  ooStorage :: "('m, sync_value) sync_storage"
  ooAccountId :: "string option"
  ooAccountEmail :: "string option"
  ooServerUrl :: "string option"
  ooRefresh :: "(string \<Rightarrow> (js_error, 'w, unit) act) option"
  ooInitialize :: "(string \<Rightarrow> string option \<Rightarrow> (js_error, 'w, string option) act) option"
  ooOnEvent :: "(sync_event \<Rightarrow> (js_error, 'w, unit) act) option"
  ooDrain :: bool
  ooPinged :: "'w \<Rightarrow> bool"

type_synonym ('w, 'm, 'a) orc = "(js_error, ('w, 'm) orch, 'a) act"

definition zero_summary :: command_summary where
  "zero_summary = \<lparr>sumPending = 0, sumRetrying = 0, sumConflicted = 0, sumFailed = 0\<rparr>"

definition new_orchestrator :: "'w engine \<Rightarrow> 'm \<Rightarrow> ('w, 'm) orch" where
  "new_orchestrator q store =
     \<lparr>orchQueue = q, orchStore = store,
      orchStatus = \<lparr>stConnection = Disconnected, stLastSyncTime = None, stPendingChanges = 0,
                    stCommandSummary = zero_summary, stError = None\<rparr>,
      orchEmitted = 0, catchUpInFlight = False, catchUpRequested = False,
      initialBaselineValidated = False, drainingInFlight = False, drainPending = False,
      retryTimer = None, acknowledged = []\<rparr>"

definition in_outside :: "(js_error, 'w, 'a) act \<Rightarrow> ('w, 'm, 'a) orc" where
  "in_outside f = (\<lambda>s. let (r, w) = f (world (orchQueue s))
     in (r, s\<lparr>orchQueue := (orchQueue s)\<lparr>world := w\<rparr>\<rparr>))"

definition in_store :: "(js_error, 'm, 'a) act \<Rightarrow> ('w, 'm, 'a) orc" where
  "in_store f = (\<lambda>s. let (r, m) = f (orchStore s) in (r, s\<lparr>orchStore := m\<rparr>))"

definition patchStatus :: "(sync_status \<Rightarrow> sync_status) \<Rightarrow> ('w, 'm) orch \<Rightarrow> ('w, 'm) orch" where
  "patchStatus f s = s\<lparr>orchStatus := f (orchStatus s), orchEmitted := Suc (orchEmitted s)\<rparr>"

definition getDeltaSyncAccountScope :: "('w, 'm) orch_options \<Rightarrow> ('w, 'm, string) orc" where
  "getDeltaSyncAccountScope opts =
     (if truthy (ooAccountId opts) then ok (the (ooAccountId opts))
      else throw (JsError ''Sync requires an accountId scope''))"

section \<open>Applying an event\<close>

definition acknowledgeEvent :: "('w, 'm) orch_options \<Rightarrow> sync_event \<Rightarrow> ('w, 'm, unit) orc" where
  "acknowledgeEvent opts e =
     and_then (in_store (setStoredLastSyncCursor (ooStorage opts) (evId e))) (\<lambda>_.
     put_state (\<lambda>s. (patchStatus (\<lambda>st. st\<lparr>stLastSyncTime := Some (evTimestamp e)\<rparr>) s)
       \<lparr>acknowledged := acknowledged s @ [evId e]\<rparr>))"

definition applyEvent :: "('w, 'm) orch_options \<Rightarrow> sync_event \<Rightarrow> ('w, 'm, unit) orc" where
  "applyEvent opts e =
     and_then (getDeltaSyncAccountScope opts) (\<lambda>scope.
     and_then (in_outside (performDeltaSync (ooApi opts) (ooReplica opts) e scope
                 (ooServerUrl opts) (ooAccountEmail opts))) (\<lambda>_.
     and_then (case ooOnEvent opts of None \<Rightarrow> ok () | Some f \<Rightarrow> in_outside (f e)) (\<lambda>_.
     acknowledgeEvent opts e)))"

section \<open>Catching up\<close>

definition full_refresh :: "('w, 'm) orch_options \<Rightarrow> ('w, 'm, unit) orc" where
  "full_refresh opts = (case ooRefresh opts of
       None \<Rightarrow> throw (JsError ''Sync requires a staged full-refresh handler'')
     | Some f \<Rightarrow> and_then (getDeltaSyncAccountScope opts) (\<lambda>scope. in_outside (f scope)))"

definition orch_port :: "('w, 'm) orch_options \<Rightarrow> ('w, 'm) orch catchup_port" where
  "orch_port opts =
     \<lparr>changes = (\<lambda>since limit. in_outside (ooChanges opts since limit)), shouldProcessEvent = None,
      onEvent = Some (applyEvent opts), onRequiresFullRefresh = Some (\<lambda>_. full_refresh opts)\<rparr>"

text \<open>
  The baseline a pass starts from: the stored one, or the one the server is asked for when there
  is none or it was not validated since the last connection.
\<close>

definition pass_baseline :: "('w, 'm) orch_options \<Rightarrow> ('w, 'm, string option option) orc" where
  "pass_baseline opts =
     and_then (in_store (getStoredSyncBaseline (ooStorage opts))) (\<lambda>baseline. with_state (\<lambda>s.
     case ooInitialize opts of
       None \<Rightarrow> ok baseline
     | Some f \<Rightarrow>
         if \<not> initialBaselineValidated s \<or> baseline = None
         then and_then (getDeltaSyncAccountScope opts) (\<lambda>scope.
              and_then (in_outside (f scope (coalesce baseline None))) (\<lambda>cursor.
              and_then (in_store (setStoredSyncBaseline (ooStorage opts) cursor)) (\<lambda>_.
              and_then (put_state (\<lambda>t. t\<lparr>initialBaselineValidated := True\<rparr>)) (\<lambda>_.
              ok (Some cursor)))))
         else ok baseline))"

definition store_result ::
  "('w, 'm) orch_options \<Rightarrow> string option option \<Rightarrow> catchup_result \<Rightarrow> ('w, 'm, unit) orc" where
  "store_result opts baseline result =
     (if resCursor result \<noteq> []
      then in_store (setStoredLastSyncCursor (ooStorage opts) (resCursor result))
      else if baseline \<noteq> None then in_store (setStoredSyncBaseline (ooStorage opts) None)
      else ok ())"

definition catch_up_pass :: "nat \<Rightarrow> ('w, 'm) orch_options \<Rightarrow> ('w, 'm, bool) orc" where
  "catch_up_pass fuel opts =
     and_then (put_state (\<lambda>s. s\<lparr>catchUpRequested := False\<rparr>)) (\<lambda>_.
     and_then (pass_baseline opts) (\<lambda>baseline.
     and_then (CatchUp.runCatchUp fuel (orch_port opts) 100
                 (coalesce (coalesce baseline None) [])) (\<lambda>result.
     case result of None \<Rightarrow> ok False
     | Some r \<Rightarrow> and_then (store_result opts baseline r) (\<lambda>_. ok True))))"

fun catch_up_passes :: "nat \<Rightarrow> nat \<Rightarrow> ('w, 'm) orch_options \<Rightarrow> ('w, 'm, bool) orc" where
  "catch_up_passes 0 pages opts = ok False"
| "catch_up_passes (Suc fuel) pages opts =
     and_then (catch_up_pass pages opts) (\<lambda>ended.
     and_then (put_state (\<lambda>s. s\<lparr>catchUpRequested :=
                 (catchUpRequested s \<or> ooPinged opts (world (orchQueue s)))\<rparr>)) (\<lambda>_.
     with_state (\<lambda>s. if \<not> ended then ok False
                     else if catchUpRequested s then catch_up_passes fuel pages opts else ok True)))"

definition catchUp :: "nat \<Rightarrow> nat \<Rightarrow> ('w, 'm) orch_options \<Rightarrow> ('w, 'm, bool) orc" where
  "catchUp fuel pages opts = with_state (\<lambda>s.
     if catchUpInFlight s then and_then (put_state (\<lambda>t. t\<lparr>catchUpRequested := True\<rparr>)) (\<lambda>_. ok True)
     else and_then (put_state (\<lambda>t. t\<lparr>catchUpInFlight := True\<rparr>)) (\<lambda>_.
          try_finally (catch_up_passes fuel pages opts) (\<lambda>t. t\<lparr>catchUpInFlight := False\<rparr>)))"

section \<open>Draining\<close>

text \<open>
  The queue's listener: the counters are refreshed and, when the queue grew and draining is on, a
  drain is asked for; while one is running that is its flag.
\<close>

definition queue_changed :: "('w, 'm) orch_options \<Rightarrow> ('w, 'm) orch \<Rightarrow> bool \<times> ('w, 'm) orch" where
  "queue_changed opts s =
     (let pending = getPendingCount (orchQueue s);
          grew = (pending > stPendingChanges (orchStatus s));
          s1 = patchStatus (\<lambda>st. st\<lparr>stPendingChanges := pending,
                 stCommandSummary := getCommandSummary (orchQueue s)\<rparr>) s
      in (ooDrain opts \<and> grew, s1))"

definition on_queue :: "(js_error, 'w engine, 'a) act \<Rightarrow> ('w, 'm, 'a) orc" where
  "on_queue f = (\<lambda>s. let (r, q) = f (orchQueue s) in (r, s\<lparr>orchQueue := q\<rparr>))"

definition notify_queue :: "('w, 'm) orch_options \<Rightarrow> ('w, 'm) orch \<Rightarrow> ('w, 'm) orch" where
  "notify_queue opts s = (let (wanted, s1) = queue_changed opts s
     in if wanted \<and> drainingInFlight s1 then s1\<lparr>drainPending := True\<rparr> else s1)"

definition take_mappings :: "('w, 'm) orch_options \<Rightarrow> ('w, 'm) orch \<Rightarrow> ('w, 'm) orch" where
  "take_mappings opts s =
     (let (mappings, q) = consumeTempIdMappings (orchQueue s)
      in s\<lparr>orchQueue := q\<lparr>world := fold (\<lambda>m. rpReplaceItemId (ooReplica opts) (tempId m)
             (realId m) (mappingAccountId m)) mappings (world q)\<rparr>\<rparr>)"

fun queue_passes :: "nat \<Rightarrow> ('w, 'm) orch_options \<Rightarrow> ('w, 'm, bool) orc" where
  "queue_passes 0 opts = ok False"
| "queue_passes (Suc fuel) opts =
     and_then (put_state (\<lambda>s. s\<lparr>drainPending := False\<rparr>)) (\<lambda>_.
     and_then (\<lambda>s. let (r, t) = on_queue (drain (Suc fuel) (ooQueueEnv opts)) s
                   in (r, notify_queue opts t)) (\<lambda>ended.
     and_then (put_state (take_mappings opts)) (\<lambda>_.
     with_state (\<lambda>s. if \<not> ended then ok False
                     else if drainPending s then queue_passes fuel opts else ok True))))"

definition armRetry :: "('w, 'm) orch_options \<Rightarrow> ('w, 'm) orch \<Rightarrow> ('w, 'm) orch" where
  "armRetry opts s = s\<lparr>retryTimer := map_option
     (\<lambda>t. max 0 (t - now (ooQueueEnv opts) (world (orchQueue s)))) (getNextRetryAt (orchQueue s))\<rparr>"

definition drainQueue :: "nat \<Rightarrow> ('w, 'm) orch_options \<Rightarrow> ('w, 'm, bool) orc" where
  "drainQueue fuel opts = with_state (\<lambda>s.
     if drainingInFlight s then and_then (put_state (\<lambda>t. t\<lparr>drainPending := True\<rparr>)) (\<lambda>_. ok True)
     else and_then (put_state (\<lambda>t. t\<lparr>drainingInFlight := True\<rparr>)) (\<lambda>_.
          try_finally (queue_passes fuel opts)
            (\<lambda>t. armRetry opts (t\<lparr>drainingInFlight := False\<rparr>))))"

section \<open>Triggers\<close>

text \<open>handleSyncPing; a failure is logged and dropped.\<close>

definition handleSyncPing :: "nat \<Rightarrow> nat \<Rightarrow> ('w, 'm) orch_options \<Rightarrow> ('w, 'm, bool) orc" where
  "handleSyncPing fuel pages opts = catch
     (and_then (catchUp fuel pages opts) (\<lambda>a.
      if ooDrain opts then and_then (drainQueue fuel opts) (\<lambda>b. ok (a \<and> b)) else ok a))
     (\<lambda>_. ok True)"

definition handleStatusChange ::
  "nat \<Rightarrow> nat \<Rightarrow> ('w, 'm) orch_options \<Rightarrow> connection_status \<Rightarrow> ('w, 'm, bool) orc" where
  "handleStatusChange fuel pages opts st =
     and_then (put_state (patchStatus (\<lambda>x. x\<lparr>stConnection := st,
        stError := (if st = ErrorStatus then Some ''Connection failed'' else None)\<rparr>))) (\<lambda>_.
     if st = Connected then handleSyncPing fuel pages opts else ok True)"

text \<open>The retry timer clears itself and drains; dispose clears it for good.\<close>

definition retryFires :: "nat \<Rightarrow> ('w, 'm) orch_options \<Rightarrow> ('w, 'm, bool) orc" where
  "retryFires fuel opts = with_state (\<lambda>s. case retryTimer s of
       None \<Rightarrow> ok True
     | Some _ \<Rightarrow> and_then (put_state (\<lambda>t. t\<lparr>retryTimer := None\<rparr>)) (\<lambda>_.
                 catch (drainQueue fuel opts) (\<lambda>_. ok True)))"

definition orch_disconnect :: "('w, 'm) orch \<Rightarrow> ('w, 'm) orch" where
  "orch_disconnect s = patchStatus (\<lambda>x. x\<lparr>stConnection := Disconnected, stError := None\<rparr>)
     (s\<lparr>initialBaselineValidated := False\<rparr>)"

definition orch_dispose :: "('w, 'm) orch \<Rightarrow> ('w, 'm) orch" where
  "orch_dispose s = orch_disconnect (s\<lparr>retryTimer := None\<rparr>)"

section \<open>The stored position\<close>

text \<open>The position a client would start from, and whether there is a stored baseline.\<close>

definition stored_position :: "string \<Rightarrow> sync_value sync_memory \<Rightarrow> string" where
  "stored_position ns m = (case map_of m (namespaced_key ns ''syncBaselineV1'') of
       Some (BaselineValue True c) \<Rightarrow> coalesce (coalesce (valid_cursor c) None) []
     | _ \<Rightarrow> [])"

definition has_baseline :: "string \<Rightarrow> sync_value sync_memory \<Rightarrow> bool" where
  "has_baseline ns m = (case map_of m (namespaced_key ns ''syncBaselineV1'') of
       Some (BaselineValue True c) \<Rightarrow> valid_cursor c \<noteq> None | _ \<Rightarrow> False)"

text \<open>
  The client stands behind the events past, of which it has acknowledged the ones from d on, after
  those of A; v says that the baseline is validated and stored, so that no new one will be fetched.
\<close>

definition synced ::
  "string \<Rightarrow> bool \<Rightarrow> string list \<Rightarrow> nat \<Rightarrow> wire_event list \<Rightarrow> ('w, sync_value sync_memory) orch \<Rightarrow> bool" where
  "synced ns v A d past s = (stored_position ns (orchStore s) = cursor_of past \<and> d \<le> length past \<and>
     acknowledged s = A @ map evId (drop d past) \<and>
     (v \<longrightarrow> initialBaselineValidated s \<and> has_baseline ns (orchStore s)))"

abbreviation scoped :: "string \<Rightarrow> (sync_value sync_memory, sync_value) sync_storage" where
  "scoped ns \<equiv> NamespacedSyncStorage MemorySyncStorage ns"

lemma get_baseline:
  "getStoredSyncBaseline (scoped ns) m =
     (Inr (case map_of m (namespaced_key ns ''syncBaselineV1'') of
        Some (BaselineValue True c) \<Rightarrow> valid_cursor c | _ \<Rightarrow> None), m)"
  by (simp add: getStoredSyncBaseline_def scoped_store.get_law act_defs)

lemma baseline_position:
  "fst (getStoredSyncBaseline (scoped ns) m) = Inr b \<Longrightarrow>
     coalesce (coalesce b None) [] = stored_position ns m"
  by (auto simp: get_baseline stored_position_def split: option.splits sync_value.splits bool.splits)

lemma baseline_stored:
  "fst (getStoredSyncBaseline (scoped ns) m) = Inr b \<Longrightarrow> b \<noteq> None \<longleftrightarrow> has_baseline ns m"
  by (auto simp: get_baseline has_baseline_def split: option.splits sync_value.splits bool.splits)

lemma set_baseline:
  obtains m' where "setStoredSyncBaseline (scoped ns) c m = (Inr (), m')"
    and "c = None \<Longrightarrow> stored_position ns m' = []"
    and "c \<noteq> Some [] \<Longrightarrow> stored_position ns m' = coalesce c [] \<and> has_baseline ns m'"
proof -
  obtain m' where 1: "setStoredSyncBaseline (scoped ns) c m = (Inr (), m')"
    and v: "\<And>k. map_of m' (namespaced_key ns k) = ((\<lambda>k. map_of m (namespaced_key ns k))
        (''syncBaselineV1'' := Some (BaselineValue True (cursor_json c)))) k"
    using scoped_store.set_law [of ns "''syncBaselineV1''" "BaselineValue True (cursor_json c)" m]
    by (auto simp: setStoredSyncBaseline_def fun_eq_iff)
  show thesis
    by (rule that [OF 1]) (auto simp: stored_position_def has_baseline_def v cursor_json_def split: option.splits)
qed

lemma set_cursor:
  assumes "i \<noteq> []"
  obtains m' where "setStoredLastSyncCursor (scoped ns) i m = (Inr (), m')"
    and "stored_position ns m' = i" and "has_baseline ns m'"
proof -
  obtain m1 where 1: "ssSet (scoped ns) ''lastSyncCursor'' (CursorValue (CursorObject (Some i))) m = (Inr (), m1)"
    using scoped_store.set_law by metis
  obtain m2 where 2: "setStoredSyncBaseline (scoped ns) (Some i) m1 = (Inr (), m2)"
    and p: "Some i \<noteq> Some [] \<Longrightarrow> stored_position ns m2 = coalesce (Some i) [] \<and> has_baseline ns m2"
    by (rule set_baseline [of ns "Some i" m1]) blast
  show thesis
    by (rule that [of m2]) (use 1 2 p assms in \<open>simp_all add: setStoredLastSyncCursor_def ok_def\<close>)
qed

section \<open>The position follows the acknowledged events\<close>

text \<open>advances P Q m: from P, m returns in Q or throws in P.\<close>

definition advances :: "('s \<Rightarrow> bool) \<Rightarrow> ('s \<Rightarrow> bool) \<Rightarrow> ('e, 's, 'a) act \<Rightarrow> bool" where
  "advances P Q m = (\<forall>s. P s \<longrightarrow> (case m s of (Inl _, s') \<Rightarrow> P s' | (Inr _, s') \<Rightarrow> Q s'))"

lemma advances_and_then:
  assumes "keeps P m" and "\<And>a. advances P Q (f a)"
  shows "advances P Q (and_then m f)"
  using assms
  by (fastforce simp: advances_def keeps_def and_then_def split: prod.splits sum.splits)

lemma keeps_outside [keeps_intros]: "keeps (synced ns v A d past) (in_outside f)"
  by (auto simp: keeps_def in_outside_def synced_def Let_def split: prod.splits)

lemma keeps_scope [keeps_intros]: "keeps (synced ns v A d past) (getDeltaSyncAccountScope opts)"
  by (auto simp: getDeltaSyncAccountScope_def intro: keeps_intros)

lemma acknowledge_advances:
  assumes "ooStorage opts = scoped ns" and "evId e \<noteq> []"
  shows "advances (synced ns v A d past) (synced ns v A d (past @ [e])) (acknowledgeEvent opts (toSyncEvent e))"
  unfolding advances_def
proof (intro allI impI)
  fix s :: "('a, sync_value sync_memory) orch" assume s: "synced ns v A d past s"
  obtain m' where "setStoredLastSyncCursor (scoped ns) (evId e) (orchStore s) = (Inr (), m')"
    and "stored_position ns m' = evId e" and "has_baseline ns m'"
    by (rule set_cursor [OF assms(2)])
  with s show "case acknowledgeEvent opts (toSyncEvent e) s of (Inl _, s') \<Rightarrow> synced ns v A d past s'
      | (Inr _, s') \<Rightarrow> synced ns v A d (past @ [e]) s'"
    by (simp add: acknowledgeEvent_def assms(1) in_store_def act_defs synced_def cursor_of_def patchStatus_def)
qed

lemma apply_tracks:
  assumes "ooStorage opts = scoped ns" and "log_ok log"
  shows "tracks log (synced ns v A d) (applyEvent opts)"
proof -
  have "advances (synced ns v A d past) (synced ns v A d (past @ [e])) (applyEvent opts (toSyncEvent e))"
    if "evId e \<noteq> []" for past e
    unfolding applyEvent_def
    by (intro advances_and_then keeps_intros acknowledge_advances [OF assms(1) that])
  note adv = this
  show ?thesis
    unfolding tracks_def
  proof (intro allI impI)
    fix past e rest and s :: "('a, sync_value sync_memory) orch"
    assume "log = past @ e # rest" and "synced ns v A d past s"
    with assms(2) have "evId e \<noteq> []" and s: "synced ns v A d past s" by (auto simp: log_ok_def)
    from adv [OF this(1), unfolded advances_def, rule_format, OF s]
    show "case applyEvent opts (toSyncEvent e) s of (Inl _, s') \<Rightarrow> synced ns v A d past s'
        | (Inr _, s') \<Rightarrow> synced ns v A d (past @ [e]) s'" .
  qed
qed

definition serves_pages :: "bool \<Rightarrow> wire_event list \<Rightarrow> ('w, 'm) orch_options \<Rightarrow> bool" where
  "serves_pages named log opts = (\<forall>since limit w page w'.
     ooChanges opts since limit w = (Inr page, w') \<longrightarrow> page = log_page named log since limit)"

lemma serves_pages_port: "serves_pages named log opts \<Longrightarrow> may_serve named log (orch_port opts)"
  by (fastforce simp: serves_pages_def may_serve_def orch_port_def in_outside_def Let_def split: prod.splits)

section \<open>A pass behind its baseline\<close>

text \<open>It starts at the position of the baseline and ends with a longer history.\<close>

definition synced_from ::
  "string \<Rightarrow> bool \<Rightarrow> string list \<Rightarrow> nat \<Rightarrow> wire_event list \<Rightarrow> nat \<Rightarrow> ('w, sync_value sync_memory) orch \<Rightarrow> bool" where
  "synced_from ns v A d log k s = (\<exists>j. k \<le> j \<and> j \<le> length log \<and> synced ns v A d (take j log) s)"

lemma synced_from_prefix:
  assumes "k \<le> length log" and "handled_prefix (synced ns v A d) (take k log) (drop k log) s"
  shows "synced_from ns v A d log k s"
proof -
  obtain n where n: "synced ns v A d (take k log @ take n (drop k log)) s"
    using assms(2) by (auto simp: handled_prefix_def)
  let ?j = "min (k + n) (length log)"
  have "take k log @ take n (drop k log) = take ?j log"
    by (cases "k + n \<le> length log") (simp_all add: take_add min_def)
  with n assms(1) show ?thesis unfolding synced_from_def by (intro exI [where x = ?j]) auto
qed

lemma synced_from_trans: "synced_from ns v A d log j s \<Longrightarrow> k \<le> j \<Longrightarrow> synced_from ns v A d log k s"
  by (auto simp: synced_from_def intro: order_trans)

definition catch_up_outcome ::
  "string \<Rightarrow> bool \<Rightarrow> string list \<Rightarrow> nat \<Rightarrow> wire_event list \<Rightarrow> nat \<Rightarrow>
   (js_error + bool) \<times> ('w, sync_value sync_memory) orch \<Rightarrow> bool" where
  "catch_up_outcome ns v A d log k out = (case out of
       (Inr True, s') \<Rightarrow> synced ns v A d log s' | (_, s') \<Rightarrow> synced_from ns v A d log k s')"

lemma store_result_synced:
  assumes "ooStorage opts = scoped ns" and "synced ns v A d log s" and "resCursor r = cursor_of log"
  shows "\<exists>s'. store_result opts b r s = (Inr (), s') \<and> synced ns v A d log s'"
proof (cases "cursor_of log = []")
  case True
  obtain m' where "setStoredSyncBaseline (scoped ns) None (orchStore s) = (Inr (), m')"
    and "stored_position ns m' = []" and "has_baseline ns m'"
    using set_baseline [of ns None "orchStore s"] by auto
  with True assms show ?thesis
    by (auto simp: store_result_def in_store_def synced_def ok_def)
next
  case False
  obtain m' where "setStoredLastSyncCursor (scoped ns) (cursor_of log) (orchStore s) = (Inr (), m')"
    and "stored_position ns m' = cursor_of log" and "has_baseline ns m'"
    by (rule set_cursor [OF False])
  with False assms show ?thesis
    by (auto simp: store_result_def in_store_def synced_def)
qed

definition deltas :: "nat \<Rightarrow> ('w, 'm) orch_options \<Rightarrow> string option option \<Rightarrow> ('w, 'm, bool) orc" where
  "deltas fuel opts baseline =
     and_then (CatchUp.runCatchUp fuel (orch_port opts) 100 (coalesce (coalesce baseline None) [])) (\<lambda>result.
     case result of None \<Rightarrow> ok False
     | Some r \<Rightarrow> and_then (store_result opts baseline r) (\<lambda>_. ok True))"

lemma put_then: "and_then (put_state g) f s = f () (g s)"
  by (simp add: and_then_def put_state_def)

lemma pass_eq: "catch_up_pass fuel opts s =
    and_then (pass_baseline opts) (deltas fuel opts) (s\<lparr>catchUpRequested := False\<rparr>)"
  by (simp add: catch_up_pass_def deltas_def [abs_def] put_then)

lemma deltas_outcome:
  assumes st: "ooStorage opts = scoped ns" and sv: "serves_pages named log opts" and ok: "log_ok log"
    and k: "k \<le> length log" and fuel: "length log < fuel"
    and s: "synced ns v A d (take k log) s" and b: "coalesce (coalesce b None) [] = cursor_of (take k log)"
  shows "catch_up_outcome ns v A d log k (deltas fuel opts b s) \<and> fst (deltas fuel opts b s) \<noteq> Inr False"
proof -
  let ?past = "take k log" and ?rest = "drop k log"
  have "ends_with (synced ns v A d) ?past ?rest
      (run_pages fuel (orch_port opts) 100 (cursor_of ?past) 0 s)"
    by (rule run_pages_prefix [OF serves_pages_port [OF sv] ok _ _ _ apply_tracks [OF st ok]])
       (use fuel s keepsD [OF keeps_outside] in \<open>auto simp: orch_port_def\<close>)
  then have e: "ends_with (synced ns v A d) ?past ?rest
      (CatchUp.runCatchUp fuel (orch_port opts) 100 (cursor_of ?past) s)"
    by (simp add: CatchUp.runCatchUp_def)
  obtain res s2 where run: "CatchUp.runCatchUp fuel (orch_port opts) 100 (cursor_of ?past) s = (res, s2)"
    by fastforce
  have pass: "deltas fuel opts b s = (case res of
      Inl err \<Rightarrow> (Inl err, s2)
    | Inr None \<Rightarrow> (Inr False, s2)
    | Inr (Some r) \<Rightarrow> and_then (store_result opts b r) (\<lambda>_. ok True) s2)"
    by (simp add: deltas_def and_then_def b run ok_def split: sum.splits option.splits)
  show ?thesis
  proof (cases res)
    case (Inl err)
    with e run pass show ?thesis
      using synced_from_prefix [OF k] by (auto simp: ends_with_def catch_up_outcome_def)
  next
    case (Inr z)
    with e run obtain r where r: "z = Some r" and q: "synced ns v A d log s2" and c: "resCursor r = cursor_of log"
      by (auto simp: ends_with_def split: option.splits)
    obtain s3 where "store_result opts b r s2 = (Inr (), s3)" and "synced ns v A d log s3"
      using store_result_synced [OF st q c] by blast
    with Inr r pass show ?thesis by (simp add: and_then_def ok_def catch_up_outcome_def)
  qed
qed

lemma synced_synced_from: "synced ns v A d log s \<Longrightarrow> k \<le> length log \<Longrightarrow> synced_from ns v A d log k s"
  unfolding synced_from_def by (intro exI [where x = "length log"]) simp

lemma catch_up_outcome_trans:
  "catch_up_outcome ns v A d log j out \<Longrightarrow> k \<le> j \<Longrightarrow> catch_up_outcome ns v A d log k out"
  by (auto simp: catch_up_outcome_def intro: synced_from_trans split: prod.splits sum.splits bool.splits)

lemma catch_up_outcome_weaken:
  "catch_up_outcome ns v A d log k out \<Longrightarrow> catch_up_outcome ns False A d log k out"
  by (auto simp: catch_up_outcome_def synced_from_def synced_def split: prod.splits sum.splits bool.splits)

lemma after_pass:
  assumes p: "catch_up_pass pages opts s = (r, s1)" and out: "catch_up_outcome ns v A d log k (r, s1)"
    and nf: "r \<noteq> Inr False" and k: "k \<le> length log"
    and later: "\<And>t. synced ns v A d log t \<Longrightarrow>
      catch_up_outcome ns v A d log (length log) (catch_up_passes fuel pages opts t)"
  shows "catch_up_outcome ns v A d log k (catch_up_passes (Suc fuel) pages opts s)"
proof (cases r)
  case (Inl e)
  with out p show ?thesis by (simp add: catch_up_outcome_def and_then_def)
next
  case (Inr b)
  with nf have b: "b = True" by simp
  define t where
    "t = s1\<lparr>catchUpRequested := catchUpRequested s1 \<or> ooPinged opts (world (orchQueue s1))\<rparr>"
  have put: "put_state (\<lambda>s. s\<lparr>catchUpRequested :=
      (catchUpRequested s \<or> ooPinged opts (world (orchQueue s)))\<rparr>) s1 = (Inr (), t)"
    by (simp add: put_state_def t_def)
  have t: "synced ns v A d log t" using out Inr b by (simp add: catch_up_outcome_def synced_def t_def)
  from catch_up_outcome_trans [OF later [OF t] k] show ?thesis
    using t p Inr b by (simp add: and_then_def put with_state_def ok_def catch_up_outcome_def)
qed

section \<open>The baseline of a pass\<close>

text \<open>
  What a fetched baseline names: asked by a client that stands at a position in the log, the callback
  answers one in the log, which may be the empty one, before its first event.
\<close>

abbreviation position_arg :: "string \<Rightarrow> string option" where
  "position_arg c \<equiv> (if c = [] then None else Some c)"

definition starts_in_log :: "wire_event list \<Rightarrow> ('w, 'm) orch_options \<Rightarrow> bool" where
  "starts_in_log log opts \<longleftrightarrow> (\<forall>f scope k w c' w'. ooInitialize opts = Some f \<longrightarrow> k \<le> length log \<longrightarrow>
     f scope (position_arg (cursor_of (take k log))) w = (Inr c', w') \<longrightarrow>
     c' \<noteq> Some [] \<and> (\<exists>b \<le> length log. coalesce c' [] = cursor_of (take b log)))"

text \<open>
  A baseline at the b-th event may have been fetched by a catch-up from s: there was none, or it was
  not validated since the connection, and for the stored position the callback answered that one.
\<close>

definition fetched ::
  "string \<Rightarrow> ('w, sync_value sync_memory) orch_options \<Rightarrow> wire_event list \<Rightarrow> ('w, sync_value sync_memory) orch \<Rightarrow> nat \<Rightarrow> bool" where
  "fetched ns opts log s b \<longleftrightarrow> (\<exists>f. ooInitialize opts = Some f \<and>
     (\<not> initialBaselineValidated s \<or> \<not> has_baseline ns (orchStore s)) \<and>
     (\<exists>scope w c w'. f scope (position_arg (stored_position ns (orchStore s))) w = (Inr c, w') \<and> coalesce c [] = cursor_of (take b log)))"

lemma fetched_flags [simp]:
  "fetched ns opts log (s\<lparr>catchUpRequested := x\<rparr>) b = fetched ns opts log s b"
  "fetched ns opts log (s\<lparr>catchUpInFlight := x\<rparr>) b = fetched ns opts log s b"
  by (simp_all add: fetched_def)

lemma read_baseline:
  assumes "ooStorage opts = scoped ns"
  obtains b where "in_store (getStoredSyncBaseline (ooStorage opts)) s = (Inr b, s)"
    and "coalesce (coalesce b None) [] = stored_position ns (orchStore s)" and "b \<noteq> None \<longleftrightarrow> has_baseline ns (orchStore s)"
    and "coalesce b None = position_arg (stored_position ns (orchStore s))"
proof -
  obtain b where b: "getStoredSyncBaseline (scoped ns) (orchStore s) = (Inr b, orchStore s)"
    by (simp add: get_baseline)
  have named: "b \<noteq> Some (Some [])"
    using b by (auto simp: get_baseline elim: valid_cursor.elims split: option.splits sync_value.splits bool.splits if_splits)
  have pos: "coalesce (coalesce b None) [] = stored_position ns (orchStore s)" by (rule baseline_position) (simp add: b)
  show thesis
  proof (rule that [OF _ pos])
    show "in_store (getStoredSyncBaseline (ooStorage opts)) s = (Inr b, s)" by (simp add: in_store_def assms b)
    show "b \<noteq> None \<longleftrightarrow> has_baseline ns (orchStore s)" by (rule baseline_stored) (simp add: b)
    show "coalesce b None = position_arg (stored_position ns (orchStore s))"
      using pos named by (cases b; cases "coalesce b None") auto
  qed
qed

lemma kept_baseline:
  assumes "ooStorage opts = scoped ns" and "ooInitialize opts = None \<or> v" and "synced ns v A d past s"
  obtains b where "pass_baseline opts s = (Inr b, s)" and "coalesce (coalesce b None) [] = cursor_of past"
proof -
  obtain b where b: "in_store (getStoredSyncBaseline (ooStorage opts)) s = (Inr b, s)"
    "coalesce (coalesce b None) [] = stored_position ns (orchStore s)" "b \<noteq> None \<longleftrightarrow> has_baseline ns (orchStore s)"
    by (rule read_baseline [OF assms(1), of s])
  show thesis
    by (rule that [of b])
       (use assms(2,3) b in \<open>auto simp: pass_baseline_def and_then_def with_state_def ok_def synced_def split: option.split\<close>)
qed

lemma first_baseline:
  assumes st: "ooStorage opts = scoped ns" and ans: "starts_in_log log opts" and k: "k \<le> length log"
    and pos: "stored_position ns (orchStore s) = cursor_of (take k log)" and run: "pass_baseline opts s = (r, t)"
  shows "case r of Inl _ \<Rightarrow> synced ns False (acknowledged s) k (take k log) t
    | Inr x \<Rightarrow> \<exists>b \<le> length log. (b = k \<or> fetched ns opts log s b) \<and>
        synced ns (ooInitialize opts \<noteq> None) (acknowledged s) b (take b log) t \<and>
        coalesce (coalesce x None) [] = cursor_of (take b log)"
proof -
  let ?goal = "\<lambda>(r, t). case r of Inl _ \<Rightarrow> synced ns False (acknowledged s) k (take k log) t
    | Inr x \<Rightarrow> \<exists>b \<le> length log. (b = k \<or> fetched ns opts log s b) \<and>
        synced ns (ooInitialize opts \<noteq> None) (acknowledged s) b (take b log) t \<and>
        coalesce (coalesce x None) [] = cursor_of (take b log)"
  obtain x where x: "in_store (getStoredSyncBaseline (ooStorage opts)) s = (Inr x, s)"
    and xp: "coalesce (coalesce x None) [] = cursor_of (take k log)" and xh: "x \<noteq> None \<longleftrightarrow> has_baseline ns (orchStore s)"
    and xc: "coalesce x None = position_arg (stored_position ns (orchStore s))"
    by (rule read_baseline [OF st, of s]) (simp add: pos)
  have here: "synced ns v (acknowledged s) k (take k log) t" if "acknowledged t = acknowledged s"
      "orchStore t = orchStore s" "v \<Longrightarrow> initialBaselineValidated t \<and> has_baseline ns (orchStore s)" for v t
    using that pos k by (simp add: synced_def)
  show ?thesis
  proof (cases "ooInitialize opts")
    case None
    then have "r = Inr x" "t = s"
      using run x by (simp_all add: pass_baseline_def and_then_def with_state_def ok_def)
    with here [of s False] k xp None show ?thesis by auto
  next
    case (Some f)
    show ?thesis
    proof (cases "\<not> initialBaselineValidated s \<or> x = None")
      case False
      then obtain y where "x = Some y" "initialBaselineValidated s" by auto
      then have "r = Inr x" "t = s"
        using run x Some by (simp_all add: pass_baseline_def and_then_def with_state_def ok_def)
      with here [of s True] k xp xh False Some show ?thesis by auto
    next
      case True
      let ?fetch = "\<lambda>scope. and_then (in_outside (f scope (coalesce x None))) (\<lambda>cursor.
          and_then (in_store (setStoredSyncBaseline (ooStorage opts) cursor)) (\<lambda>_.
          and_then (put_state (\<lambda>t. t\<lparr>initialBaselineValidated := True\<rparr>)) (\<lambda>_. ok (Some cursor))))"
      have run': "and_then (getDeltaSyncAccountScope opts) ?fetch s = (r, t)"
        using run x Some True by (auto simp: pass_baseline_def and_then_def with_state_def)
      show ?thesis
      proof (cases "truthy (ooAccountId opts)")
        case False
        with run' have "t = s" "\<exists>e. r = Inl e" by (auto simp: getDeltaSyncAccountScope_def act_defs)
        with here [of s False] show ?thesis by auto
      next
        case scope: True
        obtain z w where z: "f (the (ooAccountId opts)) (coalesce x None) (world (orchQueue s)) = (z, w)" by fastforce
        let ?s1 = "s\<lparr>orchQueue := (orchQueue s)\<lparr>world := w\<rparr>\<rparr>"
        show ?thesis
        proof (cases z)
          case (Inl e)
          then have "r = Inl e" "t = ?s1"
            using run' scope z by (simp_all add: getDeltaSyncAccountScope_def in_outside_def act_defs)
          with here [of ?s1 False] show ?thesis by simp
        next
          case (Inr c)
          have asked: "f (the (ooAccountId opts)) (position_arg (cursor_of (take k log))) (world (orchQueue s)) = (Inr c, w)"
            using z unfolding Inr xc pos .
          from ans [unfolded starts_in_log_def, rule_format, OF Some k asked]
          obtain b where b: "c \<noteq> Some []" "b \<le> length log" "coalesce c [] = cursor_of (take b log)" by blast
          obtain m where m: "setStoredSyncBaseline (scoped ns) c (orchStore s) = (Inr (), m)"
            "c \<noteq> Some [] \<Longrightarrow> stored_position ns m = coalesce c [] \<and> has_baseline ns m"
            using set_baseline [of ns c "orchStore s"] by blast
          have rt: "r = Inr (Some c)" "t = ?s1\<lparr>orchStore := m, initialBaselineValidated := True\<rparr>"
            using run' scope z Inr m(1) st by (simp_all add: getDeltaSyncAccountScope_def in_outside_def in_store_def act_defs)
          have "fetched ns opts log s b"
            unfolding fetched_def using Some True xh asked [folded pos] b(3) by blast
          moreover have "synced ns True (acknowledged s) b (take b log) t"
            using m(2) [OF b(1)] b rt by (simp add: synced_def)
          ultimately show ?thesis using rt(1) b(2,3) Some by auto
        qed
      qed
    qed
  qed
qed

section \<open>A catch-up\<close>

lemma later_passes:
  assumes st: "ooStorage opts = scoped ns" and sv: "serves_pages named log opts" and ok: "log_ok log"
    and v: "ooInitialize opts = None \<or> v" and pages: "length log < pages"
    and k: "k \<le> length log" and s: "synced ns v A d (take k log) s"
  shows "catch_up_outcome ns v A d log k (catch_up_passes fuel pages opts s)"
  using k s
proof (induction fuel arbitrary: k s)
  case 0
  then show ?case by (auto simp: catch_up_outcome_def ok_def synced_from_def)
next
  case (Suc fuel)
  let ?s = "s\<lparr>catchUpRequested := False\<rparr>"
  have s1: "synced ns v A d (take k log) ?s" using Suc.prems(2) by (simp add: synced_def)
  obtain b where b: "pass_baseline opts ?s = (Inr b, ?s)" "coalesce (coalesce b None) [] = cursor_of (take k log)"
    by (rule kept_baseline [OF st v s1])
  have eq: "catch_up_pass pages opts s = deltas pages opts b ?s" by (simp add: pass_eq and_then_def b(1))
  obtain r t where run: "deltas pages opts b ?s = (r, t)" by fastforce
  show ?case
    by (rule after_pass [OF eq [unfolded run]])
       (use deltas_outcome [OF st sv ok Suc.prems(1) pages s1 b(2)] run Suc.prems(1) Suc.IH [of "length log"] in auto)
qed

lemma all_passes:
  assumes st: "ooStorage opts = scoped ns" and sv: "serves_pages named log opts" and ok: "log_ok log"
    and ans: "starts_in_log log opts" and pages: "length log < pages" and k: "k \<le> length log"
    and pos: "stored_position ns (orchStore s) = cursor_of (take k log)"
  shows "\<exists>b \<le> length log. (b = k \<or> fetched ns opts log s b) \<and>
    catch_up_outcome ns False (acknowledged s) b log b (catch_up_passes fuel pages opts s)"
proof (cases fuel)
  case 0
  then show ?thesis using k pos
    by (intro exI [where x = k]) (auto simp: catch_up_outcome_def ok_def synced_from_def synced_def)
next
  case (Suc fuel')
  let ?s = "s\<lparr>catchUpRequested := False\<rparr>"
  obtain x t where base: "pass_baseline opts ?s = (x, t)" by fastforce
  have acks: "acknowledged ?s = acknowledged s" by simp
  have first: "case x of Inl _ \<Rightarrow> synced ns False (acknowledged s) k (take k log) t
    | Inr x \<Rightarrow> \<exists>b \<le> length log. (b = k \<or> fetched ns opts log s b) \<and>
        synced ns (ooInitialize opts \<noteq> None) (acknowledged s) b (take b log) t \<and>
        coalesce (coalesce x None) [] = cursor_of (take b log)"
    using first_baseline [OF st ans k _ base] pos unfolding fetched_flags acks by simp
  show ?thesis
  proof (cases x)
    case (Inl e)
    then have "catch_up_passes fuel pages opts s = (Inl e, t)" using base Suc by (simp add: pass_eq and_then_def)
    with Inl first k show ?thesis
      by (intro exI [where x = k]) (auto simp: catch_up_outcome_def synced_from_def)
  next
    case (Inr y)
    with first obtain b where b: "b \<le> length log" "b = k \<or> fetched ns opts log s b"
      "synced ns (ooInitialize opts \<noteq> None) (acknowledged s) b (take b log) t"
      "coalesce (coalesce y None) [] = cursor_of (take b log)" by auto
    let ?v = "ooInitialize opts \<noteq> None" and ?A = "acknowledged s"
    obtain r u where run: "deltas pages opts y t = (r, u)" by fastforce
    have eq: "catch_up_pass pages opts s = (r, u)" using base Inr run by (simp add: pass_eq and_then_def)
    have v: "ooInitialize opts = None \<or> ?v" by blast
    have "catch_up_outcome ns ?v ?A b log b (catch_up_passes (Suc fuel') pages opts s)"
      by (rule after_pass [OF eq])
         (use deltas_outcome [OF st sv ok b(1) pages b(3,4)] run b(1) later_passes [OF st sv ok v pages order_refl] in auto)
    from catch_up_outcome_weaken [OF this] show ?thesis using b(1,2) Suc by blast
  qed
qed

section \<open>Properties\<close>


text \<open>
  Whether a drain returns or throws, it is no longer in flight, and the retry timer is
  armed for the time left until the earliest retry in the queue, at least zero, or cleared when
  no command is waiting to be retried.
\<close>

theorem drain_arms_the_retry_timer:
  assumes "\<not> drainingInFlight s" and "drainQueue fuel opts s = (r, s')"
  shows "\<not> drainingInFlight s' \<and>
     retryTimer s' = (case getNextRetryAt (orchQueue s') of None \<Rightarrow> None
       | Some t \<Rightarrow> Some (max 0 (t - now (ooQueueEnv opts) (world (orchQueue s')))))"
  using assms
  by (auto simp: drainQueue_def act_defs armRetry_def split: prod.splits option.splits)

section \<open>A sample client\<close>

definition sample_replica :: "nat replica_port" where
  "sample_replica = \<lparr>rpUpsertItem = (\<lambda>i acc. ok ()), rpRemoveItem = (\<lambda>i acc. ok ()),
     rpUpsertVault = (\<lambda>v acc. ok ()), rpRemoveVault = (\<lambda>v acc. ok ()), rpClear = (\<lambda>acc. ok ()),
     rpSyncVaultKeys = (\<lambda>ks acc. ok ()), rpReplaceItemId = (\<lambda>t r acc w. w)\<rparr>"

definition sample_client :: "(nat, sync_value sync_memory) orch_options" where
  "sample_client = \<lparr>ooQueueEnv = sample_env, ooApi = snapshot_api sample_snapshot,
     ooChanges = (\<lambda>since limit. ok (log_page True sample_log since limit)),
     ooReplica = sample_replica, ooStorage = scoped ''u'', ooAccountId = Some ''a'',
     ooAccountEmail = None, ooServerUrl = None, ooRefresh = None, ooInitialize = Some (\<lambda>scope c. ok (Some (coalesce c ''e1''))),
     ooOnEvent = Some (\<lambda>e w. if evId e = ''e2'' \<and> w = 0 then (Inl (TransportError ''offline''), 1)
                            else (Inr (), w)),
     ooDrain = True, ooPinged = (\<lambda>w. False)\<rparr>"

text \<open>A new client fetches a baseline at the first event; the second one fails once and is then acknowledged.\<close>

lemma sample_starts: "starts_in_log sample_log sample_client"
  unfolding starts_in_log_def
proof (intro allI impI)
  fix f scope k w c' w'
  assume "ooInitialize sample_client = Some f" "f scope (position_arg (cursor_of (take k sample_log))) w = (Inr c', w')"
  then have c: "c' = Some (coalesce (position_arg (cursor_of (take k sample_log))) ''e1'')"
    by (auto simp: sample_client_def ok_def)
  have one: "cursor_of (take 1 sample_log) = ''e1''" "1 \<le> length sample_log" by code_simp+
  show "c' \<noteq> Some [] \<and> (\<exists>b \<le> length sample_log. coalesce c' [] = cursor_of (take b sample_log))"
  proof (cases "cursor_of (take k sample_log) = []")
    case True
    with c one show ?thesis by auto
  next
    case False
    moreover have "take k sample_log = take (min k (length sample_log)) sample_log" by (simp add: min_def)
    ultimately show ?thesis using c by (auto intro!: exI [of _ "min k (length sample_log)"])
  qed
qed


theorem drain_arms_the_retry_timer_witness:
  "\<not> drainingInFlight (snd (drainQueue 2 sample_client (new_orchestrator (new_engine 0 None) [])))"
proof -
  have "\<not> drainingInFlight (new_orchestrator (new_engine (0::nat) None) ([] :: sync_value sync_memory))"
    by (simp add: new_orchestrator_def)
  from drain_arms_the_retry_timer [OF this prod.collapse [symmetric]] show ?thesis by blast
qed

end
