(* ===== verification/ItemCacheClaims.thy ===== *)
theory ItemCacheClaims
  imports ItemCacheSpec
begin

text \<open>
  The properties of the item cache on the adapters: isolation of accounts, atomicity of a
  publication under failing writes, the merge it publishes, monotone upserts, batches, round trips
  and the vault cascade.
\<close>

context total_store
begin

lemma runs_batch:
  assumes "bucket_ok (V c)"
  shows "runs (writeNewerItems port c items) V ()
     (V(c := put_many (fold (accept_item (V c)) items []) (V c)))"
proof (cases "items = []")
  case True
  then show ?thesis by (simp add: writeNewerItems_def runs_ok put_many_def)
next
  case False
  have "runs (and_then (valuesOf port c) (\<lambda>stored.
      recordPutMany port c (fold (accept_item stored) items []))) V ()
     (V(c := put_many (fold (accept_item (V c)) items []) (V c)))"
    by (rule runs_and_then [OF runs_valuesOf], rule runs_to [OF runs_put_many])
       (simp add: bucket_ok_map_of [OF assms])
  with False show ?thesis by (simp add: writeNewerItems_def)
qed

lemma runs_singles:
  "runs (for_each items (\<lambda>i. and_then (writeNewerItem port c i) (\<lambda>_. ok ()))) V ()
     (V(c := fold write_one items (V c)))"
proof (induction items arbitrary: V)
  case (Cons i items)
  have 1: "runs (and_then (writeNewerItem port c i) (\<lambda>_. ok ())) V () (V(c := write_one i (V c)))"
    by (rule runs_to [OF runs_and_then [OF runs_writeNewerItem runs_ok]])
       (auto simp: write_one_def)
  show ?case
    unfolding for_each.simps
    by (rule runs_to, rule runs_and_then [OF 1], rule Cons) (simp add: fun_eq_iff)
qed (simp add: runs_ok)

lemma batch_singles:
  assumes "bucket_ok (view s c)"
  obtains s1 s2 where "writeNewerItems port c items s = (Inr (), s1)"
    and "for_each items (\<lambda>i. and_then (writeNewerItem port c i) (\<lambda>_. ok ())) s = (Inr (), s2)"
    and "js_get (view s1 c) = js_get (view s2 c)" and "\<And>d. d \<noteq> c \<Longrightarrow> view s1 d = view s2 d"
proof -
  obtain s1 where 1: "writeNewerItems port c items s = (Inr (), s1)"
    and v1: "view s1 = (view s)(c := put_many (fold (accept_item (view s c)) items []) (view s c))"
    using runsD [OF runs_batch [where V = "view s" and items = items, OF assms]] by (elim exE conjE)
  obtain s2 where 2: "for_each items (\<lambda>i. and_then (writeNewerItem port c i) (\<lambda>_. ok ())) s = (Inr (), s2)"
    and v2: "view s2 = (view s)(c := fold write_one items (view s c))"
    using runsD [OF runs_singles [where items = items and V = "view s" and c = c]] by (elim exE conjE)
  have "bucket_ok (fold (accept_item (view s c)) items [])"
    by (rule fold_accept_ok) (simp add: bucket_ok_def)
  then have "js_get (view s1 c) = overlay (fold (accept_item (view s c)) items []) (view s c)"
    by (auto simp: v1 js_get_put_many overlay_def fun_eq_iff)
  also have "\<dots> = js_get (view s2 c)"
    using batch_overlay [of "view s c" "[]" "view s c" items] by (simp add: v2 overlay_def fun_eq_iff)
  finally show thesis using that 1 2 v1 v2 by simp
qed

end

interpretation memory: total_store "createInMemoryRecordPort prefix" bucketFor for prefix
  by unfold_locales (simp_all add: createInMemoryRecordPort_def)

section \<open>Sample data\<close>

definition sample_item :: "string \<Rightarrow> int \<Rightarrow> cached_item" where
  "sample_item i v =
     \<lparr>itemId = i, itemVaultId = ''v'', itemCategory = ''login'', itemFavorite = False,
      itemData = ''d'', itemIv = ''i'', itemAlgorithm = ''g'', itemVersion = v,
      itemLastModifiedBy = ''u'', itemEncryptionVersion = v, itemEncryptedBy = ''u'',
      itemCreatedAt = ''t'', itemUpdatedAt = ''t'', cachedDeletedAt = None,
      cachedScope = \<lparr>scopeAccountId = Some ''a'', scopeAccountEmail = None, scopeServerUrl = None\<rparr>,
      cachedAttachments = None\<rparr>"

definition sample_metadata :: cache_metadata where
  "sample_metadata = \<lparr>lastFullSyncAt = 1, itemCount = 0, cacheVersion = 1, metaSyncBaseline = None\<rparr>"

definition sample_stage :: staging where
  "sample_stage = \<lparr>stAccount = ''a'', stGeneration = ''g'', settled = False\<rparr>"

text \<open>One active item at version 1 since before the bootstrap; it is staged at version 2.\<close>

definition sample_memory :: memory where
  "sample_memory =
     [(''a:items'', [(''x'', ItemText (sample_item ''x'' 1))]),
      (stage_item_baseline sample_stage, [(''x'', ItemText (sample_item ''x'' 1))]),
      (stage_items sample_stage, [(''x'', ItemText (sample_item ''x'' 2))])]"

lemma bucket_ok_memory:
  assumes "list_all (\<lambda>(c, b). bucket_ok b) m"
  shows "bucket_ok (bucketFor m c)"
  using assms
  by (cases "js_get m c") (auto simp: bucketFor_def bucket_ok_def list_all_iff dest: map_of_SomeD)

lemma sample_memory_ok [simp]: "bucket_ok (bucketFor sample_memory c)"
  by (rule bucket_ok_memory) (simp add: sample_memory_def bucket_ok_def)

lemma plain_a [simp]: "plain_id ''a''" "plain_id ''b''"
  by (simp_all add: plain_id_def)

lemma sample_unpublished [simp]: "unpublished (port :: memory record_port) (bucketFor sample_memory) sample_stage"
proof -
  have "bucketFor sample_memory (metaCollection ''a'') = []" by code_simp
  then show ?thesis
    by (simp add: unpublished_def visible_state_def decode_state_def coldState_def)
       (simp add: sample_stage_def decode_state_def coldState_def)
qed

section \<open>Properties\<close>

text \<open>
  Any sequence of cache operations, staging and promotion included, made for other accounts
  leaves the items and the vaults an account reads exactly as they were.
\<close>

theorem accounts_do_not_mix:
  assumes "plain_id b"
    and "list_all (\<lambda>call. plain_id (call_account call) \<and> call_account call \<noteq> b) calls"
  shows "fst (getCachedItems (createInMemoryRecordPort prefix) b
           (foldl (run_cache (createInMemoryRecordPort prefix)) m calls)) =
         fst (getCachedItems (createInMemoryRecordPort prefix) b m) \<and>
         fst (getCachedVaults (createInMemoryRecordPort prefix) b
           (foldl (run_cache (createInMemoryRecordPort prefix)) m calls)) =
         fst (getCachedVaults (createInMemoryRecordPort prefix) b m)"
  using assms by (intro conjI memory.others_unread) (auto simp: list_all_iff)

theorem accounts_do_not_mix_witness:
  "fst (getCachedItems (createInMemoryRecordPort []) ''b''
      (foldl (run_cache (createInMemoryRecordPort [])) []
        [UpsertItem (sample_item ''x'' 1) ''a'', ClearCache ''a''])) =
   fst (getCachedItems (createInMemoryRecordPort []) ''b'' [])"
  by (rule accounts_do_not_mix [THEN conjunct1]) (simp_all add: plain_id_def)

text \<open>
  C3. A store that fails after any number of writes: when the staged generation is promoted,
  either the promotion is settled and the account's active generation is the staged one, or it
  is not settled and every account reads the same items and the same vaults as before the
  promotion began.
\<close>

theorem promotion_is_all_or_nothing:
  assumes "promote (failing_port prefix) g md (n, m) = ((r, g'), s')" and "\<not> settled g"
    and "unpublished (failing_port prefix) (bucketFor m) g" and "plain_id b"
  shows "if settled g'
         then activeGeneration (visible_state (failing_port prefix) (bucketFor (snd s')) (stAccount g)) =
                Some (stGeneration g)
         else fst (getCachedItems (failing_port prefix) b s') =
                fst (getCachedItems (failing_port prefix) b (n, m)) \<and>
              fst (getCachedVaults (failing_port prefix) b s') =
                fst (getCachedVaults (failing_port prefix) b (n, m))"
  using interrupted.promote_all_or_nothing [OF assms(1,2) _ assms(4)] assms(3)
  by (auto simp: interrupted.items_read interrupted.vaults_read)

theorem promotion_is_all_or_nothing_witness:
  "fst (getCachedItems (failing_port []) ''a'' (snd (promote (failing_port []) sample_stage
      sample_metadata (0, sample_memory)))) =
   fst (getCachedItems (failing_port []) ''a'' (0, sample_memory))"
proof -
  obtain r g' s' where p: "promote (failing_port []) sample_stage sample_metadata (0, sample_memory) =
      ((r, g'), s')" by (metis prod.collapse)
  have "\<not> settled (snd (fst (promote (failing_port []) sample_stage sample_metadata (0, sample_memory))))"
    by code_simp
  then have "\<not> settled g'" by (simp add: p)
  moreover have "\<not> settled sample_stage" by (simp add: sample_stage_def)
  moreover have "unpublished (failing_port []) (bucketFor sample_memory) sample_stage"
    using sample_unpublished [of "createInMemoryRecordPort []"]
    by (simp add: unpublished_def visible_state_def decode_state_def coldState_def)
       (simp add: sample_stage_def sample_memory_def bucketFor_def decode_state_def coldState_def
         metaCollection_def collection_defs stage_item_baseline_def stage_items_def)
  ultimately show ?thesis
    using promotion_is_all_or_nothing [OF p, of "''a''"] p by simp
qed

text \<open>
  C20. On a store that does not fail, a promotion returns; afterwards each item of the account
  is the merge specification of what the baseline, the active collection and the stage hold of
  it (local deletions win, local changes and newer versions win, items of vaults deleted
  meanwhile go), and the metadata's item count is the number of items visible.
\<close>

theorem promotion_merges_what_changed:
  fixes prefix :: string and m :: memory
  defines "port \<equiv> createInMemoryRecordPort prefix"
  assumes "unpublished port (bucketFor m) g" and "\<not> settled g" and "stGeneration g \<noteq> []"
    and "list_all (\<lambda>(c, b). bucket_ok b) m"
  shows "\<exists>m'. promote port g md m = ((Inr (), g\<lparr>settled := True\<rparr>), m') \<and>
     js_get (visible_items port (bucketFor m') (stAccount g)) i =
       published_item (js_get (bucketFor m (stage_item_baseline g)) i)
         (js_get (visible_items port (bucketFor m) (stAccount g)) i)
         (js_get (bucketFor m (stage_items g)) i)
         (gone_since (bucketFor m (stage_vault_baseline g))
            (visible_vaults port (bucketFor m) (stAccount g))) \<and>
     stateMetadata (visible_state port (bucketFor m') (stAccount g)) =
       Some (md\<lparr>itemCount := length (visible_items port (bucketFor m') (stAccount g))\<rparr>)"
proof -
  have ok: "bucket_ok (bucketFor m c)" for c by (rule bucket_ok_memory [OF assms(5)])
  obtain m' where 1: "promote port g md m = ((Inr (), g\<lparr>settled := True\<rparr>), m')"
    and 2: "visible_items port (bucketFor m') (stAccount g) =
      (let I = merged_items (bucketFor m (stage_item_baseline g))
                 (visible_items port (bucketFor m) (stAccount g)) (bucketFor m (stage_items g))
       in fold js_delete (orphaned (gone_since (bucketFor m (stage_vault_baseline g))
            (visible_vaults port (bucketFor m) (stAccount g))) I) I)"
    and 3: "stateMetadata (visible_state port (bucketFor m') (stAccount g)) =
      Some (md\<lparr>itemCount := length (visible_items port (bucketFor m') (stAccount g))\<rparr>)"
    unfolding port_def Let_def
    by (rule memory.promote_publishes [OF assms(2) [unfolded port_def] assms(3,4) ok])
  have "bucket_ok (visible_items port (bucketFor m) (stAccount g))"
    by (simp add: visible_items_def ok)
  then have "js_get (visible_items port (bucketFor m') (stAccount g)) i =
      published_item (js_get (bucketFor m (stage_item_baseline g)) i)
         (js_get (visible_items port (bucketFor m) (stAccount g)) i)
         (js_get (bucketFor m (stage_items g)) i)
         (gone_since (bucketFor m (stage_vault_baseline g))
            (visible_vaults port (bucketFor m) (stAccount g)))"
    by (simp add: 2 Let_def published_item_get ok)
  with 1 3 show ?thesis by blast
qed

theorem promotion_merges_what_changed_witness:
  "\<exists>m'. promote (createInMemoryRecordPort []) sample_stage sample_metadata sample_memory =
      ((Inr (), sample_stage\<lparr>settled := True\<rparr>), m') \<and>
    js_get (visible_items (createInMemoryRecordPort []) (bucketFor m') ''a'') ''x'' =
      Some (ItemText (sample_item ''x'' 2))"
proof -
  let ?p = "createInMemoryRecordPort []"
  have acc: "stAccount sample_stage = ''a''" and pending: "\<not> settled sample_stage"
    and named: "stGeneration sample_stage \<noteq> []"
    by (simp_all add: sample_stage_def)
  have buckets: "list_all (\<lambda>(c, b). bucket_ok b) sample_memory"
    by (simp add: sample_memory_def bucket_ok_def)
  have spec: "published_item (js_get (bucketFor sample_memory (stage_item_baseline sample_stage)) ''x'')
         (js_get (visible_items ?p (bucketFor sample_memory) ''a'') ''x'')
         (js_get (bucketFor sample_memory (stage_items sample_stage)) ''x'')
         (gone_since (bucketFor sample_memory (stage_vault_baseline sample_stage))
            (visible_vaults ?p (bucketFor sample_memory) ''a'')) = Some (ItemText (sample_item ''x'' 2))"
    by code_simp
  show ?thesis
    using promotion_merges_what_changed [of "[]" sample_memory sample_stage sample_metadata "''x''",
        OF sample_unpublished pending named buckets] spec
    by (auto simp: acc)
qed

text \<open>
  After an upsert the cache holds every item at its previous version or a later one; for
  the item written it is at least the version written, and the answer is true exactly when the
  version held before was not newer.
\<close>

theorem upsert_never_goes_back:
  fixes prefix :: string and m :: memory
  defines "port \<equiv> createInMemoryRecordPort prefix"
  assumes "plain_id acc" and "upsertCachedItem port i acc m = (r, m')"
    and "js_get (visible_items port (bucketFor m) acc) x = Some (ItemText old)" and "itemId old = x"
  shows "\<exists>new. js_get (visible_items port (bucketFor m') acc) x = Some (ItemText new) \<and>
           itemVersion new \<ge> itemVersion old \<and>
           (x = itemId i \<longrightarrow> itemVersion new \<ge> itemVersion i \<and> r = Inr (itemVersion old \<le> itemVersion i))"
  using memory.upsert_effect [OF assms(2) assms(3) [unfolded port_def], of x] assms(4)
  by (auto simp: port_def storedIsNewer_def)

theorem upsert_never_goes_back_witness:
  "\<exists>new. js_get (visible_items (createInMemoryRecordPort []) (bucketFor (snd (upsertCachedItem
      (createInMemoryRecordPort []) (sample_item ''x'' 0) ''a'' sample_memory))) ''a'') ''x'' =
      Some (ItemText new) \<and> itemVersion new \<ge> 1"
proof -
  have "js_get (visible_items (createInMemoryRecordPort []) (bucketFor sample_memory) ''a'') ''x'' =
      Some (ItemText (sample_item ''x'' 1))" by code_simp
  moreover have "itemVersion (sample_item ''x'' 1) = 1" "itemId (sample_item ''x'' 1) = ''x''"
    by (simp_all add: sample_item_def)
  ultimately show ?thesis
    using upsert_never_goes_back [of "''a''" "[]" "sample_item ''x'' 0" sample_memory _ _ "''x''"
        "sample_item ''x'' 1", OF plain_a(1) prod.collapse [symmetric]]
    by auto
qed

text \<open>
  Writing a batch of items, repeated ids included, in one write leaves in every collection
  exactly the records that writing them one after another with the single-item operation leaves.
\<close>

theorem batch_is_its_items_one_by_one:
  assumes "bucket_ok (bucketFor m c)"
  shows "\<exists>m1 m2. writeNewerItems (createInMemoryRecordPort prefix) c items m = (Inr (), m1) \<and>
     for_each items (\<lambda>i. and_then (writeNewerItem (createInMemoryRecordPort prefix) c i) (\<lambda>_. ok ())) m =
       (Inr (), m2) \<and>
     js_get (bucketFor m1 c) = js_get (bucketFor m2 c) \<and> (\<forall>d. d \<noteq> c \<longrightarrow> bucketFor m1 d = bucketFor m2 d)"
proof -
  obtain m1 m2 where "writeNewerItems (createInMemoryRecordPort prefix) c items m = (Inr (), m1)"
    and "for_each items (\<lambda>i. and_then (writeNewerItem (createInMemoryRecordPort prefix) c i) (\<lambda>_. ok ())) m =
       (Inr (), m2)"
    and "js_get (bucketFor m1 c) = js_get (bucketFor m2 c)" and "\<And>d. d \<noteq> c \<Longrightarrow> bucketFor m1 d = bucketFor m2 d"
    by (rule memory.batch_singles [where items = items and prefix = prefix, OF assms]) blast
  then show ?thesis by blast
qed

theorem batch_is_its_items_one_by_one_witness:
  "\<exists>m1. writeNewerItems (createInMemoryRecordPort []) ''c'' [sample_item ''x'' 2, sample_item ''x'' 1] [] =
     (Inr (), m1)"
  using batch_is_its_items_one_by_one [of "[]" "''c''" "[]" "[sample_item ''x'' 2, sample_item ''x'' 1]"]
  by (auto simp: bucketFor_def bucket_ok_def)

text \<open>
  Storing a list of items with distinct ids returns and is read back as that list, empty or
  not; clearing the cache then returns and both items and vaults read as never synced.
\<close>

theorem cache_round_trip:
  fixes prefix :: string
  defines "port \<equiv> createInMemoryRecordPort prefix"
  assumes "plain_id acc" and "distinct (map itemId items)"
  shows "\<exists>m1. setCachedItems port items acc m = (Inr (), m1) \<and>
           fst (getCachedItems port acc m1) = Inr (Some items) \<and>
         (\<exists>m2. clearItemCache port acc m1 = (Inr (), m2) \<and>
           fst (getCachedItems port acc m2) = Inr None \<and> fst (getCachedVaults port acc m2) = Inr None)"
proof -
  obtain m1 where 1: "setCachedItems port items acc m = (Inr (), m1)"
    and g1: "getCachedItems port acc m1 = (Inr (Some items), m1)"
    unfolding port_def by (rule memory.set_then_get [OF assms(2,3)])
  obtain m2 where "clearItemCache port acc m1 = (Inr (), m2)"
    and "getCachedItems port acc m2 = (Inr None, m2)" and "getCachedVaults port acc m2 = (Inr None, m2)"
    unfolding port_def by (rule memory.clear_then_get)
  with 1 g1 show ?thesis by auto
qed

theorem cache_round_trip_witness:
  "\<exists>m1. setCachedItems (createInMemoryRecordPort []) [sample_item ''x'' 1] ''a'' [] = (Inr (), m1) \<and>
     fst (getCachedItems (createInMemoryRecordPort []) ''a'' m1) = Inr (Some [sample_item ''x'' 1])"
  using cache_round_trip [of "''a''" "[sample_item ''x'' 1]" "[]" "[]"] by auto

text \<open>
  On a store that does not fail, removing a vault returns; the vault is gone, every item of
  it is gone, and every other item is what it was.
\<close>

theorem removing_a_vault_removes_its_items:
  fixes prefix :: string and m :: memory
  defines "port \<equiv> createInMemoryRecordPort prefix"
  assumes "plain_id acc" and "bucket_ok (visible_items port (bucketFor m) acc)"
  shows "\<exists>m'. removeCachedVault port v acc m = (Inr (), m') \<and>
     js_get (visible_vaults port (bucketFor m') acc) v = None \<and>
     js_get (visible_items port (bucketFor m') acc) x =
       (case js_get (visible_items port (bucketFor m) acc) x of
          None \<Rightarrow> None | Some t \<Rightarrow> if in_vault v t then None else Some t)"
  using memory.remove_vault_effect [OF assms(2) assms(3) [unfolded port_def] prod.collapse [symmetric], of v x]
  by (metis port_def prod.collapse)

theorem removing_a_vault_removes_its_items_witness:
  "\<exists>m'. removeCachedVault (createInMemoryRecordPort []) ''v'' ''a'' sample_memory = (Inr (), m') \<and>
     js_get (visible_items (createInMemoryRecordPort []) (bucketFor m') ''a'') ''x'' = None"
proof -
  have "js_get (visible_items (createInMemoryRecordPort []) (bucketFor sample_memory) ''a'') ''x'' =
      Some (ItemText (sample_item ''x'' 1))" by code_simp
  moreover have "in_vault ''v'' (ItemText (sample_item ''x'' 1))"
    by (simp add: in_vault_def sample_item_def)
  moreover have "bucket_ok (visible_items (createInMemoryRecordPort []) (bucketFor sample_memory) ''a'')"
    by (simp add: visible_items_def)
  ultimately show ?thesis
    using removing_a_vault_removes_its_items [of "''a''" "[]" sample_memory "''v''" "''x''"] by auto
qed

end
