(* ===== verification/VaultSession.thy ===== *)
theory VaultSession
  imports Prelude
begin

text \<open>
  The vault session of the browser extension (apps/extension/src/background/vault-session):
  who holds the unlocked vault (types.ts), the pure reducer that decides every transition and the
  effects it asks for (transitions.ts), and the cell around it that commits the new state first
  and then runs the effects in order (machine.ts). The opaque key reference is a string; times
  and timeouts are milliseconds.
\<close>

section \<open>Vocabulary\<close>

datatype vault_owner = OwnerNone | OwnerLocal | OwnerDesktop

datatype lock_reason =
    ReasonManual | ReasonLogout | ReasonTimeout | ReasonDesktopLocked | ReasonDesktopDisconnected
  | ReasonSessionRevoked | ReasonNeverUnlocked

datatype refusal_code = DesktopOwnsLock | DesktopOwnsUnlock

record vault_snapshot =
  snapOwner :: vault_owner
  snapUnlocked :: bool
  snapDesktopMode :: bool
  snapDesktopConnected :: bool
  snapDesktopLocked :: bool
  snapCanLockLocally :: bool
  snapLastActivityAt :: int
  snapAutoLockTimeoutMs :: int
  snapRemainingMs :: "int option"
  snapLockReason :: "lock_reason option"
  snapRevision :: nat

record desktop_snapshot =
  dsConnected :: bool
  dsLocked :: bool
  dsUnlockedAccountIds :: "string list"
  dsAutoLockTimeoutMs :: "int option"

datatype lock_source = FromPopup | FromLogout | FromInternal

datatype vault_event =
    Boot
  | StartupRestored "string list" "string option" int
  | LocalUnlocked string int
  | DesktopObserved "desktop_snapshot option" int
  | DesktopUnlockPushed "string list" int
  | DesktopLockPushed string int
  | DesktopClosed int
  | Activity int
  | TimeoutElapsed int
  | TimeoutSettingChanged int int
  | LockRequested lock_source int
  | SessionRevoked "string option" "string option" int
  | SessionInvalidated "string option" "string option" int

datatype vault_broadcast =
    BroadcastDesktopLocked string
  | BroadcastDesktopUnlocked "string list"
  | BroadcastVaultLocked lock_reason
  | BroadcastSessionRevoked "string option"

datatype vault_effect =
    SetLockIndicator bool
  | ArmAutoLock int
  | DisarmAutoLock
  | StartKeepalive
  | StopKeepalive
  | ClearKeys lock_reason
  | InvalidateSession "string option"
  | DisconnectSync string bool
  | Broadcast vault_broadcast
  | Refuse refusal_code

record vault_state =
  owner :: vault_owner
  desktopConnected :: bool
  desktopLocked :: bool
  lastActivityAt :: int
  lockReason :: "lock_reason option"
  revision :: nat
  muk :: "string option"
  settingsTimeoutMs :: int
  desktopTimeoutMs :: "int option"
  lastRevokedSessionId :: "string option"

section \<open>The reducer\<close>

definition DEFAULT_SETTINGS_TIMEOUT_MS :: int where
  "DEFAULT_SETTINGS_TIMEOUT_MS = 10 * 60 * 1000"

definition createInitialState :: "int \<Rightarrow> vault_state" where
  "createInitialState timeout =
     \<lparr>owner = OwnerNone, desktopConnected = False, desktopLocked = False, lastActivityAt = 0,
      lockReason = None, revision = 0, muk = None, settingsTimeoutMs = timeout,
      desktopTimeoutMs = None, lastRevokedSessionId = None\<rparr>"

definition resolveTimeoutMs :: "vault_state \<Rightarrow> int" where
  "resolveTimeoutMs st =
     (case desktopTimeoutMs st of
        Some t \<Rightarrow> if desktopConnected st then t else settingsTimeoutMs st
      | None \<Rightarrow> settingsTimeoutMs st)"

definition projectSnapshot :: "vault_state \<Rightarrow> int \<Rightarrow> vault_snapshot" where
  "projectSnapshot st time =
     (let timeout = resolveTimeoutMs st;
          unlocked = (owner st \<noteq> OwnerNone);
          desktopMode = (owner st = OwnerDesktop);
          countdownRuns = (unlocked \<and> \<not> desktopMode \<and> timeout \<noteq> -1)
      in \<lparr>snapOwner = owner st, snapUnlocked = unlocked, snapDesktopMode = desktopMode,
          snapDesktopConnected = desktopConnected st, snapDesktopLocked = desktopLocked st,
          snapCanLockLocally = (\<not> desktopConnected st), snapLastActivityAt = lastActivityAt st,
          snapAutoLockTimeoutMs = timeout,
          snapRemainingMs = (if countdownRuns
             then Some (max 0 (timeout - (time - lastActivityAt st))) else None),
          snapLockReason = lockReason st, snapRevision = revision st\<rparr>)"

definition hasChanged :: "vault_state \<Rightarrow> vault_state \<Rightarrow> bool" where
  "hasChanged a b =
     (owner a \<noteq> owner b \<or> desktopConnected a \<noteq> desktopConnected b \<or>
      desktopLocked a \<noteq> desktopLocked b \<or> lastActivityAt a \<noteq> lastActivityAt b \<or>
      lockReason a \<noteq> lockReason b \<or> muk a \<noteq> muk b \<or>
      settingsTimeoutMs a \<noteq> settingsTimeoutMs b \<or> desktopTimeoutMs a \<noteq> desktopTimeoutMs b \<or>
      lastRevokedSessionId a \<noteq> lastRevokedSessionId b)"

definition commit ::
  "vault_state \<Rightarrow> vault_state \<Rightarrow> vault_effect list \<Rightarrow> vault_state \<times> vault_effect list" where
  "commit prev next effects =
     (if \<not> hasChanged prev next then (prev, effects)
      else (next\<lparr>revision := revision prev + 1\<rparr>, effects))"

definition ownershipEffects :: "vault_state \<Rightarrow> int \<Rightarrow> vault_effect list" where
  "ownershipEffects st time =
     (if owner st = OwnerNone then []
      else if owner st = OwnerDesktop then [DisarmAutoLock, StartKeepalive]
      else let timeout = resolveTimeoutMs st in
        if timeout = -1 then [DisarmAutoLock, StartKeepalive]
        else [ArmAutoLock (max 0 (timeout - (time - lastActivityAt st))), StartKeepalive])"

definition lockTransition ::
  "vault_state \<Rightarrow> vault_state \<Rightarrow> lock_reason \<Rightarrow> vault_broadcast option \<Rightarrow> (string \<times> bool) option \<Rightarrow>
   vault_state \<times> vault_effect list" where
  "lockTransition prev base reason broadcast disconnectSync =
     (if owner base = OwnerNone then commit prev base []
      else commit prev
        (base\<lparr>owner := OwnerNone, muk := None, lastActivityAt := 0, lockReason := Some reason\<rparr>)
        ([SetLockIndicator True, DisarmAutoLock, StopKeepalive] @
         (case disconnectSync of None \<Rightarrow> [] | Some (r, suppress) \<Rightarrow> [DisconnectSync r suppress]) @
         [Broadcast (coalesce broadcast (BroadcastVaultLocked reason)), ClearKeys reason]))"

definition unlockLocally :: "vault_state \<Rightarrow> string \<Rightarrow> int \<Rightarrow> vault_state \<times> vault_effect list" where
  "unlockLocally st key at =
     (if desktopConnected st \<and> desktopLocked st then commit st st [Refuse DesktopOwnsUnlock]
      else let next = st\<lparr>owner := OwnerLocal, muk := Some key, lastActivityAt := at,
                        lockReason := None\<rparr>
           in commit st next (SetLockIndicator False # ownershipEffects next at))"

definition reduceDesktopObserved ::
  "vault_state \<Rightarrow> desktop_snapshot option \<Rightarrow> int \<Rightarrow> vault_state \<times> vault_effect list" where
  "reduceDesktopObserved st observed at =
     (let connected = (case observed of None \<Rightarrow> False | Some d \<Rightarrow> dsConnected d);
          locked = (connected \<and> (case observed of None \<Rightarrow> False | Some d \<Rightarrow> dsLocked d));
          timeout = (if connected
             then (case observed of None \<Rightarrow> None | Some d \<Rightarrow> dsAutoLockTimeoutMs d) else None)
      in if connected = desktopConnected st \<and> locked = desktopLocked st \<and>
            timeout = desktopTimeoutMs st
         then commit st st []
         else let base = st\<lparr>desktopConnected := connected, desktopLocked := locked,
                            desktopTimeoutMs := timeout\<rparr>
              in if locked then lockTransition st base ReasonDesktopLocked None None
                 else if \<not> connected \<and> owner st = OwnerDesktop
                 then lockTransition st base ReasonDesktopDisconnected None None
                 else commit st base (ownershipEffects base at))"

definition reduceSessionRevoked ::
  "vault_state \<Rightarrow> string option \<Rightarrow> string option \<Rightarrow> vault_state \<times> vault_effect list" where
  "reduceSessionRevoked st sessionId reason =
     (if sessionId \<noteq> None \<and> sessionId = lastRevokedSessionId st then commit st st []
      else let wasUnlocked = (owner st \<noteq> OwnerNone)
           in commit st
             (st\<lparr>owner := OwnerNone, muk := None, lastActivityAt := 0,
                 lockReason := Some ReasonSessionRevoked, lastRevokedSessionId := sessionId\<rparr>)
             ((if wasUnlocked then [SetLockIndicator True, DisarmAutoLock, StopKeepalive] else []) @
              [DisconnectSync ''session_revoked'' True, Broadcast (BroadcastSessionRevoked reason)] @
              (if wasUnlocked then [ClearKeys ReasonSessionRevoked] else []) @
              [InvalidateSession sessionId]))"

fun reduce :: "vault_state \<Rightarrow> vault_event \<Rightarrow> vault_state \<times> vault_effect list" where
  "reduce st Boot = commit st st [SetLockIndicator (owner st = OwnerNone)]"
| "reduce st (StartupRestored accounts key at) =
     (if owner st \<noteq> OwnerNone then commit st st []
      else case key of
          None \<Rightarrow> commit st (st\<lparr>lockReason := Some (coalesce (lockReason st) ReasonNeverUnlocked)\<rparr>)
                    [SetLockIndicator True]
        | Some k \<Rightarrow> unlockLocally st k at)"
| "reduce st (LocalUnlocked key at) = unlockLocally st key at"
| "reduce st (DesktopObserved observed at) = reduceDesktopObserved st observed at"
| "reduce st (DesktopUnlockPushed accounts at) =
     commit st (st\<lparr>owner := OwnerDesktop, muk := None, desktopConnected := True,
                   desktopLocked := False, lastActivityAt := at, lockReason := None\<rparr>)
       [SetLockIndicator False, DisarmAutoLock, StartKeepalive,
        Broadcast (BroadcastDesktopUnlocked accounts)]"
| "reduce st (DesktopLockPushed reason at) =
     lockTransition st (st\<lparr>desktopConnected := True, desktopLocked := True\<rparr>) ReasonDesktopLocked
       (Some (BroadcastDesktopLocked reason)) None"
| "reduce st (DesktopClosed at) =
     (let base = st\<lparr>desktopConnected := False, desktopLocked := False, desktopTimeoutMs := None\<rparr>
      in if owner st = OwnerDesktop
         then lockTransition st base ReasonDesktopDisconnected None None
         else commit st base (ownershipEffects base at))"
| "reduce st (Activity at) =
     (if owner st = OwnerNone then commit st st []
      else let next = st\<lparr>lastActivityAt := at\<rparr>
           in if owner st = OwnerDesktop then commit st next []
              else commit st next (ownershipEffects next at))"
| "reduce st (TimeoutElapsed at) =
     (if owner st \<noteq> OwnerLocal then commit st st []
      else if resolveTimeoutMs st \<noteq> -1 \<and> at - lastActivityAt st \<ge> resolveTimeoutMs st
      then lockTransition st st ReasonTimeout None None
      else commit st st (ownershipEffects st at))"
| "reduce st (TimeoutSettingChanged timeout at) =
     (if timeout = settingsTimeoutMs st then commit st st []
      else let next = st\<lparr>settingsTimeoutMs := timeout\<rparr>
           in commit st next (ownershipEffects next at))"
| "reduce st (LockRequested source at) =
     (if source = FromPopup \<and> desktopConnected st then commit st st [Refuse DesktopOwnsLock]
      else let reason = (if source = FromLogout then ReasonLogout else ReasonManual)
           in lockTransition st st reason None
                (Some (if source = FromLogout then ''logout'' else ''manual'', False)))"
| "reduce st (SessionRevoked sessionId reason at) = reduceSessionRevoked st sessionId reason"
| "reduce st (SessionInvalidated account email at) =
     lockTransition st st ReasonSessionRevoked (Some (BroadcastSessionRevoked None))
       (Some (''session_invalidated'', True))"

section \<open>The machine\<close>

text \<open>
  ranEffects is the sequence of effects handed to the platform, in the order they are run:
  synchronous effects at once, the ones behind an asynchronous effect after it. An effect that
  fails is logged and skipped by the code; it changes nothing here. A refusal is kept until it is
  consumed.
\<close>

record vault_machine =
  cell :: vault_state
  refusal :: "refusal_code option"
  ranEffects :: "vault_effect list"

definition createVaultSessionMachine :: "vault_state option \<Rightarrow> vault_machine" where
  "createVaultSessionMachine initial =
     \<lparr>cell = coalesce initial (createInitialState DEFAULT_SETTINGS_TIMEOUT_MS),
      refusal = None, ranEffects = []\<rparr>"

fun runEffect :: "vault_effect \<Rightarrow> vault_machine \<Rightarrow> vault_machine" where
  "runEffect (Refuse code) m = m\<lparr>refusal := Some code\<rparr>"
| "runEffect e m = m\<lparr>ranEffects := ranEffects m @ [e]\<rparr>"

definition runEffects :: "vault_effect list \<Rightarrow> vault_machine \<Rightarrow> vault_machine" where
  "runEffects es m = fold runEffect es m"

definition apply_event :: "vault_event \<Rightarrow> vault_machine \<Rightarrow> vault_machine" where
  "apply_event e m = (let (next, effects) = reduce (cell m) e
                      in runEffects effects (m\<lparr>cell := next\<rparr>))"

text \<open>
  dispatchNow projects the snapshot after the commit and before the effects; dispatch projects it
  again once they have settled. The times are those of the clock reads.
\<close>

definition dispatchNow :: "vault_event \<Rightarrow> int \<Rightarrow> vault_machine \<Rightarrow> vault_snapshot \<times> vault_machine" where
  "dispatchNow e time m = (projectSnapshot (fst (reduce (cell m) e)) time, apply_event e m)"

definition dispatch :: "vault_event \<Rightarrow> int \<Rightarrow> vault_machine \<Rightarrow> vault_snapshot \<times> vault_machine" where
  "dispatch e time m = (let m' = apply_event e m in (projectSnapshot (cell m') time, m'))"

text \<open>
  Reading re-evaluates: a desktop status that differs from the state is observed, and a session
  whose countdown has reached zero is timed out, before the snapshot is taken. t1, t2 and t3 are
  the three clock reads. The flag evaluating is up while a read runs: an effect of the read that
  reads back is answered with the state as it stands.
\<close>

definition observe_desktop :: "desktop_snapshot option \<Rightarrow> int \<Rightarrow> vault_machine \<Rightarrow> vault_machine" where
  "observe_desktop observed t1 m =
     (let connected = (case observed of None \<Rightarrow> False | Some d \<Rightarrow> dsConnected d);
          locked = (connected \<and> (case observed of None \<Rightarrow> False | Some d \<Rightarrow> dsLocked d));
          timeout = (if connected
             then (case observed of None \<Rightarrow> None | Some d \<Rightarrow> dsAutoLockTimeoutMs d) else None)
      in if connected \<noteq> desktopConnected (cell m) \<or> locked \<noteq> desktopLocked (cell m) \<or>
            timeout \<noteq> desktopTimeoutMs (cell m)
         then apply_event (DesktopObserved observed t1) m else m)"

definition expire :: "int \<Rightarrow> vault_machine \<Rightarrow> vault_machine" where
  "expire t2 m = (if snapRemainingMs (projectSnapshot (cell m) t2) = Some 0
                  then apply_event (TimeoutElapsed t2) m else m)"

definition getSnapshot ::
  "bool \<Rightarrow> desktop_snapshot option \<Rightarrow> int \<Rightarrow> int \<Rightarrow> int \<Rightarrow> vault_machine \<Rightarrow>
   vault_snapshot \<times> vault_machine" where
  "getSnapshot evaluating observed t1 t2 t3 m =
     (if evaluating then (projectSnapshot (cell m) t3, m)
      else let m' = expire t2 (observe_desktop observed t1 m) in (projectSnapshot (cell m') t3, m'))"

definition consumeRefusal :: "vault_machine \<Rightarrow> refusal_code option \<times> vault_machine" where
  "consumeRefusal m = (refusal m, m\<lparr>refusal := None\<rparr>)"

end
