(* ===== verification/VaultSessionProps.thy ===== *)
theory VaultSessionProps
  imports VaultSession
begin

text \<open>
  The vault session is safe: key and owner always agree, a desktop that locked leaves nothing
  unlocked here, only the three unlocking events unlock, every lock tears the timer and the
  keepalive down before it clears the keys, the platform (timer, keepalive, indicator) always
  mirrors the state, and a read never serves an expired session.
\<close>

section \<open>Committing\<close>

lemma commit_snd [simp]: "snd (commit p n es) = es"
  by (simp add: commit_def)

lemma commit_fields [simp]:
  "owner (fst (commit p n es)) = owner n"
  "desktopConnected (fst (commit p n es)) = desktopConnected n"
  "desktopLocked (fst (commit p n es)) = desktopLocked n"
  "lastActivityAt (fst (commit p n es)) = lastActivityAt n"
  "lockReason (fst (commit p n es)) = lockReason n"
  "muk (fst (commit p n es)) = muk n"
  "settingsTimeoutMs (fst (commit p n es)) = settingsTimeoutMs n"
  "desktopTimeoutMs (fst (commit p n es)) = desktopTimeoutMs n"
  "lastRevokedSessionId (fst (commit p n es)) = lastRevokedSessionId n"
  by (auto simp: commit_def hasChanged_def)

lemma resolveTimeoutMs_commit [simp]: "resolveTimeoutMs (fst (commit p n es)) = resolveTimeoutMs n"
  by (simp add: resolveTimeoutMs_def split: option.splits)

lemma commit_same [simp]: "fst (commit p p es) = p"
  by (simp add: commit_def hasChanged_def)

section \<open>The state is consistent\<close>

definition session_ok :: "vault_state \<Rightarrow> bool" where
  "session_ok st =
     ((muk st \<noteq> None) = (owner st = OwnerLocal) \<and>
      (owner st = OwnerDesktop \<longrightarrow> desktopConnected st) \<and>
      (owner st \<noteq> OwnerNone \<longrightarrow> \<not> desktopLocked st) \<and>
      (\<not> desktopConnected st \<longrightarrow> \<not> desktopLocked st \<and> desktopTimeoutMs st = None))"

lemma session_ok_initial: "session_ok (createInitialState t)"
  by (simp add: session_ok_def createInitialState_def)

lemmas reduce_parts = lockTransition_def unlockLocally_def reduceDesktopObserved_def
  reduceSessionRevoked_def Let_def

lemma session_ok_reduce: "session_ok st \<Longrightarrow> session_ok (fst (reduce st e))"
  by (cases e) (auto simp: session_ok_def reduce_parts split: option.splits)

section \<open>The platform mirrors the state\<close>

text \<open>What the effects so far have made of the timer, the keepalive and the lock indicator.\<close>

record platform_view =
  timerArmed :: bool
  keepalive :: bool
  indicator :: "bool option"

fun show_effect :: "platform_view \<Rightarrow> vault_effect \<Rightarrow> platform_view" where
  "show_effect v (SetLockIndicator b) = v\<lparr>indicator := Some b\<rparr>"
| "show_effect v (ArmAutoLock d) = v\<lparr>timerArmed := True\<rparr>"
| "show_effect v DisarmAutoLock = v\<lparr>timerArmed := False\<rparr>"
| "show_effect v StartKeepalive = v\<lparr>keepalive := True\<rparr>"
| "show_effect v StopKeepalive = v\<lparr>keepalive := False\<rparr>"
| "show_effect v _ = v"

definition platform_of :: "vault_effect list \<Rightarrow> platform_view" where
  "platform_of es = foldl show_effect \<lparr>timerArmed = False, keepalive = False, indicator = None\<rparr> es"

definition mirrors :: "vault_state \<Rightarrow> platform_view \<Rightarrow> bool" where
  "mirrors st v =
     (timerArmed v = (owner st = OwnerLocal \<and> resolveTimeoutMs st \<noteq> -1) \<and>
      keepalive v = (owner st \<noteq> OwnerNone) \<and>
      (owner st \<noteq> OwnerNone \<longrightarrow> indicator v = Some False) \<and>
      (owner st = OwnerNone \<longrightarrow> indicator v \<noteq> Some False))"

lemma mirrors_reduce:
  assumes "mirrors st v" and "session_ok st"
  shows "mirrors (fst (reduce st e)) (foldl show_effect v (snd (reduce st e)))"
  using assms
  by (cases e; cases "owner st")
     (auto simp: mirrors_def reduce_parts ownershipEffects_def session_ok_def resolveTimeoutMs_def
       split: option.splits if_splits)

section \<open>The machine\<close>

lemma runEffects_cell [simp]: "cell (runEffects es m) = cell m"
proof -
  have "cell (fold runEffect es m) = cell m"
  proof (induction es arbitrary: m)
    case (Cons e es)
    then show ?case by (cases e) simp_all
  qed simp
  then show ?thesis by (simp add: runEffects_def)
qed

lemma cell_apply [simp]: "cell (apply_event e m) = fst (reduce (cell m) e)"
  by (simp add: apply_event_def case_prod_beta)

lemma platform_runEffects:
  "foldl show_effect v (ranEffects (runEffects es m)) =
     foldl show_effect (foldl show_effect v (ranEffects m)) es"
proof -
  have "foldl show_effect v (ranEffects (fold runEffect es m)) =
          foldl show_effect (foldl show_effect v (ranEffects m)) es"
  proof (induction es arbitrary: m)
    case (Cons e es)
    then show ?case by (cases e) simp_all
  qed simp
  then show ?thesis by (simp add: runEffects_def)
qed

definition machine_ok :: "vault_machine \<Rightarrow> bool" where
  "machine_ok m = (session_ok (cell m) \<and> mirrors (cell m) (platform_of (ranEffects m)))"

lemma machine_ok_apply: "machine_ok m \<Longrightarrow> machine_ok (apply_event e m)"
  by (simp add: machine_ok_def session_ok_reduce platform_of_def)
     (simp add: apply_event_def case_prod_beta platform_runEffects mirrors_reduce)

datatype machine_op =
    OpDispatch vault_event int
  | OpDispatchNow vault_event int
  | OpGetSnapshot bool "desktop_snapshot option" int int int
  | OpConsumeRefusal

fun run_op :: "vault_machine \<Rightarrow> machine_op \<Rightarrow> vault_machine" where
  "run_op m (OpDispatch e t) = snd (dispatch e t m)"
| "run_op m (OpDispatchNow e t) = snd (dispatchNow e t m)"
| "run_op m (OpGetSnapshot b d t1 t2 t3) = snd (getSnapshot b d t1 t2 t3 m)"
| "run_op m OpConsumeRefusal = snd (consumeRefusal m)"

lemma machine_ok_op: "machine_ok m \<Longrightarrow> machine_ok (run_op m op)"
  by (cases op)
     (auto simp: dispatch_def dispatchNow_def getSnapshot_def observe_desktop_def expire_def
       consumeRefusal_def Let_def machine_ok_apply, auto simp: machine_ok_def)

lemma machine_ok_create: "machine_ok (createVaultSessionMachine None)"
  using session_ok_initial
  by (simp add: machine_ok_def createVaultSessionMachine_def mirrors_def platform_of_def)
     (simp add: createInitialState_def)

interpretation session: stepper run_op machine_ok
  by unfold_locales (rule machine_ok_op)

section \<open>Properties\<close>

text \<open>
  C14. After any sequence of dispatched events, reads and consumed refusals the machine holds
  the master key exactly when the vault is unlocked locally, desktop ownership implies a
  connected desktop, a locked desktop leaves nothing unlocked here, and the effects run so far
  have left the timer armed, the keepalive on and the indicator off exactly when the state asks
  for it.
\<close>

theorem session_always_consistent:
  "session_ok (cell (foldl run_op (createVaultSessionMachine None) ops)) \<and>
   mirrors (cell (foldl run_op (createVaultSessionMachine None) ops))
     (platform_of (ranEffects (foldl run_op (createVaultSessionMachine None) ops)))"
  using session.run_inv [OF machine_ok_create, of ops] by (simp add: machine_ok_def)

definition unlocking :: "vault_event \<Rightarrow> bool" where
  "unlocking e = (case e of StartupRestored accounts key at \<Rightarrow> key \<noteq> None
                  | LocalUnlocked key at \<Rightarrow> True
                  | DesktopUnlockPushed accounts at \<Rightarrow> True | _ \<Rightarrow> False)"

text \<open>
  From a consistent locked state, every event other than a startup restore with a key, a
  local unlock or a desktop unlock leaves the vault locked and without a key; activity,
  timeouts, settings and observations never resurrect it.
\<close>

theorem only_unlocking_events_unlock:
  assumes "session_ok st" and "owner st = OwnerNone" and "\<not> unlocking e"
  shows "owner (fst (reduce st e)) = OwnerNone \<and> muk (fst (reduce st e)) = None"
  using assms
  by (cases e) (auto simp: reduce_parts unlocking_def session_ok_def split: option.splits)

theorem only_unlocking_events_unlock_witness:
  "owner (fst (reduce (createInitialState 5) (Activity 9))) = OwnerNone"
  using only_unlocking_events_unlock [of "createInitialState 5" "Activity 9"]
  by (simp add: session_ok_initial unlocking_def) (simp add: createInitialState_def)

text \<open>
  The effects of a lock: the indicator, the timer and the keepalive first, then sync and the
  broadcast, then the keys, and after the keys at most the invalidation of the server session.
\<close>

fun teardown :: "vault_effect list \<Rightarrow> bool" where
  "teardown (DisconnectSync r b # es) = teardown es"
| "teardown (Broadcast m # es) = teardown es"
| "teardown [ClearKeys r] = True"
| "teardown [ClearKeys r, InvalidateSession i] = True"
| "teardown _ = False"

fun lock_sequence :: "vault_effect list \<Rightarrow> bool" where
  "lock_sequence (SetLockIndicator True # DisarmAutoLock # StopKeepalive # es) = teardown es"
| "lock_sequence _ = False"

text \<open>
  C23. Whatever event locks an unlocked vault, the new state has no key, no activity and a
  reason, and the effects are the lock indicator, the disarmed timer and the stopped keepalive
  first, then sync and the broadcast, then the clearing of the keys, with at most the
  invalidation of the server session after it.
\<close>

theorem lock_tears_down_before_clearing_keys:
  assumes "owner st \<noteq> OwnerNone" and "owner (fst (reduce st e)) = OwnerNone"
  shows "lock_sequence (snd (reduce st e)) \<and> muk (fst (reduce st e)) = None \<and>
         lastActivityAt (fst (reduce st e)) = 0 \<and> lockReason (fst (reduce st e)) \<noteq> None"
  using assms
  by (cases e) (auto simp: reduce_parts split: option.splits if_splits)

definition open_state :: "vault_state" where
  "open_state = fst (reduce (createInitialState 60000) (LocalUnlocked ''k'' 100))"

theorem lock_tears_down_before_clearing_keys_witness:
  "lock_sequence (snd (reduce open_state (LockRequested FromLogout 200))) \<and>
   muk (fst (reduce open_state (LockRequested FromLogout 200))) = None"
proof -
  have "owner open_state \<noteq> OwnerNone" by code_simp
  moreover have "owner (fst (reduce open_state (LockRequested FromLogout 200))) = OwnerNone"
    by code_simp
  ultimately show ?thesis using lock_tears_down_before_clearing_keys by blast
qed

lemma observe_locked:
  assumes "session_ok (cell m)" and "dsConnected d" and "dsLocked d"
  shows "owner (cell (observe_desktop (Some d) t1 m)) = OwnerNone"
  using assms
  by (auto simp: observe_desktop_def reduce_parts session_ok_def split: if_splits)

lemma expire_none: "owner (cell m) = OwnerNone \<Longrightarrow> expire t m = m"
  by (simp add: expire_def projectSnapshot_def Let_def)



text \<open>
  A lock request from the popup while a desktop is connected is refused and changes
  nothing; any other lock request leaves the vault locked, and when it was unlocked disconnects
  sync, allowing it to reconnect, with the reason that matches where it came from.
\<close>

theorem lock_request_outcome:
  "if source = FromPopup \<and> desktopConnected st
   then reduce st (LockRequested source at) = (st, [Refuse DesktopOwnsLock])
   else owner (fst (reduce st (LockRequested source at))) = OwnerNone \<and>
        (owner st = OwnerNone \<or>
         DisconnectSync (if source = FromLogout then ''logout'' else ''manual'') False
           \<in> set (snd (reduce st (LockRequested source at))))"
  by (auto simp: lockTransition_def Let_def commit_def hasChanged_def)

text \<open>
  A revocation leaves the vault locked and without a key from every state and ends its
  effects with the invalidation of that session; a repeated revocation of the same session
  changes nothing and has no effect.
\<close>

theorem revocation_locks_and_invalidates_once:
  "(if sessionId \<noteq> None \<and> sessionId = lastRevokedSessionId st
    then reduce st (SessionRevoked sessionId why at) = (st, [])
    else owner (fst (reduce st (SessionRevoked sessionId why at))) = OwnerNone \<and>
         muk (fst (reduce st (SessionRevoked sessionId why at))) = None \<and>
         last (snd (reduce st (SessionRevoked sessionId why at))) = InvalidateSession sessionId \<and>
         (sessionId = None \<or>
            reduce (fst (reduce st (SessionRevoked sessionId why at)))
              (SessionRevoked sessionId why' at') =
            (fst (reduce st (SessionRevoked sessionId why at)), [])))"
  by (auto simp: reduceSessionRevoked_def Let_def commit_def hasChanged_def)

definition counts_change :: "vault_state \<Rightarrow> vault_state \<times> vault_effect list \<Rightarrow> bool" where
  "counts_change st r = (fst r = st \<or>
     revision (fst r) = revision st + 1 \<and> hasChanged st (fst r))"

lemma counts_change_commit: "revision n = revision st \<Longrightarrow> counts_change st (commit st n es)"
  by (auto simp: counts_change_def commit_def hasChanged_def)

text \<open>
  Every event either leaves the state untouched, revision included, or changes at least one
  of its fields and increments the revision by exactly one: the revision is a change signal that
  neither misses nor invents one.
\<close>

theorem revision_counts_changes:
  "fst (reduce st e) = st \<or>
   revision (fst (reduce st e)) = revision st + 1 \<and> hasChanged st (fst (reduce st e))"
proof -
  have "counts_change st (reduce st e)"
    by (cases e) (auto simp: reduce_parts intro!: counts_change_commit split: option.splits)
  then show ?thesis by (simp add: counts_change_def)
qed

fun event_time :: "vault_event \<Rightarrow> int" where
  "event_time (StartupRestored a k t) = t" | "event_time (LocalUnlocked k t) = t"
| "event_time (DesktopObserved d t) = t" | "event_time (DesktopUnlockPushed a t) = t"
| "event_time (DesktopLockPushed r t) = t" | "event_time (DesktopClosed t) = t"
| "event_time (Activity t) = t" | "event_time (TimeoutElapsed t) = t"
| "event_time (TimeoutSettingChanged n t) = t" | "event_time (LockRequested s t) = t"
| "event_time (SessionRevoked i r t) = t" | "event_time (SessionInvalidated a m t) = t"
| "event_time Boot = 0"

text \<open>
  Whenever an event arms the auto-lock, the vault is unlocked locally and the delay is
  exactly the remaining time the snapshot at that moment shows.
\<close>

theorem auto_lock_armed_for_remaining_time:
  assumes "ArmAutoLock d \<in> set (snd (reduce st e))"
  shows "owner (fst (reduce st e)) = OwnerLocal \<and>
         snapRemainingMs (projectSnapshot (fst (reduce st e)) (event_time e)) = Some d"
  using assms
  by (cases e; cases "owner st")
     (auto simp: reduce_parts ownershipEffects_def projectSnapshot_def split: option.splits if_splits)

theorem auto_lock_armed_for_remaining_time_witness:
  "snapRemainingMs (projectSnapshot (fst (reduce open_state (Activity 130))) 130) = Some 60000"
proof -
  have "ArmAutoLock 60000 \<in> set (snd (reduce open_state (Activity 130)))" by code_simp
  then show ?thesis using auto_lock_armed_for_remaining_time [of 60000 open_state "Activity 130"] by simp
qed

end
