(* ===== verification/Contracts.thy ===== *)
theory Contracts
  imports Prelude
begin

text \<open>
  Contracts of effectful code: under I m P says that m, started in a state with the invariant I,
  leaves a state with I whether it returns or throws, and that a value it returns satisfies P. The
  rules follow the combinators, so what a method guarantees is derived from what the operations it
  is made of guarantee.
\<close>

named_theorems contract_intros

definition under :: "('s \<Rightarrow> bool) \<Rightarrow> ('e, 's, 'a) act \<Rightarrow> ('a \<Rightarrow> bool) \<Rightarrow> bool" where
  "under I m P \<longleftrightarrow> (\<forall>s. I s \<longrightarrow> I (snd (m s)) \<and> (\<forall>a. fst (m s) = Inr a \<longrightarrow> P a))"

lemma underI:
  "(\<And>s r s'. I s \<Longrightarrow> m s = (r, s') \<Longrightarrow> I s' \<and> (\<forall>a. r = Inr a \<longrightarrow> P a)) \<Longrightarrow> under I m P"
  by (simp add: under_def prod_eq_iff)

lemma underD: "under I m P \<Longrightarrow> m s = (r, s') \<Longrightarrow> I s \<Longrightarrow> I s' \<and> (\<forall>a. r = Inr a \<longrightarrow> P a)"
  unfolding under_def by (metis fst_conv snd_conv)

lemma under_keeps: "under I m P \<Longrightarrow> keeps I m"
  by (simp add: under_def keeps_def)

lemma keeps_under: "keeps I m \<Longrightarrow> under I m (\<lambda>_. True)"
  by (simp add: under_def keeps_def)

lemma under_weaken: "under I m P \<Longrightarrow> (\<And>a. P a \<Longrightarrow> Q a) \<Longrightarrow> under I m Q"
  by (simp add: under_def)

lemma under_true: "under I m P \<Longrightarrow> under I m (\<lambda>_. True)"
  by (erule under_weaken) simp

lemma under_ok [contract_intros]: "P a \<Longrightarrow> under I (ok a) P"
  by (simp add: under_def ok_def)

lemma under_throw [contract_intros]: "under I (throw e) P"
  by (simp add: under_def throw_def)

lemma under_and_then:
  assumes "under I m Q" and "\<And>a. Q a \<Longrightarrow> under I (f a) P"
  shows "under I (and_then m f) P"
  using assms by (fastforce simp: under_def and_then_def split: prod.splits sum.splits)

lemma under_seq [contract_intros]:
  assumes "under I m (\<lambda>_. True)" and "\<And>a. under I (f a) P"
  shows "under I (and_then m f) P"
  using assms by (rule under_and_then)

lemma under_catch [contract_intros]:
  assumes "under I m P" and "\<And>e. under I (h e) P"
  shows "under I (catch m h) P"
  using assms by (fastforce simp: under_def catch_def split: prod.splits sum.splits)

lemma under_with_state [contract_intros]:
  assumes "\<And>t. I t \<Longrightarrow> under I (f t) P"
  shows "under I (with_state f) P"
  using assms by (simp add: under_def with_state_def)

lemma under_get_state:
  assumes "\<And>s. I s \<Longrightarrow> P (f s)"
  shows "under I (get_state f) P"
  using assms by (simp add: under_def get_state_def)

lemma under_put_state:
  assumes "\<And>s. I s \<Longrightarrow> I (g s)"
  shows "under I (put_state g) (\<lambda>_. True)"
  using assms by (simp add: under_def put_state_def)

lemma under_if [contract_intros]:
  "(b \<Longrightarrow> under I m P) \<Longrightarrow> (\<not> b \<Longrightarrow> under I n P) \<Longrightarrow> under I (if b then m else n) P"
  by simp

lemma under_option [contract_intros]:
  assumes "z = None \<Longrightarrow> under I m P" and "\<And>x. z = Some x \<Longrightarrow> under I (f x) P"
  shows "under I (case z of None \<Rightarrow> m | Some x \<Rightarrow> f x) P"
  using assms by (cases z) auto

lemma under_prod [contract_intros]:
  assumes "\<And>x y. p = (x, y) \<Longrightarrow> under I (f x y) P"
  shows "under I (case p of (x, y) \<Rightarrow> f x y) P"
  using assms by (cases p) auto

lemma under_sum [contract_intros]:
  assumes "\<And>x. z = Inl x \<Longrightarrow> under I (f x) P" and "\<And>x. z = Inr x \<Longrightarrow> under I (g x) P"
  shows "under I (case z of Inl x \<Rightarrow> f x | Inr x \<Rightarrow> g x) P"
  using assms by (cases z) auto

lemma under_for_each:
  assumes "\<And>x. x \<in> set xs \<Longrightarrow> under I (f x) (\<lambda>_. True)"
  shows "under I (for_each xs f) (\<lambda>_. True)"
  using assms by (induction xs) (auto intro!: contract_intros)

lemma under_all_each:
  assumes "\<And>x. x \<in> set xs \<Longrightarrow> under I (f x) (\<lambda>_. True)"
  shows "under I (all_each xs f) (\<lambda>_. True)"
  using assms by (intro keeps_under keeps_all_each under_keeps) blast

lemma under_map_each:
  assumes "\<And>x. x \<in> set xs \<Longrightarrow> under I (f x) (P x)"
  shows "under I (map_each xs f) (list_all2 P xs)"
  using assms
proof (induction xs)
  case (Cons x xs)
  have "under I (map_each xs f) (list_all2 P xs)" using Cons by simp
  then show ?case
    by (auto intro!: under_and_then [OF Cons.prems [of x]] under_and_then [where Q = "list_all2 P xs"] under_ok)
qed (simp add: under_ok)

text \<open>try .. finally with an effectful final block, whose own failure wins.\<close>

definition finally_do :: "('e, 's, 'a) act \<Rightarrow> ('e, 's, unit) act \<Rightarrow> ('e, 's, 'a) act" where
  "finally_do m f = (\<lambda>s. case m s of (r, s') \<Rightarrow>
     (case f s' of (Inl e, s'') \<Rightarrow> (Inl e, s'') | (Inr _, s'') \<Rightarrow> (r, s'')))"

lemma under_finally_do [contract_intros]:
  assumes "under I m P" and "under I f (\<lambda>_. True)"
  shows "under I (finally_do m f) P"
  using assms by (fastforce simp: under_def finally_do_def split: prod.splits sum.splits)

section \<open>Calls that return\<close>

text \<open>leads I m J: when m, started in a state with I, returns a, it leaves a state with J a.\<close>

definition leads :: "('s \<Rightarrow> bool) \<Rightarrow> ('e, 's, 'a) act \<Rightarrow> ('a \<Rightarrow> 's \<Rightarrow> bool) \<Rightarrow> bool" where
  "leads I m J \<longleftrightarrow> (\<forall>s a s'. I s \<longrightarrow> m s = (Inr a, s') \<longrightarrow> J a s')"

lemma leadsI: "(\<And>s a s'. I s \<Longrightarrow> m s = (Inr a, s') \<Longrightarrow> J a s') \<Longrightarrow> leads I m J"
  by (simp add: leads_def)

lemma leadsD: "leads I m J \<Longrightarrow> I s \<Longrightarrow> m s = (Inr a, s') \<Longrightarrow> J a s'"
  by (simp add: leads_def)

lemma leads_and_then:
  assumes "leads I m J" and "\<And>a. leads (J a) (f a) K"
  shows "leads I (and_then m f) K"
  using assms by (fastforce simp: leads_def and_then_def split: prod.splits sum.splits)

lemma leads_under: "under I m P \<Longrightarrow> leads I m (\<lambda>a s. I s \<and> P a)"
  by (auto simp: under_def leads_def)

lemma leads_ok: "(\<And>s. I s \<Longrightarrow> J a s) \<Longrightarrow> leads I (ok a) J"
  by (simp add: leads_def ok_def)

lemma leads_throw: "leads I (throw e) J"
  by (simp add: leads_def throw_def)

lemma leads_put: "(\<And>s. I s \<Longrightarrow> J () (g s)) \<Longrightarrow> leads I (put_state g) J"
  by (simp add: leads_def put_state_def)

lemma leads_get: "(\<And>s. I s \<Longrightarrow> J (f s) s) \<Longrightarrow> leads I (get_state f) J"
  by (simp add: leads_def get_state_def)

lemma leads_with_state: "(\<And>r. I r \<Longrightarrow> leads (\<lambda>s. s = r \<and> I s) (f r) J) \<Longrightarrow> leads I (with_state f) J"
  by (auto simp: leads_def with_state_def)

lemma leads_if: "(b \<Longrightarrow> leads I m J) \<Longrightarrow> (\<not> b \<Longrightarrow> leads I n J) \<Longrightarrow> leads I (if b then m else n) J"
  by simp

lemma leads_pre: "leads I m J \<Longrightarrow> (\<And>s. H s \<Longrightarrow> I s) \<Longrightarrow> leads H m J"
  by (auto simp: leads_def)

lemma leads_post: "leads I m J \<Longrightarrow> (\<And>a s. J a s \<Longrightarrow> K a s) \<Longrightarrow> leads I m K"
  by (simp add: leads_def)

lemma leads_fact: "(P \<Longrightarrow> leads I m J) \<Longrightarrow> leads (\<lambda>s. I s \<and> P) m J"
  by (auto simp: leads_def)

section \<open>Calls that end either way\<close>

text \<open>
  ends P m E Q: when m is started in a state with P, it leaves a state with E e when it throws e
  and one with Q a when it returns a.
\<close>

definition ends :: "('s \<Rightarrow> bool) \<Rightarrow> ('e, 's, 'a) act \<Rightarrow> ('e \<Rightarrow> 's \<Rightarrow> bool) \<Rightarrow> ('a \<Rightarrow> 's \<Rightarrow> bool) \<Rightarrow> bool" where
  "ends P m E Q \<longleftrightarrow> (\<forall>s r t. P s \<longrightarrow> m s = (r, t) \<longrightarrow> (case r of Inl e \<Rightarrow> E e t | Inr a \<Rightarrow> Q a t))"

lemma endsI:
  assumes "\<And>s e t. P s \<Longrightarrow> m s = (Inl e, t) \<Longrightarrow> E e t" and "\<And>s a t. P s \<Longrightarrow> m s = (Inr a, t) \<Longrightarrow> Q a t"
  shows "ends P m E Q"
  using assms by (auto simp: ends_def split: sum.split)

lemma ends_error: "ends P m E Q \<Longrightarrow> P s \<Longrightarrow> m s = (Inl e, t) \<Longrightarrow> E e t"
  by (fastforce simp: ends_def)

lemma ends_value: "ends P m E Q \<Longrightarrow> P s \<Longrightarrow> m s = (Inr a, t) \<Longrightarrow> Q a t"
  by (fastforce simp: ends_def)

lemma ends_ok: "(\<And>s. P s \<Longrightarrow> Q a s) \<Longrightarrow> ends P (ok a) E Q"
  by (auto simp: ends_def ok_def)

lemma ends_throw: "(\<And>s. P s \<Longrightarrow> E e s) \<Longrightarrow> ends P (throw e) E Q"
  by (auto simp: ends_def throw_def)

lemma ends_and_then:
  assumes "ends P m E R" and "\<And>a. ends (R a) (f a) E Q"
  shows "ends P (and_then m f) E Q"
proof (rule endsI)
  fix s e t assume s: "P s" and run: "and_then m f s = (Inl e, t)"
  obtain r u where m: "m s = (r, u)" by fastforce
  show "E e t"
    using run m ends_error [OF assms(1) s] ends_value [OF assms(1) s] ends_error [OF assms(2)]
    by (cases r) (auto simp: and_then_def)
next
  fix s b t assume s: "P s" and run: "and_then m f s = (Inr b, t)"
  obtain r u where m: "m s = (r, u)" by fastforce
  show "Q b t"
    using run m ends_value [OF assms(1) s] ends_value [OF assms(2)] by (cases r) (auto simp: and_then_def)
qed

lemma ends_catch:
  assumes "ends P m E' Q" and "\<And>e. ends (E' e) (h e) E Q"
  shows "ends P (catch m h) E Q"
proof (rule endsI)
  fix s e t assume s: "P s" and run: "catch m h s = (Inl e, t)"
  obtain r u where m: "m s = (r, u)" by fastforce
  show "E e t" using run m ends_error [OF assms(1) s] ends_error [OF assms(2)] by (cases r) (auto simp: catch_def)
next
  fix s b t assume s: "P s" and run: "catch m h s = (Inr b, t)"
  obtain r u where m: "m s = (r, u)" by fastforce
  show "Q b t"
    using run m ends_value [OF assms(1) s] ends_error [OF assms(1) s] ends_value [OF assms(2)]
    by (cases r) (auto simp: catch_def)
qed

text \<open>A final block that does not throw.\<close>

lemma ends_finally:
  assumes "ends P m E' Q'" and "\<And>e. ends (E' e) f (\<lambda>_ _. False) (\<lambda>_. E e)"
    and "\<And>a. ends (Q' a) f (\<lambda>_ _. False) (\<lambda>_. Q a)"
  shows "ends P (finally_do m f) E Q"
proof (rule endsI)
  fix s e t assume s: "P s" and run: "finally_do m f s = (Inl e, t)"
  obtain r u where m: "m s = (r, u)" by fastforce
  obtain r' u' where f: "f u = (r', u')" by fastforce
  show "E e t"
    using run m f ends_error [OF assms(1) s] ends_value [OF assms(1) s] ends_error [OF assms(2)]
      ends_error [OF assms(3)] ends_value [OF assms(2)]
    by (cases r; cases r') (simp_all add: finally_do_def, blast+)
next
  fix s a t assume s: "P s" and run: "finally_do m f s = (Inr a, t)"
  obtain r u where m: "m s = (r, u)" by fastforce
  obtain r' u' where f: "f u = (r', u')" by fastforce
  show "Q a t"
    using run m f ends_value [OF assms(1) s] ends_value [OF assms(3)] by (cases r; cases r') (auto simp: finally_do_def)
qed

lemma ends_option:
  assumes "z = None \<Longrightarrow> ends P m E Q" and "\<And>x. z = Some x \<Longrightarrow> ends P (f x) E Q"
  shows "ends P (case z of None \<Rightarrow> m | Some x \<Rightarrow> f x) E Q"
  using assms by (cases z) auto

lemma ends_prod:
  assumes "\<And>x y. p = (x, y) \<Longrightarrow> ends P (f x y) E Q"
  shows "ends P (case p of (x, y) \<Rightarrow> f x y) E Q"
  using assms by (cases p) auto

lemma ends_if: "(b \<Longrightarrow> ends P m E Q) \<Longrightarrow> (\<not> b \<Longrightarrow> ends P n E Q) \<Longrightarrow> ends P (if b then m else n) E Q"
  by simp

lemma ends_weaken:
  assumes "ends P m E Q" and "\<And>s. P' s \<Longrightarrow> P s" and "\<And>e s. E e s \<Longrightarrow> E' e s" and "\<And>a s. Q a s \<Longrightarrow> Q' a s"
  shows "ends P' m E' Q'"
  by (rule endsI) (blast intro: assms(2-4) ends_error [OF assms(1)] ends_value [OF assms(1)])+

text \<open>What is known of the start, of a witness or beside the state may be assumed.\<close>

lemma ends_exists: "(\<And>x. ends (P x) m E Q) \<Longrightarrow> ends (\<lambda>s. \<exists>x. P x s) m E Q"
  by (auto simp: ends_def)

lemma ends_fact: "(b \<Longrightarrow> ends P m E Q) \<Longrightarrow> ends (\<lambda>s. b \<and> P s) m E Q"
  by (auto simp: ends_def)

lemma ends_conj_fact: "(b \<Longrightarrow> ends P m E Q) \<Longrightarrow> ends (\<lambda>s. P s \<and> b) m E Q"
  by (auto simp: ends_def)

lemma ends_from: "(\<And>s. P s \<Longrightarrow> ends ((=) s) m E Q) \<Longrightarrow> ends P m E Q"
  by (auto simp: ends_def)

end
