(* ===== verification/VaultCrypto.thy ===== *)
theory VaultCrypto
  imports SyncTypes Contracts
begin

text \<open>
  packages/core/src/services/vault-crypto.ts, the policy above the crypto seam: the contexts every
  ciphertext is bound to, the wrapped vault key and its checks, item and attachment payloads and
  the derivation of account keys; and the key derivation policy of packages/shared/src/kdf-policy.ts
  with the values of packages/crypto/kdf-policy.json.

  The cryptography is the record crypto_port (CryptoPort of packages/crypto/port), whose operations
  act on the state that holds the key table. A plaintext is the JSON text of an item's content or
  any other text; the JSON texts of an envelope and of an encrypted datum are read by parseEnvelope
  and parseData and written by printData.
\<close>

section \<open>Key derivation policy\<close>

record kdf_profile =
  kdfSchemaVersion :: int
  kdfAlgorithm :: string
  kdfIterations :: int

text \<open>An offered profile is unchecked JSON: iterations counts only when it is an integer.\<close>

record untrusted_kdf_profile =
  ukSchemaVersion :: int
  ukAlgorithm :: string
  ukIterations :: "int option"

definition policySchemaVersion :: int where "policySchemaVersion = 1"
definition policyAlgorithm :: string where "policyAlgorithm = ''pbkdf2-sha256''"
definition policyMinimumIterations :: int where "policyMinimumIterations = 600000"
definition policyDefaultIterations :: int where "policyDefaultIterations = 600000"
definition policyMaximumIterations :: int where "policyMaximumIterations = 1200000"

definition currentKdfProfile :: kdf_profile where
  "currentKdfProfile =
     \<lparr>kdfSchemaVersion = policySchemaVersion, kdfAlgorithm = policyAlgorithm,
      kdfIterations = policyDefaultIterations\<rparr>"

definition untrusted :: "kdf_profile \<Rightarrow> untrusted_kdf_profile" where
  "untrusted p =
     \<lparr>ukSchemaVersion = kdfSchemaVersion p, ukAlgorithm = kdfAlgorithm p,
      ukIterations = Some (kdfIterations p)\<rparr>"

definition validateBaseline :: "untrusted_kdf_profile \<Rightarrow> js_error + unit" where
  "validateBaseline p =
     (if ukSchemaVersion p \<noteq> policySchemaVersion
      then Inl (JsError ''Unsupported KDF schema version'')
      else if ukAlgorithm p \<noteq> policyAlgorithm
      then Inl (JsError ''Unsupported KDF algorithm'')
      else case ukIterations p of
             None \<Rightarrow> Inl (JsError ''KDF iterations outside supported range'')
           | Some n \<Rightarrow>
               if n < policyMinimumIterations \<or> n > policyMaximumIterations
               then Inl (JsError ''KDF iterations outside supported range'')
               else Inr ())"

definition against_pin :: "untrusted_kdf_profile \<Rightarrow> untrusted_kdf_profile \<Rightarrow> js_error + unit" where
  "against_pin p pinned =
     (if ukSchemaVersion p \<noteq> ukSchemaVersion pinned
      then Inl (JsError ''KDF schema version changed from pinned value'')
      else if ukAlgorithm p \<noteq> ukAlgorithm pinned
      then Inl (JsError ''KDF algorithm changed from pinned value'')
      else if coalesce (ukIterations p) 0 < coalesce (ukIterations pinned) 0
      then Inl (JsError ''KDF iterations downgraded from pinned value'')
      else Inr ())"

definition validateKdfProfileOrThrow ::
  "untrusted_kdf_profile \<Rightarrow> untrusted_kdf_profile option \<Rightarrow> js_error + unit" where
  "validateKdfProfileOrThrow p pinned = (case validateBaseline p of
       Inl e \<Rightarrow> Inl e
     | Inr _ \<Rightarrow> (case pinned of
         None \<Rightarrow> Inr ()
       | Some q \<Rightarrow> (case validateBaseline q of Inl e \<Rightarrow> Inl e | Inr _ \<Rightarrow> against_pin p q)))"

definition isCurrentKdfProfile :: "untrusted_kdf_profile \<Rightarrow> bool" where
  "isCurrentKdfProfile p = (case validateKdfProfileOrThrow p None of
       Inl _ \<Rightarrow> False
     | Inr _ \<Rightarrow> ukSchemaVersion p = policySchemaVersion \<and> ukAlgorithm p = policyAlgorithm \<and>
               ukIterations p = Some policyDefaultIterations)"

section \<open>Encryption contexts\<close>

record encryption_context =
  ecVaultId :: string
  ecEntityId :: string
  ecEntityType :: string
  ecVersion :: int
  ecUserId :: string

record item_write_scope =
  wsVaultId :: string
  wsItemId :: string
  wsVersion :: int
  wsUserId :: string

record attachment_scope =
  asVaultId :: string
  asAttachmentId :: string
  asUserId :: string
  asEnvelopeVersion :: int

datatype attachment_field = NameField | ContentTypeField | BlobField

definition VAULT_KEY_WRAP_PURPOSE :: string where
  "VAULT_KEY_WRAP_PURPOSE = ''vault-key-wrap''"

definition normalizeVersion :: "int \<Rightarrow> int" where
  "normalizeVersion v = (if v < 1 then 1 else v)"

definition buildItemEncryptionContext :: "item_write_scope \<Rightarrow> encryption_context" where
  "buildItemEncryptionContext scope =
     \<lparr>ecVaultId = wsVaultId scope, ecEntityId = wsItemId scope, ecEntityType = ''item'',
      ecVersion = normalizeVersion (wsVersion scope), ecUserId = wsUserId scope\<rparr>"

definition buildStoredItemEncryptionContext :: "'a item_fields_scheme \<Rightarrow> encryption_context" where
  "buildStoredItemEncryptionContext item = buildItemEncryptionContext
     \<lparr>wsVaultId = itemVaultId item, wsItemId = itemId item,
      wsVersion = itemEncryptionVersion item, wsUserId = itemEncryptedBy item\<rparr>"

definition attachment_context :: "string \<Rightarrow> int \<Rightarrow> attachment_scope \<Rightarrow> encryption_context" where
  "attachment_context kind version scope =
     \<lparr>ecVaultId = asVaultId scope, ecEntityId = asAttachmentId scope, ecEntityType = kind,
      ecVersion = version, ecUserId = asUserId scope\<rparr>"

definition buildAttachmentNameEncryptionContext where
  "buildAttachmentNameEncryptionContext scope = attachment_context ''attachment_name'' 1 scope"

definition buildAttachmentContentTypeEncryptionContext where
  "buildAttachmentContentTypeEncryptionContext scope =
     attachment_context ''attachment_content_type'' 1 scope"

definition buildAttachmentBlobEncryptionContext where
  "buildAttachmentBlobEncryptionContext scope = attachment_context ''attachment_blob'' 1 scope"

definition buildAttachmentKeyEncryptionContext where
  "buildAttachmentKeyEncryptionContext scope =
     attachment_context ''attachment_key'' (normalizeVersion (asEnvelopeVersion scope)) scope"

definition attachmentContext :: "attachment_scope \<Rightarrow> attachment_field \<Rightarrow> encryption_context" where
  "attachmentContext scope f = (case f of
       NameField \<Rightarrow> buildAttachmentNameEncryptionContext scope
     | ContentTypeField \<Rightarrow> buildAttachmentContentTypeEncryptionContext scope
     | BlobField \<Rightarrow> buildAttachmentBlobEncryptionContext scope)"

definition buildVaultKeyEncryptionContext :: "string \<Rightarrow> string \<Rightarrow> int \<Rightarrow> encryption_context" where
  "buildVaultKeyEncryptionContext v user version =
     \<lparr>ecVaultId = v, ecEntityId = VAULT_KEY_WRAP_PURPOSE, ecEntityType = ''vault_key'',
      ecVersion = version, ecUserId = user\<rparr>"

section \<open>The crypto port and the store\<close>

type_synonym item_content = "(string \<times> string) list"
type_synonym key_ref = string

datatype plaintext = JsonText item_content | OtherText string

record encrypted_data =
  edCiphertext :: string
  edIv :: string
  edAlgorithm :: string

record wrap_context =
  wcVaultId :: string
  wcUserId :: string
  wcKeyVersion :: "int option"
  wcPurpose :: string

text \<open>
  A text that parses to an object with a string ciphertext and a string iv; its context may be
  missing, and a keyVersion that is no integer is None.
\<close>

record wrapped_vault_key =
  wkData :: encrypted_data
  wkContext :: "wrap_context option"

record decrypt_request =
  drId :: string
  drData :: encrypted_data
  drKey :: key_ref
  drContext :: encryption_context

record 's crypto_port =
  cpEncrypt :: "plaintext \<Rightarrow> key_ref \<Rightarrow> encryption_context option \<Rightarrow> (js_error, 's, encrypted_data) act"
  cpDecrypt :: "encrypted_data \<Rightarrow> key_ref \<Rightarrow> encryption_context option \<Rightarrow> (js_error, 's, plaintext) act"
  cpDecryptMany :: "decrypt_request list \<Rightarrow> (js_error, 's, (string + plaintext) list) act"
  cpDestroyKey :: "key_ref \<Rightarrow> (js_error, 's, unit) act"
  cpWrapKey :: "key_ref \<Rightarrow> key_ref \<Rightarrow> encryption_context option \<Rightarrow> (js_error, 's, encrypted_data) act"
  cpUnwrapKey :: "encrypted_data \<Rightarrow> key_ref \<Rightarrow> encryption_context option \<Rightarrow> (js_error, 's, key_ref) act"
  cpDecryptRsaWrappedKey :: "string \<Rightarrow> encrypted_data \<Rightarrow> key_ref \<Rightarrow> (js_error, 's, key_ref) act"
  cpGenerateEncryptionKey :: "(js_error, 's, key_ref) act"
  cpDeriveMasterKey :: "string \<Rightarrow> string \<Rightarrow> string \<Rightarrow> kdf_profile \<Rightarrow> (js_error, 's, key_ref) act"
  cpDeriveKeysFromMasterKey :: "key_ref \<Rightarrow> string \<Rightarrow> (js_error, 's, key_ref \<times> key_ref) act"
  cpDeriveSrpPassword :: "key_ref \<Rightarrow> (js_error, 's, string) act"
  cpEncryptMasterKey :: "key_ref \<Rightarrow> string \<Rightarrow> string \<Rightarrow> (js_error, 's, encrypted_data) act"
  cpDecryptMasterKey :: "encrypted_data \<Rightarrow> string \<Rightarrow> string \<Rightarrow> (js_error, 's, key_ref) act"
  cpGenerateSrpRegistration :: "string \<Rightarrow> (js_error, 's, string \<times> string) act"
  cpEncryptVaultKeyWithMuk :: "key_ref \<Rightarrow> key_ref \<Rightarrow> string \<Rightarrow> string \<Rightarrow> int \<Rightarrow> (js_error, 's, string) act"
  cpGenerateSecretKey :: "(js_error, 's, string) act"
  cpGenerateRecoveryKey :: "(js_error, 's, string) act"
  cpValidateRecoveryKey :: "string \<Rightarrow> (js_error, 's, bool) act"
  cpGenerateUuid :: "(js_error, 's, string) act"
  cpGenerateRsaKeyPair :: "(js_error, 's, string \<times> string) act"
  parseEnvelope :: "string \<Rightarrow> wrapped_vault_key option"
  parseData :: "string \<Rightarrow> encrypted_data option"
  printData :: "encrypted_data \<Rightarrow> string"

text \<open>The part of the account store VaultCrypto reads; the account is None when not given.\<close>

record 's crypto_store =
  csGetMasterUnlockKey :: "string option \<Rightarrow> (js_error, 's, key_ref option) act"
  csGetEncryptedPrivateKey :: "string option \<Rightarrow> (js_error, 's, string option) act"
  csGetSessionUserId :: "string option \<Rightarrow> (js_error, 's, string option) act"
  csGetPinnedKdfProfile :: "string \<Rightarrow> (js_error, 's, kdf_profile option) act"

section \<open>Vault keys\<close>

definition isOwnerWrappedVaultKey :: "'s crypto_port \<Rightarrow> string \<Rightarrow> bool" where
  "isOwnerWrappedVaultKey cp text = (parseEnvelope cp text \<noteq> None)"

definition parseEncryptedData :: "'s crypto_port \<Rightarrow> string \<Rightarrow> (js_error, 's, encrypted_data) act" where
  "parseEncryptedData cp text = (case parseData cp text of
       None \<Rightarrow> throw (JsError ''Unexpected token in JSON'') | Some d \<Rightarrow> ok d)"

definition names_other :: "string option \<Rightarrow> string \<Rightarrow> bool" where
  "names_other expected actual = (case expected of None \<Rightarrow> False | Some x \<Rightarrow> x \<noteq> [] \<and> actual \<noteq> x)"

text \<open>The checks on the context an owner's envelope carries, in their order.\<close>

definition checked_wrap_context ::
  "wrapped_vault_key \<Rightarrow> string option \<Rightarrow> string option \<Rightarrow> js_error + encryption_context" where
  "checked_wrap_context wrapped expectedVault expectedUser = (case wkContext wrapped of
       None \<Rightarrow> Inl (JsError ''Missing vault key wrap context'')
     | Some c \<Rightarrow>
         if wcPurpose c \<noteq> VAULT_KEY_WRAP_PURPOSE then Inl (JsError ''Invalid vault key wrap purpose'')
         else (case wcKeyVersion c of
             None \<Rightarrow> Inl (JsError ''Invalid vault key wrap version'')
           | Some n \<Rightarrow>
               if n < 1 then Inl (JsError ''Invalid vault key wrap version'')
               else if names_other expectedVault (wcVaultId c)
               then Inl (JsError ''Vault key wrap vault mismatch'')
               else if names_other expectedUser (wcUserId c)
               then Inl (JsError ''Vault key wrap user mismatch'')
               else Inr (buildVaultKeyEncryptionContext (wcVaultId c) (wcUserId c) n)))"

record unwrap_input =
  uwEncryptedVaultKey :: string
  uwMasterUnlockKey :: key_ref
  uwEncryptedPrivateKey :: "string option"
  uwExpectedVaultId :: "string option"
  uwExpectedUserId :: "string option"

definition absent :: "string option \<Rightarrow> bool" where
  "absent x = (case x of None \<Rightarrow> True | Some t \<Rightarrow> t = [])"

definition unwrapVaultKey :: "'s crypto_port \<Rightarrow> unwrap_input \<Rightarrow> (js_error, 's, key_ref) act" where
  "unwrapVaultKey cp input = (case parseEnvelope cp (uwEncryptedVaultKey input) of
       Some wrapped \<Rightarrow>
         (case checked_wrap_context wrapped (uwExpectedVaultId input) (uwExpectedUserId input) of
            Inl e \<Rightarrow> throw e
          | Inr context \<Rightarrow> cpUnwrapKey cp (wkData wrapped) (uwMasterUnlockKey input) (Some context))
     | None \<Rightarrow>
         if absent (uwEncryptedPrivateKey input)
         then throw (JsError ''Encrypted private key not available. Please log in again.'')
         else and_then (parseEncryptedData cp (the (uwEncryptedPrivateKey input))) (\<lambda>pk.
           cpDecryptRsaWrappedKey cp (uwEncryptedVaultKey input) pk (uwMasterUnlockKey input)))"

definition unwrapStoredVaultKey ::
  "'s crypto_port \<Rightarrow> 's crypto_store \<Rightarrow> string \<Rightarrow> string option \<Rightarrow> string option \<Rightarrow> string option \<Rightarrow>
   (js_error, 's, key_ref) act" where
  "unwrapStoredVaultKey cp cs encrypted v user acc =
     and_then (csGetMasterUnlockKey cs acc) (\<lambda>muk. case muk of
       None \<Rightarrow> throw (JsError ''Master Unlock Key not available. Please log in again.'')
     | Some key \<Rightarrow>
         and_then (csGetEncryptedPrivateKey cs acc) (\<lambda>pk.
         and_then (case user of Some u \<Rightarrow> ok (Some u) | None \<Rightarrow> csGetSessionUserId cs acc) (\<lambda>u.
         unwrapVaultKey cp
           \<lparr>uwEncryptedVaultKey = encrypted, uwMasterUnlockKey = key, uwEncryptedPrivateKey = pk,
            uwExpectedVaultId = v, uwExpectedUserId = u\<rparr>)))"

text \<open>
  getVaultKey over the stored entries, given as vault ids with their wrapped keys; None when the
  account has no key for the vault.
\<close>

definition getVaultKey ::
  "'s crypto_port \<Rightarrow> 's crypto_store \<Rightarrow> (js_error, 's, (string \<times> string) list option) act \<Rightarrow>
   string \<Rightarrow> string option \<Rightarrow> string option \<Rightarrow> (js_error, 's, key_ref option) act" where
  "getVaultKey cp cs entries v user acc =
     and_then entries (\<lambda>ks. case Option.bind ks (List.find (\<lambda>(w, _). w = v)) of
       None \<Rightarrow> ok None
     | Some (_, text) \<Rightarrow> and_then (unwrapStoredVaultKey cp cs text (Some v) user acc) (\<lambda>k. ok (Some k)))"

definition wrapVaultKeyForOwner where
  "wrapVaultKeyForOwner cp vaultKey muk v user version =
     cpEncryptVaultKeyWithMuk cp vaultKey muk v user version"

section \<open>Items and attachments\<close>

definition storedItemData :: "'a item_fields_scheme \<Rightarrow> encrypted_data" where
  "storedItemData item =
     \<lparr>edCiphertext = itemData item, edIv = itemIv item, edAlgorithm = itemAlgorithm item\<rparr>"

definition encryptItem ::
  "'s crypto_port \<Rightarrow> plaintext \<Rightarrow> key_ref \<Rightarrow> item_write_scope \<Rightarrow> (js_error, 's, encrypted_data) act" where
  "encryptItem cp p key scope = cpEncrypt cp p key (Some (buildItemEncryptionContext scope))"

definition decryptStoredItem ::
  "'s crypto_port \<Rightarrow> 'a item_fields_scheme \<Rightarrow> key_ref \<Rightarrow> (js_error, 's, plaintext) act" where
  "decryptStoredItem cp item key =
     cpDecrypt cp (storedItemData item) key (Some (buildStoredItemEncryptionContext item))"

definition decrypt_request_for :: "'a item_fields_scheme \<times> key_ref \<Rightarrow> decrypt_request" where
  "decrypt_request_for = (\<lambda>(item, key).
     \<lparr>drId = itemId item, drData = storedItemData item, drKey = key,
      drContext = buildStoredItemEncryptionContext item\<rparr>)"

definition decryptStoredItems ::
  "'s crypto_port \<Rightarrow> ('a item_fields_scheme \<times> key_ref) list \<Rightarrow>
   (js_error, 's, (string + plaintext) list) act" where
  "decryptStoredItems cp requests = cpDecryptMany cp (map decrypt_request_for requests)"

definition encryptAttachment where
  "encryptAttachment cp p key scope f = cpEncrypt cp p key (Some (attachmentContext scope f))"

definition decryptAttachment where
  "decryptAttachment cp data key scope f = cpDecrypt cp data key (Some (attachmentContext scope f))"

record encrypted_attachment_meta =
  amName :: string
  amContentType :: string
  amIv :: string
  amContentTypeIv :: string
  amAlgorithm :: string

definition decryptAttachmentMeta ::
  "'s crypto_port \<Rightarrow> encrypted_attachment_meta \<Rightarrow> key_ref \<Rightarrow> attachment_scope \<Rightarrow>
   (js_error, 's, plaintext \<times> plaintext) act" where
  "decryptAttachmentMeta cp meta key scope =
     and_then (cpDecrypt cp \<lparr>edCiphertext = amName meta, edIv = amIv meta,
                 edAlgorithm = amAlgorithm meta\<rparr> key
                 (Some (buildAttachmentNameEncryptionContext scope))) (\<lambda>n.
     and_then (cpDecrypt cp \<lparr>edCiphertext = amContentType meta, edIv = amContentTypeIv meta,
                 edAlgorithm = amAlgorithm meta\<rparr> key
                 (Some (buildAttachmentContentTypeEncryptionContext scope))) (\<lambda>t.
     ok (n, t)))"

definition generateAttachmentKey where
  "generateAttachmentKey cp = cpGenerateEncryptionKey cp"

definition destroyAttachmentKey where
  "destroyAttachmentKey cp key = cpDestroyKey cp key"

definition wrapAttachmentKey where
  "wrapAttachmentKey cp attachmentKey key scope =
     cpWrapKey cp attachmentKey key (Some (buildAttachmentKeyEncryptionContext scope))"

definition unwrapAttachmentKey where
  "unwrapAttachmentKey cp data key scope =
     cpUnwrapKey cp data key (Some (buildAttachmentKeyEncryptionContext scope))"

definition decryptPrivateKey ::
  "'s crypto_port \<Rightarrow> string \<Rightarrow> key_ref \<Rightarrow> (js_error, 's, plaintext) act" where
  "decryptPrivateKey cp encrypted muk =
     and_then (parseEncryptedData cp encrypted) (\<lambda>d. cpDecrypt cp d muk None)"

section \<open>Account keys\<close>

definition or_throw :: "js_error + 'a \<Rightarrow> (js_error, 's, 'a) act" where
  "or_throw r = (case r of Inl e \<Rightarrow> throw e | Inr a \<Rightarrow> ok a)"

record derive_input =
  dkPassword :: string
  dkSecretKey :: string
  dkEmail :: string
  dkProfile :: kdf_profile
  dkAccountId :: "string option"
  dkRecoveryKey :: "string option"

record derived_keys =
  dkSrpPassword :: string
  dkMasterUnlockKey :: key_ref
  dkEncryptedMasterKey :: "encrypted_data option"

definition pinned_profile ::
  "'s crypto_store \<Rightarrow> string option \<Rightarrow> (js_error, 's, kdf_profile option) act" where
  "pinned_profile cs acc = (if absent acc then ok None else csGetPinnedKdfProfile cs (the acc))"

definition validateKdfProfile ::
  "'s crypto_store \<Rightarrow> kdf_profile \<Rightarrow> string option \<Rightarrow> (js_error, 's, kdf_profile) act" where
  "validateKdfProfile cs profile acc =
     and_then (pinned_profile cs acc) (\<lambda>pin.
     and_then (or_throw (validateKdfProfileOrThrow (untrusted profile) (map_option untrusted pin)))
       (\<lambda>_. ok profile))"

text \<open>
  The keys of an account. The auth key dies once it is rendered, the master key when the call
  ends, and the master unlock key too, before it, when the call fails after it was derived. The
  finally block of the code runs in order: a destroyKey that throws there ends it.
\<close>

definition render_keys ::
  "'s crypto_port \<Rightarrow> derive_input \<Rightarrow> key_ref \<Rightarrow> key_ref \<times> key_ref \<Rightarrow> (js_error, 's, derived_keys) act"
where
  "render_keys cp input masterKey = (\<lambda>(authKey, muk).
     and_then (finally_do (cpDeriveSrpPassword cp authKey) (cpDestroyKey cp authKey)) (\<lambda>srp.
     and_then (if absent (dkRecoveryKey input) then ok None
               else and_then (cpEncryptMasterKey cp masterKey (the (dkRecoveryKey input)) (dkEmail input))
                      (\<lambda>d. ok (Some d))) (\<lambda>sealed.
     ok \<lparr>dkSrpPassword = srp, dkMasterUnlockKey = muk, dkEncryptedMasterKey = sealed\<rparr>)))"

definition destroy_on_error ::
  "'s crypto_port \<Rightarrow> key_ref list \<Rightarrow> (js_error, 's, 'a) act \<Rightarrow> (js_error, 's, 'a) act" where
  "destroy_on_error cp keys m =
     catch m (\<lambda>e. and_then (for_each keys (cpDestroyKey cp)) (\<lambda>_. throw e))"

definition deriveAccountKeys ::
  "'s crypto_port \<Rightarrow> 's crypto_store \<Rightarrow> derive_input \<Rightarrow> (js_error, 's, derived_keys) act" where
  "deriveAccountKeys cp cs input =
     and_then (pinned_profile cs (dkAccountId input)) (\<lambda>pin.
     and_then (or_throw (validateKdfProfileOrThrow (untrusted (dkProfile input)) (map_option untrusted pin))) (\<lambda>_.
     and_then (cpDeriveMasterKey cp (dkPassword input) (dkSecretKey input) (dkEmail input) (dkProfile input)) (\<lambda>masterKey.
     and_then (destroy_on_error cp [masterKey]
                 (cpDeriveKeysFromMasterKey cp masterKey (dkEmail input))) (\<lambda>ks.
     and_then (destroy_on_error cp [snd ks, masterKey] (render_keys cp input masterKey ks)) (\<lambda>keys.
     and_then (cpDestroyKey cp masterKey) (\<lambda>_. ok keys))))))"

end
