(* ===== verification/ItemMapping.thy ===== *)
theory ItemMapping
  imports VaultMapping VaultCrypto
begin

text \<open>
  packages/shared/src/item-mapping.ts: the crossings of an Item between the record a device
  caches, the decrypted item a repository holds and the raw item the decrypt path consumes. The
  mapping from the wire to the cache, toCachedItem, is in SyncTypes.

  The plaintext of an item is an object of named fields, kept as the list of its entries with
  their JSON texts; it is what is sealed into the ciphertext, and it carries no metadata key.
\<close>

section \<open>Shapes\<close>

text \<open>
  A repository item is a cached record with its plaintext beside it; its ciphertext triple, which
  the code nests under _encrypted, is the one of item_fields.
\<close>

record repo_item = item_fields +
  riDeletedAt :: "string option"
  riScope :: item_scope
  riAttachments :: "attachment list option"
  riContent :: item_content
  riVault :: vault_summary

record item_metadata =
  mdId :: string
  mdVaultId :: string
  mdScope :: item_scope
  mdCategory :: string
  mdFavorite :: bool
  mdCreatedAt :: string
  mdDeletedAt :: "string option"
  mdAttachments :: "attachment list option"

text \<open>What the crypto port returns, in its own spelling.\<close>

record sealed_payload =
  sealCiphertext :: string
  sealIv :: string
  sealAlgorithm :: string
  sealVersion :: int
  sealUserId :: string

record raw_item = item_fields +
  rawDeletedAt :: "string option"
  rawAttachments :: "attachment list option"
  rawVault :: "vault_summary option"

text \<open>Partial<VaultSummary>: every field may be left out, and an icon may be null.\<close>

record partial_vault =
  pvId :: "string option"
  pvName :: "string option"
  pvType :: "vault_type option"
  pvIcon :: "string option option"
  pvImageUrl :: "string option option"

section \<open>Repository to cache\<close>

definition or_else :: "'a option \<Rightarrow> 'a option \<Rightarrow> 'a option" where
  "or_else x y = (case x of None \<Rightarrow> y | Some v \<Rightarrow> Some v)"

definition scope_or :: "item_scope \<Rightarrow> item_scope \<Rightarrow> item_scope" where
  "scope_or s d =
     \<lparr>scopeAccountId = or_else (scopeAccountId s) (scopeAccountId d),
      scopeAccountEmail = or_else (scopeAccountEmail s) (scopeAccountEmail d),
      scopeServerUrl = or_else (scopeServerUrl s) (scopeServerUrl d)\<rparr>"

definition toCachedItemMetadata :: "repo_item \<Rightarrow> item_scope \<Rightarrow> item_metadata" where
  "toCachedItemMetadata item scope =
     \<lparr>mdId = itemId item, mdVaultId = itemVaultId item, mdScope = scope_or (riScope item) scope,
      mdCategory = itemCategory item, mdFavorite = itemFavorite item,
      mdCreatedAt = itemCreatedAt item, mdDeletedAt = riDeletedAt item,
      mdAttachments = riAttachments item\<rparr>"

definition toCachedItemFromRepositoryItem :: "repo_item \<Rightarrow> item_scope \<Rightarrow> cached_item" where
  "toCachedItemFromRepositoryItem item scope =
     (let md = toCachedItemMetadata item scope in
      \<lparr>itemId = mdId md, itemVaultId = mdVaultId md, itemCategory = mdCategory md,
       itemFavorite = mdFavorite md, itemData = itemData item, itemIv = itemIv item,
       itemAlgorithm = itemAlgorithm item, itemVersion = itemVersion item,
       itemLastModifiedBy = itemLastModifiedBy item,
       itemEncryptionVersion = itemEncryptionVersion item,
       itemEncryptedBy = itemEncryptedBy item, itemCreatedAt = mdCreatedAt md,
       itemUpdatedAt = itemUpdatedAt item, cachedDeletedAt = mdDeletedAt md,
       cachedScope = mdScope md, cachedAttachments = mdAttachments md\<rparr>)"

section \<open>Locally sealed items\<close>

record new_item_input =
  niId :: string
  niVaultId :: string
  niCategory :: string
  niTimestamp :: string
  niVersion :: int
  niFavorite :: "bool option"
  niPayload :: encrypted_payload

definition toNewCachedItem :: "new_item_input \<Rightarrow> item_scope \<Rightarrow> cached_item" where
  "toNewCachedItem input scope =
     (let p = niPayload input in
      \<lparr>itemId = niId input, itemVaultId = niVaultId input, itemCategory = niCategory input,
       itemFavorite = coalesce (niFavorite input) False, itemData = payloadData p,
       itemIv = payloadIv p, itemAlgorithm = payloadAlgorithm p, itemVersion = niVersion input,
       itemLastModifiedBy = payloadUserId p, itemEncryptionVersion = payloadVersion p,
       itemEncryptedBy = payloadUserId p, itemCreatedAt = niTimestamp input,
       itemUpdatedAt = niTimestamp input, cachedDeletedAt = None, cachedScope = scope,
       cachedAttachments = None\<rparr>)"

record resealed_changes =
  rcUpdatedAt :: string
  rcVersion :: int
  rcVaultId :: "string option"

definition withEncryptedPayload ::
  "cached_item \<Rightarrow> encrypted_payload \<Rightarrow> resealed_changes \<Rightarrow> cached_item" where
  "withEncryptedPayload base p changes =
     base\<lparr>itemVaultId := coalesce (rcVaultId changes) (itemVaultId base),
          itemData := payloadData p, itemIv := payloadIv p, itemAlgorithm := payloadAlgorithm p,
          itemVersion := rcVersion changes, itemLastModifiedBy := payloadUserId p,
          itemEncryptionVersion := payloadVersion p, itemEncryptedBy := payloadUserId p,
          itemUpdatedAt := rcUpdatedAt changes\<rparr>"

definition toEncryptedPayload :: "sealed_payload \<Rightarrow> encrypted_payload" where
  "toEncryptedPayload p =
     \<lparr>payloadData = sealCiphertext p, payloadIv = sealIv p, payloadAlgorithm = sealAlgorithm p,
      payloadVersion = sealVersion p, payloadUserId = sealUserId p\<rparr>"

section \<open>Cache to raw\<close>

definition UNKNOWN_VAULT_NAME :: string where
  "UNKNOWN_VAULT_NAME = ''Unknown Vault''"

definition toItemVaultSummary :: "partial_vault option \<Rightarrow> string \<Rightarrow> vault_summary" where
  "toItemVaultSummary vault vid =
     \<lparr>vsId = coalesce (Option.bind vault pvId) vid,
      vsName = coalesce (Option.bind vault pvName) UNKNOWN_VAULT_NAME,
      vsType = coalesce (Option.bind vault pvType) PersonalVault,
      vsIcon = coalesce (Option.bind vault pvIcon) None,
      vsImageUrl = coalesce (Option.bind vault pvImageUrl) None\<rparr>"

text \<open>The vault argument is None when the call leaves it out, Some None when it is null.\<close>

definition toRawItem :: "cached_item \<Rightarrow> partial_vault option option \<Rightarrow> raw_item" where
  "toRawItem cached vault =
     \<lparr>itemId = itemId cached, itemVaultId = itemVaultId cached,
      itemCategory = itemCategory cached, itemFavorite = itemFavorite cached,
      itemData = itemData cached, itemIv = itemIv cached, itemAlgorithm = itemAlgorithm cached,
      itemVersion = itemVersion cached, itemLastModifiedBy = itemLastModifiedBy cached,
      itemEncryptionVersion = itemEncryptionVersion cached,
      itemEncryptedBy = itemEncryptedBy cached, itemCreatedAt = itemCreatedAt cached,
      itemUpdatedAt = itemUpdatedAt cached, rawDeletedAt = cachedDeletedAt cached,
      rawAttachments = cachedAttachments cached,
      rawVault = (case vault of None \<Rightarrow> None
        | Some v \<Rightarrow> Some (toItemVaultSummary v (itemVaultId cached)))\<rparr>"

section \<open>Metadata and content\<close>

definition ITEM_METADATA_KEYS :: "string list" where
  "ITEM_METADATA_KEYS =
     [''id'', ''vaultId'', ''category'', ''favorite'', ''createdAt'', ''updatedAt'',
      ''deletedAt'', ''version'', ''lastModifiedBy'', ''encryptionVersion'',
      ''encryptedByUserId'', ''attachments'', ''accountEmail'', ''accountId'', ''serverUrl'',
      ''_encrypted'', ''vault'', ''account'']"

text \<open>
  An item's own properties are its metadata, all of whose keys are deleted, and its content.
\<close>

definition stripToDecryptedData :: "repo_item \<Rightarrow> item_content" where
  "stripToDecryptedData item = filter (\<lambda>(k, _). k \<notin> set ITEM_METADATA_KEYS) (riContent item)"

definition content_only :: "item_content \<Rightarrow> bool" where
  "content_only c = list_all (\<lambda>(k, _). k \<notin> set ITEM_METADATA_KEYS) c"

text \<open>Object spread of one content over another.\<close>

definition spread_over :: "item_content \<Rightarrow> item_content \<Rightarrow> item_content" where
  "spread_over old new = fold (\<lambda>(k, v) m. js_set k v m) new old"

section \<open>Facts\<close>

lemma or_else_simps [simp]: "or_else None y = y" "or_else (Some v) y = Some v"
  by (simp_all add: or_else_def)

lemma or_else_assoc: "or_else (or_else x y) z = or_else x (or_else y z)"
  by (cases x) simp_all

lemma scope_or_idem [simp]: "scope_or (scope_or s d) d = scope_or s d"
proof -
  have "or_else (or_else x y) y = or_else x y" for x y :: "string option"
    by (cases x; cases y) simp_all
  then show ?thesis by (simp add: scope_or_def)
qed

lemma strip_content: "content_only (riContent item) \<Longrightarrow> stripToDecryptedData item = riContent item"
  by (auto simp: content_only_def stripToDecryptedData_def list_all_iff intro!: filter_True)

lemma strip_content_only: "content_only (stripToDecryptedData item)"
  by (auto simp: content_only_def stripToDecryptedData_def list_all_iff)

lemma new_cached_item_sel [simp]:
  "itemId (toNewCachedItem input scope) = niId input"
  "itemVersion (toNewCachedItem input scope) = niVersion input"
  by (simp_all add: toNewCachedItem_def Let_def)

lemma with_payload_sel [simp]:
  "itemId (withEncryptedPayload base p c) = itemId base"
  "itemVersion (withEncryptedPayload base p c) = rcVersion c"
  by (simp_all add: withEncryptedPayload_def)

lemma from_repo_sel [simp]:
  "itemId (toCachedItemFromRepositoryItem ri scope) = itemId ri"
  "itemVersion (toCachedItemFromRepositoryItem ri scope) = itemVersion ri"
  "itemVaultId (toCachedItemFromRepositoryItem ri scope) = itemVaultId ri"
  by (simp_all add: toCachedItemFromRepositoryItem_def toCachedItemMetadata_def Let_def)

end
