(* ===== verification/IsoTime.thy ===== *)
theory IsoTime
  imports QueueRules
begin

text \<open>
  Date.prototype.toISOString over the milliseconds of an instant: the civil date of a day number
  in the proleptic Gregorian calendar, years outside 0 to 9999 with a sign and six digits. The
  instant is one a Date can hold.
\<close>

definition pad_to :: "nat \<Rightarrow> nat \<Rightarrow> string" where
  "pad_to w n = replicate (w - length (nat_text n)) CHR ''0'' @ nat_text n"

text \<open>Days since 1970-01-01 to year, month and day, by eras of 400 years that start in March.\<close>

definition civil_date :: "int \<Rightarrow> int \<times> int \<times> int" where
  "civil_date days =
     (let z = days + 719468;
          era = z div 146097;
          doe = z mod 146097;
          yoe = (doe - doe div 1460 + doe div 36524 - doe div 146096) div 365;
          doy = doe - (365 * yoe + yoe div 4 - yoe div 100);
          mp = (5 * doy + 2) div 153;
          d = doy - (153 * mp + 2) div 5 + 1;
          m = (if mp < 10 then mp + 3 else mp - 9);
          y = yoe + era * 400 + (if m \<le> 2 then 1 else 0)
      in (y, m, d))"

definition year_text :: "int \<Rightarrow> string" where
  "year_text y = (if 0 \<le> y \<and> y \<le> 9999 then pad_to 4 (nat y)
     else (if y < 0 then CHR ''-'' else CHR ''+'') # pad_to 6 (nat \<bar>y\<bar>))"

definition toISOString :: "int \<Rightarrow> string" where
  "toISOString ms =
     (case civil_date (ms div 86400000) of (y, m, d) \<Rightarrow>
        let t = ms mod 86400000 in
        year_text y @ ''-'' @ pad_to 2 (nat m) @ ''-'' @ pad_to 2 (nat d) @ ''T'' @
        pad_to 2 (nat (t div 3600000)) @ '':'' @ pad_to 2 (nat (t div 60000 mod 60)) @ '':'' @
        pad_to 2 (nat (t div 1000 mod 60)) @ ''.'' @ pad_to 3 (nat (t mod 1000)) @ ''Z'')"

lemma iso_epoch: "toISOString 0 = ''1970-01-01T00:00:00.000Z''"
  by code_simp

lemma iso_leap_day: "toISOString 1709210096789 = ''2024-02-29T12:34:56.789Z''"
  by code_simp

end
