(* ===== verification/TravelMode.thy ===== *)
theory TravelMode
  imports ItemCache
begin

text \<open>
  Travel mode: packages/core/src/services/travel-mode-service.ts (the policy and its filters),
  travel-mode-enforcer.ts (TravelModeEnforcer, which keeps the verified policy of each account
  and removes hidden vaults from every layer before it exposes a policy) and travel-mode-sync.ts
  (the reaction to a travel_mode_updated event).

  The enforcer's own state is the record enforcer. What it works on is the record travel_port: the
  account store, the item cache over its record port and the repository's purge, all effectful on
  one state of which the enforcer is a part. Date.parse of the server's time stamps, on which no
  decision depends, is an argument.
\<close>

section \<open>The policy\<close>

record travel_config =
  tmEnabled :: bool
  tmHiddenVaultIds :: "string list"
  tmEnabledAt :: "int option"
  tmUpdatedAt :: "int option"

record travel_response =
  trEnabled :: bool
  trHiddenVaultIds :: "string list"
  trEnabledAt :: "string option"
  trUpdatedAt :: string

definition mapTravelModeResponse :: "(string \<Rightarrow> int) \<Rightarrow> travel_response \<Rightarrow> travel_config" where
  "mapTravelModeResponse parseDate response =
     \<lparr>tmEnabled = trEnabled response, tmHiddenVaultIds = trHiddenVaultIds response,
      tmEnabledAt = (case trEnabledAt response of None \<Rightarrow> None
        | Some t \<Rightarrow> if t = [] then None else Some (parseDate t)),
      tmUpdatedAt = Some (parseDate (trUpdatedAt response))\<rparr>"

definition isVaultHidden :: "travel_config option \<Rightarrow> string \<Rightarrow> bool" where
  "isVaultHidden config v = (case config of None \<Rightarrow> False
     | Some c \<Rightarrow> tmEnabled c \<and> v \<in> set (tmHiddenVaultIds c))"

definition filterVaultKeys ::
  "vault_key_entry list \<Rightarrow> travel_config option \<Rightarrow> vault_key_entry list" where
  "filterVaultKeys ks config = (case config of None \<Rightarrow> ks
     | Some c \<Rightarrow> if \<not> tmEnabled c then ks
               else filter (\<lambda>k. vkVaultId k \<notin> set (tmHiddenVaultIds c)) ks)"

text \<open>filterItemsByTravelMode takes anything with a vaultId; the reader of it is an argument.\<close>

definition filterItemsByTravelMode :: "('i \<Rightarrow> string) \<Rightarrow> 'i list \<Rightarrow> travel_config option \<Rightarrow> 'i list" where
  "filterItemsByTravelMode vaultOf items config = (case config of None \<Rightarrow> items
     | Some c \<Rightarrow> if \<not> tmEnabled c then items
               else filter (\<lambda>i. vaultOf i \<notin> set (tmHiddenVaultIds c)) items)"

definition shouldCacheVaultForTravelMode :: "string \<Rightarrow> travel_config option \<Rightarrow> bool" where
  "shouldCacheVaultForTravelMode v config = (\<not> isVaultHidden config v)"

section \<open>The enforcer\<close>

record enforcer =
  memoryCache :: "(string \<times> travel_config) list"
  verifiedAccounts :: "string list"

definition DEFAULT_CONFIG :: travel_config where
  "DEFAULT_CONFIG =
     \<lparr>tmEnabled = False, tmHiddenVaultIds = [], tmEnabledAt = None, tmUpdatedAt = None\<rparr>"

definition getConfig :: "enforcer \<Rightarrow> string \<Rightarrow> travel_config" where
  "getConfig en acc = coalesce (js_get (memoryCache en) acc) DEFAULT_CONFIG"

definition isVerified :: "enforcer \<Rightarrow> string \<Rightarrow> bool" where
  "isVerified en acc = (acc \<in> set (verifiedAccounts en))"

definition assertVerified :: "enforcer \<Rightarrow> string \<Rightarrow> (js_error, 's, unit) act" where
  "assertVerified en acc = (if isVerified en acc then ok ()
     else throw (JsError (''Travel mode policy is not verified for account '' @ acc)))"

definition isEnabled :: "enforcer \<Rightarrow> string \<Rightarrow> bool" where
  "isEnabled en acc = tmEnabled (getConfig en acc)"

definition hidesVault :: "enforcer \<Rightarrow> string \<Rightarrow> string \<Rightarrow> bool" where
  "hidesVault en acc v = isVaultHidden (Some (getConfig en acc)) v"

definition enforcerFilterVaultKeys ::
  "enforcer \<Rightarrow> string \<Rightarrow> vault_key_entry list \<Rightarrow> vault_key_entry list" where
  "enforcerFilterVaultKeys en acc ks = filterVaultKeys ks (Some (getConfig en acc))"

definition enforcerFilterItems ::
  "('i \<Rightarrow> string) \<Rightarrow> enforcer \<Rightarrow> string \<Rightarrow> 'i list \<Rightarrow> 'i list" where
  "enforcerFilterItems vaultOf en acc items =
     filterItemsByTravelMode vaultOf items (Some (getConfig en acc))"

section \<open>Its operations\<close>

record 's travel_port =
  tpEnforcer :: "'s \<Rightarrow> enforcer"
  tpSetEnforcer :: "enforcer \<Rightarrow> 's \<Rightarrow> 's"
  tpGetCache :: "string \<Rightarrow> (js_error, 's, travel_config option) act"
  tpStoreCache :: "travel_config \<Rightarrow> string \<Rightarrow> (js_error, 's, unit) act"
  tpGetVaultKeys :: "string \<Rightarrow> (js_error, 's, vault_key_entry list option) act"
  tpStoreVaultKeys :: "vault_key_entry list \<Rightarrow> string \<Rightarrow> (js_error, 's, unit) act"
  tpRecords :: "'s record_port"
  tpPurge :: "(string \<Rightarrow> string list \<Rightarrow> 's \<Rightarrow> 's) option"
  tpNow :: "'s \<Rightarrow> int"
  tpParseDate :: "string \<Rightarrow> int"

record 's travel_api =
  taGet :: "(js_error, 's, travel_response) act"
  taSetHiddenVaults :: "string list \<Rightarrow> (js_error, 's, travel_response) act"
  taEnable :: "string list \<Rightarrow> (js_error, 's, travel_response) act"
  taDisable :: "string \<Rightarrow> string \<Rightarrow> string \<Rightarrow> (js_error, 's, travel_response) act"

definition purge_keys :: "'s travel_port \<Rightarrow> string \<Rightarrow> string list \<Rightarrow> (js_error, 's, unit) act" where
  "purge_keys tp acc hidden =
     and_then (tpGetVaultKeys tp acc) (\<lambda>ks. case ks of None \<Rightarrow> ok ()
       | Some vs \<Rightarrow> tpStoreVaultKeys tp (filter (\<lambda>k. vkVaultId k \<notin> set hidden) vs) acc)"

definition purge_items :: "'s travel_port \<Rightarrow> string \<Rightarrow> string list \<Rightarrow> (js_error, 's, unit) act" where
  "purge_items tp acc hidden =
     and_then (getCachedItems (tpRecords tp) acc) (\<lambda>is. case is of None \<Rightarrow> ok ()
       | Some xs \<Rightarrow> setCachedItems (tpRecords tp) (filter (\<lambda>i. itemVaultId i \<notin> set hidden) xs) acc)"

definition purge_vaults :: "'s travel_port \<Rightarrow> string \<Rightarrow> string list \<Rightarrow> (js_error, 's, unit) act" where
  "purge_vaults tp acc hidden =
     and_then (getCachedVaults (tpRecords tp) acc) (\<lambda>vs. case vs of None \<Rightarrow> ok ()
       | Some xs \<Rightarrow> setCachedVaults (tpRecords tp) (filter (\<lambda>v. vsId v \<notin> set hidden) xs) acc)"

definition purgeAllLayers :: "'s travel_port \<Rightarrow> string \<Rightarrow> string list \<Rightarrow> (js_error, 's, unit) act" where
  "purgeAllLayers tp acc hidden =
     (if hidden = [] then ok ()
      else and_then (purge_keys tp acc hidden) (\<lambda>_.
           and_then (purge_items tp acc hidden) (\<lambda>_.
           and_then (purge_vaults tp acc hidden) (\<lambda>_.
           case tpPurge tp of None \<Rightarrow> ok () | Some purge \<Rightarrow> put_state (purge acc hidden)))))"

text \<open>Recording a policy as verified, in memory.\<close>

definition expose :: "'s travel_port \<Rightarrow> string \<Rightarrow> travel_config \<Rightarrow> 's \<Rightarrow> 's" where
  "expose tp acc config s = (let en = tpEnforcer tp s in
     tpSetEnforcer tp
       (en\<lparr>memoryCache := js_set acc config (memoryCache en),
           verifiedAccounts := (if acc \<in> set (verifiedAccounts en) then verifiedAccounts en
                                else verifiedAccounts en @ [acc])\<rparr>) s)"

definition purge_if_enabled :: "'s travel_port \<Rightarrow> string \<Rightarrow> travel_config \<Rightarrow> (js_error, 's, unit) act" where
  "purge_if_enabled tp acc config =
     (if tmEnabled config then purgeAllLayers tp acc (tmHiddenVaultIds config) else ok ())"

definition hydrateFromStorage :: "'s travel_port \<Rightarrow> string \<Rightarrow> (js_error, 's, travel_config) act" where
  "hydrateFromStorage tp acc =
     and_then (tpGetCache tp acc) (\<lambda>cached. case cached of
       None \<Rightarrow> throw (JsError (''No verified travel mode policy for account '' @ acc))
     | Some config \<Rightarrow>
         and_then (purge_if_enabled tp acc config) (\<lambda>_.
         and_then (put_state (expose tp acc config)) (\<lambda>_. ok config)))"

definition persistConfig :: "'s travel_port \<Rightarrow> string \<Rightarrow> travel_config \<Rightarrow> (js_error, 's, unit) act" where
  "persistConfig tp acc config =
     and_then (tpStoreCache tp config acc) (\<lambda>_. put_state (expose tp acc config))"

definition applyConfig :: "'s travel_port \<Rightarrow> string \<Rightarrow> travel_config \<Rightarrow> (js_error, 's, unit) act" where
  "applyConfig tp acc config =
     and_then (purge_if_enabled tp acc config) (\<lambda>_. persistConfig tp acc config)"

text \<open>The four calls that apply the server's answer: fetch, set, enable and disable.\<close>

definition apply_response ::
  "'s travel_port \<Rightarrow> string \<Rightarrow> (js_error, 's, travel_response) act \<Rightarrow> (js_error, 's, travel_config) act" where
  "apply_response tp acc call =
     and_then call (\<lambda>response. let config = mapTravelModeResponse (tpParseDate tp) response in
       and_then (applyConfig tp acc config) (\<lambda>_. ok config))"

definition fetchFromServer where
  "fetchFromServer tp acc api = apply_response tp acc (taGet api)"

definition setHiddenVaults where
  "setHiddenVaults tp acc hidden api = apply_response tp acc (taSetHiddenVaults api hidden)"

definition enableTravelMode where
  "enableTravelMode tp acc hidden api = apply_response tp acc (taEnable api hidden)"

definition disableTravelMode where
  "disableTravelMode tp acc api attempt publicKey proofText =
     apply_response tp acc (taDisable api attempt publicKey proofText)"

definition verifyForUnlock ::
  "'s travel_port \<Rightarrow> string \<Rightarrow> 's travel_api option \<Rightarrow> (js_error, 's, travel_config) act" where
  "verifyForUnlock tp acc client = (case client of
       None \<Rightarrow> hydrateFromStorage tp acc
     | Some api \<Rightarrow> catch (fetchFromServer tp acc api) (\<lambda>serverError.
         catch (hydrateFromStorage tp acc) (\<lambda>_.
           throw (JsError (''Unable to verify travel mode policy for account '' @ acc @ '': '' @
             error_message serverError)))))"

text \<open>
  The metadata of an event is unchecked JSON: enabled counts only when it is a boolean,
  hiddenVaultIds only when it is an array, of which the strings are kept.
\<close>

record travel_metadata =
  tmdEnabled :: "bool option"
  tmdHidden :: "string option list option"

definition event_config :: "int \<Rightarrow> travel_config \<Rightarrow> travel_metadata \<Rightarrow> travel_config" where
  "event_config now cur md =
     (let on = coalesce (tmdEnabled md) (tmEnabled cur) in
      \<lparr>tmEnabled = on,
       tmHiddenVaultIds = (case tmdHidden md of None \<Rightarrow> tmHiddenVaultIds cur
         | Some vs \<Rightarrow> List.map_filter (\<lambda>v. v) vs),
       tmEnabledAt = (if on then Some now else None), tmUpdatedAt = Some now\<rparr>)"

definition applySyncEventMetadata ::
  "'s travel_port \<Rightarrow> string \<Rightarrow> travel_metadata option \<Rightarrow> (js_error, 's, travel_config) act" where
  "applySyncEventMetadata tp acc metadata = with_state (\<lambda>s.
     let cur = getConfig (tpEnforcer tp s) acc in
     case metadata of None \<Rightarrow> ok cur
     | Some md \<Rightarrow> let config = event_config (tpNow tp s) cur md in
         and_then (applyConfig tp acc config) (\<lambda>_. ok config))"

definition stripVaultKeysIfActive ::
  "'s travel_port \<Rightarrow> string \<Rightarrow> vault_key_entry list \<Rightarrow> (js_error, 's, vault_key_entry list) act" where
  "stripVaultKeysIfActive tp acc ks = with_state (\<lambda>s.
     let kept = enforcerFilterVaultKeys (tpEnforcer tp s) acc ks in
     and_then (if length kept \<noteq> length ks then tpStoreVaultKeys tp kept acc else ok ())
       (\<lambda>_. ok kept))"

text \<open>
  handleSyncEvent and handleTravelModeSyncEvent: restore is what runs when travel mode has just
  been switched off; for the latter it is there when there are a repository and restore options.
\<close>

definition handleSyncEvent ::
  "'s travel_port \<Rightarrow> string \<Rightarrow> travel_metadata option \<Rightarrow> string \<Rightarrow>
   (js_error, 's, unit) act option \<Rightarrow> (js_error, 's, unit) act" where
  "handleSyncEvent tp eventType metadata acc restore =
     (if eventType \<noteq> ''travel_mode_updated'' then ok ()
      else with_state (\<lambda>s. let previous = getConfig (tpEnforcer tp s) acc in
        and_then (applySyncEventMetadata tp acc metadata) (\<lambda>config.
          case restore of
            Some callback \<Rightarrow> if \<not> tmEnabled config \<and> tmEnabled previous then callback else ok ()
          | None \<Rightarrow> ok ())))"

end
