(* ===== verification/Replica.thy ===== *)
theory Replica
  imports ItemMapping IsoTime TravelMode
begin

text \<open>
  AccountVaultReplica (packages/core/src/services/account-vault-replica.ts): the decrypted view of
  one account. It keeps the authoritative encrypted records, the commands that are on their way to
  the server, and what a reader sees: for each item, the pending commands replayed over its
  authoritative record and decrypted.

  The state is the record replica, whose field outside is everything else in the client. Storage,
  cache, cryptography and server are effectful operations on the whole of it, so an awaited call
  may be one during which other methods of the replica run; that is what the hydration generation
  is for. Listeners are counted by repoSnapshot. A plaintext that is
  not the JSON text of an item's content does not parse.
\<close>

section \<open>State and ports\<close>

record 'w replica =
  repoItems :: "(string \<times> repo_item) list"
  authoritativeItems :: "(string \<times> cached_item) list"
  pendingCommands :: "(string \<times> command) list"
  repoVaults :: "(string \<times> cached_vault) list"
  vaultKeyEntries :: "(string \<times> vault_key_entry) list"
  repoSnapshot :: nat
  hydrated :: bool
  hydrating :: bool
  hydrationGeneration :: nat
  hasCacheSnapshotFlag :: bool
  repoServerUrl :: "string option"
  outside :: 'w

fun parse_plaintext :: "plaintext \<Rightarrow> item_content option" where
  "parse_plaintext (JsonText c) = Some c"
| "parse_plaintext (OtherText _) = None"

type_synonym ('w, 'a) rep = "(js_error, 'w replica, 'a) act"

record 'w replica_env =
  envAccountId :: string
  envAccountEmail :: "string option"
  fallbackServerUrl :: string
  canonicalUrl :: "string \<Rightarrow> string"
  envRecords :: "'w replica record_port"
  storedVaultKeys :: "string \<Rightarrow> ('w, vault_key_entry list option) rep"
  storeVaultKeys :: "vault_key_entry list \<Rightarrow> string \<Rightarrow> ('w, unit) rep"
  storedServerUrl :: "string \<Rightarrow> ('w, string option) rep"
  resolveUserIdForAccount :: "string \<Rightarrow> ('w, string) rep"
  envCrypto :: "'w replica crypto_port"
  envCryptoStore :: "'w replica crypto_store"
  envEnforcer :: "'w replica \<Rightarrow> enforcer"
  envNow :: "'w replica \<Rightarrow> int"
  newGeneration :: "'w replica \<Rightarrow> string"

text \<open>new Set(xs) in insertion order.\<close>

definition js_set_of :: "'a list \<Rightarrow> 'a list" where
  "js_set_of xs = fold (\<lambda>x acc. if x \<in> set acc then acc else acc @ [x]) xs []"

definition truthy :: "string option \<Rightarrow> bool" where
  "truthy x = (case x of None \<Rightarrow> False | Some t \<Rightarrow> t \<noteq> [])"

section \<open>Reading\<close>

definition emit :: "'w replica \<Rightarrow> 'w replica" where
  "emit r = r\<lparr>repoSnapshot := Suc (repoSnapshot r)\<rparr>"

definition isForThisAccount :: "'w replica_env \<Rightarrow> string \<Rightarrow> bool" where
  "isForThisAccount env acc = (envAccountId env = acc)"

definition setServerUrl :: "string option \<Rightarrow> 'w replica \<Rightarrow> 'w replica" where
  "setServerUrl url r = r\<lparr>repoServerUrl := url\<rparr>"

definition isLocked :: "'w replica_env \<Rightarrow> ('w, bool) rep" where
  "isLocked env = and_then (csGetMasterUnlockKey (envCryptoStore env) (Some (envAccountId env)))
     (\<lambda>k. ok (k = None))"

definition live :: "repo_item \<Rightarrow> bool" where
  "live item = (\<not> truthy (riDeletedAt item))"

definition applyTravelModeItemFilter ::
  "'w replica_env \<Rightarrow> 'w replica \<Rightarrow> repo_item list \<Rightarrow> repo_item list" where
  "applyTravelModeItemFilter env r items =
     (if \<not> isVerified (envEnforcer env r) (envAccountId env) then []
      else enforcerFilterItems itemVaultId (envEnforcer env r) (envAccountId env) items)"

definition isTravelModeVaultHidden :: "'w replica_env \<Rightarrow> 'w replica \<Rightarrow> string \<Rightarrow> bool" where
  "isTravelModeVaultHidden env r v =
     (if \<not> isVerified (envEnforcer env r) (envAccountId env) then True
      else isVaultHidden (Some (getConfig (envEnforcer env r) (envAccountId env))) v)"

definition getAll :: "'w replica_env \<Rightarrow> 'w replica \<Rightarrow> repo_item list" where
  "getAll env r = applyTravelModeItemFilter env r (filter live (map snd (repoItems r)))"

definition getByVault :: "'w replica_env \<Rightarrow> 'w replica \<Rightarrow> string \<Rightarrow> repo_item list" where
  "getByVault env r v = (if isTravelModeVaultHidden env r v then []
     else filter (\<lambda>i. itemVaultId i = v \<and> live i) (map snd (repoItems r)))"

definition getById :: "'w replica_env \<Rightarrow> 'w replica \<Rightarrow> string \<Rightarrow> repo_item option" where
  "getById env r i = (case js_get (repoItems r) i of None \<Rightarrow> None
     | Some item \<Rightarrow> if \<not> live item then None
                  else if isTravelModeVaultHidden env r (itemVaultId item) then None
                  else Some item)"

definition getDeleted :: "'w replica_env \<Rightarrow> 'w replica \<Rightarrow> repo_item list" where
  "getDeleted env r =
     applyTravelModeItemFilter env r (filter (\<lambda>i. \<not> live i) (map snd (repoItems r)))"

definition getVaults :: "'w replica_env \<Rightarrow> 'w replica \<Rightarrow> cached_vault list" where
  "getVaults env r =
     (let vaults = map snd (repoVaults r); en = envEnforcer env r in
      if \<not> isVerified en (envAccountId env) then []
      else let config = getConfig en (envAccountId env) in
        if \<not> tmEnabled config then vaults
        else filter (\<lambda>v. \<not> isVaultHidden (Some config) (vsId v)) vaults)"

definition getVaultById :: "'w replica_env \<Rightarrow> 'w replica \<Rightarrow> string \<Rightarrow> cached_vault option" where
  "getVaultById env r v = (if isTravelModeVaultHidden env r v then None else js_get (repoVaults r) v)"

definition getVaultKeys :: "'w replica_env \<Rightarrow> 'w replica \<Rightarrow> vault_key_entry list" where
  "getVaultKeys env r =
     (let en = envEnforcer env r in
      if \<not> isVerified en (envAccountId env) then []
      else enforcerFilterVaultKeys en (envAccountId env) (map snd (vaultKeyEntries r)))"

definition hasVault :: "'w replica \<Rightarrow> string \<Rightarrow> bool" where
  "hasVault r v = js_has (repoVaults r) v"

definition purgeHiddenVaults :: "string list \<Rightarrow> 'w replica \<Rightarrow> 'w replica" where
  "purgeHiddenVaults hidden r =
     (if hidden = [] then r
      else let gone = map fst (filter (\<lambda>(_, i). itemVaultId i \<in> set hidden) (repoItems r)) in
        emit (r\<lparr>repoVaults := fold js_delete hidden (repoVaults r),
                vaultKeyEntries := fold js_delete hidden (vaultKeyEntries r),
                repoItems := fold js_delete gone (repoItems r),
                authoritativeItems := fold js_delete gone (authoritativeItems r)\<rparr>))"

section \<open>Building what is read\<close>

definition cacheScope :: "'w replica_env \<Rightarrow> 'w replica \<Rightarrow> item_scope" where
  "cacheScope env r =
     \<lparr>scopeAccountId = Some (envAccountId env), scopeAccountEmail = envAccountEmail env,
      scopeServerUrl = Some (coalesce (repoServerUrl r) (fallbackServerUrl env))\<rparr>"

definition getVaultView :: "string \<Rightarrow> (string \<times> cached_vault) list \<Rightarrow> vault_summary" where
  "getVaultView v vaults = (case js_get vaults v of
       None \<Rightarrow> \<lparr>vsId = v, vsName = ''Unknown'', vsType = PersonalVault, vsIcon = None,
               vsImageUrl = None\<rparr>
     | Some c \<Rightarrow> \<lparr>vsId = vsId c, vsName = vsName c, vsType = vsType c, vsIcon = vsIcon c,
                 vsImageUrl = vsImageUrl c\<rparr>)"

definition buildItem ::
  "'w replica_env \<Rightarrow> 'w replica \<Rightarrow> (string \<times> cached_vault) list \<Rightarrow> cached_item \<Rightarrow> item_content \<Rightarrow> repo_item"
where
  "buildItem env r vaults cached data =
     \<lparr>itemId = itemId cached, itemVaultId = itemVaultId cached,
      itemCategory = itemCategory cached, itemFavorite = itemFavorite cached,
      itemData = itemData cached, itemIv = itemIv cached, itemAlgorithm = itemAlgorithm cached,
      itemVersion = itemVersion cached, itemLastModifiedBy = itemLastModifiedBy cached,
      itemEncryptionVersion = itemEncryptionVersion cached,
      itemEncryptedBy = itemEncryptedBy cached, itemCreatedAt = itemCreatedAt cached,
      itemUpdatedAt = itemUpdatedAt cached, riDeletedAt = cachedDeletedAt cached,
      riScope = scope_or (cachedScope cached) (cacheScope env r),
      riAttachments = cachedAttachments cached, riContent = data,
      riVault = getVaultView (itemVaultId cached) vaults\<rparr>"

definition toCached :: "'w replica_env \<Rightarrow> 'w replica \<Rightarrow> repo_item \<Rightarrow> cached_item" where
  "toCached env r item = toCachedItemFromRepositoryItem item (cacheScope env r)"

definition buildHydratedVaults ::
  "'w replica_env \<Rightarrow> 'w replica \<Rightarrow> cached_vault list \<Rightarrow> vault_key_entry list \<Rightarrow> (string \<times> cached_vault) list"
where
  "buildHydratedVaults env r cachedVaults ks =
     fold (\<lambda>k vaults. if js_has vaults (vkVaultId k) then vaults
             else js_set (vkVaultId k)
               \<lparr>vsId = vkVaultId k, vsName = vkVaultName k, vsType = vkVaultType k,
                vsIcon = vkVaultIcon k, vsImageUrl = vkVaultImageUrl k,
                vaultScope = cacheScope env r\<rparr> vaults)
          ks (js_map_of (map (\<lambda>v. (vsId v, v)) cachedVaults))"

definition keyed_vaults :: "(string \<times> cached_vault) list \<Rightarrow> (string \<times> cached_vault) list" where
  "keyed_vaults vaults = js_map_of (map (\<lambda>v. (vsId v, v)) (map snd vaults))"

definition mergeVaultKeyEntries ::
  "'w replica_env \<Rightarrow> vault_key_entry list option \<Rightarrow> 'w replica \<Rightarrow> 'w replica" where
  "mergeVaultKeyEntries env ks r = (case ks of None \<Rightarrow> r
     | Some entries \<Rightarrow>
         r\<lparr>vaultKeyEntries := js_map_of (map (\<lambda>k. (vkVaultId k, k)) entries),
           repoVaults := keyed_vaults
             (buildHydratedVaults env r (map snd (repoVaults r)) entries)\<rparr>)"

definition ensureServerUrl :: "'w replica_env \<Rightarrow> ('w, unit) rep" where
  "ensureServerUrl env = with_state (\<lambda>r.
     if truthy (repoServerUrl r) then ok ()
     else and_then (storedServerUrl env (envAccountId env)) (\<lambda>url.
       put_state (setServerUrl (Some (coalesce url (fallbackServerUrl env))))))"

definition persistItem :: "'w replica_env \<Rightarrow> cached_item \<Rightarrow> ('w, bool) rep" where
  "persistItem env item = upsertCachedItem (envRecords env) item (envAccountId env)"

section \<open>Keys and plaintexts\<close>

definition no_vault_key :: "string \<Rightarrow> js_error" where
  "no_vault_key v = JsError (''No vault key found for vault '' @ v @ ''.'')"

definition decryptVaultKey :: "'w replica_env \<Rightarrow> string \<Rightarrow> ('w, key_ref) rep" where
  "decryptVaultKey env v =
     and_then (storedVaultKeys env (envAccountId env)) (\<lambda>ks.
       case Option.bind ks (List.find (\<lambda>k. vkVaultId k = v)) of
         None \<Rightarrow> throw (no_vault_key v)
       | Some data \<Rightarrow>
           and_then (resolveUserIdForAccount env (envAccountId env)) (\<lambda>user.
             unwrapStoredVaultKey (envCrypto env) (envCryptoStore env) (vkEncryptedVaultKey data)
               (Some v) (Some user) (Some (envAccountId env))))"

definition parse_content :: "plaintext \<Rightarrow> (js_error, 's, item_content) act" where
  "parse_content p = (case parse_plaintext p of
       None \<Rightarrow> throw (JsError ''Unexpected token in JSON'') | Some c \<Rightarrow> ok c)"

definition decryptItem :: "'w replica_env \<Rightarrow> cached_item \<Rightarrow> ('w, repo_item) rep" where
  "decryptItem env item =
     and_then (decryptVaultKey env (itemVaultId item)) (\<lambda>key.
       finally_do
         (and_then (decryptStoredItem (envCrypto env) item key) (\<lambda>p.
          and_then (parse_content p) (\<lambda>data.
          with_state (\<lambda>r. ok (buildItem env r (repoVaults r) item data)))))
         (cpDestroyKey (envCrypto env) key))"

definition encryptWithVaultKey ::
  "'w replica_env \<Rightarrow> string \<Rightarrow> item_content \<Rightarrow> string \<Rightarrow> int \<Rightarrow> string option \<Rightarrow> ('w, sealed_payload) rep"
where
  "encryptWithVaultKey env v data item version user =
     and_then (decryptVaultKey env v) (\<lambda>key.
       finally_do
         (and_then (case user of Some u \<Rightarrow> ok u
                    | None \<Rightarrow> resolveUserIdForAccount env (envAccountId env)) (\<lambda>u.
          and_then (encryptItem (envCrypto env) (JsonText data) key
                      \<lparr>wsVaultId = v, wsItemId = item, wsVersion = version, wsUserId = u\<rparr>)
            (\<lambda>d. ok
              \<lparr>sealCiphertext = edCiphertext d, sealIv = edIv d, sealAlgorithm = edAlgorithm d,
               sealVersion = version, sealUserId = u\<rparr>)))
         (cpDestroyKey (envCrypto env) key))"

text \<open>
  decryptItemBatch: one key per vault, one call for all items whose vault key was opened, and an
  outcome for every item in its place. A vault whose key cannot be opened gives that error to its
  items. The parse of a decrypted plaintext is not caught.
\<close>

definition openVaultKeys ::
  "'w replica_env \<Rightarrow> string list \<Rightarrow> ('w, (string \<times> (js_error + key_ref)) list) rep" where
  "openVaultKeys env vaults = map_each vaults (\<lambda>v.
     catch (and_then (decryptVaultKey env v) (\<lambda>k. ok (v, Inr k))) (\<lambda>e. ok (v, Inl e)))"

fun assign_outcomes ::
  "(string \<times> (js_error + key_ref)) list \<Rightarrow> cached_item list \<Rightarrow> (string + 'p) list \<Rightarrow>
   (cached_item \<times> (js_error + 'p)) list" where
  "assign_outcomes ks [] rs = []"
| "assign_outcomes ks (i # is) rs =
     (case js_get ks (itemVaultId i) of
        Some (Inr _) \<Rightarrow>
          (case rs of
             [] \<Rightarrow> (i, Inl (JsError (''Failed to decrypt item '' @ itemId i))) # assign_outcomes ks is []
           | Inl e # rs' \<Rightarrow> (i, Inl (JsError e)) # assign_outcomes ks is rs'
           | Inr p # rs' \<Rightarrow> (i, Inr p) # assign_outcomes ks is rs')
      | Some (Inl e) \<Rightarrow> (i, Inl e) # assign_outcomes ks is rs
      | None \<Rightarrow> (i, Inl (JsError (''Failed to decrypt item '' @ itemId i))) # assign_outcomes ks is rs)"

definition parse_results ::
  "(string + plaintext) list \<Rightarrow> (js_error, 's, (string + item_content) list) act" where
  "parse_results rs = map_each rs (\<lambda>r. case r of Inl e \<Rightarrow> ok (Inl e)
     | Inr p \<Rightarrow> and_then (parse_content p) (\<lambda>c. ok (Inr c)))"

definition decryptItemBatch ::
  "'w replica_env \<Rightarrow> cached_item list \<Rightarrow> (string \<times> cached_vault) list \<Rightarrow>
   ('w, (cached_item \<times> (js_error + repo_item)) list) rep" where
  "decryptItemBatch env items vaults =
     (if items = [] then ok []
      else and_then (openVaultKeys env (js_set_of (map itemVaultId items))) (\<lambda>ks.
        finally_do
          (let decryptable = List.map_filter (\<lambda>i. case js_get ks (itemVaultId i) of
                 Some (Inr k) \<Rightarrow> Some (i, k) | _ \<Rightarrow> None) items in
           and_then (decryptStoredItems (envCrypto env) decryptable) (\<lambda>primary.
           and_then (parse_results (take (length decryptable) primary)) (\<lambda>parsed.
           with_state (\<lambda>r. ok (map (\<lambda>(i, oc). (i, map_sum (\<lambda>e. e) (buildItem env r vaults i) oc))
             (assign_outcomes ks items parsed))))))
          (all_each (List.map_filter (\<lambda>(_, k). case k of Inr ref \<Rightarrow> Some ref | Inl _ \<Rightarrow> None) ks)
             (cpDestroyKey (envCrypto env)))))"

end
