(* ===== verification/ReplicaOps.thy ===== *)
theory ReplicaOps
  imports Replica
begin

text \<open>
  The operations of AccountVaultReplica on single items and vaults: the projection of the pending
  commands, the inbound writes of sync, the outcomes of commands, and the direct edits.
\<close>

section \<open>The projection\<close>

definition commandsForItem :: "'w replica \<Rightarrow> string \<Rightarrow> command list" where
  "commandsForItem r item =
     sort_key timestamp (filter (\<lambda>c. entityId c = item) (map snd (pendingCommands r)))"

definition reseals :: "command \<Rightarrow> bool" where
  "reseals c = (commandType c \<in> {Create, Update, Move, CrossAccountMove})"

definition hasPendingEncryptedCommand :: "'w replica \<Rightarrow> string \<Rightarrow> bool" where
  "hasPendingEncryptedCommand r item = list_ex reseals (commandsForItem r item)"

definition created_item :: "'w replica_env \<Rightarrow> 'w replica \<Rightarrow> command \<Rightarrow> js_error + cached_item" where
  "created_item env r c = (case (encryptedPayload c, truthy (category c)) of
       (Some p, True) \<Rightarrow> Inr (toNewCachedItem
          \<lparr>niId = entityId c, niVaultId = vaultId c, niCategory = the (category c),
           niTimestamp = toISOString (timestamp c), niVersion = payloadVersion p,
           niFavorite = None, niPayload = p\<rparr>
          ((cacheScope env r)\<lparr>scopeAccountEmail := or_else (accountEmail c) (envAccountEmail env)\<rparr>))
     | _ \<Rightarrow> Inl (JsError (''Missing create projection data for '' @ entityId c)))"

definition resealed_item :: "cached_item \<Rightarrow> command \<Rightarrow> js_error + cached_item" where
  "resealed_item base c = (case encryptedPayload c of
       None \<Rightarrow> Inl (JsError (''Missing '' @
          (if commandType c = Move then ''move'' else ''update'') @ '' projection data''))
     | Some p \<Rightarrow> Inr (withEncryptedPayload base p
          \<lparr>rcUpdatedAt = toISOString (timestamp c), rcVersion = payloadVersion p,
           rcVaultId = Some (if commandType c = Move
             then coalesce (targetVaultId c) (itemVaultId base) else itemVaultId base)\<rparr>))"

definition applyCommandToCachedItem ::
  "'w replica_env \<Rightarrow> 'w replica \<Rightarrow> cached_item option \<Rightarrow> command \<Rightarrow> js_error + cached_item option" where
  "applyCommandToCachedItem env r base c =
     (let at = toISOString (timestamp c) in
      case commandType c of
        PermanentDelete \<Rightarrow> Inr base
      | Create \<Rightarrow> map_sum (\<lambda>e. e) Some (created_item env r c)
      | _ \<Rightarrow>
        (case base of None \<Rightarrow> Inr None
         | Some b \<Rightarrow>
           (case commandType c of
              Update \<Rightarrow> map_sum (\<lambda>e. e) Some (resealed_item b c)
            | Move \<Rightarrow> map_sum (\<lambda>e. e) Some (resealed_item b c)
            | Delete \<Rightarrow> Inr (Some (b\<lparr>cachedDeletedAt := Some at, itemUpdatedAt := at\<rparr>))
            | Restore \<Rightarrow> Inr (Some (b\<lparr>cachedDeletedAt := None, itemUpdatedAt := at\<rparr>))
            | ToggleFavorite \<Rightarrow> Inr (Some (b\<lparr>itemFavorite := coalesce (favorite c) False,
                                            itemUpdatedAt := at\<rparr>))
            | _ \<Rightarrow> Inr (Some b))))"

fun replay ::
  "'w replica_env \<Rightarrow> 'w replica \<Rightarrow> cached_item option \<Rightarrow> command list \<Rightarrow> js_error + cached_item option" where
  "replay env r base [] = Inr base"
| "replay env r base (c # cs) = (case applyCommandToCachedItem env r base c of
       Inl e \<Rightarrow> Inl e | Inr next \<Rightarrow> replay env r next cs)"

text \<open>What an item looks like once every pending command on it has been applied.\<close>

definition projection :: "'w replica_env \<Rightarrow> 'w replica \<Rightarrow> string \<Rightarrow> js_error + cached_item option" where
  "projection env r item =
     replay env r (js_get (authoritativeItems r) item) (commandsForItem r item)"

definition dropItem :: "string \<Rightarrow> 'w replica \<Rightarrow> 'w replica" where
  "dropItem item r = r\<lparr>repoItems := js_delete item (repoItems r)\<rparr>"

definition showItem :: "string \<Rightarrow> repo_item \<Rightarrow> 'w replica \<Rightarrow> 'w replica" where
  "showItem item ri r = r\<lparr>repoItems := js_set item ri (repoItems r)\<rparr>"

text \<open>
  The body of the try answers whether the item was installed; when the generation moved or the
  account was locked meanwhile, the item is dropped without a notification.
\<close>

definition project_decrypted ::
  "'w replica_env \<Rightarrow> string \<Rightarrow> nat \<Rightarrow> cached_item \<Rightarrow> ('w, bool) rep" where
  "project_decrypted env item generation projected =
     and_then (decryptItem env projected) (\<lambda>decrypted.
     with_state (\<lambda>r.
       and_then (if generation \<noteq> hydrationGeneration r then ok True else isLocked env) (\<lambda>stale.
         if stale then and_then (put_state (dropItem item)) (\<lambda>_. ok False)
         else and_then (put_state (showItem item decrypted)) (\<lambda>_. ok True))))"

definition rebuildItemProjection :: "'w replica_env \<Rightarrow> string \<Rightarrow> ('w, unit) rep" where
  "rebuildItemProjection env item = with_state (\<lambda>r.
     case projection env r item of
       Inl e \<Rightarrow> throw e
     | Inr None \<Rightarrow> put_state (\<lambda>s. emit (dropItem item s))
     | Inr (Some projected) \<Rightarrow>
         and_then (isLocked env) (\<lambda>locked.
           if locked then put_state (\<lambda>s. emit (dropItem item s))
           else and_then
             (catch (project_decrypted env item (hydrationGeneration r) projected)
                (\<lambda>_. and_then (put_state (dropItem item)) (\<lambda>_. ok True)))
             (\<lambda>notify. if notify then put_state emit else ok ())))"

section \<open>Inbound writes\<close>

definition setAuthoritative :: "string \<Rightarrow> cached_item \<Rightarrow> 'w replica \<Rightarrow> 'w replica" where
  "setAuthoritative item x r = r\<lparr>authoritativeItems := js_set item x (authoritativeItems r)\<rparr>"

definition dropAuthoritative :: "string \<Rightarrow> 'w replica \<Rightarrow> 'w replica" where
  "dropAuthoritative item r = r\<lparr>authoritativeItems := js_delete item (authoritativeItems r)\<rparr>"

definition setPending :: "command \<Rightarrow> 'w replica \<Rightarrow> 'w replica" where
  "setPending c r = r\<lparr>pendingCommands := js_set (opId c) c (pendingCommands r)\<rparr>"

definition dropPending :: "command \<Rightarrow> 'w replica \<Rightarrow> 'w replica" where
  "dropPending c r = r\<lparr>pendingCommands := js_delete (opId c) (pendingCommands r)\<rparr>"

definition base_is_newer :: "'w replica \<Rightarrow> cached_item \<Rightarrow> bool" where
  "base_is_newer r item = (case js_get (authoritativeItems r) (itemId item) of
       None \<Rightarrow> False | Some base \<Rightarrow> itemVersion base > itemVersion item)"

definition upsertEncrypted :: "'w replica_env \<Rightarrow> cached_item \<Rightarrow> string \<Rightarrow> ('w, unit) rep" where
  "upsertEncrypted env item acc =
     (if \<not> isForThisAccount env acc then ok ()
      else and_then (persistItem env item) (\<lambda>written.
        if \<not> written then ok ()
        else with_state (\<lambda>r.
          if base_is_newer r item then ok ()
          else and_then (put_state (setAuthoritative (itemId item) item)) (\<lambda>_.
               rebuildItemProjection env (itemId item)))))"

definition replicaRemoveCachedItem :: "'w replica_env \<Rightarrow> string \<Rightarrow> string \<Rightarrow> ('w, unit) rep" where
  "replicaRemoveCachedItem env item acc =
     (if \<not> isForThisAccount env acc then ok ()
      else with_state (\<lambda>r.
        if hasPendingEncryptedCommand r item then rebuildItemProjection env item
        else and_then (put_state (dropAuthoritative item)) (\<lambda>_.
             and_then (removeCachedItem (envRecords env) item (envAccountId env)) (\<lambda>_.
             rebuildItemProjection env item))))"

definition vault_type_text :: "vault_type \<Rightarrow> string" where
  "vault_type_text t = (case t of TeamVault \<Rightarrow> ''team'' | PersonalVault \<Rightarrow> ''personal'')"

definition rename_key :: "cached_vault \<Rightarrow> vault_key_entry \<Rightarrow> vault_key_entry" where
  "rename_key v k = k\<lparr>vkVaultName := vsName v,
     vkVaultType := decodeVaultType (Some (vault_type_text (vsType v))),
     vkVaultIcon := vsIcon v, vkVaultImageUrl := vsImageUrl v\<rparr>"

definition showVault :: "'w replica_env \<Rightarrow> cached_vault \<Rightarrow> 'w replica \<Rightarrow> 'w replica" where
  "showVault env v r =
     r\<lparr>repoVaults := js_set (vsId v)
         (v\<lparr>vaultScope := scope_or (vaultScope v) (cacheScope env r)\<rparr>) (repoVaults r),
       vaultKeyEntries := (case js_get (vaultKeyEntries r) (vsId v) of
          None \<Rightarrow> vaultKeyEntries r
        | Some k \<Rightarrow> js_set (vsId v) (rename_key v k) (vaultKeyEntries r))\<rparr>"

definition replicaUpsertCachedVault :: "'w replica_env \<Rightarrow> cached_vault \<Rightarrow> string \<Rightarrow> ('w, unit) rep" where
  "replicaUpsertCachedVault env v acc =
     (if \<not> isForThisAccount env acc then ok ()
      else and_then (put_state (showVault env v)) (\<lambda>_.
           and_then (upsertCachedVault (envRecords env) v (envAccountId env)) (\<lambda>_.
           put_state emit)))"

definition syncVaultKeys :: "'w replica_env \<Rightarrow> vault_key_entry list \<Rightarrow> string \<Rightarrow> ('w, unit) rep" where
  "syncVaultKeys env ks acc =
     (if \<not> isForThisAccount env acc then ok ()
      else with_state (\<lambda>r.
        let kept = enforcerFilterVaultKeys (envEnforcer env r) (envAccountId env) ks in
        and_then (put_state (mergeVaultKeyEntries env (Some kept))) (\<lambda>_.
        and_then (storeVaultKeys env kept (envAccountId env)) (\<lambda>_.
        put_state emit))))"

definition dropVault :: "string \<Rightarrow> 'w replica \<Rightarrow> 'w replica" where
  "dropVault v r =
     (let gone = map fst (filter (\<lambda>(_, i). itemVaultId i = v) (repoItems r));
          auth = fold js_delete gone (authoritativeItems r)
      in r\<lparr>repoVaults := js_delete v (repoVaults r),
           vaultKeyEntries := js_delete v (vaultKeyEntries r),
           repoItems := fold js_delete gone (repoItems r),
           authoritativeItems := filter (\<lambda>(_, i). itemVaultId i \<noteq> v) auth\<rparr>)"

definition replicaRemoveCachedVault :: "'w replica_env \<Rightarrow> string \<Rightarrow> string \<Rightarrow> ('w, unit) rep" where
  "replicaRemoveCachedVault env v acc =
     (if \<not> isForThisAccount env acc then ok ()
      else and_then (put_state (dropVault v)) (\<lambda>_.
           and_then (removeCachedVault (envRecords env) v (envAccountId env)) (\<lambda>_.
           put_state emit)))"

definition clearReplica :: "'w replica \<Rightarrow> 'w replica" where
  "clearReplica r = emit (r\<lparr>hydrationGeneration := Suc (hydrationGeneration r), repoItems := [],
     authoritativeItems := [], repoVaults := [], vaultKeyEntries := [], hydrated := False,
     hydrating := False, hasCacheSnapshotFlag := False\<rparr>)"

definition replicaClearItemCache :: "'w replica_env \<Rightarrow> string \<Rightarrow> ('w, unit) rep" where
  "replicaClearItemCache env acc =
     (if \<not> isForThisAccount env acc then ok ()
      else and_then (clearItemCache (envRecords env) (envAccountId env)) (\<lambda>_.
           put_state clearReplica))"

section \<open>Commands\<close>

definition applyItemCommand :: "'w replica_env \<Rightarrow> command \<Rightarrow> ('w, unit) rep" where
  "applyItemCommand env c =
     (if \<not> isForThisAccount env (accountId c) then ok ()
      else and_then (put_state (setPending c)) (\<lambda>_. rebuildItemProjection env (entityId c)))"

definition discardItemCommandAcknowledgedElsewhere :: "'w replica_env \<Rightarrow> command \<Rightarrow> ('w, unit) rep" where
  "discardItemCommandAcknowledgedElsewhere env c =
     (if \<not> isForThisAccount env (accountId c) then ok ()
      else and_then (put_state (dropPending c)) (\<lambda>_.
           and_then (getCachedItems (envRecords env) (envAccountId env)) (\<lambda>cached.
           case Option.bind cached (List.find (\<lambda>i. itemId i = entityId c)) of
             Some item \<Rightarrow> upsertEncrypted env item (envAccountId env)
           | None \<Rightarrow>
               if commandType c = PermanentDelete
               then put_state (\<lambda>r. emit (dropItem (entityId c) (dropAuthoritative (entityId c) r)))
               else rebuildItemProjection env (entityId c))))"

definition preserves_conflict :: "'w replica_env \<Rightarrow> command \<Rightarrow> bool" where
  "preserves_conflict env c = (isForThisAccount env (accountId c) \<and>
     commandType c \<in> {Update, Move, CrossAccountMove} \<and> truthy (conflictCopyId c))"

definition conflict_copy ::
  "'w replica_env \<Rightarrow> command \<Rightarrow> repo_item \<Rightarrow> sealed_payload \<Rightarrow> int \<Rightarrow> command" where
  "conflict_copy env c local payload now =
     (let oid = ''conflict-copy:'' @ opId c in
      \<lparr>accountId = envAccountId env, accountEmail = or_else (accountEmail c) (envAccountEmail env),
       commandId = oid, operationId = Some oid, attemptId = None, commandType = Create,
       entityId = the (conflictCopyId c), vaultId = itemVaultId local, targetVaultId = None,
       targetAccountId = None, targetItemId = None, category = Some (itemCategory local),
       encryptedPayload = Some (toEncryptedPayload payload), favorite = None, baseVersion = 0,
       timestamp = now, retryCount = 0, status = Some Pending, lastError = None,
       nextAttemptAt = None, conflictCopyId = None, projectionClaimId = None,
       projectionClaimExpiresAt = None\<rparr>)"

definition preserveItemConflict :: "'w replica_env \<Rightarrow> command \<Rightarrow> ('w, command option) rep" where
  "preserveItemConflict env c =
     (if \<not> preserves_conflict env c then ok None
      else with_state (\<lambda>r. case js_get (repoItems r) (entityId c) of
        None \<Rightarrow> ok None
      | Some local \<Rightarrow>
          and_then (encryptWithVaultKey env (itemVaultId local) (stripToDecryptedData local)
                      (the (conflictCopyId c)) 1 None) (\<lambda>payload.
          and_then (put_state (dropPending c)) (\<lambda>_.
          and_then (rebuildItemProjection env (entityId c)) (\<lambda>_.
          with_state (\<lambda>s. ok (Some (conflict_copy env c local payload (envNow env s)))))))))"

text \<open>The record an acknowledgement makes authoritative, if it makes any.\<close>

definition acknowledged_item ::
  "'w replica_env \<Rightarrow> 'w replica \<Rightarrow> command \<Rightarrow> string \<Rightarrow> int \<Rightarrow> js_error + cached_item option" where
  "acknowledged_item env r c entity version =
     (let base = js_get (authoritativeItems r) entity in
      if (case base of None \<Rightarrow> False | Some b \<Rightarrow> itemVersion b \<ge> version) then Inr None
      else map_sum (\<lambda>e. e) (map_option (\<lambda>x. x\<lparr>itemId := entity, itemVersion := version\<rparr>))
             (applyCommandToCachedItem env r base c))"

definition removeAcknowledged :: "'w replica_env \<Rightarrow> string \<Rightarrow> ('w, unit) rep" where
  "removeAcknowledged env entity =
     and_then (put_state (dropAuthoritative entity)) (\<lambda>_.
     and_then (removeCachedItem (envRecords env) entity (envAccountId env)) (\<lambda>_.
     rebuildItemProjection env entity))"

definition acknowledgeItemCommand ::
  "'w replica_env \<Rightarrow> command \<Rightarrow> acknowledgement \<Rightarrow> ('w, unit) rep" where
  "acknowledgeItemCommand env c a =
     (if \<not> isForThisAccount env (accountId c) then ok ()
      else (case ackVersion a of
        None \<Rightarrow> throw (JsError (''Item command '' @ opId c @ '' returned no strong revision''))
      | Some version \<Rightarrow>
          and_then (put_state (dropPending c)) (\<lambda>_.
          if commandType c = CrossAccountMove then removeAcknowledged env (entityId c)
          else if commandType c = PermanentDelete then removeAcknowledged env (ackEntityId a)
          else with_state (\<lambda>r.
            case acknowledged_item env r c (ackEntityId a) version of
              Inl e \<Rightarrow> throw e
            | Inr None \<Rightarrow> rebuildItemProjection env (ackEntityId a)
            | Inr (Some x) \<Rightarrow>
                and_then (put_state (setAuthoritative (ackEntityId a) x)) (\<lambda>_.
                and_then (persistItem env x) (\<lambda>_.
                rebuildItemProjection env (ackEntityId a)))))))"

section \<open>Direct edits\<close>

record decrypted_item =
  diId :: string
  diVaultId :: string
  diCategory :: string
  diFavorite :: bool
  diCreatedAt :: string
  diUpdatedAt :: string
  diContent :: item_content

text \<open>An edited item replaces the shown one, becomes authoritative and is written to the cache.\<close>

definition commitItem :: "'w replica_env \<Rightarrow> repo_item \<Rightarrow> string \<Rightarrow> ('w, unit) rep" where
  "commitItem env new item =
     and_then (put_state (\<lambda>r. setAuthoritative item (toCached env r new) (showItem item new r))) (\<lambda>_.
     and_then (with_state (\<lambda>r. persistItem env (toCached env r new))) (\<lambda>_.
     put_state emit))"

definition local_edit ::
  "'w replica_env \<Rightarrow> 'w replica \<Rightarrow> decrypted_item \<Rightarrow> sealed_payload \<Rightarrow> repo_item" where
  "local_edit env r item p =
     (let existing = js_get (repoItems r) (diId item) in
      \<lparr>itemId = diId item, itemVaultId = diVaultId item, itemCategory = diCategory item,
       itemFavorite = diFavorite item, itemData = sealCiphertext p, itemIv = sealIv p,
       itemAlgorithm = sealAlgorithm p,
       itemVersion = (case existing of None \<Rightarrow> 0 | Some e \<Rightarrow> itemVersion e) + 1,
       itemLastModifiedBy = sealUserId p, itemEncryptionVersion = sealVersion p,
       itemEncryptedBy = sealUserId p,
       itemCreatedAt = (case existing of None \<Rightarrow> diCreatedAt item | Some e \<Rightarrow> itemCreatedAt e),
       itemUpdatedAt = (case existing of None \<Rightarrow> diUpdatedAt item | Some _ \<Rightarrow> toISOString (envNow env r)),
       riDeletedAt = Option.bind existing riDeletedAt,
       riScope = (case existing of None \<Rightarrow> cacheScope env r
                  | Some e \<Rightarrow> scope_or (riScope e) (cacheScope env r)),
       riAttachments = Option.bind existing riAttachments,
       riContent = spread_over (case existing of None \<Rightarrow> [] | Some e \<Rightarrow> riContent e) (diContent item),
       riVault = (case existing of None \<Rightarrow> getVaultView (diVaultId item) (repoVaults r)
                  | Some e \<Rightarrow> riVault e)\<rparr>)"

definition upsertLocal :: "'w replica_env \<Rightarrow> decrypted_item \<Rightarrow> sealed_payload \<Rightarrow> ('w, unit) rep" where
  "upsertLocal env item p = with_state (\<lambda>r. commitItem env (local_edit env r item p) (diId item))"

text \<open>The edits of an item that is shown: an item that is not is left alone.\<close>

definition editShown ::
  "'w replica_env \<Rightarrow> string \<Rightarrow> ('w replica \<Rightarrow> repo_item \<Rightarrow> repo_item) \<Rightarrow> ('w, unit) rep" where
  "editShown env item edit = with_state (\<lambda>r. case js_get (repoItems r) item of
       None \<Rightarrow> ok () | Some existing \<Rightarrow> commitItem env (edit r existing) item)"

definition softDelete :: "'w replica_env \<Rightarrow> string \<Rightarrow> ('w, unit) rep" where
  "softDelete env item = editShown env item (\<lambda>r i. let now = toISOString (envNow env r) in
     i\<lparr>riDeletedAt := Some now, itemUpdatedAt := now\<rparr>)"

definition restoreItem :: "'w replica_env \<Rightarrow> string \<Rightarrow> ('w, unit) rep" where
  "restoreItem env item = editShown env item (\<lambda>r i.
     i\<lparr>riDeletedAt := None, itemUpdatedAt := toISOString (envNow env r)\<rparr>)"

definition updateFavorite :: "'w replica_env \<Rightarrow> string \<Rightarrow> bool \<Rightarrow> ('w, unit) rep" where
  "updateFavorite env item fav = editShown env item (\<lambda>r i.
     i\<lparr>itemFavorite := fav, itemUpdatedAt := toISOString (envNow env r)\<rparr>)"

definition moved_item ::
  "'w replica_env \<Rightarrow> string \<Rightarrow> sealed_payload \<Rightarrow> item_content \<Rightarrow> 'w replica \<Rightarrow> repo_item \<Rightarrow> repo_item" where
  "moved_item env target p data r i =
     i\<lparr>itemVaultId := target, itemUpdatedAt := toISOString (envNow env r),
       itemVersion := itemVersion i + 1, itemEncryptionVersion := sealVersion p,
       itemEncryptedBy := sealUserId p, itemData := sealCiphertext p, itemIv := sealIv p,
       itemAlgorithm := sealAlgorithm p, riContent := spread_over (riContent i) data,
       riVault := getVaultView target (repoVaults r)\<rparr>"

definition moveItem ::
  "'w replica_env \<Rightarrow> string \<Rightarrow> string \<Rightarrow> sealed_payload \<Rightarrow> item_content \<Rightarrow> ('w, unit) rep" where
  "moveItem env item target p data = editShown env item (moved_item env target p data)"

definition removeItem :: "'w replica_env \<Rightarrow> string \<Rightarrow> ('w, unit) rep" where
  "removeItem env item =
     and_then (put_state (\<lambda>r. (dropItem item (dropAuthoritative item r))
        \<lparr>pendingCommands := filter (\<lambda>(_, c). entityId c \<noteq> item) (pendingCommands r)\<rparr>)) (\<lambda>_.
     and_then (removeCachedItem (envRecords env) item (envAccountId env)) (\<lambda>_.
     put_state emit))"

text \<open>
  replaceItemId changes the maps and the commands at once and leaves the writes and the projection
  to run detached: each is started, and what any of them throws reaches nobody.
\<close>

definition renameItem :: "string \<Rightarrow> string \<Rightarrow> 'w replica \<Rightarrow> 'w replica" where
  "renameItem tmp real r =
     (let shown = js_get (repoItems r) tmp;
          items1 = js_delete tmp (repoItems r);
          auth = js_get (authoritativeItems r) tmp;
          auth1 = (case auth of None \<Rightarrow> authoritativeItems r
             | Some a \<Rightarrow>
                 let rest = js_delete tmp (authoritativeItems r) in
                 (case js_get rest real of
                    Some current \<Rightarrow> if itemVersion current < itemVersion a
                      then js_set real (a\<lparr>itemId := real\<rparr>) rest else rest
                  | None \<Rightarrow> js_set real (a\<lparr>itemId := real\<rparr>) rest))
      in emit (r\<lparr>repoItems := (case shown of None \<Rightarrow> items1
                  | Some i \<Rightarrow> js_set real (i\<lparr>itemId := real\<rparr>) items1),
                authoritativeItems := auth1,
                pendingCommands := map (\<lambda>(k, c). (k, if entityId c = tmp then c\<lparr>entityId := real\<rparr> else c))
                  (pendingCommands r)\<rparr>))"

definition detached :: "('w, 'a) rep \<Rightarrow> ('w, unit) rep" where
  "detached m = (\<lambda>s. case m s of (_, s') \<Rightarrow> (Inr (), s'))"

definition replaceItemId :: "'w replica_env \<Rightarrow> string \<Rightarrow> string \<Rightarrow> ('w, unit) rep" where
  "replaceItemId env tmp real =
     and_then (put_state (renameItem tmp real)) (\<lambda>_. with_state (\<lambda>r.
     and_then (detached (removeCachedItem (envRecords env) tmp (envAccountId env))) (\<lambda>_.
     and_then (case js_get (authoritativeItems r) real of None \<Rightarrow> ok ()
               | Some base \<Rightarrow> detached (persistItem env base)) (\<lambda>_.
     detached (rebuildItemProjection env real)))))"

end
