(* ===== verification/ReplicaHydrate.thy ===== *)
theory ReplicaHydrate
  imports ReplicaOps
begin

text \<open>
  Opening the replica of AccountVaultReplica: hydrate from the item cache, and hydrateFromServer,
  which fetches the whole account page by page into a staged generation of the cache, publishes it
  and then rebuilds the decrypted view from what was published. The page loop takes fuel and
  answers None when it runs out of it.
\<close>

section \<open>From the cache\<close>

definition pending_entities :: "'w replica \<Rightarrow> string list" where
  "pending_entities r = js_set_of (map (\<lambda>(_, c). entityId c) (pendingCommands r))"

text \<open>Rebuild one item after the other; False when the generation moved on in between.\<close>

fun rebuild_all :: "'w replica_env \<Rightarrow> nat \<Rightarrow> string list \<Rightarrow> ('w, bool) rep" where
  "rebuild_all env generation [] = ok True"
| "rebuild_all env generation (i # is) =
     and_then (rebuildItemProjection env i) (\<lambda>_. with_state (\<lambda>r.
       if generation \<noteq> hydrationGeneration r then ok False else rebuild_all env generation is))"

definition install_vaults ::
  "'w replica_env \<Rightarrow> (string \<times> cached_vault) list \<Rightarrow> vault_key_entry list option \<Rightarrow> 'w replica \<Rightarrow> 'w replica"
where
  "install_vaults env vaults ks r =
     mergeVaultKeyEntries env ks (r\<lparr>repoVaults := keyed_vaults vaults\<rparr>)"

definition install_outcome ::
  "'w replica_env \<Rightarrow> cached_item \<times> (js_error + repo_item) \<Rightarrow> 'w replica \<Rightarrow> 'w replica" where
  "install_outcome env = (\<lambda>(i, oc) r. case oc of
       Inl _ \<Rightarrow> setAuthoritative (itemId i) i r
     | Inr d \<Rightarrow> setAuthoritative (itemId i) (toCached env r d) (showItem (itemId i) d r))"

definition install_outcomes ::
  "'w replica_env \<Rightarrow> (cached_item \<times> (js_error + repo_item)) list \<Rightarrow> 'w replica \<Rightarrow> 'w replica" where
  "install_outcomes env outcomes r =
     fold (install_outcome env) outcomes (r\<lparr>repoItems := [], authoritativeItems := []\<rparr>)"

text \<open>The first server URL a cached vault or item names, when the replica has none.\<close>

definition adoptServerUrl :: "item_scope \<Rightarrow> 'w replica \<Rightarrow> 'w replica" where
  "adoptServerUrl scope r =
     (if \<not> truthy (repoServerUrl r) \<and> truthy (scopeServerUrl scope)
      then r\<lparr>repoServerUrl := scopeServerUrl scope\<rparr> else r)"

definition install_cache ::
  "'w replica_env \<Rightarrow> cached_item list \<Rightarrow> (string \<times> cached_vault) list \<Rightarrow> vault_key_entry list option \<Rightarrow>
   (cached_item \<times> (js_error + repo_item)) list \<Rightarrow> 'w replica \<Rightarrow> 'w replica" where
  "install_cache env items vaults ks outcomes r =
     (let r1 = r\<lparr>repoItems := [], authoritativeItems := [], repoVaults := [], vaultKeyEntries := []\<rparr>;
          r2 = fold (\<lambda>e. adoptServerUrl (vaultScope (snd e))) vaults r1;
          r3 = install_vaults env vaults ks r2;
          r4 = fold (\<lambda>i. adoptServerUrl (cachedScope i)) items r3
      in install_outcomes env outcomes r4)"

definition finish_hydration :: "nat \<Rightarrow> 'w replica \<Rightarrow> 'w replica" where
  "finish_hydration generation r =
     emit (if generation = hydrationGeneration r then r\<lparr>hydrating := False\<rparr> else r)"

definition mark_hydrated :: "bool \<Rightarrow> 'w replica \<Rightarrow> 'w replica" where
  "mark_hydrated snapshot r = r\<lparr>hasCacheSnapshotFlag := snapshot, hydrated := True\<rparr>"

definition has_cache_snapshot ::
  "cached_item list option \<Rightarrow> cached_vault list option \<Rightarrow> cache_metadata option \<Rightarrow> bool" where
  "has_cache_snapshot items vaults meta = (case (items, vaults) of
       (Some is, Some _) \<Rightarrow> is \<noteq> [] \<or> meta \<noteq> None | _ \<Rightarrow> False)"

text \<open>The part of hydrate inside its try.\<close>

definition load_cache :: "'w replica_env \<Rightarrow> nat \<Rightarrow> ('w, unit) rep" where
  "load_cache env generation =
     and_then (with_state (\<lambda>r. assertVerified (envEnforcer env r) (envAccountId env))) (\<lambda>_.
     and_then (ensureServerUrl env) (\<lambda>_.
     and_then (getCachedItems (envRecords env) (envAccountId env)) (\<lambda>items.
     and_then (getCachedVaults (envRecords env) (envAccountId env)) (\<lambda>vaults.
     and_then (getItemCacheMetadata (envRecords env) (envAccountId env)) (\<lambda>meta.
     and_then (storedVaultKeys env (envAccountId env)) (\<lambda>ks.
     and_then (get_state (\<lambda>r. buildHydratedVaults env r (coalesce vaults []) (coalesce ks []))) (\<lambda>hv.
     and_then (decryptItemBatch env (coalesce items []) hv) (\<lambda>outcomes. with_state (\<lambda>r.
     and_then (if generation \<noteq> hydrationGeneration r then ok True else isLocked env) (\<lambda>stale.
       if stale then ok ()
       else and_then (put_state (install_cache env (coalesce items []) hv ks outcomes)) (\<lambda>_.
            and_then (with_state (\<lambda>s. rebuild_all env generation (pending_entities s))) (\<lambda>complete.
            if complete then put_state (mark_hydrated (has_cache_snapshot items vaults meta))
            else put_state clearReplica))))))))))))"

definition hydrate :: "'w replica_env \<Rightarrow> ('w, unit) rep" where
  "hydrate env =
     and_then (with_state (\<lambda>r. if hydrating r then ok True else isLocked env)) (\<lambda>skip.
       if skip then ok ()
       else and_then (put_state (\<lambda>r. emit (r\<lparr>hydrationGeneration := Suc (hydrationGeneration r),
                                            hydrating := True\<rparr>))) (\<lambda>_.
            with_state (\<lambda>r. let generation = hydrationGeneration r in
              try_finally (load_cache env generation) (finish_hydration generation))))"

section \<open>From the server\<close>

record bootstrap_request =
  brCursor :: "string option"
  brLimit :: nat
  brSyncCursor :: "string option"
  brSyncCursorCaptured :: bool

record bootstrap_page =
  bpItems :: "(server_item \<times> server_vault option) list"
  bpHasMore :: bool
  bpNextCursor :: "string option"
  bpSyncCursor :: "string option"

record 'w bootstrap_client =
  bcBootstrap :: "bootstrap_request \<Rightarrow> ('w, bootstrap_page) rep"
  bcListVaults :: "('w, server_vault list) rep option"

definition stage_item :: "'w replica_env \<Rightarrow> 'w replica \<Rightarrow> server_item \<Rightarrow> cached_item" where
  "stage_item env r raw =
     (let item = toCachedItem raw (cacheScope env r) in
      item\<lparr>cachedAttachments := Some (coalesce (cachedAttachments item) [])\<rparr>)"

definition stage_page ::
  "'w replica_env \<Rightarrow> 'w replica \<Rightarrow> bootstrap_page \<Rightarrow> js_error + (cached_item \<times> cached_vault) list" where
  "stage_page env r page =
     (let shown = enforcerFilterItems (\<lambda>(x, _). itemVaultId x) (envEnforcer env r)
                    (envAccountId env) (bpItems page)
      in case List.find (\<lambda>(_, v). v = None) shown of
           Some (x, _) \<Rightarrow> Inl (JsError (''Bootstrap Item '' @ itemId x @
                            '' is missing its Vault summary.''))
         | None \<Rightarrow> Inr (map (\<lambda>(x, v). (stage_item env r x,
                     with_scope (toCachedVaultFields (the v)) (cacheScope env r))) shown))"

definition cursor_changed :: js_error where
  "cursor_changed =
     JsError ''Bootstrap sync cursor changed before the cache generation completed.''"

text \<open>
  The page loop. base is the cursor of the first page once it is captured; the loop answers it.
\<close>

fun bootstrap_pages ::
  "nat \<Rightarrow> 'w replica_env \<Rightarrow> 'w bootstrap_client \<Rightarrow> staging \<Rightarrow> string option \<Rightarrow> string option option \<Rightarrow>
   ('w, string option option) rep" where
  "bootstrap_pages 0 env client g cursor base = ok None"
| "bootstrap_pages (Suc fuel) env client g cursor base =
     and_then (bcBootstrap client
        \<lparr>brCursor = cursor, brLimit = 500, brSyncCursor = coalesce base None,
         brSyncCursorCaptured = (base \<noteq> None)\<rparr>) (\<lambda>page.
       if base \<noteq> None \<and> base \<noteq> Some (bpSyncCursor page) then throw cursor_changed
       else with_state (\<lambda>r. case stage_page env r page of
              Inl e \<Rightarrow> throw e
            | Inr staged \<Rightarrow>
                and_then (stageItems (envRecords env) g (map fst staged)) (\<lambda>_.
                and_then (stageVaults (envRecords env) g (map snd staged)) (\<lambda>_.
                if \<not> bpHasMore page \<or> \<not> truthy (bpNextCursor page)
                then ok (Some (bpSyncCursor page))
                else bootstrap_pages fuel env client g (bpNextCursor page)
                       (Some (bpSyncCursor page))))))"

definition fetchVaultKeysFromServer ::
  "'w bootstrap_client \<Rightarrow> ('w, vault_key_entry list option) rep" where
  "fetchVaultKeysFromServer client = (case bcListVaults client of
       None \<Rightarrow> ok None
     | Some call \<Rightarrow> and_then call (\<lambda>vaults. ok (Some (map toVaultKeyEntry vaults))))"

text \<open>The fetch, and the keys that came with it after the travel mode filter.\<close>

definition fetch_generation ::
  "nat \<Rightarrow> 'w replica_env \<Rightarrow> 'w bootstrap_client \<Rightarrow> staging \<Rightarrow>
   ('w, (string option \<times> vault_key_entry list option) option) rep" where
  "fetch_generation fuel env client g =
     and_then (bootstrap_pages fuel env client g None None) (\<lambda>fetched. case fetched of
       None \<Rightarrow> ok None
     | Some base \<Rightarrow>
         and_then (fetchVaultKeysFromServer client) (\<lambda>ks. with_state (\<lambda>r.
           ok (Some (base, map_option (enforcerFilterVaultKeys (envEnforcer env r) (envAccountId env)) ks)))))"

definition bootstrap_metadata :: "'w replica_env \<Rightarrow> 'w replica \<Rightarrow> string option \<Rightarrow> cache_metadata" where
  "bootstrap_metadata env r base =
     \<lparr>lastFullSyncAt = envNow env r, itemCount = 0, cacheVersion = 1,
      metaSyncBaseline = Some
        \<lparr>baselineServerUrl = canonicalUrl env (coalesce (repoServerUrl r) (fallbackServerUrl env)),
         baselineCursorId = base\<rparr>\<rparr>"

definition abandon ::
  "'w replica_env \<Rightarrow> staging \<Rightarrow> js_error \<Rightarrow> ('w, 'a) rep" where
  "abandon env g e = (\<lambda>s. case discard (envRecords env) g s of
       ((Inl e', _), s') \<Rightarrow> (Inl e', s') | ((Inr _, _), s') \<Rightarrow> (Inl e, s'))"

text \<open>Everything inside the try: a failure on the way discards the stage and is thrown again.\<close>

definition replace_generation ::
  "nat \<Rightarrow> 'w replica_env \<Rightarrow> 'w bootstrap_client \<Rightarrow> staging \<Rightarrow>
   ('w, (string option \<times> vault_key_entry list option) option) rep" where
  "replace_generation fuel env client g = (\<lambda>s. case fetch_generation fuel env client g s of
       (Inl e, s') \<Rightarrow> abandon env g e s'
     | (Inr None, s') \<Rightarrow> (Inr None, s')
     | (Inr (Some (base, ks)), s') \<Rightarrow>
         (case promote (envRecords env) g (bootstrap_metadata env s' base) s' of
            ((Inl e, g'), s'') \<Rightarrow> abandon env g' e s''
          | ((Inr _, _), s'') \<Rightarrow> (Inr (Some (base, ks)), s'')))"

text \<open>
  Records that pending commands still need are kept when the published generation lacks them.
\<close>

definition conflict_bases :: "'w replica \<Rightarrow> (string \<times> cached_item) list" where
  "conflict_bases r = filter (\<lambda>(i, _). hasPendingEncryptedCommand r i) (authoritativeItems r)"

definition readd_bases ::
  "'w replica_env \<Rightarrow> (string \<times> cached_item) list \<Rightarrow> cached_item list \<Rightarrow> ('w, cached_item list) rep" where
  "readd_bases env bases items =
     (let missing = filter (\<lambda>(i, _). i \<notin> itemId ` set items) bases in
      and_then (for_each missing (\<lambda>(_, b). and_then (persistItem env b) (\<lambda>_. ok ())))
        (\<lambda>_. ok (items @ map snd missing)))"

definition install_bootstrap ::
  "'w replica_env \<Rightarrow> (string \<times> cached_vault) list \<Rightarrow> vault_key_entry list option \<Rightarrow>
   (cached_item \<times> (js_error + repo_item)) list \<Rightarrow> 'w replica \<Rightarrow> 'w replica" where
  "install_bootstrap env vaults ks outcomes r =
     install_outcomes env outcomes (install_vaults env vaults ks r)"

definition adopt_generation ::
  "'w replica_env \<Rightarrow> nat \<Rightarrow> (string \<times> cached_item) list \<Rightarrow> vault_key_entry list option \<Rightarrow> ('w, unit) rep"
where
  "adopt_generation env generation bases refreshed =
     and_then (getCachedItems (envRecords env) (envAccountId env)) (\<lambda>items.
     and_then (getCachedVaults (envRecords env) (envAccountId env)) (\<lambda>vaults.
     and_then (readd_bases env bases (coalesce items [])) (\<lambda>cached.
     and_then (case refreshed of Some ks \<Rightarrow> ok (Some ks)
               | None \<Rightarrow> storedVaultKeys env (envAccountId env)) (\<lambda>ks.
     and_then (case refreshed of Some fresh \<Rightarrow> storeVaultKeys env fresh (envAccountId env)
               | None \<Rightarrow> ok ()) (\<lambda>_.
     and_then (get_state (\<lambda>r. buildHydratedVaults env r (coalesce vaults []) (coalesce ks []))) (\<lambda>hv.
     and_then (decryptItemBatch env cached hv) (\<lambda>outcomes. with_state (\<lambda>r.
     and_then (if generation \<noteq> hydrationGeneration r then ok True else isLocked env) (\<lambda>stale.
       if stale then ok ()
       else and_then (put_state (install_bootstrap env hv ks outcomes)) (\<lambda>_.
            and_then (with_state (\<lambda>s. rebuild_all env generation (pending_entities s))) (\<lambda>complete.
            if complete then put_state (\<lambda>s. emit (mark_hydrated True s)) else ok ())))))))))))"

definition hydrateFromServer ::
  "nat \<Rightarrow> 'w replica_env \<Rightarrow> 'w bootstrap_client \<Rightarrow> ('w, string option option) rep" where
  "hydrateFromServer fuel env client =
     and_then (isLocked env) (\<lambda>locked.
       if locked then ok (Some None)
       else with_state (\<lambda>r0. let generation = hydrationGeneration r0 in
         and_then (assertVerified (envEnforcer env r0) (envAccountId env)) (\<lambda>_.
         and_then (ensureServerUrl env) (\<lambda>_. with_state (\<lambda>r1.
         and_then (beginStagedGeneration (envRecords env) (envAccountId env) (newGeneration env r1)) (\<lambda>g.
         and_then (replace_generation fuel env client g) (\<lambda>fetched. case fetched of
           None \<Rightarrow> ok None
         | Some (base, ks) \<Rightarrow>
             and_then (adopt_generation env generation (conflict_bases r1) ks)
               (\<lambda>_. ok (Some base)))))))))"

end
