(* ===== verification/VaultRepository.thy ===== *)
theory VaultRepository
  imports ReplicaHydrate
begin

text \<open>
  VaultRepository (packages/core/src/services/vault-repository.ts): the replicas of all accounts
  behind one interface. It creates them, opens them when their account is unlocked, drops what
  they decrypted when it is locked, and reads over the active accounts or over one account.

  The state is the record repository. A replica is kept without its surroundings; a call of it
  runs on the replica put together with the world all replicas share and leaves both. The
  repository counts its own notifications, of which each notification of an attached replica is
  one. Methods run one after another here; how concurrent openings are joined is the theory
  RefreshCoalescing. A call that fetches from the server takes the fuel of the page loop: None is a
  run that has not ended, and what it leaves means nothing.
\<close>

section \<open>State\<close>

record local_account =
  laAccountId :: string
  laEmail :: string
  laUserId :: string
  laName :: string
  laServerUrl :: string
  laTeamName :: "string option"
  laTeamAvatarUrl :: "string option option"

record repo_entry =
  entryReplica :: "unit replica"
  entryEmail :: "string option"

record 'w repository =
  repos :: "(string \<times> repo_entry) list"
  accountInfoByAccountId :: "(string \<times> local_account) list"
  activeAccountIds :: "string list"
  hydratingAccountIds :: "string list"
  repositorySnapshot :: nat
  world :: 'w

type_synonym ('w, 'a) repo_act = "(js_error, 'w repository, 'a) act"

text \<open>An account with the clients it is fetched through: the part of AccountInfo used here.\<close>

record 'w account_info = local_account +
  aiBootstrap :: "'w bootstrap_client"
  aiTravel :: "'w repository travel_api"

text \<open>
  What the repository is constructed with: how the environment of an account's replica is made
  from the account id and the email the replica was created with, and the enforcer's port.
\<close>

record 'w repository_env =
  replicaEnvFor :: "string \<Rightarrow> string option \<Rightarrow> 'w replica_env"
  travelPort :: "'w repository travel_port"
  repositoryMetadata :: "string \<Rightarrow> ('w, cache_metadata option) repo_act"
  normalizeAccountServerUrl :: "string \<Rightarrow> string"

definition with_outside :: "'w \<Rightarrow> 'u replica \<Rightarrow> 'w replica" where
  "with_outside w r =
     \<lparr>repoItems = repoItems r, authoritativeItems = authoritativeItems r,
      pendingCommands = pendingCommands r, repoVaults = repoVaults r,
      vaultKeyEntries = vaultKeyEntries r, repoSnapshot = repoSnapshot r, hydrated = hydrated r,
      hydrating = hydrating r, hydrationGeneration = hydrationGeneration r,
      hasCacheSnapshotFlag = hasCacheSnapshotFlag r, repoServerUrl = repoServerUrl r, outside = w\<rparr>"

definition newReplica :: "string option \<Rightarrow> unit replica" where
  "newReplica url =
     \<lparr>repoItems = [], authoritativeItems = [], pendingCommands = [], repoVaults = [],
      vaultKeyEntries = [], repoSnapshot = 0, hydrated = False, hydrating = False,
      hydrationGeneration = 0, hasCacheSnapshotFlag = False, repoServerUrl = url, outside = ()\<rparr>"

definition emitRepository :: "'w repository \<Rightarrow> 'w repository" where
  "emitRepository s = s\<lparr>repositorySnapshot := Suc (repositorySnapshot s)\<rparr>"

text \<open>A replica and the environment its methods run in.\<close>

definition replicaOf :: "string \<Rightarrow> 'w repository \<Rightarrow> 'w replica option" where
  "replicaOf acc s = map_option (\<lambda>e. with_outside (world s) (entryReplica e)) (js_get (repos s) acc)"

definition envOf :: "'w repository_env \<Rightarrow> string \<Rightarrow> 'w repository \<Rightarrow> 'w replica_env" where
  "envOf env acc s = replicaEnvFor env acc (Option.bind (js_get (repos s) acc) entryEmail)"

definition enforcerOf :: "'w repository_env \<Rightarrow> 'w repository \<Rightarrow> enforcer" where
  "enforcerOf env s = tpEnforcer (travelPort env) s"

text \<open>Put a replica back and pass on its notifications.\<close>

definition keepReplica :: "string \<Rightarrow> repo_entry \<Rightarrow> 'w replica \<Rightarrow> 'w repository \<Rightarrow> 'w repository" where
  "keepReplica acc e r s =
     s\<lparr>repos := js_set acc (e\<lparr>entryReplica := with_outside () r\<rparr>) (repos s),
       repositorySnapshot := repositorySnapshot s + (repoSnapshot r - repoSnapshot (entryReplica e)),
       world := outside r\<rparr>"

definition on_entry :: "string \<Rightarrow> ('w replica \<Rightarrow> 'w replica) \<Rightarrow> 'w repository \<Rightarrow> 'w repository" where
  "on_entry acc f s = (case js_get (repos s) acc of None \<Rightarrow> s
     | Some e \<Rightarrow> keepReplica acc e (f (with_outside (world s) (entryReplica e))) s)"

section \<open>Creating and removing replicas\<close>

definition getOrCreate :: "string \<Rightarrow> string option \<Rightarrow> string option \<Rightarrow> 'w repository \<Rightarrow> 'w repository" where
  "getOrCreate acc url email s = (case js_get (repos s) acc of
       Some _ \<Rightarrow> if truthy url then on_entry acc (setServerUrl url) s else s
     | None \<Rightarrow> s\<lparr>repos := js_set acc \<lparr>entryReplica = newReplica url, entryEmail = email\<rparr> (repos s)\<rparr>)"

text \<open>this.getOrCreate(accountId).method(..)\<close>

definition in_replica ::
  "'w repository_env \<Rightarrow> string \<Rightarrow> ('w replica_env \<Rightarrow> ('w, 'a) rep) \<Rightarrow> ('w, 'a) repo_act" where
  "in_replica env acc m = and_then (put_state (getOrCreate acc None None)) (\<lambda>_ s.
     case js_get (repos s) acc of
       None \<Rightarrow> (Inl (JsError ''no replica''), s)
     | Some e \<Rightarrow> (case m (envOf env acc s) (with_outside (world s) (entryReplica e)) of
         (res, r) \<Rightarrow> (res, keepReplica acc e r s)))"

text \<open>The replica is cleared after it was unsubscribed, so only the removal is notified.\<close>

definition removeAccount :: "string \<Rightarrow> 'w repository \<Rightarrow> 'w repository" where
  "removeAccount acc s = (case js_get (repos s) acc of None \<Rightarrow> s
     | Some _ \<Rightarrow> emitRepository
         (s\<lparr>repos := js_delete acc (repos s),
            accountInfoByAccountId := js_delete acc (accountInfoByAccountId s),
            activeAccountIds := filter (\<lambda>a. a \<noteq> acc) (activeAccountIds s)\<rparr>))"

definition rememberLocalAccount :: "local_account \<Rightarrow> 'w repository \<Rightarrow> 'w repository" where
  "rememberLocalAccount account s =
     getOrCreate (laAccountId account) (Some (laServerUrl account)) (Some (laEmail account))
       (s\<lparr>accountInfoByAccountId := js_set (laAccountId account) account (accountInfoByAccountId s)\<rparr>)"

definition setLocalActiveAccounts :: "local_account list \<Rightarrow> 'w repository \<Rightarrow> 'w repository" where
  "setLocalActiveAccounts accounts s =
     emitRepository (fold (\<lambda>account t. rememberLocalAccount account
         (t\<lparr>activeAccountIds := (if laAccountId account \<in> set (activeAccountIds t)
             then activeAccountIds t else activeAccountIds t @ [laAccountId account])\<rparr>))
       accounts (s\<lparr>activeAccountIds := []\<rparr>))"

definition clearRepository :: "'w repository \<Rightarrow> 'w repository" where
  "clearRepository s =
     emitRepository (s\<lparr>repos := [], accountInfoByAccountId := [], activeAccountIds := [],
                       hydratingAccountIds := []\<rparr>)"

definition purgeHiddenVaultsForAccount :: "string \<Rightarrow> string list \<Rightarrow> 'w repository \<Rightarrow> 'w repository" where
  "purgeHiddenVaultsForAccount acc hidden s = emitRepository (on_entry acc (purgeHiddenVaults hidden) s)"

text \<open>getTravelModeEnforcer(storage, itemCache, this): the enforcer purges through this repository.\<close>

definition repositoryTravel :: "'w repository_env \<Rightarrow> 'w repository travel_port" where
  "repositoryTravel env = (travelPort env)\<lparr>tpPurge := Some purgeHiddenVaultsForAccount\<rparr>"

section \<open>Locking and unlocking\<close>

text \<open>The synchronous part: every account that is not unlocked drops what it decrypted.\<close>

definition lockAccounts :: "string list \<Rightarrow> 'w repository \<Rightarrow> 'w repository" where
  "lockAccounts unlocked s =
     fold (\<lambda>acc. on_entry acc clearReplica) (filter (\<lambda>acc. acc \<notin> set unlocked) (map fst (repos s))) s"

text \<open>The accounts whose replica is opened after an unlock.\<close>

definition accountsToOpen :: "'w repository_env \<Rightarrow> string list \<Rightarrow> 'w repository \<Rightarrow> string list" where
  "accountsToOpen env unlocked s =
     map fst (filter (\<lambda>(acc, e). acc \<in> set unlocked \<and> \<not> hydrated (entryReplica e) \<and>
                                 isVerified (enforcerOf env s) acc) (repos s))"

definition applyUnlockState :: "'w repository_env \<Rightarrow> string list \<Rightarrow> ('w, unit) repo_act" where
  "applyUnlockState env unlocked = with_state (\<lambda>s.
     and_then (put_state (lockAccounts unlocked)) (\<lambda>_.
     for_each (accountsToOpen env unlocked s) (\<lambda>acc.
       catch (in_replica env acc hydrate) (\<lambda>_. ok ()))))"

section \<open>Opening\<close>

text \<open>An account that is given twice is opened once: the second opening joins the first.\<close>

fun once_each :: "('a \<Rightarrow> string) \<Rightarrow> 'a list \<Rightarrow> 'a list" where
  "once_each f [] = []"
| "once_each f (x # xs) = x # once_each f (filter (\<lambda>y. f y \<noteq> f x) xs)"

definition openLocally :: "'w repository_env \<Rightarrow> local_account \<Rightarrow> ('w, unit) repo_act" where
  "openLocally env account = (let acc = laAccountId account in
     and_then (put_state (rememberLocalAccount account)) (\<lambda>_.
     catch
       (and_then (with_state (\<lambda>s. if isVerified (enforcerOf env s) acc then ok ()
            else and_then (hydrateFromStorage (repositoryTravel env) acc) (\<lambda>_. ok ()))) (\<lambda>_.
        in_replica env acc hydrate))
       (\<lambda>e. and_then (put_state (on_entry acc clearReplica)) (\<lambda>_. throw e))))"

definition hydrateLocalAccounts :: "'w repository_env \<Rightarrow> local_account list \<Rightarrow> ('w, unit) repo_act" where
  "hydrateLocalAccounts env accounts = all_each (once_each laAccountId accounts) (openLocally env)"

definition ensureTravelModeVerified :: "'w repository_env \<Rightarrow> 'w account_info \<Rightarrow> ('w, unit) repo_act" where
  "ensureTravelModeVerified env account = with_state (\<lambda>s.
     if isVerified (enforcerOf env s) (laAccountId account) then ok ()
     else and_then (verifyForUnlock (repositoryTravel env) (laAccountId account) (Some (aiTravel account)))
            (\<lambda>_. ok ()))"

definition account_replica :: "'w account_info \<Rightarrow> ('w, unit) repo_act" where
  "account_replica account = put_state (getOrCreate (laAccountId account)
     (Some (laServerUrl account)) (Some (laEmail account)))"

definition refreshAccount ::
  "nat \<Rightarrow> 'w repository_env \<Rightarrow> 'w account_info \<Rightarrow> ('w, string option option) repo_act" where
  "refreshAccount fuel env account = and_then (account_replica account) (\<lambda>_.
     in_replica env (laAccountId account) (\<lambda>renv. hydrateFromServer fuel renv (aiBootstrap account)))"

definition startHydrating :: "string \<Rightarrow> 'w repository \<Rightarrow> 'w repository" where
  "startHydrating acc s = emitRepository (s\<lparr>hydratingAccountIds :=
     (if acc \<in> set (hydratingAccountIds s) then hydratingAccountIds s else hydratingAccountIds s @ [acc])\<rparr>)"

definition stopHydrating :: "string \<Rightarrow> 'w repository \<Rightarrow> 'w repository" where
  "stopHydrating acc s =
     emitRepository (s\<lparr>hydratingAccountIds := filter (\<lambda>a. a \<noteq> acc) (hydratingAccountIds s)\<rparr>)"

definition hasSnapshot :: "string \<Rightarrow> 'w repository \<Rightarrow> bool" where
  "hasSnapshot acc s = (case replicaOf acc s of None \<Rightarrow> False | Some r \<Rightarrow> hasCacheSnapshotFlag r)"

definition isAccountHydrated :: "string \<Rightarrow> 'w repository \<Rightarrow> bool" where
  "isAccountHydrated acc s = (case replicaOf acc s of None \<Rightarrow> False | Some r \<Rightarrow> hydrated r)"

text \<open>
  hydrateAccount: from the cache, and from the server when the cache has no snapshot, tried twice;
  every failure is logged and swallowed. It answers None when a fetch has not ended.
\<close>

definition open_account :: "nat \<Rightarrow> 'w repository_env \<Rightarrow> 'w account_info \<Rightarrow> ('w, unit option) repo_act" where
  "open_account fuel env account = (let acc = laAccountId account in
     and_then (ensureTravelModeVerified env account) (\<lambda>_.
     and_then (in_replica env acc hydrate) (\<lambda>_. with_state (\<lambda>s.
       if hasSnapshot acc s then ok (Some ())
       else and_then (catch (refreshAccount fuel env account) (\<lambda>_. refreshAccount fuel env account))
              (\<lambda>fetched. ok (map_option (\<lambda>_. ()) fetched))))))"

definition hydrateAccount :: "nat \<Rightarrow> 'w repository_env \<Rightarrow> 'w account_info \<Rightarrow> ('w, unit option) repo_act" where
  "hydrateAccount fuel env account = (let acc = laAccountId account in
     and_then (account_replica account) (\<lambda>_. with_state (\<lambda>s.
       if isAccountHydrated acc s \<and> hasSnapshot acc s then ok (Some ())
       else and_then (put_state (startHydrating acc)) (\<lambda>_.
            try_finally (catch (open_account fuel env account) (\<lambda>_. ok (Some ())))
              (stopHydrating acc)))))"

definition local_part :: "'w account_info \<Rightarrow> local_account" where
  "local_part account = local_account.truncate account"

fun hydrate_each :: "nat \<Rightarrow> 'w repository_env \<Rightarrow> 'w account_info list \<Rightarrow> ('w, unit option) repo_act" where
  "hydrate_each fuel env [] = ok (Some ())"
| "hydrate_each fuel env (a # as) = and_then (hydrateAccount fuel env a) (\<lambda>one.
     and_then (hydrate_each fuel env as) (\<lambda>rest. ok (if one = None then None else rest)))"

definition hydrateRemoteAccounts ::
  "nat \<Rightarrow> 'w repository_env \<Rightarrow> 'w account_info list \<Rightarrow> ('w, unit option) repo_act" where
  "hydrateRemoteAccounts fuel env accounts =
     and_then (put_state (fold (\<lambda>a. rememberLocalAccount (local_part a)) accounts)) (\<lambda>_.
       hydrate_each fuel env (once_each laAccountId accounts))"

section \<open>The sync baseline\<close>

definition baseline_for :: "string \<Rightarrow> cache_metadata option \<Rightarrow> sync_baseline_ref option" where
  "baseline_for url metadata = (case Option.bind metadata metaSyncBaseline of None \<Rightarrow> None
     | Some b \<Rightarrow> if baselineServerUrl b = url then Some b else None)"

definition baseline_cursor :: "sync_baseline_ref \<Rightarrow> string option" where
  "baseline_cursor b = (if truthy (baselineCursorId b) then baselineCursorId b else None)"

definition initializeSyncBaseline ::
  "nat \<Rightarrow> 'w repository_env \<Rightarrow> 'w account_info list \<Rightarrow> string \<Rightarrow> string option \<Rightarrow>
   ('w, string option option) repo_act" where
  "initializeSyncBaseline fuel env accounts acc currentCursor =
     (case List.find (\<lambda>a. laAccountId a = acc) accounts of
        None \<Rightarrow> throw (JsError (''Cannot initialize sync for unavailable account '' @ acc))
      | Some account \<Rightarrow> (let url = normalizeAccountServerUrl env (laServerUrl account) in
          and_then (repositoryMetadata env acc) (\<lambda>before.
          and_then (ensureTravelModeVerified env account) (\<lambda>_.
          and_then (hydrateAccount fuel env account) (\<lambda>opened.
          if opened = None then ok None
          else and_then (repositoryMetadata env acc) (\<lambda>metadata. case baseline_for url metadata of
            Some b \<Rightarrow> ok (Some (if baseline_for url before \<noteq> None \<and> currentCursor \<noteq> None
                               then currentCursor else baseline_cursor b))
          | None \<Rightarrow>
              and_then (refreshAccount fuel env account) (\<lambda>fetched.
              if fetched = None then ok None
              else and_then (repositoryMetadata env acc) (\<lambda>committed. case baseline_for url committed of
                None \<Rightarrow> throw (JsError (''Bootstrap for account '' @ acc @
                                     '' did not commit a sync baseline''))
              | Some b \<Rightarrow> ok (Some (baseline_cursor b))))))))))"

fun refresh_each :: "nat \<Rightarrow> 'w repository_env \<Rightarrow> 'w account_info list \<Rightarrow> ('w, unit option) repo_act" where
  "refresh_each fuel env [] = ok (Some ())"
| "refresh_each fuel env (a # as) = (\<lambda>s. case refreshAccount fuel env a s of (r, s') \<Rightarrow>
     (case refresh_each fuel env as s' of (r', s'') \<Rightarrow>
        (case r of Inl e \<Rightarrow> (Inl e, s'') | Inr None \<Rightarrow> (Inr None, s'') | Inr (Some _) \<Rightarrow> (r', s''))))"

definition refreshFromServer ::
  "nat \<Rightarrow> 'w repository_env \<Rightarrow> 'w account_info list \<Rightarrow> ('w, unit option) repo_act" where
  "refreshFromServer fuel env accounts = refresh_each fuel env accounts"

section \<open>Reading\<close>

text \<open>An item as it is read: with the account it is attributed to, when that is known.\<close>

type_synonym item_with_account = "repo_item \<times> local_account option"

definition isHydrating :: "'w repository \<Rightarrow> bool" where
  "isHydrating s = (hydratingAccountIds s \<noteq> [])"

definition getActiveRepoEntries :: "'w repository \<Rightarrow> (string \<times> repo_entry) list" where
  "getActiveRepoEntries s = filter (\<lambda>(acc, _). acc \<in> set (activeAccountIds s)) (repos s)"

definition getReadEntries :: "string option \<Rightarrow> 'w repository \<Rightarrow> (string \<times> repo_entry) list" where
  "getReadEntries acc s =
     (if truthy acc then (case js_get (repos s) (the acc) of None \<Rightarrow> [] | Some e \<Rightarrow> [(the acc, e)])
      else getActiveRepoEntries s)"

definition withAccount :: "'w repository \<Rightarrow> string \<Rightarrow> repo_item \<Rightarrow> item_with_account" where
  "withAccount s acc item = (item, js_get (accountInfoByAccountId s) acc)"

definition filterItemsForAccount ::
  "'w repository_env \<Rightarrow> 'w repository \<Rightarrow> string \<Rightarrow> repo_item list \<Rightarrow> repo_item list" where
  "filterItemsForAccount env s acc items = enforcerFilterItems itemVaultId (enforcerOf env s) acc items"

text \<open>The loop the list getters share, over what one replica answers.\<close>

definition read_items ::
  "'w repository_env \<Rightarrow> ('w replica_env \<Rightarrow> 'w replica \<Rightarrow> repo_item list) \<Rightarrow> string option \<Rightarrow>
   'w repository \<Rightarrow> item_with_account list" where
  "read_items env get acc s =
     concat (map (\<lambda>(a, e). map (withAccount s a) (filterItemsForAccount env s a
         (get (replicaEnvFor env a (entryEmail e)) (with_outside (world s) (entryReplica e)))))
       (getReadEntries acc s))"

definition repositoryGetAll where
  "repositoryGetAll env acc s = read_items env getAll acc s"

definition repositoryGetByVault where
  "repositoryGetByVault env v acc s = read_items env (\<lambda>renv r. getByVault renv r v) acc s"

definition repositoryGetDeleted where
  "repositoryGetDeleted env acc s = read_items env getDeleted acc s"

fun first_item ::
  "'w repository_env \<Rightarrow> 'w repository \<Rightarrow> string \<Rightarrow> (string \<times> repo_entry) list \<Rightarrow> item_with_account option" where
  "first_item env s i [] = None"
| "first_item env s i ((a, e) # es) =
     (case getById (replicaEnvFor env a (entryEmail e)) (with_outside (world s) (entryReplica e)) i of
        None \<Rightarrow> first_item env s i es
      | Some item \<Rightarrow> if filterItemsForAccount env s a [item] = [] then None
                     else Some (withAccount s a item))"

definition repositoryGetById ::
  "'w repository_env \<Rightarrow> string \<Rightarrow> string option \<Rightarrow> 'w repository \<Rightarrow> item_with_account option" where
  "repositoryGetById env i acc s = first_item env s i (getReadEntries acc s)"

definition findAccountForItem :: "'w repository_env \<Rightarrow> string \<Rightarrow> 'w repository \<Rightarrow> string option" where
  "findAccountForItem env i s = map_option fst (List.find (\<lambda>(a, e).
     let renv = replicaEnvFor env a (entryEmail e); r = with_outside (world s) (entryReplica e) in
     getById renv r i \<noteq> None \<or> list_ex (\<lambda>x. itemId x = i) (getDeleted renv r)) (repos s))"

definition findAccountForVault :: "string \<Rightarrow> 'w repository \<Rightarrow> string option" where
  "findAccountForVault v s = map_option fst (List.find (\<lambda>(_, e). hasVault (entryReplica e) v) (repos s))"

definition getAccountInfo :: "string \<Rightarrow> 'w repository \<Rightarrow> local_account option" where
  "getAccountInfo acc s = js_get (accountInfoByAccountId s) acc"

definition repositoryGetVaultKeys :: "'w repository_env \<Rightarrow> string \<Rightarrow> ('w, vault_key_entry list) repo_act" where
  "repositoryGetVaultKeys env acc = in_replica env acc (\<lambda>renv. get_state (getVaultKeys renv))"

definition repositoryGetVaultById ::
  "'w repository_env \<Rightarrow> string \<Rightarrow> string \<Rightarrow> ('w, cached_vault option) repo_act" where
  "repositoryGetVaultById env v acc = in_replica env acc (\<lambda>renv. get_state (\<lambda>r. getVaultById renv r v))"

section \<open>The ports of sync and of local edits\<close>

definition repositoryUpsertLocal where
  "repositoryUpsertLocal env acc item p = in_replica env acc (\<lambda>renv. upsertLocal renv item p)"

definition encryptForVault where
  "encryptForVault env acc v data item version user =
     in_replica env acc (\<lambda>renv. encryptWithVaultKey renv v data item version user)"

definition repositoryReplaceItemId where
  "repositoryReplaceItemId env tmp real acc = in_replica env acc (\<lambda>renv. replaceItemId renv tmp real)"

definition repositoryApplyItemCommand where
  "repositoryApplyItemCommand env c = in_replica env (accountId c) (\<lambda>renv. applyItemCommand renv c)"

definition repositoryDiscard where
  "repositoryDiscard env c =
     in_replica env (accountId c) (\<lambda>renv. discardItemCommandAcknowledgedElsewhere renv c)"

definition repositoryPreserveItemConflict where
  "repositoryPreserveItemConflict env c = in_replica env (accountId c) (\<lambda>renv. preserveItemConflict renv c)"

definition repositoryAcknowledge where
  "repositoryAcknowledge env c a = in_replica env (accountId c) (\<lambda>renv. acknowledgeItemCommand renv c a)"

definition repositoryReconcileAuthoritative ::
  "'w repository_env \<Rightarrow> command \<Rightarrow> cached_item \<Rightarrow> ('w, unit) repo_act" where
  "repositoryReconcileAuthoritative env c item =
     in_replica env (accountId c) (\<lambda>renv. upsertEncrypted renv item (accountId c))"

definition repositoryUpsertCachedItem where
  "repositoryUpsertCachedItem env item acc = in_replica env acc (\<lambda>renv. upsertEncrypted renv item acc)"

definition repositoryRemoveCachedItem where
  "repositoryRemoveCachedItem env i acc = in_replica env acc (\<lambda>renv. replicaRemoveCachedItem renv i acc)"

definition repositoryUpsertCachedVault where
  "repositoryUpsertCachedVault env v acc = in_replica env acc (\<lambda>renv. replicaUpsertCachedVault renv v acc)"

definition repositoryRemoveCachedVault where
  "repositoryRemoveCachedVault env v acc = in_replica env acc (\<lambda>renv. replicaRemoveCachedVault renv v acc)"

definition repositorySyncVaultKeys where
  "repositorySyncVaultKeys env ks acc = in_replica env acc (\<lambda>renv. syncVaultKeys renv ks acc)"

definition repositoryClearItemCache where
  "repositoryClearItemCache env acc = in_replica env acc (\<lambda>renv. replicaClearItemCache renv acc)"

end
