(* ===== verification/RepositoryProps.thy ===== *)
theory RepositoryProps
  imports VaultRepository Contracts
begin

text \<open>
  What the operations of the vault repository leave alone. A call of a replica touches its own
  entry only; the calls that go through the travel mode enforcer do so when the enforcer's port
  works on the world only, which is the locale worldly_travel.
\<close>

section \<open>One entry\<close>

text \<open>Everything the repository itself holds, the entry of one account left out.\<close>

definition others :: "string \<Rightarrow> (string \<times> 'v) list \<Rightarrow> string \<Rightarrow> 'v option" where
  "others acc m = (\<lambda>b. if b = acc then None else js_get m b)"

lemma others_iff: "others a m = others a m' \<longleftrightarrow> (\<forall>b. b \<noteq> a \<longrightarrow> js_get m b = js_get m' b)"
  by (auto simp: others_def fun_eq_iff)

lemma others_update [simp]: "others a (js_set a v m) = others a m" "others a (js_delete a m) = others a m"
  by (simp_all add: others_iff)

definition elsewhere :: "string \<Rightarrow> 'w repository \<Rightarrow> (string \<Rightarrow> repo_entry option) \<times>
    (string \<Rightarrow> local_account option) \<times> string set" where
  "elsewhere acc s = (others acc (repos s), others acc (accountInfoByAccountId s), set (activeAccountIds s) - {acc})"

text \<open>A replica that shows nothing.\<close>

definition empty_entry :: "repo_entry \<Rightarrow> bool" where
  "empty_entry e = (let r = entryReplica e in repoItems r = [] \<and> authoritativeItems r = [] \<and>
     repoVaults r = [] \<and> vaultKeyEntries r = [] \<and> \<not> hydrated r)"

definition dark :: "string \<Rightarrow> 'w repository \<Rightarrow> bool" where
  "dark acc s = (case js_get (repos s) acc of None \<Rightarrow> True | Some e \<Rightarrow> empty_entry e)"

lemma elsewhere_entry: "elsewhere a t = elsewhere a s \<Longrightarrow> b \<noteq> a \<Longrightarrow> js_get (repos t) b = js_get (repos s) b"
  by (simp add: elsewhere_def others_iff)

lemma elsewhere_info:
  "elsewhere a t = elsewhere a s \<Longrightarrow> b \<noteq> a \<Longrightarrow>
     js_get (accountInfoByAccountId t) b = js_get (accountInfoByAccountId s) b"
  by (simp add: elsewhere_def others_iff)

lemma elsewhere_active: "elsewhere a t = elsewhere a s \<Longrightarrow> b \<noteq> a \<Longrightarrow>
    b \<in> set (activeAccountIds t) \<longleftrightarrow> b \<in> set (activeAccountIds s)"
  by (auto simp: elsewhere_def set_eq_iff)

lemma elsewhere_keep [simp]: "elsewhere acc (keepReplica acc e r s) = elsewhere acc s"
  by (simp add: elsewhere_def keepReplica_def)

lemma elsewhere_on_entry [simp]: "elsewhere acc (on_entry acc f s) = elsewhere acc s"
  by (simp add: on_entry_def split: option.split)

lemma elsewhere_getOrCreate [simp]: "elsewhere acc (getOrCreate acc url email s) = elsewhere acc s"
proof -
  have "elsewhere acc (s\<lparr>repos := js_set acc e (repos s)\<rparr>) = elsewhere acc s" for e
    by (simp add: elsewhere_def)
  then show ?thesis by (simp add: getOrCreate_def split: option.split)
qed

lemma elsewhere_emit [simp]: "elsewhere acc (emitRepository s) = elsewhere acc s"
  by (simp add: elsewhere_def emitRepository_def)

lemma elsewhere_remove [simp]: "elsewhere acc (removeAccount acc s) = elsewhere acc s"
  by (auto simp: removeAccount_def elsewhere_def emitRepository_def split: option.split)

lemma elsewhere_remember [simp]: "elsewhere (laAccountId a) (rememberLocalAccount a s) = elsewhere (laAccountId a) s"
  unfolding rememberLocalAccount_def elsewhere_getOrCreate by (simp add: elsewhere_def)

lemma elsewhere_purge [simp]: "elsewhere acc (purgeHiddenVaultsForAccount acc hidden s) = elsewhere acc s"
  by (simp add: purgeHiddenVaultsForAccount_def)

lemma elsewhere_hydrating [simp]:
  "elsewhere acc (startHydrating b s) = elsewhere acc s" "elsewhere acc (stopHydrating b s) = elsewhere acc s"
  unfolding startHydrating_def stopHydrating_def elsewhere_emit by (simp_all add: elsewhere_def)

definition stays :: "string \<Rightarrow> ('w, 'a) repo_act \<Rightarrow> bool" where
  "stays acc m \<longleftrightarrow> (\<forall>s. elsewhere acc (snd (m s)) = elsewhere acc s)"

lemma staysD: "stays acc m \<Longrightarrow> m s = (r, t) \<Longrightarrow> elsewhere acc t = elsewhere acc s"
  unfolding stays_def by (metis snd_conv)

lemma stays_ok: "stays acc (ok x)" and stays_throw: "stays acc (throw e)"
  by (simp_all add: stays_def act_defs)

lemma stays_put: "(\<And>s. elsewhere acc (f s) = elsewhere acc s) \<Longrightarrow> stays acc (put_state f)"
  by (simp add: stays_def put_state_def)

lemma stays_and_then:
  assumes "stays acc m" and "\<And>x. stays acc (f x)"
  shows "stays acc (and_then m f)"
  unfolding stays_def
proof
  fix s
  obtain r t where r: "m s = (r, t)" by fastforce
  with staysD [OF assms(1) r] assms(2) show "elsewhere acc (snd (and_then m f s)) = elsewhere acc s"
    by (cases r) (simp_all add: and_then_def stays_def)
qed

lemma stays_catch:
  assumes "stays acc m" and "\<And>e. stays acc (h e)"
  shows "stays acc (catch m h)"
  unfolding stays_def
proof
  fix s
  obtain r t where r: "m s = (r, t)" by fastforce
  with staysD [OF assms(1) r] assms(2) show "elsewhere acc (snd (catch m h s)) = elsewhere acc s"
    by (cases r) (simp_all add: catch_def stays_def)
qed

lemma stays_with: "(\<And>s. stays acc (f s)) \<Longrightarrow> stays acc (with_state f)"
  by (simp add: stays_def with_state_def)

lemma stays_if: "(b \<Longrightarrow> stays acc m) \<Longrightarrow> (\<not> b \<Longrightarrow> stays acc n) \<Longrightarrow> stays acc (if b then m else n)"
  by simp

lemma stays_option: "stays acc m \<Longrightarrow> (\<And>x. stays acc (f x)) \<Longrightarrow> stays acc (case z of None \<Rightarrow> m | Some x \<Rightarrow> f x)"
  by (cases z) simp_all

lemma stays_finally: "stays acc m \<Longrightarrow> (\<And>s. elsewhere acc (f s) = elsewhere acc s) \<Longrightarrow> stays acc (try_finally m f)"
  unfolding stays_def try_finally_def by (simp add: case_prod_beta)

lemmas stays_intros = stays_ok stays_throw stays_and_then stays_catch stays_with stays_if stays_option

lemma stays_in_replica: "stays acc (in_replica env acc m)"
  by (simp add: stays_def in_replica_def act_defs split: prod.splits option.splits)

section \<open>Through the enforcer\<close>

text \<open>The enforcer's port works on the world, not on the replicas.\<close>

definition held where
  "held s = (repos s, accountInfoByAccountId s, activeAccountIds s, hydratingAccountIds s, repositorySnapshot s)"

definition worldly :: "('w, 'a) repo_act \<Rightarrow> bool" where
  "worldly m \<longleftrightarrow> (\<forall>me. under (\<lambda>s. held s = me) m (\<lambda>_. True))"

lemma held_elsewhere: "held t = held s \<Longrightarrow> elsewhere acc t = elsewhere acc s"
  by (simp add: held_def elsewhere_def)

lemma worldly_stays: "worldly m \<Longrightarrow> stays acc m"
  unfolding stays_def worldly_def under_def by (metis held_elsewhere)

definition worldly_api :: "'w repository travel_api \<Rightarrow> bool" where
  "worldly_api api \<longleftrightarrow> worldly (taGet api)"

locale worldly_travel =
  fixes env :: "'w repository_env"
  assumes get_cache: "worldly (tpGetCache (travelPort env) acc)"
    and store_cache: "worldly (tpStoreCache (travelPort env) c acc)"
    and get_keys: "worldly (tpGetVaultKeys (travelPort env) acc)"
    and store_keys: "worldly (tpStoreVaultKeys (travelPort env) ks acc)"
    and items: "worldly (getCachedItems (tpRecords (travelPort env)) acc)"
    and set_items: "worldly (setCachedItems (tpRecords (travelPort env)) xs acc)"
    and vaults: "worldly (getCachedVaults (tpRecords (travelPort env)) acc)"
    and set_vaults: "worldly (setCachedVaults (tpRecords (travelPort env)) vs acc)"
    and set_enforcer: "held (tpSetEnforcer (travelPort env) en s) = held s"
    and metadata: "worldly (repositoryMetadata env acc)"
begin

lemma travel_fields [simp]:
  "tpEnforcer (repositoryTravel env) = tpEnforcer (travelPort env)"
  "tpSetEnforcer (repositoryTravel env) = tpSetEnforcer (travelPort env)"
  "tpGetCache (repositoryTravel env) = tpGetCache (travelPort env)"
  "tpStoreCache (repositoryTravel env) = tpStoreCache (travelPort env)"
  "tpGetVaultKeys (repositoryTravel env) = tpGetVaultKeys (travelPort env)"
  "tpStoreVaultKeys (repositoryTravel env) = tpStoreVaultKeys (travelPort env)"
  "tpRecords (repositoryTravel env) = tpRecords (travelPort env)"
  "tpPurge (repositoryTravel env) = Some purgeHiddenVaultsForAccount"
  "tpParseDate (repositoryTravel env) = tpParseDate (travelPort env)"
  by (simp_all add: repositoryTravel_def)

lemma purge_stays: "stays acc (purge_if_enabled (repositoryTravel env) acc config)"
  unfolding purge_if_enabled_def purgeAllLayers_def purge_keys_def purge_items_def purge_vaults_def travel_fields option.case
  by (intro stays_intros stays_put elsewhere_purge worldly_stays get_keys store_keys items set_items vaults set_vaults)

lemma expose_stays: "stays acc (put_state (expose (repositoryTravel env) acc config))"
  by (rule stays_put) (simp add: expose_def Let_def held_elsewhere [OF set_enforcer])

lemma storage_stays: "stays acc (hydrateFromStorage (repositoryTravel env) acc)"
  unfolding hydrateFromStorage_def travel_fields
  by (intro stays_intros purge_stays expose_stays worldly_stays get_cache)

lemma verify_stays: "worldly_api api \<Longrightarrow> stays acc (verifyForUnlock (repositoryTravel env) acc (Some api))"
  unfolding verifyForUnlock_def fetchFromServer_def apply_response_def applyConfig_def persistConfig_def option.case Let_def
    worldly_api_def travel_fields
  by (intro stays_intros storage_stays purge_stays expose_stays worldly_stays store_cache)

lemma open_stays: "stays (laAccountId account) (openLocally env account)"
  unfolding openLocally_def Let_def
  by (intro stays_intros stays_put stays_in_replica storage_stays elsewhere_remember elsewhere_on_entry)

lemma ensure_stays:
  "worldly_api (aiTravel account) \<Longrightarrow> stays (laAccountId account) (ensureTravelModeVerified env account)"
  unfolding ensureTravelModeVerified_def by (intro stays_intros verify_stays)

lemma refresh_stays: "stays (laAccountId account) (refreshAccount fuel env account)"
  unfolding refreshAccount_def account_replica_def
  by (intro stays_intros stays_put stays_in_replica elsewhere_getOrCreate)

lemma hydrate_stays:
  "worldly_api (aiTravel account) \<Longrightarrow> stays (laAccountId account) (hydrateAccount fuel env account)"
  unfolding hydrateAccount_def open_account_def account_replica_def Let_def
  by (intro stays_intros stays_put stays_in_replica stays_finally elsewhere_getOrCreate elsewhere_hydrating
      refresh_stays ensure_stays)

lemma baseline_stays:
  assumes "\<And>a. a \<in> set accounts \<Longrightarrow> worldly_api (aiTravel a)"
  shows "stays acc (initializeSyncBaseline fuel env accounts acc cursor)"
proof (cases "List.find (\<lambda>a. laAccountId a = acc) accounts")
  case None
  then show ?thesis by (simp add: initializeSyncBaseline_def stays_throw)
next
  case (Some account)
  then have a: "laAccountId account = acc" "worldly_api (aiTravel account)"
    using assms by (auto simp: find_Some_iff)
  note steps = ensure_stays [OF a(2)] hydrate_stays [OF a(2)] refresh_stays [of account]
  show ?thesis
    unfolding initializeSyncBaseline_def Some option.case Let_def
    by (intro stays_intros worldly_stays metadata steps [unfolded a(1)])
qed

end

section \<open>Locking\<close>

lemma cleared_entry: "empty_entry (e\<lparr>entryReplica := with_outside () (clearReplica (with_outside w r))\<rparr>)"
  by (simp add: empty_entry_def clearReplica_def emit_def with_outside_def)

lemma dark_clear: "dark acc (on_entry acc clearReplica s)"
  by (auto simp: dark_def on_entry_def keepReplica_def cleared_entry split: option.split)

lemma dark_other: "a \<noteq> b \<Longrightarrow> elsewhere a t = elsewhere a s \<Longrightarrow> dark b t = dark b s"
  using elsewhere_entry [of a t s b] by (simp add: dark_def)

lemma dark_lock:
  assumes "acc \<notin> set unlocked"
  shows "dark acc (lockAccounts unlocked s)"
proof -
  have "dark acc (fold (\<lambda>a. on_entry a clearReplica) as t)" if "acc \<in> set as \<or> dark acc t" for as and t :: "'w repository"
    using that
  proof (induction as arbitrary: t)
    case (Cons a as)
    have "acc \<in> set as \<or> dark acc (on_entry a clearReplica t)"
      using Cons.prems dark_clear [of a t] dark_other [OF _ elsewhere_on_entry, of a acc clearReplica t] by (cases "a = acc") auto
    from Cons.IH [OF this] show ?case by simp
  qed simp
  note lock = this [of "filter (\<lambda>acc. acc \<notin> set unlocked) (map fst (repos s))" s]
  show ?thesis
  proof (cases "js_get (repos s) acc")
    case None
    then have "dark acc s" by (simp add: dark_def)
    with lock show ?thesis by (simp add: lockAccounts_def)
  next
    case (Some e)
    then have "acc \<in> set (map fst (repos s))" by (auto dest!: map_of_SomeD intro: rev_image_eqI)
    with assms lock show ?thesis by (simp add: lockAccounts_def)
  qed
qed

lemma lock_keeps:
  assumes "acc \<in> set unlocked"
  shows "js_get (repos (lockAccounts unlocked s)) acc = js_get (repos s) acc"
proof -
  have "js_get (repos (fold (\<lambda>a. on_entry a clearReplica) as t)) acc = js_get (repos t) acc"
    if "acc \<notin> set as" for as and t :: "'w repository"
    using that
  proof (induction as arbitrary: t)
    case (Cons a as)
    then show ?case using elsewhere_entry [OF elsewhere_on_entry, of acc a clearReplica t] by simp
  qed simp
  from this [of "filter (\<lambda>acc. acc \<notin> set unlocked) (map fst (repos s))" s] assms show ?thesis
    by (simp add: lockAccounts_def)
qed

lemma opening_others:
  assumes "acc \<notin> set as"
  shows "js_get (repos (snd (for_each as (\<lambda>a. catch (in_replica env a hydrate) (\<lambda>_. ok ())) s))) acc = js_get (repos s) acc \<and>
    fst (for_each as (\<lambda>a. catch (in_replica env a hydrate) (\<lambda>_. ok ())) s) = Inr ()"
  using assms
proof (induction as arbitrary: s)
  case (Cons a as)
  have st: "stays a (catch (in_replica env a hydrate) (\<lambda>_. ok ()))" by (intro stays_intros stays_in_replica)
  obtain t where t: "catch (in_replica env a hydrate) (\<lambda>_. ok ()) s = (Inr (), t)"
    by (cases "in_replica env a hydrate s"; cases "fst (in_replica env a hydrate s)") (auto simp: act_defs)
  have "js_get (repos t) acc = js_get (repos s) acc"
    using elsewhere_entry [OF staysD [OF st t], of acc] Cons.prems by auto
  with Cons.IH [of t] Cons.prems t show ?case by (simp add: and_then_def)
qed (simp add: ok_def)

text \<open>What no getter finds in a dark account.\<close>

lemma empty_replica_reads:
  assumes "repoItems r = []" and "repoVaults r = []" and "vaultKeyEntries r = []"
  shows "getAll env r = []" "getDeleted env r = []" "getByVault env r v = []" "getById env r i = None"
    "getVaultKeys env r = []" "getVaultById env r v = None"
  using assms
  by (simp_all add: getAll_def getDeleted_def getByVault_def getById_def getVaultKeys_def getVaultById_def
      applyTravelModeItemFilter_def enforcerFilterItems_def filterItemsByTravelMode_def
      enforcerFilterVaultKeys_def filterVaultKeys_def Let_def split: option.split)

lemma empty_entry_reads:
  assumes "empty_entry e"
  shows "getAll env (with_outside w (entryReplica e)) = []" "getDeleted env (with_outside w (entryReplica e)) = []"
    "getByVault env (with_outside w (entryReplica e)) v = []" "getById env (with_outside w (entryReplica e)) i = None"
    "getVaultKeys env (with_outside w (entryReplica e)) = []" "getVaultById env (with_outside w (entryReplica e)) v = None"
    "\<not> hydrated (entryReplica e)"
  using assms empty_replica_reads [of "with_outside w (entryReplica e)"]
  by (simp_all add: empty_entry_def Let_def with_outside_def)

lemma hydrated_with_outside [simp]: "hydrated (with_outside w r) = hydrated r"
  by (simp add: with_outside_def)

lemma filter_nothing: "filterItemsForAccount env s acc [] = []"
  by (simp add: filterItemsForAccount_def enforcerFilterItems_def filterItemsByTravelMode_def split: option.split)

lemma dark_created:
  assumes "dark acc s"
  obtains e where "js_get (repos (getOrCreate acc None None s)) acc = Some e" "empty_entry e"
  using assms
  by (cases "js_get (repos s) acc")
     (auto simp: dark_def getOrCreate_def truthy_def empty_entry_def newReplica_def Let_def)

lemma dark_entry_reads:
  assumes "dark acc s" and "acc \<noteq> []"
  shows "repositoryGetAll env (Some acc) s = []" "repositoryGetDeleted env (Some acc) s = []"
    "repositoryGetByVault env v (Some acc) s = []" "repositoryGetById env i (Some acc) s = None"
    "\<not> isAccountHydrated acc s"
proof -
  have "repositoryGetAll env (Some acc) s = [] \<and> repositoryGetDeleted env (Some acc) s = [] \<and>
    repositoryGetByVault env v (Some acc) s = [] \<and> repositoryGetById env i (Some acc) s = None \<and>
    \<not> isAccountHydrated acc s"
  proof (cases "js_get (repos s) acc")
    case None
    with assms(2) show ?thesis
      by (simp add: repositoryGetAll_def repositoryGetDeleted_def repositoryGetByVault_def read_items_def
        repositoryGetById_def getReadEntries_def truthy_def isAccountHydrated_def replicaOf_def)
  next
    case (Some e)
    with assms have "empty_entry e" by (simp add: dark_def)
    with Some assms(2) show ?thesis
      by (simp add: empty_entry_reads filter_nothing repositoryGetAll_def repositoryGetDeleted_def repositoryGetByVault_def
        read_items_def repositoryGetById_def getReadEntries_def truthy_def isAccountHydrated_def replicaOf_def)
  qed
  then show "repositoryGetAll env (Some acc) s = []" "repositoryGetDeleted env (Some acc) s = []"
    "repositoryGetByVault env v (Some acc) s = []" "repositoryGetById env i (Some acc) s = None"
    "\<not> isAccountHydrated acc s"
    by blast+
qed

lemma dark_key_reads:
  assumes "dark acc s"
  shows "fst (repositoryGetVaultKeys env acc s) = Inr []" "fst (repositoryGetVaultById env v acc s) = Inr None"
proof -
  obtain e where e: "js_get (repos (getOrCreate acc None None s)) acc = Some e" "empty_entry e"
    by (rule dark_created [OF assms])
  show "fst (repositoryGetVaultKeys env acc s) = Inr []" "fst (repositoryGetVaultById env v acc s) = Inr None"
    by (simp_all add: repositoryGetVaultKeys_def repositoryGetVaultById_def in_replica_def act_defs e(1)
        empty_entry_reads [OF e(2)])
qed

text \<open>Every account has one entry, and a lock and the openings after it keep it so.\<close>

definition one_entry :: "'w repository \<Rightarrow> bool" where
  "one_entry s = distinct (map fst (repos s))"

lemma one_entry_simps:
  "one_entry s \<Longrightarrow> one_entry (keepReplica acc e r s)" "one_entry s \<Longrightarrow> one_entry (on_entry acc f s)"
  "one_entry s \<Longrightarrow> one_entry (getOrCreate acc url email s)"
  by (auto simp: one_entry_def keepReplica_def on_entry_def getOrCreate_def distinct_update split: option.split)

lemma in_replica_one_entry: "keeps one_entry (in_replica env acc m)"
  unfolding in_replica_def
proof (intro keeps_and_then keeps_put_state one_entry_simps)
  show "keeps one_entry (\<lambda>s. case js_get (repos s) acc of None \<Rightarrow> (Inl (JsError ''no replica''), s)
     | Some e \<Rightarrow> (case m (envOf env acc s) (with_outside (world s) (entryReplica e)) of
         (res, r) \<Rightarrow> (res, keepReplica acc e r s)))"
    by (auto simp: keeps_def one_entry_simps split: option.split prod.split)
qed

lemma unlock_one_entry: "keeps one_entry (applyUnlockState env unlocked)"
proof -
  have "one_entry (fold (\<lambda>acc. on_entry acc clearReplica) as s)" if "one_entry s" for as s
    using that by (induction as arbitrary: s) (simp_all add: one_entry_simps)
  then have lock: "one_entry s \<Longrightarrow> one_entry (lockAccounts unlocked s)" for s by (simp add: lockAccounts_def)
  show ?thesis
    unfolding applyUnlockState_def
    by (intro keeps_with_state keeps_and_then keeps_put_state keeps_for_each keeps_catch keeps_ok in_replica_one_entry lock)
qed

text \<open>The entries of a list but the account's, and what a list getter makes of them.\<close>

definition but_of :: "string \<Rightarrow> (string \<times> repo_entry) list \<Rightarrow> (string \<times> repo_entry) list" where
  "but_of acc es = filter (\<lambda>(a, _). a \<noteq> acc) es"

definition read_but ::
  "'w repository_env \<Rightarrow> ('w replica_env \<Rightarrow> 'w replica \<Rightarrow> repo_item list) \<Rightarrow> string \<Rightarrow> string option \<Rightarrow>
   'w repository \<Rightarrow> item_with_account list" where
  "read_but env get acc scope s =
     concat (map (\<lambda>(a, e). map (withAccount s a) (filterItemsForAccount env s a
         (get (replicaEnvFor env a (entryEmail e)) (with_outside (world s) (entryReplica e)))))
       (but_of acc (getReadEntries scope s)))"

lemma concat_but:
  "(\<And>e. (acc, e) \<in> set es \<Longrightarrow> f (acc, e) = []) \<Longrightarrow> concat (map f (but_of acc es)) = concat (map f es)"
  by (induction es) (auto simp: but_of_def)

lemma dark_entry:
  assumes "one_entry s" and "dark acc s" and "(acc, e) \<in> set (repos s)"
  shows "empty_entry e"
proof -
  have "js_get (repos s) acc = Some e" using assms(1,3) by (simp add: one_entry_def js_get_Some_iff)
  with assms(2) show ?thesis by (simp add: dark_def)
qed

lemma read_entry: "(acc, e) \<in> set (getReadEntries scope s) \<Longrightarrow> (acc, e) \<in> set (repos s)"
  by (auto simp: getReadEntries_def getActiveRepoEntries_def split: if_splits option.splits dest: map_of_SomeD map_of_SomeD [OF sym])

lemma dark_scope_reads:
  assumes "one_entry s" and "dark acc s"
  shows "repositoryGetAll env scope s = read_but env getAll acc scope s"
    "repositoryGetDeleted env scope s = read_but env getDeleted acc scope s"
    "repositoryGetByVault env v scope s = read_but env (\<lambda>renv r. getByVault renv r v) acc scope s"
    "repositoryGetById env i scope s = first_item env s i (but_of acc (getReadEntries scope s))"
proof -
  have empty: "(acc, e) \<in> set (getReadEntries scope s) \<Longrightarrow> empty_entry e" for e
    using dark_entry [OF assms read_entry] .
  have lists: "read_items env get scope s = read_but env get acc scope s"
    if "\<And>e. empty_entry e \<Longrightarrow> get (replicaEnvFor env acc (entryEmail e)) (with_outside (world s) (entryReplica e)) = []" for get
    unfolding read_items_def read_but_def using that empty by (intro concat_but [symmetric]) (simp add: filter_nothing)
  show "repositoryGetAll env scope s = read_but env getAll acc scope s"
    "repositoryGetDeleted env scope s = read_but env getDeleted acc scope s"
    "repositoryGetByVault env v scope s = read_but env (\<lambda>renv r. getByVault renv r v) acc scope s"
    unfolding repositoryGetAll_def repositoryGetDeleted_def repositoryGetByVault_def
    by (rule lists, simp add: empty_entry_reads)+
  have "first_item env s i es = first_item env s i (but_of acc es)" if "\<And>e. (acc, e) \<in> set es \<Longrightarrow> empty_entry e" for es
    using that by (induction es) (auto simp: but_of_def empty_entry_reads split: option.split)
  with empty show "repositoryGetById env i scope s = first_item env s i (but_of acc (getReadEntries scope s))"
    by (simp add: repositoryGetById_def)
qed

lemma dark_not_found:
  assumes "one_entry s" and "dark acc s"
  shows "findAccountForItem env i s \<noteq> Some acc" "findAccountForVault v s \<noteq> Some acc"
proof -
  show "findAccountForItem env i s \<noteq> Some acc"
  proof
    assume "findAccountForItem env i s = Some acc"
    then obtain e where e: "(acc, e) \<in> set (repos s)" and "let renv = replicaEnvFor env acc (entryEmail e);
        r = with_outside (world s) (entryReplica e) in getById renv r i \<noteq> None \<or> list_ex (\<lambda>x. itemId x = i) (getDeleted renv r)"
      by (auto simp: findAccountForItem_def find_Some_iff) (metis nth_mem)
    with dark_entry [OF assms e] show False by (simp add: empty_entry_reads Let_def)
  qed
  show "findAccountForVault v s \<noteq> Some acc"
  proof
    assume "findAccountForVault v s = Some acc"
    then obtain e where e: "(acc, e) \<in> set (repos s)" and "hasVault (entryReplica e) v"
      by (auto simp: findAccountForVault_def find_Some_iff) (metis nth_mem)
    with dark_entry [OF assms e] show False by (simp add: empty_entry_def hasVault_def js_has_def Let_def)
  qed
qed

end
