(* ===== verification/CacheContracts.thy ===== *)
theory CacheContracts
  imports ItemCacheSpec Contracts
begin

text \<open>
  What every operation of the item cache keeps of the store under it, whatever the store answers:
  a record is stored under the id of what it holds. The locale keyed_store asks this of the port's
  own operations, and every operation of the cache inherits it. It is interpreted on the in-memory
  adapter.
\<close>

definition keyed_record :: "string \<times> record_value \<Rightarrow> bool" where
  "keyed_record = (\<lambda>(k, v). case v of
       ItemText i \<Rightarrow> itemId i = k | VaultText w \<Rightarrow> vsId w = k | _ \<Rightarrow> True)"

definition keyed_bucket :: "bucket \<Rightarrow> bool" where
  "keyed_bucket b = (bucket_ok b \<and> list_all keyed_record b)"

lemma keyed_bucket_Nil [simp]: "keyed_bucket []"
  by (simp add: keyed_bucket_def bucket_ok_def)

lemma keyed_bucket_delete: "keyed_bucket b \<Longrightarrow> keyed_bucket (js_delete k b)"
  by (auto simp: keyed_bucket_def bucket_ok_def list_all_iff AList.delete_eq distinct_map_filter)

lemma set_js_set_subset: "set (js_set k v m) \<subseteq> insert (k, v) (set m)"
  by (induction m) auto

lemma keyed_bucket_set: "keyed_bucket b \<Longrightarrow> keyed_record (k, v) \<Longrightarrow> keyed_bucket (js_set k v b)"
  using set_js_set_subset [of k v b]
  by (auto simp: keyed_bucket_def bucket_ok_def list_all_iff)

lemma keyed_put_many: "keyed_bucket b \<Longrightarrow> list_all keyed_record rs \<Longrightarrow> keyed_bucket (put_many rs b)"
  unfolding put_many_def by (induction rs arbitrary: b) (auto intro: keyed_bucket_set)

lemma keyed_items [simp]: "list_all keyed_record (item_records is)"
  by (simp add: item_records_def keyed_record_def list_all_iff)

lemma keyed_vaults_records [simp]: "list_all keyed_record (vault_records vs)"
  by (simp add: vault_records_def keyed_record_def list_all_iff)

lemma keyed_map_of: "list_all keyed_record rs \<Longrightarrow> keyed_bucket (js_map_of rs)"
  using keyed_put_many [of "[]" rs] by (simp add: js_map_of_def put_many_def)

lemma keyed_fold_delete: "keyed_bucket b \<Longrightarrow> keyed_bucket (fold js_delete ks b)"
  by (induction ks arbitrary: b) (auto intro: keyed_bucket_delete)

lemma keyed_bucket_all: "keyed_bucket b \<Longrightarrow> list_all keyed_record b"
  by (simp add: keyed_bucket_def)

lemma keyed_filter: "list_all keyed_record b \<Longrightarrow> list_all keyed_record (filter P b)"
  by (auto simp: list_all_iff)

lemma parsed_item_ids:
  "keyed_bucket b \<Longrightarrow> set (map itemId (parse_records parseItem b)) \<subseteq> fst ` set b \<and>
     distinct (map itemId (parse_records parseItem b))"
  unfolding keyed_bucket_def bucket_ok_def
proof (induction b)
  case (Cons e b)
  obtain k v where e: "e = (k, v)" by (cases e)
  show ?case
  proof (cases "parseItem v")
    case None
    with Cons e show ?thesis by (auto simp: parse_records_def List.map_filter_simps)
  next
    case (Some i)
    then have "v = ItemText i" by (cases v) auto
    moreover have "itemId i = k" using Cons.prems e calculation by (simp add: keyed_record_def)
    ultimately show ?thesis
      using Cons e by (auto simp: parse_records_def List.map_filter_simps)
  qed
qed (simp add: parse_records_def List.map_filter_simps)

section \<open>The contract\<close>

locale keyed_store =
  fixes port :: "'s record_port"
    and I :: "'s \<Rightarrow> bool"
  assumes put: "keyed_record (k, v) \<Longrightarrow> under I (recordPut port c k v) (\<lambda>_. True)"
    and put_many: "list_all keyed_record rs \<Longrightarrow> under I (recordPutMany port c rs) (\<lambda>_. True)"
    and get: "under I (recordGet port c k) (\<lambda>_. True)"
    and delete: "under I (recordDelete port c k) (\<lambda>_. True)"
    and list: "under I (recordList port c) keyed_bucket"
    and clear: "under I (recordClear port c) (\<lambda>_. True)"
begin

lemma read_state: "under I (readState port acc) (\<lambda>_. True)"
  unfolding readState_def by (intro contract_intros get) simp

lemma write_state: "under I (writeState port acc st) (\<lambda>_. True)"
  unfolding writeState_def by (rule put) (simp add: keyed_record_def)

lemma values_of: "under I (valuesOf port c) keyed_bucket"
  unfolding valuesOf_def
  by (rule under_and_then [OF list]) (auto intro!: under_ok keyed_map_of keyed_bucket_all)

lemma list_any: "under I (recordList port c) (\<lambda>_. True)"
  by (rule under_true [OF list])

lemma clears: "under I (all_each cs (recordClear port)) (\<lambda>_. True)"
  by (rule under_all_each) (rule clear)

lemma deletes: "under I (for_each ks (recordDelete port c)) (\<lambda>_. True)"
  by (rule under_for_each) (rule delete)

lemma write_newer: "under I (writeNewerItem port c i) (\<lambda>_. True)"
  unfolding writeNewerItem_def by (intro contract_intros get put) (simp_all add: keyed_record_def)

lemma accepted_keyed:
  "keyed_bucket a \<Longrightarrow> keyed_bucket (fold (accept_item stored) is a)"
proof (induction "is" arbitrary: a)
  case (Cons i "is")
  have "keyed_bucket (accept_item stored i a)"
    using keyed_bucket_set [OF Cons.prems, of "itemId i" "ItemText i"] Cons.prems
    by (simp add: accept_item_def Let_def keyed_record_def)
  with Cons.IH show ?case by simp
qed simp

lemma write_newer_many: "under I (writeNewerItems port c is) (\<lambda>_. True)"
  unfolding writeNewerItems_def
  by (intro contract_intros under_true [OF values_of] put_many keyed_bucket_all accepted_keyed) simp_all

lemma upsert: "under I (upsertCachedItem port i acc) (\<lambda>_. True)"
  unfolding upsertCachedItem_def by (intro contract_intros read_state write_newer)

lemma remove: "under I (removeCachedItem port i acc) (\<lambda>_. True)"
  unfolding removeCachedItem_def by (intro contract_intros read_state delete)

lemma upsert_vault: "under I (upsertCachedVault port v acc) (\<lambda>_. True)"
  unfolding upsertCachedVault_def by (intro contract_intros read_state put) (simp add: keyed_record_def)

lemma remove_vault: "under I (removeCachedVault port v acc) (\<lambda>_. True)"
  unfolding removeCachedVault_def Let_def
  by (intro contract_intros read_state delete list_any under_for_each)
     (auto intro!: contract_intros delete)

lemma clear_cache: "under I (clearItemCache port acc) (\<lambda>_. True)"
  unfolding clearItemCache_def by (intro contract_intros read_state clears)

lemma get_items:
  "under I (getCachedItems port acc) (\<lambda>r. case r of None \<Rightarrow> True | Some is \<Rightarrow> distinct (map itemId is))"
  unfolding getCachedItems_def readCollection_def
  by (intro under_and_then [OF read_state] under_and_then [OF list] under_ok)
     (auto dest: parsed_item_ids)

lemma get_vaults: "under I (getCachedVaults port acc) (\<lambda>_. True)"
  unfolding getCachedVaults_def readCollection_def by (intro contract_intros read_state list_any) simp

lemma get_metadata: "under I (getItemCacheMetadata port acc) (\<lambda>_. True)"
  unfolding getItemCacheMetadata_def by (intro contract_intros read_state) simp

lemma replace: "list_all keyed_record rs \<Longrightarrow> under I (replaceCollection port c rs) (\<lambda>_. True)"
  unfolding replaceCollection_def by (intro contract_intros clear put_many)

lemma set_items: "under I (setCachedItems port is acc) (\<lambda>_. True)"
  unfolding setCachedItems_def prime_items_def
  by (intro contract_intros read_state replace write_state) simp_all

lemma set_vaults: "under I (setCachedVaults port vs acc) (\<lambda>_. True)"
  unfolding setCachedVaults_def prime_vaults_def
  by (intro contract_intros read_state replace write_state) simp_all

lemma begin_stage: "under I (beginStagedGeneration port acc gen) (\<lambda>_. True)"
  unfolding beginStagedGeneration_def Let_def
  by (intro under_and_then [OF read_state] under_and_then [OF list] under_and_then [OF clears]
      under_and_then [OF put_many] under_ok) (auto dest: keyed_bucket_all)

lemma pending_stage: "under I (assertPending g) (\<lambda>_. True)"
  unfolding assertPending_def by (intro contract_intros) simp

lemma stage_items: "under I (stageItems port g batch) (\<lambda>_. True)"
  unfolding stageItems_def by (intro contract_intros pending_stage write_newer_many)

lemma stage_vaults: "under I (stageVaults port g batch) (\<lambda>_. True)"
  unfolding stageVaults_def
  by (intro contract_intros pending_stage put_many keyed_bucket_all keyed_map_of keyed_vaults_records)

lemma reconcile_items_keyed: "under I (reconcile_items port g c) (\<lambda>_. True)"
  unfolding reconcile_items_def Let_def
  by (intro under_and_then [OF values_of] under_and_then [OF list] under_and_then [OF deletes]
      under_and_then [OF put_many] under_ok) (auto dest: keyed_bucket_all intro: keyed_filter)

lemma reconcile_vaults_keyed: "under I (reconcile_vaults port g c staged) (\<lambda>_. True)"
  unfolding reconcile_vaults_def Let_def
  by (intro under_and_then [OF values_of] under_and_then [OF list] under_and_then [OF deletes]
      under_and_then [OF put_many] under_ok) (auto dest: keyed_bucket_all intro: keyed_filter)

lemma publish_keyed: "under I (publish port g md) (\<lambda>_. True)"
  unfolding publish_def
  by (intro contract_intros pending_stage read_state reconcile_items_keyed reconcile_vaults_keyed write_state) simp

lemma sweep_keyed: "under I (sweep port g st) (\<lambda>_. True)"
  unfolding sweep_def by (intro contract_intros clears) simp

lemma promote_keeps: "promote port g md s = (r, s') \<Longrightarrow> I s \<Longrightarrow> I s'"
  using underD [OF publish_keyed] underD [OF sweep_keyed]
  by (fastforce simp: promote_def split: prod.splits sum.splits)

lemma discard_keeps: "discard port g s = (r, s') \<Longrightarrow> I s \<Longrightarrow> I s'"
  using underD [OF clears] by (fastforce simp: discard_def split: if_splits prod.splits)

end

section \<open>The in-memory adapter\<close>

definition keyed_memory_ok :: "memory \<Rightarrow> bool" where
  "keyed_memory_ok m = list_all (\<lambda>(c, b). keyed_bucket b) m"

lemma keyed_bucketFor: "keyed_memory_ok m \<Longrightarrow> keyed_bucket (bucketFor m c)"
  by (auto simp: keyed_memory_ok_def bucketFor_def list_all_iff coalesce_def split: option.splits
      dest: map_of_SomeD)

lemma keyed_memory_get: "js_get m c = Some b \<Longrightarrow> keyed_memory_ok m \<Longrightarrow> keyed_bucket b"
  using keyed_bucketFor [of m c] by (simp add: bucketFor_def)

lemma keyed_memory_set: "keyed_memory_ok m \<Longrightarrow> keyed_bucket b \<Longrightarrow> keyed_memory_ok (js_set c b m)"
  using set_js_set_subset [of c b m] by (auto simp: keyed_memory_ok_def list_all_iff)

lemma keyed_memory_delete: "keyed_memory_ok m \<Longrightarrow> keyed_memory_ok (js_delete c m)"
  by (auto simp: keyed_memory_ok_def list_all_iff AList.delete_eq)

interpretation memory_records: keyed_store "createInMemoryRecordPort prefix" keyed_memory_ok for prefix
  by unfold_locales
     (auto simp: under_def createInMemoryRecordPort_def
       intro!: keyed_memory_set keyed_bucket_set keyed_put_many keyed_bucketFor keyed_bucket_delete keyed_memory_delete
       split: option.splits dest: keyed_memory_get)

end
