(* ===== verification/ReplicaProps.thy ===== *)
theory ReplicaProps
  imports ReplicaHydrate CacheContracts
begin

text \<open>
  What a replica shows. The specification is the projection: the pending commands of an item
  replayed over its authoritative record, decrypted. The locale calm_env is a surrounding in which
  awaited calls leave the replica's own fields alone, the cache keys its records by their ids, and
  a ciphertext opens to one plaintext; in it every operation keeps each shown item equal to its
  projection.
\<close>

section \<open>Looks\<close>

text \<open>Everything a reader sees of a record; the account scope is bookkeeping of the cache.\<close>

definition looks_of :: "cached_item \<Rightarrow> item_fields \<times> string option \<times> attachment list option" where
  "looks_of x = (item_fields.truncate x, cachedDeletedAt x, cachedAttachments x)"

definition repo_looks :: "repo_item \<Rightarrow> item_fields \<times> string option \<times> attachment list option" where
  "repo_looks x = (item_fields.truncate x, riDeletedAt x, riAttachments x)"

text \<open>The part of a record that is sealed, with the binding it is sealed under.\<close>

definition sealed_part :: "'a item_fields_scheme \<Rightarrow> encrypted_data \<times> encryption_context" where
  "sealed_part x = (storedItemData x, buildStoredItemEncryptionContext x)"

lemma truncate_eq_iff:
  "item_fields.truncate (x :: 'a item_fields_scheme) = item_fields.truncate (y :: 'b item_fields_scheme) \<longleftrightarrow>
     itemId x = itemId y \<and> itemVaultId x = itemVaultId y \<and> itemCategory x = itemCategory y \<and>
     itemFavorite x = itemFavorite y \<and> itemData x = itemData y \<and> itemIv x = itemIv y \<and>
     itemAlgorithm x = itemAlgorithm y \<and> itemVersion x = itemVersion y \<and>
     itemLastModifiedBy x = itemLastModifiedBy y \<and> itemEncryptionVersion x = itemEncryptionVersion y \<and>
     itemEncryptedBy x = itemEncryptedBy y \<and> itemCreatedAt x = itemCreatedAt y \<and>
     itemUpdatedAt x = itemUpdatedAt y"
  by (auto simp: item_fields.defs)

lemma looks_eq_iff:
  "looks_of x = looks_of y \<longleftrightarrow> item_fields.truncate x = item_fields.truncate y \<and>
     cachedDeletedAt x = cachedDeletedAt y \<and> cachedAttachments x = cachedAttachments y"
  by (simp add: looks_of_def)

lemma sealed_part_cong: "item_fields.truncate x = item_fields.truncate y \<Longrightarrow> sealed_part x = sealed_part y"
  by (simp add: truncate_eq_iff sealed_part_def storedItemData_def buildStoredItemEncryptionContext_def)

section \<open>Replaying commands\<close>

text \<open>A command whose projection data is there.\<close>

definition command_wf :: "command \<Rightarrow> bool" where
  "command_wf c =
     ((commandType c = Create \<longrightarrow> encryptedPayload c \<noteq> None \<and> truthy (category c)) \<and>
      (commandType c = Update \<or> commandType c = Move \<longrightarrow> encryptedPayload c \<noteq> None))"

lemma apply_wf: "command_wf c \<Longrightarrow> \<exists>x. applyCommandToCachedItem env r base c = Inr x"
  by (cases "commandType c")
     (auto simp: command_wf_def applyCommandToCachedItem_def Let_def created_item_def resealed_item_def
       split: option.splits)

lemma replay_wf: "list_all command_wf cs \<Longrightarrow> \<exists>x. replay env r base cs = Inr x"
proof (induction cs arbitrary: base)
  case (Cons c cs)
  obtain x where "applyCommandToCachedItem env r base c = Inr x"
    using apply_wf [of c env r base] Cons.prems by auto
  with Cons show ?case by simp
qed simp

abbreviation look_sum :: "js_error + cached_item option \<Rightarrow>
    js_error + (item_fields \<times> string option \<times> attachment list option) option" where
  "look_sum \<equiv> map_sum (\<lambda>e. e) (map_option looks_of)"

lemma looks_id: "looks_of x = looks_of y \<Longrightarrow> itemVaultId x = itemVaultId y"
  by (simp add: looks_eq_iff truncate_eq_iff)

lemma created_looks: "map_sum (\<lambda>e. e) looks_of (created_item env r c) = map_sum (\<lambda>e. e) looks_of (created_item env r' c)"
  by (auto simp: created_item_def looks_eq_iff truncate_eq_iff toNewCachedItem_def Let_def
      split: option.splits bool.splits)

lemma resealed_looks:
  "looks_of b = looks_of b' \<Longrightarrow>
     map_sum (\<lambda>e. e) looks_of (resealed_item b c) = map_sum (\<lambda>e. e) looks_of (resealed_item b' c)"
  by (auto simp: resealed_item_def looks_eq_iff truncate_eq_iff withEncryptedPayload_def split: option.splits)

lemma look_sum_Some: "look_sum (map_sum (\<lambda>e. e) Some x) = map_sum (\<lambda>e. e) Some (map_sum (\<lambda>e. e) looks_of x)"
  by (cases x) simp_all

lemma apply_looks:
  assumes "map_option looks_of b = map_option looks_of b'"
  shows "look_sum (applyCommandToCachedItem env r b c) = look_sum (applyCommandToCachedItem env r' b' c)"
proof (cases "b = None \<or> b' = None")
  case True
  then have "b = None" "b' = None" using assms by (cases b; cases b'; simp)+
  then show ?thesis
    by (cases "commandType c")
       (simp_all add: applyCommandToCachedItem_def Let_def look_sum_Some created_looks [of env r c r'])
next
  case False
  then obtain x y where [simp]: "b = Some x" "b' = Some y" and xy: "looks_of x = looks_of y"
    using assms by auto
  note eqs = xy [unfolded looks_eq_iff truncate_eq_iff]
  show ?thesis
    by (cases "commandType c")
       (use eqs in \<open>simp_all add: applyCommandToCachedItem_def Let_def look_sum_Some
          created_looks [of env r c r'] resealed_looks [OF xy] looks_eq_iff truncate_eq_iff\<close>)
qed

lemma replay_looks:
  "map_option looks_of b = map_option looks_of b' \<Longrightarrow>
     look_sum (replay env r b cs) = look_sum (replay env r' b' cs)"
proof (induction cs arbitrary: b b')
  case (Cons c cs)
  note one = apply_looks [OF Cons.prems, of env r c r']
  show ?case
  proof (cases "applyCommandToCachedItem env r b c")
    case (Inl e)
    with one show ?thesis by (cases "applyCommandToCachedItem env r' b' c") simp_all
  next
    case (Inr x)
    with one obtain y where "applyCommandToCachedItem env r' b' c = Inr y"
      and "map_option looks_of x = map_option looks_of y"
      by (cases "applyCommandToCachedItem env r' b' c") auto
    with Inr Cons.IH show ?thesis by simp
  qed
qed simp

text \<open>What the pending commands make of an item, as a reader sees it.\<close>

definition projected_looks where
  "projected_looks env r i = look_sum (projection env r i)"

lemma projected_looks_cong:
  assumes "map_option looks_of (js_get (authoritativeItems r) i) =
           map_option looks_of (js_get (authoritativeItems r') i)"
    and "commandsForItem r i = commandsForItem r' i"
  shows "projected_looks env r i = projected_looks env r' i"
  unfolding projected_looks_def projection_def assms(2) by (rule replay_looks) (rule assms(1))

section \<open>The invariant\<close>

type_synonym opener = "encrypted_data \<times> encryption_context \<Rightarrow> item_content option"

definition shown_ok :: "opener \<Rightarrow> 'w replica_env \<Rightarrow> 'w replica \<Rightarrow> string \<Rightarrow> repo_item \<Rightarrow> bool" where
  "shown_ok plain env r i ri \<longleftrightarrow>
     projected_looks env r i = Inr (Some (repo_looks ri)) \<and> plain (sealed_part ri) = Some (riContent ri)"

definition faithful :: "opener \<Rightarrow> 'w replica_env \<Rightarrow> 'w replica \<Rightarrow> bool" where
  "faithful plain env r \<longleftrightarrow> (\<forall>i ri. js_get (repoItems r) i = Some ri \<longrightarrow> shown_ok plain env r i ri)"

text \<open>The pending commands are keyed by their operation ids and can be replayed.\<close>

definition pending_ok :: "(string \<times> command) list \<Rightarrow> bool" where
  "pending_ok p = (distinct (map fst p) \<and> list_all (\<lambda>(k, c). opId c = k \<and> command_wf c) p)"

text \<open>The authoritative records are kept under their own ids.\<close>

definition auth_ok :: "(string \<times> cached_item) list \<Rightarrow> bool" where
  "auth_ok a = (distinct (map fst a) \<and> list_all (\<lambda>(k, x). itemId x = k) a)"

lemma auth_ok_set: "auth_ok a \<Longrightarrow> itemId x = k \<Longrightarrow> auth_ok (js_set k x a)"
  using set_js_set_subset [of k x a] by (auto simp: auth_ok_def list_all_iff)

lemma auth_ok_delete: "auth_ok a \<Longrightarrow> auth_ok (js_delete k a)"
  by (auto simp: auth_ok_def list_all_iff AList.delete_eq distinct_map_filter)

lemma auth_ok_deletes: "auth_ok a \<Longrightarrow> auth_ok (fold js_delete ks a)"
  by (induction ks arbitrary: a) (auto intro: auth_ok_delete)

lemma auth_ok_filter: "auth_ok a \<Longrightarrow> auth_ok (filter P a)"
  by (auto simp: auth_ok_def list_all_iff distinct_map_filter)

lemma auth_ok_Nil [simp]: "auth_ok []"
  by (simp add: auth_ok_def)

definition own where
  "own r = (repoItems r, authoritativeItems r, pendingCommands r, repoVaults r, vaultKeyEntries r,
     repoSnapshot r, hydrated r, hydrating r, hydrationGeneration r, hasCacheSnapshotFlag r, repoServerUrl r)"

definition calm where
  "calm sound me r = (own r = me \<and> sound (outside r))"

lemma own_eq:
  "own r = own s \<longleftrightarrow> repoItems r = repoItems s \<and> authoritativeItems r = authoritativeItems s \<and>
     pendingCommands r = pendingCommands s \<and> repoVaults r = repoVaults s \<and>
     vaultKeyEntries r = vaultKeyEntries s \<and> repoSnapshot r = repoSnapshot s \<and>
     hydrated r = hydrated s \<and> hydrating r = hydrating s \<and>
     hydrationGeneration r = hydrationGeneration s \<and>
     hasCacheSnapshotFlag r = hasCacheSnapshotFlag s \<and> repoServerUrl r = repoServerUrl s"
  by (auto simp: own_def)

section \<open>A calm surrounding\<close>

locale calm_env =
  fixes env :: "'w replica_env"
    and sound :: "'w \<Rightarrow> bool"
    and plain :: opener
  assumes records: "keyed_store (envRecords env) (calm sound me)"
    and muk: "under (calm sound me) (csGetMasterUnlockKey (envCryptoStore env) acc) (\<lambda>_. True)"
    and lock_answers: "sound (outside s) \<Longrightarrow>
          \<exists>k. fst (csGetMasterUnlockKey (envCryptoStore env) (Some (envAccountId env)) s) = Inr k"
    and private_key: "under (calm sound me) (csGetEncryptedPrivateKey (envCryptoStore env) acc) (\<lambda>_. True)"
    and session_user: "under (calm sound me) (csGetSessionUserId (envCryptoStore env) acc) (\<lambda>_. True)"
    and stored_keys: "under (calm sound me) (storedVaultKeys env a) (\<lambda>_. True)"
    and store_keys: "under (calm sound me) (storeVaultKeys env ks a) (\<lambda>_. True)"
    and stored_url: "under (calm sound me) (storedServerUrl env a) (\<lambda>_. True)"
    and user_id: "under (calm sound me) (resolveUserIdForAccount env a) (\<lambda>_. True)"
    and encrypt: "under (calm sound me) (cpEncrypt (envCrypto env) p k c) (\<lambda>_. True)"
    and decrypt: "under (calm sound me) (cpDecrypt (envCrypto env) d k (Some cx))
          (\<lambda>p. \<forall>x. parse_plaintext p = Some x \<longrightarrow> plain (d, cx) = Some x)"
    and decrypt_many: "under (calm sound me) (cpDecryptMany (envCrypto env) reqs)
          (\<lambda>rs. \<forall>j < min (length reqs) (length rs). \<forall>p x. rs ! j = Inr p \<longrightarrow>
             parse_plaintext p = Some x \<longrightarrow> plain (drData (reqs ! j), drContext (reqs ! j)) = Some x)"
    and destroy: "under (calm sound me) (cpDestroyKey (envCrypto env) k) (\<lambda>_. True)"
    and unwrap: "under (calm sound me) (cpUnwrapKey (envCrypto env) d k c) (\<lambda>_. True)"
    and unwrap_rsa: "under (calm sound me) (cpDecryptRsaWrappedKey (envCrypto env) t d k) (\<lambda>_. True)"
    and reread: "sound (outside s) \<Longrightarrow> getCachedItems (envRecords env) a s = (Inr (Some xs), s1) \<Longrightarrow>
          x \<in> set xs \<Longrightarrow> upsertCachedItem (envRecords env) x a s1 = (Inr b, s2) \<Longrightarrow> b"
begin

lemma vault_key: "under (calm sound me) (decryptVaultKey env v) (\<lambda>_. True)"
  unfolding decryptVaultKey_def unwrapStoredVaultKey_def unwrapVaultKey_def parseEncryptedData_def
  by (intro contract_intros stored_keys user_id muk private_key session_user unwrap unwrap_rsa) simp_all

lemma is_locked: "under (calm sound me) (isLocked env) (\<lambda>_. True)"
  unfolding isLocked_def by (intro contract_intros muk) simp

lemma is_locked_answers: "sound (outside s) \<Longrightarrow> \<exists>b s'. isLocked env s = (Inr b, s') \<and> own s' = own s \<and> sound (outside s')"
proof -
  assume s: "sound (outside s)"
  obtain k s' where k: "csGetMasterUnlockKey (envCryptoStore env) (Some (envAccountId env)) s = (Inr k, s')"
    using lock_answers [OF s] by (metis prod.collapse)
  then have "calm sound (own s) s'"
    using underD [OF muk k] s by (simp add: calm_def)
  with k show ?thesis by (auto simp: isLocked_def act_defs calm_def)
qed

lemma parse_content_under:
  "under I (parse_content p) (\<lambda>x. parse_plaintext p = Some x)"
  by (auto simp: parse_content_def under_def act_defs split: option.splits)

lemma build_looks: "repo_looks (buildItem env r vs x d) = looks_of x"
  and build_sealed: "sealed_part (buildItem env r vs x d) = sealed_part x"
  and build_content: "riContent (buildItem env r vs x d) = d"
  by (simp_all add: repo_looks_def looks_of_def truncate_eq_iff buildItem_def sealed_part_def
      storedItemData_def buildStoredItemEncryptionContext_def)

text \<open>An item that was decrypted from a record looks like it and holds its plaintext.\<close>

definition opens :: "cached_item \<Rightarrow> repo_item \<Rightarrow> bool" where
  "opens x ri \<longleftrightarrow> repo_looks ri = looks_of x \<and> sealed_part ri = sealed_part x \<and>
     plain (sealed_part x) = Some (riContent ri)"

lemma decrypt_stored:
  "under (calm sound me) (decryptStoredItem (envCrypto env) x k)
     (\<lambda>p. \<forall>c. parse_plaintext p = Some c \<longrightarrow> plain (sealed_part x) = Some c)"
  using decrypt [of me "storedItemData x" k "buildStoredItemEncryptionContext x"]
  by (simp add: decryptStoredItem_def sealed_part_def)

lemma decrypt_item: "under (calm sound me) (decryptItem env x) (opens x)"
  unfolding decryptItem_def
proof (rule under_and_then [OF vault_key], rule under_finally_do [OF _ destroy],
    rule under_and_then [OF decrypt_stored])
  fix p assume "\<forall>c. parse_plaintext p = Some c \<longrightarrow> plain (sealed_part x) = Some c"
  then show "under (calm sound me) (and_then (parse_content p) (\<lambda>data.
      with_state (\<lambda>r. ok (buildItem env r (repoVaults r) x data)))) (opens x)"
    by (intro under_and_then [OF parse_content_under] under_with_state under_ok)
       (simp add: opens_def build_looks build_sealed build_content)
qed

text \<open>What a rebuild does: it answers, and the item is either gone or shown as projected.\<close>

definition rebuilt :: "string \<Rightarrow> cached_item option \<Rightarrow> 'w replica \<Rightarrow> 'w replica \<Rightarrow> bool" where
  "rebuilt i p r r' \<longleftrightarrow> sound (outside r') \<and>
     own r' = own (r\<lparr>repoItems := repoItems r', repoSnapshot := repoSnapshot r'\<rparr>) \<and>
     (repoItems r' = js_delete i (repoItems r) \<or>
      (\<exists>x ri. p = Some x \<and> repoItems r' = js_set i ri (repoItems r) \<and> opens x ri))"

lemma project_decrypted_effect:
  assumes "sound (outside r)" and g: "generation = hydrationGeneration r"
    and run: "project_decrypted env i generation x r = (res, r')"
  shows "rebuilt i (Some x) r r' \<or> (own r' = own r \<and> sound (outside r') \<and> (\<exists>e. res = Inl e))"
proof -
  obtain d s1 where d: "decryptItem env x r = (d, s1)" by fastforce
  have s1: "own s1 = own r" "sound (outside s1)" and op: "\<And>ri. d = Inr ri \<Longrightarrow> opens x ri"
    using underD [OF decrypt_item d, of "own r"] assms(1) by (auto simp: calm_def)
  show ?thesis
  proof (cases d)
    case (Inl e)
    with d run s1 show ?thesis by (auto simp: project_decrypted_def act_defs)
  next
    case (Inr ri)
    obtain b s2 where b: "isLocked env s1 = (Inr b, s2)" and s2: "own s2 = own s1" "sound (outside s2)"
      using is_locked_answers [OF s1(2)] by blast
    have "generation = hydrationGeneration s1" using g s1(1) by (simp add: own_eq)
    with run d Inr b have "r' = (if b then dropItem i s2 else showItem i ri s2)"
      by (auto simp: project_decrypted_def act_defs split: if_splits)
    with s1 s2 op [OF Inr] show ?thesis
      by (auto simp: rebuilt_def dropItem_def showItem_def own_eq)
  qed
qed

lemma rebuild_effect:
  assumes s: "sound (outside r)" and p: "projection env r i = Inr p"
  shows "\<exists>r'. rebuildItemProjection env i r = (Inr (), r') \<and> rebuilt i p r r'"
proof (cases p)
  case None
  with p s show ?thesis
    by (auto simp: rebuildItemProjection_def act_defs rebuilt_def emit_def dropItem_def own_eq)
next
  case (Some x)
  obtain b s1 where b: "isLocked env r = (Inr b, s1)" and s1: "own s1 = own r" "sound (outside s1)"
    using is_locked_answers [OF s] by blast
  show ?thesis
  proof (cases b)
    case True
    with p Some b s1 show ?thesis
      by (auto simp: rebuildItemProjection_def act_defs rebuilt_def emit_def dropItem_def own_eq)
  next
    case False
    obtain res s2 where run: "project_decrypted env i (hydrationGeneration r) x s1 = (res, s2)"
      by fastforce
    have g: "hydrationGeneration r = hydrationGeneration s1" using s1(1) by (simp add: own_eq)
    have run': "rebuildItemProjection env i r =
        (Inr (), case res of Inl _ \<Rightarrow> emit (dropItem i s2) | Inr True \<Rightarrow> emit s2 | Inr False \<Rightarrow> s2)"
      using p Some b False run
      by (auto simp: rebuildItemProjection_def act_defs split: sum.splits bool.splits)
    from project_decrypted_effect [OF s1(2) g run]
    have "rebuilt i p r (case res of Inl _ \<Rightarrow> emit (dropItem i s2) | Inr True \<Rightarrow> emit s2 | Inr False \<Rightarrow> s2)"
    proof
      assume "rebuilt i (Some x) s1 s2"
      with s1 Some show ?thesis
        by (auto simp: rebuilt_def emit_def dropItem_def own_eq delete_idem delete_update_same
            split: sum.splits bool.splits)
    next
      assume "own s2 = own s1 \<and> sound (outside s2) \<and> (\<exists>e. res = Inl e)"
      with s1 show ?thesis by (auto simp: rebuilt_def emit_def dropItem_def own_eq)
    qed
    with run' show ?thesis by blast
  qed
qed

text \<open>ok_except S: every shown item outside S is shown as projected.\<close>

definition "ok_except S r \<longleftrightarrow>
  (\<forall>j ri. j \<notin> S \<longrightarrow> js_get (repoItems r) j = Some ri \<longrightarrow> shown_ok plain env r j ri) \<and>
  pending_ok (pendingCommands r) \<and> auth_ok (authoritativeItems r) \<and> sound (outside r)"

abbreviation "good \<equiv> ok_except {}"

lemma ok_except_mono: "ok_except S r \<Longrightarrow> S \<subseteq> T \<Longrightarrow> ok_except T r"
  by (auto simp: ok_except_def)

lemma good_faithful: "good r \<longleftrightarrow> faithful plain env r \<and> pending_ok (pendingCommands r) \<and>
    auth_ok (authoritativeItems r) \<and> sound (outside r)"
  by (simp add: ok_except_def faithful_def)

text \<open>
  A change of the replica that outside S leaves the authoritative record, the commands and the
  shown item alone, or only drops the shown item.
\<close>

definition "touches S r r' \<longleftrightarrow>
  (\<forall>j. j \<notin> S \<longrightarrow> js_get (repoItems r') j = None \<or>
     (js_get (repoItems r') j = js_get (repoItems r) j \<and>
      js_get (authoritativeItems r') j = js_get (authoritativeItems r) j \<and>
      commandsForItem r' j = commandsForItem r j))"

lemma ok_except_touch:
  assumes "ok_except S r" and "touches T r r'" and "S \<subseteq> T"
    and "pending_ok (pendingCommands r')" and "auth_ok (authoritativeItems r')" and "sound (outside r')"
  shows "ok_except T r'"
  unfolding ok_except_def
proof (intro conjI allI impI)
  fix j ri assume j: "j \<notin> T" and "js_get (repoItems r') j = Some ri"
  then have same: "js_get (repoItems r) j = Some ri"
    "js_get (authoritativeItems r') j = js_get (authoritativeItems r) j"
    "commandsForItem r' j = commandsForItem r j"
    using assms(2) unfolding touches_def by force+
  then have "shown_ok plain env r j ri" using assms(1,3) j by (auto simp: ok_except_def)
  then show "shown_ok plain env r' j ri"
    unfolding shown_ok_def
    by (metis projected_looks_cong [of r j r'] same(2,3))
qed (use assms in simp_all)

lemma commands_cong: "pendingCommands r = pendingCommands s \<Longrightarrow> commandsForItem r j = commandsForItem s j"
  by (simp add: commandsForItem_def)

text \<open>Changes of other fields change nothing that is looked at here.\<close>

lemma ok_except_cong:
  assumes "ok_except S r" and "repoItems r' = repoItems r" "authoritativeItems r' = authoritativeItems r"
    "pendingCommands r' = pendingCommands r" and "sound (outside r')"
  shows "ok_except S r'"
  by (rule ok_except_touch [OF assms(1), of S])
     (use assms in \<open>auto simp: touches_def ok_except_def intro: commands_cong\<close>)

lemma calm_ok_except: "(\<And>me. under (calm sound me) m P) \<Longrightarrow> under (ok_except S) m P"
proof (rule underI)
  fix s r s' assume m: "\<And>me. under (calm sound me) m P" and s: "ok_except S s" and run: "m s = (r, s')"
  have "calm sound (own s) s" using s by (simp add: calm_def ok_except_def)
  with underD [OF m run] have "calm sound (own s) s' \<and> (\<forall>a. r = Inr a \<longrightarrow> P a)" by blast
  with s show "ok_except S s' \<and> (\<forall>a. r = Inr a \<longrightarrow> P a)"
    by (auto simp: calm_def own_eq intro: ok_except_cong)
qed

lemma rebuilt_ok_except:
  assumes "rebuilt i p r r'" and ok: "ok_except S r" and p: "projection env r i = Inr p"
  shows "ok_except (S - {i}) r'"
  unfolding ok_except_def
proof (intro conjI allI impI)
  from assms(1) have same: "authoritativeItems r' = authoritativeItems r" "pendingCommands r' = pendingCommands r"
    and sd: "sound (outside r')"
    and it: "repoItems r' = js_delete i (repoItems r) \<or>
      (\<exists>x ri. p = Some x \<and> repoItems r' = js_set i ri (repoItems r) \<and> opens x ri)"
    by (auto simp: rebuilt_def own_eq)
  show "pending_ok (pendingCommands r')" "auth_ok (authoritativeItems r')" "sound (outside r')"
    using ok same sd by (auto simp: ok_except_def)
  fix j ri assume j: "j \<notin> S - {i}" and ri: "js_get (repoItems r') j = Some ri"
  have pl: "projected_looks env r' j = projected_looks env r j" for j
    by (rule projected_looks_cong) (simp_all add: same commands_cong [OF same(2)])
  show "shown_ok plain env r' j ri"
  proof (cases "j = i")
    case True
    with it ri obtain x where "p = Some x" "opens x ri" by auto
    with p True show ?thesis
      unfolding shown_ok_def pl by (auto simp: projected_looks_def opens_def)
  next
    case False
    with it ri j ok have "shown_ok plain env r j ri" by (auto simp: ok_except_def)
    then show ?thesis by (simp add: shown_ok_def pl)
  qed
qed

lemma projection_wf: "pending_ok (pendingCommands r) \<Longrightarrow> \<exists>p. projection env r i = Inr p"
  unfolding projection_def
  by (rule replay_wf)
     (auto simp: commandsForItem_def pending_ok_def list_all_iff)

lemma rebuild_ok:
  assumes "ok_except S r"
  shows "\<exists>r'. rebuildItemProjection env i r = (Inr (), r') \<and> ok_except (S - {i}) r' \<and>
     hydrationGeneration r' = hydrationGeneration r \<and> pendingCommands r' = pendingCommands r"
proof -
  have s: "sound (outside r)" and w: "pending_ok (pendingCommands r)"
    using assms by (auto simp: ok_except_def)
  obtain p where p: "projection env r i = Inr p" using projection_wf [OF w] by blast
  obtain r' where r': "rebuildItemProjection env i r = (Inr (), r')" "rebuilt i p r r'"
    using rebuild_effect [OF s p] by blast
  then show ?thesis
    using rebuilt_ok_except [OF r'(2) assms p] by (auto simp: rebuilt_def own_eq)
qed

lemma rebuild_leads: "leads (ok_except {i}) (rebuildItemProjection env i) (\<lambda>_. good)"
proof (rule leadsI)
  fix s a s' assume "ok_except {i} s" and run: "rebuildItemProjection env i s = (Inr a, s')"
  then show "good s'" using rebuild_ok [of "{i}" s i] run by auto
qed

end

end
