(* ===== verification/ReplicaCalls.thy ===== *)
theory ReplicaCalls
  imports ReplicaProps
begin

text \<open>
  Every call of the replica in a calm surrounding: when it returns, each shown item is its
  projection again. The conditions a call needs are part of the definition of a call sequence.
\<close>

section \<open>Pending commands\<close>

text \<open>A command that agrees with the pending one of the same operation on the item it is about.\<close>

definition agrees :: "'w replica \<Rightarrow> command \<Rightarrow> bool" where
  "agrees r c = (case js_get (pendingCommands r) (opId c) of
       None \<Rightarrow> True | Some d \<Rightarrow> entityId d = entityId c)"

lemma filtered_set:
  assumes "\<And>d. js_get p k = Some d \<Longrightarrow> \<not> P d" and "\<not> P c" and "distinct (map fst p)"
  shows "filter P (map snd (js_set k c p)) = filter P (map snd p)"
  using assms
proof (induction p)
  case (Cons e p)
  obtain k' d where e: "e = (k', d)" by (cases e)
  show ?case
  proof (cases "k' = k")
    case True
    with Cons.prems e show ?thesis by simp
  next
    case False
    with Cons e show ?thesis by simp
  qed
qed simp

lemma filtered_delete:
  assumes "\<And>d. js_get p k = Some d \<Longrightarrow> \<not> P d" and "distinct (map fst p)"
  shows "filter P (map snd (js_delete k p)) = filter P (map snd p)"
  using assms
proof (induction p)
  case (Cons e p)
  obtain k' d where e: "e = (k', d)" by (cases e)
  show ?case
  proof (cases "k' = k")
    case True
    then have "k \<notin> fst ` set p" using Cons.prems e by auto
    then have "js_delete k p = p" by simp
    with True Cons.prems e show ?thesis by simp
  next
    case False
    with Cons e show ?thesis by simp
  qed
qed simp

lemma commands_set:
  assumes "agrees r c" and "pending_ok (pendingCommands r)" and "j \<noteq> entityId c"
  shows "commandsForItem (setPending c r) j = commandsForItem r j"
proof -
  have "filter (\<lambda>d. entityId d = j) (map snd (js_set (opId c) c (pendingCommands r))) =
      filter (\<lambda>d. entityId d = j) (map snd (pendingCommands r))"
    by (rule filtered_set) (use assms in \<open>auto simp: agrees_def pending_ok_def\<close>)
  then show ?thesis by (simp add: commandsForItem_def setPending_def)
qed

lemma commands_drop:
  assumes "agrees r c" and "pending_ok (pendingCommands r)" and "j \<noteq> entityId c"
  shows "commandsForItem (dropPending c r) j = commandsForItem r j"
proof -
  have "filter (\<lambda>d. entityId d = j) (map snd (js_delete (opId c) (pendingCommands r))) =
      filter (\<lambda>d. entityId d = j) (map snd (pendingCommands r))"
    by (rule filtered_delete) (use assms in \<open>auto simp: agrees_def pending_ok_def\<close>)
  then show ?thesis by (simp add: commandsForItem_def dropPending_def)
qed

lemma pending_ok_set: "pending_ok p \<Longrightarrow> command_wf c \<Longrightarrow> pending_ok (js_set (opId c) c p)"
  using set_js_set_subset [of "opId c" c p] by (auto simp: pending_ok_def list_all_iff)

lemma pending_ok_delete: "pending_ok p \<Longrightarrow> pending_ok (js_delete k p)"
  by (auto simp: pending_ok_def list_all_iff AList.delete_eq distinct_map_filter)

text \<open>The cached record of the item a command is about is not behind its authoritative one.\<close>

definition cache_current :: "'w replica_env \<Rightarrow> command \<Rightarrow> 'w replica \<Rightarrow> bool" where
  "cache_current env c r \<longleftrightarrow>
  (case fst (getCachedItems (envRecords env) (envAccountId env) (dropPending c r)) of
     Inr (Some xs) \<Rightarrow> (case List.find (\<lambda>i. itemId i = entityId c) xs of
        Some x \<Rightarrow> \<not> base_is_newer r x | None \<Rightarrow> True)
   | _ \<Rightarrow> True)"

text \<open>No item that is shown in another vault still has its authoritative record in this one.\<close>

definition none_leaving :: "string \<Rightarrow> 'w replica \<Rightarrow> bool" where
  "none_leaving v r \<longleftrightarrow> list_all (\<lambda>(i, ri).
  case js_get (authoritativeItems r) i of None \<Rightarrow> True
  | Some x \<Rightarrow> itemVaultId x = v \<longrightarrow> itemVaultId ri = v) (repoItems r)"

context calm_env
begin

section \<open>Single changes\<close>

lemma ok_setAuthoritative: "ok_except S r \<Longrightarrow> i \<in> S \<Longrightarrow> itemId x = i \<Longrightarrow> ok_except S (setAuthoritative i x r)"
  by (rule ok_except_touch [where S = S])
     (auto simp: ok_except_def touches_def setAuthoritative_def intro: commands_cong auth_ok_set)

lemma ok_dropAuthoritative: "ok_except S r \<Longrightarrow> i \<in> S \<Longrightarrow> ok_except S (dropAuthoritative i r)"
  by (rule ok_except_touch [where S = S])
     (auto simp: ok_except_def touches_def dropAuthoritative_def intro: commands_cong auth_ok_delete)

lemma ok_dropItem: "ok_except S r \<Longrightarrow> ok_except S (dropItem i r)"
  by (rule ok_except_touch [where S = S])
     (auto simp: ok_except_def touches_def dropItem_def intro: commands_cong)

lemma ok_emit: "ok_except S r \<Longrightarrow> ok_except S (emit r)"
  by (rule ok_except_cong [of S r]) (simp_all add: emit_def ok_except_def)

lemma ok_setPending:
  assumes "ok_except S r" and "entityId c \<in> S" and "agrees r c" and "command_wf c"
  shows "ok_except S (setPending c r)"
proof (rule ok_except_touch [OF assms(1) _ order_refl])
  have w: "pending_ok (pendingCommands r)" using assms(1) by (simp add: ok_except_def)
  have "commandsForItem (setPending c r) j = commandsForItem r j" if "j \<notin> S" for j
    by (rule commands_set [OF assms(3) w]) (use that assms(2) in auto)
  then show "touches S r (setPending c r)"
    by (simp add: touches_def) (simp add: setPending_def)
  show "pending_ok (pendingCommands (setPending c r))"
    using pending_ok_set [OF w assms(4)] by (simp add: setPending_def)
  show "sound (outside (setPending c r))" "auth_ok (authoritativeItems (setPending c r))"
    using assms(1) by (simp_all add: ok_except_def setPending_def)
qed

lemma ok_dropPending:
  assumes "ok_except S r" and "entityId c \<in> S" and "agrees r c"
  shows "ok_except S (dropPending c r)"
proof (rule ok_except_touch [OF assms(1) _ order_refl])
  have w: "pending_ok (pendingCommands r)" using assms(1) by (simp add: ok_except_def)
  have "commandsForItem (dropPending c r) j = commandsForItem r j" if "j \<notin> S" for j
    by (rule commands_drop [OF assms(3) w]) (use that assms(2) in auto)
  then show "touches S r (dropPending c r)"
    by (simp add: touches_def) (simp add: dropPending_def)
  show "pending_ok (pendingCommands (dropPending c r))"
    using pending_ok_delete [OF w] by (simp add: dropPending_def)
  show "sound (outside (dropPending c r))" "auth_ok (authoritativeItems (dropPending c r))"
    using assms(1) by (simp_all add: ok_except_def dropPending_def)
qed

lemma good_except: "good r \<Longrightarrow> ok_except S r"
  by (rule ok_except_mono) auto

section \<open>Inbound writes and commands\<close>

lemmas cache_ops = keyed_store.upsert keyed_store.remove keyed_store.upsert_vault
  keyed_store.remove_vault keyed_store.clear_cache keyed_store.get_items keyed_store.get_vaults
  keyed_store.get_metadata keyed_store.begin_stage keyed_store.stage_items keyed_store.stage_vaults

lemmas cache_calm = cache_ops [OF records]

lemma env_leads:
  assumes "\<And>me. under (calm sound me) m P"
  shows "leads (ok_except S) m (\<lambda>a s. ok_except S s \<and> P a)"
  by (rule leads_under [OF calm_ok_except [OF assms]])

lemma then_rebuild:
  assumes "\<And>s. I s \<Longrightarrow> ok_except {i} s"
  shows "leads I (rebuildItemProjection env i) (\<lambda>_. good)"
  by (rule leads_pre [OF rebuild_leads]) (rule assms)

lemma persist_calm: "under (calm sound me) (persistItem env x) (\<lambda>_. True)"
  unfolding persistItem_def by (rule cache_calm)

lemma upsert_leads: "leads good (upsertEncrypted env item acc) (\<lambda>_. good)"
  unfolding upsertEncrypted_def
proof (intro leads_if leads_and_then [OF env_leads [OF persist_calm]] leads_with_state)
  fix r assume "ok_except {} r \<and> True"
  then show "leads (\<lambda>s. s = r \<and> ok_except {} s \<and> True)
      (and_then (put_state (setAuthoritative (itemId item) item))
        (\<lambda>_. rebuildItemProjection env (itemId item))) (\<lambda>_. good)"
    by (intro leads_and_then [OF leads_put [where J = "\<lambda>_. ok_except {itemId item}"]] then_rebuild)
       (auto intro: ok_setAuthoritative [OF good_except])
qed (auto intro: leads_ok)

lemma remove_cached_leads: "leads good (replicaRemoveCachedItem env item acc) (\<lambda>_. good)"
  unfolding replicaRemoveCachedItem_def
proof (intro leads_if leads_with_state)
  fix r assume "good r"
  then show "leads (\<lambda>s. s = r \<and> good s)
      (and_then (put_state (dropAuthoritative item)) (\<lambda>_.
       and_then (removeCachedItem (envRecords env) item (envAccountId env)) (\<lambda>_.
       rebuildItemProjection env item))) (\<lambda>_. good)"
    by (intro leads_and_then [OF leads_put [where J = "\<lambda>_. ok_except {item}"]]
        leads_and_then [OF env_leads [OF cache_calm(2)]] then_rebuild)
       (auto intro: ok_dropAuthoritative [OF good_except])
qed (auto intro!: leads_ok then_rebuild good_except [of _ "{item}"])

lemma apply_command_leads:
  "leads (\<lambda>r. good r \<and> agrees r c \<and> command_wf c) (applyItemCommand env c) (\<lambda>_. good)"
  unfolding applyItemCommand_def
  by (intro leads_if leads_ok
      leads_and_then [OF leads_put [where J = "\<lambda>_. ok_except {entityId c}"]] then_rebuild)
     (auto intro: ok_setPending [OF good_except])

lemma good_when_dropped:
  assumes "ok_except S r" and "\<And>j. j \<in> S \<Longrightarrow> js_get (repoItems r) j = None"
  shows "good r"
  using assms unfolding ok_except_def by (metis option.distinct(1))

lemma upsert_settles:
  assumes "ok_except {itemId x} s" and "\<not> base_is_newer s x"
    and written: "\<And>b s'. persistItem env x s = (Inr b, s') \<Longrightarrow> b"
    and run: "upsertEncrypted env x (envAccountId env) s = (Inr u, t)"
  shows "good t"
proof -
  obtain b s1 where b: "persistItem env x s = (Inr b, s1)"
    using run by (auto simp: upsertEncrypted_def isForThisAccount_def act_defs split: prod.splits sum.splits)
  have "calm sound (own s) s1"
    using underD [OF persist_calm b] assms(1) by (auto simp: calm_def ok_except_def)
  then have s1: "ok_except {itemId x} s1" and o: "own s1 = own s"
    using assms(1) by (auto simp: calm_def own_eq intro: ok_except_cong)
  have "\<not> base_is_newer s1 x" using assms(2) o by (simp add: base_is_newer_def own_eq)
  then have "rebuildItemProjection env (itemId x) (setAuthoritative (itemId x) x s1) = (Inr u, t)"
    using run b written [OF b]
    by (simp add: upsertEncrypted_def isForThisAccount_def and_then_def with_state_def put_state_def)
  moreover have "ok_except {itemId x} (setAuthoritative (itemId x) x s1)"
    by (rule ok_setAuthoritative [OF s1]) simp_all
  ultimately show ?thesis using leadsD [OF rebuild_leads] by blast
qed

lemma discard_leads:
  "leads (\<lambda>r. good r \<and> agrees r c \<and> cache_current env c r)
     (discardItemCommandAcknowledgedElsewhere env c) (\<lambda>_. good)"
proof (rule leadsI)
  fix r u t assume pre: "good r \<and> agrees r c \<and> cache_current env c r"
    and run: "discardItemCommandAcknowledgedElsewhere env c r = (Inr u, t)"
  let ?e = "entityId c" and ?r0 = "dropPending c r"
  show "good t"
  proof (cases "isForThisAccount env (accountId c)")
    case True
    have r0: "ok_except {?e} ?r0" using pre by (auto intro: ok_dropPending [OF good_except])
    obtain cached s1 where g: "getCachedItems (envRecords env) (envAccountId env) ?r0 = (Inr cached, s1)"
      using run True
      by (auto simp: discardItemCommandAcknowledgedElsewhere_def act_defs split: prod.splits sum.splits)
    have "calm sound (own ?r0) s1"
      using underD [OF cache_calm(6) g] r0 by (auto simp: calm_def ok_except_def)
    then have s1: "ok_except {?e} s1" and o: "own s1 = own ?r0"
      using r0 by (auto simp: calm_def own_eq intro: ok_except_cong)
    show ?thesis
    proof (cases "Option.bind cached (List.find (\<lambda>i. itemId i = ?e))")
      case None
      show ?thesis
      proof (cases "commandType c = PermanentDelete")
        case True
        then have "t = emit (dropItem ?e (dropAuthoritative ?e s1))"
          using run g None \<open>isForThisAccount env (accountId c)\<close>
          by (simp add: discardItemCommandAcknowledgedElsewhere_def act_defs)
        moreover have "ok_except {?e} (emit (dropItem ?e (dropAuthoritative ?e s1)))"
          by (intro ok_emit ok_dropItem ok_dropAuthoritative s1) simp
        ultimately show ?thesis
          by (intro good_when_dropped [of "{?e}" t]) (auto simp: emit_def dropItem_def)
      next
        case False
        then have "rebuildItemProjection env ?e s1 = (Inr u, t)"
          using run g None True by (simp add: discardItemCommandAcknowledgedElsewhere_def act_defs)
        then show ?thesis using leadsD [OF rebuild_leads s1] by blast
      qed
    next
      case (Some x)
      then obtain xs where xs: "cached = Some xs" and f: "List.find (\<lambda>i. itemId i = ?e) xs = Some x"
        by (cases cached) auto
      then have x: "itemId x = ?e" "x \<in> set xs" by (auto simp: find_Some_iff)
      have "\<not> base_is_newer r x" using pre g xs f by (simp add: cache_current_def)
      then have nb: "\<not> base_is_newer s1 x" using o by (simp add: base_is_newer_def own_eq dropPending_def)
      have up: "upsertEncrypted env x (envAccountId env) s1 = (Inr u, t)"
        using run g xs f True by (simp add: discardItemCommandAcknowledgedElsewhere_def act_defs)
      have sd: "sound (outside ?r0)" using r0 by (simp add: ok_except_def)
      have wr: "\<And>b s'. persistItem env x s1 = (Inr b, s') \<Longrightarrow> b"
        using reread [OF sd g [unfolded xs] x(2)] by (simp add: persistItem_def)
      have s1': "ok_except {itemId x} s1" using s1 x by simp
      show ?thesis by (rule upsert_settles [OF s1' nb wr up])
    qed
  qed (use run pre in \<open>simp add: discardItemCommandAcknowledgedElsewhere_def act_defs\<close>)
qed

lemma seal_calm: "under (calm sound me) (encryptWithVaultKey env v d i n u) (\<lambda>_. True)"
  unfolding encryptWithVaultKey_def encryptItem_def
  by (intro contract_intros vault_key user_id encrypt destroy) simp_all

lemma preserve_leads:
  "leads (\<lambda>r. good r \<and> agrees r c) (preserveItemConflict env c) (\<lambda>_. good)"
proof (rule leadsI)
  fix r u t assume pre: "good r \<and> agrees r c" and run: "preserveItemConflict env c r = (Inr u, t)"
  show "good t"
  proof (cases "preserves_conflict env c \<and> js_get (repoItems r) (entityId c) \<noteq> None")
    case True
    then obtain local where l: "js_get (repoItems r) (entityId c) = Some local" by blast
    let ?m = "encryptWithVaultKey env (itemVaultId local) (stripToDecryptedData local)
                (the (conflictCopyId c)) 1 None"
    obtain p s1 where p: "?m r = (Inr p, s1)"
      and run1: "and_then (put_state (dropPending c)) (\<lambda>_.
          and_then (rebuildItemProjection env (entityId c)) (\<lambda>_.
          with_state (\<lambda>s. ok (Some (conflict_copy env c local p (envNow env s)))))) s1 = (Inr u, t)"
      using run True l by (auto simp: preserveItemConflict_def with_state_def and_then_def
          split: prod.splits sum.splits)
    have "calm sound (own r) s1"
      using underD [OF seal_calm p] pre by (auto simp: calm_def ok_except_def)
    then have s1: "good s1" and ag: "agrees s1 c"
      using pre by (auto simp: calm_def own_eq agrees_def intro: ok_except_cong)
    have "ok_except {entityId c} (dropPending c s1)"
      using ok_dropPending [OF good_except [OF s1] _ ag] by simp
    moreover have "rebuildItemProjection env (entityId c) (dropPending c s1) = (Inr (), t)"
      using run1 by (auto simp: act_defs split: prod.splits sum.splits)
    ultimately show ?thesis using leadsD [OF rebuild_leads] by blast
  qed (use run pre in \<open>auto simp: preserveItemConflict_def act_defs split: if_splits\<close>)
qed

lemma removed_leads:
  assumes "\<And>s. I s \<Longrightarrow> ok_except {i} s"
  shows "leads I (removeAcknowledged env i) (\<lambda>_. good)"
  unfolding removeAcknowledged_def
  by (intro leads_and_then [OF leads_put [where J = "\<lambda>_. ok_except {i}"]]
      leads_and_then [OF env_leads [OF cache_calm(2)]] then_rebuild)
     (auto intro: ok_dropAuthoritative assms)

lemma acknowledge_leads:
  assumes "ackEntityId a = entityId c"
  shows "leads (\<lambda>r. good r \<and> agrees r c) (acknowledgeItemCommand env c a) (\<lambda>_. good)"
proof -
  let ?e = "entityId c"
  have settle: "leads (ok_except {?e})
      (and_then (put_state (setAuthoritative ?e x)) (\<lambda>_.
       and_then (persistItem env x) (\<lambda>_. rebuildItemProjection env ?e))) (\<lambda>_. good)"
    if "itemId x = ?e" for x
    by (intro leads_and_then [OF leads_put [where J = "\<lambda>_. ok_except {?e}"]]
        leads_and_then [OF env_leads [OF persist_calm]] then_rebuild)
       (auto intro: ok_setAuthoritative that)
  have ack: "itemId x = ?e" if "acknowledged_item env r c ?e v = Inr (Some x)" for r v x
    using that by (cases "applyCommandToCachedItem env r (js_get (authoritativeItems r) ?e) c")
      (auto simp: acknowledged_item_def Let_def split: if_splits)
  have body: "leads (ok_except {?e})
      (with_state (\<lambda>r. case acknowledged_item env r c ?e v of
          Inl e \<Rightarrow> throw e
        | Inr None \<Rightarrow> rebuildItemProjection env ?e
        | Inr (Some x) \<Rightarrow> and_then (put_state (setAuthoritative ?e x)) (\<lambda>_.
            and_then (persistItem env x) (\<lambda>_. rebuildItemProjection env ?e)))) (\<lambda>_. good)" for v
    by (rule leads_with_state)
       (auto intro: leads_throw leads_pre [OF settle [OF ack]] then_rebuild split: sum.split option.split)
  show ?thesis
    unfolding acknowledgeItemCommand_def assms
    by (auto intro!: leads_ok leads_throw leads_and_then [OF leads_put [where J = "\<lambda>_. ok_except {?e}"]]
        removed_leads body ok_dropPending [OF good_except] split: option.split)
qed

section \<open>Vaults, removals and renames\<close>

lemma js_get_filter_kept:
  "(\<And>x. js_get m j = Some x \<Longrightarrow> P x) \<Longrightarrow> js_get (filter (\<lambda>(_, x). P x) m) j = js_get m j"
  by (induction m) (auto split: if_splits)

lemma gone_get:
  assumes "js_get m j = Some ri" and "Q ri"
  shows "j \<in> set (map fst (filter (\<lambda>(_, i). Q i) m))"
  using map_of_SomeD [OF assms(1)] assms(2) by force

lemma purge_good: "good r \<Longrightarrow> good (purgeHiddenVaults hidden r)"
proof (cases "hidden = []")
  case False
  assume r: "good r"
  show ?thesis
    by (rule ok_except_touch [OF r])
       (use r False in \<open>auto simp: touches_def purgeHiddenVaults_def Let_def emit_def ok_except_def
          js_get_fold_delete intro: commands_cong auth_ok_deletes\<close>)
qed (simp add: purgeHiddenVaults_def)

lemma drop_vault_good:
  assumes r: "good r" and "none_leaving v r"
  shows "good (dropVault v r)"
proof (rule ok_except_touch [OF r])
  let ?gone = "map fst (filter (\<lambda>(_, i). itemVaultId i = v) (repoItems r))"
  show "touches {} r (dropVault v r)"
    unfolding touches_def
  proof (intro allI impI)
    fix j
    show "js_get (repoItems (dropVault v r)) j = None \<or>
        js_get (repoItems (dropVault v r)) j = js_get (repoItems r) j \<and>
        js_get (authoritativeItems (dropVault v r)) j = js_get (authoritativeItems r) j \<and>
        commandsForItem (dropVault v r) j = commandsForItem r j"
    proof (cases "j \<in> set ?gone \<or> js_get (repoItems r) j = None")
      case True
      then show ?thesis by (auto simp: dropVault_def Let_def js_get_fold_delete)
    next
      case False
      then obtain ri where ri: "js_get (repoItems r) j = Some ri" and v: "itemVaultId ri \<noteq> v"
        using gone_get [of "repoItems r" j _ "\<lambda>i. itemVaultId i = v"] by auto
      have kept: "js_get (fold js_delete ?gone (authoritativeItems r)) j = js_get (authoritativeItems r) j"
        using False by (simp only: js_get_fold_delete) simp
      have "itemVaultId x \<noteq> v" if "js_get (authoritativeItems r) j = Some x" for x
        using assms(2) v that map_of_SomeD [OF ri] by (auto simp: none_leaving_def list_all_iff)
      then have "js_get (filter (\<lambda>(_, x). itemVaultId x \<noteq> v)
          (fold js_delete ?gone (authoritativeItems r))) j = js_get (authoritativeItems r) j"
        using kept js_get_filter_kept [of "fold js_delete ?gone (authoritativeItems r)" j
            "\<lambda>x. itemVaultId x \<noteq> v"] by simp
      then have "js_get (authoritativeItems (dropVault v r)) j = js_get (authoritativeItems r) j"
        by (simp add: dropVault_def Let_def)
      moreover have "commandsForItem (dropVault v r) j = commandsForItem r j"
        by (rule commands_cong) (simp add: dropVault_def Let_def)
      ultimately show ?thesis
        using False by (simp add: dropVault_def Let_def js_get_fold_delete)
    qed
  qed
qed (use r in \<open>simp_all add: dropVault_def Let_def ok_except_def auth_ok_filter auth_ok_deletes\<close>)

lemma good_other_fields:
  assumes "\<And>r. repoItems (g r) = repoItems r" "\<And>r. authoritativeItems (g r) = authoritativeItems r"
    "\<And>r. pendingCommands (g r) = pendingCommands r" "\<And>r. outside (g r) = outside r"
  shows "leads good (put_state g) (\<lambda>_. good)"
  by (rule leads_put, rule ok_except_cong) (use assms in \<open>auto simp: ok_except_def\<close>)

lemma merge_fields [simp]:
  "repoItems (mergeVaultKeyEntries env ks r) = repoItems r"
  "authoritativeItems (mergeVaultKeyEntries env ks r) = authoritativeItems r"
  "pendingCommands (mergeVaultKeyEntries env ks r) = pendingCommands r"
  "hydrationGeneration (mergeVaultKeyEntries env ks r) = hydrationGeneration r"
  "outside (mergeVaultKeyEntries env ks r) = outside r"
  by (simp_all add: mergeVaultKeyEntries_def split: option.split)

lemma emit_fields [simp]:
  "repoItems (emit r) = repoItems r" "authoritativeItems (emit r) = authoritativeItems r"
  "pendingCommands (emit r) = pendingCommands r" "hydrationGeneration (emit r) = hydrationGeneration r"
  "outside (emit r) = outside r"
  by (simp_all add: emit_def)

lemma emit_leads: "leads good (put_state emit) (\<lambda>_. good)"
  by (rule good_other_fields) simp_all

lemma upsert_vault_leads: "leads good (replicaUpsertCachedVault env v acc) (\<lambda>_. good)"
  unfolding replicaUpsertCachedVault_def
  by (intro leads_if leads_ok leads_and_then [OF good_other_fields]
      leads_and_then [OF env_leads [OF cache_calm(3)]] leads_pre [OF emit_leads])
     (simp_all add: showVault_def)

lemma sync_keys_leads: "leads good (syncVaultKeys env ks acc) (\<lambda>_. good)"
  unfolding syncVaultKeys_def Let_def
proof (intro leads_if leads_ok leads_with_state)
  fix r
  show "leads (\<lambda>s. s = r \<and> good s)
      (and_then (put_state (mergeVaultKeyEntries env
          (Some (enforcerFilterVaultKeys (envEnforcer env r) (envAccountId env) ks)))) (\<lambda>_.
       and_then (storeVaultKeys env (enforcerFilterVaultKeys (envEnforcer env r) (envAccountId env) ks)
          (envAccountId env)) (\<lambda>_. put_state emit))) (\<lambda>_. good)"
    by (rule leads_pre [where I = good])
       (intro leads_and_then [OF good_other_fields] leads_and_then [OF env_leads [OF store_keys]]
         leads_pre [OF emit_leads], simp_all)
qed simp

lemma remove_vault_leads:
  "leads (\<lambda>r. good r \<and> none_leaving v r) (replicaRemoveCachedVault env v acc) (\<lambda>_. good)"
  unfolding replicaRemoveCachedVault_def
  by (intro leads_if leads_ok leads_and_then [OF leads_put [where J = "\<lambda>_. good"]]
      leads_and_then [OF env_leads [OF cache_calm(4)]] leads_pre [OF emit_leads])
     (auto intro: drop_vault_good)

lemma clear_good: "ok_except S r \<Longrightarrow> good (clearReplica r)"
  by (auto simp: ok_except_def clearReplica_def)

lemma clear_cache_leads: "leads good (replicaClearItemCache env acc) (\<lambda>_. good)"
  unfolding replicaClearItemCache_def
  by (intro leads_if leads_ok leads_and_then [OF env_leads [OF cache_calm(5)]] leads_put)
     (auto intro: clear_good)

lemma remove_item_leads: "leads good (removeItem env i) (\<lambda>_. good)"
proof -
  let ?g = "\<lambda>r :: 'w replica. (dropItem i (dropAuthoritative i r))
        \<lparr>pendingCommands := filter (\<lambda>(_, c). entityId c \<noteq> i) (pendingCommands r)\<rparr>"
  have "good (?g r)" if r: "good r" for r :: "'w replica"
  proof -
    have "commandsForItem (?g r) j = commandsForItem r j" if "j \<noteq> i" for j
    proof -
      have "filter (\<lambda>c. entityId c = j) (map snd (filter (\<lambda>(_, c). entityId c \<noteq> i) p)) =
          filter (\<lambda>c. entityId c = j) (map snd p)" for p :: "(string \<times> command) list"
        using that by (induction p) auto
      then show ?thesis by (simp add: commandsForItem_def)
    qed
    then have "touches {i} r (?g r)" by (simp add: touches_def dropItem_def dropAuthoritative_def)
    moreover have "pending_ok (pendingCommands (?g r))" "sound (outside (?g r))"
        "auth_ok (authoritativeItems (?g r))"
      using r by (auto simp: ok_except_def pending_ok_def list_all_iff distinct_map_filter
          dropItem_def dropAuthoritative_def auth_ok_delete)
    ultimately have "ok_except {i} (?g r)" by (intro ok_except_touch [OF r]) auto
    then show ?thesis by (rule good_when_dropped) (simp add: dropItem_def)
  qed
  then show ?thesis
    unfolding removeItem_def
    by (intro leads_and_then [OF leads_put [where J = "\<lambda>_. good"]]
        leads_and_then [OF env_leads [OF cache_calm(2)]] leads_pre [OF emit_leads]) simp_all
qed

text \<open>
  A direct edit shows what it makes authoritative. It agrees with the projection when nothing is
  pending on the item and the record opens to the content that is shown.
\<close>

lemma toCached_looks: "looks_of (toCached env r x) = repo_looks x"
  by (simp add: looks_of_def repo_looks_def truncate_eq_iff toCached_def toCachedItemFromRepositoryItem_def
      toCachedItemMetadata_def Let_def)

lemma committed_good:
  assumes r: "good r" and none: "commandsForItem r i = []" and "itemId new = i"
    and opens: "plain (sealed_part new) = Some (riContent new)"
  shows "good (setAuthoritative i (toCached env r0 new) (showItem i new r))" (is "good ?t")
proof -
  have id: "itemId (toCached env r0 new) = i"
    using toCached_looks [of r0 new] assms(3) by (simp add: looks_of_def repo_looks_def truncate_eq_iff)
  have t: "ok_except {i} ?t"
    by (rule ok_except_touch [OF r])
       (use r id in \<open>auto simp: touches_def ok_except_def setAuthoritative_def showItem_def
          intro: commands_cong auth_ok_set\<close>)
  have cs: "commandsForItem ?t i = commandsForItem r i"
    by (rule commands_cong) (simp add: setAuthoritative_def showItem_def)
  have base: "js_get (authoritativeItems ?t) i = Some (toCached env r0 new)"
    by (simp add: setAuthoritative_def showItem_def)
  have "shown_ok plain env ?t i new"
    unfolding shown_ok_def projected_looks_def projection_def cs none base
    using opens by (simp add: toCached_looks)
  then show ?thesis
    using t unfolding ok_except_def by (auto simp: setAuthoritative_def showItem_def)
qed

lemma commit_leads:
  "leads (\<lambda>r. good r \<and> commandsForItem r i = [] \<and> itemId new = i \<and> plain (sealed_part new) = Some (riContent new))
     (commitItem env new i) (\<lambda>_. good)"
  unfolding commitItem_def
proof (rule leads_and_then [OF leads_put [where J = "\<lambda>_. good"]])
  show "good (setAuthoritative i (toCached env s new) (showItem i new s))"
    if "good s \<and> commandsForItem s i = [] \<and> itemId new = i \<and> plain (sealed_part new) = Some (riContent new)" for s :: "'w replica"
    using that committed_good by blast
  have "leads good (with_state (\<lambda>r. persistItem env (toCached env r new))) (\<lambda>_. good)"
    by (rule leads_with_state, rule leads_pre [OF leads_post [OF env_leads [OF persist_calm]]]) auto
  then show "leads good (and_then (with_state (\<lambda>r. persistItem env (toCached env r new))) (\<lambda>_. put_state emit)) (\<lambda>_. good)"
    by (rule leads_and_then) (rule emit_leads)
qed

text \<open>A shown item on which nothing is pending carries its id.\<close>

lemma shown_id:
  assumes r: "good r" and none: "commandsForItem r i = []" and ri: "js_get (repoItems r) i = Some ri"
  shows "itemId ri = i" and "plain (sealed_part ri) = Some (riContent ri)"
proof -
  have shown: "shown_ok plain env r i ri" using r ri by (simp add: ok_except_def)
  then show "plain (sealed_part ri) = Some (riContent ri)" by (simp add: shown_ok_def)
  obtain x where x: "js_get (authoritativeItems r) i = Some x" "looks_of x = repo_looks ri"
    using shown none by (auto simp: shown_ok_def projected_looks_def projection_def)
  have "itemId x = i" using r map_of_SomeD [OF x(1)] by (auto simp: ok_except_def auth_ok_def list_all_iff)
  then show "itemId ri = i" using x(2) by (simp add: looks_of_def repo_looks_def truncate_eq_iff)
qed

lemma edit_leads:
  assumes "\<And>r ri. itemId (edit r ri) = itemId ri"
    and "\<And>r ri. good r \<Longrightarrow> commandsForItem r i = [] \<Longrightarrow> js_get (repoItems r) i = Some ri \<Longrightarrow> Q r \<Longrightarrow>
      plain (sealed_part (edit r ri)) = Some (riContent (edit r ri))"
  shows "leads (\<lambda>r. good r \<and> commandsForItem r i = [] \<and> Q r) (editShown env i edit) (\<lambda>_. good)"
  unfolding editShown_def
proof (rule leads_with_state)
  fix r :: "'w replica"
  show "leads (\<lambda>s. s = r \<and> good s \<and> commandsForItem s i = [] \<and> Q s)
      (case js_get (repoItems r) i of None \<Rightarrow> ok () | Some existing \<Rightarrow> commitItem env (edit r existing) i) (\<lambda>_. good)"
  proof (cases "js_get (repoItems r) i")
    case None
    then show ?thesis by (auto intro!: leads_ok)
  next
    case (Some ri)
    have "leads (\<lambda>s. s = r \<and> good s \<and> commandsForItem s i = [] \<and> Q s) (commitItem env (edit r ri) i) (\<lambda>_. good)"
      by (rule leads_pre [OF commit_leads]) (use Some assms shown_id(1) in auto)
    with Some show ?thesis by simp
  qed
qed

lemma sealed_part_edits:
  "sealed_part (ri\<lparr>riDeletedAt := d, itemUpdatedAt := n\<rparr>) = sealed_part ri"
  "sealed_part (ri\<lparr>itemFavorite := f, itemUpdatedAt := n\<rparr>) = sealed_part ri"
  by (simp_all add: sealed_part_def storedItemData_def buildStoredItemEncryptionContext_def)

lemma direct_edit_leads:
  "leads (\<lambda>r. good r \<and> commandsForItem r i = [] \<and> True) (softDelete env i) (\<lambda>_. good)"
  "leads (\<lambda>r. good r \<and> commandsForItem r i = [] \<and> True) (restoreItem env i) (\<lambda>_. good)"
  "leads (\<lambda>r. good r \<and> commandsForItem r i = [] \<and> True) (updateFavorite env i f) (\<lambda>_. good)"
  unfolding softDelete_def restoreItem_def updateFavorite_def Let_def
  by (rule edit_leads; simp add: sealed_part_edits shown_id(2))+

lemma move_leads:
  "leads (\<lambda>r. good r \<and> commandsForItem r i = [] \<and> (\<forall>ri. js_get (repoItems r) i = Some ri \<longrightarrow>
       plain (sealed_part (moved_item env target p content r ri)) = Some (riContent (moved_item env target p content r ri))))
     (moveItem env i target p content) (\<lambda>_. good)"
  unfolding moveItem_def by (rule edit_leads) (simp_all add: moved_item_def)

lemma upsert_local_leads:
  "leads (\<lambda>r. good r \<and> commandsForItem r (diId x) = [] \<and>
       plain (sealed_part (local_edit env r x p)) = Some (riContent (local_edit env r x p)))
     (upsertLocal env x p) (\<lambda>_. good)"
  unfolding upsertLocal_def
  by (rule leads_with_state, rule leads_pre [OF commit_leads]) (auto simp: local_edit_def Let_def)

lemma detached_env:
  assumes "\<And>me. under (calm sound me) m P"
  shows "leads (ok_except S) (detached m) (\<lambda>_. ok_except S)"
proof (rule leadsI)
  fix s a s' assume s: "ok_except S s" and "detached m s = (Inr a, s')"
  then obtain x where "m s = (x, s')" by (auto simp: detached_def split: prod.splits)
  with s show "ok_except S s'" using underD [OF calm_ok_except [OF assms]] by blast
qed

lemma detached_rebuild: "leads (ok_except {i}) (detached (rebuildItemProjection env i)) (\<lambda>_. good)"
proof (rule leadsI)
  fix s a s' assume s: "ok_except {i} s" and "detached (rebuildItemProjection env i) s = (Inr a, s')"
  then show "good s'" using rebuild_ok [OF s, of i] by (auto simp: detached_def)
qed

definition "rename_entity tmp real =
  (\<lambda>(k :: string, c :: command). (k, if entityId c = tmp then c\<lparr>entityId := real\<rparr> else c))"

lemma renamed_commands:
  "j \<noteq> tmp \<Longrightarrow> j \<noteq> real \<Longrightarrow>
     filter (\<lambda>c. entityId c = j) (map snd (map (rename_entity tmp real) p)) =
     filter (\<lambda>c. entityId c = j) (map snd p)"
  by (induction p) (auto simp: rename_entity_def)

lemma renamed_pending_ok: "pending_ok p \<Longrightarrow> pending_ok (map (rename_entity tmp real) p)"
proof -
  assume p: "pending_ok p"
  have "map fst (map (rename_entity tmp real) p) = map fst p"
    by (induction p) (auto simp: rename_entity_def)
  moreover have "opId (c\<lparr>entityId := real\<rparr>) = opId c" "command_wf (c\<lparr>entityId := real\<rparr>) = command_wf c" for c :: command
    by (simp_all add: opId_def command_wf_def)
  then have "list_all (\<lambda>(k, c). opId c = k \<and> command_wf c) (map (rename_entity tmp real) p)"
    using p by (auto simp: pending_ok_def list_all_iff rename_entity_def)
  ultimately show ?thesis using p by (simp only: pending_ok_def)
qed

lemma rename_ok: "good r \<Longrightarrow> ok_except {real} (renameItem tmp real r)"
proof -
  assume r: "good r"
  have p: "pendingCommands (renameItem tmp real r) = map (rename_entity tmp real) (pendingCommands r)"
    and o: "outside (renameItem tmp real r) = outside r"
    by (simp_all add: renameItem_def Let_def rename_entity_def split: option.split)
  have "touches {real} r (renameItem tmp real r)"
    unfolding touches_def
  proof (intro allI impI)
    fix j assume j: "j \<notin> {real}"
    show "js_get (repoItems (renameItem tmp real r)) j = None \<or>
       js_get (repoItems (renameItem tmp real r)) j = js_get (repoItems r) j \<and>
       js_get (authoritativeItems (renameItem tmp real r)) j = js_get (authoritativeItems r) j \<and>
       commandsForItem (renameItem tmp real r) j = commandsForItem r j"
    proof (cases "j = tmp")
      case True
      with j show ?thesis by (auto simp: renameItem_def Let_def split: option.split)
    next
      case False
      then have "commandsForItem (renameItem tmp real r) j = commandsForItem r j"
        using renamed_commands [of j tmp real] j by (simp only: commandsForItem_def p) simp
      with False j show ?thesis
        by (auto simp: renameItem_def Let_def split: option.split)
    qed
  qed
  moreover have "auth_ok (authoritativeItems (renameItem tmp real r))"
    using r by (auto simp: ok_except_def renameItem_def Let_def intro!: auth_ok_set auth_ok_delete
        split: option.split)
  ultimately show ?thesis
    by (intro ok_except_touch [OF r]) (use r p o in \<open>auto simp: ok_except_def intro: renamed_pending_ok\<close>)
qed

lemma replace_id_leads: "leads good (replaceItemId env tmp real) (\<lambda>_. good)"
  unfolding replaceItemId_def
proof (rule leads_and_then [OF leads_put [where J = "\<lambda>_. ok_except {real}"]])
  show "good s \<Longrightarrow> ok_except {real} (renameItem tmp real s)" for s :: "'w replica" by (rule rename_ok)
  show "leads (ok_except {real}) (with_state (\<lambda>r.
      and_then (detached (removeCachedItem (envRecords env) tmp (envAccountId env))) (\<lambda>_.
      and_then (case js_get (authoritativeItems r) real of None \<Rightarrow> ok ()
                | Some base \<Rightarrow> detached (persistItem env base)) (\<lambda>_.
      detached (rebuildItemProjection env real))))) (\<lambda>_. good)"
  proof (rule leads_with_state)
    fix r :: "'w replica"
    have "leads (ok_except {real}) (case js_get (authoritativeItems r) real of None \<Rightarrow> ok ()
        | Some base \<Rightarrow> detached (persistItem env base)) (\<lambda>_. ok_except {real})"
      by (auto intro: leads_ok detached_env [OF persist_calm] split: option.split)
    then show "leads (\<lambda>s. s = r \<and> ok_except {real} s)
        (and_then (detached (removeCachedItem (envRecords env) tmp (envAccountId env))) (\<lambda>_.
         and_then (case js_get (authoritativeItems r) real of None \<Rightarrow> ok ()
                | Some base \<Rightarrow> detached (persistItem env base)) (\<lambda>_.
         detached (rebuildItemProjection env real)))) (\<lambda>_. good)"
      by (intro leads_pre [OF leads_and_then [OF detached_env [OF cache_calm(2), of "{real}"]
            leads_and_then [OF _ detached_rebuild]]]) auto
  qed
qed

end

end
