(* ===== verification/ReplicaOpening.thy ===== *)
theory ReplicaOpening
  imports ReplicaCalls
begin

text \<open>
  Opening a replica in a calm surrounding: after hydrate and hydrateFromServer have returned,
  every shown item is its projection, whatever the cache held, whichever records could be
  decrypted, and however the server paged.
\<close>

lemma set_js_set_of [simp]: "set (js_set_of xs) = set xs"
proof -
  have "set (fold (\<lambda>x acc. if x \<in> set acc then acc else acc @ [x]) xs acc) = set acc \<union> set xs" for acc
    by (induction xs arbitrary: acc) auto
  then show ?thesis by (simp add: js_set_of_def)
qed

lemma map_fst_assign [simp]: "map fst (assign_outcomes ks items rs) = items"
  by (induction ks items rs rule: assign_outcomes.induct) (auto split: option.split sum.split list.split)

lemma leads_try_finally:
  assumes "leads I m J" and "\<And>a s. J a s \<Longrightarrow> K a (g s)"
  shows "leads I (try_finally m g) K"
  using assms by (auto simp: leads_def try_finally_def split: prod.splits)

context calm_env
begin

section \<open>Decrypting a batch\<close>

definition answers :: "(cached_item \<times> key_ref) list \<Rightarrow> (string + item_content) list \<Rightarrow> bool" where
  "answers dec rs \<longleftrightarrow> length rs \<le> length dec \<and>
     (\<forall>j < length rs. \<forall>c. rs ! j = Inr c \<longrightarrow> plain (sealed_part (fst (dec ! j))) = Some c)"

definition outcomes_ok :: "(cached_item \<times> (js_error + repo_item)) list \<Rightarrow> bool" where
  "outcomes_ok out \<longleftrightarrow> (\<forall>(x, oc) \<in> set out. \<forall>d. oc = Inr d \<longrightarrow> opens x d)"

definition "opened ks i = (case js_get ks (itemVaultId i) of
   Some (Inr k) \<Rightarrow> Some (i :: cached_item, k :: key_ref) | _ \<Rightarrow> None)"
  for ks :: "(string \<times> (js_error + key_ref)) list"

lemma answers_Cons: "answers (d # dec) (r # rs) \<longleftrightarrow>
    (\<forall>c. r = Inr c \<longrightarrow> plain (sealed_part (fst d)) = Some c) \<and> answers dec rs"
proof -
  have "(\<forall>j < length (r # rs). P j) \<longleftrightarrow> P 0 \<and> (\<forall>j < length rs. P (Suc j))" for P
    by (auto simp: less_Suc_eq_0_disj)
  then show ?thesis by (auto simp: answers_def)
qed

lemma answers_Nil: "answers dec [] = True"
  by (simp add: answers_def)

lemma assigned_answers:
  "answers (List.map_filter (opened ks) items) rs \<Longrightarrow> (x, Inr c) \<in> set (assign_outcomes ks items rs) \<Longrightarrow>
     plain (sealed_part x) = Some c"
proof (induction items arbitrary: rs)
  case (Cons i items)
  show ?case
  proof (cases "\<exists>k. js_get ks (itemVaultId i) = Some (Inr k)")
    case True
    then obtain k where k: "js_get ks (itemVaultId i) = Some (Inr k)" by blast
    then have dec: "List.map_filter (opened ks) (i # items) = (i, k) # List.map_filter (opened ks) items"
      by (simp add: List.map_filter_simps opened_def)
    show ?thesis
    proof (cases rs)
      case Nil
      with Cons k answers_Nil show ?thesis by auto
    next
      case (Cons r rs')
      note ans = Cons.prems(1) [unfolded dec Cons answers_Cons]
      with Cons.prems(2) k Cons Cons.IH [of rs'] show ?thesis
        by (cases r) auto
    qed
  next
    case False
    then have "List.map_filter (opened ks) (i # items) = List.map_filter (opened ks) items"
      by (auto simp: List.map_filter_simps opened_def split: option.split sum.split)
    with Cons False show ?thesis by (auto split: option.splits sum.splits)
  qed
qed simp

lemma parsed_under:
  "under I (parse_results rs) (list_all2 (\<lambda>r y. \<forall>c. y = Inr c \<longrightarrow> (\<exists>p. r = Inr p \<and> parse_plaintext p = Some c)) rs)"
  unfolding parse_results_def
  by (rule under_map_each)
     (auto intro!: under_ok under_and_then [OF parse_content_under] split: sum.split)

lemma batch_answers:
  assumes "\<forall>j < min (length reqs) (length rs). \<forall>p x. rs ! j = Inr p \<longrightarrow>
             parse_plaintext p = Some x \<longrightarrow> plain (drData (reqs ! j), drContext (reqs ! j)) = Some x"
    and "reqs = map decrypt_request_for dec"
    and "list_all2 (\<lambda>r y. \<forall>c. y = Inr c \<longrightarrow> (\<exists>p. r = Inr p \<and> parse_plaintext p = Some c))
           (take (length dec) rs) ys"
  shows "answers dec ys"
  unfolding answers_def
proof (intro conjI allI impI)
  have len: "length ys = min (length rs) (length dec)" using list_all2_lengthD [OF assms(3)] by simp
  then show "length ys \<le> length dec" by simp
  fix j c assume j: "j < length ys" and c: "ys ! j = Inr c"
  obtain p where "rs ! j = Inr p" "parse_plaintext p = Some c"
    using list_all2_nthD2 [OF assms(3) j] c j len by auto
  then have "plain (drData (reqs ! j), drContext (reqs ! j)) = Some c"
    using assms(1,2) j len by auto
  then show "plain (sealed_part (fst (dec ! j))) = Some c"
    using assms(2) j len by (simp add: decrypt_request_for_def sealed_part_def case_prod_beta)
qed

lemma open_keys: "under (calm sound me) (openVaultKeys env vs) (\<lambda>_. True)"
  unfolding openVaultKeys_def
  by (rule under_true, rule under_map_each [where P = "\<lambda>_ _. True"]) (intro contract_intros vault_key, simp_all)

lemma batch_calm:
  "under (calm sound me) (decryptItemBatch env items vaults) (\<lambda>out. map fst out = items \<and> outcomes_ok out)"
  unfolding decryptItemBatch_def Let_def
proof (intro under_if under_and_then [OF open_keys] under_finally_do under_all_each destroy)
  show "items = [] \<Longrightarrow> under (calm sound me) (ok []) (\<lambda>out. map fst out = items \<and> outcomes_ok out)"
    by (simp add: under_ok outcomes_ok_def)
  fix ks :: "(string \<times> (js_error + key_ref)) list"
  let ?dec = "List.map_filter (opened ks) items"
  have dec: "List.map_filter (\<lambda>i. case js_get ks (itemVaultId i) of Some (Inr k) \<Rightarrow> Some (i, k) | _ \<Rightarrow> None) items = ?dec"
    by (simp add: opened_def [abs_def])
  show "under (calm sound me)
      (and_then (decryptStoredItems (envCrypto env)
          (List.map_filter (\<lambda>i. case js_get ks (itemVaultId i) of Some (Inr k) \<Rightarrow> Some (i, k) | _ \<Rightarrow> None) items))
        (\<lambda>primary. and_then (parse_results (take (length
          (List.map_filter (\<lambda>i. case js_get ks (itemVaultId i) of Some (Inr k) \<Rightarrow> Some (i, k) | _ \<Rightarrow> None) items)) primary))
        (\<lambda>parsed. with_state (\<lambda>r. ok (map (\<lambda>(i, oc). (i, map_sum (\<lambda>e. e) (buildItem env r vaults i) oc))
             (assign_outcomes ks items parsed))))))
      (\<lambda>out. map fst out = items \<and> outcomes_ok out)"
    unfolding dec decryptStoredItems_def
  proof (rule under_and_then [OF decrypt_many], rule under_and_then [OF parsed_under], rule under_with_state, rule under_ok)
    fix primary :: "(string + plaintext) list" and parsed :: "(string + item_content) list" and r :: "'w replica"
    assume "\<forall>j < min (length (map decrypt_request_for ?dec)) (length primary). \<forall>p x. primary ! j = Inr p \<longrightarrow>
        parse_plaintext p = Some x \<longrightarrow>
        plain (drData (map decrypt_request_for ?dec ! j), drContext (map decrypt_request_for ?dec ! j)) = Some x"
      and "list_all2 (\<lambda>r y. \<forall>c. y = Inr c \<longrightarrow> (\<exists>p. r = Inr p \<and> parse_plaintext p = Some c))
        (take (length ?dec) primary) parsed"
    then have "answers ?dec parsed" by (rule batch_answers [OF _ refl])
    then have *: "(x, Inr c) \<in> set (assign_outcomes ks items parsed) \<Longrightarrow> plain (sealed_part x) = Some c" for x c
      by (rule assigned_answers)
    have "map fst (map (\<lambda>(i, oc). (i, map_sum (\<lambda>e. e) (buildItem env r vaults i) oc))
        (assign_outcomes ks items parsed)) = map fst (assign_outcomes ks items parsed)"
      by (simp add: case_prod_beta comp_def)
    moreover have "opens x d" if "(x, oc) \<in> set (assign_outcomes ks items parsed)"
        "map_sum (\<lambda>e. e) (buildItem env r vaults x) oc = Inr d" for x oc d
      using that * by (cases oc) (auto simp: opens_def build_looks build_sealed build_content)
    ultimately show "map fst (map (\<lambda>(i, oc). (i, map_sum (\<lambda>e. e) (buildItem env r vaults i) oc))
        (assign_outcomes ks items parsed)) = items \<and>
        outcomes_ok (map (\<lambda>(i, oc). (i, map_sum (\<lambda>e. e) (buildItem env r vaults i) oc))
        (assign_outcomes ks items parsed))"
      by (auto simp: outcomes_ok_def)
  qed
qed

section \<open>Installing what was decrypted\<close>

text \<open>Every shown item was opened from a record and its authoritative record looks like it.\<close>

definition "backed r \<longleftrightarrow> (\<forall>j ri. js_get (repoItems r) j = Some ri \<longrightarrow>
  plain (sealed_part ri) = Some (riContent ri) \<and>
  (\<exists>c. js_get (authoritativeItems r) j = Some c \<and> looks_of c = repo_looks ri))"

lemma to_cached_looks: "looks_of (toCached env r d) = repo_looks d"
  by (simp add: looks_of_def repo_looks_def truncate_eq_iff toCached_def
      toCachedItemFromRepositoryItem_def toCachedItemMetadata_def Let_def)

lemma install_backed:
  assumes "outcomes_ok out" and "distinct (map (itemId \<circ> fst) out)" and "backed r"
    and "\<And>x. x \<in> fst ` set out \<Longrightarrow> js_get (repoItems r) (itemId x) = None"
  shows "backed (fold (install_outcome env) out r)"
  using assms
proof (induction out arbitrary: r)
  case (Cons e out)
  obtain x oc where e: "e = (x, oc)" by (cases e)
  have fresh: "js_get (repoItems r) (itemId x) = None" using Cons.prems(4) e by auto
  have op: "opens x d" if "oc = Inr d" for d using Cons.prems(1) e that by (auto simp: outcomes_ok_def)
  have "backed (install_outcome env e r)"
    using Cons.prems(3) fresh op
    by (cases oc) (auto simp: e install_outcome_def backed_def setAuthoritative_def showItem_def
        to_cached_looks opens_def)
  moreover have "js_get (repoItems (install_outcome env e r)) (itemId y) = None" if "y \<in> fst ` set out" for y
  proof -
    have "itemId y \<noteq> itemId x" using Cons.prems(2) that e by (auto simp: image_iff)
    moreover have "js_get (repoItems r) (itemId y) = None" using Cons.prems(4) that by auto
    ultimately show ?thesis
      by (auto simp: e install_outcome_def setAuthoritative_def showItem_def split: sum.split)
  qed
  ultimately show ?case
    using Cons.IH [of "install_outcome env e r"] Cons.prems(1,2) by (auto simp: outcomes_ok_def)
qed simp

lemma install_outcome_fields [simp]:
  "pendingCommands (install_outcome env e r) = pendingCommands r"
  "hydrationGeneration (install_outcome env e r) = hydrationGeneration r"
  "outside (install_outcome env e r) = outside r"
  by (simp_all add: install_outcome_def setAuthoritative_def showItem_def split: prod.split sum.split)

lemma install_fold_fields [simp]:
  "pendingCommands (fold (install_outcome env) out r) = pendingCommands r"
  "hydrationGeneration (fold (install_outcome env) out r) = hydrationGeneration r"
  "outside (fold (install_outcome env) out r) = outside r"
  by (induction out arbitrary: r) simp_all

lemma opens_id: "opens x d \<Longrightarrow> itemId d = itemId x"
  by (simp add: opens_def repo_looks_def looks_of_def truncate_eq_iff)

lemma install_auth_ok:
  "outcomes_ok out \<Longrightarrow> auth_ok (authoritativeItems r) \<Longrightarrow>
     auth_ok (authoritativeItems (fold (install_outcome env) out r))"
proof (induction out arbitrary: r)
  case (Cons e out)
  obtain x oc where e: "e = (x, oc)" by (cases e)
  have "itemId d = itemId x" if "oc = Inr d" for d
    using Cons.prems(1) e that by (auto simp: outcomes_ok_def intro: opens_id)
  then have "auth_ok (authoritativeItems (install_outcome env e r))"
    using Cons.prems(2)
    by (cases oc) (auto simp: e install_outcome_def setAuthoritative_def showItem_def toCached_def intro!: auth_ok_set)
  with Cons show ?case by (simp add: outcomes_ok_def)
qed simp

lemma install_outcomes_ok:
  assumes "outcomes_ok out" and "distinct (map (itemId \<circ> fst) out)"
    and "pending_ok (pendingCommands r)" and "sound (outside r)"
  shows "ok_except (set (pending_entities r)) (install_outcomes env out r)"
proof -
  let ?R = "install_outcomes env out r"
  have b: "backed ?R"
    unfolding install_outcomes_def by (rule install_backed) (use assms in \<open>simp_all add: backed_def\<close>)
  have p: "pendingCommands ?R = pendingCommands r" by (simp add: install_outcomes_def)
  have "shown_ok plain env ?R j ri"
    if j: "j \<notin> set (pending_entities r)" and ri: "js_get (repoItems ?R) j = Some ri" for j ri
  proof -
    have "filter (\<lambda>c. entityId c = j) (map snd (pendingCommands r)) = []"
      using j by (auto simp: filter_empty_conv pending_entities_def)
    then have "commandsForItem ?R j = []" by (simp add: commandsForItem_def p)
    with b ri show ?thesis
      by (auto simp: backed_def shown_ok_def projected_looks_def projection_def)
  qed
  moreover have "auth_ok (authoritativeItems ?R)"
    unfolding install_outcomes_def by (rule install_auth_ok [OF assms(1)]) simp
  ultimately show ?thesis
    using assms(3,4) by (simp add: ok_except_def p) (simp add: install_outcomes_def)
qed

text \<open>Rebuilding every item with a pending command completes the projection.\<close>

lemma rebuild_all_leads:
  "leads (\<lambda>s. ok_except (set is) s \<and> hydrationGeneration s = g) (rebuild_all env g is) (\<lambda>b s. b \<and> good s)"
proof (induction "is")
  case Nil
  show ?case by (auto intro: leads_ok)
next
  case (Cons i "is")
  have one: "leads (\<lambda>s. ok_except (set (i # is)) s \<and> hydrationGeneration s = g)
      (rebuildItemProjection env i) (\<lambda>_ s. ok_except (set is) s \<and> hydrationGeneration s = g)"
  proof (rule leadsI)
    fix s a s' assume s: "ok_except (set (i # is)) s \<and> hydrationGeneration s = g"
      and run: "rebuildItemProjection env i s = (Inr a, s')"
    obtain t where "rebuildItemProjection env i s = (Inr (), t)" "ok_except (set (i # is) - {i}) t"
      "hydrationGeneration t = hydrationGeneration s"
      using rebuild_ok [of "set (i # is)" s i] s by blast
    with run s show "ok_except (set is) s' \<and> hydrationGeneration s' = g"
      by (auto intro: ok_except_mono)
  qed
  show ?case
    unfolding rebuild_all.simps
  proof (rule leads_and_then [OF one], rule leads_with_state)
    fix r assume r: "ok_except (set is) r \<and> hydrationGeneration r = g"
    have "leads (\<lambda>s. s = r \<and> ok_except (set is) s \<and> hydrationGeneration s = g)
        (rebuild_all env g is) (\<lambda>b s. b \<and> good s)"
      by (rule leads_pre [OF Cons]) simp
    with r show "leads (\<lambda>s. s = r \<and> ok_except (set is) s \<and> hydrationGeneration s = g)
        (if g \<noteq> hydrationGeneration r then ok False else rebuild_all env g is) (\<lambda>b s. b \<and> good s)"
      by simp
  qed
qed

lemma lock_check:
  "leads (\<lambda>s. s = r \<and> good s) (if g \<noteq> hydrationGeneration r then ok True else isLocked env)
     (\<lambda>stale s. good s \<and> (\<not> stale \<longrightarrow> hydrationGeneration s = g))"
proof (rule leads_if)
  assume g: "\<not> g \<noteq> hydrationGeneration r"
  show "leads (\<lambda>s. s = r \<and> good s) (isLocked env)
      (\<lambda>stale s. good s \<and> (\<not> stale \<longrightarrow> hydrationGeneration s = g))"
  proof (rule leadsI)
    fix s b s' assume s: "s = r \<and> good s" and run: "isLocked env s = (Inr b, s')"
    have "calm sound (own s) s'"
      using underD [OF is_locked run] s by (auto simp: calm_def ok_except_def)
    with s g show "good s' \<and> (\<not> b \<longrightarrow> hydrationGeneration s' = g)"
      by (auto simp: calm_def own_eq intro: ok_except_cong)
  qed
qed (auto intro: leads_ok)

text \<open>The tail both openings share: install, then rebuild what has pending commands.\<close>

lemma install_and_rebuild:
  assumes "\<And>s. good s \<Longrightarrow> ok_except (set (pending_entities (f s))) (f s)"
    and "\<And>s. hydrationGeneration (f s) = hydrationGeneration s"
    and "leads good k (\<lambda>_. good)"
  shows "leads (\<lambda>s. good s \<and> hydrationGeneration s = g)
     (and_then (put_state f) (\<lambda>_.
      and_then (with_state (\<lambda>s. rebuild_all env g (pending_entities s))) (\<lambda>complete.
      if complete then k else k'))) (\<lambda>_. good)"
proof (intro leads_and_then [OF leads_put [where J = "\<lambda>_ s.
      ok_except (set (pending_entities s)) s \<and> hydrationGeneration s = g"]]
    leads_and_then [OF leads_with_state])
  fix s assume "good s \<and> hydrationGeneration s = g"
  then show "ok_except (set (pending_entities (f s))) (f s) \<and> hydrationGeneration (f s) = g"
    using assms(1,2) by auto
next
  fix r
  show "leads (\<lambda>s. s = r \<and> ok_except (set (pending_entities s)) s \<and> hydrationGeneration s = g)
      (rebuild_all env g (pending_entities r)) (\<lambda>b s. b \<and> good s)"
    by (rule leads_pre [OF rebuild_all_leads]) auto
next
  fix complete
  show "leads (\<lambda>s. complete \<and> good s) (if complete then k else k') (\<lambda>_. good)"
    by (rule leads_if) (auto simp: leads_def dest: leadsD [OF assms(3)])
qed

section \<open>From the cache\<close>

lemma adopt_fields [simp]:
  "repoItems (adoptServerUrl u r) = repoItems r" "authoritativeItems (adoptServerUrl u r) = authoritativeItems r"
  "pendingCommands (adoptServerUrl u r) = pendingCommands r"
  "hydrationGeneration (adoptServerUrl u r) = hydrationGeneration r" "outside (adoptServerUrl u r) = outside r"
  by (simp_all add: adoptServerUrl_def)

lemma adopt_fold_fields [simp]:
  "pendingCommands (fold (\<lambda>x. adoptServerUrl (h x)) xs r) = pendingCommands r"
  "hydrationGeneration (fold (\<lambda>x. adoptServerUrl (h x)) xs r) = hydrationGeneration r"
  "outside (fold (\<lambda>x. adoptServerUrl (h x)) xs r) = outside r"
  by (induction xs arbitrary: r) simp_all

lemma install_vaults_fields [simp]:
  "pendingCommands (install_vaults env vs ks r) = pendingCommands r"
  "hydrationGeneration (install_vaults env vs ks r) = hydrationGeneration r"
  "outside (install_vaults env vs ks r) = outside r"
  by (simp_all add: install_vaults_def)

lemma ensure_url: "leads good (ensureServerUrl env) (\<lambda>_. good)"
  unfolding ensureServerUrl_def
proof (rule leads_with_state, rule leads_if)
  fix r
  show "leads (\<lambda>s. s = r \<and> good s) (and_then (storedServerUrl env (envAccountId env))
      (\<lambda>url. put_state (setServerUrl (Some (coalesce url (fallbackServerUrl env)))))) (\<lambda>_. good)"
    by (rule leads_pre [where I = good], rule leads_and_then [OF env_leads [OF stored_url]])
       (auto intro!: leads_pre [OF good_other_fields] simp: setServerUrl_def)
qed (auto intro: leads_ok)

lemma install_cache_ok:
  assumes "good s" and "outcomes_ok out" and "map fst out = items" and "distinct (map itemId items)"
  shows "ok_except (set (pending_entities (install_cache env items hv ks out s))) (install_cache env items hv ks out s)"
proof -
  have d: "distinct (map (itemId \<circ> fst) out)" using assms(3,4) by (metis map_map)
  let ?r = "fold (\<lambda>i. adoptServerUrl (cachedScope i)) items (install_vaults env hv ks
      (fold (\<lambda>e. adoptServerUrl (vaultScope (snd e))) hv
        (s\<lparr>repoItems := [], authoritativeItems := [], repoVaults := [], vaultKeyEntries := []\<rparr>)))"
  have R: "install_cache env items hv ks out s = install_outcomes env out ?r"
    by (simp add: install_cache_def Let_def)
  have "ok_except (set (pending_entities ?r)) (install_outcomes env out ?r)"
    by (rule install_outcomes_ok [OF assms(2) d]) (use assms(1) in \<open>simp_all add: ok_except_def\<close>)
  moreover have "pending_entities (install_outcomes env out ?r) = pending_entities ?r"
    by (simp add: pending_entities_def install_outcomes_def)
  ultimately show ?thesis by (simp only: R)
qed

lemma install_cache_generation:
  "hydrationGeneration (install_cache env items hv ks out s) = hydrationGeneration s"
  by (simp add: install_cache_def Let_def install_outcomes_def)

lemma finish_install:
  assumes "\<And>s. good s \<Longrightarrow> ok_except (set (pending_entities (f s))) (f s)"
    and "\<And>s. hydrationGeneration (f s) = hydrationGeneration s"
    and "leads good k (\<lambda>_. good)"
  shows "leads good (with_state (\<lambda>r.
     and_then (if g \<noteq> hydrationGeneration r then ok True else isLocked env) (\<lambda>stale.
       if stale then ok ()
       else and_then (put_state f) (\<lambda>_.
            and_then (with_state (\<lambda>s. rebuild_all env g (pending_entities s))) (\<lambda>complete.
            if complete then k else k'))))) (\<lambda>_. good)"
proof (rule leads_with_state, rule leads_and_then [OF lock_check], rule leads_if)
  fix stale show "stale \<Longrightarrow> leads (\<lambda>s. good s \<and> (\<not> stale \<longrightarrow> hydrationGeneration s = g)) (ok ()) (\<lambda>_. good)"
    by (auto intro: leads_ok)
  assume "\<not> stale"
  then show "leads (\<lambda>s. good s \<and> (\<not> stale \<longrightarrow> hydrationGeneration s = g))
      (and_then (put_state f) (\<lambda>_.
       and_then (with_state (\<lambda>s. rebuild_all env g (pending_entities s))) (\<lambda>complete.
       if complete then k else k'))) (\<lambda>_. good)"
    by (intro leads_pre [OF install_and_rebuild [OF assms]]) auto
qed

lemma mark_leads: "leads good (put_state (mark_hydrated b)) (\<lambda>_. good)"
  by (rule good_other_fields) (simp_all add: mark_hydrated_def)

lemma load_cache_leads: "leads good (load_cache env g) (\<lambda>_. good)"
  unfolding load_cache_def
proof (rule leads_and_then [where J = "\<lambda>_. good"])
  show "leads good (with_state (\<lambda>r. assertVerified (envEnforcer env r) (envAccountId env))) (\<lambda>_. good)"
    by (rule leads_with_state) (auto simp: assertVerified_def intro: leads_ok leads_throw)
qed (intro leads_and_then [OF ensure_url] leads_and_then [OF env_leads [OF cache_calm(6)]] leads_fact
    leads_and_then [OF env_leads [OF cache_calm(7)]] leads_and_then [OF env_leads [OF cache_calm(8)]]
    leads_and_then [OF env_leads [OF stored_keys]] leads_and_then [OF leads_get [where J = "\<lambda>_. good"]]
    leads_and_then [OF env_leads [OF batch_calm]] finish_install mark_leads install_cache_generation
    install_cache_ok; simp add: coalesce_def split: option.splits)

lemma finish_good: "good s \<Longrightarrow> good (finish_hydration g s)"
  by (rule ok_except_cong [of "{}" s]) (simp_all add: finish_hydration_def ok_except_def)

lemma hydrate_leads: "leads good (hydrate env) (\<lambda>_. good)"
  unfolding hydrate_def Let_def
proof (rule leads_and_then [where J = "\<lambda>_. good"])
  show "leads good (with_state (\<lambda>r. if hydrating r then ok True else isLocked env)) (\<lambda>_. good)"
    by (rule leads_with_state, rule leads_pre [where I = good])
       (auto intro!: leads_if leads_ok leads_post [OF env_leads [OF is_locked]])
  fix skip
  show "leads good (if skip then ok () else
      and_then (put_state (\<lambda>r. emit (r\<lparr>hydrationGeneration := Suc (hydrationGeneration r), hydrating := True\<rparr>)))
      (\<lambda>_. with_state (\<lambda>r. try_finally (load_cache env (hydrationGeneration r))
        (finish_hydration (hydrationGeneration r))))) (\<lambda>_. good)"
  proof (intro leads_if leads_and_then [OF good_other_fields] leads_with_state)
    fix r
    show "leads (\<lambda>s. s = r \<and> good s) (try_finally (load_cache env (hydrationGeneration r))
        (finish_hydration (hydrationGeneration r))) (\<lambda>_. good)"
      by (rule leads_try_finally [OF leads_pre [OF load_cache_leads]])
         (auto intro: finish_good)
  qed (auto intro: leads_ok)
qed

end

end
