(* ===== verification/ReplicaBootstrap.thy ===== *)
theory ReplicaBootstrap
  imports ReplicaOpening
begin

text \<open>
  hydrateFromServer in a calm surrounding: however the server pages, and whether or not pending
  commands need records the new generation lacks, a call that returns leaves every shown item its
  projection.
\<close>

text \<open>A server client whose calls leave the replica's own fields alone.\<close>

definition calm_client :: "('w \<Rightarrow> bool) \<Rightarrow> 'w bootstrap_client \<Rightarrow> bool" where
  "calm_client sound client \<longleftrightarrow>
     (\<forall>me req. under (calm sound me) (bcBootstrap client req) (\<lambda>_. True)) \<and>
     (\<forall>me call. bcListVaults client = Some call \<longrightarrow> under (calm sound me) call (\<lambda>_. True))"

lemma calm_client_page: "calm_client sound client \<Longrightarrow> under (calm sound me) (bcBootstrap client req) (\<lambda>_. True)"
  and calm_client_vaults: "calm_client sound client \<Longrightarrow> bcListVaults client = Some call \<Longrightarrow>
    under (calm sound me) call (\<lambda>_. True)"
  unfolding calm_client_def by blast+

lemma auth_ok_ids: "auth_ok a \<Longrightarrow> map itemId (map snd a) = map fst a"
  by (induction a) (auto simp: auth_ok_def)

lemma distinct_readded:
  assumes "distinct (map itemId items)" and "auth_ok bases"
  shows "distinct (map itemId (items @ map snd (filter (\<lambda>(i, _). i \<notin> itemId ` set items) bases)))"
proof -
  let ?m = "filter (\<lambda>(i, _). i \<notin> itemId ` set items) bases"
  have m: "auth_ok ?m" using assms(2) by (rule auth_ok_filter)
  then have ids: "map itemId (map snd ?m) = map fst ?m"
    by (rule auth_ok_ids)
  have "set (map fst ?m) \<inter> set (map itemId items) = {}" by auto
  then show ?thesis
    using assms(1) m unfolding map_append ids distinct_append auth_ok_def by blast
qed

context calm_env
begin

lemma pages_calm:
  assumes "calm_client sound client"
  shows "under (calm sound me) (bootstrap_pages fuel env client g cursor base) (\<lambda>_. True)"
proof (induction fuel arbitrary: cursor base)
  case (Suc fuel)
  show ?case
    unfolding bootstrap_pages.simps
    by (intro under_and_then [OF calm_client_page [OF assms]] under_if under_with_state under_throw
        under_sum under_and_then [OF cache_calm(10)] under_and_then [OF cache_calm(11)] under_ok Suc) simp
qed (simp add: under_ok)

lemma fetch_calm:
  assumes "calm_client sound client"
  shows "under (calm sound me) (fetch_generation fuel env client g) (\<lambda>_. True)"
  unfolding fetch_generation_def
proof (rule under_and_then [OF pages_calm [OF assms]])
  have "under (calm sound me) (fetchVaultKeysFromServer client) (\<lambda>_. True)"
    unfolding fetchVaultKeysFromServer_def
    by (auto intro!: under_ok under_seq [OF calm_client_vaults [OF assms]] split: option.split)
  then show "under (calm sound me) (case fetched of None \<Rightarrow> ok None
      | Some base \<Rightarrow> and_then (fetchVaultKeysFromServer client) (\<lambda>ks. with_state (\<lambda>r.
           ok (Some (base, map_option (enforcerFilterVaultKeys (envEnforcer env r) (envAccountId env)) ks)))))
      (\<lambda>_. True)" for fetched
    by (auto intro!: under_ok under_seq under_with_state split: option.split)
qed

lemma abandon_calm: "abandon env g e s = (r, s') \<Longrightarrow> calm sound me s \<Longrightarrow> calm sound me s'"
  by (cases "discard (envRecords env) g s")
     (auto simp: abandon_def split: sum.splits dest: keyed_store.discard_keeps [OF records])

lemma replace_calm:
  assumes "calm_client sound client"
  shows "under (calm sound me) (replace_generation fuel env client g) (\<lambda>_. True)"
proof (rule underI, intro conjI allI impI TrueI)
  fix s r s' assume s: "calm sound me s" and run: "replace_generation fuel env client g s = (r, s')"
  obtain f s1 where f: "fetch_generation fuel env client g s = (f, s1)" by fastforce
  have s1: "calm sound me s1" using underD [OF fetch_calm [OF assms] f s] by simp
  show "calm sound me s'"
  proof (cases f)
    case (Inl e)
    with run f s1 show ?thesis by (auto simp: replace_generation_def intro: abandon_calm)
  next
    case (Inr got)
    show ?thesis
    proof (cases got)
      case None
      with run f Inr s1 show ?thesis by (simp add: replace_generation_def)
    next
      case (Some bk)
      obtain base ks where bk: "bk = (base, ks)" by (cases bk)
      obtain p g' s2 where p: "promote (envRecords env) g (bootstrap_metadata env s1 base) s1 = ((p, g'), s2)"
        by (metis prod.exhaust)
      have s2: "calm sound me s2" using keyed_store.promote_keeps [OF records p s1] .
      show ?thesis
        using run f Inr Some bk p s2
        by (cases p) (auto simp: replace_generation_def intro: abandon_calm)
    qed
  qed
qed

lemma readd_calm:
  assumes "distinct (map itemId items)" and "auth_ok bases"
  shows "under (calm sound me) (readd_bases env bases items) (\<lambda>out. distinct (map itemId out))"
  unfolding readd_bases_def Let_def
  by (intro under_and_then [OF under_for_each] under_ok distinct_readded [OF assms])
     (auto intro!: under_and_then [OF persist_calm] under_ok)

lemma readd_leads:
  assumes "distinct (map itemId items)" and "auth_ok bases"
  shows "leads (ok_except S) (readd_bases env bases items) (\<lambda>out s. ok_except S s \<and> distinct (map itemId out))"
  by (rule env_leads [OF readd_calm [OF assms]])

lemma install_bootstrap_ok:
  assumes "good s" and "outcomes_ok out" and "map fst out = items" and "distinct (map itemId items)"
  shows "ok_except (set (pending_entities (install_bootstrap env hv ks out s))) (install_bootstrap env hv ks out s)"
proof -
  have d: "distinct (map (itemId \<circ> fst) out)" using assms(3,4) by (metis map_map)
  let ?r = "install_vaults env hv ks s"
  have "ok_except (set (pending_entities ?r)) (install_outcomes env out ?r)"
    by (rule install_outcomes_ok [OF assms(2) d]) (use assms(1) in \<open>simp_all add: ok_except_def\<close>)
  moreover have "pending_entities (install_outcomes env out ?r) = pending_entities ?r"
    by (simp add: pending_entities_def install_outcomes_def)
  ultimately show ?thesis by (simp only: install_bootstrap_def)
qed

lemma install_bootstrap_generation:
  "hydrationGeneration (install_bootstrap env hv ks out s) = hydrationGeneration s"
  by (simp add: install_bootstrap_def install_outcomes_def)

lemma mark_emit_leads: "leads good (put_state (\<lambda>s. emit (mark_hydrated b s))) (\<lambda>_. good)"
  by (rule good_other_fields) (simp_all add: mark_hydrated_def)

lemma fresh_keys:
  "leads good (case refreshed of Some ks \<Rightarrow> ok (Some ks) | None \<Rightarrow> storedVaultKeys env (envAccountId env)) (\<lambda>_. good)"
  "leads good (case refreshed of Some fresh \<Rightarrow> storeVaultKeys env fresh (envAccountId env) | None \<Rightarrow> ok ()) (\<lambda>_. good)"
  by (auto intro: leads_ok leads_post [OF env_leads [OF stored_keys]] leads_post [OF env_leads [OF store_keys]]
      split: option.split)

lemma adopt_leads:
  assumes "auth_ok bases"
  shows "leads good (adopt_generation env g bases refreshed) (\<lambda>_. good)"
  unfolding adopt_generation_def
  by (intro leads_and_then [OF env_leads [OF cache_calm(6)]] leads_fact
      leads_and_then [OF env_leads [OF cache_calm(7)]] leads_and_then [OF readd_leads]
      leads_and_then [OF fresh_keys(1)] leads_and_then [OF fresh_keys(2)]
      leads_and_then [OF leads_get [where J = "\<lambda>_. good"]]
      leads_and_then [OF env_leads [OF batch_calm]] finish_install mark_emit_leads
      install_bootstrap_generation install_bootstrap_ok assms;
      simp add: coalesce_def split: option.splits del: map_map)

lemma verified_leads: "leads good (assertVerified e a) (\<lambda>_. good)"
  by (auto simp: assertVerified_def intro: leads_ok leads_throw)

lemma auth_ok_bases: "good r \<Longrightarrow> auth_ok (conflict_bases r)"
  unfolding conflict_bases_def ok_except_def by (blast intro: auth_ok_filter)

lemma bootstrap_leads:
  assumes "calm_client sound client"
  shows "leads good (hydrateFromServer fuel env client) (\<lambda>_. good)"
  unfolding hydrateFromServer_def Let_def
proof (rule leads_and_then [OF env_leads [OF is_locked]], rule leads_if)
  fix locked
  show "leads (\<lambda>s. good s \<and> True) (ok (Some None)) (\<lambda>_. good)" by (auto intro: leads_ok)
  show "leads (\<lambda>s. good s \<and> True) (with_state (\<lambda>r0.
      and_then (assertVerified (envEnforcer env r0) (envAccountId env)) (\<lambda>_.
      and_then (ensureServerUrl env) (\<lambda>_. with_state (\<lambda>r1.
      and_then (beginStagedGeneration (envRecords env) (envAccountId env) (newGeneration env r1)) (\<lambda>g.
      and_then (replace_generation fuel env client g) (\<lambda>fetched. case fetched of
        None \<Rightarrow> ok None
      | Some (base, ks) \<Rightarrow> and_then (adopt_generation env (hydrationGeneration r0) (conflict_bases r1) ks)
            (\<lambda>_. ok (Some base))))))))) (\<lambda>_. good)"
  proof (rule leads_with_state, rule leads_pre [where I = good],
      intro leads_and_then [OF verified_leads] leads_and_then [OF ensure_url] leads_with_state)
    fix r0 r1 :: "'w replica" assume r1: "good r1"
    show "leads (\<lambda>s. s = r1 \<and> good s)
      (and_then (beginStagedGeneration (envRecords env) (envAccountId env) (newGeneration env r1)) (\<lambda>g.
       and_then (replace_generation fuel env client g) (\<lambda>fetched. case fetched of
        None \<Rightarrow> ok None
      | Some (base, ks) \<Rightarrow> and_then (adopt_generation env (hydrationGeneration r0) (conflict_bases r1) ks)
            (\<lambda>_. ok (Some base))))) (\<lambda>_. good)"
      by (rule leads_pre [where I = good],
          intro leads_and_then [OF env_leads [OF cache_calm(9)]] leads_fact
            leads_and_then [OF env_leads [OF replace_calm [OF assms]]])
         (auto intro!: leads_ok leads_and_then [OF adopt_leads [OF auth_ok_bases [OF r1]]]
          split: option.split)
  qed simp
qed

end

end
