(* ===== verification/ReplicaDevice.thy ===== *)
theory ReplicaDevice
  imports ReplicaBootstrap
begin

text \<open>
  A device: the replica over the in-memory record port of packages/storage/src/testing, with the
  vault keys, the master unlock keys and the travel mode policy held beside it. What ciphertexts
  open to, what the texts of wrapped keys hold and what sealing answers are parameters. A device
  is a calm surrounding, whatever they are.
\<close>

section \<open>The device\<close>

record device =
  deviceMemory :: memory
  deviceKeys :: "(string \<times> vault_key_entry list) list"
  deviceMuks :: "(string \<times> key_ref) list"
  deviceEnforcer :: enforcer
  devicePolicies :: "(string \<times> travel_config) list"
  deviceClock :: int

record device_setup =
  dsAccount :: string
  dsUser :: string
  dsReading :: opener
  dsOpens :: "key_ref \<Rightarrow> encrypted_data \<Rightarrow> encryption_context \<Rightarrow> bool"
  dsEnvelopes :: "string \<Rightarrow> wrapped_vault_key option"
  dsSeal :: "plaintext \<Rightarrow> key_ref \<Rightarrow> encryption_context option \<Rightarrow> encrypted_data option"

definition in_memory :: "(js_error, memory, 'a) act \<Rightarrow> (device, 'a) rep" where
  "in_memory m r = (case m (deviceMemory (outside r)) of
     (v, mem) \<Rightarrow> (v, r\<lparr>outside := (outside r)\<lparr>deviceMemory := mem\<rparr>\<rparr>))"

definition device_records :: "device replica record_port" where
  "device_records = (let p = createInMemoryRecordPort ''records:'' in
     \<lparr>recordKeyPrefix = recordKeyPrefix p,
      recordPut = (\<lambda>c i v. in_memory (recordPut p c i v)),
      recordPutMany = (\<lambda>c rs. in_memory (recordPutMany p c rs)),
      recordGet = (\<lambda>c i. in_memory (recordGet p c i)),
      recordDelete = (\<lambda>c i. in_memory (recordDelete p c i)),
      recordList = (\<lambda>c. in_memory (recordList p c)),
      recordClear = (\<lambda>c. in_memory (recordClear p c))\<rparr>)"

definition no_crypto :: "(device, 'a) rep" where
  "no_crypto = throw (JsError ''not available on this device'')"

definition open_sealed :: "device_setup \<Rightarrow> encrypted_data \<Rightarrow> key_ref \<Rightarrow> encryption_context option \<Rightarrow> string + plaintext" where
  "open_sealed ds d k cx = (case cx of None \<Rightarrow> Inl ''no context''
     | Some c \<Rightarrow> if \<not> dsOpens ds k d c then Inl ''authentication failed''
       else (case dsReading ds (d, c) of None \<Rightarrow> Inl ''authentication failed''
             | Some x \<Rightarrow> Inr (JsonText x)))"

definition device_crypto :: "device_setup \<Rightarrow> device replica crypto_port" where
  "device_crypto ds =
     \<lparr>cpEncrypt = (\<lambda>p k cx. case dsSeal ds p k cx of None \<Rightarrow> no_crypto | Some d \<Rightarrow> ok d),
      cpDecrypt = (\<lambda>d k cx. case open_sealed ds d k cx of Inl e \<Rightarrow> throw (JsError e) | Inr p \<Rightarrow> ok p),
      cpDecryptMany = (\<lambda>reqs. ok (map (\<lambda>q. open_sealed ds (drData q) (drKey q) (Some (drContext q))) reqs)),
      cpDestroyKey = (\<lambda>_. ok ()),
      cpWrapKey = (\<lambda>_ _ _. no_crypto),
      cpUnwrapKey = (\<lambda>d k cx. ok (edCiphertext d)),
      cpDecryptRsaWrappedKey = (\<lambda>_ _ _. no_crypto),
      cpGenerateEncryptionKey = no_crypto, cpDeriveMasterKey = (\<lambda>_ _ _ _. no_crypto),
      cpDeriveKeysFromMasterKey = (\<lambda>_ _. no_crypto), cpDeriveSrpPassword = (\<lambda>_. no_crypto),
      cpEncryptMasterKey = (\<lambda>_ _ _. no_crypto), cpDecryptMasterKey = (\<lambda>_ _ _. no_crypto),
      cpGenerateSrpRegistration = (\<lambda>_. no_crypto),
      cpEncryptVaultKeyWithMuk = (\<lambda>_ _ _ _ _. no_crypto), cpGenerateSecretKey = no_crypto,
      cpGenerateRecoveryKey = no_crypto, cpValidateRecoveryKey = (\<lambda>_. no_crypto),
      cpGenerateUuid = no_crypto, cpGenerateRsaKeyPair = no_crypto,
      parseEnvelope = dsEnvelopes ds, parseData = (\<lambda>_. None), printData = edCiphertext\<rparr>"

definition device_store :: "device_setup \<Rightarrow> device replica crypto_store" where
  "device_store ds =
     \<lparr>csGetMasterUnlockKey = (\<lambda>acc. get_state (\<lambda>r. js_get (deviceMuks (outside r)) (coalesce acc (dsAccount ds)))),
      csGetEncryptedPrivateKey = (\<lambda>_. ok None),
      csGetSessionUserId = (\<lambda>_. ok (Some (dsUser ds))),
      csGetPinnedKdfProfile = (\<lambda>_. ok None)\<rparr>"

definition device_env :: "device_setup \<Rightarrow> device replica_env" where
  "device_env ds =
     \<lparr>envAccountId = dsAccount ds, envAccountEmail = None, fallbackServerUrl = ''https://api.bittery.org'',
      canonicalUrl = (\<lambda>u. u), envRecords = device_records,
      storedVaultKeys = (\<lambda>acc. get_state (\<lambda>r. js_get (deviceKeys (outside r)) acc)),
      storeVaultKeys = (\<lambda>ks acc. put_state (\<lambda>r. r\<lparr>outside :=
         (outside r)\<lparr>deviceKeys := js_set acc ks (deviceKeys (outside r))\<rparr>\<rparr>)),
      storedServerUrl = (\<lambda>_. ok None),
      resolveUserIdForAccount = (\<lambda>_. ok (dsUser ds)),
      envCrypto = device_crypto ds, envCryptoStore = device_store ds,
      envEnforcer = (\<lambda>r. deviceEnforcer (outside r)),
      envNow = (\<lambda>r. deviceClock (outside r)),
      newGeneration = (\<lambda>r. ''generation'')\<rparr>"

definition device_ok :: "device \<Rightarrow> bool" where
  "device_ok w = keyed_memory_ok (deviceMemory w)"

section \<open>It is a calm surrounding\<close>

lemma calm_outside: "calm sound me r \<Longrightarrow> sound w \<Longrightarrow> calm sound me (r\<lparr>outside := w\<rparr>)"
  by (simp add: calm_def own_def)

lemma under_in_memory:
  "under keyed_memory_ok m P \<Longrightarrow> under (calm device_ok me) (in_memory m) P"
proof (rule underI)
  fix s v s' assume m: "under keyed_memory_ok m P" and s: "calm device_ok me s" and run: "in_memory m s = (v, s')"
  obtain v' mem where x: "m (deviceMemory (outside s)) = (v', mem)" by fastforce
  have "keyed_memory_ok (deviceMemory (outside s))" using s by (simp add: calm_def device_ok_def)
  from underD [OF m x this] have "keyed_memory_ok mem" "\<forall>a. v' = Inr a \<longrightarrow> P a" by auto
  then show "calm device_ok me s' \<and> (\<forall>a. v = Inr a \<longrightarrow> P a)"
    using run x s by (auto simp: in_memory_def device_ok_def intro: calm_outside)
qed

interpretation device_cache: keyed_store device_records "calm device_ok me" for me
  by unfold_locales
     (simp_all add: device_records_def Let_def under_in_memory memory_records.put memory_records.put_many
        memory_records.get memory_records.delete memory_records.list memory_records.clear)

lemma device_port [simp]:
  "recordGet device_records c i r = (Inr (js_get (bucketFor (deviceMemory (outside r)) c) i), r)"
  "recordList device_records c r = (Inr (bucketFor (deviceMemory (outside r)) c), r)"
  by (simp_all add: device_records_def Let_def in_memory_def createInMemoryRecordPort_def)

lemma parsed_is_stored:
  "keyed_bucket b \<Longrightarrow> x \<in> set (parse_records parseItem b) \<Longrightarrow> js_get b (itemId x) = Some (ItemText x)"
proof -
  assume b: "keyed_bucket b" and "x \<in> set (parse_records parseItem b)"
  then obtain k v where kv: "(k, v) \<in> set b" and "parseItem v = Some x"
    by (auto simp: parse_records_def List.map_filter_def)
  then have v: "v = ItemText x" by (cases v) auto
  with b kv have "itemId x = k" by (auto simp: keyed_bucket_def keyed_record_def list_all_iff)
  with b kv v show ?thesis by (auto simp: keyed_bucket_def bucket_ok_def)
qed

lemma device_reread:
  assumes "device_ok (outside s)" and "getCachedItems device_records a s = (Inr (Some xs), s1)"
    and "x \<in> set xs" and "upsertCachedItem device_records x a s1 = (Inr b, s2)"
  shows b
proof -
  let ?st = "decode_state device_records a
    (js_get (bucketFor (deviceMemory (outside s)) (metaCollection a)) META_RECORD_ID)"
  let ?c = "itemCollectionFor a (activeGeneration ?st)"
  have "s1 = s" and "x \<in> set (parse_records parseItem (bucketFor (deviceMemory (outside s)) ?c))"
    using assms(2,3) by (auto simp: getCachedItems_def readState_def readCollection_def act_defs split: if_splits)
  moreover have "keyed_bucket (bucketFor (deviceMemory (outside s)) ?c)"
    using assms(1) by (simp add: device_ok_def keyed_bucketFor)
  ultimately have "js_get (bucketFor (deviceMemory (outside s)) ?c) (itemId x) = Some (ItemText x)"
    by (blast intro: parsed_is_stored)
  with assms(4) \<open>s1 = s\<close> show b
    by (auto simp: upsertCachedItem_def readState_def writeNewerItem_def storedIsNewer_def act_defs
        split: sum.splits prod.splits)
qed

lemma opened_reading: "open_sealed ds d k (Some cx) = Inr p \<Longrightarrow> parse_plaintext p = Some x \<Longrightarrow> dsReading ds (d, cx) = Some x"
  by (auto simp: open_sealed_def split: option.splits if_splits)

interpretation device: calm_env "device_env ds" device_ok "dsReading ds" for ds
proof (rule calm_env.intro)
  fix me show "keyed_store (envRecords (device_env ds)) (calm device_ok me)"
    by (simp add: device_env_def device_cache.keyed_store_axioms)
next
  fix me ks a
  show "under (calm device_ok me) (storeVaultKeys (device_env ds) ks a) (\<lambda>_. True)"
    by (auto simp: device_env_def calm_def own_def device_ok_def intro!: under_put_state)
next
  fix a s xs s1 x b s2
  show "device_ok (outside s) \<Longrightarrow> getCachedItems (envRecords (device_env ds)) a s = (Inr (Some xs), s1) \<Longrightarrow>
      x \<in> set xs \<Longrightarrow> upsertCachedItem (envRecords (device_env ds)) x a s1 = (Inr b, s2) \<Longrightarrow> b"
    using device_reread [of s a xs s1 x b s2] by (simp add: device_env_def)
next
  fix me d k cx
  show "under (calm device_ok me) (cpDecrypt (envCrypto (device_env ds)) d k (Some cx))
          (\<lambda>p. \<forall>x. parse_plaintext p = Some x \<longrightarrow> dsReading ds (d, cx) = Some x)"
    by (auto simp: device_env_def device_crypto_def intro: under_throw under_ok opened_reading split: sum.split)
next
  fix me reqs
  show "under (calm device_ok me) (cpDecryptMany (envCrypto (device_env ds)) reqs)
          (\<lambda>rs. \<forall>j < min (length reqs) (length rs). \<forall>p x. rs ! j = Inr p \<longrightarrow>
             parse_plaintext p = Some x \<longrightarrow> dsReading ds (drData (reqs ! j), drContext (reqs ! j)) = Some x)"
    by (auto simp: device_env_def device_crypto_def intro!: under_ok intro: opened_reading)
qed (simp_all add: device_env_def device_store_def device_crypto_def no_crypto_def under_def act_defs
    split: option.split)

end
