(* ===== verification/TravelLayers.thy ===== *)
theory TravelLayers
  imports TravelMode CacheContracts
begin

text \<open>
  What the travel mode enforcer achieves: when applying a policy returns, no layer holds anything
  of a hidden vault any more, and only then is the policy exposed; when it throws, the enforcer is
  what it was. The locale travel_layers is what this relies on of the account store, the item
  cache and the repository.
\<close>

section \<open>Replacing what the cache holds\<close>

context readable_store
begin

lemma written_state:
  assumes "stateVersion st = ITEM_CACHE_STATE_VERSION"
    and "stateNativeView st = Some (nativeViewFor port acc (activeGeneration st))"
  shows "visible_state port (V(metaCollection acc := js_set META_RECORD_ID (StateText st) (V (metaCollection acc)))) acc = st"
  using assms by (simp add: visible_state_def decode_state_def Let_def nativeViewFor_def)

lemma visible_versions:
  "stateVersion (visible_state port V acc) = ITEM_CACHE_STATE_VERSION \<and>
   stateNativeView (visible_state port V acc) = Some (nativeViewFor port acc (activeGeneration (visible_state port V acc)))"
  by (auto simp: visible_state_def decode_state_def coldState_def Let_def split: option.splits)

text \<open>Marking a collection as primed changes that mark and nothing else.\<close>

lemma primed:
  assumes "(and_then (readState port acc) (\<lambda>st. if p st then ok () else writeState port acc (mark st))) s = (Inr (), t)"
    and "\<And>st. p st \<Longrightarrow> mark st = st"
    and "\<And>st. stateVersion (mark st) = stateVersion st \<and> stateNativeView (mark st) = stateNativeView st \<and>
           activeGeneration (mark st) = activeGeneration st"
  shows "visible_state port (view t) acc = mark (visible_state port (view s) acc) \<and>
    (\<forall>d. d \<noteq> metaCollection acc \<longrightarrow> view t d = view s d)"
proof (cases "p (visible_state port (view s) acc)")
  case True
  with assms(1,2) show ?thesis by (simp add: and_then_def readState_returns ok_def)
next
  case False
  let ?st = "mark (visible_state port (view s) acc)"
  from False assms(1) have "writeState port acc ?st s = (Inr (), t)" by (simp add: and_then_def readState_returns)
  then have v: "view t = (view s)(metaCollection acc := js_set META_RECORD_ID (StateText ?st) (view s (metaCollection acc)))"
    by (simp add: writeState_def put_ok)
  have "visible_state port (view t) acc = ?st"
    unfolding v by (rule written_state) (simp_all add: assms(3) visible_versions)
  with v show ?thesis by simp
qed

lemma replaced:
  assumes "replaceCollection port c rs s = (Inr (), t)"
  shows "view t = (view s)(c := put_many rs [])"
proof -
  obtain s1 where "recordClear port c s = (Inr (), s1)" and "recordPutMany port c rs s1 = (Inr (), t)"
    using assms by (auto simp: replaceCollection_def and_then_def split: prod.splits sum.splits)
  from clear_ok [OF this(1)] put_many_ok [OF this(2)] show ?thesis by simp
qed

end

lemma set_put_many: "set (put_many rs b) \<subseteq> set rs \<union> set b"
proof (induction rs arbitrary: b)
  case (Cons r rs)
  obtain k v where r: "r = (k, v)" by (cases r)
  show ?case using Cons.IH [of "js_set k v b"] set_js_set_subset [of k v b] by (auto simp: put_many_def r)
qed (simp add: put_many_def)

lemma parsed_subset: "set b \<subseteq> set b' \<Longrightarrow> set (parse_records f b) \<subseteq> set (parse_records f b')"
  unfolding parse_records_def List.map_filter_def set_map set_filter by (intro image_mono) auto

lemma parse_vault_records: "parse_records parseVault (vault_records vs) = vs"
  by (induction vs) (simp_all add: parse_records_def vault_records_def List.map_filter_simps)

lemma put_records_parse:
  "set (parse_records parseItem (put_many (item_records items) [])) \<subseteq> set items"
  "set (parse_records parseVault (put_many (vault_records vaults) [])) \<subseteq> set vaults"
  using parsed_subset [of "put_many (item_records items) []" "item_records items" parseItem]
    parsed_subset [of "put_many (vault_records vaults) []" "vault_records vaults" parseVault]
    set_put_many [of "item_records items" "[]"] set_put_many [of "vault_records vaults" "[]"]
  by (simp_all add: memory.parse_item_records parse_vault_records)

lemma apart:
  assumes "plain_id acc"
  shows "itemCollectionFor acc a \<noteq> vaultCollectionFor acc a" "itemCollectionFor acc a \<noteq> metaCollection acc"
    "vaultCollectionFor acc a \<noteq> metaCollection acc"
  using stage_not_plain [OF assms] memory.meta_unswept [OF assms]
  by (auto simp: itemCollectionFor_def vaultCollectionFor_def collection_defs split: option.splits if_splits)

context readable_store
begin

lemma set_items:
  assumes "plain_id acc" and "setCachedItems port items acc s = (Inr (), t)"
  shows "\<exists>ys. items_answer port (view t) acc = Some ys \<and> set ys \<subseteq> set items"
    and "vaults_answer port (view t) acc = vaults_answer port (view s) acc"
proof -
  let ?st = "visible_state port (view s) acc"
  let ?c = "itemCollectionFor acc (activeGeneration ?st)"
  obtain s1 where 1: "replaceCollection port ?c (item_records items) s = (Inr (), s1)"
    and 2: "prime_items port acc s1 = (Inr (), t)"
    using assms(2) by (auto simp: setCachedItems_def and_then_def readState_returns split: prod.splits sum.splits)
  note v1 = replaced [OF 1] and ap = apart [OF assms(1), of "activeGeneration ?st"]
  have "visible_state port (view s1) acc = ?st" using ap(2) by (simp add: v1 visible_state_def)
  with primed [OF 2 [unfolded prime_items_def]]
  have st: "visible_state port (view t) acc = ?st\<lparr>itemsPrimed := True\<rparr>" and v: "\<And>d. d \<noteq> metaCollection acc \<Longrightarrow> view t d = view s1 d"
    by simp_all
  have "visible_items port (view t) acc = put_many (item_records items) []"
    using st v [OF ap(2)] by (simp add: visible_items_def v1)
  then show "\<exists>ys. items_answer port (view t) acc = Some ys \<and> set ys \<subseteq> set items"
    using put_records_parse(1) [of items] st by (auto simp: items_answer_def)
  have "visible_vaults port (view t) acc = visible_vaults port (view s) acc"
    using st v [OF ap(3)] ap(1) by (simp add: visible_vaults_def v1)
  with st show "vaults_answer port (view t) acc = vaults_answer port (view s) acc" by (simp add: vaults_answer_def)
qed

lemma set_vaults:
  assumes "plain_id acc" and "setCachedVaults port vaults acc s = (Inr (), t)"
  shows "\<exists>ys. vaults_answer port (view t) acc = Some ys \<and> set ys \<subseteq> set vaults"
    and "items_answer port (view t) acc = items_answer port (view s) acc"
proof -
  let ?st = "visible_state port (view s) acc"
  let ?c = "vaultCollectionFor acc (activeGeneration ?st)"
  obtain s1 where 1: "replaceCollection port ?c (vault_records vaults) s = (Inr (), s1)"
    and 2: "prime_vaults port acc s1 = (Inr (), t)"
    using assms(2) by (auto simp: setCachedVaults_def and_then_def readState_returns split: prod.splits sum.splits)
  note v1 = replaced [OF 1] and ap = apart [OF assms(1), of "activeGeneration ?st"]
  have "visible_state port (view s1) acc = ?st" using ap(3) by (simp add: v1 visible_state_def)
  with primed [OF 2 [unfolded prime_vaults_def]]
  have st: "visible_state port (view t) acc = ?st\<lparr>vaultsPrimed := True\<rparr>" and v: "\<And>d. d \<noteq> metaCollection acc \<Longrightarrow> view t d = view s1 d"
    by simp_all
  have "visible_vaults port (view t) acc = put_many (vault_records vaults) []"
    using st v [OF ap(3)] by (simp add: visible_vaults_def v1)
  then show "\<exists>ys. vaults_answer port (view t) acc = Some ys \<and> set ys \<subseteq> set vaults"
    using put_records_parse(2) [of vaults] st by (auto simp: vaults_answer_def)
  have "visible_items port (view t) acc = visible_items port (view s) acc"
    using st v [OF ap(2)] ap(1) by (simp add: visible_items_def v1)
  with st show "items_answer port (view t) acc = items_answer port (view s) acc" by (simp add: items_answer_def)
qed

end

section \<open>The layers\<close>

locale travel_layers =
  fixes tp :: "'s travel_port"
    and view :: "'s \<Rightarrow> string \<Rightarrow> bucket"
    and storedKeys :: "'s \<Rightarrow> string \<Rightarrow> vault_key_entry list option"
    and shown :: "'s \<Rightarrow> string \<Rightarrow> string set"
  assumes store: "readable_store (tpRecords tp) view"
    and items_frame: "under (\<lambda>s. (storedKeys s, shown s, tpEnforcer tp s) = me) (setCachedItems (tpRecords tp) xs a) (\<lambda>_. True)"
    and vaults_frame: "under (\<lambda>s. (storedKeys s, shown s, tpEnforcer tp s) = me) (setCachedVaults (tpRecords tp) vs a) (\<lambda>_. True)"
    and get_keys: "tpGetVaultKeys tp a s = (r, t) \<Longrightarrow>
          (view t, shown t, tpEnforcer tp t) = (view s, shown s, tpEnforcer tp s) \<and> storedKeys t = storedKeys s \<and>
          (\<forall>k. r = Inr k \<longrightarrow> k = storedKeys s a)"
    and store_keys: "tpStoreVaultKeys tp ks a s = (stored, t) \<Longrightarrow>
          (view t, shown t, tpEnforcer tp t) = (view s, shown s, tpEnforcer tp s) \<and>
          (stored = Inr () \<longrightarrow> storedKeys t a = Some ks)"
    and purges: "\<exists>purge. tpPurge tp = Some purge \<and> (\<forall>a hidden s.
          (view (purge a hidden s), storedKeys (purge a hidden s), tpEnforcer tp (purge a hidden s)) =
            (view s, storedKeys s, tpEnforcer tp s) \<and>
          shown (purge a hidden s) a \<inter> set hidden = {})"
    and get_cache: "under (\<lambda>s. (view s, storedKeys s, shown s, tpEnforcer tp s) = all) (tpGetCache tp a) (\<lambda>_. True)"
    and store_cache: "under (\<lambda>s. (view s, storedKeys s, shown s, tpEnforcer tp s) = all) (tpStoreCache tp c a) (\<lambda>_. True)"
    and set_enforcer: "tpEnforcer tp (tpSetEnforcer tp en s) = en \<and>
          (view (tpSetEnforcer tp en s), storedKeys (tpSetEnforcer tp en s), shown (tpSetEnforcer tp en s)) =
            (view s, storedKeys s, shown s)"

text \<open>
  The four layers purgeAllLayers works through hold nothing of the vaults: the stored vault keys, the
  cached items, the cached vaults and, in memory, what shown tells of, the decrypted projection.
\<close>

definition free_of ::
  "'s travel_port \<Rightarrow> ('s \<Rightarrow> string \<Rightarrow> bucket) \<Rightarrow> ('s \<Rightarrow> string \<Rightarrow> vault_key_entry list option) \<Rightarrow>
   ('s \<Rightarrow> string \<Rightarrow> string set) \<Rightarrow> string \<Rightarrow> string list \<Rightarrow> 's \<Rightarrow> bool" where
  "free_of tp view storedKeys shown acc hidden s \<longleftrightarrow>
     (\<forall>k \<in> set (coalesce (storedKeys s acc) []). vkVaultId k \<notin> set hidden) \<and>
     (\<forall>i \<in> set (coalesce (items_answer (tpRecords tp) (view s) acc) []). itemVaultId i \<notin> set hidden) \<and>
     (\<forall>v \<in> set (coalesce (vaults_answer (tpRecords tp) (view s) acc) []). vsId v \<notin> set hidden) \<and>
     shown s acc \<inter> set hidden = {}"

definition exposed :: "'s travel_port \<Rightarrow> string \<Rightarrow> travel_config \<Rightarrow> 's \<Rightarrow> bool" where
  "exposed tp acc config s \<longleftrightarrow> isVerified (tpEnforcer tp s) acc \<and> getConfig (tpEnforcer tp s) acc = config"

context travel_layers
begin

lemma keys_purged:
  assumes "purge_keys tp acc hidden s = (r, t)"
  shows "view t = view s \<and> shown t = shown s \<and> tpEnforcer tp t = tpEnforcer tp s \<and>
    (r = Inr () \<longrightarrow> (\<forall>k \<in> set (coalesce (storedKeys t acc) []). vkVaultId k \<notin> set hidden))"
proof -
  obtain ks s1 where g: "tpGetVaultKeys tp acc s = (ks, s1)" by fastforce
  note g1 = get_keys [OF g]
  show ?thesis
  proof (cases ks)
    case (Inr k)
    show ?thesis
    proof (cases k)
      case None
      with Inr assms g g1 show ?thesis by (auto simp: purge_keys_def and_then_def ok_def)
    next
      case (Some vs)
      with Inr assms g have "tpStoreVaultKeys tp (filter (\<lambda>k. vkVaultId k \<notin> set hidden) vs) acc s1 = (r, t)"
        by (simp add: purge_keys_def and_then_def)
      from store_keys [OF this] g1 show ?thesis by auto
    qed
  qed (use assms g g1 in \<open>auto simp: purge_keys_def and_then_def\<close>)
qed

lemma items_purged:
  assumes "plain_id acc" and "purge_items tp acc hidden s = (r, t)"
  shows "storedKeys t = storedKeys s \<and> shown t = shown s \<and> tpEnforcer tp t = tpEnforcer tp s \<and>
    (r = Inr () \<longrightarrow> vaults_answer (tpRecords tp) (view t) acc = vaults_answer (tpRecords tp) (view s) acc \<and>
       (\<forall>i \<in> set (coalesce (items_answer (tpRecords tp) (view t) acc) []). itemVaultId i \<notin> set hidden))"
proof -
  note read = readable_store.items_read [OF store, of acc s]
  show ?thesis
  proof (cases "items_answer (tpRecords tp) (view s) acc")
    case None
    with assms(2) read show ?thesis by (auto simp: purge_items_def and_then_def ok_def)
  next
    case (Some xs)
    with assms(2) read have w: "setCachedItems (tpRecords tp) (filter (\<lambda>i. itemVaultId i \<notin> set hidden) xs) acc s = (r, t)"
      by (simp add: purge_items_def and_then_def)
    have "storedKeys t = storedKeys s \<and> shown t = shown s \<and> tpEnforcer tp t = tpEnforcer tp s"
      using underD [OF items_frame w, of "(storedKeys s, shown s, tpEnforcer tp s)"] by simp
    moreover have "r = Inr () \<Longrightarrow> vaults_answer (tpRecords tp) (view t) acc = vaults_answer (tpRecords tp) (view s) acc \<and>
       (\<forall>i \<in> set (coalesce (items_answer (tpRecords tp) (view t) acc) []). itemVaultId i \<notin> set hidden)"
      using readable_store.set_items [OF store assms(1), of "filter (\<lambda>i. itemVaultId i \<notin> set hidden) xs" s t] w
      by auto
    ultimately show ?thesis by blast
  qed
qed

lemma vaults_purged:
  assumes "plain_id acc" and "purge_vaults tp acc hidden s = (r, t)"
  shows "storedKeys t = storedKeys s \<and> shown t = shown s \<and> tpEnforcer tp t = tpEnforcer tp s \<and>
    (r = Inr () \<longrightarrow> items_answer (tpRecords tp) (view t) acc = items_answer (tpRecords tp) (view s) acc \<and>
       (\<forall>v \<in> set (coalesce (vaults_answer (tpRecords tp) (view t) acc) []). vsId v \<notin> set hidden))"
proof -
  note read = readable_store.vaults_read [OF store, of acc s]
  show ?thesis
  proof (cases "vaults_answer (tpRecords tp) (view s) acc")
    case None
    with assms(2) read show ?thesis by (auto simp: purge_vaults_def and_then_def ok_def)
  next
    case (Some xs)
    with assms(2) read have w: "setCachedVaults (tpRecords tp) (filter (\<lambda>v. vsId v \<notin> set hidden) xs) acc s = (r, t)"
      by (simp add: purge_vaults_def and_then_def)
    have "storedKeys t = storedKeys s \<and> shown t = shown s \<and> tpEnforcer tp t = tpEnforcer tp s"
      using underD [OF vaults_frame w, of "(storedKeys s, shown s, tpEnforcer tp s)"] by simp
    moreover have "r = Inr () \<Longrightarrow> items_answer (tpRecords tp) (view t) acc = items_answer (tpRecords tp) (view s) acc \<and>
       (\<forall>v \<in> set (coalesce (vaults_answer (tpRecords tp) (view t) acc) []). vsId v \<notin> set hidden)"
      using readable_store.set_vaults [OF store assms(1), of "filter (\<lambda>v. vsId v \<notin> set hidden) xs" s t] w
      by auto
    ultimately show ?thesis by blast
  qed
qed

lemma all_purged:
  assumes "plain_id acc" and "purgeAllLayers tp acc hidden s = (r, t)"
  shows "tpEnforcer tp t = tpEnforcer tp s \<and> (r = Inr () \<longrightarrow> free_of tp view storedKeys shown acc hidden t)"
proof (cases "hidden = []")
  case True
  with assms(2) show ?thesis by (auto simp: purgeAllLayers_def ok_def free_of_def)
next
  case False
  obtain purge where p: "tpPurge tp = Some purge" and pl: "\<And>a hidden s.
      (view (purge a hidden s), storedKeys (purge a hidden s), tpEnforcer tp (purge a hidden s)) =
        (view s, storedKeys s, tpEnforcer tp s) \<and> shown (purge a hidden s) a \<inter> set hidden = {}"
    using purges by blast
  obtain r1 s1 where 1: "purge_keys tp acc hidden s = (r1, s1)" by fastforce
  obtain r2 s2 where 2: "purge_items tp acc hidden s1 = (r2, s2)" by fastforce
  obtain r3 s3 where 3: "purge_vaults tp acc hidden s2 = (r3, s3)" by fastforce
  note f = keys_purged [OF 1] items_purged [OF assms(1) 2] vaults_purged [OF assms(1) 3]
  show ?thesis
  proof (cases "(\<exists>e. r1 = Inl e) \<or> (\<exists>e. r2 = Inl e) \<or> (\<exists>e. r3 = Inl e)")
    case True
    with assms(2) False 1 2 3 f show ?thesis
      by (cases r1; cases r2) (auto simp: purgeAllLayers_def and_then_def)
  next
    case no: False
    then have r: "r1 = Inr ()" "r2 = Inr ()" "r3 = Inr ()" by (cases r1; cases r2; cases r3; simp)+
    have "t = purge acc hidden s3" "r = Inr ()"
      using assms(2) False 1 2 3 r p by (simp_all add: purgeAllLayers_def and_then_def put_state_def)
    with f r pl [of acc hidden s3] show ?thesis by (simp add: free_of_def)
  qed
qed

lemma exposing:
  "tpEnforcer tp (expose tp acc config s) =
     (tpEnforcer tp s)\<lparr>memoryCache := js_set acc config (memoryCache (tpEnforcer tp s)),
        verifiedAccounts := (if acc \<in> set (verifiedAccounts (tpEnforcer tp s)) then verifiedAccounts (tpEnforcer tp s)
          else verifiedAccounts (tpEnforcer tp s) @ [acc])\<rparr>"
  "free_of tp view storedKeys shown acc hidden (expose tp acc config s) = free_of tp view storedKeys shown acc hidden s"
  using set_enforcer by (auto simp: expose_def Let_def free_of_def)

lemma exposed_after: "exposed tp acc config (expose tp acc config s)"
  by (simp add: exposed_def exposing isVerified_def getConfig_def)

definition settled_policy :: "string \<Rightarrow> 's \<Rightarrow> (js_error + travel_config) \<Rightarrow> 's \<Rightarrow> bool" where
  "settled_policy acc s r t \<longleftrightarrow> (case r of
       Inl _ \<Rightarrow> tpEnforcer tp t = tpEnforcer tp s
     | Inr config \<Rightarrow> exposed tp acc config t \<and>
         (tmEnabled config \<longrightarrow> free_of tp view storedKeys shown acc (tmHiddenVaultIds config) t))"

lemma cache_same:
  assumes "tpStoreCache tp c a s = (r, t)"
  shows "tpEnforcer tp t = tpEnforcer tp s \<and> free_of tp view storedKeys shown acc hidden t = free_of tp view storedKeys shown acc hidden s"
  using underD [OF store_cache assms, of "(view s, storedKeys s, shown s, tpEnforcer tp s)"] by (simp add: free_of_def)

lemma apply_settles:
  assumes "plain_id acc" and "applyConfig tp acc config s = (r, t)"
  shows "settled_policy acc s (map_sum (\<lambda>e. e) (\<lambda>_. config) r) t"
proof -
  obtain r1 s1 where 1: "purge_if_enabled tp acc config s = (r1, s1)" by fastforce
  have p: "tpEnforcer tp s1 = tpEnforcer tp s \<and> (r1 = Inr () \<longrightarrow> tmEnabled config \<longrightarrow>
      free_of tp view storedKeys shown acc (tmHiddenVaultIds config) s1)"
    using 1 all_purged [OF assms(1), of "tmHiddenVaultIds config" s] by (auto simp: purge_if_enabled_def ok_def split: if_splits)
  show ?thesis
  proof (cases r1)
    case (Inl e)
    with assms(2) 1 p show ?thesis by (auto simp: applyConfig_def and_then_def settled_policy_def)
  next
    case (Inr u)
    obtain r2 s2 where 2: "tpStoreCache tp config acc s1 = (r2, s2)" by fastforce
    note c = cache_same [OF 2, of acc "tmHiddenVaultIds config"]
    show ?thesis
    proof (cases r2)
      case (Inl e)
      with assms(2) 1 2 Inr p c show ?thesis
        by (auto simp: applyConfig_def persistConfig_def and_then_def settled_policy_def)
    next
      case Inr2: (Inr u)
      with assms(2) 1 2 Inr have "r = Inr ()" "t = expose tp acc config s2"
        by (simp_all add: applyConfig_def persistConfig_def and_then_def put_state_def)
      with p c Inr exposed_after show ?thesis by (simp add: settled_policy_def exposing)
    qed
  qed
qed

lemma storage_settles:
  assumes "plain_id acc" and "hydrateFromStorage tp acc s = (r, t)"
  shows "settled_policy acc s r t"
proof -
  obtain c s1 where 1: "tpGetCache tp acc s = (c, s1)" by fastforce
  have e1: "tpEnforcer tp s1 = tpEnforcer tp s"
    using underD [OF get_cache 1, of "(view s, storedKeys s, shown s, tpEnforcer tp s)"] by simp
  show ?thesis
  proof (cases "\<exists>config. c = Inr (Some config)")
    case False
    with assms(2) 1 e1 show ?thesis
      by (cases c) (auto simp: hydrateFromStorage_def and_then_def throw_def settled_policy_def split: option.splits)
  next
    case True
    then obtain config where c: "c = Inr (Some config)" by blast
    obtain r2 s2 where 2: "purge_if_enabled tp acc config s1 = (r2, s2)" by fastforce
    have p: "tpEnforcer tp s2 = tpEnforcer tp s1 \<and> (r2 = Inr () \<longrightarrow> tmEnabled config \<longrightarrow>
        free_of tp view storedKeys shown acc (tmHiddenVaultIds config) s2)"
      using 2 all_purged [OF assms(1), of "tmHiddenVaultIds config" s1] by (auto simp: purge_if_enabled_def ok_def split: if_splits)
    show ?thesis
      using assms(2) 1 2 c p e1 exposed_after
      by (cases r2) (auto simp: hydrateFromStorage_def act_defs settled_policy_def exposing)
  qed
qed

lemma response_settles:
  assumes "plain_id acc" and "apply_response tp acc call s = (r, t)"
    and "tpEnforcer tp (snd (call s)) = tpEnforcer tp s"
  shows "settled_policy acc s r t"
proof -
  obtain a s1 where 1: "call s = (a, s1)" by fastforce
  show ?thesis
  proof (cases a)
    case (Inl e)
    with assms 1 show ?thesis by (auto simp: apply_response_def and_then_def settled_policy_def)
  next
    case (Inr response)
    let ?c = "mapTravelModeResponse (tpParseDate tp) response"
    obtain r2 s2 where 2: "applyConfig tp acc ?c s1 = (r2, s2)" by fastforce
    from apply_settles [OF assms(1) 2] assms(2,3) 1 2 Inr show ?thesis
      by (cases r2) (auto simp: apply_response_def act_defs settled_policy_def Let_def)
  qed
qed

lemma verify_settles:
  assumes "plain_id acc" and "verifyForUnlock tp acc client s = (r, t)"
    and "\<And>api. client = Some api \<Longrightarrow> tpEnforcer tp (snd (taGet api s)) = tpEnforcer tp s"
  shows "settled_policy acc s r t"
proof (cases client)
  case None
  with assms(2) storage_settles [OF assms(1)] show ?thesis by (simp add: verifyForUnlock_def)
next
  case (Some api)
  obtain r1 s1 where 1: "fetchFromServer tp acc api s = (r1, s1)" by fastforce
  note f = response_settles [OF assms(1) 1 [unfolded fetchFromServer_def] assms(3) [OF Some]]
  show ?thesis
  proof (cases r1)
    case (Inr c)
    with assms(2) 1 Some f show ?thesis by (simp add: verifyForUnlock_def catch_def)
  next
    case (Inl e)
    obtain r2 s2 where 2: "hydrateFromStorage tp acc s1 = (r2, s2)" by fastforce
    from storage_settles [OF assms(1) 2] assms(2) 1 2 Some Inl f show ?thesis
      by (cases r2) (auto simp: verifyForUnlock_def catch_def throw_def settled_policy_def)
  qed
qed

end

end
