(* ===== verification/RepositoryDevice.thy ===== *)
theory RepositoryDevice
  imports RepositoryProps ReplicaDevice TravelLayers
begin

text \<open>
  The device of ReplicaDevice with a repository on it: all accounts share its memory, its keys
  and its enforcer, and the travel mode policies are stored beside them. Storing a policy may be
  set to fail. The locales of the repository are interpreted on it.
\<close>

section \<open>The device\<close>

definition world_memory :: "(js_error, memory, 'a) act \<Rightarrow> (device, 'a) repo_act" where
  "world_memory m s = (case m (deviceMemory (world s)) of
     (v, mem) \<Rightarrow> (v, s\<lparr>world := (world s)\<lparr>deviceMemory := mem\<rparr>\<rparr>))"

definition repository_records :: "device repository record_port" where
  "repository_records = (let p = createInMemoryRecordPort ''records:'' in
     \<lparr>recordKeyPrefix = recordKeyPrefix p,
      recordPut = (\<lambda>c i v. world_memory (recordPut p c i v)),
      recordPutMany = (\<lambda>c rs. world_memory (recordPutMany p c rs)),
      recordGet = (\<lambda>c i. world_memory (recordGet p c i)),
      recordDelete = (\<lambda>c i. world_memory (recordDelete p c i)),
      recordList = (\<lambda>c. world_memory (recordList p c)),
      recordClear = (\<lambda>c. world_memory (recordClear p c))\<rparr>)"

definition device_travel :: "bool \<Rightarrow> device repository travel_port" where
  "device_travel full =
     \<lparr>tpEnforcer = (\<lambda>s. deviceEnforcer (world s)),
      tpSetEnforcer = (\<lambda>en s. s\<lparr>world := (world s)\<lparr>deviceEnforcer := en\<rparr>\<rparr>),
      tpGetCache = (\<lambda>acc. get_state (\<lambda>s. js_get (devicePolicies (world s)) acc)),
      tpStoreCache = (\<lambda>c acc. if full then throw (JsError ''the store is full'')
        else put_state (\<lambda>s. s\<lparr>world := (world s)\<lparr>devicePolicies := js_set acc c (devicePolicies (world s))\<rparr>\<rparr>)),
      tpGetVaultKeys = (\<lambda>acc. get_state (\<lambda>s. js_get (deviceKeys (world s)) acc)),
      tpStoreVaultKeys = (\<lambda>ks acc. put_state (\<lambda>s.
        s\<lparr>world := (world s)\<lparr>deviceKeys := js_set acc ks (deviceKeys (world s))\<rparr>\<rparr>)),
      tpRecords = repository_records, tpPurge = None,
      tpNow = (\<lambda>s. deviceClock (world s)), tpParseDate = (\<lambda>_. 0)\<rparr>"

definition device_repository :: "(string \<Rightarrow> device_setup) \<Rightarrow> bool \<Rightarrow> device repository_env" where
  "device_repository ds full =
     \<lparr>replicaEnvFor = (\<lambda>acc email. (device_env (ds acc))\<lparr>envAccountId := acc, envAccountEmail := email\<rparr>),
      travelPort = device_travel full,
      repositoryMetadata = getItemCacheMetadata repository_records,
      normalizeAccountServerUrl = (\<lambda>u. u)\<rparr>"

section \<open>Its ports work on the world\<close>

lemma worldly_basic [simp]:
  "worldly (ok x)" "worldly (throw e)" "worldly (get_state f)" "worldly (world_memory m)"
  by (auto simp: worldly_def under_def act_defs world_memory_def held_def split: prod.splits)

lemma worldly_put: "(\<And>s. held (f s) = held s) \<Longrightarrow> worldly (put_state f)"
  by (simp add: worldly_def under_def put_state_def)

lemma worldly_and_then: "worldly m \<Longrightarrow> (\<And>x. worldly (f x)) \<Longrightarrow> worldly (and_then m f)"
  by (simp add: worldly_def under_seq)

lemma worldly_records [simp]:
  "worldly (recordPut repository_records c i v)" "worldly (recordPutMany repository_records c rs)"
  "worldly (recordGet repository_records c i)" "worldly (recordDelete repository_records c i)"
  "worldly (recordList repository_records c)" "worldly (recordClear repository_records c)"
  by (simp_all add: repository_records_def Let_def)

lemma worldly_state [simp]:
  "worldly (readState repository_records acc)" "worldly (writeState repository_records acc st)"
  by (simp_all add: readState_def writeState_def worldly_and_then)

lemma worldly_if: "worldly m \<Longrightarrow> worldly n \<Longrightarrow> worldly (if b then m else n)"
  by simp

lemma worldly_collections [simp]:
  "worldly (getCachedItems repository_records acc)" "worldly (getCachedVaults repository_records acc)"
  "worldly (setCachedItems repository_records xs acc)" "worldly (setCachedVaults repository_records vs acc)"
  "worldly (getItemCacheMetadata repository_records acc)"
  unfolding getCachedItems_def getCachedVaults_def setCachedItems_def setCachedVaults_def getItemCacheMetadata_def
    readCollection_def replaceCollection_def prime_items_def prime_vaults_def
  by (intro worldly_and_then worldly_if worldly_records worldly_state worldly_basic)+

interpretation device_travel: worldly_travel "device_repository ds full" for ds full
  by unfold_locales
     (auto simp: device_repository_def device_travel_def held_def intro!: worldly_put)

section \<open>Its layers\<close>

lemma repository_port [simp]:
  "recordGet repository_records c i s = (Inr (js_get (bucketFor (deviceMemory (world s)) c) i), s)"
  "recordList repository_records c s = (Inr (bucketFor (deviceMemory (world s)) c), s)"
  by (simp_all add: repository_records_def Let_def world_memory_def createInMemoryRecordPort_def)

definition device_view :: "device repository \<Rightarrow> string \<Rightarrow> bucket" where
  "device_view s = bucketFor (deviceMemory (world s))"

interpretation device_store: readable_store repository_records device_view
  by unfold_locales
     (auto simp: device_view_def repository_records_def Let_def world_memory_def split: prod.splits
       dest: memory.put_ok memory.put_fail memory.put_many_ok memory.put_many_fail memory.get_ok memory.delete_ok
         memory.delete_fail memory.list_ok memory.clear_ok memory.clear_fail
       simp: createInMemoryRecordPort_def act_defs put_many_def fun_eq_iff bucketFor_def split: option.splits)

text \<open>
  The memory layer: the vaults of the decrypted items, the vault views and the vault keys of an
  account's replica. The sealed records it replays commands over (authoritativeItems) and the pending
  commands are not part of it: purgeHiddenVaults drops a sealed record only with the item shown for it.
\<close>

definition shown_vaults :: "device repository \<Rightarrow> string \<Rightarrow> string set" where
  "shown_vaults s acc = (case js_get (repos s) acc of None \<Rightarrow> {} | Some e \<Rightarrow> let r = entryReplica e in
     (itemVaultId \<circ> snd) ` set (repoItems r) \<union> fst ` set (repoVaults r) \<union> fst ` set (vaultKeyEntries r))"

lemma fold_delete_keys: "fst ` set (fold js_delete ks m) = fst ` set m - set ks"
  by (induction ks arbitrary: m) (auto simp: js_keys_delete)

lemma fold_delete_subset: "set (fold js_delete ks m) \<subseteq> set m"
proof (induction ks arbitrary: m)
  case (Cons k ks)
  have "set (js_delete k m) \<subseteq> set m" by (auto simp: AList.delete_eq)
  with Cons [of "js_delete k m"] show ?case by auto
qed simp

lemma purged_vaults:
  assumes "r' = purgeHiddenVaults hidden r"
  shows "((itemVaultId \<circ> snd) ` set (repoItems r') \<union> fst ` set (repoVaults r') \<union> fst ` set (vaultKeyEntries r')) \<inter>
    set hidden = {}"
proof (cases "hidden = []")
  case False
  let ?gone = "map fst (filter (\<lambda>(_, i). itemVaultId i \<in> set hidden) (repoItems r))"
  define left where "left = fold js_delete ?gone (repoItems r)"
  have "itemVaultId (snd e) \<notin> set hidden" if e: "e \<in> set left" for e
  proof
    assume h: "itemVaultId (snd e) \<in> set hidden"
    have "e \<in> set (repoItems r)" using e fold_delete_subset unfolding left_def by (rule rev_subsetD)
    with h have "e \<in> set (filter (\<lambda>(_, i). itemVaultId i \<in> set hidden) (repoItems r))" by (simp add: case_prod_beta)
    then have "fst e \<in> set ?gone" by (simp only: set_map image_eqI)
    moreover have "fst e \<in> fst ` set left" using e by (rule imageI)
    ultimately show False unfolding left_def fold_delete_keys by blast
  qed
  then have "(itemVaultId \<circ> snd) ` set left \<inter> set hidden = {}" by auto
  then have "(itemVaultId \<circ> snd) ` set (fold js_delete ?gone (repoItems r)) \<inter> set hidden = {}" by (simp only: left_def)
  moreover have "repoItems r' = fold js_delete ?gone (repoItems r)"
    "repoVaults r' = fold js_delete hidden (repoVaults r)" "vaultKeyEntries r' = fold js_delete hidden (vaultKeyEntries r)"
    using False assms by (simp_all add: purgeHiddenVaults_def Let_def emit_def)
  ultimately show ?thesis by (simp only: fold_delete_keys Int_Un_distrib2) blast
qed simp

lemma shown_keep:
  "shown_vaults (keepReplica acc e r s) acc =
     (itemVaultId \<circ> snd) ` set (repoItems r) \<union> fst ` set (repoVaults r) \<union> fst ` set (vaultKeyEntries r)"
  by (simp add: shown_vaults_def keepReplica_def with_outside_def Let_def)

lemma shown_emit [simp]: "shown_vaults (emitRepository s) acc = shown_vaults s acc"
  by (simp add: shown_vaults_def emitRepository_def)

lemma shown_held: "held t = held s \<Longrightarrow> shown_vaults t = shown_vaults s"
  by (simp add: held_def shown_vaults_def fun_eq_iff)

lemma purge_effect:
  "world (purgeHiddenVaultsForAccount acc hidden s) = world s \<and>
   shown_vaults (purgeHiddenVaultsForAccount acc hidden s) acc \<inter> set hidden = {}"
proof (cases "js_get (repos s) acc")
  case None
  then show ?thesis
    by (simp add: purgeHiddenVaultsForAccount_def on_entry_def emitRepository_def shown_vaults_def)
next
  case (Some e)
  let ?r = "with_outside (world s) (entryReplica e)"
  have "outside (purgeHiddenVaults hidden ?r) = world s"
    by (simp add: purgeHiddenVaults_def Let_def emit_def with_outside_def)
  with Some purged_vaults [of "purgeHiddenVaults hidden ?r" hidden ?r, OF refl] show ?thesis
    by (simp add: purgeHiddenVaultsForAccount_def on_entry_def shown_keep)
       (simp add: emitRepository_def keepReplica_def)
qed

definition device_keys :: "device repository \<Rightarrow> string \<Rightarrow> vault_key_entry list option" where
  "device_keys s acc = js_get (deviceKeys (world s)) acc"

text \<open>Writing records leaves everything beside the memory.\<close>

definition beside where
  "beside s = (held s, deviceKeys (world s), deviceEnforcer (world s))"

lemma beside_memory: "under (\<lambda>s. beside s = me) (world_memory m) (\<lambda>_. True)"
  by (auto simp: under_def world_memory_def beside_def held_def split: prod.splits)

lemma beside_records:
  "under (\<lambda>s. beside s = me) (recordPut repository_records c i v) (\<lambda>_. True)"
  "under (\<lambda>s. beside s = me) (recordPutMany repository_records c rs) (\<lambda>_. True)"
  "under (\<lambda>s. beside s = me) (recordGet repository_records c i) (\<lambda>_. True)"
  "under (\<lambda>s. beside s = me) (recordClear repository_records c) (\<lambda>_. True)"
  by (simp_all only: repository_records_def Let_def record_port.select_convs beside_memory)

lemma beside_sets:
  "under (\<lambda>s. beside s = me) (setCachedItems repository_records xs acc) (\<lambda>_. True)"
  "under (\<lambda>s. beside s = me) (setCachedVaults repository_records vs acc) (\<lambda>_. True)"
  unfolding setCachedItems_def setCachedVaults_def replaceCollection_def prime_items_def prime_vaults_def
    readState_def writeState_def
  by (intro under_seq under_if under_ok beside_records TrueI)+

lemma beside_fields:
  "beside s = beside t \<Longrightarrow> device_keys s = device_keys t \<and> shown_vaults s = shown_vaults t \<and>
     deviceEnforcer (world s) = deviceEnforcer (world t)"
  using shown_held [of s t] by (simp add: beside_def device_keys_def fun_eq_iff)

lemma beside_frame:
  assumes "\<And>me. under (\<lambda>s. beside s = me) m (\<lambda>_. True)"
  shows "under (\<lambda>s. (device_keys s, shown_vaults s, deviceEnforcer (world s)) = me) m (\<lambda>_. True)"
proof (rule underI, intro conjI allI impI TrueI)
  fix s r t assume s: "(device_keys s, shown_vaults s, deviceEnforcer (world s)) = me" and run: "m s = (r, t)"
  have "beside t = beside s" using underD [OF assms run, of "beside s"] by simp
  from beside_fields [OF this] s show "(device_keys t, shown_vaults t, deviceEnforcer (world t)) = me" by simp
qed

lemma device_travel_fields [simp]:
  "tpEnforcer (travelPort (device_repository ds full)) s = deviceEnforcer (world s)"
  "tpSetEnforcer (travelPort (device_repository ds full)) en s = s\<lparr>world := (world s)\<lparr>deviceEnforcer := en\<rparr>\<rparr>"
  "tpGetCache (travelPort (device_repository ds full)) acc = get_state (\<lambda>s. js_get (devicePolicies (world s)) acc)"
  "tpStoreCache (travelPort (device_repository ds full)) c acc =
     (if full then throw (JsError ''the store is full'')
      else put_state (\<lambda>s. s\<lparr>world := (world s)\<lparr>devicePolicies := js_set acc c (devicePolicies (world s))\<rparr>\<rparr>))"
  "tpGetVaultKeys (travelPort (device_repository ds full)) acc = get_state (\<lambda>s. device_keys s acc)"
  "tpStoreVaultKeys (travelPort (device_repository ds full)) ks acc =
     put_state (\<lambda>s. s\<lparr>world := (world s)\<lparr>deviceKeys := js_set acc ks (deviceKeys (world s))\<rparr>\<rparr>)"
  "tpRecords (travelPort (device_repository ds full)) = repository_records"
  by (simp_all add: device_repository_def device_travel_def device_keys_def)

lemma world_parts [simp]:
  "device_view (s\<lparr>world := w\<rparr>) = bucketFor (deviceMemory w)"
  "device_keys (s\<lparr>world := w\<rparr>) acc = js_get (deviceKeys w) acc"
  "shown_vaults (s\<lparr>world := w\<rparr>) = shown_vaults s"
  by (simp_all add: device_view_def device_keys_def shown_vaults_def fun_eq_iff)

lemma world_purged:
  "device_view (purgeHiddenVaultsForAccount a hidden s) = device_view s"
  "device_keys (purgeHiddenVaultsForAccount a hidden s) = device_keys s"
  "deviceEnforcer (world (purgeHiddenVaultsForAccount a hidden s)) = deviceEnforcer (world s)"
  using purge_effect [of a hidden s] by (simp_all add: device_view_def device_keys_def fun_eq_iff)

interpretation device_layers: travel_layers "repositoryTravel (device_repository ds full)" device_view device_keys shown_vaults
  for ds full
proof (rule travel_layers.intro, goal_cases)
  case 1
  show ?case by (simp add: device_store.readable_store_axioms)
next
  case (2 me xs a)
  show ?case by (simp add: beside_frame [OF beside_sets(1)])
next
  case (3 me vs a)
  show ?case by (simp add: beside_frame [OF beside_sets(2)])
next
  case 6
  show ?case using purge_effect world_purged by simp
qed (auto simp: under_def act_defs device_view_def device_keys_def fun_eq_iff)

end
