(* ===== verification/ReplicaSteps.thy ===== *)
theory ReplicaSteps
  imports ReplicaDevice
begin

text \<open>
  The replica as a state machine: a step is one of its calls returning, or anything else in the
  client changing. Every state reached from an empty replica shows its projection.
\<close>

section \<open>Steps\<close>

inductive replica_step ::
  "'w replica_env \<Rightarrow> ('w \<Rightarrow> bool) \<Rightarrow> opener \<Rightarrow> 'w replica \<Rightarrow> 'w replica \<Rightarrow> bool"
  for env :: "'w replica_env" and sound :: "'w \<Rightarrow> bool" and plain :: opener where
  outer: "own t = own s \<Longrightarrow> sound (outside t) \<Longrightarrow> replica_step env sound plain s t"
| hydrating: "hydrate env s = (Inr u, t) \<Longrightarrow> replica_step env sound plain s t"
| bootstrapping: "calm_client sound client \<Longrightarrow> hydrateFromServer fuel env client s = (Inr c, t) \<Longrightarrow>
    replica_step env sound plain s t"
| upserting: "upsertEncrypted env x acc s = (Inr u, t) \<Longrightarrow> replica_step env sound plain s t"
| removing: "replicaRemoveCachedItem env i acc s = (Inr u, t) \<Longrightarrow> replica_step env sound plain s t"
| upserting_vault: "replicaUpsertCachedVault env v acc s = (Inr u, t) \<Longrightarrow> replica_step env sound plain s t"
| removing_vault: "none_leaving vid s \<Longrightarrow> replicaRemoveCachedVault env vid acc s = (Inr u, t) \<Longrightarrow>
    replica_step env sound plain s t"
| syncing_keys: "syncVaultKeys env ks acc s = (Inr u, t) \<Longrightarrow> replica_step env sound plain s t"
| clearing: "t = clearReplica s \<Longrightarrow> replica_step env sound plain s t"
| clearing_cache: "replicaClearItemCache env acc s = (Inr u, t) \<Longrightarrow> replica_step env sound plain s t"
| purging: "t = purgeHiddenVaults hidden s \<Longrightarrow> replica_step env sound plain s t"
| applying: "agrees s c \<Longrightarrow> command_wf c \<Longrightarrow> applyItemCommand env c s = (Inr u, t) \<Longrightarrow>
    replica_step env sound plain s t"
| discarding: "agrees s c \<Longrightarrow> cache_current env c s \<Longrightarrow>
    discardItemCommandAcknowledgedElsewhere env c s = (Inr u, t) \<Longrightarrow> replica_step env sound plain s t"
| preserving: "agrees s c \<Longrightarrow> preserveItemConflict env c s = (Inr copy, t) \<Longrightarrow> replica_step env sound plain s t"
| acknowledging: "agrees s c \<Longrightarrow> ackEntityId a = entityId c \<Longrightarrow>
    acknowledgeItemCommand env c a s = (Inr u, t) \<Longrightarrow> replica_step env sound plain s t"
| editing: "commandsForItem s (diId x) = [] \<Longrightarrow>
    plain (sealed_part (local_edit env s x p)) = Some (riContent (local_edit env s x p)) \<Longrightarrow>
    upsertLocal env x p s = (Inr u, t) \<Longrightarrow> replica_step env sound plain s t"
| soft_deleting: "commandsForItem s i = [] \<Longrightarrow> softDelete env i s = (Inr u, t) \<Longrightarrow> replica_step env sound plain s t"
| restoring: "commandsForItem s i = [] \<Longrightarrow> restoreItem env i s = (Inr u, t) \<Longrightarrow> replica_step env sound plain s t"
| marking: "commandsForItem s i = [] \<Longrightarrow> updateFavorite env i f s = (Inr u, t) \<Longrightarrow> replica_step env sound plain s t"
| moving: "commandsForItem s i = [] \<Longrightarrow>
    (\<And>ri. js_get (repoItems s) i = Some ri \<Longrightarrow>
       plain (sealed_part (moved_item env target p content s ri)) =
         Some (riContent (moved_item env target p content s ri))) \<Longrightarrow>
    moveItem env i target p content s = (Inr u, t) \<Longrightarrow> replica_step env sound plain s t"
| deleting: "removeItem env i s = (Inr u, t) \<Longrightarrow> replica_step env sound plain s t"
| renaming: "replaceItemId env tmp real s = (Inr u, t) \<Longrightarrow> replica_step env sound plain s t"

definition replica_start :: "('w \<Rightarrow> bool) \<Rightarrow> 'w replica \<Rightarrow> bool" where
  "replica_start sound r = (repoItems r = [] \<and> authoritativeItems r = [] \<and> pendingCommands r = [] \<and>
     sound (outside r))"

lemma start_good: "calm_env env sound plain \<Longrightarrow> replica_start sound r \<Longrightarrow> calm_env.ok_except env sound plain {} r"
  by (simp add: calm_env.ok_except_def replica_start_def pending_ok_def)

lemma step_good:
  assumes env: "calm_env env sound plain"
  shows "replica_step env sound plain s t \<Longrightarrow> calm_env.ok_except env sound plain {} s \<Longrightarrow>
     calm_env.ok_except env sound plain {} t"
proof (induction rule: replica_step.induct)
  case (outer t s)
  show ?case
    by (rule calm_env.ok_except_cong [OF env outer(3)])
       (use outer(1,2) in \<open>simp_all only: own_eq\<close>)
next
  case hydrating
  show ?case by (rule leadsD [OF calm_env.hydrate_leads [OF env] hydrating(2,1)])
next
  case bootstrapping
  show ?case
    by (rule leadsD [OF calm_env.bootstrap_leads [OF env bootstrapping(1)] bootstrapping(3,2)])
next
  case upserting
  show ?case by (rule leadsD [OF calm_env.upsert_leads [OF env] upserting(2,1)])
next
  case removing
  show ?case by (rule leadsD [OF calm_env.remove_cached_leads [OF env] removing(2,1)])
next
  case upserting_vault
  show ?case by (rule leadsD [OF calm_env.upsert_vault_leads [OF env] upserting_vault(2,1)])
next
  case removing_vault
  show ?case
    by (rule leadsD [OF calm_env.remove_vault_leads [OF env] conjI removing_vault(2)])
       (rule removing_vault)+
next
  case syncing_keys
  show ?case by (rule leadsD [OF calm_env.sync_keys_leads [OF env] syncing_keys(2,1)])
next
  case clearing
  then show ?case using calm_env.clear_good [OF env] by blast
next
  case clearing_cache
  show ?case by (rule leadsD [OF calm_env.clear_cache_leads [OF env] clearing_cache(2,1)])
next
  case purging
  then show ?case using calm_env.purge_good [OF env] by blast
next
  case (applying s c)
  show ?case
    by (rule leadsD [OF calm_env.apply_command_leads [OF env, of c] _ applying(3)])
       (use applying in blast)
next
  case (discarding s c)
  show ?case
    by (rule leadsD [OF calm_env.discard_leads [OF env, of c] _ discarding(3)])
       (use discarding in blast)
next
  case (preserving s c)
  show ?case
    by (rule leadsD [OF calm_env.preserve_leads [OF env, of c] _ preserving(2)])
       (use preserving in blast)
next
  case (acknowledging s c a)
  show ?case
    by (rule leadsD [OF calm_env.acknowledge_leads [OF env acknowledging(2)] _ acknowledging(3)])
       (use acknowledging in blast)
next
  case (editing s x p)
  show ?case
    by (rule leadsD [OF calm_env.upsert_local_leads [OF env, of x p] _ editing(3)]) (use editing in simp)
next
  case (soft_deleting s i)
  show ?case
    by (rule leadsD [OF calm_env.direct_edit_leads(1) [OF env, of i] _ soft_deleting(2)]) (use soft_deleting in simp)
next
  case (restoring s i)
  show ?case
    by (rule leadsD [OF calm_env.direct_edit_leads(2) [OF env, of i] _ restoring(2)]) (use restoring in simp)
next
  case (marking s i f)
  show ?case
    by (rule leadsD [OF calm_env.direct_edit_leads(3) [OF env, of i f] _ marking(2)]) (use marking in simp)
next
  case (moving s i target p content)
  show ?case
    by (rule leadsD [OF calm_env.move_leads [OF env, of i target p content] _ moving(3)]) (use moving in simp)
next
  case deleting
  show ?case by (rule leadsD [OF calm_env.remove_item_leads [OF env] deleting(2,1)])
next
  case renaming
  show ?case by (rule leadsD [OF calm_env.replace_id_leads [OF env] renaming(2,1)])
qed

lemma steps_good:
  assumes env: "calm_env env sound plain"
  shows "(replica_step env sound plain)\<^sup>*\<^sup>* s t \<Longrightarrow> calm_env.ok_except env sound plain {} s \<Longrightarrow>
     calm_env.ok_except env sound plain {} t"
  by (induction rule: rtranclp_induct) (auto intro: step_good [OF env])

section \<open>Acknowledgements\<close>

text \<open>What a reader sees of a record, but for its version.\<close>

definition readable :: "cached_item \<Rightarrow> item_fields \<times> string option \<times> attachment list option" where
  "readable x = looks_of (x\<lparr>itemVersion := 0\<rparr>)"

definition projected_readable where
  "projected_readable env r i = map_sum (\<lambda>e. e) (map_option readable) (projection env r i)"

lemma readable_cong: "looks_of x = looks_of y \<Longrightarrow> readable x = readable y"
  by (simp add: readable_def looks_eq_iff truncate_eq_iff)

lemma readable_version [simp]: "readable (x\<lparr>itemVersion := n\<rparr>) = readable x"
  by (simp add: readable_def)

abbreviation at_version :: "int \<Rightarrow> cached_item option \<Rightarrow> cached_item option" where
  "at_version n \<equiv> map_option (\<lambda>x. x\<lparr>itemVersion := n\<rparr>)"

lemma apply_version:
  "applyCommandToCachedItem env r (at_version n b) c =
     map_sum (\<lambda>e. e) (at_version n) (applyCommandToCachedItem env r b c) \<or>
   applyCommandToCachedItem env r (at_version n b) c = applyCommandToCachedItem env r b c"
  by (cases b; cases "commandType c")
     (auto simp: applyCommandToCachedItem_def Let_def resealed_item_def withEncryptedPayload_def
       split: option.splits)

lemma replay_version:
  "map_sum (\<lambda>e. e) (map_option readable) (replay env r (at_version n b) cs) =
   map_sum (\<lambda>e. e) (map_option readable) (replay env r b cs)"
proof (induction cs arbitrary: b)
  case Nil
  then show ?case by (cases b) simp_all
next
  case (Cons c cs)
  show ?case
    using apply_version [of env r n b c] Cons
    by (cases "applyCommandToCachedItem env r b c") auto
qed

lemma readable_of_looks:
  assumes "look_sum p = look_sum q"
  shows "map_sum (\<lambda>e. e) (map_option readable) p = map_sum (\<lambda>e. e) (map_option readable) q"
proof (cases p)
  case (Inl e)
  with assms show ?thesis by (cases q) simp_all
next
  case (Inr x)
  with assms obtain y where y: "q = Inr y" "map_option looks_of x = map_option looks_of y" by (cases q) simp_all
  have "map_option readable x = map_option readable y"
  proof (cases x)
    case None
    with y show ?thesis by simp
  next
    case (Some a)
    with y obtain b where b: "y = Some b" "looks_of a = looks_of b"
      by (cases y) auto
    show ?thesis using Some b(1) readable_cong [OF b(2)] by simp
  qed
  with Inr y show ?thesis by simp
qed

definition repo_readable :: "repo_item \<Rightarrow> item_fields \<times> string option \<times> attachment list option" where
  "repo_readable x = repo_looks (x\<lparr>itemVersion := 0\<rparr>)"

lemma readable_repo: "looks_of a = repo_looks x \<Longrightarrow> readable a = repo_readable x"
  by (simp add: readable_def repo_readable_def looks_of_def repo_looks_def truncate_eq_iff)

lemma readable_sealed: "readable a = repo_readable x \<Longrightarrow> sealed_part a = sealed_part x"
  "repo_readable y = repo_readable x \<Longrightarrow> sealed_part y = sealed_part x"
  by (simp_all add: readable_def repo_readable_def looks_of_def repo_looks_def truncate_eq_iff sealed_part_def
      storedItemData_def buildStoredItemEncryptionContext_def)

lemma looked:
  assumes "look_sum p = Inr (Some l)"
  obtains a where "p = Inr (Some a)" "looks_of a = l"
  using assms by (cases p) auto

lemma shown_projected:
  assumes x: "shown_ok plain env r e x" and same: "projected_readable env s e = projected_readable env r e"
  shows "\<exists>z. projection env s e = Inr (Some z) \<and> readable z = repo_readable x \<and> sealed_part z = sealed_part x"
proof -
  obtain a where a: "projection env r e = Inr (Some a)" "looks_of a = repo_looks x"
    using x looked unfolding shown_ok_def projected_looks_def by metis
  have "map_sum (\<lambda>e. e) (map_option readable) (projection env s e) = Inr (Some (repo_readable x))"
    using same a by (simp add: projected_readable_def readable_repo)
  then obtain z where "projection env s e = Inr (Some z)" "readable z = repo_readable x"
    by (cases "projection env s e") auto
  then show ?thesis using readable_sealed(1) by blast
qed

lemma shown_readable:
  assumes x: "shown_ok plain env r e x" and y: "shown_ok plain env t e y"
    and same: "projected_readable env t e = projected_readable env r e"
  shows "repo_readable y = repo_readable x \<and> riContent y = riContent x"
proof -
  obtain z where z: "projection env t e = Inr (Some z)" "readable z = repo_readable x"
    using shown_projected [OF x same] by blast
  have "looks_of z = repo_looks y" using y z(1) by (simp add: shown_ok_def projected_looks_def)
  then have eq: "repo_readable y = repo_readable x" using z(2) readable_repo by metis
  moreover have "riContent y = riContent x"
    using x y readable_sealed(2) [OF eq] by (simp add: shown_ok_def)
  ultimately show ?thesis ..
qed

lemma first_agrees:
  assumes w: "pending_ok (pendingCommands r)" and cs: "commandsForItem r (entityId c) = c # cs"
  shows "agrees r c"
proof -
  have "c \<in> set (commandsForItem r (entityId c))" using cs by simp
  then have "c \<in> set (map snd (pendingCommands r))" by (simp add: commandsForItem_def)
  then obtain k where k: "(k, c) \<in> set (pendingCommands r)" by auto
  with w have "js_get (pendingCommands r) (opId c) = Some c" by (auto simp: pending_ok_def list_all_iff)
  then show ?thesis by (simp add: agrees_def)
qed

section \<open>Settling the first command\<close>

lemma pending_dropped:
  assumes "pending_ok p"
  shows "map snd (js_delete k p) = filter (\<lambda>d. opId d \<noteq> k) (map snd p)"
  using assms by (induction p) (auto simp: pending_ok_def)

lemma command_ids_distinct:
  assumes "pending_ok (pendingCommands r)"
  shows "distinct (map opId (commandsForItem r e))"
proof -
  have "map opId (map snd p) = map fst p" if "pending_ok p" for p
    using that by (induction p) (auto simp: pending_ok_def)
  from this [OF assms] have "distinct (map opId (map snd (pendingCommands r)))"
    using assms by (simp only: pending_ok_def)
  then have "inj_on opId (set (map snd (pendingCommands r)))" "distinct (map snd (pendingCommands r))"
    by (simp_all only: distinct_map)
  then show ?thesis
    unfolding commandsForItem_def
    by (auto simp: distinct_map intro: inj_on_subset)
qed

lemma settled_commands:
  assumes "pending_ok (pendingCommands r)" and "commandsForItem r e = c # cs"
  shows "commandsForItem (dropPending c r) e = cs"
proof -
  have "commandsForItem (dropPending c r) e = filter (\<lambda>d. opId d \<noteq> opId c) (commandsForItem r e)"
    unfolding commandsForItem_def dropPending_def
    by (simp add: pending_dropped [OF assms(1)] filter_sort [symmetric] conj_commute)
  also have "\<dots> = cs"
  proof -
    have "opId d \<noteq> opId c" if "d \<in> set cs" for d
      using command_ids_distinct [OF assms(1), of e] that unfolding assms(2)
      by (metis distinct.simps(2) list.simps(9) image_eqI set_map)
    then show ?thesis unfolding assms(2) by (simp add: filter_True)
  qed
  finally show ?thesis .
qed

lemma projected_readable_cong:
  assumes "map_option looks_of (js_get (authoritativeItems r) i) =
           map_option looks_of (js_get (authoritativeItems r') i)"
    and "commandsForItem r i = commandsForItem r' i"
  shows "projected_readable env r i = projected_readable env r' i"
  unfolding projected_readable_def
  by (rule readable_of_looks, rule projected_looks_cong [unfolded projected_looks_def, OF assms])

text \<open>The replay that is left once the first command has been applied, at whatever version.\<close>

lemma settled_projection:
  assumes base: "js_get (authoritativeItems r) e = b" and cs: "commandsForItem r e = c # cs"
    and one: "applyCommandToCachedItem env r0 b c = Inr b'"
    and base': "js_get (authoritativeItems r') e = at_version n b' \<or> js_get (authoritativeItems r') e = b'"
    and cs': "commandsForItem r' e = cs"
  shows "projected_readable env r' e = projected_readable env r e"
proof -
  have "projected_readable env r e = map_sum (\<lambda>e. e) (map_option readable) (replay env r0 b (c # cs))"
    unfolding projected_readable_def projection_def base cs by (rule readable_of_looks, rule replay_looks) simp
  also have "\<dots> = map_sum (\<lambda>e. e) (map_option readable) (replay env r0 b' cs)"
    using one by simp
  also have "\<dots> = map_sum (\<lambda>e. e) (map_option readable) (replay env r0 (js_get (authoritativeItems r') e) cs)"
    using base' replay_version [of env r0 n b' cs] by auto
  also have "\<dots> = projected_readable env r' e"
    unfolding projected_readable_def projection_def cs' by (rule readable_of_looks, rule replay_looks) simp
  finally show ?thesis by simp
qed

text \<open>The rebuild that runs in s does not install the record: the account is locked, or it does not open.\<close>

definition not_installed :: "'w replica_env \<Rightarrow> string \<Rightarrow> cached_item \<Rightarrow> 'w replica \<Rightarrow> bool" where
  "not_installed env i x s \<longleftrightarrow> fst (isLocked env s) = Inr True \<or>
     (\<exists>s1. isLocked env s = (Inr False, s1) \<and>
        fst (project_decrypted env i (hydrationGeneration s) x s1) \<noteq> Inr True)"

context calm_env
begin

lemma rebuild_keeps:
  assumes "rebuildItemProjection env i s = (Inr u, t)" and "ok_except S s"
  shows "authoritativeItems t = authoritativeItems s \<and> pendingCommands t = pendingCommands s"
proof -
  have sd: "sound (outside s)" and w: "pending_ok (pendingCommands s)" using assms(2) by (auto simp: ok_except_def)
  obtain p where "projection env s i = Inr p" using projection_wf [OF w] by blast
  with rebuild_effect [OF sd this] assms(1) show ?thesis by (auto simp: rebuilt_def own_eq)
qed

lemma persist_keeps:
  assumes "persistItem env x s = (Inr u, t)" and "ok_except S s"
  shows "own t = own s \<and> ok_except S t"
proof -
  have "calm sound (own s) t" using underD [OF persist_calm assms(1), of "own s"] assms(2)
    by (simp add: calm_def ok_except_def)
  with assms(2) show ?thesis by (auto simp: calm_def own_eq intro: ok_except_cong)
qed

text \<open>The authoritative records and the commands an acknowledgement leaves.\<close>

lemma acknowledged_state:
  assumes good: "good r" and ag: "agrees r c"
    and mine: "isForThisAccount env (accountId c)" and version: "ackVersion a = Some v"
    and entity: "ackEntityId a = entityId c"
    and kind: "commandType c \<noteq> CrossAccountMove" "commandType c \<noteq> PermanentDelete"
    and older: "\<And>b. js_get (authoritativeItems r) (entityId c) = Some b \<Longrightarrow> itemVersion b < v"
    and run: "acknowledgeItemCommand env c a r = (Inr u, t)"
  obtains b' s2 where
    "applyCommandToCachedItem env (dropPending c r) (js_get (authoritativeItems r) (entityId c)) c = Inr b'"
    "authoritativeItems t = (case b' of None \<Rightarrow> authoritativeItems r
       | Some x \<Rightarrow> js_set (entityId c) (x\<lparr>itemId := entityId c, itemVersion := v\<rparr>) (authoritativeItems r))"
    "pendingCommands t = js_delete (opId c) (pendingCommands r)"
    "rebuildItemProjection env (entityId c) s2 = (Inr u, t)" "ok_except {entityId c} s2" "repoItems s2 = repoItems r"
proof -
  let ?r0 = "dropPending c r" and ?e = "entityId c"
  have r0: "ok_except {?e} ?r0" using good ag by (auto intro: ok_dropPending [OF good_except])
  have auth: "authoritativeItems ?r0 = authoritativeItems r"
    and pend: "pendingCommands ?r0 = js_delete (opId c) (pendingCommands r)"
    by (simp_all add: dropPending_def)
  have fresh: "\<not> (case js_get (authoritativeItems ?r0) ?e of None \<Rightarrow> False | Some b \<Rightarrow> itemVersion b \<ge> v)"
    using older by (auto simp: auth split: option.split)
  obtain b' where b': "applyCommandToCachedItem env ?r0 (js_get (authoritativeItems r) ?e) c = Inr b'"
    using run fresh mine version entity kind
    by (cases "applyCommandToCachedItem env ?r0 (js_get (authoritativeItems r) ?e) c")
       (auto simp: acknowledgeItemCommand_def acknowledged_item_def Let_def act_defs auth)
  have ack: "acknowledged_item env ?r0 c ?e v = Inr (map_option (\<lambda>x. x\<lparr>itemId := ?e, itemVersion := v\<rparr>) b')"
    using fresh b' by (simp add: acknowledged_item_def Let_def auth)
  show thesis
  proof (cases b')
    case None
    then have rb: "rebuildItemProjection env ?e ?r0 = (Inr u, t)"
      using run ack mine version entity kind by (simp add: acknowledgeItemCommand_def act_defs)
    show thesis
      by (rule that [OF b' _ _ rb r0]) (use rebuild_keeps [OF rb r0] None in \<open>simp_all add: auth pend dropPending_def\<close>)
  next
    case (Some x)
    let ?x = "x\<lparr>itemId := ?e, itemVersion := v\<rparr>"
    let ?r1 = "setAuthoritative ?e ?x ?r0"
    have r1: "ok_except {?e} ?r1" by (rule ok_setAuthoritative [OF r0]) simp_all
    obtain w s2 where p: "persistItem env ?x ?r1 = (Inr w, s2)"
      and rb: "rebuildItemProjection env ?e s2 = (Inr u, t)"
      using run ack mine version entity kind Some
      by (auto simp: acknowledgeItemCommand_def act_defs split: prod.splits sum.splits)
    have s2: "own s2 = own ?r1" "ok_except {?e} s2" using persist_keeps [OF p r1] by auto
    show thesis
      by (rule that [OF b' _ _ rb s2(2)])
         (use rebuild_keeps [OF rb s2(2)] s2(1) Some in
           \<open>simp_all add: own_eq setAuthoritative_def auth pend dropPending_def\<close>)
  qed
qed

lemma applied_id:
  assumes "applyCommandToCachedItem env r b c = Inr (Some x)"
    and "\<And>y. b = Some y \<Longrightarrow> itemId y = entityId c"
  shows "itemId x = entityId c"
  using assms
  by (cases "commandType c"; cases b)
     (auto simp: applyCommandToCachedItem_def created_item_def resealed_item_def Let_def split: option.splits bool.splits)

lemma acknowledged_readable:
  assumes good: "good r" and cs: "commandsForItem r (entityId c) = c # cs"
    and mine: "isForThisAccount env (accountId c)" and version: "ackVersion a = Some v"
    and entity: "ackEntityId a = entityId c"
    and kind: "commandType c \<noteq> CrossAccountMove" "commandType c \<noteq> PermanentDelete"
    and older: "\<And>b. js_get (authoritativeItems r) (entityId c) = Some b \<Longrightarrow> itemVersion b < v"
    and run: "acknowledgeItemCommand env c a r = (Inr u, t)"
  shows "projected_readable env t i = projected_readable env r i"
proof -
  have w: "pending_ok (pendingCommands r)" and ao: "auth_ok (authoritativeItems r)"
    using good by (simp_all add: ok_except_def)
  have ag: "agrees r c" by (rule first_agrees [OF w cs])
  obtain b' s2 where b': "applyCommandToCachedItem env (dropPending c r)
      (js_get (authoritativeItems r) (entityId c)) c = Inr b'"
    and auth: "authoritativeItems t = (case b' of None \<Rightarrow> authoritativeItems r
       | Some x \<Rightarrow> js_set (entityId c) (x\<lparr>itemId := entityId c, itemVersion := v\<rparr>) (authoritativeItems r))"
    and pend: "pendingCommands t = js_delete (opId c) (pendingCommands r)"
    by (rule acknowledged_state [OF good ag mine version entity kind older run])
  have cmds: "commandsForItem t j = commandsForItem (dropPending c r) j" for j
    by (rule commands_cong) (simp add: pend dropPending_def)
  show ?thesis
  proof (cases "i = entityId c")
    case True
    have left: "commandsForItem t i = cs" using settled_commands [OF w cs] by (simp add: cmds True)
    show ?thesis
    proof (cases b')
      case None
      have "js_get (authoritativeItems r) i = None"
        using b' None True by (cases "commandType c"; cases "js_get (authoritativeItems r) (entityId c)")
          (auto simp: applyCommandToCachedItem_def created_item_def resealed_item_def Let_def kind
            split: option.splits bool.splits)
      with None auth have "js_get (authoritativeItems t) i = b'" by simp
      then show ?thesis
        using settled_projection [of r i _ c cs env "dropPending c r" b' t v] b' cs left True by simp
    next
      case (Some x)
      have "itemId x = entityId c"
        by (rule applied_id [OF b' [unfolded Some]])
           (use ao in \<open>auto simp: auth_ok_def list_all_iff dest: map_of_SomeD\<close>)
      then have "js_get (authoritativeItems t) i = at_version v b'"
        using auth Some True by simp
      then show ?thesis
        using settled_projection [of r i _ c cs env "dropPending c r" b' t v] b' cs left True by simp
    qed
  next
    case False
    have "js_get (authoritativeItems t) i = js_get (authoritativeItems r) i"
      using auth False by (auto split: option.split)
    moreover have "commandsForItem t i = commandsForItem r i"
      using commands_drop [OF ag w False] by (simp add: cmds)
    ultimately show ?thesis by (intro projected_readable_cong) simp_all
  qed
qed

text \<open>
  What the call leaves shown: every other item as it was, and the acknowledged one as it was but for
  its version, unless the account was locked by then or the record could not be opened.
\<close>

lemma rebuild_drops:
  assumes sd: "sound (outside s)" and p: "projection env s i = Inr (Some x)"
    and run: "rebuildItemProjection env i s = (Inr u, t)" and gone: "js_get (repoItems t) i = None"
  shows "not_installed env i x s"
proof -
  obtain b s1 where b: "isLocked env s = (Inr b, s1)" and s1: "own s1 = own s" "sound (outside s1)"
    using is_locked_answers [OF sd] by blast
  obtain res s2 where body: "project_decrypted env i (hydrationGeneration s) x s1 = (res, s2)" by fastforce
  have "res \<noteq> Inr True" if "\<not> b"
  proof
    assume ok: "res = Inr True"
    have t: "t = emit s2" using run p b that body ok by (simp add: rebuildItemProjection_def act_defs)
    obtain ri s3 where "s2 = showItem i ri s3"
      using body ok by (auto simp: project_decrypted_def act_defs split: prod.splits sum.splits if_splits)
    then show False using gone t by (simp add: showItem_def)
  qed
  then show ?thesis using b body by (cases b) (auto simp: not_installed_def)
qed

lemma acknowledged_shown:
  assumes good: "good r" and cs: "commandsForItem r (entityId c) = c # cs"
    and mine: "isForThisAccount env (accountId c)" and version: "ackVersion a = Some v"
    and entity: "ackEntityId a = entityId c"
    and kind: "commandType c \<noteq> CrossAccountMove" "commandType c \<noteq> PermanentDelete"
    and older: "\<And>b. js_get (authoritativeItems r) (entityId c) = Some b \<Longrightarrow> itemVersion b < v"
    and run: "acknowledgeItemCommand env c a r = (Inr u, t)"
  shows "i \<noteq> entityId c \<Longrightarrow> js_get (repoItems t) i = js_get (repoItems r) i"
    and "js_get (repoItems r) (entityId c) = Some x \<Longrightarrow> js_get (repoItems t) (entityId c) = Some y \<Longrightarrow>
      repo_readable y = repo_readable x \<and> riContent y = riContent x"
    and "js_get (repoItems r) (entityId c) = Some x \<Longrightarrow> js_get (repoItems t) (entityId c) = None \<Longrightarrow>
      \<exists>s z. rebuildItemProjection env (entityId c) s = (Inr u, t) \<and> sealed_part z = sealed_part x \<and>
        not_installed env (entityId c) z s"
proof -
  let ?e = "entityId c"
  have w: "pending_ok (pendingCommands r)" using good by (simp add: ok_except_def)
  have ag: "agrees r c" by (rule first_agrees [OF w cs])
  obtain b' s2 where rb: "rebuildItemProjection env ?e s2 = (Inr u, t)" and s2: "ok_except {?e} s2"
    and items: "repoItems s2 = repoItems r"
    by (rule acknowledged_state [OF good ag mine version entity kind older run])
  have sd: "sound (outside s2)" and w2: "pending_ok (pendingCommands s2)" using s2 by (auto simp: ok_except_def)
  obtain p where p: "projection env s2 ?e = Inr p" using projection_wf [OF w2] by blast
  have shape: "rebuilt ?e p s2 t" using rebuild_effect [OF sd p] rb by auto
  show "js_get (repoItems t) i = js_get (repoItems r) i" if "i \<noteq> ?e"
    using shape that by (auto simp: rebuilt_def items)
  have t: "good t" using leadsD [OF acknowledge_leads [OF entity] _ run] good ag by blast
  have same: "projected_readable env t ?e = projected_readable env r ?e"
    by (rule acknowledged_readable [OF good cs mine version entity kind older run])
  have t2: "projected_readable env s2 ?e = projected_readable env t ?e"
    by (rule projected_readable_cong, use rebuild_keeps [OF rb s2] in simp)
       (rule commands_cong, use rebuild_keeps [OF rb s2] in simp)
  show "repo_readable y = repo_readable x \<and> riContent y = riContent x"
    if x: "js_get (repoItems r) ?e = Some x" and y: "js_get (repoItems t) ?e = Some y"
  proof -
    have "shown_ok plain env r ?e x" "shown_ok plain env t ?e y" using good t x y by (auto simp: ok_except_def)
    then show ?thesis using shown_readable [of plain env r ?e x t y] same by blast
  qed
  assume x: "js_get (repoItems r) ?e = Some x" and gone: "js_get (repoItems t) ?e = None"
  have "shown_ok plain env r ?e x" using good x by (simp add: ok_except_def)
  then obtain z where z: "p = Some z" "sealed_part z = sealed_part x"
    using shown_projected [of plain env r ?e x s2] same t2 p by auto
  show "\<exists>s z. rebuildItemProjection env ?e s = (Inr u, t) \<and> sealed_part z = sealed_part x \<and> not_installed env ?e z s"
    using rb z(2) rebuild_drops [OF sd _ rb gone] p z(1) by blast
qed

end

end
