(* ===== verification/ReplicaClaims.thy ===== *)
theory ReplicaClaims
  imports ReplicaSteps
begin

text \<open>
  What AccountVaultReplica promises, with a small device on which each promise is applied.
\<close>

section \<open>A device with one vault\<close>

definition demo_setup :: device_setup where
  "demo_setup = \<lparr>dsAccount = ''a'', dsUser = ''u'',
     dsReading = (\<lambda>(d, cx). Some [(''title'', edCiphertext d)]),
     dsOpens = (\<lambda>k d cx. k = ''K'' \<and> ecVaultId cx = ''v''),
     dsEnvelopes = (\<lambda>t. if t = ''wrapped'' then Some
        \<lparr>wkData = \<lparr>edCiphertext = ''K'', edIv = [], edAlgorithm = []\<rparr>,
         wkContext = Some \<lparr>wcVaultId = ''v'', wcUserId = ''u'', wcKeyVersion = Some 1,
           wcPurpose = VAULT_KEY_WRAP_PURPOSE\<rparr>\<rparr> else None),
     dsSeal = (\<lambda>p k cx. case p of JsonText [(f, t)] \<Rightarrow>
        Some \<lparr>edCiphertext = t, edIv = ''iv'', edAlgorithm = ''gcm''\<rparr> | _ \<Rightarrow> None)\<rparr>"

definition demo_device :: device where
  "demo_device = \<lparr>deviceMemory = [],
     deviceKeys = [(''a'', [\<lparr>vkVaultId = ''v'', vkVaultName = ''V'', vkVaultType = PersonalVault,
       vkVaultIcon = None, vkVaultImageUrl = None, vkEncryptedVaultKey = ''wrapped'',
       vkRole = OwnerRole\<rparr>])],
     deviceMuks = [(''a'', ''muk'')],
     deviceEnforcer = \<lparr>memoryCache = [(''a'', \<lparr>tmEnabled = True, tmHiddenVaultIds = [''h''],
       tmEnabledAt = None, tmUpdatedAt = None\<rparr>)], verifiedAccounts = [''a'']\<rparr>,
     devicePolicies = [], deviceClock = 0\<rparr>"

definition demo_replica :: "device replica" where
  "demo_replica = \<lparr>repoItems = [], authoritativeItems = [], pendingCommands = [], repoVaults = [],
     vaultKeyEntries = [], repoSnapshot = 0, hydrated = False, hydrating = False,
     hydrationGeneration = 0, hasCacheSnapshotFlag = False, repoServerUrl = None,
     outside = demo_device\<rparr>"

definition demo_command :: "string \<Rightarrow> command_type \<Rightarrow> string \<Rightarrow> command" where
  "demo_command oid kind text =
     \<lparr>accountId = ''a'', accountEmail = None, commandId = oid, operationId = Some oid,
      attemptId = None, commandType = kind, entityId = ''i'', vaultId = ''v'', targetVaultId = None,
      targetAccountId = None, targetItemId = None, category = Some ''login'',
      encryptedPayload = Some \<lparr>payloadData = text, payloadIv = ''iv'', payloadAlgorithm = ''gcm'',
        payloadVersion = 1, payloadUserId = ''u''\<rparr>, favorite = None, baseVersion = 0, timestamp = 0,
      retryCount = 0, status = Some Pending, lastError = None, nextAttemptAt = None,
      conflictCopyId = (if kind = Update then Some ''copy'' else None), projectionClaimId = None,
      projectionClaimExpiresAt = None\<rparr>"

abbreviation "demo_create \<equiv> demo_command ''op1'' Create ''first''"
abbreviation "demo_update \<equiv> demo_command ''op2'' Update ''second''"

definition demo_item :: "string \<Rightarrow> repo_item" where
  "demo_item text =
     \<lparr>itemId = ''i'', itemVaultId = ''v'', itemCategory = ''login'', itemFavorite = False,
      itemData = text, itemIv = ''iv'', itemAlgorithm = ''gcm'', itemVersion = 1,
      itemLastModifiedBy = ''u'', itemEncryptionVersion = 1, itemEncryptedBy = ''u'',
      itemCreatedAt = ''1970-01-01T00:00:00.000Z'', itemUpdatedAt = ''1970-01-01T00:00:00.000Z'',
      riDeletedAt = None, riScope = \<lparr>scopeAccountId = Some ''a'', scopeAccountEmail = None,
        scopeServerUrl = Some ''https://api.bittery.org''\<rparr>, riAttachments = None,
      riContent = [(''title'', text)], riVault = \<lparr>vsId = ''v'', vsName = ''Unknown'',
        vsType = PersonalVault, vsIcon = None, vsImageUrl = None\<rparr>\<rparr>"

definition demo_created :: "device replica" where
  "demo_created = demo_replica\<lparr>repoItems := [(''i'', demo_item ''first'')],
     pendingCommands := [(''op1'', demo_create)], repoSnapshot := 1\<rparr>"

definition demo_edited :: "device replica" where
  "demo_edited = demo_replica\<lparr>repoItems := [(''i'', demo_item ''second'')],
     pendingCommands := [(''op1'', demo_create), (''op2'', demo_update)], repoSnapshot := 2\<rparr>"

definition demo_ack :: acknowledgement where
  "demo_ack = \<lparr>ackEntityId = ''i'', ackEtag = Some ''5'', ackVersion = Some 5\<rparr>"

lemma demo_start: "replica_start device_ok demo_replica"
  by (simp add: replica_start_def demo_replica_def demo_device_def device_ok_def keyed_memory_ok_def)

lemma demo_creates:
  "applyItemCommand (device_env demo_setup) demo_create demo_replica = (Inr (), demo_created)"
  by code_simp

lemma demo_edits:
  "applyItemCommand (device_env demo_setup) demo_update demo_created = (Inr (), demo_edited)"
  by code_simp

lemma demo_step1: "replica_step (device_env demo_setup) device_ok (dsReading demo_setup) demo_replica demo_created"
  by (rule replica_step.applying [OF _ _ demo_creates])
     (simp_all add: agrees_def demo_replica_def command_wf_def demo_command_def truthy_def)

lemma demo_pending: "pendingCommands demo_created = [(''op1'', demo_create)]"
  by (simp add: demo_created_def)

lemma demo_step2: "replica_step (device_env demo_setup) device_ok (dsReading demo_setup) demo_created demo_edited"
  by (rule replica_step.applying [OF _ _ demo_edits])
     (simp_all add: agrees_def demo_pending command_wf_def demo_command_def truthy_def opId_def coalesce_def)

lemma demo_reached: "(replica_step (device_env demo_setup) device_ok (dsReading demo_setup))\<^sup>*\<^sup>* demo_replica demo_edited"
  using demo_step1 demo_step2 by (meson rtranclp.simps)

section \<open>What is shown\<close>




lemma demo_acknowledged:
  "fst (acknowledgeItemCommand (device_env demo_setup) demo_create demo_ack demo_edited) = Inr ()"
  "js_has (repoItems (snd (acknowledgeItemCommand (device_env demo_setup) demo_create demo_ack demo_edited))) ''i''"
  by code_simp+


text \<open>
  Removing a vault while a command that moves an item out of it is pending: the item stays shown in
  the vault it is moved to, but its authoritative record is gone, so that nothing can be projected
  any more and the next rebuild drops it.
\<close>

definition demo_leaving :: "device replica" where
  "demo_leaving = demo_replica\<lparr>
     repoItems := [(''i'', (demo_item ''second'')\<lparr>itemVaultId := ''w''\<rparr>)],
     authoritativeItems := [(''i'', toCached (device_env demo_setup) demo_replica (demo_item ''first''))],
     pendingCommands := [(''op2'', (demo_command ''op2'' Move ''second'')\<lparr>targetVaultId := Some ''w''\<rparr>)]\<rparr>"

lemma removed_vault_takes_a_moved_item:
  "projected_looks (device_env demo_setup) demo_leaving ''i'' =
     Inr (Some (repo_looks ((demo_item ''second'')\<lparr>itemVaultId := ''w''\<rparr>)))"
  "case replicaRemoveCachedVault (device_env demo_setup) ''v'' ''a'' demo_leaving of (r, t) \<Rightarrow>
     r = Inr () \<and> js_has (repoItems t) ''i'' \<and> projected_looks (device_env demo_setup) t ''i'' = Inr None"
  by code_simp+

section \<open>What is hidden\<close>

text \<open>
  C26. When travel mode hides a vault from a replica, because the verified policy names it or
  because no policy is verified, then no getter returns an item of the vault, the vault itself
  or its key.
\<close>

theorem hidden_vaults_are_never_read:
  assumes "isTravelModeVaultHidden env r v"
  shows "(\<forall>x \<in> set (getAll env r @ getDeleted env r). itemVaultId x \<noteq> v) \<and>
    getByVault env r v = [] \<and> (\<forall>i x. getById env r i = Some x \<longrightarrow> itemVaultId x \<noteq> v) \<and>
    (\<forall>x \<in> set (getVaults env r). vsId x \<noteq> v) \<and> getVaultById env r v = None \<and>
    (\<forall>k \<in> set (getVaultKeys env r). vkVaultId k \<noteq> v)"
proof (intro conjI)
  have cases: "\<not> isVerified (envEnforcer env r) (envAccountId env) \<or>
      (let c = getConfig (envEnforcer env r) (envAccountId env) in tmEnabled c \<and> v \<in> set (tmHiddenVaultIds c))"
    using assms by (auto simp: isTravelModeVaultHidden_def isVaultHidden_def Let_def split: if_splits)
  show "\<forall>x \<in> set (getAll env r @ getDeleted env r). itemVaultId x \<noteq> v"
    using cases by (auto simp: getAll_def getDeleted_def applyTravelModeItemFilter_def
        enforcerFilterItems_def filterItemsByTravelMode_def Let_def)
  show "\<forall>x \<in> set (getVaults env r). vsId x \<noteq> v"
    using cases by (auto simp: getVaults_def isVaultHidden_def Let_def)
  show "\<forall>k \<in> set (getVaultKeys env r). vkVaultId k \<noteq> v"
    using cases by (auto simp: getVaultKeys_def enforcerFilterVaultKeys_def filterVaultKeys_def Let_def)
  show "\<forall>i x. getById env r i = Some x \<longrightarrow> itemVaultId x \<noteq> v"
    using assms by (auto simp: getById_def split: option.splits if_splits)
qed (use assms in \<open>simp_all add: getByVault_def getVaultById_def\<close>)

definition demo_travelling :: "device replica" where
  "demo_travelling = demo_replica\<lparr>repoItems := [(''i'', demo_item ''secret''\<lparr>itemVaultId := ''h''\<rparr>)]\<rparr>"

theorem hidden_vaults_are_never_read_witness:
  "map snd (repoItems demo_travelling) \<noteq> [] \<and> getById (device_env demo_setup) demo_travelling ''i'' = None \<and>
   getByVault (device_env demo_setup) demo_travelling ''h'' = []"
proof -
  have "isTravelModeVaultHidden (device_env demo_setup) demo_travelling ''h''"
    by (simp add: isTravelModeVaultHidden_def demo_travelling_def demo_replica_def demo_device_def
        device_env_def demo_setup_def isVerified_def isVaultHidden_def getConfig_def coalesce_def)
  note * = hidden_vaults_are_never_read [OF this]
  have "itemVaultId (demo_item ''secret''\<lparr>itemVaultId := ''h''\<rparr>) = ''h''" by simp
  then have "getById (device_env demo_setup) demo_travelling ''i'' \<noteq> Some (demo_item ''secret''\<lparr>itemVaultId := ''h''\<rparr>)"
    using * by blast
  moreover have "getById (device_env demo_setup) demo_travelling ''i'' \<in>
      {None, Some (demo_item ''secret''\<lparr>itemVaultId := ''h''\<rparr>)}"
    by (simp add: getById_def demo_travelling_def)
  ultimately show ?thesis using * by (simp add: demo_travelling_def)
qed

section \<open>Losing edits\<close>

text \<open>What is sealed under a context opens under it to what was sealed.\<close>

definition seal_opens :: "'w replica_env \<Rightarrow> opener \<Rightarrow> item_content \<Rightarrow> bool" where
  "seal_opens env plain content \<longleftrightarrow> (\<forall>k cx s d s'.
     cpEncrypt (envCrypto env) (JsonText content) k (Some cx) s = (Inr d, s') \<longrightarrow> plain (d, cx) = Some content)"

lemma under_any: "under (\<lambda>_. True) m (\<lambda>_. True)"
  by (simp add: under_def)

lemma encrypted_data_eta:
  "\<lparr>edCiphertext = edCiphertext d, edIv = edIv d, edAlgorithm = edAlgorithm d\<rparr> = (d :: encrypted_data)"
  by simp

lemma sealed_copy:
  assumes "seal_opens env plain content"
  shows "under (\<lambda>_. True) (encryptWithVaultKey env v content i n u) (\<lambda>p. sealVersion p = n \<and>
      plain (\<lparr>edCiphertext = sealCiphertext p, edIv = sealIv p, edAlgorithm = sealAlgorithm p\<rparr>,
        buildItemEncryptionContext \<lparr>wsVaultId = v, wsItemId = i, wsVersion = n, wsUserId = sealUserId p\<rparr>) =
        Some content)"
proof -
  have seal: "under (\<lambda>_. True) (encryptItem (envCrypto env) (JsonText content) k sc)
      (\<lambda>d. plain (d, buildItemEncryptionContext sc) = Some content)" for k sc
    using assms by (auto simp: under_def encryptItem_def seal_opens_def) (metis prod.collapse)
  show ?thesis
    unfolding encryptWithVaultKey_def
    by (rule under_and_then, rule under_any, rule under_finally_do [OF _ under_any],
        rule under_and_then, rule under_any, rule under_and_then [OF seal], rule under_ok) (simp add: encrypted_data_eta)
qed

text \<open>
  C27. When what is sealed under a context opens under it: the command preserveItemConflict
  answers, applied to the server's empty slot, makes a record with the chosen id in the local
  item's vault and category whose ciphertext opens under the record's own binding to the content
  the reader saw, and it is a new pending operation.
\<close>

theorem losing_edit_is_kept_readable:
  assumes "seal_opens env plain (stripToDecryptedData local)"
    and "js_get (repoItems r) (entityId c) = Some local" and "itemCategory local \<noteq> []"
    and "preserveItemConflict env c r = (Inr (Some copy), t)"
  shows "\<exists>x. created_item env t copy = Inr x \<and> Some (itemId x) = conflictCopyId c \<and>
    itemVaultId x = itemVaultId local \<and> itemCategory x = itemCategory local \<and>
    plain (sealed_part x) = Some (stripToDecryptedData local) \<and> opId copy \<noteq> opId c \<and> status copy = Some Pending"
proof -
  let ?m = "encryptWithVaultKey env (itemVaultId local) (stripToDecryptedData local) (the (conflictCopyId c)) 1 None"
  obtain p s1 s2 where p: "?m r = (Inr p, s1)" and copy: "copy = conflict_copy env c local p (envNow env s2)"
    and kept: "preserves_conflict env c"
    using assms(2,4)
    by (auto simp: preserveItemConflict_def act_defs split: if_splits prod.splits sum.splits)
  note sealed = underD [OF sealed_copy [OF assms(1)] p]
  obtain i where i: "conflictCopyId c = Some i"
    using kept by (auto simp: preserves_conflict_def truthy_def split: option.splits)
  have "''conflict-copy:'' @ opId c \<noteq> opId c" by (metis append_self_conv2 list.distinct(1))
  with sealed copy i assms(3) show ?thesis
    by (auto simp: created_item_def conflict_copy_def toEncryptedPayload_def toNewCachedItem_def Let_def
        truthy_def sealed_part_def storedItemData_def buildStoredItemEncryptionContext_def opId_def coalesce_def)
qed

theorem losing_edit_is_kept_readable_witness:
  "\<exists>copy t x. preserveItemConflict (device_env demo_setup) demo_update demo_edited = (Inr (Some copy), t) \<and>
     created_item (device_env demo_setup) t copy = Inr x \<and> itemId x = ''copy'' \<and>
     dsReading demo_setup (sealed_part x) = Some [(''title'', ''second'')]"
proof -
  have local: "js_get (repoItems demo_edited) (entityId demo_update) = Some (demo_item ''second'')"
    by (simp add: demo_edited_def demo_command_def)
  have strip: "stripToDecryptedData (demo_item ''second'') = [(''title'', ''second'')]" by code_simp
  have law: "seal_opens (device_env demo_setup) (dsReading demo_setup) (stripToDecryptedData (demo_item ''second''))"
    unfolding strip by (auto simp: seal_opens_def device_env_def device_crypto_def demo_setup_def act_defs)
  have "(case preserveItemConflict (device_env demo_setup) demo_update demo_edited of
      (Inr (Some copy), t) \<Rightarrow> True | _ \<Rightarrow> False)" by code_simp
  then obtain copy t where run: "preserveItemConflict (device_env demo_setup) demo_update demo_edited = (Inr (Some copy), t)"
    by (auto split: prod.splits sum.splits option.splits)
  have category: "itemCategory (demo_item ''second'') \<noteq> []" by (simp add: demo_item_def)
  from losing_edit_is_kept_readable [OF law local category run] run strip show ?thesis
    by (auto simp: demo_command_def)
qed

end
