(* ===== verification/ReplicaOvertaken.thy ===== *)
theory ReplicaOvertaken
  imports ReplicaDevice
begin

text \<open>
  A hydration that is overtaken by a clear. Any awaited call of a hydration may be one during
  which clear() runs; the hydration generation has moved on then, and the hydration must not put
  back what was cleared. The locale interruptible is a surrounding whose calls may clear the
  replica, but for the reading of the master unlock key.
\<close>

text \<open>The replica is empty unless the hydration with this generation is still the current one.\<close>

definition cleared :: "nat \<Rightarrow> 'w replica \<Rightarrow> bool" where
  "cleared g r \<longleftrightarrow> (hydrationGeneration r \<noteq> g \<longrightarrow>
     repoItems r = [] \<and> authoritativeItems r = [] \<and> repoVaults r = [] \<and> vaultKeyEntries r = [])"

lemma cleared_now: "hydrationGeneration r = g \<Longrightarrow> cleared g r"
  by (simp add: cleared_def)

lemma cleared_own: "own s = own r \<Longrightarrow> cleared g s = cleared g r"
  by (simp add: own_eq cleared_def)

lemma cleared_clear: "cleared g (clearReplica r)"
  by (simp add: cleared_def clearReplica_def emit_def)

lemma cleared_mark [simp]: "cleared g (mark_hydrated b r) = cleared g r"
  by (simp add: cleared_def mark_hydrated_def)

lemma cleared_emit [simp]: "cleared g (emit r) = cleared g r"
  by (simp add: cleared_def emit_def)

lemma cleared_drop: "cleared g r \<Longrightarrow> cleared g (dropItem i r)"
  by (auto simp: cleared_def dropItem_def)

locale interruptible =
  fixes env :: "'w replica_env"
    and g :: nat
  assumes cached_items: "under (cleared g) (getCachedItems (envRecords env) a) (\<lambda>_. True)"
    and cached_vaults: "under (cleared g) (getCachedVaults (envRecords env) a) (\<lambda>_. True)"
    and metadata: "under (cleared g) (getItemCacheMetadata (envRecords env) a) (\<lambda>_. True)"
    and muk: "under (\<lambda>r. own r = me) (csGetMasterUnlockKey (envCryptoStore env) acc) (\<lambda>_. True)"
    and private_key: "under (cleared g) (csGetEncryptedPrivateKey (envCryptoStore env) acc) (\<lambda>_. True)"
    and session_user: "under (cleared g) (csGetSessionUserId (envCryptoStore env) acc) (\<lambda>_. True)"
    and stored_keys: "under (cleared g) (storedVaultKeys env a) (\<lambda>_. True)"
    and stored_url: "under (cleared g) (storedServerUrl env a) (\<lambda>_. True)"
    and user_id: "under (cleared g) (resolveUserIdForAccount env a) (\<lambda>_. True)"
    and decrypt: "under (cleared g) (cpDecrypt (envCrypto env) d k cx) (\<lambda>_. True)"
    and decrypt_many: "under (cleared g) (cpDecryptMany (envCrypto env) reqs) (\<lambda>_. True)"
    and destroy: "under (cleared g) (cpDestroyKey (envCrypto env) k) (\<lambda>_. True)"
    and unwrap: "under (cleared g) (cpUnwrapKey (envCrypto env) d k cx) (\<lambda>_. True)"
    and unwrap_rsa: "under (cleared g) (cpDecryptRsaWrappedKey (envCrypto env) t d k) (\<lambda>_. True)"
begin

lemma muk_cleared: "under (cleared g) (csGetMasterUnlockKey (envCryptoStore env) acc) (\<lambda>_. True)"
proof (rule underI, intro conjI allI impI TrueI)
  fix s r s' assume s: "cleared g s" and run: "csGetMasterUnlockKey (envCryptoStore env) acc s = (r, s')"
  have "own s' = own s" using underD [OF muk run, of "own s"] by simp
  with s show "cleared g s'" using cleared_own by blast
qed

lemma lock_own: "isLocked env s = (r, s') \<Longrightarrow> own s' = own s"
  using underD [OF muk, of "Some (envAccountId env)" s _ _ "own s"]
  by (auto simp: isLocked_def act_defs split: prod.splits sum.splits)

lemma vault_key: "under (cleared g) (decryptVaultKey env v) (\<lambda>_. True)"
  unfolding decryptVaultKey_def unwrapStoredVaultKey_def unwrapVaultKey_def parseEncryptedData_def
  by (intro contract_intros stored_keys user_id muk_cleared private_key session_user unwrap unwrap_rsa) simp_all

lemma parse_any: "under I (parse_content p) (\<lambda>_. True)"
  by (auto simp: parse_content_def intro: under_ok under_throw split: option.split)

lemma item_cleared: "under (cleared g) (decryptItem env x) (\<lambda>_. True)"
  unfolding decryptItem_def decryptStoredItem_def
  by (intro contract_intros vault_key decrypt destroy parse_any) simp

lemma open_keys: "under (cleared g) (openVaultKeys env vs) (\<lambda>_. True)"
  unfolding openVaultKeys_def
  by (rule under_true, rule under_map_each [where P = "\<lambda>_ _. True"]) (intro contract_intros vault_key, simp_all)

lemma parsed_cleared: "under (cleared g) (parse_results rs) (\<lambda>_. True)"
  unfolding parse_results_def
  by (rule under_true, rule under_map_each [where P = "\<lambda>_ _. True"])
     (auto intro!: under_ok under_seq [OF parse_any] split: sum.split)

lemma batch_cleared: "under (cleared g) (decryptItemBatch env items vaults) (\<lambda>_. True)"
  unfolding decryptItemBatch_def decryptStoredItems_def Let_def
  by (intro under_if under_ok under_seq [OF open_keys] under_finally_do under_seq [OF decrypt_many]
      under_seq [OF parsed_cleared] under_with_state under_all_each destroy TrueI)

text \<open>What runs after the stale check, when it runs, runs in the generation of the hydration.\<close>

lemma checked:
  assumes "cleared g r"
    and run: "and_then (if g \<noteq> hydrationGeneration r then ok True else isLocked env) f r = (res, t)"
    and stale: "\<And>s. cleared g s \<Longrightarrow> cleared g (snd (f True s))"
    and current: "\<And>s. hydrationGeneration s = g \<Longrightarrow> cleared g (snd (f False s))"
  shows "cleared g t"
proof (cases "g = hydrationGeneration r")
  case False
  then have "f True r = (res, t)" using run by (simp add: act_defs)
  with stale [OF assms(1)] show ?thesis by simp
next
  case True
  obtain l s where l: "isLocked env r = (l, s)" by fastforce
  have o: "own s = own r" using lock_own [OF l] .
  have gs: "hydrationGeneration s = g" and cs: "cleared g s"
    using o True assms(1) by (auto simp: own_eq cleared_own [OF o])
  show ?thesis
  proof (cases l)
    case (Inl e)
    with run True l cs show ?thesis by (simp add: act_defs)
  next
    case (Inr b)
    with run True l have "f b s = (res, t)" by (simp add: act_defs)
    with stale [OF cs] current [OF gs] show ?thesis by (cases b) auto
  qed
qed

lemma projected_cleared: "under (cleared g) (project_decrypted env i g x) (\<lambda>_. True)"
  unfolding project_decrypted_def
proof (rule under_and_then [OF item_cleared], rule underI, intro conjI allI impI TrueI)
  fix d r res t assume r: "cleared g r"
    and run: "with_state (\<lambda>r. and_then (if g \<noteq> hydrationGeneration r then ok True else isLocked env)
      (\<lambda>stale. if stale then and_then (put_state (dropItem i)) (\<lambda>_. ok False)
         else and_then (put_state (showItem i d)) (\<lambda>_. ok True))) r = (res, t)"
  show "cleared g t"
    by (rule checked [OF r run [unfolded with_state_def]])
       (auto simp: act_defs showItem_def intro: cleared_drop cleared_now)
qed

lemma rebuild_cleared:
  assumes s: "cleared g s" and gs: "hydrationGeneration s = g"
  shows "cleared g (snd (rebuildItemProjection env i s))"
proof -
  have drop: "cleared g r \<Longrightarrow> cleared g (emit (dropItem i r))" for r by (simp add: cleared_drop)
  have tail: "under (cleared g) (and_then (catch (project_decrypted env i g x)
      (\<lambda>_. and_then (put_state (dropItem i)) (\<lambda>_. ok True)))
      (\<lambda>notify. if notify then put_state emit else ok ())) (\<lambda>_. True)" for x
    by (intro under_seq under_catch projected_cleared under_put_state under_if under_ok cleared_drop) simp_all
  have locked: "under (cleared g) (isLocked env) (\<lambda>_. True)"
    unfolding isLocked_def by (intro contract_intros muk_cleared) simp
  have "under (cleared g) (and_then (isLocked env) (\<lambda>locked.
      if locked then put_state (\<lambda>s. emit (dropItem i s)) else
      and_then (catch (project_decrypted env i g x) (\<lambda>_. and_then (put_state (dropItem i)) (\<lambda>_. ok True)))
        (\<lambda>notify. if notify then put_state emit else ok ()))) (\<lambda>_. True)" for x
    by (intro under_seq [OF locked] under_if tail under_put_state drop)
  then show ?thesis
    using s gs unfolding rebuildItemProjection_def
    by (auto simp: with_state_def under_def throw_def put_state_def intro: cleared_drop split: sum.split option.split)
qed

lemma rebuild_all_cleared:
  "cleared g s \<Longrightarrow> hydrationGeneration s = g \<Longrightarrow> cleared g (snd (rebuild_all env g is s))"
proof (induction "is" arbitrary: s)
  case (Cons i "is")
  obtain u t where run: "rebuildItemProjection env i s = (u, t)" by fastforce
  have t: "cleared g t" using rebuild_cleared [OF Cons.prems, of i] run by simp
  show ?case
    using t Cons.IH [OF t] run by (cases u) (auto simp: act_defs)
qed (simp add: ok_def)

lemma install_generation: "hydrationGeneration (install_cache env items hv ks out s) = hydrationGeneration s"
proof -
  have f: "hydrationGeneration (fold (install_outcome env) out s) = hydrationGeneration s" for s
    by (induction out arbitrary: s)
       (auto simp: install_outcome_def setAuthoritative_def showItem_def split: sum.split)
  have v: "hydrationGeneration (fold (\<lambda>e. adoptServerUrl (vaultScope (snd e))) xs s) = hydrationGeneration s" for xs s
    by (induction xs arbitrary: s) (auto simp: adoptServerUrl_def)
  have c: "hydrationGeneration (fold (\<lambda>i. adoptServerUrl (cachedScope i)) xs s) = hydrationGeneration s" for xs s
    by (induction xs arbitrary: s) (auto simp: adoptServerUrl_def)
  show ?thesis
    by (simp add: install_cache_def install_outcomes_def install_vaults_def mergeVaultKeyEntries_def
        f v c Let_def split: option.split)
qed

lemma installed_cleared:
  assumes "cleared g r"
    and run: "and_then (if g \<noteq> hydrationGeneration r then ok True else isLocked env) (\<lambda>stale.
       if stale then ok ()
       else and_then (put_state (install_cache env items hv ks out)) (\<lambda>_.
            and_then (with_state (\<lambda>s. rebuild_all env g (pending_entities s))) (\<lambda>complete.
            if complete then put_state (mark_hydrated b) else put_state clearReplica))) r = (res, t)"
  shows "cleared g t"
proof (rule checked [OF assms(1) run])
  fix s :: "'w replica"
  assume g: "hydrationGeneration s = g"
  let ?s = "install_cache env items hv ks out s"
  have "cleared g (snd (rebuild_all env g (pending_entities ?s) ?s))"
    by (rule rebuild_all_cleared) (simp_all add: cleared_def install_generation g)
  then show "cleared g (snd ((if False then ok () else and_then (put_state (install_cache env items hv ks out)) (\<lambda>_.
            and_then (with_state (\<lambda>s. rebuild_all env g (pending_entities s))) (\<lambda>complete.
            if complete then put_state (mark_hydrated b) else put_state clearReplica))) s))"
    by (auto simp: act_defs cleared_clear split: prod.split sum.split)
qed (simp add: ok_def)

lemma load_cleared: "under (cleared g) (load_cache env g) (\<lambda>_. True)"
proof -
  have verified: "under (cleared g) (with_state (\<lambda>r. assertVerified (envEnforcer env r) (envAccountId env))) (\<lambda>_. True)"
    unfolding assertVerified_def by (intro contract_intros) simp
  have url: "under (cleared g) (ensureServerUrl env) (\<lambda>_. True)"
    unfolding ensureServerUrl_def
    by (intro under_with_state under_if under_ok under_seq [OF stored_url] under_put_state)
       (auto simp: cleared_def setServerUrl_def)
  show ?thesis
    unfolding load_cache_def
  proof (intro under_seq [OF verified] under_seq [OF url] under_seq [OF cached_items]
      under_seq [OF cached_vaults] under_seq [OF metadata] under_seq [OF stored_keys]
      under_seq [OF under_get_state] under_seq [OF batch_cleared] TrueI)
    fix items vaults meta ks hv outcomes
    show "under (cleared g) (with_state (\<lambda>r.
      and_then (if g \<noteq> hydrationGeneration r then ok True else isLocked env) (\<lambda>stale.
       if stale then ok ()
       else and_then (put_state (install_cache env (coalesce items []) hv ks outcomes)) (\<lambda>_.
            and_then (with_state (\<lambda>s. rebuild_all env g (pending_entities s))) (\<lambda>complete.
            if complete then put_state (mark_hydrated (has_cache_snapshot items vaults meta))
            else put_state clearReplica))))) (\<lambda>_. True)"
      by (rule underI) (auto simp: with_state_def dest: installed_cleared)
  qed
qed

lemma finish_cleared: "cleared g (finish_hydration n s) = cleared g s"
  by (auto simp: finish_hydration_def cleared_def emit_def)

lemma hydrate_cleared:
  assumes g: "g = Suc (hydrationGeneration r)" and run: "hydrate env r = (res, t)"
  shows "hydrationGeneration t \<le> hydrationGeneration r \<or> cleared g t"
proof -
  obtain k s where k: "(if hydrating r then ok True else isLocked env) r = (k, s)" by fastforce
  have o: "own s = own r" using k lock_own by (auto simp: ok_def split: if_splits)
  show ?thesis
  proof (cases "k = Inr False")
    case False
    with run k have "t = s"
      by (auto simp: hydrate_def and_then_def with_state_def ok_def split: sum.splits bool.splits if_splits)
    with o show ?thesis by (simp add: own_eq)
  next
    case True
    let ?r = "emit (s\<lparr>hydrationGeneration := Suc (hydrationGeneration s), hydrating := True\<rparr>)"
    have "hydrationGeneration s = hydrationGeneration r" using o by (simp add: own_eq)
    then have gr: "hydrationGeneration ?r = g" by (simp add: emit_def g)
    obtain l s' where l: "load_cache env g ?r = (l, s')" by fastforce
    have s': "cleared g s'" using underD [OF load_cleared l] cleared_now [OF gr] by simp
    have "t = finish_hydration g s'"
      using run k True l gr
      by (auto simp: hydrate_def and_then_def with_state_def put_state_def Let_def try_finally_def)
    with s' show ?thesis by (simp add: finish_cleared)
  qed
qed

end

section \<open>Devices\<close>

lemma under_reads: "(\<And>s. snd (m s) = s) \<Longrightarrow> under I m (\<lambda>_. True)"
  by (simp add: under_def)

lemma device_cache_reads:
  "snd (getCachedItems device_records a s) = s" "snd (getCachedVaults device_records a s) = s"
  "snd (getItemCacheMetadata device_records a s) = s"
  by (simp_all add: getCachedItems_def getCachedVaults_def getItemCacheMetadata_def readCollection_def
      readState_def act_defs)

text \<open>A device on which the account is locked, and the replica cleared, while the vault keys are read.\<close>

definition locking_env :: "device_setup \<Rightarrow> device replica_env" where
  "locking_env ds = (device_env ds)\<lparr>storedVaultKeys := (\<lambda>acc.
     and_then (put_state clearReplica) (\<lambda>_. storedVaultKeys (device_env ds) acc))\<rparr>"

lemma device_interruptible: "interruptible (device_env ds) g"
  by unfold_locales
     (auto simp: device_env_def device_store_def device_crypto_def no_crypto_def act_defs device_cache_reads
       intro!: under_reads split: option.split sum.split)

interpretation device_calls: interruptible "device_env ds" g for ds g
  by (rule device_interruptible)

lemma clearing_read: "under (cleared g) (storedVaultKeys (locking_env ds) a) (\<lambda>_. True)"
  by (auto simp: locking_env_def device_env_def under_def act_defs cleared_clear)

interpretation locking_calls: interruptible "locking_env ds" g for ds g
  by (rule interruptible.intro)
     (use clearing_read device_calls.cached_items device_calls.cached_vaults device_calls.metadata
       device_calls.muk device_calls.private_key device_calls.session_user device_calls.stored_url
       device_calls.user_id device_calls.decrypt device_calls.decrypt_many device_calls.destroy
       device_calls.unwrap device_calls.unwrap_rsa in \<open>auto simp: locking_env_def\<close>)

end
