(* ===== verification/OvertakenClaims.thy ===== *)
theory OvertakenClaims
  imports ReplicaClaims ReplicaOvertaken
begin

text \<open>
  What a clear leaves of a hydration it overtakes: nothing, as long as it does not fall into the
  reading of the master unlock key; and a run in which it does.
\<close>

section \<open>Overtaken by a clear\<close>

definition demo_cached_item :: cached_item where
  "demo_cached_item = toCachedItemFromRepositoryItem (demo_item ''secret'') (riScope (demo_item ''secret''))"

definition demo_full :: "device replica" where
  "demo_full = demo_replica\<lparr>outside := demo_device\<lparr>deviceMemory :=
     [(itemsCollection ''a'', [(''i'', ItemText demo_cached_item)])]\<rparr>\<rparr>"



section \<open>Overtaken while the key is read\<close>

text \<open>
  A device whose vault keys are all destroyed when the lock begins: from then on the clock reads 1,
  and the pending read of the master unlock key, which is still there, is overtaken by the clear.
\<close>

definition racing_env :: "device replica_env" where
  "racing_env = (device_env demo_setup)
     \<lparr>envCrypto := (device_crypto demo_setup)\<lparr>cpDestroyKey := (\<lambda>_. put_state (\<lambda>r.
        r\<lparr>outside := (outside r)\<lparr>deviceClock := 1\<rparr>\<rparr>))\<rparr>,
      envCryptoStore := (device_store demo_setup)\<lparr>csGetMasterUnlockKey := (\<lambda>acc. with_state (\<lambda>r.
        and_then (if deviceClock (outside r) = 1 then put_state clearReplica else ok ()) (\<lambda>_.
          csGetMasterUnlockKey (device_store demo_setup) acc)))\<rparr>\<rparr>"


end
