(* ===== verification/RepositoryClaims.thy ===== *)
theory RepositoryClaims
  imports RepositoryDevice OvertakenClaims
begin

text \<open>
  What the vault repository promises: a lock leaves nothing of the account to be read, accounts do
  not see each other, and a travel mode policy is in force in every layer before it is verified.
\<close>

section \<open>Calls about one account\<close>

inductive account_call :: "'w repository_env \<Rightarrow> string \<Rightarrow> 'w repository \<Rightarrow> 'w repository \<Rightarrow> bool"
  for env :: "'w repository_env" and acc :: string where
  opening_locally: "laAccountId (account :: local_account) = acc \<Longrightarrow> openLocally env account s = (r, t) \<Longrightarrow> account_call env acc s t"
| hydrating: "laAccountId (info :: 'w account_info) = acc \<Longrightarrow> worldly_api (aiTravel info) \<Longrightarrow>
    hydrateAccount fuel env info s = (h, t) \<Longrightarrow> account_call env acc s t"
| refreshing: "laAccountId (info :: 'w account_info) = acc \<Longrightarrow> refreshAccount fuel env info s = (f, t) \<Longrightarrow> account_call env acc s t"
| starting_sync: "\<forall>info \<in> set (infos :: 'w account_info list). worldly_api (aiTravel info) \<Longrightarrow>
    initializeSyncBaseline fuel env infos acc cursor s = (b, t) \<Longrightarrow> account_call env acc s t"
| editing: "repositoryUpsertLocal env acc item p s = (r, t) \<Longrightarrow> account_call env acc s t"
| sealing: "encryptForVault env acc v data i version user s = (e, t) \<Longrightarrow> account_call env acc s t"
| renaming: "repositoryReplaceItemId env tmp real acc s = (r, t) \<Longrightarrow> account_call env acc s t"
| applying: "accountId c = acc \<Longrightarrow> repositoryApplyItemCommand env c s = (r, t) \<Longrightarrow> account_call env acc s t"
| discarding: "accountId c = acc \<Longrightarrow> repositoryDiscard env c s = (r, t) \<Longrightarrow> account_call env acc s t"
| preserving: "accountId c = acc \<Longrightarrow> repositoryPreserveItemConflict env c s = (p', t) \<Longrightarrow> account_call env acc s t"
| acknowledging: "accountId c = acc \<Longrightarrow> repositoryAcknowledge env c a s = (r, t) \<Longrightarrow> account_call env acc s t"
| reconciling: "accountId c = acc \<Longrightarrow> repositoryReconcileAuthoritative env c x s = (r, t) \<Longrightarrow> account_call env acc s t"
| upserting: "repositoryUpsertCachedItem env x acc s = (r, t) \<Longrightarrow> account_call env acc s t"
| removing: "repositoryRemoveCachedItem env i acc s = (r, t) \<Longrightarrow> account_call env acc s t"
| upserting_vault: "repositoryUpsertCachedVault env w acc s = (r, t) \<Longrightarrow> account_call env acc s t"
| removing_vault: "repositoryRemoveCachedVault env v acc s = (r, t) \<Longrightarrow> account_call env acc s t"
| syncing_keys: "repositorySyncVaultKeys env ks acc s = (r, t) \<Longrightarrow> account_call env acc s t"
| clearing_cache: "repositoryClearItemCache env acc s = (r, t) \<Longrightarrow> account_call env acc s t"
| purging: "account_call env acc s (purgeHiddenVaultsForAccount acc hidden s)"
| dropping: "account_call env acc s (removeAccount acc s)"

lemma call_stays:
  assumes "worldly_travel env" and "account_call env acc s t"
  shows "elsewhere acc t = elsewhere acc s"
  using assms(2)
proof cases
  case (opening_locally account r)
  then show ?thesis using staysD [OF worldly_travel.open_stays [OF assms(1)]] by blast
next
  case (hydrating info fuel h)
  then show ?thesis using staysD [OF worldly_travel.hydrate_stays [OF assms(1)]] by blast
next
  case (refreshing info fuel f)
  then show ?thesis using staysD [OF worldly_travel.refresh_stays [OF assms(1)]] by blast
next
  case (starting_sync infos fuel cursor b)
  then show ?thesis using staysD [OF worldly_travel.baseline_stays [OF assms(1)]] by blast
qed (use staysD [OF stays_in_replica] in \<open>auto simp: repositoryUpsertLocal_def encryptForVault_def
    repositoryReplaceItemId_def repositoryApplyItemCommand_def repositoryDiscard_def
    repositoryPreserveItemConflict_def repositoryAcknowledge_def repositoryReconcileAuthoritative_def
    repositoryUpsertCachedItem_def repositoryRemoveCachedItem_def repositoryUpsertCachedVault_def
    repositoryRemoveCachedVault_def repositorySyncVaultKeys_def repositoryClearItemCache_def\<close>)

section \<open>A repository with two accounts\<close>

definition demo_account_setup :: "string \<Rightarrow> device_setup" where
  "demo_account_setup acc = demo_setup\<lparr>dsAccount := acc\<rparr>"

definition demo_account :: "string \<Rightarrow> local_account" where
  "demo_account acc = \<lparr>laAccountId = acc, laEmail = ''e'', laUserId = ''u'', laName = ''n'',
     laServerUrl = ''https://api.bittery.org'', laTeamName = None, laTeamAvatarUrl = None\<rparr>"

text \<open>Both accounts have the vault v with an item; their stored policies are switched off.\<close>

definition demo_keys :: "vault_key_entry list" where
  "demo_keys = coalesce (js_get (deviceKeys demo_device) ''a'') []"

definition demo_two :: device where
  "demo_two = demo_device
     \<lparr>deviceMemory := [(itemsCollection ''a'', [(''i'', ItemText demo_cached_item)]),
                       (itemsCollection ''b'', [(''j'', ItemText (demo_cached_item\<lparr>itemId := ''j''\<rparr>))])],
      deviceKeys := [(''a'', demo_keys), (''b'', demo_keys)],
      deviceMuks := [(''a'', ''muk''), (''b'', ''muk'')],
      deviceEnforcer := \<lparr>memoryCache = [], verifiedAccounts = []\<rparr>,
      devicePolicies := [(''a'', DEFAULT_CONFIG), (''b'', DEFAULT_CONFIG)]\<rparr>"

abbreviation demo_repository :: "device repository_env" where
  "demo_repository \<equiv> device_repository demo_account_setup False"

text \<open>The repository after both accounts were opened from their caches.\<close>

definition demo_entry :: "string \<Rightarrow> string \<Rightarrow> repo_entry" where
  "demo_entry acc i =
     \<lparr>entryReplica = \<lparr>repoItems = [(i, (demo_item ''secret'')\<lparr>itemId := i\<rparr>)],
        authoritativeItems = [(i, demo_cached_item\<lparr>itemId := i\<rparr>)], pendingCommands = [],
        repoVaults = [(''v'', \<lparr>vsId = ''v'', vsName = ''V'', vsType = PersonalVault, vsIcon = None,
          vsImageUrl = None, vaultScope = \<lparr>scopeAccountId = Some acc, scopeAccountEmail = Some ''e'',
            scopeServerUrl = Some ''https://api.bittery.org''\<rparr>\<rparr>)],
        vaultKeyEntries = map (\<lambda>k. (vkVaultId k, k)) demo_keys,
        repoSnapshot = 2, hydrated = True, hydrating = False, hydrationGeneration = 1,
        hasCacheSnapshotFlag = False, repoServerUrl = Some ''https://api.bittery.org'', outside = ()\<rparr>,
      entryEmail = Some ''e''\<rparr>"

definition demo_opened :: "device repository" where
  "demo_opened = \<lparr>repos = [(''a'', demo_entry ''a'' ''i''), (''b'', demo_entry ''b'' ''j'')],
     accountInfoByAccountId = [(''a'', demo_account ''a''), (''b'', demo_account ''b'')],
     activeAccountIds = [''a'', ''b''], hydratingAccountIds = [], repositorySnapshot = 5,
     world = demo_two\<lparr>deviceEnforcer := \<lparr>memoryCache = [(''a'', DEFAULT_CONFIG), (''b'', DEFAULT_CONFIG)],
       verifiedAccounts = [''a'', ''b'']\<rparr>\<rparr>\<rparr>"

lemma demo_opened_accounts: "distinct (map fst (repos demo_opened))"
  by (simp add: demo_opened_def)

lemma demo_opened_shows:
  "map (riContent \<circ> fst) (repositoryGetAll demo_repository (Some ''a'') demo_opened) = [[(''title'', ''secret'')]]"
  by code_simp

section \<open>Locking\<close>

lemma lock_result:
  assumes "applyUnlockState env unlocked s = (r, t)"
  shows "r = Inr ()" and "acc \<notin> set unlocked \<Longrightarrow> dark acc t"
    and "distinct (map fst (repos s)) \<Longrightarrow> isAccountHydrated b s \<Longrightarrow> b \<in> set unlocked \<Longrightarrow>
      js_get (repos t) b = js_get (repos s) b"
proof -
  let ?open = "accountsToOpen env unlocked s"
  let ?body = "\<lambda>acc. catch (in_replica env acc hydrate) (\<lambda>_. ok ())"
  have run: "for_each ?open ?body (lockAccounts unlocked s) = (r, t)"
    using assms by (simp add: applyUnlockState_def act_defs)
  have sub: "a \<in> set ?open \<Longrightarrow> a \<in> set unlocked" for a by (auto simp: accountsToOpen_def)
  have keep: "a \<notin> set ?open \<Longrightarrow> js_get (repos t) a = js_get (repos (lockAccounts unlocked s)) a" for a
    using opening_others [of a ?open env "lockAccounts unlocked s"] by (simp add: run)
  show "r = Inr ()"
  proof -
    obtain z where "z \<notin> set ?open" using ex_new_if_finite [OF infinite_UNIV_listI finite_set] by blast
    from opening_others [OF this, of env "lockAccounts unlocked s"] show ?thesis by (simp add: run)
  qed
  show "dark acc t" if "acc \<notin> set unlocked"
  proof -
    have "acc \<notin> set ?open" using that sub by blast
    with dark_lock [OF that, of s] keep [of acc] show ?thesis by (simp add: dark_def)
  qed
  show "js_get (repos t) b = js_get (repos s) b"
    if "distinct (map fst (repos s))" "isAccountHydrated b s" "b \<in> set unlocked"
  proof -
    have "b \<notin> set ?open"
      using that by (auto simp: accountsToOpen_def isAccountHydrated_def replicaOf_def js_get_Some_iff
          split: option.splits dest: eq_key_imp_eq_value [OF that(1)])
    with keep lock_keeps [OF that(3)] show ?thesis by metis
  qed
qed



section \<open>Isolation\<close>

text \<open>
  C30. When the enforcer's port works on the world only: any sequence of calls about an account,
  successful or not, that open, refresh, edit, sync, purge or remove it leaves every other
  account's replica, account information and place in the read scope as they were.
\<close>

theorem repository_keeps_accounts_apart:
  assumes "worldly_travel env" and "(account_call env a)\<^sup>*\<^sup>* s t" and "b \<noteq> a"
  shows "js_get (repos t) b = js_get (repos s) b \<and> getAccountInfo b t = getAccountInfo b s \<and>
    (b \<in> set (activeAccountIds t) \<longleftrightarrow> b \<in> set (activeAccountIds s))"
proof -
  have "elsewhere a t = elsewhere a s"
    using assms(2) by induction (simp_all add: call_stays [OF assms(1)])
  from elsewhere_entry [OF this assms(3)] elsewhere_info [OF this assms(3)] elsewhere_active [OF this assms(3)]
  show ?thesis by (simp add: getAccountInfo_def)
qed

theorem repository_keeps_accounts_apart_witness:
  "let t = snd (repositoryRemoveCachedItem demo_repository ''i'' ''a'' demo_opened) in
     js_get (repos t) ''b'' = js_get (repos demo_opened) ''b'' \<and> js_get (repos t) ''a'' \<noteq> js_get (repos demo_opened) ''a''"
proof -
  let ?t = "snd (repositoryRemoveCachedItem demo_repository ''i'' ''a'' demo_opened)"
  have "account_call demo_repository ''a'' demo_opened ?t"
    by (rule account_call.removing [OF prod.collapse [symmetric]])
  then have "(account_call demo_repository ''a'')\<^sup>*\<^sup>* demo_opened ?t" by simp
  moreover have "map_option (repoItems \<circ> entryReplica) (js_get (repos ?t) ''a'') \<noteq>
      map_option (repoItems \<circ> entryReplica) (js_get (repos demo_opened) ''a'')" by code_simp
  ultimately show ?thesis
    using repository_keeps_accounts_apart [OF device_travel.worldly_travel_axioms, of demo_account_setup False "''a''" demo_opened ?t "''b''"]
    by auto
qed

section \<open>Travel mode\<close>


definition demo_travel_api :: "device repository travel_api" where
  "demo_travel_api = (let answer = ok \<lparr>trEnabled = True, trHiddenVaultIds = [''v''], trEnabledAt = None, trUpdatedAt = []\<rparr>
     in \<lparr>taGet = answer, taSetHiddenVaults = (\<lambda>_. answer), taEnable = (\<lambda>_. answer), taDisable = (\<lambda>_ _ _. answer)\<rparr>)"


text \<open>
  What is left in memory: the sealed record of an item that is not shown (its vault key does not open
  it, or a deletion is pending) stays with the replica when its vault is purged. It is not shown then
  either.
\<close>

definition demo_unread :: "device repository" where
  "demo_unread = demo_opened\<lparr>repos := [(''a'', (demo_entry ''a'' ''i'')\<lparr>entryReplica :=
     (entryReplica (demo_entry ''a'' ''i''))\<lparr>repoItems := []\<rparr>\<rparr>)]\<rparr>"

lemma purge_keeps_unshown_record:
  "map_option (map fst \<circ> authoritativeItems \<circ> entryReplica)
     (js_get (repos (purgeHiddenVaultsForAccount ''a'' [''v''] demo_unread)) ''a'') = Some [''i'']"
  "repositoryGetAll demo_repository (Some ''a'') (purgeHiddenVaultsForAccount ''a'' [''v''] demo_unread) = []"
  by code_simp+

section \<open>A policy that could not be stored\<close>

text \<open>Nothing is verified yet, and the stored policies are old ones that hide nothing.\<close>

definition demo_unverified :: "device repository" where
  "demo_unverified = demo_opened\<lparr>world := demo_two\<rparr>"


end
