(* ===== verification/RefreshCoalescing.thy ===== *)
theory RefreshCoalescing
  imports Prelude
begin

text \<open>
  How the vault repository (packages/core/src/services/vault-repository.ts) coalesces concurrent
  openings of one account: runHydration, which queues every opening of a replica behind the one
  before it, and refreshAccountFromServer, which lets a caller join the server pass in flight or,
  with afterInFlight, queue one more pass behind it.

  The maps of promises are keyed by account id and every operation touches its own account's
  entries only, so the state is the one of an account. A promise is its number: an opening is
  numbered when it is registered, and so is the follow-up a caller with afterInFlight gets. What
  happens between two registrations are the steps of an inductive relation: a call, an opening
  that settles (with a value or an error, which the chains treat alike), a follow-up that continues
  after the pass it waited for. The steps are those between two calls of clear.
\<close>

section \<open>State and operations\<close>

datatype hydration_job = LocalOpening | ServerPass

datatype refresh_promise = PassOf nat | FollowUp nat

record refresh_state =
  hydrationTail :: "(nat \<times> hydration_job) list"
  serverRefreshes :: "nat option"
  queuedServerRefreshes :: "(nat \<times> nat) option"
  continuedFollowUps :: "(nat \<times> refresh_promise) list"
  settledJobs :: "nat list"
  nextPromise :: nat

definition refresh_start :: refresh_state where
  "refresh_start = \<lparr>hydrationTail = [], serverRefreshes = None, queuedServerRefreshes = None,
     continuedFollowUps = [], settledJobs = [], nextPromise = 0\<rparr>"

definition runHydration :: "hydration_job \<Rightarrow> refresh_state \<Rightarrow> nat \<times> refresh_state" where
  "runHydration job s = (nextPromise s,
     s\<lparr>hydrationTail := hydrationTail s @ [(nextPromise s, job)], nextPromise := Suc (nextPromise s)\<rparr>)"

definition refreshAccountFromServer :: "bool \<Rightarrow> refresh_state \<Rightarrow> refresh_promise \<times> refresh_state" where
  "refreshAccountFromServer afterInFlight s = (case serverRefreshes s of
       Some existing \<Rightarrow>
         if \<not> afterInFlight then (PassOf existing, s)
         else (case queuedServerRefreshes s of
             Some (queued, _) \<Rightarrow> (FollowUp queued, s)
           | None \<Rightarrow> (FollowUp (nextPromise s),
               s\<lparr>queuedServerRefreshes := Some (nextPromise s, existing),
                 nextPromise := Suc (nextPromise s)\<rparr>))
     | None \<Rightarrow> (case runHydration ServerPass s of (refresh, s') \<Rightarrow>
         (PassOf refresh, s'\<lparr>serverRefreshes := Some refresh\<rparr>)))"

text \<open>
  The opening at the head of the chain settles: the next one may run, and a server pass removes
  the account's entry.
\<close>

definition openingSettles :: "refresh_state \<Rightarrow> refresh_state" where
  "openingSettles s = (case hydrationTail s of
       [] \<Rightarrow> s
     | (n, job) # rest \<Rightarrow> s\<lparr>hydrationTail := rest, settledJobs := n # settledJobs s,
         serverRefreshes := (if job = ServerPass then None else serverRefreshes s)\<rparr>)"

text \<open>The follow-up whose pass has settled and which has not continued yet.\<close>

definition followUpDue :: "refresh_state \<Rightarrow> bool" where
  "followUpDue s = (case queuedServerRefreshes s of None \<Rightarrow> False
     | Some (_, awaited) \<Rightarrow> awaited \<in> set (settledJobs s))"

definition followUpContinues :: "refresh_state \<Rightarrow> refresh_state" where
  "followUpContinues s = (case queuedServerRefreshes s of
       None \<Rightarrow> s
     | Some (followUp, _) \<Rightarrow>
         (case refreshAccountFromServer False (s\<lparr>queuedServerRefreshes := None\<rparr>) of (p, s') \<Rightarrow>
            s'\<lparr>continuedFollowUps := js_set followUp p (continuedFollowUps s')\<rparr>))"

inductive refresh_step :: "refresh_state \<Rightarrow> refresh_state \<Rightarrow> bool" where
  "refresh_step s s"
| "refresh_step s (snd (refreshAccountFromServer afterInFlight s))"
| "refresh_step s (snd (runHydration LocalOpening s))"
| "hydrationTail s \<noteq> [] \<Longrightarrow> refresh_step s (openingSettles s)"
| "followUpDue s \<Longrightarrow> refresh_step s (followUpContinues s)"

text \<open>A promise is answered by a pass: the one it is, or the one its continuation returned.\<close>

inductive answered :: "refresh_state \<Rightarrow> nat \<Rightarrow> refresh_promise \<Rightarrow> bool" for s where
  "p \<in> set (settledJobs s) \<Longrightarrow> answered s p (PassOf p)"
| "js_get (continuedFollowUps s) f = Some q \<Longrightarrow> answered s p q \<Longrightarrow> answered s p (FollowUp f)"

text \<open>
  A run in which every opening settles and every follow-up continues in time.
\<close>

definition refresh_run :: "(nat \<Rightarrow> refresh_state) \<Rightarrow> bool" where
  "refresh_run run \<longleftrightarrow> run 0 = refresh_start \<and> (\<forall>n. refresh_step (run n) (run (Suc n)))"

definition settling :: "(nat \<Rightarrow> refresh_state) \<Rightarrow> bool" where
  "settling run \<longleftrightarrow> (\<forall>n. hydrationTail (run n) \<noteq> [] \<longrightarrow>
     (\<exists>m\<ge>n. hydrationTail (run m) \<noteq> [] \<and> run (Suc m) = openingSettles (run m)))"

definition continuing :: "(nat \<Rightarrow> refresh_state) \<Rightarrow> bool" where
  "continuing run \<longleftrightarrow> (\<forall>n. followUpDue (run n) \<longrightarrow>
     (\<exists>m\<ge>n. followUpDue (run m) \<and> run (Suc m) = followUpContinues (run m)))"

section \<open>What the states have in common\<close>

text \<open>
  Promises are numbered in order; the entry of the account is the one server pass among the
  openings that have not settled; the follow-up in the queue has not continued and waits for a
  pass that is in flight or has settled.
\<close>

definition numbered :: "refresh_state \<Rightarrow> bool" where
  "numbered s \<longleftrightarrow> distinct (map fst (hydrationTail s)) \<and>
     (\<forall>n \<in> fst ` set (hydrationTail s). n < nextPromise s \<and> n \<notin> set (settledJobs s)) \<and>
     (\<forall>n \<in> set (settledJobs s). n < nextPromise s) \<and>
     (\<forall>f. js_get (continuedFollowUps s) f \<noteq> None \<longrightarrow> f < nextPromise s)"

definition one_pass :: "refresh_state \<Rightarrow> bool" where
  "one_pass s \<longleftrightarrow> (\<forall>n. (n, ServerPass) \<in> set (hydrationTail s) \<longleftrightarrow> serverRefreshes s = Some n)"

definition queue_ok :: "refresh_state \<Rightarrow> bool" where
  "queue_ok s \<longleftrightarrow> (\<forall>f q. queuedServerRefreshes s = Some (f, q) \<longrightarrow> f < nextPromise s \<and>
     js_get (continuedFollowUps s) f = None \<and>
     (q \<in> set (settledJobs s) \<or> serverRefreshes s = Some q))"

definition refresh_ok :: "refresh_state \<Rightarrow> bool" where
  "refresh_ok s \<longleftrightarrow> numbered s \<and> one_pass s \<and> queue_ok s"

definition opened :: "hydration_job \<Rightarrow> refresh_state \<Rightarrow> refresh_state" where
  "opened job s = s\<lparr>hydrationTail := hydrationTail s @ [(nextPromise s, job)], nextPromise := Suc (nextPromise s)\<rparr>"

text \<open>The four things a call may do.\<close>

lemma refresh_cases:
  obtains (joins) p where "serverRefreshes s = Some p" "refreshAccountFromServer a s = (PassOf p, s)" "\<not> a"
  | (waits) p f q where "serverRefreshes s = Some p" "queuedServerRefreshes s = Some (f, q)" "a"
      "refreshAccountFromServer a s = (FollowUp f, s)"
  | (queues) p where "serverRefreshes s = Some p" "queuedServerRefreshes s = None" "a"
      "refreshAccountFromServer a s = (FollowUp (nextPromise s),
         s\<lparr>queuedServerRefreshes := Some (nextPromise s, p), nextPromise := Suc (nextPromise s)\<rparr>)"
  | (starts) "serverRefreshes s = None"
      "refreshAccountFromServer a s = (PassOf (nextPromise s),
         (opened ServerPass s)\<lparr>serverRefreshes := Some (nextPromise s)\<rparr>)"
  by (cases "serverRefreshes s"; cases "queuedServerRefreshes s"; cases a)
     (auto simp: refreshAccountFromServer_def runHydration_def opened_def)

lemma numbered_opened: "numbered s \<Longrightarrow> numbered (opened job s)"
  by (fastforce simp: numbered_def opened_def)

lemma one_pass_opened:
  "one_pass s \<Longrightarrow> one_pass (opened LocalOpening s)"
  "serverRefreshes s = None \<Longrightarrow> one_pass s \<Longrightarrow>
     one_pass ((opened ServerPass s)\<lparr>serverRefreshes := Some (nextPromise s)\<rparr>)"
  by (auto simp: one_pass_def opened_def)

lemma refresh_ok_opened: "refresh_ok s \<Longrightarrow> refresh_ok (opened LocalOpening s)"
  using numbered_opened [of s LocalOpening] one_pass_opened(1) [of s]
  by (auto simp: refresh_ok_def queue_ok_def opened_def)

lemma refresh_ok_start: "refresh_ok refresh_start"
  by (simp add: refresh_ok_def numbered_def one_pass_def queue_ok_def refresh_start_def)

lemma refresh_ok_refresh:
  assumes "refresh_ok s"
  shows "refresh_ok (snd (refreshAccountFromServer a s))"
proof (cases rule: refresh_cases [of s a])
  case (queues p)
  then show ?thesis using assms
    by (auto simp: refresh_ok_def numbered_def one_pass_def queue_ok_def)
next
  case starts
  have "numbered ((opened ServerPass s)\<lparr>serverRefreshes := Some (nextPromise s)\<rparr>)"
    using numbered_opened [of s ServerPass] assms by (simp add: refresh_ok_def numbered_def)
  moreover have "queue_ok ((opened ServerPass s)\<lparr>serverRefreshes := Some (nextPromise s)\<rparr>)"
    using assms starts by (auto simp: refresh_ok_def queue_ok_def opened_def)
  ultimately show ?thesis using assms starts by (simp add: refresh_ok_def one_pass_opened)
qed (use assms in simp_all)

lemma refresh_ok_settle:
  assumes "refresh_ok s"
  shows "refresh_ok (openingSettles s)"
proof (cases "hydrationTail s")
  case (Cons e rest)
  obtain n job where e: "e = (n, job)" by (cases e)
  let ?s = "openingSettles s"
  have eqs: "hydrationTail ?s = rest" "settledJobs ?s = n # settledJobs s"
    "serverRefreshes ?s = (if job = ServerPass then None else serverRefreshes s)"
    "queuedServerRefreshes ?s = queuedServerRefreshes s" "nextPromise ?s = nextPromise s"
    "continuedFollowUps ?s = continuedFollowUps s"
    using Cons e by (simp_all add: openingSettles_def)
  have n: "n \<notin> fst ` set rest" using assms Cons e by (simp add: refresh_ok_def numbered_def)
  have one: "(m, ServerPass) \<in> set (hydrationTail s) \<longleftrightarrow> serverRefreshes s = Some m" for m
    using assms by (simp add: refresh_ok_def one_pass_def)
  have "numbered ?s"
    using assms Cons e n by (auto simp: refresh_ok_def numbered_def eqs)
  moreover have "one_pass ?s"
  proof (cases job)
    case ServerPass
    then have "serverRefreshes s = Some n" using one [of n] Cons e by simp
    then have "(m, ServerPass) \<notin> set rest" for m using one [of m] Cons n by (auto simp: rev_image_eqI)
    with ServerPass show ?thesis by (simp add: one_pass_def eqs)
  next
    case LocalOpening
    then show ?thesis using one Cons e by (simp add: one_pass_def eqs)
  qed
  moreover have "queue_ok ?s"
  proof -
    have "job = ServerPass \<Longrightarrow> serverRefreshes s = Some n" using one [of n] Cons e by simp
    then show ?thesis using assms by (auto simp: refresh_ok_def queue_ok_def eqs)
  qed
  ultimately show ?thesis by (simp add: refresh_ok_def)
qed (use assms in \<open>simp add: openingSettles_def\<close>)

lemma refresh_False: "refreshAccountFromServer False s = (p, s') \<Longrightarrow> \<exists>n. p = PassOf n \<and> serverRefreshes s' = Some n"
  by (cases rule: refresh_cases [of s False]) auto

lemma refresh_continued: "continuedFollowUps (snd (refreshAccountFromServer a s)) = continuedFollowUps s"
  by (cases rule: refresh_cases [of s a]) (auto simp: opened_def)

lemma refresh_next: "nextPromise s \<le> nextPromise (snd (refreshAccountFromServer a s))"
  by (cases rule: refresh_cases [of s a]) (auto simp: opened_def)

lemma refresh_queued: "queuedServerRefreshes s = None \<Longrightarrow>
    queuedServerRefreshes (snd (refreshAccountFromServer False s)) = None"
  by (cases rule: refresh_cases [of s False]) (auto simp: opened_def)

lemma refresh_ok_continue:
  assumes "refresh_ok s"
  shows "refresh_ok (followUpContinues s)"
proof (cases "queuedServerRefreshes s")
  case (Some fq)
  obtain f q where fq: "fq = (f, q)" by (cases fq)
  let ?s0 = "s\<lparr>queuedServerRefreshes := None\<rparr>"
  obtain p s' where r: "refreshAccountFromServer False ?s0 = (p, s')" by fastforce
  have "refresh_ok ?s0" using assms by (simp add: refresh_ok_def numbered_def one_pass_def queue_ok_def)
  from refresh_ok_refresh [OF this, of False] have s': "refresh_ok s'" by (simp add: r)
  have "f < nextPromise s'"
    using refresh_next [of ?s0 False] assms Some fq by (simp add: r refresh_ok_def queue_ok_def)
  moreover have "queuedServerRefreshes s' = None"
    using refresh_queued [of ?s0] by (simp add: r)
  ultimately show ?thesis using s' Some fq r
    by (auto simp: followUpContinues_def refresh_ok_def numbered_def one_pass_def queue_ok_def)
qed (use assms in \<open>simp add: followUpContinues_def\<close>)

lemma refresh_ok_step: "refresh_step s s' \<Longrightarrow> refresh_ok s \<Longrightarrow> refresh_ok s'"
  by (induction rule: refresh_step.induct)
     (simp_all add: refresh_ok_refresh refresh_ok_settle refresh_ok_continue runHydration_def
        refresh_ok_opened [unfolded opened_def])

lemma refresh_ok_run: "refresh_run run \<Longrightarrow> refresh_ok (run n)"
  by (induction n) (auto simp: refresh_run_def refresh_ok_start intro: refresh_ok_step)

text \<open>The pass in flight is among the openings that have not settled.\<close>

lemma pass_in_tail: "refresh_ok s \<Longrightarrow> serverRefreshes s = Some p \<Longrightarrow> p \<in> fst ` set (hydrationTail s)"
  unfolding refresh_ok_def one_pass_def by (metis fst_conv image_eqI)

section \<open>Openings settle in their order\<close>

definition waiting :: "nat \<Rightarrow> refresh_state \<Rightarrow> bool" where
  "waiting n s \<longleftrightarrow> n \<in> fst ` set (hydrationTail s)"

definition ahead :: "nat \<Rightarrow> refresh_state \<Rightarrow> nat" where
  "ahead n s = length (takeWhile (\<lambda>e. fst e \<noteq> n) (hydrationTail s))"

lemma takeWhile_append_in: "x \<in> set xs \<Longrightarrow> \<not> P x \<Longrightarrow> takeWhile P (xs @ ys) = takeWhile P xs"
  by (induction xs) auto

lemma tail_refresh:
  "\<exists>new. hydrationTail (snd (refreshAccountFromServer a s)) = hydrationTail s @ new \<and>
     (\<forall>e \<in> set new. fst e \<ge> nextPromise s)"
  by (cases rule: refresh_cases [of s a]) (auto simp: opened_def)

lemma tail_step:
  assumes "refresh_step s s'"
  obtains (grows) new where "hydrationTail s' = hydrationTail s @ new" "\<forall>e \<in> set new. fst e \<ge> nextPromise s"
      "settledJobs s' = settledJobs s"
  | (settles) "hydrationTail s \<noteq> []" "s' = openingSettles s"
  using assms
proof cases
  case (2 a)
  have "settledJobs (snd (refreshAccountFromServer a s)) = settledJobs s"
    by (cases rule: refresh_cases [of s a]) (auto simp: opened_def)
  with 2 tail_refresh [of a s] show ?thesis by (auto intro: that(1))
next
  case 5
  obtain f q where fq: "queuedServerRefreshes s = Some (f, q)"
    using 5 by (auto simp: followUpDue_def split: option.splits)
  let ?s = "s\<lparr>queuedServerRefreshes := None\<rparr>"
  have "settledJobs (snd (refreshAccountFromServer False ?s)) = settledJobs s"
    by (cases rule: refresh_cases [of ?s False]) (auto simp: opened_def)
  with 5 fq tail_refresh [of False ?s] show ?thesis
    by (auto simp: followUpContinues_def split: prod.splits intro: that(1))
qed (auto simp: runHydration_def intro: that)

lemma settle_waiting:
  assumes "hydrationTail s \<noteq> []" and "waiting n s"
  shows "n \<in> set (settledJobs (openingSettles s)) \<or>
    (waiting n (openingSettles s) \<and> ahead n (openingSettles s) < ahead n s)"
  using assms by (cases "hydrationTail s") (auto simp: openingSettles_def waiting_def ahead_def)

lemma step_waiting:
  assumes "refresh_step s s'" and "waiting n s"
  shows "n \<in> set (settledJobs s') \<or> (waiting n s' \<and> ahead n s' \<le> ahead n s)"
  using assms(1)
proof (cases rule: tail_step)
  case (grows new)
  with assms(2) show ?thesis by (auto simp: waiting_def ahead_def takeWhile_append_in)
next
  case settles
  with settle_waiting [OF settles(1) assms(2)] show ?thesis by auto
qed

lemma step_settled: "refresh_step s s' \<Longrightarrow> n \<in> set (settledJobs s) \<Longrightarrow> n \<in> set (settledJobs s')"
  by (erule tail_step) (auto simp: openingSettles_def split: list.splits)

lemma step_pass:
  assumes "refresh_step s s'" and "(p, ServerPass) \<in> set (hydrationTail s')"
  shows "(p, ServerPass) \<in> set (hydrationTail s) \<or> nextPromise s \<le> p"
  using assms(1)
proof (cases rule: tail_step)
  case (grows new)
  with assms(2) show ?thesis by auto
next
  case settles
  with assms(2) show ?thesis by (auto simp: openingSettles_def split: list.splits)
qed

lemma step_next: "refresh_step s s' \<Longrightarrow> nextPromise s \<le> nextPromise s'"
proof (induction rule: refresh_step.induct)
  case (5 s)
  then show ?case
    using refresh_next [of "s\<lparr>queuedServerRefreshes := None\<rparr>" False]
    by (auto simp: followUpContinues_def split: option.splits prod.splits)
qed (auto simp: refresh_next runHydration_def openingSettles_def split: list.splits)

lemma run_step: "refresh_run run \<Longrightarrow> refresh_step (run n) (run (Suc n))"
  by (simp add: refresh_run_def)

lemma run_settled:
  assumes "refresh_run run" and "i \<le> m" and "n \<in> set (settledJobs (run i))"
  shows "n \<in> set (settledJobs (run m))"
  using assms(2,3) by (induction rule: dec_induct) (auto intro: step_settled run_step [OF assms(1)])

lemma run_waiting:
  assumes "refresh_run run" and "i \<le> m" and "waiting n (run i)"
  shows "n \<in> set (settledJobs (run m)) \<or> (waiting n (run m) \<and> ahead n (run m) \<le> ahead n (run i))"
  using assms(2)
proof (induction rule: dec_induct)
  case base
  with assms(3) show ?case by simp
next
  case (step m)
  then show ?case
    using step_settled [OF run_step [OF assms(1), of m]] step_waiting [OF run_step [OF assms(1), of m], of n]
    by fastforce
qed

lemma run_pass:
  assumes "refresh_run run" and "i \<le> m" and "(p, ServerPass) \<in> set (hydrationTail (run m))"
  shows "(p, ServerPass) \<in> set (hydrationTail (run i)) \<or> nextPromise (run i) \<le> p"
proof -
  have "nextPromise (run i) \<le> nextPromise (run m) \<and>
    ((p, ServerPass) \<in> set (hydrationTail (run m)) \<longrightarrow>
      (p, ServerPass) \<in> set (hydrationTail (run i)) \<or> nextPromise (run i) \<le> p)"
    using assms(2)
  proof (induction rule: dec_induct)
    case (step m)
    then show ?case
      using step_next [OF run_step [OF assms(1), of m]] step_pass [OF run_step [OF assms(1), of m], of p]
      by fastforce
  qed simp
  with assms(3) show ?thesis by blast
qed

lemma opening_settles:
  assumes run: "refresh_run run" "settling run" and "waiting n (run i)"
  shows "\<exists>m\<ge>i. n \<in> set (settledJobs (run m))"
  using assms(3)
proof (induction "ahead n (run i)" arbitrary: i rule: less_induct)
  case less
  have "hydrationTail (run i) \<noteq> []" using less.prems by (auto simp: waiting_def)
  then obtain m where m: "i \<le> m" "hydrationTail (run m) \<noteq> []" "run (Suc m) = openingSettles (run m)"
    using run(2) by (auto simp: settling_def)
  show ?case
  proof (cases "n \<in> set (settledJobs (run m))")
    case True
    with m show ?thesis by blast
  next
    case False
    then have w: "waiting n (run m)" "ahead n (run m) \<le> ahead n (run i)"
      using run_waiting [OF run(1) m(1) less.prems] by auto
    from settle_waiting [OF m(2) w(1)] show ?thesis
    proof
      assume "n \<in> set (settledJobs (openingSettles (run m)))"
      with m show ?thesis by (metis le_SucI)
    next
      assume "waiting n (openingSettles (run m)) \<and> ahead n (openingSettles (run m)) < ahead n (run m)"
      then obtain m' where "m' \<ge> Suc m" "n \<in> set (settledJobs (run m'))"
        using less.hyps [of "Suc m"] m w by auto
      with m show ?thesis by (metis Suc_leD order_trans)
    qed
  qed
qed

section \<open>Follow-ups continue\<close>

lemma continue_eq:
  assumes "queuedServerRefreshes s = Some (f, q)"
  obtains p where "js_get (continuedFollowUps (followUpContinues s)) f = Some (PassOf p)"
    and "serverRefreshes (followUpContinues s) = Some p"
proof -
  obtain p s' where r: "refreshAccountFromServer False (s\<lparr>queuedServerRefreshes := None\<rparr>) = (p, s')" by fastforce
  with refresh_False [OF r] assms that show ?thesis by (auto simp: followUpContinues_def)
qed

lemma step_queued:
  assumes "refresh_step s s'" and "queuedServerRefreshes s = Some (f, q)"
  shows "queuedServerRefreshes s' = Some (f, q) \<or> (followUpDue s \<and> s' = followUpContinues s)"
  using assms(1)
proof cases
  case (2 a)
  then show ?thesis using assms(2) by (cases rule: refresh_cases [of s a]) (auto simp: opened_def)
qed (use assms(2) in \<open>auto simp: runHydration_def openingSettles_def split: list.splits\<close>)

lemma step_continued:
  assumes "refresh_step s s'" and "refresh_ok s" and "js_get (continuedFollowUps s) f = Some x"
  shows "js_get (continuedFollowUps s') f = Some x"
  using assms(1)
proof cases
  case (2 a)
  then show ?thesis using assms(3) by (simp add: refresh_continued)
next
  case 5
  then obtain g q where g: "queuedServerRefreshes s = Some (g, q)" by (auto simp: followUpDue_def split: option.splits)
  then have "g \<noteq> f" using assms(2,3) by (auto simp: refresh_ok_def queue_ok_def)
  with 5 g assms(3) show ?thesis
    using refresh_continued [of False "s\<lparr>queuedServerRefreshes := None\<rparr>"]
    by (auto simp: followUpContinues_def split: prod.splits)
qed (use assms(3) in \<open>auto simp: runHydration_def openingSettles_def split: list.splits\<close>)

lemma run_continued:
  assumes "refresh_run run" and "i \<le> m" and "js_get (continuedFollowUps (run i)) f = Some x"
  shows "js_get (continuedFollowUps (run m)) f = Some x"
  using assms(2,3)
  by (induction rule: dec_induct) (auto intro: step_continued run_step refresh_ok_run assms(1))

lemma run_queued:
  assumes "refresh_run run" and "i \<le> m" and "queuedServerRefreshes (run i) = Some (f, q)"
  shows "queuedServerRefreshes (run m) = Some (f, q) \<or>
    (\<exists>j. i \<le> j \<and> j < m \<and> queuedServerRefreshes (run j) = Some (f, q) \<and> followUpDue (run j) \<and>
      run (Suc j) = followUpContinues (run j))"
  using assms(2)
proof (induction rule: dec_induct)
  case (step m)
  then show ?case using step_queued [OF run_step [OF assms(1), of m]] less_SucI by blast
qed (simp add: assms(3))

lemma follow_up_continues:
  assumes run: "refresh_run run" "settling run" "continuing run"
    and f: "queuedServerRefreshes (run i) = Some (f, q)"
  obtains j where "i \<le> j" "queuedServerRefreshes (run j) = Some (f, q)" "q \<in> set (settledJobs (run j))"
    "run (Suc j) = followUpContinues (run j)"
proof -
  have ok: "refresh_ok (run i)" by (rule refresh_ok_run [OF run(1)])
  have "q \<in> set (settledJobs (run i)) \<or> waiting q (run i)"
    using ok f pass_in_tail [OF ok] by (auto simp: refresh_ok_def queue_ok_def waiting_def)
  then obtain m where m: "i \<le> m" "q \<in> set (settledJobs (run m))"
    using opening_settles [OF run(1,2)] by blast
  have due: "queuedServerRefreshes (run j) = Some (f, q) \<Longrightarrow> followUpDue (run j) \<Longrightarrow> q \<in> set (settledJobs (run j))" for j
    by (simp add: followUpDue_def)
  from run_queued [OF run(1) m(1) f] show ?thesis
  proof
    assume q: "queuedServerRefreshes (run m) = Some (f, q)"
    with m have "followUpDue (run m)" by (simp add: followUpDue_def)
    then obtain m' where m': "m \<le> m'" "followUpDue (run m')" "run (Suc m') = followUpContinues (run m')"
      using run(3) by (auto simp: continuing_def)
    from run_queued [OF run(1) m'(1) q] show ?thesis
    proof
      assume "queuedServerRefreshes (run m') = Some (f, q)"
      with that [of m'] m m' due show ?thesis by auto
    qed (use that m due in \<open>meson order_trans\<close>)
  qed (use that due in meson)
qed


text \<open>A pass in flight, a caller that wants a later one, both settled.\<close>

definition demo_run :: "nat \<Rightarrow> refresh_state" where
  "demo_run n = (let s1 = snd (refreshAccountFromServer False refresh_start);
       s2 = snd (refreshAccountFromServer True s1); s3 = openingSettles s2; s4 = followUpContinues s3
     in if n = 0 then refresh_start else if n = 1 then s1 else if n = 2 then s2 else if n = 3 then s3
        else if n = 4 then s4 else openingSettles s4)"

lemma demo_run_values:
  "demo_run 0 = refresh_start" "demo_run (Suc 0) = snd (refreshAccountFromServer False (demo_run 0))"
  "demo_run 2 = snd (refreshAccountFromServer True (demo_run (Suc 0)))" "demo_run 3 = openingSettles (demo_run 2)"
  "demo_run 4 = followUpContinues (demo_run 3)" "demo_run 5 = openingSettles (demo_run 4)"
  "n \<ge> 5 \<Longrightarrow> demo_run n = demo_run 5"
  by (simp_all add: demo_run_def Let_def)

lemma demo_run_tails:
  "hydrationTail (demo_run 0) = []" "hydrationTail (demo_run 2) \<noteq> []"
  "hydrationTail (demo_run 3) = []" "hydrationTail (demo_run 4) \<noteq> []" "hydrationTail (demo_run 5) = []"
  "\<not> followUpDue (demo_run 0)" "\<not> followUpDue (demo_run (Suc 0))" "\<not> followUpDue (demo_run 2)"
  "followUpDue (demo_run 3)" "\<not> followUpDue (demo_run 4)" "\<not> followUpDue (demo_run 5)"
  by code_simp+

lemma demo_cases: obtains "n = 0" | "n = Suc 0" | "n = 2" | "n = 3" | "n = (4::nat)" | "n \<ge> 5"
  by linarith

lemma demo_run_steps:
  "refresh_step (demo_run 0) (demo_run (Suc 0))" "refresh_step (demo_run (Suc 0)) (demo_run 2)"
  "refresh_step (demo_run 2) (demo_run 3)" "refresh_step (demo_run 3) (demo_run 4)"
  "refresh_step (demo_run 4) (demo_run 5)"
  using refresh_step.intros(2) [of "demo_run 0" False, folded demo_run_values(2)]
    refresh_step.intros(2) [of "demo_run (Suc 0)" True, folded demo_run_values(3)]
    refresh_step.intros(4) [OF demo_run_tails(2), folded demo_run_values(4)]
    refresh_step.intros(5) [OF demo_run_tails(9), folded demo_run_values(5)]
    refresh_step.intros(4) [OF demo_run_tails(4), folded demo_run_values(6)]
  by simp_all

lemma demo_run_is_run: "refresh_run demo_run"
  unfolding refresh_run_def
proof (intro conjI allI)
  show "refresh_step (demo_run n) (demo_run (Suc n))" for n
  proof (cases rule: demo_cases [of n])
    case 6
    then show ?thesis using demo_run_values(7) [of n] demo_run_values(7) [of "Suc n"] by (simp add: refresh_step.intros(1))
  qed (use demo_run_steps in \<open>simp_all add: numeral_2_eq_2 [symmetric]\<close>)
qed (rule demo_run_values(1))

lemma demo_run_fair: "settling demo_run" "continuing demo_run"
proof -
  have "\<exists>m\<ge>n. hydrationTail (demo_run m) \<noteq> [] \<and> demo_run (Suc m) = openingSettles (demo_run m)"
    if "hydrationTail (demo_run n) \<noteq> []" for n
  proof -
    have "n \<noteq> 3" "\<not> n \<ge> 5" using that demo_run_tails(3,5) demo_run_values(7) [of n] by auto
    then have "n \<le> 4" by linarith
    moreover have "hydrationTail (demo_run 4) \<noteq> [] \<and> demo_run (Suc 4) = openingSettles (demo_run 4)"
      using demo_run_tails(4) demo_run_values(6) by simp
    ultimately show ?thesis by blast
  qed
  then show "settling demo_run" by (simp add: settling_def)
  have "n = 3" if "followUpDue (demo_run n)" for n
    using that demo_run_values(7) [of n] demo_run_tails(6-11) by (cases rule: demo_cases [of n]) simp_all
  moreover have "followUpDue (demo_run 3) \<and> demo_run (Suc 3) = followUpContinues (demo_run 3)"
    using demo_run_tails(9) demo_run_values(5) by simp
  ultimately show "continuing demo_run" unfolding continuing_def by blast
qed


text \<open>
  Why the pass need not be one registered after the call while a follow-up is still to continue:
  pass 0 has settled and its follow-up 1 has not run on yet when pass 2 is started; a caller who now
  asks for a later pass is given follow-up 1, which then joins pass 2.
\<close>

definition late_caller :: refresh_state where
  "late_caller = snd (refreshAccountFromServer False (openingSettles
     (snd (refreshAccountFromServer True (snd (refreshAccountFromServer False refresh_start))))))"

lemma late_caller_joins_earlier_pass:
  "followUpDue late_caller" "serverRefreshes late_caller = Some 2" "nextPromise late_caller = 3"
  "refreshAccountFromServer True late_caller = (FollowUp 1, late_caller)"
  "js_get (continuedFollowUps (followUpContinues late_caller)) 1 = Some (PassOf 2)"
  by code_simp+

end
