(* ===== verification/VaultCeremonies.thy ===== *)
theory VaultCeremonies
  imports VaultCrypto VaultMapping
begin

text \<open>
  The account key ceremonies of packages/core/src/services/vault-crypto.ts: changing the password
  or the email, regenerating the Secret Key, preparing a Recovery Key, recovering an account and
  creating one. Each derives new keys, re-wraps in memory everything the old master unlock key
  protects, commits once to the server and only then adopts the new keys on the device.

  The commit and the loading of recovery data are arguments, the store's write operations the
  record account_key_store. JSON texts are those of VaultCrypto.
\<close>

section \<open>Payloads and errors\<close>

datatype ceremony_error =
    Thrown js_error
  | InvalidAccountPasswordError
  | InvalidRecoveryKeyError
  | LocalKeyAdoptionError js_error

type_synonym ('s, 'a) ceremony = "(ceremony_error, 's, 'a) act"

text \<open>An operation of the ports inside a ceremony: what it throws is thrown on.\<close>

definition lift_act :: "(js_error, 's, 'a) act \<Rightarrow> ('s, 'a) ceremony" where
  "lift_act m = (\<lambda>s. case m s of (Inl e, t) \<Rightarrow> (Inl (Thrown e), t) | (Inr a, t) \<Rightarrow> (Inr a, t))"

record wrapped_vault_key_record =
  wvrVaultId :: string
  wvrEncryptedVaultKey :: string

record rekey_payload =
  rpSrpSalt :: string
  rpSrpVerifier :: string
  rpEncryptedPrivateKey :: string
  rpEncryptedVaultKeys :: "wrapped_vault_key_record list"
  rpKdfParams :: kdf_profile

record rekeyed_account = rekey_payload +
  rkVaultKeys :: "vault_key_entry list"
  rkMasterUnlockKey :: key_ref

definition toReKeyPayload :: "rekeyed_account \<Rightarrow> rekey_payload" where
  "toReKeyPayload r =
     \<lparr>rpSrpSalt = rpSrpSalt r, rpSrpVerifier = rpSrpVerifier r,
      rpEncryptedPrivateKey = rpEncryptedPrivateKey r,
      rpEncryptedVaultKeys = rpEncryptedVaultKeys r, rpKdfParams = rpKdfParams r\<rparr>"

record stored_session =
  ssExpiresAt :: "int option"
  ssSessionId :: "string option"

text \<open>What a ceremony writes to the account store, with what it reads of it.\<close>

record 's account_key_store =
  ksStore :: "'s crypto_store"
  ksGetStoredSessionData :: "string \<Rightarrow> (js_error, 's, stored_session option) act"
  ksStorePinnedKdfProfile :: "kdf_profile \<Rightarrow> string \<Rightarrow> (js_error, 's, unit) act"
  ksStoreSecretKey :: "string \<Rightarrow> string \<Rightarrow> (js_error, 's, unit) act"
  ksStoreEncryptedPrivateKey :: "string \<Rightarrow> string \<Rightarrow> (js_error, 's, unit) act"
  ksStoreVaultKeys :: "vault_key_entry list \<Rightarrow> string \<Rightarrow> (js_error, 's, unit) act"
  ksStoreSessionData :: "key_ref \<Rightarrow> string \<Rightarrow> string \<Rightarrow> string \<Rightarrow> int option \<Rightarrow> string option \<Rightarrow> (js_error, 's, unit) act"
  ksSetMasterUnlockKey :: "key_ref \<Rightarrow> string \<Rightarrow> (js_error, 's, unit) act"

definition NO_LOCAL_ACCOUNT :: "'s crypto_store" where
  "NO_LOCAL_ACCOUNT =
     \<lparr>csGetMasterUnlockKey = (\<lambda>_. ok None), csGetEncryptedPrivateKey = (\<lambda>_. ok None),
      csGetSessionUserId = (\<lambda>_. ok None), csGetPinnedKdfProfile = (\<lambda>_. ok None)\<rparr>"

definition formattedKeyHint :: "string \<Rightarrow> string" where
  "formattedKeyHint key = (case split_at CHR ''-'' key of
       a # b # _ \<Rightarrow> a @ ''-'' @ b | _ \<Rightarrow> [])"

definition getSecretKeyHint where
  "getSecretKeyHint key = formattedKeyHint key"

definition getRecoveryKeyHint where
  "getRecoveryKeyHint key = formattedKeyHint key"

section \<open>Re-wrapping\<close>

text \<open>The version a wrapped key was sealed at; a text that is no envelope or has no context throws.\<close>

definition ownerWrapKeyVersion :: "'s crypto_port \<Rightarrow> string \<Rightarrow> (js_error, 's, int) act" where
  "ownerWrapKeyVersion cp text = (case Option.bind (parseEnvelope cp text) wkContext of
       None \<Rightarrow> throw (JsError ''Cannot read properties of undefined'')
     | Some c \<Rightarrow> (case wcKeyVersion c of
         None \<Rightarrow> throw (JsError ''Invalid vault key wrap version'')
       | Some n \<Rightarrow> if n < 1 then throw (JsError ''Invalid vault key wrap version'') else ok n))"

text \<open>One owner-wrapped key: open it under the old key, wrap it under the new one, drop it.\<close>

definition rewrap ::
  "'s crypto_port \<Rightarrow> key_ref \<Rightarrow> key_ref \<Rightarrow> string \<Rightarrow> string \<Rightarrow> string \<Rightarrow> (js_error, 's, string) act" where
  "rewrap cp old new user v encrypted =
     and_then (unwrapVaultKey cp
        \<lparr>uwEncryptedVaultKey = encrypted, uwMasterUnlockKey = old, uwEncryptedPrivateKey = None,
         uwExpectedVaultId = Some v, uwExpectedUserId = Some user\<rparr>) (\<lambda>vaultKey.
     finally_do
       (and_then (ownerWrapKeyVersion cp encrypted) (\<lambda>version.
          wrapVaultKeyForOwner cp vaultKey new v user version))
       (cpDestroyKey cp vaultKey))"

text \<open>The loop over the account's keys: a key that is not wrapped for the owner is passed on.\<close>

fun rewrap_entries ::
  "'s crypto_port \<Rightarrow> key_ref \<Rightarrow> key_ref \<Rightarrow> string \<Rightarrow> vault_key_entry list \<Rightarrow>
   (js_error, 's, wrapped_vault_key_record list \<times> vault_key_entry list) act" where
  "rewrap_entries cp old new user [] = ok ([], [])"
| "rewrap_entries cp old new user (e # es) =
     (if \<not> isOwnerWrappedVaultKey cp (vkEncryptedVaultKey e)
      then and_then (rewrap_entries cp old new user es) (\<lambda>(ws, ks). ok (ws, e # ks))
      else and_then (rewrap cp old new user (vkVaultId e) (vkEncryptedVaultKey e)) (\<lambda>text.
           and_then (rewrap_entries cp old new user es) (\<lambda>(ws, ks).
             ok (\<lparr>wvrVaultId = vkVaultId e, wvrEncryptedVaultKey = text\<rparr> # ws,
                 e\<lparr>vkEncryptedVaultKey := text\<rparr> # ks))))"

record rekey_input =
  riAccountId :: string
  riUserId :: string
  riCurrentEmail :: string
  riNextEmail :: string
  riCurrentPassword :: string
  riNextPassword :: string
  riCurrentSecretKey :: string
  riNextSecretKey :: string
  riEncryptedPrivateKey :: string
  riVaultKeys :: "vault_key_entry list"

definition pin_missing :: js_error where
  "pin_missing = JsError ''Pinned KDF profile missing; sign in again''"

text \<open>A failure to open the private key is reported as a wrong password.\<close>

definition prove_password :: "'s crypto_port \<Rightarrow> string \<Rightarrow> key_ref \<Rightarrow> ('s, plaintext) ceremony" where
  "prove_password cp encryptedPrivateKey muk =
     catch (lift_act (decryptPrivateKey cp encryptedPrivateKey muk)) (\<lambda>_. throw InvalidAccountPasswordError)"

text \<open>The part of reKeyAccount that owns the next master unlock key.\<close>

definition seal_account ::
  "'s crypto_port \<Rightarrow> rekey_input \<Rightarrow> key_ref \<Rightarrow> plaintext \<Rightarrow> derived_keys \<Rightarrow> (js_error, 's, rekeyed_account) act" where
  "seal_account cp input current privateKeyPem next =
     and_then (cpGenerateSrpRegistration cp (dkSrpPassword next)) (\<lambda>(salt, verifier).
     and_then (cpEncrypt cp privateKeyPem (dkMasterUnlockKey next) None) (\<lambda>d.
     and_then (rewrap_entries cp current (dkMasterUnlockKey next) (riUserId input) (riVaultKeys input)) (\<lambda>(ws, ks).
     ok \<lparr>rpSrpSalt = salt, rpSrpVerifier = verifier, rpEncryptedPrivateKey = printData cp d,
         rpEncryptedVaultKeys = ws, rpKdfParams = currentKdfProfile, rkVaultKeys = ks,
         rkMasterUnlockKey = dkMasterUnlockKey next\<rparr>)))"

text \<open>try .. catch that destroys a key and throws on.\<close>

definition or_destroy :: "'s crypto_port \<Rightarrow> key_ref \<Rightarrow> ('s, 'a) ceremony \<Rightarrow> ('s, 'a) ceremony" where
  "or_destroy cp key m = catch m (\<lambda>e. and_then (lift_act (cpDestroyKey cp key)) (\<lambda>_. throw e))"

definition then_destroy :: "'s crypto_port \<Rightarrow> key_ref \<Rightarrow> ('s, 'a) ceremony \<Rightarrow> ('s, 'a) ceremony" where
  "then_destroy cp key m = finally_do m (lift_act (cpDestroyKey cp key))"

definition reKeyAccount ::
  "'s crypto_port \<Rightarrow> 's account_key_store \<Rightarrow> rekey_input \<Rightarrow> ('s, rekeyed_account) ceremony" where
  "reKeyAccount cp ks input =
     and_then (lift_act (csGetPinnedKdfProfile (ksStore ks) (riAccountId input))) (\<lambda>pin. case pin of
       None \<Rightarrow> throw (Thrown pin_missing)
     | Some profile \<Rightarrow>
         and_then (lift_act (deriveAccountKeys cp (ksStore ks)
            \<lparr>dkPassword = riCurrentPassword input, dkSecretKey = riCurrentSecretKey input,
             dkEmail = riCurrentEmail input, dkProfile = profile,
             dkAccountId = Some (riAccountId input), dkRecoveryKey = None\<rparr>)) (\<lambda>current.
         then_destroy cp (dkMasterUnlockKey current)
           (and_then (prove_password cp (riEncryptedPrivateKey input) (dkMasterUnlockKey current)) (\<lambda>pem.
            and_then (lift_act (or_throw (validateKdfProfileOrThrow (untrusted currentKdfProfile) None))) (\<lambda>_.
            and_then (lift_act (deriveAccountKeys cp (ksStore ks)
               \<lparr>dkPassword = riNextPassword input, dkSecretKey = riNextSecretKey input,
                dkEmail = riNextEmail input, dkProfile = currentKdfProfile,
                dkAccountId = None, dkRecoveryKey = None\<rparr>)) (\<lambda>next.
            or_destroy cp (dkMasterUnlockKey next)
              (lift_act (seal_account cp input (dkMasterUnlockKey current) pem next))))))))"

definition adopt :: "(js_error, 's, unit) act \<Rightarrow> ('s, unit) ceremony" where
  "adopt work = (\<lambda>s. case work s of (Inl e, t) \<Rightarrow> (Inl (LocalKeyAdoptionError e), t) | (Inr u, t) \<Rightarrow> (Inr u, t))"

section \<open>Password and email\<close>

record account_input =
  aiAccountId :: string
  aiEmail :: string
  aiUserId :: string
  aiCurrentPassword :: string
  aiSecretKey :: string
  aiEncryptedPrivateKey :: string
  aiVaultKeys :: "vault_key_entry list"

definition rekey_of :: "account_input \<Rightarrow> string \<Rightarrow> string \<Rightarrow> string \<Rightarrow> rekey_input" where
  "rekey_of a nextEmail nextPassword nextSecretKey =
     \<lparr>riAccountId = aiAccountId a, riUserId = aiUserId a, riCurrentEmail = aiEmail a,
      riNextEmail = nextEmail, riCurrentPassword = aiCurrentPassword a, riNextPassword = nextPassword,
      riCurrentSecretKey = aiSecretKey a, riNextSecretKey = nextSecretKey,
      riEncryptedPrivateKey = aiEncryptedPrivateKey a, riVaultKeys = aiVaultKeys a\<rparr>"

text \<open>Commit, drop the new key, adopt the pin: the end of a ceremony that revokes every session.\<close>

definition commit_and_pin ::
  "'s crypto_port \<Rightarrow> 's account_key_store \<Rightarrow> string \<Rightarrow> rekeyed_account \<Rightarrow> (js_error, 's, unit) act \<Rightarrow>
   ('s, kdf_profile) ceremony" where
  "commit_and_pin cp ks acc r commit =
     and_then (then_destroy cp (rkMasterUnlockKey r) (lift_act commit)) (\<lambda>_.
     and_then (adopt (ksStorePinnedKdfProfile ks (rpKdfParams r) acc)) (\<lambda>_.
     ok (rpKdfParams r)))"

definition changeAccountPassword ::
  "'s crypto_port \<Rightarrow> 's account_key_store \<Rightarrow> (rekey_payload \<Rightarrow> (js_error, 's, unit) act) \<Rightarrow>
   account_input \<Rightarrow> string \<Rightarrow> ('s, kdf_profile) ceremony" where
  "changeAccountPassword cp ks commit a newPassword =
     and_then (reKeyAccount cp ks (rekey_of a (aiEmail a) newPassword (aiSecretKey a))) (\<lambda>r.
       commit_and_pin cp ks (aiAccountId a) r (commit (toReKeyPayload r)))"

definition normalizedEmail :: "string \<Rightarrow> string" where
  "normalizedEmail email = map to_lower_char (trim email)"

definition changeAccountEmail ::
  "'s crypto_port \<Rightarrow> 's account_key_store \<Rightarrow> (rekey_payload \<Rightarrow> string \<Rightarrow> (js_error, 's, unit) act) \<Rightarrow>
   account_input \<Rightarrow> string \<Rightarrow> ('s, kdf_profile \<times> string) ceremony" where
  "changeAccountEmail cp ks commit a newEmail = (let email = normalizedEmail newEmail in
     and_then (reKeyAccount cp ks (rekey_of a email (aiCurrentPassword a) (aiSecretKey a))) (\<lambda>r.
     and_then (commit_and_pin cp ks (aiAccountId a) r (commit (toReKeyPayload r) email)) (\<lambda>profile.
     ok (profile, email))))"

section \<open>The Secret Key\<close>

definition adopt_rekeyed ::
  "'s account_key_store \<Rightarrow> account_input \<Rightarrow> string \<Rightarrow> rekeyed_account \<Rightarrow> (js_error, 's, unit) act" where
  "adopt_rekeyed ks a newSecretKey r = (let acc = aiAccountId a in
     and_then (ksStorePinnedKdfProfile ks (rpKdfParams r) acc) (\<lambda>_.
     and_then (ksStoreSecretKey ks newSecretKey acc) (\<lambda>_.
     and_then (ksStoreEncryptedPrivateKey ks (rpEncryptedPrivateKey r) acc) (\<lambda>_.
     and_then (ksStoreVaultKeys ks (rkVaultKeys r) acc) (\<lambda>_.
     and_then (ksGetStoredSessionData ks acc) (\<lambda>session.
     and_then (ksStoreSessionData ks (rkMasterUnlockKey r) acc (aiEmail a) (aiUserId a)
                 (Option.bind session ssExpiresAt) (Option.bind session ssSessionId)) (\<lambda>_.
     ksSetMasterUnlockKey ks (rkMasterUnlockKey r) acc)))))))"

definition regenerateAccountSecretKey ::
  "'s crypto_port \<Rightarrow> 's account_key_store \<Rightarrow> (rekey_payload \<Rightarrow> string \<Rightarrow> (js_error, 's, unit) act) \<Rightarrow>
   account_input \<Rightarrow> string \<Rightarrow> ('s, kdf_profile) ceremony" where
  "regenerateAccountSecretKey cp ks commit a newSecretKey =
     and_then (reKeyAccount cp ks (rekey_of a (aiEmail a) (aiCurrentPassword a) newSecretKey)) (\<lambda>r.
     and_then (or_destroy cp (rkMasterUnlockKey r)
                 (lift_act (commit (toReKeyPayload r) (getSecretKeyHint newSecretKey)))) (\<lambda>_.
     and_then (or_destroy cp (rkMasterUnlockKey r) (adopt (adopt_rekeyed ks a newSecretKey r))) (\<lambda>_.
     ok (rpKdfParams r))))"

section \<open>The Recovery Key\<close>

record prepared_recovery_key =
  prRecoveryKey :: string
  prEncryptedMasterKey :: string
  prRecoveryKeyHint :: string

definition no_recovery_envelope :: js_error where
  "no_recovery_envelope = JsError ''Recovery envelope was not produced''"

text \<open>The vault keys of the input are not used.\<close>

definition prepareRecoveryKey ::
  "'s crypto_port \<Rightarrow> 's account_key_store \<Rightarrow> account_input \<Rightarrow> ('s, prepared_recovery_key) ceremony" where
  "prepareRecoveryKey cp ks a =
     and_then (lift_act (csGetPinnedKdfProfile (ksStore ks) (aiAccountId a))) (\<lambda>pin. case pin of
       None \<Rightarrow> throw (Thrown pin_missing)
     | Some profile \<Rightarrow>
         and_then (lift_act (cpGenerateRecoveryKey cp)) (\<lambda>recoveryKey.
         and_then (lift_act (deriveAccountKeys cp (ksStore ks)
            \<lparr>dkPassword = aiCurrentPassword a, dkSecretKey = aiSecretKey a, dkEmail = aiEmail a,
             dkProfile = profile, dkAccountId = Some (aiAccountId a), dkRecoveryKey = Some recoveryKey\<rparr>)) (\<lambda>derived.
         then_destroy cp (dkMasterUnlockKey derived)
           (and_then (prove_password cp (aiEncryptedPrivateKey a) (dkMasterUnlockKey derived)) (\<lambda>_.
            case dkEncryptedMasterKey derived of
              None \<Rightarrow> throw (Thrown no_recovery_envelope)
            | Some d \<Rightarrow> ok \<lparr>prRecoveryKey = recoveryKey, prEncryptedMasterKey = printData cp d,
                            prRecoveryKeyHint = getRecoveryKeyHint recoveryKey\<rparr>)))))"

record recovery_data =
  rdUserId :: string
  rdEncryptedMasterKey :: string
  rdEncryptedPrivateKey :: string
  rdVaultKeys :: "wrapped_vault_key_record list"

record reset_payload = rekey_payload +
  rsEncryptedMasterKey :: string
  rsRecoveryKeyHint :: string
  rsSecretKeyHint :: string

record recovered_account =
  raUserId :: string
  raSecretKey :: string
  raKdfProfile :: kdf_profile
  raEncryptedPrivateKey :: string
  raMasterUnlockKey :: key_ref

fun rewrap_records ::
  "'s crypto_port \<Rightarrow> key_ref \<Rightarrow> key_ref \<Rightarrow> string \<Rightarrow> wrapped_vault_key_record list \<Rightarrow>
   (js_error, 's, wrapped_vault_key_record list) act" where
  "rewrap_records cp old new user [] = ok []"
| "rewrap_records cp old new user (e # es) =
     (if \<not> isOwnerWrappedVaultKey cp (wvrEncryptedVaultKey e) then rewrap_records cp old new user es
      else and_then (rewrap cp old new user (wvrVaultId e) (wvrEncryptedVaultKey e)) (\<lambda>text.
           and_then (rewrap_records cp old new user es) (\<lambda>ws.
             ok (e\<lparr>wvrEncryptedVaultKey := text\<rparr> # ws))))"

text \<open>The part of recoverAccount that owns the next master unlock key, the commit included.\<close>

definition reset_account ::
  "'s crypto_port \<Rightarrow> (reset_payload \<Rightarrow> (js_error, 's, 'r) act) \<Rightarrow> recovery_data \<Rightarrow> string \<Rightarrow> string \<Rightarrow>
   key_ref \<Rightarrow> plaintext \<Rightarrow> derived_keys \<Rightarrow> (js_error, 's, recovered_account \<times> 'r) act" where
  "reset_account cp commit rd recoveryKey secretKey old pem next = (case dkEncryptedMasterKey next of
       None \<Rightarrow> throw no_recovery_envelope
     | Some sealed \<Rightarrow>
         and_then (cpGenerateSrpRegistration cp (dkSrpPassword next)) (\<lambda>(salt, verifier).
         and_then (cpEncrypt cp pem (dkMasterUnlockKey next) None) (\<lambda>d.
         and_then (rewrap_records cp old (dkMasterUnlockKey next) (rdUserId rd) (rdVaultKeys rd)) (\<lambda>ws.
         and_then (commit
            \<lparr>rpSrpSalt = salt, rpSrpVerifier = verifier, rpEncryptedPrivateKey = printData cp d,
             rpEncryptedVaultKeys = ws, rpKdfParams = currentKdfProfile,
             rsEncryptedMasterKey = printData cp sealed,
             rsRecoveryKeyHint = getRecoveryKeyHint recoveryKey,
             rsSecretKeyHint = getSecretKeyHint secretKey\<rparr>) (\<lambda>result.
         ok (\<lparr>raUserId = rdUserId rd, raSecretKey = secretKey, raKdfProfile = currentKdfProfile,
              raEncryptedPrivateKey = printData cp d, raMasterUnlockKey = dkMasterUnlockKey next\<rparr>, result))))))"

definition recover_with ::
  "'s crypto_port \<Rightarrow> (reset_payload \<Rightarrow> (js_error, 's, 'r) act) \<Rightarrow> recovery_data \<Rightarrow> string \<Rightarrow> string \<Rightarrow> string \<Rightarrow>
   key_ref \<times> key_ref \<Rightarrow> ('s, recovered_account \<times> 'r) ceremony" where
  "recover_with cp commit rd email recoveryKey newPassword = (\<lambda>(oldAuth, oldMuk).
     then_destroy cp oldMuk
       (and_then (lift_act (cpDestroyKey cp oldAuth)) (\<lambda>_.
        and_then (lift_act (decryptPrivateKey cp (rdEncryptedPrivateKey rd) oldMuk)) (\<lambda>pem.
        and_then (lift_act (cpGenerateSecretKey cp)) (\<lambda>secretKey.
        and_then (lift_act (or_throw (validateKdfProfileOrThrow (untrusted currentKdfProfile) None))) (\<lambda>_.
        and_then (lift_act (deriveAccountKeys cp NO_LOCAL_ACCOUNT
           \<lparr>dkPassword = newPassword, dkSecretKey = secretKey, dkEmail = email,
            dkProfile = currentKdfProfile, dkAccountId = None, dkRecoveryKey = Some recoveryKey\<rparr>)) (\<lambda>next.
        or_destroy cp (dkMasterUnlockKey next)
          (lift_act (reset_account cp commit rd recoveryKey secretKey oldMuk pem next)))))))))"

definition recoverAccount ::
  "'s crypto_port \<Rightarrow> (js_error, 's, recovery_data) act \<Rightarrow> (reset_payload \<Rightarrow> (js_error, 's, 'r) act) \<Rightarrow>
   string \<Rightarrow> string \<Rightarrow> string \<Rightarrow> ('s, recovered_account \<times> 'r) ceremony" where
  "recoverAccount cp loadRecoveryData commit email recoveryKey newPassword =
     and_then (lift_act (cpValidateRecoveryKey cp recoveryKey)) (\<lambda>valid.
     if \<not> valid then throw InvalidRecoveryKeyError
     else and_then (lift_act loadRecoveryData) (\<lambda>rd.
          and_then (lift_act (and_then (parseEncryptedData cp (rdEncryptedMasterKey rd)) (\<lambda>d.
                      cpDecryptMasterKey cp d recoveryKey email))) (\<lambda>oldMasterKey.
          and_then (lift_act (finally_do (cpDeriveKeysFromMasterKey cp oldMasterKey email)
                                (cpDestroyKey cp oldMasterKey))) (\<lambda>old.
          recover_with cp commit rd email recoveryKey newPassword old))))"

section \<open>A new account\<close>

record created_account_keys =
  ckUserId :: string
  ckVaultId :: string
  ckKdfProfile :: kdf_profile
  ckSrpSalt :: string
  ckSrpVerifier :: string
  ckPublicKey :: string
  ckEncryptedPrivateKey :: string
  ckEncryptedMasterKey :: string
  ckEncryptedVaultKey :: string
  ckSecretKeyHint :: string
  ckRecoveryKeyHint :: string
  ckMasterUnlockKey :: key_ref

text \<open>generateRsaKeyPair answers the public and the private key.\<close>

definition register_account ::
  "'s crypto_port \<Rightarrow> (created_account_keys \<Rightarrow> (js_error, 's, 'r) act) \<Rightarrow> string \<Rightarrow> string \<Rightarrow> derived_keys \<Rightarrow>
   (js_error, 's, created_account_keys \<times> 'r) act" where
  "register_account cp commit secretKey recoveryKey derived = (case dkEncryptedMasterKey derived of
       None \<Rightarrow> throw no_recovery_envelope
     | Some sealed \<Rightarrow> (let muk = dkMasterUnlockKey derived in
         and_then (cpGenerateUuid cp) (\<lambda>user.
         and_then (cpGenerateUuid cp) (\<lambda>v.
         and_then (cpGenerateSrpRegistration cp (dkSrpPassword derived)) (\<lambda>(salt, verifier).
         and_then (cpGenerateRsaKeyPair cp) (\<lambda>(publicKey, privateKey).
         and_then (cpEncrypt cp (OtherText privateKey) muk None) (\<lambda>d.
         and_then (cpGenerateEncryptionKey cp) (\<lambda>vaultKey.
         and_then (finally_do (wrapVaultKeyForOwner cp vaultKey muk v user 1) (cpDestroyKey cp vaultKey)) (\<lambda>text.
         (let keys = \<lparr>ckUserId = user, ckVaultId = v, ckKdfProfile = currentKdfProfile,
            ckSrpSalt = salt, ckSrpVerifier = verifier, ckPublicKey = publicKey,
            ckEncryptedPrivateKey = printData cp d, ckEncryptedMasterKey = printData cp sealed,
            ckEncryptedVaultKey = text, ckSecretKeyHint = getSecretKeyHint secretKey,
            ckRecoveryKeyHint = getRecoveryKeyHint recoveryKey, ckMasterUnlockKey = muk\<rparr>
          in and_then (commit keys) (\<lambda>result. ok (keys, result))))))))))))"

definition createAccountKeys ::
  "'s crypto_port \<Rightarrow> (created_account_keys \<Rightarrow> (js_error, 's, 'r) act) \<Rightarrow> string \<Rightarrow> string \<Rightarrow> string \<Rightarrow> string \<Rightarrow>
   ('s, created_account_keys \<times> 'r) ceremony" where
  "createAccountKeys cp commit email password secretKey recoveryKey =
     and_then (lift_act (or_throw (validateKdfProfileOrThrow (untrusted currentKdfProfile) None))) (\<lambda>_.
     and_then (lift_act (deriveAccountKeys cp NO_LOCAL_ACCOUNT
        \<lparr>dkPassword = password, dkSecretKey = secretKey, dkEmail = email,
         dkProfile = currentKdfProfile, dkAccountId = None, dkRecoveryKey = Some recoveryKey\<rparr>)) (\<lambda>derived.
     or_destroy cp (dkMasterUnlockKey derived)
       (lift_act (register_account cp commit secretKey recoveryKey derived))))"

end
