(* ===== verification/CeremonyProps.thy ===== *)
theory CeremonyProps
  imports VaultCeremonies
begin

text \<open>
  What the key ceremonies guarantee of a key table: no key minted on the way is left behind, and
  every vault key an account owns is found, unchanged, under the new master unlock key. The locale
  key_table is the documented behaviour of CryptoPort and of the account store this rests on; what
  lies outside the key table (the server and the local store) is the view outside.
\<close>

section \<open>Key tables\<close>

text \<open>The live keys with what they hold, and everything else.\<close>

definition table :: "('s \<Rightarrow> key_ref \<rightharpoonup> 'k) \<Rightarrow> ('s \<Rightarrow> 'o) \<Rightarrow> (key_ref \<rightharpoonup> 'k) \<Rightarrow> 'o \<Rightarrow> 's \<Rightarrow> bool" where
  "table keys outside m out s \<longleftrightarrow> keys s = m \<and> outside s = out"

text \<open>An operation that touches neither, and one that enters exactly the key it returns.\<close>

definition quiet :: "('s \<Rightarrow> key_ref \<rightharpoonup> 'k) \<Rightarrow> ('s \<Rightarrow> 'o) \<Rightarrow> ('e, 's, 'a) act \<Rightarrow> bool" where
  "quiet keys outside a \<longleftrightarrow> (\<forall>s. keys (snd (a s)) = keys s \<and> outside (snd (a s)) = outside s)"

definition mints :: "('s \<Rightarrow> key_ref \<rightharpoonup> 'k) \<Rightarrow> ('s \<Rightarrow> 'o) \<Rightarrow> ('e, 's, key_ref) act \<Rightarrow> bool" where
  "mints keys outside a \<longleftrightarrow> (\<forall>s r t. a s = (r, t) \<longrightarrow> outside t = outside s \<and>
     (case r of Inl _ \<Rightarrow> keys t = keys s
      | Inr k \<Rightarrow> keys s k = None \<and> (\<exists>x. keys t = (keys s)(k \<mapsto> x))))"

definition mints_two :: "('s \<Rightarrow> key_ref \<rightharpoonup> 'k) \<Rightarrow> ('s \<Rightarrow> 'o) \<Rightarrow> ('e, 's, key_ref \<times> key_ref) act \<Rightarrow> bool" where
  "mints_two keys outside a \<longleftrightarrow> (\<forall>s r t. a s = (r, t) \<longrightarrow> outside t = outside s \<and>
     (case r of Inl _ \<Rightarrow> keys t = keys s
      | Inr (k, l) \<Rightarrow> k \<noteq> l \<and> keys s k = None \<and> keys s l = None \<and>
          (\<exists>x y. keys t = (keys s)(l \<mapsto> y, k \<mapsto> x))))"

definition sealed_context :: "string \<Rightarrow> string \<Rightarrow> int \<Rightarrow> wrap_context" where
  "sealed_context v user n =
     \<lparr>wcVaultId = v, wcUserId = user, wcKeyVersion = Some n, wcPurpose = VAULT_KEY_WRAP_PURPOSE\<rparr>"

text \<open>A wrapped key whose text opens, under a master unlock key that holds u, to the key x.\<close>

definition holds_key ::
  "'s crypto_port \<Rightarrow> (encrypted_data \<Rightarrow> encryption_context \<Rightarrow> 'k \<Rightarrow> 'k option) \<Rightarrow> 'k \<Rightarrow> string \<Rightarrow> wrap_context \<Rightarrow> 'k \<Rightarrow> bool" where
  "holds_key cp opens u text c x \<longleftrightarrow> (\<exists>e n. parseEnvelope cp text = Some e \<and> wkContext e = Some c \<and>
     wcPurpose c = VAULT_KEY_WRAP_PURPOSE \<and> wcKeyVersion c = Some n \<and> n \<ge> 1 \<and>
     opens (wkData e) (buildVaultKeyEncryptionContext (wcVaultId c) (wcUserId c) n) u = Some x)"

text \<open>A text that decrypts under u to the plaintext p.\<close>

definition holds_text ::
  "'s crypto_port \<Rightarrow> (encrypted_data \<Rightarrow> encryption_context option \<Rightarrow> 'k \<Rightarrow> plaintext option) \<Rightarrow> 'k \<Rightarrow> string \<Rightarrow> plaintext \<Rightarrow> bool" where
  "holds_text cp reads u text p \<longleftrightarrow> (\<exists>d. parseData cp text = Some d \<and> reads d None u = Some p)"

text \<open>
  A wrapped key carried over from the master unlock key u to w: both texts hold the same key, at
  the same version, and the new one is bound to the vault and the user that asked for it.
\<close>

definition source_key ::
  "'s crypto_port \<Rightarrow> (encrypted_data \<Rightarrow> encryption_context \<Rightarrow> 'k \<Rightarrow> 'k option) \<Rightarrow> 'k \<Rightarrow> string \<Rightarrow> string \<Rightarrow> string \<Rightarrow> int \<Rightarrow> 'k \<Rightarrow> bool" where
  "source_key cp opens u user v text n x \<longleftrightarrow> (\<exists>c. holds_key cp opens u text c x \<and> wcKeyVersion c = Some n \<and>
     (v \<noteq> [] \<longrightarrow> wcVaultId c = v) \<and> (user \<noteq> [] \<longrightarrow> wcUserId c = user))"

definition carried ::
  "'s crypto_port \<Rightarrow> (encrypted_data \<Rightarrow> encryption_context \<Rightarrow> 'k \<Rightarrow> 'k option) \<Rightarrow> 'k \<Rightarrow> 'k \<Rightarrow> string \<Rightarrow> string \<Rightarrow> string \<Rightarrow> string \<Rightarrow> bool" where
  "carried cp opens u w user v old new \<longleftrightarrow> (\<exists>n x. source_key cp opens u user v old n x \<and>
     holds_key cp opens w new (sealed_context v user n) x)"

definition carried_entry ::
  "'s crypto_port \<Rightarrow> (encrypted_data \<Rightarrow> encryption_context \<Rightarrow> 'k \<Rightarrow> 'k option) \<Rightarrow> 'k \<Rightarrow> 'k \<Rightarrow> string \<Rightarrow> vault_key_entry \<Rightarrow> vault_key_entry \<Rightarrow> bool" where
  "carried_entry cp opens u w user e e' \<longleftrightarrow>
     (if isOwnerWrappedVaultKey cp (vkEncryptedVaultKey e)
      then (\<exists>text. e' = e\<lparr>vkEncryptedVaultKey := text\<rparr> \<and>
              carried cp opens u w user (vkVaultId e) (vkEncryptedVaultKey e) text)
      else e' = e)"

definition owner_records :: "'s crypto_port \<Rightarrow> vault_key_entry list \<Rightarrow> wrapped_vault_key_record list" where
  "owner_records cp es =
     map (\<lambda>e. \<lparr>wvrVaultId = vkVaultId e, wvrEncryptedVaultKey = vkEncryptedVaultKey e\<rparr>)
       (filter (\<lambda>e. isOwnerWrappedVaultKey cp (vkEncryptedVaultKey e)) es)"

text \<open>Everything the old master unlock key protects is in the payload under the new one.\<close>

definition carries_over where
  "carries_over cp opens reads input r u w \<longleftrightarrow>
     rpKdfParams r = currentKdfProfile \<and>
     list_all2 (carried_entry cp opens u w (riUserId input)) (riVaultKeys input) (rkVaultKeys r) \<and>
     rpEncryptedVaultKeys r = owner_records cp (rkVaultKeys r) \<and>
     (\<exists>pem. holds_text cp reads u (riEncryptedPrivateKey input) pem \<and>
            holds_text cp reads w (rpEncryptedPrivateKey r) pem)"

text \<open>
  The refs the port gives out. A ref is an identity token with no content (key-ref.ts), so there is
  none of the port's before the port mints it: that a ref is the port's own does not depend on the
  state. Whether it is live does.
\<close>

definition minted :: "'s crypto_port \<Rightarrow> key_ref \<Rightarrow> bool" where
  "minted cp k \<longleftrightarrow> (\<exists>s t.
     (\<exists>pw sk email profile. cpDeriveMasterKey cp pw sk email profile s = (Inr k, t)) \<or>
     (\<exists>l email j. cpDeriveKeysFromMasterKey cp l email s = (Inr (k, j), t) \<or>
                  cpDeriveKeysFromMasterKey cp l email s = (Inr (j, k), t)) \<or>
     (\<exists>d rk email. cpDecryptMasterKey cp d rk email s = (Inr k, t)) \<or>
     cpGenerateEncryptionKey cp s = (Inr k, t) \<or>
     (\<exists>d l c. cpUnwrapKey cp d l c s = (Inr k, t)) \<or>
     (\<exists>text d l. cpDecryptRsaWrappedKey cp text d l s = (Inr k, t)))"

locale key_table =
  fixes cp :: "'s crypto_port"
    and ks :: "'s account_key_store"
    and keys :: "'s \<Rightarrow> key_ref \<rightharpoonup> 'k"
    and outside :: "'s \<Rightarrow> 'o"
    and opens :: "encrypted_data \<Rightarrow> encryption_context \<Rightarrow> 'k \<Rightarrow> 'k option"
    and reads :: "encrypted_data \<Rightarrow> encryption_context option \<Rightarrow> 'k \<Rightarrow> plaintext option"
  assumes encrypt: "quiet keys outside (cpEncrypt cp p k ecx)"
    and decrypt: "quiet keys outside (cpDecrypt cp d k ecx)"
    and encrypt_master: "quiet keys outside (cpEncryptMasterKey cp k rk email)"
    and srp_password: "quiet keys outside (cpDeriveSrpPassword cp k)"
    and srp_registration: "quiet keys outside (cpGenerateSrpRegistration cp pw)"
    and secret_key: "quiet keys outside (cpGenerateSecretKey cp)"
    and recovery_key: "quiet keys outside (cpGenerateRecoveryKey cp)"
    and uuid: "quiet keys outside (cpGenerateUuid cp)"
    and rsa_pair: "quiet keys outside (cpGenerateRsaKeyPair cp)"
    and validate_recovery: "quiet keys outside (cpValidateRecoveryKey cp rk)"
    and pinned: "quiet keys outside (csGetPinnedKdfProfile (ksStore ks) acc)"
    and wrap: "quiet keys outside (cpEncryptVaultKeyWithMuk cp k muk v user n)"
    and derive_master: "mints keys outside (cpDeriveMasterKey cp pw sk email profile)"
    and derive_keys: "mints_two keys outside (cpDeriveKeysFromMasterKey cp k email)"
    and decrypt_master: "mints keys outside (cpDecryptMasterKey cp d rk email)"
    and generate_key: "mints keys outside (cpGenerateEncryptionKey cp)"
    and unwrap: "mints keys outside (cpUnwrapKey cp d muk ecx)"
    and destroy: "cpDestroyKey cp k s = (r, t) \<Longrightarrow> keys t = (keys s)(k := None) \<and> outside t = outside s"
    and destroys: "minted cp k \<or> keys s k \<noteq> None \<Longrightarrow> fst (cpDestroyKey cp k s) = Inr ()"
    and unwrap_opens: "keys s muk = Some u \<Longrightarrow> cpUnwrapKey cp d muk (Some cx) s = (Inr k, t) \<Longrightarrow>
        opens d cx u = keys t k"
    and wrap_opens: "keys s muk = Some u \<Longrightarrow> keys s k = Some x \<Longrightarrow> n \<ge> 1 \<Longrightarrow>
        cpEncryptVaultKeyWithMuk cp k muk v user n s = (Inr text, t) \<Longrightarrow>
        holds_key cp opens u text (sealed_context v user n) x"
    and encrypt_reads: "keys s k = Some u \<Longrightarrow> cpEncrypt cp p k ecx s = (Inr d, t) \<Longrightarrow> reads d ecx u = Some p"
    and decrypt_reads: "keys s k = Some u \<Longrightarrow> cpDecrypt cp d k ecx s = (Inr p, t) \<Longrightarrow> reads d ecx u = Some p"
    and print_parse: "parseData cp (printData cp d) = Some d"
begin

abbreviation tab where
  "tab \<equiv> table keys outside"

lemma quiet_ends: "quiet keys outside a \<Longrightarrow> ends (tab m out) a (\<lambda>_. tab m out) (\<lambda>_. tab m out)"
  by (auto simp: quiet_def table_def ends_def split: sum.splits) (metis snd_conv)+

lemma mints_ends: "mints keys outside a \<Longrightarrow> ends (tab m out) a (\<lambda>_. tab m out)
    (\<lambda>k s. k \<notin> dom m \<and> (\<exists>x. tab (m(k \<mapsto> x)) out s))"
  by (fastforce simp: mints_def table_def ends_def split: sum.splits)

lemma mints_two_ends: "mints_two keys outside a \<Longrightarrow> ends (tab m out) a (\<lambda>_. tab m out)
    (\<lambda>kl s. fst kl \<noteq> snd kl \<and> fst kl \<notin> dom m \<and> snd kl \<notin> dom m \<and>
       (\<exists>x y. tab (m(snd kl \<mapsto> y, fst kl \<mapsto> x)) out s))"
  by (fastforce simp: mints_two_def table_def ends_def split: sum.splits)

text \<open>Throwing one's own key away: what was there before is there again.\<close>

lemma destroy_ends:
  assumes "m k \<noteq> None"
  shows "ends (tab m out) (cpDestroyKey cp k) (\<lambda>_ _. False) (\<lambda>_. tab (m(k := None)) out)"
proof (rule endsI)
  show "tab m out s \<Longrightarrow> cpDestroyKey cp k s = (Inl e, t) \<Longrightarrow> False" for s e t
    using destroys [of k s] assms by (simp add: table_def)
  show "tab m out s \<Longrightarrow> cpDestroyKey cp k s = (Inr a, t) \<Longrightarrow> tab (m(k := None)) out t" for s a t
    using destroy [of k s] by (simp add: table_def)
qed

lemma destroy_minted:
  assumes "k \<notin> dom m"
  shows "ends (tab (m(k \<mapsto> x)) out) (cpDestroyKey cp k) (\<lambda>_ _. False) (\<lambda>_. tab m out)"
  using destroy_ends [of "m(k \<mapsto> x)" k out] fun_upd_idem [of m k None] assms by (simp add: domIff)

text \<open>A key that is destroyed at the end of a block, however the block ends.\<close>

lemma finally_minted:
  assumes "k \<notin> dom m" and "ends P a (\<lambda>_. tab (m(k \<mapsto> x)) out) (\<lambda>b s. F b \<and> tab (m(k \<mapsto> x)) out s)"
  shows "ends P (finally_do a (cpDestroyKey cp k)) (\<lambda>_. tab m out) (\<lambda>b s. F b \<and> tab m out s)"
  by (rule ends_finally [OF assms(2)])
     (auto intro!: destroy_minted [OF assms(1)] ends_fact ends_weaken [OF destroy_minted [OF assms(1)]])

section \<open>Deriving the keys of an account\<close>

lemma or_throw_ends: "ends P (or_throw r) (\<lambda>_. P) (\<lambda>_. P)"
  by (auto simp: or_throw_def ends_def throw_def ok_def split: sum.splits)

lemma pinned_ends: "ends (tab m out) (pinned_profile (ksStore ks) acc) (\<lambda>_. tab m out) (\<lambda>_. tab m out)"
  unfolding pinned_profile_def by (intro ends_if ends_ok quiet_ends pinned)

lemma no_account_ends: "ends (tab m out) (pinned_profile NO_LOCAL_ACCOUNT acc) (\<lambda>_. tab m out) (\<lambda>_. tab m out)"
  by (auto simp: pinned_profile_def NO_LOCAL_ACCOUNT_def intro: ends_ok)

text \<open>The auth key lives beside the master unlock key l while the SRP password is rendered.\<close>

lemma render_ends:
  assumes "k \<notin> dom m"
  shows "ends (tab (m(k \<mapsto> x)) out) (render_keys cp input masterKey (k, l))
     (\<lambda>_. tab m out) (\<lambda>d s. dkMasterUnlockKey d = l \<and> tab m out s)"
  unfolding render_keys_def prod.case
proof (rule ends_and_then)
  show "ends (tab (m(k \<mapsto> x)) out) (finally_do (cpDeriveSrpPassword cp k) (cpDestroyKey cp k))
      (\<lambda>_. tab m out) (\<lambda>_. tab m out)"
    by (rule ends_finally [OF quiet_ends [OF srp_password]]) (rule destroy_minted [OF assms])+
  show "ends (tab m out) (and_then (if absent (dkRecoveryKey input) then ok None
        else and_then (cpEncryptMasterKey cp masterKey (the (dkRecoveryKey input)) (dkEmail input)) (\<lambda>d. ok (Some d)))
      (\<lambda>sealed. ok \<lparr>dkSrpPassword = srp, dkMasterUnlockKey = l, dkEncryptedMasterKey = sealed\<rparr>))
     (\<lambda>_. tab m out) (\<lambda>d s. dkMasterUnlockKey d = l \<and> tab m out s)" for srp
    by (rule ends_and_then [where R = "\<lambda>_. tab m out"])
       (auto intro!: ends_if ends_ok ends_and_then [OF quiet_ends [OF encrypt_master]])
qed

text \<open>One or two keys destroyed when a block throws.\<close>

lemma destroy_then:
  assumes "k \<notin> dom m" and "ends (tab m out) b E Q"
  shows "ends (tab (m(k \<mapsto> x)) out) (and_then (cpDestroyKey cp k) (\<lambda>_. b)) E Q"
proof (rule ends_and_then [where R = "\<lambda>_. tab m out"])
  show "ends (tab (m(k \<mapsto> x)) out) (cpDestroyKey cp k) E (\<lambda>_. tab m out)"
    by (rule ends_weaken [OF destroy_minted [OF assms(1)]]) auto
qed (rule assms(2))

lemma destroy_one_on_error:
  assumes "k \<notin> dom m" and "ends P a (\<lambda>_. tab (m(k \<mapsto> x)) out) Q"
  shows "ends P (destroy_on_error cp [k] a) (\<lambda>_. tab m out) Q"
  unfolding destroy_on_error_def for_each.simps
proof (rule ends_catch [OF assms(2)])
  show "ends (tab (m(k \<mapsto> x)) out) (and_then (and_then (cpDestroyKey cp k) (\<lambda>_. ok ())) (\<lambda>_. throw e)) (\<lambda>_. tab m out) Q" for e
    by (rule ends_and_then [where R = "\<lambda>_. tab m out"], rule destroy_then [OF assms(1)])
       (auto intro: ends_ok ends_throw)
qed

lemma destroy_two_on_error:
  assumes "k \<notin> dom m" and "l \<notin> dom (m(k \<mapsto> x))" and "ends P a (\<lambda>_. tab (m(k \<mapsto> x, l \<mapsto> y)) out) Q"
  shows "ends P (destroy_on_error cp [l, k] a) (\<lambda>_. tab m out) Q"
  unfolding destroy_on_error_def for_each.simps
proof (rule ends_catch [OF assms(3)])
  show "ends (tab (m(k \<mapsto> x, l \<mapsto> y)) out) (and_then (and_then (cpDestroyKey cp l) (\<lambda>_. and_then (cpDestroyKey cp k) (\<lambda>_. ok ())))
      (\<lambda>_. throw e)) (\<lambda>_. tab m out) Q" for e
    by (rule ends_and_then [where R = "\<lambda>_. tab m out"], rule destroy_then [OF assms(2)], rule destroy_then [OF assms(1)])
       (auto intro: ends_ok ends_throw)
qed

text \<open>Deriving leaves one new key, the master unlock key, or nothing when it throws.\<close>

definition derived :: "(key_ref \<rightharpoonup> 'k) \<Rightarrow> 'o \<Rightarrow> derived_keys \<Rightarrow> 's \<Rightarrow> bool" where
  "derived m out d s \<longleftrightarrow> dkMasterUnlockKey d \<notin> dom m \<and> (\<exists>x. tab (m(dkMasterUnlockKey d \<mapsto> x)) out s)"

text \<open>The rest of the call once both halves k and l of the master key mk exist.\<close>

lemma halves_ends:
  assumes mk: "mk \<notin> dom m" and kl: "k \<noteq> l" "k \<notin> dom (m(mk \<mapsto> z))" "l \<notin> dom (m(mk \<mapsto> z))"
  shows "ends (tab (m(mk \<mapsto> z, l \<mapsto> y, k \<mapsto> x)) out)
     (and_then (destroy_on_error cp [l, mk] (render_keys cp input mk (k, l))) (\<lambda>d.
        and_then (cpDestroyKey cp mk) (\<lambda>_. ok d))) (\<lambda>_. tab m out) (derived m out)"
proof (rule ends_and_then)
  show "ends (tab (m(mk \<mapsto> z, l \<mapsto> y, k \<mapsto> x)) out) (destroy_on_error cp [l, mk] (render_keys cp input mk (k, l)))
      (\<lambda>_. tab m out) (\<lambda>d s. dkMasterUnlockKey d = l \<and> tab (m(mk \<mapsto> z, l \<mapsto> y)) out s)"
    by (rule destroy_two_on_error [OF mk kl(3)], rule render_ends) (use kl in auto)
  fix d
  have twist: "m(mk \<mapsto> z, l \<mapsto> y) = m(l \<mapsto> y, mk \<mapsto> z)" and fresh: "mk \<notin> dom (m(l \<mapsto> y))" and l: "l \<notin> dom m"
    using mk kl by (auto simp: fun_upd_twist)
  show "ends (\<lambda>s. dkMasterUnlockKey d = l \<and> tab (m(mk \<mapsto> z, l \<mapsto> y)) out s) (and_then (cpDestroyKey cp mk) (\<lambda>_. ok d))
      (\<lambda>_. tab m out) (derived m out)"
    unfolding twist
    by (rule ends_fact, rule destroy_then [OF fresh], rule ends_ok) (use l in \<open>auto simp: derived_def\<close>)
qed

lemma derive_ends:
  assumes "\<And>acc. ends (tab m out) (pinned_profile cs acc) (\<lambda>_. tab m out) (\<lambda>_. tab m out)"
  shows "ends (tab m out) (deriveAccountKeys cp cs input) (\<lambda>_. tab m out) (derived m out)"
  unfolding deriveAccountKeys_def
proof (rule ends_and_then [OF assms], rule ends_and_then [OF or_throw_ends],
    rule ends_and_then [OF mints_ends [OF derive_master]], intro ends_fact ends_exists)
  fix mk z assume mk: "mk \<notin> dom m"
  show "ends (tab (m(mk \<mapsto> z)) out)
     (and_then (destroy_on_error cp [mk] (cpDeriveKeysFromMasterKey cp mk (dkEmail input))) (\<lambda>ks.
      and_then (destroy_on_error cp [snd ks, mk] (render_keys cp input mk ks)) (\<lambda>d.
      and_then (cpDestroyKey cp mk) (\<lambda>_. ok d)))) (\<lambda>_. tab m out) (derived m out)"
  proof (rule ends_and_then [OF destroy_one_on_error [OF mk mints_two_ends [OF derive_keys]]], intro ends_fact ends_exists)
    fix ks :: "key_ref \<times> key_ref" and x y
    assume "fst ks \<noteq> snd ks" "fst ks \<notin> dom (m(mk \<mapsto> z))" "snd ks \<notin> dom (m(mk \<mapsto> z))"
    from halves_ends [OF mk this] show "ends (tab (m(mk \<mapsto> z, snd ks \<mapsto> y, fst ks \<mapsto> x)) out)
     (and_then (destroy_on_error cp [snd ks, mk] (render_keys cp input mk ks)) (\<lambda>d.
      and_then (cpDestroyKey cp mk) (\<lambda>_. ok d))) (\<lambda>_. tab m out) (derived m out)" by simp
  qed
qed

text \<open>The master unlock key a call hands over is one the port minted.\<close>

lemma derive_mints:
  "ends (\<lambda>_. True) (deriveAccountKeys cp cs input) (\<lambda>_ _. True) (\<lambda>d _. minted cp (dkMasterUnlockKey d))"
proof -
  have any: "ends (\<lambda>_. True) a (\<lambda>_ _. True) (\<lambda>_ _. True)" for a :: "(js_error, 's, 'b) act"
    by (auto simp: ends_def split: sum.splits)
  have pair_minted: "minted cp k" if "cpDeriveKeysFromMasterKey cp l email s = (Inr (j, k), t)" for k l email s j t
    using that unfolding minted_def by blast
  have halves: "ends (\<lambda>_. True) (destroy_on_error cp [mk] (cpDeriveKeysFromMasterKey cp mk email)) (\<lambda>_ _. True)
      (\<lambda>ks _. minted cp (snd ks))" for mk email
    using pair_minted
    by (intro endsI) (fastforce simp: destroy_on_error_def catch_def and_then_def throw_def split: prod.splits sum.splits)+
  have rendered: "ends (\<lambda>_. minted cp (snd ks)) (destroy_on_error cp [snd ks, mk] (render_keys cp input mk ks)) (\<lambda>_ _. True)
      (\<lambda>d _. minted cp (dkMasterUnlockKey d))" for mk ks
    by (rule endsI) (auto simp: destroy_on_error_def catch_def and_then_def throw_def ok_def render_keys_def
        split: prod.splits sum.splits)
  show ?thesis
    unfolding deriveAccountKeys_def
    by (rule ends_and_then [OF any], rule ends_and_then [OF any], rule ends_and_then [OF any],
        rule ends_and_then [OF halves], rule ends_and_then [OF rendered])
       (auto simp: ends_def and_then_def ok_def split: sum.splits prod.splits)
qed

section \<open>Re-wrapping\<close>

lemma checked_context:
  assumes "checked_wrap_context e (Some v) (Some user) = Inr cx"
  shows "\<exists>c n. wkContext e = Some c \<and> wcPurpose c = VAULT_KEY_WRAP_PURPOSE \<and> wcKeyVersion c = Some n \<and> n \<ge> 1 \<and>
    (v \<noteq> [] \<longrightarrow> wcVaultId c = v) \<and> (user \<noteq> [] \<longrightarrow> wcUserId c = user) \<and>
    cx = buildVaultKeyEncryptionContext (wcVaultId c) (wcUserId c) n"
  using assms by (auto simp: checked_wrap_context_def names_other_def split: option.splits if_splits)

lemma unwrap_ends:
  assumes "m muk = Some u" and "isOwnerWrappedVaultKey cp text"
  shows "ends (tab m out) (unwrapVaultKey cp \<lparr>uwEncryptedVaultKey = text, uwMasterUnlockKey = muk,
      uwEncryptedPrivateKey = None, uwExpectedVaultId = Some v, uwExpectedUserId = Some user\<rparr>)
    (\<lambda>_. tab m out) (\<lambda>k s. k \<notin> dom m \<and> (\<exists>x. tab (m(k \<mapsto> x)) out s \<and> (\<exists>n. source_key cp opens u user v text n x)))"
proof -
  obtain e where e: "parseEnvelope cp text = Some e"
    using assms(2) by (auto simp: isOwnerWrappedVaultKey_def)
  show ?thesis
  proof (cases "checked_wrap_context e (Some v) (Some user)")
    case (Inl x)
    then show ?thesis by (auto simp: unwrapVaultKey_def e intro: ends_throw)
  next
    case (Inr cx)
    from checked_context [OF Inr] obtain c n where c: "wkContext e = Some c" "wcPurpose c = VAULT_KEY_WRAP_PURPOSE"
      "wcKeyVersion c = Some n" "n \<ge> 1" "v \<noteq> [] \<longrightarrow> wcVaultId c = v" "user \<noteq> [] \<longrightarrow> wcUserId c = user"
      and cx: "cx = buildVaultKeyEncryptionContext (wcVaultId c) (wcUserId c) n" by blast
    have source: "source_key cp opens u user v text n x" if "opens (wkData e) cx u = Some x" for x
      using that c e by (auto simp: source_key_def holds_key_def cx)
    have "ends (tab m out) (cpUnwrapKey cp (wkData e) muk (Some cx)) (\<lambda>_. tab m out)
      (\<lambda>k s. k \<notin> dom m \<and> (\<exists>x. tab (m(k \<mapsto> x)) out s \<and> (\<exists>n. source_key cp opens u user v text n x)))"
    proof (rule endsI)
      fix s err t assume "tab m out s" "cpUnwrapKey cp (wkData e) muk (Some cx) s = (Inl err, t)"
      then show "tab m out t" using ends_error [OF mints_ends [OF unwrap]] by blast
    next
      fix s k t assume s: "tab m out s" and run: "cpUnwrapKey cp (wkData e) muk (Some cx) s = (Inr k, t)"
      from ends_value [OF mints_ends [OF unwrap] s run] obtain x where k: "k \<notin> dom m" and x: "tab (m(k \<mapsto> x)) out t" by blast
      moreover have "opens (wkData e) cx u = Some x"
        using unwrap_opens [OF _ run, of u] s x assms(1) by (simp add: table_def)
      ultimately show "k \<notin> dom m \<and> (\<exists>x. tab (m(k \<mapsto> x)) out t \<and> (\<exists>n. source_key cp opens u user v text n x))"
        using source by blast
    qed
    then show ?thesis by (simp add: unwrapVaultKey_def e Inr)
  qed
qed

lemma source_version:
  "source_key cp opens u user v text n x \<Longrightarrow> n \<ge> 1 \<and> ownerWrapKeyVersion cp text = ok n"
  by (auto simp: source_key_def holds_key_def ownerWrapKeyVersion_def)

text \<open>The wrap of a live key under a live master unlock key.\<close>

lemma wrap_ends:
  assumes "m muk = Some w" and "m k = Some x" and "n \<ge> 1"
  shows "ends (tab m out) (wrapVaultKeyForOwner cp k muk v user n) (\<lambda>_. tab m out)
    (\<lambda>text s. holds_key cp opens w text (sealed_context v user n) x \<and> tab m out s)"
  unfolding wrapVaultKeyForOwner_def
proof (rule endsI)
  fix s e t assume "tab m out s" "cpEncryptVaultKeyWithMuk cp k muk v user n s = (Inl e, t)"
  then show "tab m out t" using ends_error [OF quiet_ends [OF wrap]] by blast
next
  fix s sealed t assume s: "tab m out s" and run: "cpEncryptVaultKeyWithMuk cp k muk v user n s = (Inr sealed, t)"
  have "keys s muk = Some w" "keys s k = Some x" using s assms by (simp_all add: table_def)
  from wrap_opens [OF this assms(3) run] ends_value [OF quiet_ends [OF wrap] s run]
  show "holds_key cp opens w sealed (sealed_context v user n) x \<and> tab m out t" by simp
qed

lemma rewrap_ends:
  assumes old: "m old = Some u" and new: "m new = Some w" and owner: "isOwnerWrappedVaultKey cp text"
  shows "ends (tab m out) (rewrap cp old new user v text) (\<lambda>_. tab m out)
    (\<lambda>text' s. carried cp opens u w user v text text' \<and> tab m out s)"
  unfolding rewrap_def
proof (rule ends_and_then [OF unwrap_ends [where m = m, OF old owner]], intro ends_fact ends_exists ends_conj_fact)
  fix k x assume k: "k \<notin> dom m" and "\<exists>n. source_key cp opens u user v text n x"
  then obtain n where n: "source_key cp opens u user v text n x" by blast
  have live: "(m(k \<mapsto> x)) new = Some w" "(m(k \<mapsto> x)) k = Some x" using new k by auto
  show "ends (tab (m(k \<mapsto> x)) out) (finally_do (and_then (ownerWrapKeyVersion cp text)
      (\<lambda>version. wrapVaultKeyForOwner cp k new v user version)) (cpDestroyKey cp k)) (\<lambda>_. tab m out)
    (\<lambda>text' s. carried cp opens u w user v text text' \<and> tab m out s)"
  proof (rule finally_minted [OF k])
    have "ends (tab (m(k \<mapsto> x)) out) (wrapVaultKeyForOwner cp k new v user n) (\<lambda>_. tab (m(k \<mapsto> x)) out)
      (\<lambda>text' s. carried cp opens u w user v text text' \<and> tab (m(k \<mapsto> x)) out s)"
      by (rule ends_weaken [OF wrap_ends [where m = "m(k \<mapsto> x)", OF live]]) (use n source_version [OF n] in \<open>auto simp: carried_def\<close>)
    then show "ends (tab (m(k \<mapsto> x)) out) (and_then (ownerWrapKeyVersion cp text)
        (\<lambda>version. wrapVaultKeyForOwner cp k new v user version)) (\<lambda>_. tab (m(k \<mapsto> x)) out)
      (\<lambda>text' s. carried cp opens u w user v text text' \<and> tab (m(k \<mapsto> x)) out s)"
      using source_version [OF n] by (simp add: and_then_def ok_def)
  qed
qed

lemma carried_owner: "carried cp opens u w user v old new \<Longrightarrow> isOwnerWrappedVaultKey cp new"
  by (auto simp: carried_def holds_key_def isOwnerWrappedVaultKey_def)

lemma carried_cons:
  "\<not> isOwnerWrappedVaultKey cp (vkEncryptedVaultKey e) \<Longrightarrow>
     carried_entry cp opens u w user e e \<and> owner_records cp (e # ls) = owner_records cp ls"
  "isOwnerWrappedVaultKey cp (vkEncryptedVaultKey e) \<Longrightarrow>
     carried cp opens u w user (vkVaultId e) (vkEncryptedVaultKey e) text \<Longrightarrow>
     carried_entry cp opens u w user e (e\<lparr>vkEncryptedVaultKey := text\<rparr>) \<and>
     owner_records cp (e\<lparr>vkEncryptedVaultKey := text\<rparr> # ls) =
       \<lparr>wvrVaultId = vkVaultId e, wvrEncryptedVaultKey = text\<rparr> # owner_records cp ls"
  by (auto simp: carried_entry_def owner_records_def dest: carried_owner)

lemma rewrap_entries_ends:
  assumes "m old = Some u" and "m new = Some w"
  shows "ends (tab m out) (rewrap_entries cp old new user es) (\<lambda>_. tab m out)
    (\<lambda>p s. (list_all2 (carried_entry cp opens u w user) es (snd p) \<and> fst p = owner_records cp (snd p)) \<and> tab m out s)"
    (is "ends _ _ _ (?Q es)")
proof (induction es)
  case (Cons e es)
  have rest: "ends (tab m out) (and_then (rewrap_entries cp old new user es) (\<lambda>(ws, ks). ok (F ws, e' # ks))) (\<lambda>_. tab m out) (?Q (e # es))"
    if "carried_entry cp opens u w user e e'" "\<And>ls. F (owner_records cp ls) = owner_records cp (e' # ls)" for e' F
    by (rule ends_and_then [OF Cons.IH]) (use that in \<open>auto intro!: ends_ok ends_prod\<close>)
  show ?case
  proof (cases "isOwnerWrappedVaultKey cp (vkEncryptedVaultKey e)")
    case False
    with rest [of e "\<lambda>ws. ws"] carried_cons(1) [OF False] show ?thesis by simp
  next
    case True
    have "ends (\<lambda>s. carried cp opens u w user (vkVaultId e) (vkEncryptedVaultKey e) sealed \<and> tab m out s)
       (and_then (rewrap_entries cp old new user es) (\<lambda>(ws, ks).
          ok (\<lparr>wvrVaultId = vkVaultId e, wvrEncryptedVaultKey = sealed\<rparr> # ws, e\<lparr>vkEncryptedVaultKey := sealed\<rparr> # ks)))
       (\<lambda>_. tab m out) (?Q (e # es))" for sealed
      by (intro ends_fact rest) (use carried_cons(2) [OF True, of u w user sealed] in simp_all)
    from ends_and_then [OF rewrap_ends [where m = m, OF assms True] this] show ?thesis
      by (simp only: rewrap_entries.simps True simp_thms if_False)
  qed
qed (auto simp: owner_records_def intro: ends_ok)

section \<open>The ceremonies\<close>

text \<open>Errors raised before or by the commit, as opposed to those of the adoption that follows it.\<close>

definition early :: "ceremony_error \<Rightarrow> bool" where
  "early e \<longleftrightarrow> (\<forall>x. e \<noteq> LocalKeyAdoptionError x)"

lemma early_simps [simp]: "early (Thrown x)" "early InvalidAccountPasswordError" "early InvalidRecoveryKeyError"
    "\<not> early (LocalKeyAdoptionError x)"
  by (auto simp: early_def)

definition tab_early :: "(key_ref \<rightharpoonup> 'k) \<Rightarrow> 'o \<Rightarrow> ceremony_error \<Rightarrow> 's \<Rightarrow> bool" where
  "tab_early m out e s \<longleftrightarrow> early e \<and> tab m out s"

lemma lift_ends: "ends P a (\<lambda>_. tab m out) Q \<Longrightarrow> ends P (lift_act a) (tab_early m out) Q"
  by (fastforce simp: ends_def lift_act_def tab_early_def split: sum.splits prod.splits)

lemma throw_early: "early e \<Longrightarrow> ends (tab m out) (throw e) (tab_early m out) Q"
  by (auto simp: tab_early_def intro: ends_throw)

text \<open>The blocks that own a key: destroyed when they throw, or however they end.\<close>

lemma or_destroy_ends:
  assumes "k \<notin> dom m" and "ends P a (tab_early (m(k \<mapsto> x)) out) Q"
  shows "ends P (or_destroy cp k a) (tab_early m out) Q"
  unfolding or_destroy_def
proof (rule ends_catch [OF assms(2)])
  fix e
  show "ends (tab_early (m(k \<mapsto> x)) out e) (and_then (lift_act (cpDestroyKey cp k)) (\<lambda>_. throw e)) (tab_early m out) Q"
    unfolding tab_early_def
  proof (rule ends_fact, rule ends_and_then)
    have "ends (tab (m(k \<mapsto> x)) out) (cpDestroyKey cp k) (\<lambda>_. tab m out) (\<lambda>_. tab m out)"
      by (rule ends_weaken [OF destroy_minted [OF assms(1)]]) auto
    from lift_ends [OF this]
    show "ends (tab (m(k \<mapsto> x)) out) (lift_act (cpDestroyKey cp k)) (\<lambda>e s. early e \<and> tab m out s) (\<lambda>_. tab m out)"
      by (rule ends_weaken) (auto simp: tab_early_def)
  qed (auto intro: ends_throw)
qed

lemma then_destroy_ends:
  assumes "k \<notin> dom m" and "ends P a (tab_early (m(k \<mapsto> x)) out) Q"
    and "\<And>b. ends (Q b) (cpDestroyKey cp k) (\<lambda>_ _. False) (\<lambda>_. Q' b)"
  shows "ends P (then_destroy cp k a) (tab_early m out) Q'"
  unfolding then_destroy_def
proof (rule ends_finally [OF assms(2)])
  have lift: "ends R (lift_act b) (\<lambda>_ _. False) S" if "ends R b (\<lambda>_ _. False) S" for R S and b :: "(js_error, 's, unit) act"
    using that by (fastforce simp: ends_def lift_act_def split: sum.splits prod.splits)
  show "ends (tab_early (m(k \<mapsto> x)) out e) (lift_act (cpDestroyKey cp k)) (\<lambda>_ _. False) (\<lambda>_. tab_early m out e)" for e
    unfolding tab_early_def by (rule lift, rule ends_fact) (auto intro: ends_weaken [OF destroy_minted [OF assms(1)]])
  show "ends (Q b) (lift_act (cpDestroyKey cp k)) (\<lambda>_ _. False) (\<lambda>_. Q' b)" for b
    by (rule lift [OF assms(3)])
qed

lemma decrypt_private_ends:
  assumes "m muk = Some u"
  shows "ends (tab m out) (decryptPrivateKey cp encrypted muk) (\<lambda>_. tab m out)
    (\<lambda>p s. holds_text cp reads u encrypted p \<and> tab m out s)"
proof (cases "parseData cp encrypted")
  case None
  then show ?thesis by (auto simp: decryptPrivateKey_def parseEncryptedData_def and_then_def ends_def throw_def)
next
  case (Some d)
  have "ends (tab m out) (cpDecrypt cp d muk None) (\<lambda>_. tab m out) (\<lambda>p s. holds_text cp reads u encrypted p \<and> tab m out s)"
  proof (rule endsI)
    fix s p t assume s: "tab m out s" and run: "cpDecrypt cp d muk None s = (Inr p, t)"
    then show "holds_text cp reads u encrypted p \<and> tab m out t"
      using ends_value [OF quiet_ends [OF decrypt] s run] decrypt_reads [OF _ run, of u] assms Some
      by (simp add: holds_text_def table_def)
  qed (rule ends_error [OF quiet_ends [OF decrypt]])
  then show ?thesis by (simp add: decryptPrivateKey_def parseEncryptedData_def Some and_then_def ok_def)
qed

lemma prove_password_ends:
  assumes "m muk = Some u"
  shows "ends (tab m out) (prove_password cp encrypted muk) (tab_early m out)
    (\<lambda>p s. holds_text cp reads u encrypted p \<and> tab m out s)"
  unfolding prove_password_def
proof (rule ends_catch [OF lift_ends [OF decrypt_private_ends [where m = m, OF assms]]])
  show "ends (tab_early m out e) (throw InvalidAccountPasswordError) (tab_early m out) Q" for e Q
    by (rule ends_throw) (simp add: tab_early_def)
qed

lemma encrypt_ends:
  assumes "m k = Some w"
  shows "ends (tab m out) (cpEncrypt cp p k None) (\<lambda>_. tab m out)
    (\<lambda>d s. holds_text cp reads w (printData cp d) p \<and> tab m out s)"
proof (rule endsI)
  fix s d t assume s: "tab m out s" and run: "cpEncrypt cp p k None s = (Inr d, t)"
  then show "holds_text cp reads w (printData cp d) p \<and> tab m out t"
    using ends_value [OF quiet_ends [OF encrypt] s run] encrypt_reads [OF _ run, of w] assms
    by (simp add: holds_text_def table_def print_parse)
qed (rule ends_error [OF quiet_ends [OF encrypt]])

lemma validated_ends:
  "ends (tab m out) (lift_act (or_throw r)) (tab_early m out) (\<lambda>_. tab m out)"
  by (rule lift_ends [OF or_throw_ends])

lemma seal_ends:
  assumes "m current = Some u" and "m (dkMasterUnlockKey new) = Some w"
    and pem: "holds_text cp reads u (riEncryptedPrivateKey input) pem"
  shows "ends (tab m out) (seal_account cp input current pem new) (\<lambda>_. tab m out)
    (\<lambda>r s. (rkMasterUnlockKey r = dkMasterUnlockKey new \<and> carries_over cp opens reads input r u w) \<and> tab m out s)"
  unfolding seal_account_def
proof (rule ends_and_then [OF quiet_ends [OF srp_registration]], rule ends_prod,
    rule ends_and_then [OF encrypt_ends [where m = m, OF assms(2)]], rule ends_fact,
    rule ends_and_then [OF rewrap_entries_ends [where m = m, OF assms(1,2)]], rule ends_prod)
  fix salt verifier d ws ls and p :: "wrapped_vault_key_record list \<times> vault_key_entry list"
  assume "p = (ws, ls)" and "holds_text cp reads w (printData cp d) pem"
  with pem show "ends (\<lambda>s. (list_all2 (carried_entry cp opens u w (riUserId input)) (riVaultKeys input) (snd p) \<and>
        fst p = owner_records cp (snd p)) \<and> tab m out s)
     (ok \<lparr>rpSrpSalt = salt, rpSrpVerifier = verifier, rpEncryptedPrivateKey = printData cp d,
         rpEncryptedVaultKeys = ws, rpKdfParams = currentKdfProfile, rkVaultKeys = ls,
         rkMasterUnlockKey = dkMasterUnlockKey new\<rparr>) (\<lambda>_. tab m out)
     (\<lambda>r s. (rkMasterUnlockKey r = dkMasterUnlockKey new \<and> carries_over cp opens reads input r u w) \<and> tab m out s)"
    by (intro ends_ok) (auto simp: carries_over_def)
qed

text \<open>What a call of reKeyAccount that returned left behind: one new key, and nothing lost.\<close>

definition rekeyed :: "(key_ref \<rightharpoonup> 'k) \<Rightarrow> 'o \<Rightarrow> rekey_input \<Rightarrow> rekeyed_account \<Rightarrow> 's \<Rightarrow> bool" where
  "rekeyed m out input r s \<longleftrightarrow> rkMasterUnlockKey r \<notin> dom m \<and>
     (\<exists>u w. carries_over cp opens reads input r u w \<and> tab (m(rkMasterUnlockKey r \<mapsto> w)) out s)"

lemma rekey_ends:
  "ends (tab m out) (reKeyAccount cp ks input) (tab_early m out) (rekeyed m out input)"
  unfolding reKeyAccount_def
proof (rule ends_and_then [OF lift_ends [OF quiet_ends [OF pinned]]], rule ends_option)
  show "ends (tab m out) (throw (Thrown pin_missing)) (tab_early m out) Q" for Q by (rule throw_early) simp
next
  fix pin profile
  show "ends (tab m out) (and_then (lift_act (deriveAccountKeys cp (ksStore ks)
            \<lparr>dkPassword = riCurrentPassword input, dkSecretKey = riCurrentSecretKey input,
             dkEmail = riCurrentEmail input, dkProfile = profile,
             dkAccountId = Some (riAccountId input), dkRecoveryKey = None\<rparr>)) (\<lambda>current.
         then_destroy cp (dkMasterUnlockKey current)
           (and_then (prove_password cp (riEncryptedPrivateKey input) (dkMasterUnlockKey current)) (\<lambda>pem.
            and_then (lift_act (or_throw (validateKdfProfileOrThrow (untrusted currentKdfProfile) None))) (\<lambda>_.
            and_then (lift_act (deriveAccountKeys cp (ksStore ks)
               \<lparr>dkPassword = riNextPassword input, dkSecretKey = riNextSecretKey input,
                dkEmail = riNextEmail input, dkProfile = currentKdfProfile,
                dkAccountId = None, dkRecoveryKey = None\<rparr>)) (\<lambda>next.
            or_destroy cp (dkMasterUnlockKey next)
              (lift_act (seal_account cp input (dkMasterUnlockKey current) pem next)))))))) (tab_early m out) (rekeyed m out input)"
  proof (rule ends_and_then [OF lift_ends [OF derive_ends [OF pinned_ends]]], unfold derived_def, intro ends_fact ends_exists)
    fix current :: derived_keys and u
    let ?k = "dkMasterUnlockKey current" and ?m = "m(dkMasterUnlockKey current \<mapsto> u)"
    assume k: "?k \<notin> dom m"
    let ?Q = "\<lambda>r s. rkMasterUnlockKey r \<notin> dom ?m \<and>
        (\<exists>w. carries_over cp opens reads input r u w \<and> tab (?m(rkMasterUnlockKey r \<mapsto> w)) out s)"
    show "ends (tab ?m out) (then_destroy cp ?k
           (and_then (prove_password cp (riEncryptedPrivateKey input) ?k) (\<lambda>pem.
            and_then (lift_act (or_throw (validateKdfProfileOrThrow (untrusted currentKdfProfile) None))) (\<lambda>_.
            and_then (lift_act (deriveAccountKeys cp (ksStore ks)
               \<lparr>dkPassword = riNextPassword input, dkSecretKey = riNextSecretKey input,
                dkEmail = riNextEmail input, dkProfile = currentKdfProfile,
                dkAccountId = None, dkRecoveryKey = None\<rparr>)) (\<lambda>next.
            or_destroy cp (dkMasterUnlockKey next) (lift_act (seal_account cp input ?k pem next)))))))
        (tab_early m out) (rekeyed m out input)"
    proof (rule then_destroy_ends [OF k, where Q = ?Q])
      show "ends (tab ?m out) (and_then (prove_password cp (riEncryptedPrivateKey input) ?k) (\<lambda>pem.
            and_then (lift_act (or_throw (validateKdfProfileOrThrow (untrusted currentKdfProfile) None))) (\<lambda>_.
            and_then (lift_act (deriveAccountKeys cp (ksStore ks)
               \<lparr>dkPassword = riNextPassword input, dkSecretKey = riNextSecretKey input,
                dkEmail = riNextEmail input, dkProfile = currentKdfProfile,
                dkAccountId = None, dkRecoveryKey = None\<rparr>)) (\<lambda>next.
            or_destroy cp (dkMasterUnlockKey next) (lift_act (seal_account cp input ?k pem next))))))
        (tab_early ?m out) ?Q"
      proof (rule ends_and_then [OF prove_password_ends], simp, rule ends_fact, rule ends_and_then [OF validated_ends],
          rule ends_and_then [OF lift_ends [OF derive_ends [OF pinned_ends]]], unfold derived_def, intro ends_fact ends_exists)
        fix pem and new :: derived_keys and w
        let ?l = "dkMasterUnlockKey new"
        assume pem: "holds_text cp reads u (riEncryptedPrivateKey input) pem" and l: "?l \<notin> dom ?m"
        have "(?m(?l \<mapsto> w)) ?k = Some u" "(?m(?l \<mapsto> w)) ?l = Some w" using l by auto
        from seal_ends [where m = "?m(?l \<mapsto> w)", OF this pem]
        have "ends (tab (?m(?l \<mapsto> w)) out) (seal_account cp input ?k pem new) (\<lambda>_. tab (?m(?l \<mapsto> w)) out) ?Q"
          by (rule ends_weaken) (use l in auto)
        then show "ends (tab (?m(?l \<mapsto> w)) out) (or_destroy cp ?l (lift_act (seal_account cp input ?k pem new))) (tab_early ?m out) ?Q"
          by (rule or_destroy_ends [OF l lift_ends])
      qed
      show "ends (?Q r) (cpDestroyKey cp ?k) (\<lambda>_ _. False) (\<lambda>_. rekeyed m out input r)" for r
      proof (intro ends_fact ends_exists)
        fix w let ?l = "rkMasterUnlockKey r"
        assume l: "?l \<notin> dom ?m" and over: "carries_over cp opens reads input r u w"
        have c: "?m(?l \<mapsto> w) = m(?l \<mapsto> w, ?k \<mapsto> u)" and fresh: "?k \<notin> dom (m(?l \<mapsto> w))" and nl: "?l \<notin> dom m"
          using l k by (auto simp: fun_upd_twist)
        show "ends (tab (?m(?l \<mapsto> w)) out) (cpDestroyKey cp ?k) (\<lambda>_ _. False) (\<lambda>_. rekeyed m out input r)"
          unfolding c by (rule ends_weaken [OF destroy_minted [OF fresh]]) (use nl over in \<open>auto simp: rekeyed_def\<close>)
      qed
    qed
  qed
qed

end

end
