(* ===== verification/CeremonyEnds.thy ===== *)
theory CeremonyEnds
  imports CeremonyProps
begin

text \<open>
  How each key ceremony ends. Whatever happens, the keys nobody else owns afterwards are the ones
  before, with the new master unlock key added where the ceremony hands it to its caller; and nothing outside the key
  table changes before the one commit, nor in the store unless the commit was accepted.
\<close>

section \<open>Keys\<close>

text \<open>
  An operation that takes a key over: the caller owns it no longer when the call returns, and still
  does when it throws (setUnlockEntry publishes before it accepts the key, account-store.ts).
\<close>

definition takes :: "('s \<Rightarrow> key_ref \<rightharpoonup> 'k) \<Rightarrow> ('s \<Rightarrow> 'o) \<Rightarrow> key_ref \<Rightarrow> ('e, 's, 'a) act \<Rightarrow> bool" where
  "takes keys outside k a \<longleftrightarrow> (\<forall>s r t. a s = (r, t) \<longrightarrow> outside t = outside s \<and>
     keys t = (case r of Inl _ \<Rightarrow> keys s | Inr _ \<Rightarrow> (keys s)(k := None)))"

text \<open>
  What the ceremonies rely on of the account store. The view keys is of the live keys that the
  store does not own: its device key, minted when it is first needed, and the master unlock keys in
  its cache, of which it destroys the one a new key replaces, are the store's own and not in the
  view. setMasterUnlockKey takes over the key it is given; every other call leaves the view alone.
\<close>

definition quiet_store :: "('s \<Rightarrow> key_ref \<rightharpoonup> 'k) \<Rightarrow> ('s \<Rightarrow> 'o) \<Rightarrow> 's account_key_store \<Rightarrow> bool" where
  "quiet_store keys outside ks \<longleftrightarrow>
     (\<forall>acc. quiet keys outside (ksGetStoredSessionData ks acc)) \<and>
     (\<forall>p acc. quiet keys outside (ksStorePinnedKdfProfile ks p acc)) \<and>
     (\<forall>x acc. quiet keys outside (ksStoreSecretKey ks x acc)) \<and>
     (\<forall>x acc. quiet keys outside (ksStoreEncryptedPrivateKey ks x acc)) \<and>
     (\<forall>x acc. quiet keys outside (ksStoreVaultKeys ks x acc)) \<and>
     (\<forall>k acc email user n i. quiet keys outside (ksStoreSessionData ks k acc email user n i)) \<and>
     (\<forall>k acc. takes keys outside k (ksSetMasterUnlockKey ks k acc))"

text \<open>
  What follows a commit that starts in s: when the server refuses it its error is thrown and nothing
  else happens outside; when the server accepts it the device adopts the new keys, and an error of
  that step, and of no other, is a LocalKeyAdoptionError. Keys may be destroyed in between.
\<close>

definition settled ::
  "('s \<Rightarrow> 'o) \<Rightarrow> (js_error, 's, unit) act \<Rightarrow> (js_error, 's, unit) act \<Rightarrow> 'a \<Rightarrow> 's \<Rightarrow> ceremony_error + 'a \<Rightarrow> 's \<Rightarrow> bool" where
  "settled outside commit adoption v s res t \<longleftrightarrow> (case commit s of
       (Inl e, s2) \<Rightarrow> res = Inl (Thrown e) \<and> outside t = outside s2
     | (Inr _, s2) \<Rightarrow> (\<exists>s3. outside s3 = outside s2 \<and> (case adoption s3 of
         (Inl e, s4) \<Rightarrow> res = Inl (LocalKeyAdoptionError e) \<and> outside t = outside s4
       | (Inr _, s4) \<Rightarrow> res = Inr v \<and> outside t = outside s4)))"

text \<open>
  A ceremony that replaces the keys of an account: it fails with nothing changed outside, or it
  makes one commit of a payload that carries every key over, and ends as settled says.
\<close>

definition commits_once where
  "commits_once outside complete commit adoption v s res t \<longleftrightarrow>
     (\<exists>e. res = Inl e \<and> (\<forall>x. e \<noteq> LocalKeyAdoptionError x) \<and> outside t = outside s) \<or>
     (\<exists>r s1. complete r \<and> outside s1 = outside s \<and> settled outside (commit r) (adoption r) (v r) s1 res t)"

context key_table
begin

abbreviation added :: "(key_ref \<rightharpoonup> 'k) \<Rightarrow> 'o \<Rightarrow> key_ref \<Rightarrow> 's \<Rightarrow> bool" where
  "added m out k s \<equiv> k \<notin> dom m \<and> (\<exists>x. tab (m(k \<mapsto> x)) out s)"

lemma adopt_ends:
  "ends P a (\<lambda>_. E) Q \<Longrightarrow> ends P (adopt a) (\<lambda>_. E) Q"
  by (fastforce simp: ends_def adopt_def split: sum.splits prod.splits)

lemma lift_any: "ends P a (\<lambda>_. E) Q \<Longrightarrow> ends P (lift_act a) (\<lambda>_. E) Q"
  by (fastforce simp: ends_def lift_act_def split: sum.splits prod.splits)

lemma early_any: "ends P a (tab_early m out) Q \<Longrightarrow> ends P a (\<lambda>_. tab m out) Q"
  by (erule ends_weaken) (auto simp: tab_early_def)

lemma lift_destroy: "ends P (cpDestroyKey cp k) (\<lambda>_ _. False) Q \<Longrightarrow> ends P (lift_act (cpDestroyKey cp k)) (\<lambda>_ _. False) Q"
  by (fastforce simp: ends_def lift_act_def split: sum.splits prod.splits)

lemma or_destroy_any:
  assumes "k \<notin> dom m" and "ends P a (\<lambda>_. tab (m(k \<mapsto> x)) out) Q"
  shows "ends P (or_destroy cp k a) (\<lambda>_. tab m out) Q"
  unfolding or_destroy_def
  by (rule ends_catch [OF assms(2)], rule ends_and_then [where R = "\<lambda>_. tab m out"])
     (auto intro: ends_throw ends_weaken [OF lift_destroy [OF destroy_minted [OF assms(1)]]])

lemma then_destroy_any:
  assumes "ends P a (\<lambda>_. R) Q" and "ends R (cpDestroyKey cp k) (\<lambda>_ _. False) (\<lambda>_. E)"
    and "\<And>b. ends (Q b) (cpDestroyKey cp k) (\<lambda>_ _. False) (\<lambda>_. Q' b)"
  shows "ends P (then_destroy cp k a) (\<lambda>_. E) Q'"
  unfolding then_destroy_def by (rule ends_finally [OF assms(1)]) (rule lift_destroy, rule assms)+

lemma commit_and_pin_ends:
  assumes "quiet keys outside commit" and "quiet_store keys outside ks"
  shows "ends (rekeyed m out input r) (commit_and_pin cp ks acc r commit) (\<lambda>_. tab m out) (\<lambda>_. tab m out)"
  unfolding commit_and_pin_def rekeyed_def
proof (intro ends_fact ends_exists)
  fix u w let ?k = "rkMasterUnlockKey r"
  assume k: "?k \<notin> dom m"
  have pin: "quiet keys outside (ksStorePinnedKdfProfile ks (rpKdfParams r) acc)"
    using assms(2) by (simp add: quiet_store_def)
  show "ends (tab (m(?k \<mapsto> w)) out) (and_then (then_destroy cp ?k (lift_act commit)) (\<lambda>_.
      and_then (adopt (ksStorePinnedKdfProfile ks (rpKdfParams r) acc)) (\<lambda>_. ok (rpKdfParams r)))) (\<lambda>_. tab m out) (\<lambda>_. tab m out)"
  proof (rule ends_and_then)
    show "ends (tab (m(?k \<mapsto> w)) out) (then_destroy cp ?k (lift_act commit)) (\<lambda>_. tab m out) (\<lambda>_. tab m out)"
      by (rule then_destroy_any [OF lift_any [OF quiet_ends [OF assms(1)]]]) (rule destroy_minted [OF k])+
  qed (auto intro!: ends_and_then [OF adopt_ends [OF quiet_ends [OF pin]]] ends_ok)
qed

lemma password_ends:
  assumes "\<And>p. quiet keys outside (commit p)" and "quiet_store keys outside ks"
  shows "ends (tab m out) (changeAccountPassword cp ks commit a new) (\<lambda>_. tab m out) (\<lambda>_. tab m out)"
  unfolding changeAccountPassword_def
  by (rule ends_and_then [OF early_any [OF rekey_ends]], rule commit_and_pin_ends [OF assms])

lemma email_ends:
  assumes "\<And>p x. quiet keys outside (commit p x)" and "quiet_store keys outside ks"
  shows "ends (tab m out) (changeAccountEmail cp ks commit a new) (\<lambda>_. tab m out) (\<lambda>_. tab m out)"
  unfolding changeAccountEmail_def Let_def
  by (rule ends_and_then [OF early_any [OF rekey_ends]], rule ends_and_then [OF commit_and_pin_ends [OF assms]])
     (auto intro: ends_ok)

lemma takes_ends:
  assumes "takes keys outside k a" and "k \<notin> dom m"
  shows "ends (tab (m(k \<mapsto> x)) out) a (\<lambda>_. tab (m(k \<mapsto> x)) out) (\<lambda>_. tab m out)"
proof -
  have "m(k := None) = m" using assms(2) by (auto simp: fun_eq_iff)
  with assms(1) show ?thesis
    by (auto simp: takes_def table_def ends_def split: sum.splits)
qed

text \<open>The last step of the adoption is the one that takes the new key over.\<close>

lemma adoption_ends:
  assumes "quiet_store keys outside ks" and "rkMasterUnlockKey r \<notin> dom m"
  shows "ends (tab (m(rkMasterUnlockKey r \<mapsto> x)) out) (adopt_rekeyed ks a new r)
     (\<lambda>_. tab (m(rkMasterUnlockKey r \<mapsto> x)) out) (\<lambda>_. tab m out)"
proof -
  note store = assms(1) [unfolded quiet_store_def]
  let ?m = "m(rkMasterUnlockKey r \<mapsto> x)"
  have q: "ends (tab ?m out) c (\<lambda>_. tab ?m out) (\<lambda>_. tab ?m out)" if "quiet keys outside c" for c :: "(js_error, 's, 'b) act"
    by (rule quiet_ends [OF that])
  show ?thesis
    unfolding adopt_rekeyed_def Let_def
    by (rule ends_and_then [where R = "\<lambda>_. tab ?m out"], rule quiet_ends, use store in blast)+
       (rule takes_ends [OF _ assms(2)], use store in blast)
qed

lemma secret_key_ends:
  assumes "\<And>p x. quiet keys outside (commit p x)" and "quiet_store keys outside ks"
  shows "ends (tab m out) (regenerateAccountSecretKey cp ks commit a new) (\<lambda>_. tab m out) (\<lambda>_. tab m out)"
  unfolding regenerateAccountSecretKey_def
proof (rule ends_and_then [OF early_any [OF rekey_ends]], unfold rekeyed_def, intro ends_fact ends_exists)
  fix r :: rekeyed_account and u w let ?k = "rkMasterUnlockKey r"
  assume k: "?k \<notin> dom m"
  let ?live = "tab (m(?k \<mapsto> w)) out"
  show "ends ?live (and_then (or_destroy cp ?k (lift_act (commit (toReKeyPayload r) (getSecretKeyHint new)))) (\<lambda>_.
      and_then (or_destroy cp ?k (adopt (adopt_rekeyed ks a new r))) (\<lambda>_. ok (rpKdfParams r))))
      (\<lambda>_. tab m out) (\<lambda>_. tab m out)"
    by (rule ends_and_then [where R = "\<lambda>_. ?live"], rule or_destroy_any [OF k lift_any [OF quiet_ends [OF assms(1)]]],
        rule ends_and_then [where R = "\<lambda>_. tab m out"], rule or_destroy_any [OF k adopt_ends [OF adoption_ends [OF assms(2) k]]])
       (auto intro!: ends_ok)
qed

lemma prepare_ends:
  "ends (tab m out) (prepareRecoveryKey cp ks a) (\<lambda>_. tab m out) (\<lambda>_. tab m out)"
  unfolding prepareRecoveryKey_def
proof (rule ends_and_then [OF lift_any [OF quiet_ends [OF pinned]]], rule ends_option)
  fix pin profile
  show "ends (tab m out) (and_then (lift_act (cpGenerateRecoveryKey cp)) (\<lambda>recoveryKey.
         and_then (lift_act (deriveAccountKeys cp (ksStore ks)
            \<lparr>dkPassword = aiCurrentPassword a, dkSecretKey = aiSecretKey a, dkEmail = aiEmail a,
             dkProfile = profile, dkAccountId = Some (aiAccountId a), dkRecoveryKey = Some recoveryKey\<rparr>)) (\<lambda>derived.
         then_destroy cp (dkMasterUnlockKey derived)
           (and_then (prove_password cp (aiEncryptedPrivateKey a) (dkMasterUnlockKey derived)) (\<lambda>_.
            case dkEncryptedMasterKey derived of
              None \<Rightarrow> throw (Thrown no_recovery_envelope)
            | Some d \<Rightarrow> ok \<lparr>prRecoveryKey = recoveryKey, prEncryptedMasterKey = printData cp d,
                            prRecoveryKeyHint = getRecoveryKeyHint recoveryKey\<rparr>))))) (\<lambda>_. tab m out) (\<lambda>_. tab m out)"
  proof (rule ends_and_then [OF lift_any [OF quiet_ends [OF recovery_key]]],
      rule ends_and_then [OF lift_any [OF derive_ends [OF pinned_ends]]], unfold derived_def, intro ends_fact ends_exists)
    fix recoveryKey and d :: derived_keys and x let ?k = "dkMasterUnlockKey d"
    assume k: "?k \<notin> dom m"
    let ?live = "tab (m(?k \<mapsto> x)) out"
    show "ends ?live (then_destroy cp ?k (and_then (prove_password cp (aiEncryptedPrivateKey a) ?k) (\<lambda>_.
            case dkEncryptedMasterKey d of
              None \<Rightarrow> throw (Thrown no_recovery_envelope)
            | Some d \<Rightarrow> ok \<lparr>prRecoveryKey = recoveryKey, prEncryptedMasterKey = printData cp d,
                            prRecoveryKeyHint = getRecoveryKeyHint recoveryKey\<rparr>))) (\<lambda>_. tab m out) (\<lambda>_. tab m out)"
    proof (rule then_destroy_any [where R = ?live and Q = "\<lambda>_. ?live"])
      show "ends ?live (and_then (prove_password cp (aiEncryptedPrivateKey a) ?k) (\<lambda>_.
            case dkEncryptedMasterKey d of
              None \<Rightarrow> throw (Thrown no_recovery_envelope)
            | Some d \<Rightarrow> ok \<lparr>prRecoveryKey = recoveryKey, prEncryptedMasterKey = printData cp d,
                            prRecoveryKeyHint = getRecoveryKeyHint recoveryKey\<rparr>)) (\<lambda>_. ?live) (\<lambda>_. ?live)"
        by (rule ends_and_then [OF early_any [OF prove_password_ends]])
           (auto intro!: ends_option ends_ok ends_throw ends_fact)
    qed (rule destroy_minted [OF k])+
  qed
qed (auto intro: ends_throw)

text \<open>A key destroyed right after one use, with the rest of the block.\<close>

lemma rewrap_any: "m old = Some u \<Longrightarrow> m new = Some w \<Longrightarrow> isOwnerWrappedVaultKey cp b \<Longrightarrow>
    ends (tab m out) (rewrap cp old new user v b) (\<lambda>_. tab m out) (\<lambda>_. tab m out)"
  by (rule ends_weaken [OF rewrap_ends]) auto

lemma rewrap_records_ends:
  assumes "m old = Some u" and "m new = Some w"
  shows "ends (tab m out) (rewrap_records cp old new user es) (\<lambda>_. tab m out) (\<lambda>_. tab m out)"
proof (induction es)
  case (Cons e es)
  show ?case
    by (cases "isOwnerWrappedVaultKey cp (wvrEncryptedVaultKey e)")
       (auto intro!: ends_and_then [OF rewrap_any [where m = m, OF assms]] ends_and_then [OF Cons.IH] ends_ok Cons.IH)
qed (auto intro: ends_ok)

lemma reset_ends:
  assumes "\<And>p. quiet keys outside (commit p)" and "m old = Some u" and "m (dkMasterUnlockKey new) = Some w"
  shows "ends (tab m out) (reset_account cp commit rd recoveryKey secretKey old pem new) (\<lambda>_. tab m out)
    (\<lambda>p s. raMasterUnlockKey (fst p) = dkMasterUnlockKey new \<and> tab m out s)"
proof (cases "dkEncryptedMasterKey new")
  case None
  then show ?thesis by (simp add: reset_account_def ends_throw)
next
  case (Some sealed)
  show ?thesis
    unfolding reset_account_def Some option.case
    by (intro ends_and_then [where R = "\<lambda>_. tab m out"] ends_prod ends_ok quiet_ends [OF srp_registration]
        quiet_ends [OF encrypt] rewrap_records_ends [where m = m, OF assms(2,3)] quiet_ends [OF assms(1)]) simp
qed

lemma recover_with_ends:
  assumes commit: "\<And>p. quiet keys outside (commit p)" and kl: "k \<noteq> l" "k \<notin> dom m" "l \<notin> dom m"
  shows "ends (tab (m(l \<mapsto> y, k \<mapsto> x)) out) (recover_with cp commit rd email recoveryKey new (k, l)) (\<lambda>_. tab m out)
    (\<lambda>p s. added m out (raMasterUnlockKey (fst p)) s)"
  unfolding recover_with_def prod.case
proof (rule then_destroy_any)
  let ?m = "m(l \<mapsto> y)"
  let ?live = "tab ?m out" and ?Q = "\<lambda>p s. added ?m out (raMasterUnlockKey (fst p)) s"
  have k: "k \<notin> dom ?m" using kl by auto
  have drop: "ends (tab (?m(k \<mapsto> x)) out) (lift_act (cpDestroyKey cp k)) (\<lambda>_. ?live) (\<lambda>_. ?live)"
    by (rule ends_weaken [OF lift_destroy [OF destroy_minted [OF k]]]) auto
  have open_key: "ends ?live (lift_act (decryptPrivateKey cp (rdEncryptedPrivateKey rd) l)) (\<lambda>_. ?live) (\<lambda>_. ?live)"
    by (rule ends_weaken [OF lift_any [OF decrypt_private_ends [where m = ?m]]]) auto
  have finish: "ends (derived ?m out d) (or_destroy cp (dkMasterUnlockKey d)
        (lift_act (reset_account cp commit rd recoveryKey secretKey l pem d))) (\<lambda>_. ?live) ?Q" for d secretKey pem
    unfolding derived_def
  proof (intro ends_fact ends_exists)
    fix w assume d: "dkMasterUnlockKey d \<notin> dom ?m"
    then have "(?m(dkMasterUnlockKey d \<mapsto> w)) l = Some y" "(?m(dkMasterUnlockKey d \<mapsto> w)) (dkMasterUnlockKey d) = Some w" by auto
    from or_destroy_any [OF d lift_any [OF reset_ends [where m = "?m(dkMasterUnlockKey d \<mapsto> w)", OF commit this]]]
    show "ends (tab (?m(dkMasterUnlockKey d \<mapsto> w)) out) (or_destroy cp (dkMasterUnlockKey d)
        (lift_act (reset_account cp commit rd recoveryKey secretKey l pem d))) (\<lambda>_. ?live) ?Q"
      by (rule ends_weaken) (use d in auto)
  qed
  show "ends (tab (?m(k \<mapsto> x)) out) (and_then (lift_act (cpDestroyKey cp k)) (\<lambda>_.
        and_then (lift_act (decryptPrivateKey cp (rdEncryptedPrivateKey rd) l)) (\<lambda>pem.
        and_then (lift_act (cpGenerateSecretKey cp)) (\<lambda>secretKey.
        and_then (lift_act (or_throw (validateKdfProfileOrThrow (untrusted currentKdfProfile) None))) (\<lambda>_.
        and_then (lift_act (deriveAccountKeys cp NO_LOCAL_ACCOUNT
           \<lparr>dkPassword = new, dkSecretKey = secretKey, dkEmail = email,
            dkProfile = currentKdfProfile, dkAccountId = None, dkRecoveryKey = Some recoveryKey\<rparr>)) (\<lambda>next.
        or_destroy cp (dkMasterUnlockKey next)
          (lift_act (reset_account cp commit rd recoveryKey secretKey l pem next)))))))) (\<lambda>_. ?live) ?Q"
    by (intro ends_and_then [OF drop] ends_and_then [OF open_key] ends_and_then [OF lift_any [OF quiet_ends [OF secret_key]]]
        ends_and_then [OF early_any [OF validated_ends]] ends_and_then [OF lift_any [OF derive_ends [OF no_account_ends]]] finish)
  show "ends ?live (cpDestroyKey cp l) (\<lambda>_ _. False) (\<lambda>_. tab m out)" by (rule destroy_minted [OF kl(3)])
  show "ends (?Q p) (cpDestroyKey cp l) (\<lambda>_ _. False) (\<lambda>_ s. added m out (raMasterUnlockKey (fst p)) s)" for p
  proof (intro ends_fact ends_exists)
    fix z let ?n = "raMasterUnlockKey (fst p)"
    assume n: "?n \<notin> dom ?m"
    have c: "?m(?n \<mapsto> z) = m(?n \<mapsto> z, l \<mapsto> y)" and fresh: "l \<notin> dom (m(?n \<mapsto> z))" and "?n \<notin> dom m"
      using n kl(3) by (auto simp: fun_upd_twist)
    then show "ends (tab (?m(?n \<mapsto> z)) out) (cpDestroyKey cp l) (\<lambda>_ _. False) (\<lambda>_ s. added m out ?n s)"
      unfolding c by (intro ends_weaken [OF destroy_minted [OF fresh]]) auto
  qed
qed

lemma recover_ends:
  assumes "\<And>p. quiet keys outside (commit p)" and "quiet keys outside load"
  shows "ends (tab m out) (recoverAccount cp load commit email recoveryKey new) (\<lambda>_. tab m out)
    (\<lambda>p s. added m out (raMasterUnlockKey (fst p)) s)"
  unfolding recoverAccount_def
proof (rule ends_and_then [OF lift_any [OF quiet_ends [OF validate_recovery]]], rule ends_if)
  fix valid :: bool
  show "ends (tab m out) (and_then (lift_act load) (\<lambda>rd.
      and_then (lift_act (and_then (parseEncryptedData cp (rdEncryptedMasterKey rd)) (\<lambda>d.
                      cpDecryptMasterKey cp d recoveryKey email))) (\<lambda>oldMasterKey.
      and_then (lift_act (finally_do (cpDeriveKeysFromMasterKey cp oldMasterKey email)
                                (cpDestroyKey cp oldMasterKey))) (\<lambda>old.
      recover_with cp commit rd email recoveryKey new old)))) (\<lambda>_. tab m out)
    (\<lambda>p s. added m out (raMasterUnlockKey (fst p)) s)"
  proof (rule ends_and_then [OF lift_any [OF quiet_ends [OF assms(2)]]], rule ends_and_then, rule lift_any)
    fix rd :: recovery_data
    have parsed: "ends (tab m out) (parseEncryptedData cp b) (\<lambda>_. tab m out) (\<lambda>_. tab m out)" for b
      by (auto simp: parseEncryptedData_def intro: ends_ok ends_throw split: option.split)
    show "ends (tab m out) (and_then (parseEncryptedData cp (rdEncryptedMasterKey rd)) (\<lambda>d.
        cpDecryptMasterKey cp d recoveryKey email)) (\<lambda>_. tab m out) (\<lambda>k s. added m out k s)"
      by (rule ends_and_then [OF parsed mints_ends [OF decrypt_master]])
    fix k
    show "ends (added m out k) (and_then (lift_act (finally_do (cpDeriveKeysFromMasterKey cp k email)
        (cpDestroyKey cp k))) (\<lambda>old. recover_with cp commit rd email recoveryKey new old)) (\<lambda>_. tab m out)
      (\<lambda>p s. added m out (raMasterUnlockKey (fst p)) s)"
    proof (intro ends_fact ends_exists)
      fix x assume k: "k \<notin> dom m"
      let ?Q = "\<lambda>m kl s. fst kl \<noteq> snd kl \<and> fst kl \<notin> dom m \<and> snd kl \<notin> dom m \<and>
         (\<exists>x y. tab (m(snd kl \<mapsto> y, fst kl \<mapsto> x)) out s)"
      have halves: "ends (tab (m(k \<mapsto> x)) out) (finally_do (cpDeriveKeysFromMasterKey cp k email) (cpDestroyKey cp k))
          (\<lambda>_. tab m out) (?Q m)"
      proof (rule ends_finally [OF mints_two_ends [OF derive_keys]])
        show "ends (tab (m(k \<mapsto> x)) out) (cpDestroyKey cp k) (\<lambda>_ _. False) (\<lambda>_. tab m out)" by (rule destroy_minted [OF k])
        show "ends (?Q (m(k \<mapsto> x)) kl) (cpDestroyKey cp k) (\<lambda>_ _. False) (\<lambda>_. ?Q m kl)" for kl
        proof (intro ends_fact ends_exists)
          fix a b assume kl: "fst kl \<noteq> snd kl" "fst kl \<notin> dom (m(k \<mapsto> x))" "snd kl \<notin> dom (m(k \<mapsto> x))"
          let ?n = "m(snd kl \<mapsto> b, fst kl \<mapsto> a)"
          have c: "m(k \<mapsto> x, snd kl \<mapsto> b, fst kl \<mapsto> a) = ?n(k \<mapsto> x)" and fresh: "k \<notin> dom ?n"
            using kl k by (auto simp: fun_upd_twist fun_eq_iff)
          show "ends (tab (m(k \<mapsto> x, snd kl \<mapsto> b, fst kl \<mapsto> a)) out) (cpDestroyKey cp k) (\<lambda>_ _. False) (\<lambda>_. ?Q m kl)"
            unfolding c by (rule ends_weaken [OF destroy_minted [OF fresh]]) (use kl in auto)
        qed
      qed
      show "ends (tab (m(k \<mapsto> x)) out) (and_then (lift_act (finally_do (cpDeriveKeysFromMasterKey cp k email)
          (cpDestroyKey cp k))) (\<lambda>old. recover_with cp commit rd email recoveryKey new old)) (\<lambda>_. tab m out)
        (\<lambda>p s. added m out (raMasterUnlockKey (fst p)) s)"
      proof (rule ends_and_then [OF lift_any [OF halves]], intro ends_fact ends_exists)
        fix old :: "key_ref \<times> key_ref" and a b
        assume "fst old \<noteq> snd old" "fst old \<notin> dom m" "snd old \<notin> dom m"
        from recover_with_ends [where rd = rd and email = email and recoveryKey = recoveryKey and new = new and x = a and y = b and out = out, OF assms(1) this]
        show "ends (tab (m(snd old \<mapsto> b, fst old \<mapsto> a)) out) (recover_with cp commit rd email recoveryKey new old) (\<lambda>_. tab m out)
          (\<lambda>p s. added m out (raMasterUnlockKey (fst p)) s)" by simp
      qed
    qed
  qed
qed (rule ends_throw, simp)

lemma register_ends:
  assumes commit: "\<And>p. quiet keys outside (commit p)" and muk: "m (dkMasterUnlockKey d) = Some w"
  shows "ends (tab m out) (register_account cp commit secretKey recoveryKey d) (\<lambda>_. tab m out)
    (\<lambda>p s. ckMasterUnlockKey (fst p) = dkMasterUnlockKey d \<and> tab m out s)"
proof (cases "dkEncryptedMasterKey d")
  case None
  then show ?thesis by (simp add: register_account_def ends_throw)
next
  case (Some sealed)
  have wrapped: "ends (added m out k) (finally_do (wrapVaultKeyForOwner cp k l v user 1) (cpDestroyKey cp k))
      (\<lambda>_. tab m out) (\<lambda>_. tab m out)" for k l v user
  proof (intro ends_fact ends_exists)
    fix x assume k: "k \<notin> dom m"
    show "ends (tab (m(k \<mapsto> x)) out) (finally_do (wrapVaultKeyForOwner cp k l v user 1) (cpDestroyKey cp k))
      (\<lambda>_. tab m out) (\<lambda>_. tab m out)"
      unfolding wrapVaultKeyForOwner_def by (rule ends_finally [OF quiet_ends [OF wrap]]) (rule destroy_minted [OF k])+
  qed
  show ?thesis
    unfolding register_account_def Some option.case Let_def
    by (rule ends_and_then [OF quiet_ends [OF uuid]], rule ends_and_then [OF quiet_ends [OF uuid]],
        rule ends_and_then [OF quiet_ends [OF srp_registration]], rule ends_prod,
        rule ends_and_then [OF quiet_ends [OF rsa_pair]], rule ends_prod,
        rule ends_and_then [OF quiet_ends [OF encrypt]], rule ends_and_then [OF mints_ends [OF generate_key]],
        rule ends_and_then [OF wrapped], rule ends_and_then [OF quiet_ends [OF commit]], rule ends_ok) simp
qed

lemma create_ends:
  assumes "\<And>p. quiet keys outside (commit p)"
  shows "ends (tab m out) (createAccountKeys cp commit email pw secretKey recoveryKey) (\<lambda>_. tab m out)
    (\<lambda>p s. added m out (ckMasterUnlockKey (fst p)) s)"
  unfolding createAccountKeys_def
proof (rule ends_and_then [OF early_any [OF validated_ends]],
    rule ends_and_then [OF lift_any [OF derive_ends [OF no_account_ends]]], unfold derived_def, intro ends_fact ends_exists)
  fix d :: derived_keys and w let ?k = "dkMasterUnlockKey d"
  assume k: "?k \<notin> dom m"
  have "(m(?k \<mapsto> w)) ?k = Some w" by simp
  from or_destroy_any [OF k lift_any [OF register_ends [where m = "m(?k \<mapsto> w)", OF assms this]]]
  show "ends (tab (m(?k \<mapsto> w)) out) (or_destroy cp ?k (lift_act (register_account cp commit secretKey recoveryKey d)))
      (\<lambda>_. tab m out) (\<lambda>p s. added m out (ckMasterUnlockKey (fst p)) s)"
    by (rule ends_weaken) (use k in auto)
qed

section \<open>Commits\<close>

lemma ends_any: "ends P a (\<lambda>_ _. True) (\<lambda>_ _. True)"
  by (auto simp: ends_def split: sum.splits)

lemma rekey_mints: "ends (\<lambda>_. True) (reKeyAccount cp ks input) (\<lambda>_ _. True) (\<lambda>r _. minted cp (rkMasterUnlockKey r))"
proof -
  have sealed: "ends (\<lambda>_. minted cp (dkMasterUnlockKey new)) (or_destroy cp k (lift_act (seal_account cp input old pem new)))
      (\<lambda>_ _. True) (\<lambda>r _. minted cp (rkMasterUnlockKey r))" for k old pem new
    by (rule endsI) (auto simp: or_destroy_def catch_def lift_act_def seal_account_def and_then_def throw_def ok_def
        split: prod.splits sum.splits)
  have kept: "ends (\<lambda>_. True) (then_destroy cp k a) (\<lambda>_ _. True) (\<lambda>r _. minted cp (rkMasterUnlockKey r))"
    if "ends (\<lambda>_. True) a (\<lambda>_ _. True) (\<lambda>r _. minted cp (rkMasterUnlockKey r))" for k and a :: "('s, rekeyed_account) ceremony"
    using that by (fastforce simp: then_destroy_def finally_do_def lift_act_def ends_def split: prod.splits sum.splits)
  show ?thesis
    unfolding reKeyAccount_def
    by (rule ends_and_then [OF ends_any], rule ends_option, rule ends_throw, simp,
        rule ends_and_then [OF ends_any], rule kept, rule ends_and_then [OF ends_any], rule ends_and_then [OF ends_any],
        rule ends_and_then [OF lift_any [OF derive_mints]], rule sealed)
qed

lemma destroyed: "minted cp k \<Longrightarrow> \<exists>t. cpDestroyKey cp k s = (Inr (), t) \<and> outside t = outside s"
  using destroy [of k s] destroys [of k s] by (cases "cpDestroyKey cp k s") auto

lemma commit_and_pin_settled:
  assumes "minted cp (rkMasterUnlockKey r)" and "commit_and_pin cp ks acc r commit s = (res, t)"
  shows "settled outside commit (ksStorePinnedKdfProfile ks (rpKdfParams r) acc) (rpKdfParams r) s res t"
proof -
  obtain c s2 where c: "commit s = (c, s2)" by fastforce
  obtain s3 where d: "cpDestroyKey cp (rkMasterUnlockKey r) s2 = (Inr (), s3)" "outside s3 = outside s2"
    using destroyed [OF assms(1)] by blast
  obtain a s4 where a: "ksStorePinnedKdfProfile ks (rpKdfParams r) acc s3 = (a, s4)" by fastforce
  show ?thesis
    using assms(2) c d a
    by (cases c; cases a) (auto simp: settled_def commit_and_pin_def then_destroy_def finally_do_def lift_act_def
        adopt_def and_then_def ok_def intro!: exI [of _ s3])
qed

lemma settled_value:
  assumes "and_then a (\<lambda>x. ok (x, y)) s = (res, t)" and "\<And>r. a s = (r, t) \<Longrightarrow> settled outside commit work v s r t"
  shows "settled outside commit work (v, y) s res t"
proof -
  obtain r u where a: "a s = (r, u)" by fastforce
  then have "u = t" "res = (case r of Inl e \<Rightarrow> Inl e | Inr x \<Rightarrow> Inr (x, y))"
    using assms(1) by (auto simp: and_then_def ok_def split: sum.splits)
  moreover have st: "settled outside commit work v s r t" using assms(2) a calculation by simp
  obtain c s2 where c: "commit s = (c, s2)" by fastforce
  have "settled outside commit work (v, y) s (case r of Inl e \<Rightarrow> Inl e | Inr x \<Rightarrow> Inr (x, y)) t"
  proof (cases c)
    case (Inl e)
    with st c show ?thesis by (simp add: settled_def)
  next
    case (Inr z)
    with st c obtain s3 where s3: "outside s3 = outside s2" and ad: "case work s3 of
        (Inl e, s4) \<Rightarrow> r = Inl (LocalKeyAdoptionError e) \<and> outside t = outside s4
      | (Inr _, s4) \<Rightarrow> r = Inr v \<and> outside t = outside s4" by (auto simp: settled_def)
    obtain w s4 where "work s3 = (w, s4)" by fastforce
    with Inr c s3 ad show ?thesis by (cases w) (auto simp: settled_def intro!: exI [of _ s3])
  qed
  ultimately show ?thesis by simp
qed

lemma secret_key_settled:
  assumes "minted cp k"
    and "and_then (or_destroy cp k (lift_act commit)) (\<lambda>_. and_then (or_destroy cp k (adopt work)) (\<lambda>_. ok v)) s = (res, t)"
  shows "settled outside commit work v s res t"
proof -
  obtain c s2 where c: "commit s = (c, s2)" by fastforce
  obtain a s3 where a: "work s2 = (a, s3)" by fastforce
  obtain d2 d3 where "cpDestroyKey cp k s2 = (Inr (), d2)" "outside d2 = outside s2"
      "cpDestroyKey cp k s3 = (Inr (), d3)" "outside d3 = outside s3"
    using destroyed [OF assms(1)] by blast
  then show ?thesis
    using assms(2) c a
    by (cases c; cases a) (auto simp: settled_def or_destroy_def catch_def lift_act_def adopt_def and_then_def ok_def
        throw_def intro!: exI [of _ s2])
qed

lemma rekey_then:
  assumes run: "and_then (reKeyAccount cp ks input) f s = (res, t)"
    and rest: "\<And>r s1. minted cp (rkMasterUnlockKey r) \<Longrightarrow> f r s1 = (res, t) \<Longrightarrow> settled outside (commit r) (adoption r) (v r) s1 res t"
  shows "commits_once outside (\<lambda>r. \<exists>u w. carries_over cp opens reads input r u w) commit adoption v s res t"
proof -
  have s: "tab (keys s) (outside s) s" by (simp add: table_def)
  obtain p s1 where rk: "reKeyAccount cp ks input s = (p, s1)" by fastforce
  show ?thesis
  proof (cases p)
    case (Inl e)
    with rk have "tab_early (keys s) (outside s) e s1" using ends_error [OF rekey_ends s] by blast
    with Inl rk run show ?thesis
      by (auto simp: commits_once_def tab_early_def early_def table_def and_then_def)
  next
    case (Inr r)
    with rk have "rekeyed (keys s) (outside s) input r s1" using ends_value [OF rekey_ends s] by blast
    moreover have "settled outside (commit r) (adoption r) (v r) s1 res t"
      using rest [of r s1] ends_value [OF rekey_mints _ rk [unfolded Inr]] Inr rk run by (simp add: and_then_def)
    ultimately show ?thesis unfolding commits_once_def rekeyed_def table_def by blast
  qed
qed

end

end
