(* ===== verification/CeremonyClaims.thy ===== *)
theory CeremonyClaims
  imports CeremonyEnds
begin

text \<open>
  What the key ceremonies promise, over every platform that behaves like a key table, and such a
  platform: vault_port, a table of named keys whose envelopes list what was sealed and for whom.
\<close>

section \<open>A platform\<close>

record vault_device =
  vdKeys :: "(key_ref \<times> string) list"
  vdSent :: "rekey_payload list"
  vdPin :: "kdf_profile option"
  vdSecretKey :: string
  vdVaultKeys :: "vault_key_entry list"

definition vd_keys :: "vault_device \<Rightarrow> key_ref \<rightharpoonup> string" where
  "vd_keys s = map_of (vdKeys s)"

definition vd_outside where
  "vd_outside s = (vdSent s, vdPin s, vdSecretKey s, vdVaultKeys s)"

text \<open>Texts of several fields: every character of a field is marked, a dot ends the field.\<close>

fun pack :: "string list \<Rightarrow> string" where
  "pack [] = []"
| "pack (x # xs) = concat (map (\<lambda>c. [CHR ''x'', c]) x) @ CHR ''.'' # pack xs"

fun unpack :: "string \<Rightarrow> string \<Rightarrow> string list" where
  "unpack acc [] = []"
| "unpack acc (c # cs) = (if c = CHR ''.'' then rev acc # unpack [] cs
     else (case cs of [] \<Rightarrow> [] | d # ds \<Rightarrow> unpack (d # acc) ds))"

lemma unpack_field: "unpack acc (concat (map (\<lambda>c. [CHR ''x'', c]) x) @ CHR ''.'' # cs) = (rev acc @ x) # unpack [] cs"
  by (induction x arbitrary: acc) auto

lemma unpack_pack [simp]: "unpack [] (pack xs) = xs"
  by (induction xs) (use unpack_field [of "[]"] in auto)

declare pack.simps [simp del]

definition fresh_key :: "(key_ref \<times> 'a) list \<Rightarrow> key_ref" where
  "fresh_key ks = CHR ''k'' # concat (map fst ks)"

lemma fresh_key: "fresh_key ks \<notin> fst ` set ks"
proof -
  have "length k \<le> length (concat (map fst ks))" if "k \<in> fst ` set ks" for k
    using that by (induction ks) (auto intro: trans_le_add2)
  then show ?thesis by (fastforce simp: fresh_key_def)
qed

definition vd_mint :: "string \<Rightarrow> (js_error, vault_device, key_ref) act" where
  "vd_mint x = (\<lambda>s. (Inr (fresh_key (vdKeys s)), s\<lparr>vdKeys := (fresh_key (vdKeys s), x) # vdKeys s\<rparr>))"

definition vd_with :: "key_ref \<Rightarrow> (string \<Rightarrow> (js_error, vault_device, 'a) act) \<Rightarrow> (js_error, vault_device, 'a) act" where
  "vd_with k f = (\<lambda>s. case vd_keys s k of None \<Rightarrow> (Inl (JsError ''no such key''), s) | Some u \<Rightarrow> f u s)"

definition vd_binding :: "string \<Rightarrow> string \<Rightarrow> int \<Rightarrow> string" where
  "vd_binding v user n = pack [v, user, replicate (nat n) CHR ''i'']"

definition vd_opens :: "encrypted_data \<Rightarrow> encryption_context \<Rightarrow> string \<Rightarrow> string option" where
  "vd_opens d c u = (if edIv d = u \<and> edAlgorithm d = vd_binding (ecVaultId c) (ecUserId c) (ecVersion c)
     then Some (edCiphertext d) else None)"

definition vd_reads :: "encrypted_data \<Rightarrow> encryption_context option \<Rightarrow> string \<Rightarrow> plaintext option" where
  "vd_reads d c u = (if c = None \<and> edIv d = u then Some (OtherText (edCiphertext d)) else None)"

definition vd_envelope :: "string \<Rightarrow> wrapped_vault_key option" where
  "vd_envelope text = (case unpack [] text of
       [x, u, v, user, n, p] \<Rightarrow> Some \<lparr>wkData = \<lparr>edCiphertext = x, edIv = u, edAlgorithm = pack [v, user, n]\<rparr>,
          wkContext = Some \<lparr>wcVaultId = v, wcUserId = user, wcKeyVersion = Some (int (length n)), wcPurpose = p\<rparr>\<rparr>
     | _ \<Rightarrow> None)"

definition vd_data :: "string \<Rightarrow> encrypted_data option" where
  "vd_data text = (case unpack [] text of
       [x, u, a] \<Rightarrow> Some \<lparr>edCiphertext = x, edIv = u, edAlgorithm = a\<rparr> | _ \<Rightarrow> None)"

definition vd_or_throw :: "'a option \<Rightarrow> (js_error, vault_device, 'a) act" where
  "vd_or_throw z = (case z of None \<Rightarrow> throw (JsError ''does not open'') | Some x \<Rightarrow> ok x)"

definition vd_wrap :: "key_ref \<Rightarrow> key_ref \<Rightarrow> string \<Rightarrow> string \<Rightarrow> int \<Rightarrow> (js_error, vault_device, string) act" where
  "vd_wrap k muk v user n = vd_with muk (\<lambda>u. vd_with k (\<lambda>x.
     ok (pack [x, u, v, user, replicate (nat n) CHR ''i'', VAULT_KEY_WRAP_PURPOSE])))"

definition vault_port :: "vault_device crypto_port" where
  "vault_port =
     \<lparr>cpEncrypt = (\<lambda>p k c. vd_with k (\<lambda>u. case (p, c) of
         (OtherText t, None) \<Rightarrow> ok \<lparr>edCiphertext = t, edIv = u, edAlgorithm = ''aead''\<rparr>
       | _ \<Rightarrow> throw (JsError ''no such text''))),
      cpDecrypt = (\<lambda>d k c. vd_with k (\<lambda>u. vd_or_throw (vd_reads d c u))),
      cpDecryptMany = (\<lambda>_. throw (JsError ''no batch'')),
      cpDestroyKey = (\<lambda>k s. (Inr (), s\<lparr>vdKeys := js_delete k (vdKeys s)\<rparr>)),
      cpWrapKey = (\<lambda>_ _ _. throw (JsError ''no wrap'')),
      cpUnwrapKey = (\<lambda>d muk c. vd_with muk (\<lambda>u. and_then (vd_or_throw (Option.bind c (\<lambda>c. vd_opens d c u))) vd_mint)),
      cpDecryptRsaWrappedKey = (\<lambda>_ _ _. throw (JsError ''no rsa'')),
      cpGenerateEncryptionKey = vd_mint ''vault key'',
      cpDeriveMasterKey = (\<lambda>pw sk email _. vd_mint (pack [pw, sk, email])),
      cpDeriveKeysFromMasterKey = (\<lambda>k _. vd_with k (\<lambda>x.
         and_then (vd_mint (CHR ''a'' # x)) (\<lambda>a. and_then (vd_mint (CHR ''m'' # x)) (\<lambda>m. ok (a, m))))),
      cpDeriveSrpPassword = (\<lambda>k. vd_with k ok),
      cpEncryptMasterKey = (\<lambda>k rk email. vd_with k (\<lambda>x. ok \<lparr>edCiphertext = x, edIv = rk, edAlgorithm = email\<rparr>)),
      cpDecryptMasterKey = (\<lambda>d rk email.
         if edIv d = rk \<and> edAlgorithm d = email then vd_mint (edCiphertext d) else throw (JsError ''wrong key'')),
      cpGenerateSrpRegistration = (\<lambda>w. ok (''salt'', w)),
      cpEncryptVaultKeyWithMuk = vd_wrap,
      cpGenerateSecretKey = ok ''A1-XYZ-1'', cpGenerateRecoveryKey = ok ''R1-XYZ-1'',
      cpValidateRecoveryKey = (\<lambda>rk. ok (rk \<noteq> [])), cpGenerateUuid = ok ''uuid'',
      cpGenerateRsaKeyPair = ok (''public'', ''private''),
      parseEnvelope = vd_envelope, parseData = vd_data,
      printData = (\<lambda>d. pack [edCiphertext d, edIv d, edAlgorithm d])\<rparr>"

definition vault_store :: "vault_device account_key_store" where
  "vault_store =
     \<lparr>ksStore = NO_LOCAL_ACCOUNT\<lparr>csGetPinnedKdfProfile := (\<lambda>_. get_state vdPin)\<rparr>,
      ksGetStoredSessionData = (\<lambda>_. ok None),
      ksStorePinnedKdfProfile = (\<lambda>p _. put_state (\<lambda>s. s\<lparr>vdPin := Some p\<rparr>)),
      ksStoreSecretKey = (\<lambda>x _. put_state (\<lambda>s. s\<lparr>vdSecretKey := x\<rparr>)),
      ksStoreEncryptedPrivateKey = (\<lambda>_ _. ok ()),
      ksStoreVaultKeys = (\<lambda>es _. put_state (\<lambda>s. s\<lparr>vdVaultKeys := es\<rparr>)),
      ksStoreSessionData = (\<lambda>_ _ _ _ _ _. ok ()),
      ksSetMasterUnlockKey = (\<lambda>k _. put_state (\<lambda>s. s\<lparr>vdKeys := js_delete k (vdKeys s)\<rparr>))\<rparr>"

lemma vd_quiet [intro]:
  "quiet vd_keys o' (ok a)" "quiet vd_keys o' (throw e)" "quiet vd_keys o' (vd_or_throw z)" "quiet vd_keys o' (get_state f)"
  by (auto simp: quiet_def ok_def throw_def vd_or_throw_def get_state_def split: option.split)

lemma vd_with_quiet [intro]: "(\<And>u. quiet vd_keys o' (f u)) \<Longrightarrow> quiet vd_keys o' (vd_with k f)"
  by (auto simp: quiet_def vd_with_def split: option.split)

lemma vd_mint_mints: "mints vd_keys vd_outside (vd_mint x)"
  using fresh_key by (fastforce simp: mints_def vd_mint_def vd_keys_def vd_outside_def map_of_eq_None_iff)

lemma vd_with_mints:
  assumes "\<And>u. mints vd_keys vd_outside (f u)"
  shows "mints vd_keys vd_outside (vd_with k f)"
  using assms unfolding mints_def vd_with_def by (auto split: option.split)

lemma vd_or_throw_mints: "mints vd_keys vd_outside (and_then (vd_or_throw z) vd_mint)"
  using vd_mint_mints by (cases z) (auto simp: vd_or_throw_def and_then_def ok_def throw_def mints_def)

lemma vd_throw_mints: "mints vd_keys vd_outside (throw e)"
  by (simp add: mints_def throw_def)

lemma vd_pair: "mints_two vd_keys vd_outside (and_then (vd_mint x) (\<lambda>a. and_then (vd_mint y) (\<lambda>m. ok (a, m))))"
proof -
  have two: "fresh_key ((fresh_key ks, x) # ks) \<noteq> fresh_key ks" "fresh_key ((fresh_key ks, x) # ks) \<notin> fst ` set ks" for ks
    using fresh_key [of "(fresh_key ks, x) # ks"] by auto
  show ?thesis
    unfolding mints_two_def
    by (auto simp: vd_mint_def and_then_def ok_def vd_keys_def vd_outside_def map_of_eq_None_iff two two(1) [symmetric]
        fresh_key fun_upd_twist [OF two(1)] intro!: exI)
qed

lemma vd_with_pair:
  assumes "\<And>u. mints_two vd_keys vd_outside (f u)"
  shows "mints_two vd_keys vd_outside (vd_with k f)"
  using assms unfolding mints_two_def vd_with_def by (auto split: option.split)

lemma vault_port_ops:
  "cpEncrypt vault_port = (\<lambda>p k c. vd_with k (\<lambda>u. case (p, c) of
     (OtherText t, None) \<Rightarrow> ok \<lparr>edCiphertext = t, edIv = u, edAlgorithm = ''aead''\<rparr>
   | _ \<Rightarrow> throw (JsError ''no such text'')))"
  "cpDecrypt vault_port = (\<lambda>d k c. vd_with k (\<lambda>u. vd_or_throw (vd_reads d c u)))"
  "cpDestroyKey vault_port = (\<lambda>k s. (Inr (), s\<lparr>vdKeys := js_delete k (vdKeys s)\<rparr>))"
  "cpUnwrapKey vault_port = (\<lambda>d muk c. vd_with muk (\<lambda>u. and_then (vd_or_throw (Option.bind c (\<lambda>c. vd_opens d c u))) vd_mint))"
  "cpEncryptVaultKeyWithMuk vault_port = vd_wrap"
  "parseEnvelope vault_port = vd_envelope" "parseData vault_port = vd_data"
  "printData vault_port = (\<lambda>d. pack [edCiphertext d, edIv d, edAlgorithm d])"
  by (simp_all add: vault_port_def)

lemma vd_envelope_wrapped:
  "1 \<le> n \<Longrightarrow> holds_key vault_port vd_opens u
     (pack [x, u, v, user, replicate (nat n) CHR ''i'', VAULT_KEY_WRAP_PURPOSE]) (sealed_context v user n) x"
  by (simp add: holds_key_def vault_port_ops vd_envelope_def vd_opens_def vd_binding_def sealed_context_def
      buildVaultKeyEncryptionContext_def)

interpretation vault_table: key_table vault_port vault_store vd_keys vd_outside vd_opens vd_reads
proof (rule key_table.intro, goal_cases)
  case (1 p k ecx)
  show ?case unfolding vault_port_ops by (rule vd_with_quiet) (auto split: plaintext.split option.split)
next
  case (18 k s r t)
  then show ?case by (auto simp: vault_port_ops vd_keys_def vd_outside_def delete_conv')
next
  case (19 k s)
  show ?case by (simp add: vault_port_ops)
next
  case (20 s muk u d cx k t)
  then show ?case
    by (auto simp: vault_port_ops vd_with_def vd_or_throw_def and_then_def ok_def throw_def vd_mint_def vd_keys_def
        split: option.splits)
next
  case (21 s muk u k x n v user "text" t)
  then show ?case
    by (auto simp: vault_port_ops vd_wrap_def vd_with_def ok_def vd_envelope_wrapped)
next
  case (22 s k u p ecx d t)
  then show ?case
    by (auto simp: vault_port_ops vd_with_def ok_def throw_def vd_reads_def split: plaintext.splits option.splits)
next
  case (23 s k u d ecx p t)
  then show ?case
    by (auto simp: vault_port_ops vd_with_def vd_or_throw_def ok_def throw_def split: option.splits)
next
  case (24 d)
  then show ?case by (simp add: vault_port_ops vd_data_def)
qed (auto simp: vault_port_def vault_store_def vd_wrap_def vd_mint_mints vd_with_mints vd_or_throw_mints vd_throw_mints
    vd_with_pair vd_pair split: plaintext.split option.split)

text \<open>
  An account with one vault key wrapped for its owner and one wrapped for its RSA key. The text of
  the first opens under what the old password derives.
\<close>

definition old_muk :: string where
  "old_muk = CHR ''m'' # pack [''pw'', ''sk'', ''e'']"

definition owner_text :: string where
  "owner_text = pack [''x'', old_muk, ''v'', ''u'', ''ii'', VAULT_KEY_WRAP_PURPOSE]"

definition demo_entry :: "string \<Rightarrow> string \<Rightarrow> vault_key_entry" where
  "demo_entry v text = \<lparr>vkVaultId = v, vkVaultName = [], vkVaultType = PersonalVault, vkVaultIcon = None,
     vkVaultImageUrl = None, vkEncryptedVaultKey = text, vkRole = OwnerRole\<rparr>"

definition demo_input :: account_input where
  "demo_input = \<lparr>aiAccountId = ''a'', aiEmail = ''e'', aiUserId = ''u'', aiCurrentPassword = ''pw'',
     aiSecretKey = ''sk'', aiEncryptedPrivateKey = pack [''pem'', old_muk, ''aead''],
     aiVaultKeys = [demo_entry ''v'' owner_text, demo_entry ''w'' ''rsa'']\<rparr>"

definition demo_device :: vault_device where
  "demo_device = \<lparr>vdKeys = [(''o'', ''y'')], vdSent = [], vdPin = Some currentKdfProfile,
     vdSecretKey = ''sk'', vdVaultKeys = []\<rparr>"

definition vd_commit :: "rekey_payload \<Rightarrow> (js_error, vault_device, unit) act" where
  "vd_commit p = put_state (\<lambda>s. s\<lparr>vdSent := vdSent s @ [p]\<rparr>)"

section \<open>Keys\<close>

definition as_before :: "('s \<Rightarrow> key_ref \<rightharpoonup> 'k) \<Rightarrow> ('e, 's, 'a) act \<Rightarrow> bool" where
  "as_before keys a \<longleftrightarrow> (\<forall>s. keys (snd (a s)) = keys s)"

text \<open>One more key when the call returns, one the result hands over; none when it throws.\<close>

definition one_more :: "('s \<Rightarrow> key_ref \<rightharpoonup> 'k) \<Rightarrow> ('a \<Rightarrow> key_ref \<Rightarrow> bool) \<Rightarrow> ('e, 's, 'a) act \<Rightarrow> bool" where
  "one_more keys hands a \<longleftrightarrow> (\<forall>s r t. a s = (r, t) \<longrightarrow> (case r of
       Inl _ \<Rightarrow> keys t = keys s
     | Inr v \<Rightarrow> (\<exists>k x. hands v k \<and> keys s k = None \<and> keys t = (keys s)(k \<mapsto> x))))"

lemma quiet_as_before: "as_before keys a \<Longrightarrow> quiet keys (\<lambda>_. ()) a"
  by (simp add: as_before_def quiet_def)

lemma table_as_before:
  assumes "\<And>m. ends (table keys (\<lambda>_. ()) m ()) a (\<lambda>_. table keys (\<lambda>_. ()) m ()) (\<lambda>_. table keys (\<lambda>_. ()) m ())"
  shows "as_before keys a"
  unfolding as_before_def
proof
  fix s
  have s: "table keys (\<lambda>_. ()) (keys s) () s" by (simp add: table_def)
  obtain r t where run: "a s = (r, t)" by fastforce
  have "table keys (\<lambda>_. ()) (keys s) () t"
    using ends_error [OF assms s, of _ t] ends_value [OF assms s, of _ t] run by (cases r) blast+
  with run show "keys (snd (a s)) = keys s" by (simp add: table_def)
qed

lemma table_one_more:
  assumes "\<And>m. ends (table keys (\<lambda>_. ()) m ()) a (\<lambda>_. table keys (\<lambda>_. ()) m ())
     (\<lambda>v s. \<exists>k. hands v k \<and> k \<notin> dom m \<and> (\<exists>x. table keys (\<lambda>_. ()) (m(k \<mapsto> x)) () s))"
  shows "one_more keys hands a"
  unfolding one_more_def
proof (intro allI impI)
  fix s r t assume run: "a s = (r, t)"
  have s: "table keys (\<lambda>_. ()) (keys s) () s" by (simp add: table_def)
  show "case r of Inl _ \<Rightarrow> keys t = keys s
     | Inr v \<Rightarrow> (\<exists>k x. hands v k \<and> keys s k = None \<and> keys t = (keys s)(k \<mapsto> x))"
    using ends_error [OF assms s, of _ t] ends_value [OF assms s, of _ t] run
    by (cases r) (fastforce simp: table_def)+
qed

text \<open>A key table without its surroundings.\<close>

lemma keys_alone:
  assumes "key_table cp ks keys outside opens reads"
  shows "key_table cp ks keys (\<lambda>_. ()) opens reads"
proof -
  have q: "quiet keys (\<lambda>_. ()) a" if "quiet keys outside a" for a
    using that by (simp add: quiet_def)
  have m: "mints keys (\<lambda>_. ()) a" if "mints keys outside a" for a
    using that by (simp add: mints_def)
  have m2: "mints_two keys (\<lambda>_. ()) a" if "mints_two keys outside a" for a
    using that by (simp add: mints_two_def)
  show ?thesis
  proof (rule key_table.intro)
    show "cpDestroyKey cp k s = (r, t) \<Longrightarrow> keys t = (keys s)(k := None) \<and> () = ()" for k s r t
      using key_table.destroy [OF assms] by simp
    show "minted cp k \<or> keys s k \<noteq> None \<Longrightarrow> fst (cpDestroyKey cp k s) = Inr ()" for k s
      using key_table.destroys [OF assms] by blast
  qed (rule key_table.unwrap_opens [OF assms] key_table.wrap_opens [OF assms] key_table.encrypt_reads [OF assms]
      key_table.decrypt_reads [OF assms]; assumption |
    rule q m m2, rule key_table.encrypt [OF assms] key_table.decrypt [OF assms] key_table.encrypt_master [OF assms]
      key_table.srp_password [OF assms] key_table.srp_registration [OF assms] key_table.secret_key [OF assms]
      key_table.recovery_key [OF assms] key_table.uuid [OF assms] key_table.rsa_pair [OF assms]
      key_table.validate_recovery [OF assms] key_table.pinned [OF assms] key_table.wrap [OF assms]
      key_table.derive_master [OF assms] key_table.derive_keys [OF assms] key_table.decrypt_master [OF assms]
      key_table.generate_key [OF assms] key_table.unwrap [OF assms] |
    rule key_table.print_parse [OF assms])+
qed

lemma quiet_store_before:
  "quiet_store keys (\<lambda>_. ()) ks \<longleftrightarrow>
     (\<forall>acc. as_before keys (ksGetStoredSessionData ks acc)) \<and>
     (\<forall>p acc. as_before keys (ksStorePinnedKdfProfile ks p acc)) \<and>
     (\<forall>x acc. as_before keys (ksStoreSecretKey ks x acc)) \<and>
     (\<forall>x acc. as_before keys (ksStoreEncryptedPrivateKey ks x acc)) \<and>
     (\<forall>x acc. as_before keys (ksStoreVaultKeys ks x acc)) \<and>
     (\<forall>k acc email user n i. as_before keys (ksStoreSessionData ks k acc email user n i)) \<and>
     (\<forall>k acc. takes keys (\<lambda>_. ()) k (ksSetMasterUnlockKey ks k acc))"
  by (simp add: quiet_store_def quiet_def as_before_def)

lemma vd_store_before: "quiet_store vd_keys (\<lambda>_. ()) vault_store"
  by (auto simp: quiet_store_before as_before_def takes_def vault_store_def ok_def put_state_def vd_keys_def delete_conv')

section \<open>Claims\<close>

text \<open>
  C17. On a platform that behaves like a key table, and with a server and store that leave the
  table alone: changing the password or the email and preparing a Recovery Key leave the key
  table as it was, whether they return or throw; re-keying, regenerating the Secret Key,
  recovering and creating an account add exactly one key when they return, the master unlock key
  they hand over, and none when they throw.
\<close>

theorem no_ceremony_leaks_a_key:
  assumes "key_table cp ks keys outside opens reads" and "quiet_store keys (\<lambda>_. ()) ks"
    and "\<And>p. as_before keys (commit p)" and "\<And>p x. as_before keys (commit_with p x)"
    and "as_before keys load" and "\<And>p. as_before keys (reset p)" and "\<And>p. as_before keys (register p)"
  shows "as_before keys (changeAccountPassword cp ks commit a newPassword) \<and>
    as_before keys (changeAccountEmail cp ks commit_with a newEmail) \<and>
    as_before keys (prepareRecoveryKey cp ks a) \<and>
    one_more keys (\<lambda>r k. rkMasterUnlockKey r = k) (reKeyAccount cp ks input) \<and>
    as_before keys (regenerateAccountSecretKey cp ks commit_with a newSecretKey) \<and>
    one_more keys (\<lambda>r k. raMasterUnlockKey (fst r) = k) (recoverAccount cp load reset email recoveryKey newPassword) \<and>
    one_more keys (\<lambda>r k. ckMasterUnlockKey (fst r) = k) (createAccountKeys cp register email newPassword secretKey recoveryKey)"
proof -
  note alone = keys_alone [OF assms(1)]
  have commits: "quiet keys (\<lambda>_. ()) (commit p)" "quiet keys (\<lambda>_. ()) (commit_with p x)"
      "quiet keys (\<lambda>_. ()) load" "quiet keys (\<lambda>_. ()) (reset p')" "quiet keys (\<lambda>_. ()) (register p'')" for p x p' p''
    using assms(3-7) by (auto intro: quiet_as_before)
  show ?thesis
  proof (intro conjI)
    show "as_before keys (changeAccountPassword cp ks commit a newPassword)"
      by (rule table_as_before, rule key_table.password_ends [OF alone commits(1) assms(2)])
    show "as_before keys (changeAccountEmail cp ks commit_with a newEmail)"
      by (rule table_as_before, rule key_table.email_ends [OF alone commits(2) assms(2)])
    show "as_before keys (prepareRecoveryKey cp ks a)"
      by (rule table_as_before, rule key_table.prepare_ends [OF alone])
    show "one_more keys (\<lambda>r k. rkMasterUnlockKey r = k) (reKeyAccount cp ks input)"
      by (rule table_one_more, rule ends_weaken [OF key_table.early_any [OF alone key_table.rekey_ends [OF alone]]])
         (auto simp: key_table.rekeyed_def [OF alone])
    show "as_before keys (regenerateAccountSecretKey cp ks commit_with a newSecretKey)"
      by (rule table_as_before, rule key_table.secret_key_ends [OF alone commits(2) assms(2)])
    show "one_more keys (\<lambda>r k. raMasterUnlockKey (fst r) = k) (recoverAccount cp load reset email recoveryKey newPassword)"
      by (rule table_one_more, rule ends_weaken [OF key_table.recover_ends [OF alone commits(4,3)]]) auto
    show "one_more keys (\<lambda>r k. ckMasterUnlockKey (fst r) = k) (createAccountKeys cp register email newPassword secretKey recoveryKey)"
      by (rule table_one_more, rule ends_weaken [OF key_table.create_ends [OF alone commits(5)]]) auto
  qed
qed

theorem no_ceremony_leaks_a_key_witness:
  "as_before vd_keys (changeAccountPassword vault_port vault_store vd_commit demo_input ''new'') \<and>
   fst (changeAccountPassword vault_port vault_store vd_commit demo_input ''new'' demo_device) = Inr currentKdfProfile \<and>
   as_before vd_keys (regenerateAccountSecretKey vault_port vault_store (\<lambda>p _. vd_commit p) demo_input ''A1-N-2'') \<and>
   fst (regenerateAccountSecretKey vault_port vault_store (\<lambda>p _. vd_commit p) demo_input ''A1-N-2'' demo_device) =
     Inr currentKdfProfile"
proof -
  have before: "as_before vd_keys (vd_commit p)" "as_before vd_keys (ok c :: (js_error, vault_device, 'b) act)" for p c
    by (simp_all add: as_before_def vd_commit_def put_state_def vd_keys_def ok_def)
  have "fst (changeAccountPassword vault_port vault_store vd_commit demo_input ''new'' demo_device) = Inr currentKdfProfile"
    by code_simp
  moreover have "fst (regenerateAccountSecretKey vault_port vault_store (\<lambda>p _. vd_commit p) demo_input ''A1-N-2'' demo_device) =
      Inr currentKdfProfile"
    by code_simp
  ultimately show ?thesis
    using no_ceremony_leaks_a_key [where commit = vd_commit and commit_with = "\<lambda>p _. vd_commit p" and load = "ok x"
        and reset = "\<lambda>_. ok ()" and register = "\<lambda>_. ok ()", OF vault_table.key_table_axioms vd_store_before before(1,1,2,2,2)]
    by blast
qed

text \<open>
  C5. On a platform that behaves like a key table: a call of reKeyAccount that returns leaves
  one new key, the new master unlock key, and its payload carries everything over. Every owner-
  wrapped vault key is replaced by an envelope for the same vault, user and version that opens
  under the new key to the same vault key, none is skipped, keys wrapped for the RSA key pass
  unchanged, and the private key decrypts to the same text.
\<close>

theorem rekeying_carries_every_key:
  assumes "key_table cp ks keys outside opens reads" and "reKeyAccount cp ks input s = (Inr r, t)"
  shows "\<exists>u w. carries_over cp opens reads input r u w \<and> keys t = (keys s)(rkMasterUnlockKey r \<mapsto> w)"
proof -
  have "table keys outside (keys s) (outside s) s" by (simp add: table_def)
  from ends_value [OF key_table.rekey_ends [OF assms(1)] this assms(2)]
  show ?thesis by (auto simp: key_table.rekeyed_def [OF assms(1)] table_def)
qed

theorem rekeying_carries_every_key_witness:
  "\<exists>r t u w. reKeyAccount vault_port vault_store (rekey_of demo_input ''e'' ''new'' ''sk'') demo_device = (Inr r, t) \<and>
     length (rpEncryptedVaultKeys r) = 1 \<and>
     carries_over vault_port vd_opens vd_reads (rekey_of demo_input ''e'' ''new'' ''sk'') r u w"
proof -
  have "case reKeyAccount vault_port vault_store (rekey_of demo_input ''e'' ''new'' ''sk'') demo_device of
      (Inr r, _) \<Rightarrow> length (rpEncryptedVaultKeys r) = 1 | _ \<Rightarrow> False"
    by code_simp
  then obtain r t where "reKeyAccount vault_port vault_store (rekey_of demo_input ''e'' ''new'' ''sk'') demo_device = (Inr r, t)"
      "length (rpEncryptedVaultKeys r) = 1" by (auto split: prod.splits sum.splits)
  with rekeying_carries_every_key [OF vault_table.key_table_axioms this(1)] show ?thesis by blast
qed

text \<open>
  C9. On a platform that behaves like a key table: a change of the password, the email or the
  Secret Key either fails with nothing changed on the server or in the store, or makes exactly
  one commit, of a payload that carries every key over, in a state where nothing outside has
  changed. When the server refuses it, its error is thrown and the store is untouched; when the
  server accepts it the device adopts the new keys, and an error of that step is the
  LocalKeyAdoptionError.
\<close>

theorem key_change_commits_once:
  assumes "key_table cp ks keys outside opens reads"
  shows "(changeAccountPassword cp ks commit a newPassword s = (res, t) \<longrightarrow>
      commits_once outside
        (\<lambda>r. \<exists>u w. carries_over cp opens reads (rekey_of a (aiEmail a) newPassword (aiSecretKey a)) r u w)
        (\<lambda>r. commit (toReKeyPayload r)) (\<lambda>r. ksStorePinnedKdfProfile ks (rpKdfParams r) (aiAccountId a))
        rpKdfParams s res t) \<and>
    (changeAccountEmail cp ks commit_with a newEmail s = (res', t') \<longrightarrow>
      commits_once outside
        (\<lambda>r. \<exists>u w. carries_over cp opens reads
           (rekey_of a (normalizedEmail newEmail) (aiCurrentPassword a) (aiSecretKey a)) r u w)
        (\<lambda>r. commit_with (toReKeyPayload r) (normalizedEmail newEmail))
        (\<lambda>r. ksStorePinnedKdfProfile ks (rpKdfParams r) (aiAccountId a))
        (\<lambda>r. (rpKdfParams r, normalizedEmail newEmail)) s res' t') \<and>
    (regenerateAccountSecretKey cp ks commit_with a newSecretKey s = (res, t) \<longrightarrow>
      commits_once outside
        (\<lambda>r. \<exists>u w. carries_over cp opens reads (rekey_of a (aiEmail a) (aiCurrentPassword a) newSecretKey) r u w)
        (\<lambda>r. commit_with (toReKeyPayload r) (getSecretKeyHint newSecretKey)) (adopt_rekeyed ks a newSecretKey)
        rpKdfParams s res t)"
proof (intro conjI impI)
  assume "changeAccountPassword cp ks commit a newPassword s = (res, t)"
  from key_table.rekey_then [OF assms this [unfolded changeAccountPassword_def] key_table.commit_and_pin_settled [OF assms]]
  show "commits_once outside
        (\<lambda>r. \<exists>u w. carries_over cp opens reads (rekey_of a (aiEmail a) newPassword (aiSecretKey a)) r u w)
        (\<lambda>r. commit (toReKeyPayload r)) (\<lambda>r. ksStorePinnedKdfProfile ks (rpKdfParams r) (aiAccountId a))
        rpKdfParams s res t" .
next
  assume "changeAccountEmail cp ks commit_with a newEmail s = (res', t')"
  note run = this [unfolded changeAccountEmail_def Let_def]
  show "commits_once outside
        (\<lambda>r. \<exists>u w. carries_over cp opens reads
           (rekey_of a (normalizedEmail newEmail) (aiCurrentPassword a) (aiSecretKey a)) r u w)
        (\<lambda>r. commit_with (toReKeyPayload r) (normalizedEmail newEmail))
        (\<lambda>r. ksStorePinnedKdfProfile ks (rpKdfParams r) (aiAccountId a))
        (\<lambda>r. (rpKdfParams r, normalizedEmail newEmail)) s res' t'"
    by (rule key_table.rekey_then [OF assms run])
       (erule key_table.settled_value [OF assms], erule key_table.commit_and_pin_settled [OF assms])
next
  assume "regenerateAccountSecretKey cp ks commit_with a newSecretKey s = (res, t)"
  from key_table.rekey_then [OF assms this [unfolded regenerateAccountSecretKey_def] key_table.secret_key_settled [OF assms]]
  show "commits_once outside
        (\<lambda>r. \<exists>u w. carries_over cp opens reads (rekey_of a (aiEmail a) (aiCurrentPassword a) newSecretKey) r u w)
        (\<lambda>r. commit_with (toReKeyPayload r) (getSecretKeyHint newSecretKey)) (adopt_rekeyed ks a newSecretKey)
        rpKdfParams s res t" .
qed

theorem key_change_commits_once_witness:
  "\<exists>t. changeAccountPassword vault_port vault_store vd_commit demo_input ''new'' demo_device = (Inr currentKdfProfile, t) \<and>
     length (vdSent t) = 1 \<and>
     commits_once vd_outside
        (\<lambda>r. \<exists>u w. carries_over vault_port vd_opens vd_reads (rekey_of demo_input (aiEmail demo_input) ''new'' (aiSecretKey demo_input)) r u w)
        (\<lambda>r. vd_commit (toReKeyPayload r)) (\<lambda>r. ksStorePinnedKdfProfile vault_store (rpKdfParams r) (aiAccountId demo_input))
        rpKdfParams demo_device (Inr currentKdfProfile) t"
proof -
  have "case changeAccountPassword vault_port vault_store vd_commit demo_input ''new'' demo_device of
      (r, t) \<Rightarrow> r = Inr currentKdfProfile \<and> length (vdSent t) = 1"
    by code_simp
  then obtain t where "changeAccountPassword vault_port vault_store vd_commit demo_input ''new'' demo_device = (Inr currentKdfProfile, t)"
      "length (vdSent t) = 1" by (auto split: prod.splits)
  with key_change_commits_once [OF vault_table.key_table_axioms, of vd_commit demo_input "''new''" demo_device]
  show ?thesis by blast
qed

end
