(* ===== verification/KeyPolicy.thy ===== *)
theory KeyPolicy
  imports VaultCrypto
begin

text \<open>
  What the key derivation policy lets through: the profiles of validateKdfProfileOrThrow, and that
  deriveAccountKeys touches no key for any other.
\<close>

section \<open>Profiles\<close>

text \<open>The profiles an account with the pinned profile pin may derive its keys at.\<close>

definition acceptable :: "kdf_profile \<Rightarrow> kdf_profile option \<Rightarrow> bool" where
  "acceptable p pin \<longleftrightarrow>
     kdfSchemaVersion p = 1 \<and> kdfAlgorithm p = ''pbkdf2-sha256'' \<and>
     600000 \<le> kdfIterations p \<and> kdfIterations p \<le> 1200000 \<and>
     (case pin of None \<Rightarrow> True
      | Some q \<Rightarrow> kdfSchemaVersion q = 1 \<and> kdfAlgorithm q = ''pbkdf2-sha256'' \<and>
          600000 \<le> kdfIterations q \<and> kdfIterations q \<le> kdfIterations p)"

lemma baseline_iff:
  "validateBaseline (untrusted p) = Inr () \<longleftrightarrow> kdfSchemaVersion p = 1 \<and> kdfAlgorithm p = ''pbkdf2-sha256'' \<and>
     600000 \<le> kdfIterations p \<and> kdfIterations p \<le> 1200000"
  by (simp add: validateBaseline_def untrusted_def policySchemaVersion_def policyAlgorithm_def
      policyMinimumIterations_def policyMaximumIterations_def)

lemma sum_unit: "(r :: 'a + unit) = Inr () \<or> (\<exists>e. r = Inl e)"
  by (cases r) auto

lemma validate_iff:
  "validateKdfProfileOrThrow (untrusted p) (map_option untrusted pin) = Inr () \<longleftrightarrow> acceptable p pin"
proof (cases pin)
  case None
  then show ?thesis
    using sum_unit [of "validateBaseline (untrusted p)"] baseline_iff [of p]
    by (auto simp: validateKdfProfileOrThrow_def acceptable_def)
next
  case (Some q)
  have pin: "against_pin (untrusted p) (untrusted q) = Inr () \<longleftrightarrow> kdfSchemaVersion p = kdfSchemaVersion q \<and>
      kdfAlgorithm p = kdfAlgorithm q \<and> kdfIterations q \<le> kdfIterations p"
    by (auto simp: against_pin_def untrusted_def)
  have "acceptable p pin \<longleftrightarrow> validateBaseline (untrusted p) = Inr () \<and> validateBaseline (untrusted q) = Inr () \<and>
      against_pin (untrusted p) (untrusted q) = Inr ()"
    unfolding Some acceptable_def option.case baseline_iff pin by (smt (verit) order_trans)
  then show ?thesis
    by (cases "validateBaseline (untrusted p)"; cases "validateBaseline (untrusted q)")
       (simp_all add: validateKdfProfileOrThrow_def Some)
qed

section \<open>Claim\<close>

text \<open>
  C34. When the profile offered for an account is not acceptable (another schema or algorithm,
  fewer than 600000 or more than 1200000 iterations, or fewer than the pinned profile),
  deriveAccountKeys throws, in the state the read of the pin left and whatever the crypto port
  does, so no key was derived.
\<close>

theorem weaker_profile_touches_no_key:
  assumes "pinned_profile cs (dkAccountId input) s = (Inr pin, t)" and "\<not> acceptable (dkProfile input) pin"
  shows "\<exists>e. \<forall>cp. deriveAccountKeys cp cs input s = (Inl e, t)"
proof -
  have "validateKdfProfileOrThrow (untrusted (dkProfile input)) (map_option untrusted pin) \<noteq> Inr ()"
    using assms(2) by (simp add: validate_iff)
  then obtain e where "validateKdfProfileOrThrow (untrusted (dkProfile input)) (map_option untrusted pin) = Inl e"
    using sum_unit by blast
  then have "deriveAccountKeys cp cs input s = (Inl e, t)" for cp
    using assms(1) by (simp add: deriveAccountKeys_def and_then_def or_throw_def throw_def)
  then show ?thesis by blast
qed

definition strong_pin :: "unit crypto_store" where
  "strong_pin =
     \<lparr>csGetMasterUnlockKey = (\<lambda>_. ok None), csGetEncryptedPrivateKey = (\<lambda>_. ok None),
      csGetSessionUserId = (\<lambda>_. ok None),
      csGetPinnedKdfProfile = (\<lambda>_. ok (Some (currentKdfProfile\<lparr>kdfIterations := 900000\<rparr>)))\<rparr>"

theorem weaker_profile_touches_no_key_witness:
  "\<exists>e. \<forall>cp. deriveAccountKeys cp strong_pin
     \<lparr>dkPassword = ''pw'', dkSecretKey = ''sk'', dkEmail = ''e'', dkProfile = currentKdfProfile,
      dkAccountId = Some ''a'', dkRecoveryKey = None\<rparr> () = (Inl e, ())"
  by (rule weaker_profile_touches_no_key [where pin = "Some (currentKdfProfile\<lparr>kdfIterations := 900000\<rparr>)"])
     (simp_all add: pinned_profile_def absent_def strong_pin_def ok_def acceptable_def currentKdfProfile_def
       policySchemaVersion_def policyAlgorithm_def policyDefaultIterations_def)

end
