(* ===== verification/QueueTermination.thy ===== *)
theory QueueTermination
  imports QueueCalls QueueWrites Contracts
begin

text \<open>
  Draining ends. A command may be attempted once more for every conflict answer it can still
  absorb, and once for good; the sum of these budgets over an account's queue falls with every
  round of the loop, whatever the server answers and whatever the reconciler throws. What is
  assumed is that storage accepts its writes, that no other process shares it, and that no
  conflict copy is enqueued, since a copy is a new command with a budget of its own.
\<close>

section \<open>Budgets\<close>

definition weight :: "string list \<Rightarrow> command \<Rightarrow> nat" where
  "weight att c =
     (if isActiveMutation c \<and> opId c \<notin> set att then Suc (MAX_RETRY_COUNT - retryCount c) else 0)"

definition budget :: "string list \<Rightarrow> command list \<Rightarrow> nat" where
  "budget att q = sum_list (map (weight att) q)"

lemma budget_mset: "budget att q = sum_mset (image_mset (weight att) (mset q))"
  by (simp add: budget_def sum_mset_sum_list [symmetric])

lemma budget_le: "budget att q \<le> 6 * length q"
  by (induction q) (auto simp: budget_def weight_def MAX_RETRY_COUNT_def)

text \<open>A change of a command that leaves its operation, its state and its retry count.\<close>

definition tame :: "(command \<Rightarrow> command) \<Rightarrow> bool" where
  "tame f \<longleftrightarrow> (\<forall>c. opId (f c) = opId c \<and> status (f c) = status c \<and> retryCount (f c) = retryCount c)"

lemma tame_weight: "tame f \<Longrightarrow> weight att (f c) = weight att c"
  by (simp add: tame_def weight_def isActiveMutation_def)

lemma tame_rename: "tame (rename_entity a b)"
  by (simp add: tame_def rename_entity_def opId_def)

lemma budget_image:
  "tame f \<Longrightarrow> mset r = image_mset f (mset q) \<Longrightarrow> budget att r = budget att q"
  by (simp add: budget_mset image_mset.compositionality comp_def tame_weight)

lemma lookup_image:
  assumes f: "tame f" and r: "mset r = image_mset f (mset q)" and q: "distinct_ops q"
  shows "lookup_op r x = map_option f (lookup_op q x)"
proof -
  have ops: "mset (map opId r) = mset (map opId q)"
    using r f by (simp add: image_mset.compositionality comp_def tame_def)
  then have d: "distinct_ops r"
    using q unfolding distinct_ops_def by (metis mset_eq_imp_distinct_iff)
  show ?thesis
  proof (cases "lookup_op q x")
    case None
    then have "x \<notin> opId ` set q" by (simp add: lookup_op_None_iff)
    then have "x \<notin> opId ` set r" using mset_eq_setD [OF ops] by simp
    with None show ?thesis by (simp add: lookup_op_None_iff [symmetric] del: not_None_eq)
  next
    case (Some c)
    then have "c \<in> set q" "opId c = x" using lookup_op_Some_iff [OF q] by auto
    moreover have "set r = f ` set q" using mset_eq_setD [of r "map f q"] r by simp
    ultimately have "f c \<in> set r" "opId (f c) = x" using f by (auto simp: tame_def)
    with Some show ?thesis using lookup_op_Some_iff [OF d, of x "f c"] by simp
  qed
qed

lemma budget_replace:
  assumes "distinct_ops q" and "lookup_op q (opId m) = Some c" and "weight att m < weight att c"
  shows "budget att (replace_in m q) < budget att q"
  using assms
proof (induction q)
  case (Cons d q)
  show ?case
  proof (cases "opId d = opId m")
    case True
    then have "d = c" using Cons.prems(2) by (simp add: lookup_op_def)
    moreover have "replace_in m q = q"
      using Cons.prems(1) True by (induction q) (auto simp: replace_in_def distinct_ops_def)
    ultimately show ?thesis using True Cons.prems(3) by (simp add: budget_def replace_in_def)
  next
    case False
    then show ?thesis using Cons by (simp add: budget_def replace_in_def lookup_op_def distinct_ops_def)
  qed
qed (simp add: lookup_op_def)

lemma budget_attempted: "budget (x # att) q \<le> budget att q"
  by (induction q) (auto simp: budget_def weight_def)

lemma budget_attempt_less:
  assumes "distinct_ops q" and "lookup_op q x = Some c" and "weight att c > 0"
  shows "budget (x # att) q < budget att q"
  using assms
proof (induction q)
  case (Cons d q)
  show ?case
  proof (cases "opId d = x")
    case True
    then have "d = c" using Cons.prems(2) by (simp add: lookup_op_def)
    then show ?thesis using True Cons.prems(3) budget_attempted [of x att q] by (simp add: budget_def weight_def)
  next
    case False
    then show ?thesis using Cons by (auto simp: budget_def weight_def lookup_op_def distinct_ops_def)
  qed
qed (simp add: lookup_op_def)

text \<open>Acknowledging a command takes its budget away and gives none to another.\<close>

lemma weight_rebase: "weight att (rebaseChainedCommand sfx c v) \<le> weight att c" if "isActiveMutation c"
  using that by (auto simp: weight_def rebaseChainedCommand_def markEncryptedConflict_def isActiveMutation_def opId_def Let_def)

lemma budget_update: "i < length q \<Longrightarrow> weight att c \<le> weight att (q ! i) \<Longrightarrow> budget att (q[i := c]) \<le> budget att q"
  by (induction q arbitrary: i) (auto simp: budget_def nth_Cons split: nat.splits)

lemma budget_rebase_first: "budget att (fst (rebase_first sfx e v q)) \<le> budget att q"
proof (cases "find_index (\<lambda>_ c. entityId c = e \<and> isActiveMutation c) q")
  case None
  then show ?thesis by (simp add: rebase_first_def)
next
  case (Some i)
  then have "i < length q" "isActiveMutation (q ! i)" by (auto dest: find_index_Some)
  with budget_update [OF this(1) weight_rebase [OF this(2)]] Some show ?thesis
    by (simp add: rebase_first_def Let_def)
qed

lemma budget_filter_less:
  assumes "distinct_ops q" and "lookup_op q x = Some c" and "weight att c > 0"
  shows "budget att (filter (\<lambda>d. opId d \<noteq> x) q) < budget att q"
  using assms
proof (induction q)
  case (Cons d q)
  have le: "budget att (filter P q) \<le> budget att q" for P by (induction q) (auto simp: budget_def)
  show ?case
    using Cons le [of "\<lambda>d. opId d \<noteq> x"] by (auto simp: budget_def lookup_op_def distinct_ops_def split: if_splits)
qed (simp add: lookup_op_def)

lemma budget_acknowledge:
  assumes "distinct_ops q" and "lookup_op q (opId m) = Some c" and "weight att c > 0"
  shows "budget att (fst (acknowledge_in sfx m v q)) < budget att q"
  using budget_filter_less [OF assms] budget_rebase_first [of att sfx "entityId m" _ "filter (\<lambda>c. opId c \<noteq> opId m) q"]
  by (cases v) (auto simp: acknowledge_in_def Let_def intro: le_less_trans)

section \<open>States of a drain\<close>

definition no_copies :: "'w env \<Rightarrow> bool" where
  "no_copies env \<longleftrightarrow> (\<forall>rc f m w c. reconciler env = Some rc \<longrightarrow> rcPreserveConflict rc = Some f \<longrightarrow>
     fst (f m w) \<noteq> Inr (Some c))"

definition all_settled :: "'w engine \<Rightarrow> bool" where
  "all_settled s \<longleftrightarrow> engine_ok s \<and> (\<forall>b. settled s b) \<and> \<not> drainRequested s"

text \<open>The queues of s hold the commands of s0, possibly renamed.\<close>

definition similar :: "'w engine \<Rightarrow> 'w engine \<Rightarrow> bool" where
  "similar s0 s \<longleftrightarrow> (\<forall>b. \<exists>f. tame f \<and> mset (queue_of s b) = image_mset f (mset (queue_of s0 b)))"

text \<open>On the way: every account but those of B is settled, and no command was added or lost.\<close>

definition on_the_way :: "'w engine \<Rightarrow> string set \<Rightarrow> 'w engine \<Rightarrow> bool" where
  "on_the_way s0 B s \<longleftrightarrow> engine_ok s \<and> (\<forall>b. remembered s b) \<and> (\<forall>b. b \<notin> B \<longrightarrow> settled s b) \<and>
     \<not> drainRequested s \<and> similar s0 s"

lemma similar_refl [simp]: "similar s s"
  by (auto simp: similar_def tame_def intro!: exI [of _ id])

lemma on_the_way_start: "all_settled s \<Longrightarrow> on_the_way s {} s"
  by (simp add: all_settled_def on_the_way_def settled_remembered)

lemma on_the_way_settled: "on_the_way s0 {} s \<Longrightarrow> all_settled s"
  by (simp add: all_settled_def on_the_way_def)

lemma similar_queue:
  assumes "similar s0 s" and "\<And>b. mset (queue_of t b) = mset (queue_of s b)"
  shows "similar s0 t"
  using assms by (simp add: similar_def)

lemma engine_ok_after_write: "engine_ok s \<Longrightarrow> sorted (map timestamp r) \<Longrightarrow> distinct_ops r \<Longrightarrow> engine_ok (after_write acc r s)"
  unfolding after_write_def by (intro engine_ok_remember [THEN iffD2] engine_ok_adopt engine_ok_put_account) auto

lemma on_the_way_frame [simp]:
  "on_the_way s0 B (s\<lparr>latestMappings := a\<rparr>) = on_the_way s0 B s"
  "on_the_way s0 B (s\<lparr>notified := n\<rparr>) = on_the_way s0 B s"
  "on_the_way s0 B (s\<lparr>world := w\<rparr>) = on_the_way s0 B s"
  by (simp_all add: on_the_way_def similar_def)

lemma in_world_ends: "ends (on_the_way s0 B) (in_world f) (\<lambda>_. on_the_way s0 B) (\<lambda>_. on_the_way s0 B)"
  by (auto simp: ends_def in_world_def split: prod.splits sum.splits)

lemma suffix_ends: "ends (on_the_way s0 B) (suffix env) (\<lambda>_ _. False) (\<lambda>_. on_the_way s0 B)"
  by (auto simp: ends_def suffix_def in_world_def split: prod.splits sum.splits)

lemma clock_ends: "ends (on_the_way s0 B) (clock env) (\<lambda>_ _. False) (\<lambda>_. on_the_way s0 B)"
  by (auto simp: ends_def clock_def get_state_def split: sum.splits)

lemma emit_ends: "ends (on_the_way s0 B) emit (\<lambda>_ _. False) (\<lambda>_. on_the_way s0 B)"
  by (auto simp: ends_def emit_def put_state_def split: sum.splits)

lemma persist_ends:
  assumes "reliable env"
  shows "ends (on_the_way s0 B) (schedulePersistence env acc) (\<lambda>_ _. False) (\<lambda>_. on_the_way s0 (B - {acc}))"
proof (rule ends_from)
  fix s assume s: "on_the_way s0 B s"
  then have e: "engine_ok s" and r: "remembered s acc" by (simp_all add: on_the_way_def)
  obtain r w' where run: "schedulePersistence env acc s = (Inr (), after_write acc r (s\<lparr>world := w'\<rparr>))"
    and q: "mset r = mset (queue_of s acc)" and r: "sorted (map timestamp r)" "distinct_ops r"
    by (rule schedulePersistence_reliable [OF e r assms])
  have "similar s0 (after_write acc r (s\<lparr>world := w'\<rparr>))"
    by (rule similar_queue [of _ s]) (use s q in \<open>auto simp: on_the_way_def\<close>)
  then have "on_the_way s0 (B - {acc}) (after_write acc r (s\<lparr>world := w'\<rparr>))"
    using s r by (auto simp: on_the_way_def settled_after_write remembered_after_write engine_ok_after_write)
  with run show "ends ((=) s) (schedulePersistence env acc) (\<lambda>_ _. False) (\<lambda>_. on_the_way s0 (B - {acc}))"
    by (simp add: ends_def)
qed

text \<open>With every account settled, the clean form of the same facts.\<close>

lemma persist_settled:
  "reliable env \<Longrightarrow> ends (on_the_way s0 {}) (schedulePersistence env acc) (\<lambda>_ _. False) (\<lambda>_. on_the_way s0 {})"
  using persist_ends [of env s0 "{}" acc] by simp

lemma all_each_ends:
  assumes "ends P (f x) (\<lambda>_ _. False) (\<lambda>_. R)" and "ends R (all_each xs f) (\<lambda>_ _. False) (\<lambda>_. Q)"
  shows "ends P (all_each (x # xs) f) (\<lambda>_ _. False) (\<lambda>_. Q)"
  using assms by (fastforce simp: ends_def split: prod.splits sum.splits)

lemma persist_each:
  assumes "reliable env"
  shows "ends (on_the_way s0 (B \<union> set accs)) (all_each accs (schedulePersistence env)) (\<lambda>_ _. False) (\<lambda>_. on_the_way s0 B)"
proof (induction accs)
  case (Cons a accs)
  have drop: "on_the_way s0 (B \<union> set (a # accs) - {a}) s \<Longrightarrow> on_the_way s0 (B \<union> set accs) s" for s
    by (auto simp: on_the_way_def)
  show ?case
    by (rule all_each_ends, rule persist_ends [OF assms], rule ends_weaken [OF Cons]) (use drop in auto)
qed (auto intro: ends_ok)

lemma similar_image:
  assumes "similar s0 s" and "\<And>b. \<exists>g. tame g \<and> mset (queue_of t b) = image_mset g (mset (queue_of s b))"
  shows "similar s0 t"
  unfolding similar_def
proof
  fix b
  obtain f where f: "tame f" "mset (queue_of s b) = image_mset f (mset (queue_of s0 b))"
    using assms(1) by (auto simp: similar_def)
  obtain g where g: "tame g" "mset (queue_of t b) = image_mset g (mset (queue_of s b))" using assms(2) by blast
  have "tame (g \<circ> f)" using f(1) g(1) by (simp add: tame_def)
  moreover have "mset (queue_of t b) = image_mset (g \<circ> f) (mset (queue_of s0 b))"
    by (simp add: g(2) f(2) image_mset.compositionality)
  ultimately show "\<exists>f. tame f \<and> mset (queue_of t b) = image_mset f (mset (queue_of s0 b))" by blast
qed

section \<open>Renaming and sending\<close>

definition renamed :: "string \<Rightarrow> string \<Rightarrow> 'w engine \<Rightarrow> 'w engine" where
  "renamed a b s = s\<lparr>queuesByAccountId :=
     map (\<lambda>(acc, q). (acc, map (rename_entity a b) q)) (queuesByAccountId s)\<rparr>"

lemma queue_of_renamed: "queue_of (renamed a b s) acc = map (rename_entity a b) (queue_of s acc)"
proof -
  have "js_get (map (\<lambda>(acc, q). (acc, map (rename_entity a b) q)) m) acc =
      map_option (map (rename_entity a b)) (js_get m acc)" for m
    by (induction m) auto
  then show ?thesis by (cases "js_get (queuesByAccountId s) acc") (simp_all add: queue_of_def renamed_def)
qed

lemma renamed_on_the_way:
  assumes "on_the_way s0 {} s"
    and "T = fst ` set (filter (\<lambda>(_, q). list_ex (\<lambda>c. entityId c = a) q) (queuesByAccountId s))"
  shows "on_the_way s0 T (renamed a b s)"
proof -
  have same: "queue_of (renamed a b s) acc = queue_of s acc" if "acc \<notin> T" for acc
  proof (cases "js_get (queuesByAccountId s) acc")
    case None
    then show ?thesis by (simp add: queue_of_renamed) (simp add: queue_of_def)
  next
    case (Some q)
    then have "(acc, q) \<in> set (queuesByAccountId s)" by (rule map_of_SomeD)
    then have "\<forall>c \<in> set q. entityId c \<noteq> a" using that assms(2) by (force simp: list_ex_iff)
    then have "map (rename_entity a b) q = q" by (intro map_idI) (simp add: rename_entity_def)
    then show ?thesis using Some by (simp add: queue_of_renamed) (simp add: queue_of_def)
  qed
  have "settled (renamed a b s) acc" if "acc \<notin> T" for acc
    using assms(1) same [OF that] by (simp add: on_the_way_def settled_def remembered_def renamed_def stored_queue_def)
  moreover have "similar s0 (renamed a b s)"
    by (rule similar_image [of _ s]) (use assms(1) tame_rename in \<open>auto simp: on_the_way_def queue_of_renamed\<close>)
  moreover have "engine_ok (renamed a b s)"
    using assms(1) engine_ok_rename by (auto simp: on_the_way_def renamed_def)
  moreover have "remembered (renamed a b s) acc = remembered s acc" for acc
    by (simp add: remembered_def renamed_def stored_queue_def)
  ultimately show ?thesis using assms(1) by (simp add: on_the_way_def renamed_def)
qed

lemma rewrite_ends:
  assumes "reliable env"
  shows "ends (on_the_way s0 {}) (rewritePendingIds env a b) (\<lambda>_ _. False) (\<lambda>_. on_the_way s0 {})"
proof (rule ends_from)
  fix s assume s: "on_the_way s0 {} s"
  define touched where "touched = map fst (filter (\<lambda>(_, q). list_ex (\<lambda>c. entityId c = a) q) (queuesByAccountId s))"
  have way: "on_the_way s0 ({} \<union> set touched) (renamed a b s)"
    using renamed_on_the_way [OF s, of "set touched"] by (simp add: touched_def)
  have put: "ends ((=) s) (put_state (\<lambda>t. t\<lparr>queuesByAccountId :=
        map (\<lambda>(acc, q). (acc, map (rename_entity a b) q)) (queuesByAccountId t)\<rparr>)) (\<lambda>_ _. False)
      (\<lambda>_. on_the_way s0 ({} \<union> set touched))"
    using way by (simp add: ends_def put_state_def renamed_def)
  have "ends ((=) s) (and_then (put_state (\<lambda>t. t\<lparr>queuesByAccountId :=
        map (\<lambda>(acc, q). (acc, map (rename_entity a b) q)) (queuesByAccountId t)\<rparr>)) (\<lambda>_.
      and_then (all_each touched (schedulePersistence env)) (\<lambda>_. emit))) (\<lambda>_ _. False) (\<lambda>_. on_the_way s0 {})"
    by (rule ends_and_then [OF put], rule ends_and_then [OF persist_each [OF assms]], rule emit_ends)
  then show "ends ((=) s) (rewritePendingIds env a b) (\<lambda>_ _. False) (\<lambda>_. on_the_way s0 {})"
    by (simp add: ends_def rewritePendingIds_def with_state_def touched_def Let_def)
qed

lemma never_any: "ends P a (\<lambda>_ _. False) Q \<Longrightarrow> ends P a E Q"
  by (erule ends_weaken) auto

lemma send_ends:
  assumes "reliable env"
  shows "ends (on_the_way s0 {}) (send_command env acc m) (\<lambda>_. on_the_way s0 {})
    (\<lambda>p s. opId (fst p) = opId m \<and> on_the_way s0 {} s)"
proof -
  let ?P = "on_the_way s0 {}"
  have mappings: "ends ?P (put_state (\<lambda>s. s\<lparr>latestMappings := g s\<rparr>)) (\<lambda>_. ?P) (\<lambda>_. ?P)" for g
    by (auto simp: ends_def put_state_def split: sum.splits)
  have answered: "ends ?P (if commandType m = Create \<and> truthy (createdId m r) \<and> createdId m r \<noteq> Some (entityId m)
         then let newId = the (createdId m r) in
           and_then (put_state (\<lambda>s. s\<lparr>latestMappings := latestMappings s @
             [\<lparr>tempId = entityId m, realId = newId, mappingAccountId = accountId m,
               mappingAccountEmail = accountEmail m\<rparr>]\<rparr>)) (\<lambda>_.
           and_then (rewritePendingIds env (entityId m) newId) (\<lambda>_.
           ok (respEtag r, m\<lparr>entityId := newId\<rparr>)))
         else ok (respEtag r, m)) (\<lambda>_. ?P) (\<lambda>p s. opId (snd p) = opId m \<and> ?P s)" for r
    unfolding Let_def
    by (rule ends_if, rule ends_and_then [OF mappings], rule ends_and_then [OF never_any [OF rewrite_ends [OF assms]]])
       (rule ends_ok, simp add: opId_def)+
  have process: "ends ?P (processMutation env acc m) (\<lambda>_. ?P) (\<lambda>p s. opId (snd p) = opId m \<and> ?P s)"
  proof (cases "mutationRequest m")
    case (Inl e)
    then show ?thesis by (simp add: processMutation_def ends_throw)
  next
    case (Inr req)
    show ?thesis
      unfolding processMutation_def Inr sum.case by (rule ends_and_then [OF in_world_ends answered])
  qed
  have semantic: "ends ?P (executeSemantic env m) (\<lambda>_. ?P) (\<lambda>_. ?P)"
    unfolding executeSemantic_def by (auto intro!: ends_if ends_ok ends_option in_world_ends)
  have sent: "ends ?P (and_then (processMutation env acc m) (\<lambda>(etag, m').
              ok (m', \<lparr>ackEntityId = entityId m', ackEtag = etag, ackVersion = strongNumericEtag etag\<rparr>)))
      (\<lambda>_. ?P) (\<lambda>p s. opId (fst p) = opId m \<and> ?P s)"
  proof (rule ends_and_then [OF process], rule ends_fact, rule ends_prod)
    fix p :: "string option \<times> command" and etag m'
    assume "opId (snd p) = opId m" "p = (etag, m')"
    then show "ends ?P (ok (m', \<lparr>ackEntityId = entityId m', ackEtag = etag, ackVersion = strongNumericEtag etag\<rparr>))
        (\<lambda>_. ?P) (\<lambda>p s. opId (fst p) = opId m \<and> ?P s)" by (intro ends_ok) simp
  qed
  show ?thesis
    unfolding send_command_def
    by (rule ends_and_then [OF semantic], rule ends_option, rule ends_if, rule ends_throw, assumption, rule sent, rule ends_ok)
       simp
qed

section \<open>Conflict copies\<close>

text \<open>The command found under an operation id is replaced by a tame variant of itself.\<close>

lemma replace_similar:
  assumes s: "on_the_way s0 {} s" and c: "lookup_op (queue_of s acc) (opId c) = Some c"
    and m: "opId m = opId c" "status m = status c" "retryCount m = retryCount c"
  shows "on_the_way s0 {acc} (set_queue acc (replace_in m (queue_of s acc)) s)"
proof -
  define f where "f d = (if d = c then m else d)" for d
  have f: "tame f" using m by (simp add: tame_def f_def)
  have q: "distinct_ops (queue_of s acc)" using s by (simp add: on_the_way_def engine_ok_queue)
  have replaced: "replace_in m (queue_of s acc) = map f (queue_of s acc)"
    unfolding replace_in_def
  proof (rule map_cong)
    fix d assume d: "d \<in> set (queue_of s acc)"
    have "d = c" if "opId d = opId m"
    proof -
      have "opId d = opId c" using that m(1) by (rule trans)
      with d have "lookup_op (queue_of s acc) (opId c) = Some d" by (simp only: lookup_op_Some_iff [OF q] simp_thms)
      with c show ?thesis by (simp only: option.inject)
    qed
    then show "(if opId d = opId m then m else d) = f d" using m(1) by (auto simp: f_def)
  qed simp
  have "similar s0 (set_queue acc (replace_in m (queue_of s acc)) s)"
  proof (rule similar_image)
    show "similar s0 s" using s by (simp add: on_the_way_def)
    fix b
    let ?g = "if b = acc then f else id"
    have "tame ?g" using f by (simp add: tame_def)
    moreover have "mset (queue_of (set_queue acc (replace_in m (queue_of s acc)) s) b) = image_mset ?g (mset (queue_of s b))"
      by (simp add: replaced)
    ultimately show "\<exists>g. tame g \<and>
        mset (queue_of (set_queue acc (replace_in m (queue_of s acc)) s) b) = image_mset g (mset (queue_of s b))" by blast
  qed
  moreover have "engine_ok (set_queue acc (replace_in m (queue_of s acc)) s)"
    using s q by (simp add: on_the_way_def engine_ok_set_queue)
  ultimately show ?thesis using s by (auto simp: on_the_way_def settled_def)
qed

lemma update_similar:
  assumes "on_the_way s0 {} s" and "lookup_op (queue_of s acc) (opId c) = Some c"
    and "opId m = opId c" "status m = status c" "retryCount m = retryCount c"
  shows "ends ((=) s) (update_command acc m) (\<lambda>_ _. False) (\<lambda>_. on_the_way s0 {acc})"
  using replace_similar [OF assms] update_command_lookup [of s acc m] assms(2,3) by (simp add: ends_def)

lemma preserve_ends:
  assumes env: "reliable env" "no_copies env"
  shows "ends (on_the_way s0 {}) (preserveConflict env m) (\<lambda>_ _. False) (\<lambda>_. on_the_way s0 {})"
  unfolding preserveConflict_def
proof (rule ends_catch)
  let ?P = "on_the_way s0 {}"
  have copy: "ends ?P (case reconciler env of None \<Rightarrow> ok None
        | Some rc \<Rightarrow> (case rcPreserveConflict rc of None \<Rightarrow> ok None | Some f \<Rightarrow> in_world (f m)))
      (\<lambda>_. ?P) (\<lambda>copy s. copy = None \<and> ?P s)"
  proof (intro ends_option ends_ok, simp_all)
    fix rc f assume "reconciler env = Some rc" "rcPreserveConflict rc = Some f"
    then have none: "fst (f m w) \<noteq> Inr (Some c)" for w c using env(2) by (auto simp: no_copies_def)
    show "ends ?P (in_world (f m)) (\<lambda>_. ?P) (\<lambda>copy s. copy = None \<and> ?P s)"
    proof (rule endsI)
      fix s copy t assume s: "?P s" and run: "in_world (f m) s = (Inr copy, t)"
      then have "copy = None" using none [of "world s"] by (cases copy) (auto simp: in_world_def split: prod.splits)
      then show "copy = None \<and> ?P t" using ends_value [OF in_world_ends s run] by simp
    qed (rule ends_error [OF in_world_ends])
  qed
  show "ends ?P (and_then (case reconciler env of None \<Rightarrow> ok None
        | Some rc \<Rightarrow> (case rcPreserveConflict rc of None \<Rightarrow> ok None | Some f \<Rightarrow> in_world (f m)))
       (\<lambda>copy. case copy of None \<Rightarrow> ok () | Some c \<Rightarrow> enqueue env c None)) (\<lambda>_. ?P) (\<lambda>_. ?P)"
    by (rule ends_and_then [OF copy], rule ends_fact) (simp add: ends_ok)
  fix error
  show "ends ?P (with_state (\<lambda>s. and_then (case find_command s (accountId m) (opId m) of None \<Rightarrow> ok ()
          | Some c \<Rightarrow> update_command (accountId m) (c\<lparr>lastError := Some (''Conflict copy failed: '' @ error_message error)\<rparr>))
        (\<lambda>_. and_then (schedulePersistence env (accountId m)) (\<lambda>_. emit)))) (\<lambda>_ _. False) (\<lambda>_. ?P)"
  proof (rule ends_from)
    fix s assume s: "?P s"
    have update: "ends ((=) s) (case find_command s (accountId m) (opId m) of None \<Rightarrow> ok ()
          | Some c \<Rightarrow> update_command (accountId m) (c\<lparr>lastError := Some (''Conflict copy failed: '' @ error_message error)\<rparr>))
        (\<lambda>_ _. False) (\<lambda>_. on_the_way s0 {accountId m})"
    proof (rule ends_option)
      show "ends ((=) s) (ok ()) (\<lambda>_ _. False) (\<lambda>_. on_the_way s0 {accountId m})"
        using s by (auto intro!: ends_ok simp: on_the_way_def)
    next
      fix c assume "find_command s (accountId m) (opId m) = Some c"
      then have look: "lookup_op (queue_of s (accountId m)) (opId m) = Some c" by (simp add: find_command_lookup)
      have "distinct_ops (queue_of s (accountId m))" using s by (simp add: on_the_way_def engine_ok_queue)
      from lookup_op_Some_iff [OF this, of "opId m" c] look have "opId c = opId m" by simp
      with look have "lookup_op (queue_of s (accountId m)) (opId c) = Some c" by simp
      from update_similar [OF s this]
      show "ends ((=) s) (update_command (accountId m) (c\<lparr>lastError := Some (''Conflict copy failed: '' @ error_message error)\<rparr>))
          (\<lambda>_ _. False) (\<lambda>_. on_the_way s0 {accountId m})" by (simp add: opId_def)
    qed
    have "ends ((=) s) (and_then (case find_command s (accountId m) (opId m) of None \<Rightarrow> ok ()
          | Some c \<Rightarrow> update_command (accountId m) (c\<lparr>lastError := Some (''Conflict copy failed: '' @ error_message error)\<rparr>))
        (\<lambda>_. and_then (schedulePersistence env (accountId m)) (\<lambda>_. emit))) (\<lambda>_ _. False) (\<lambda>_. ?P)"
      by (rule ends_and_then [OF update], rule ends_and_then [OF persist_ends [OF env(1)]]) (simp add: emit_ends)
    then show "ends ((=) s) (with_state (\<lambda>s. and_then (case find_command s (accountId m) (opId m) of None \<Rightarrow> ok ()
          | Some c \<Rightarrow> update_command (accountId m) (c\<lparr>lastError := Some (''Conflict copy failed: '' @ error_message error)\<rparr>))
        (\<lambda>_. and_then (schedulePersistence env (accountId m)) (\<lambda>_. emit)))) (\<lambda>_ _. False) (\<lambda>_. ?P)"
      by (simp add: ends_def with_state_def)
  qed
qed

section \<open>One round of the loop\<close>

text \<open>What a round leaves: settled queues, a smaller budget for the account, no longer queues.\<close>

definition progressed :: "string \<Rightarrow> string list \<Rightarrow> string list \<Rightarrow> 'w engine \<Rightarrow> 'w engine \<Rightarrow> bool" where
  "progressed acc att att' s0 t \<longleftrightarrow> all_settled t \<and>
     budget att' (queue_of t acc) < budget att (queue_of s0 acc) \<and>
     (\<forall>b. length (queue_of t b) \<le> length (queue_of s0 b))"

lemma similar_measures:
  assumes "similar s0 s"
  shows "budget att (queue_of s b) = budget att (queue_of s0 b)" "length (queue_of s b) = length (queue_of s0 b)"
proof -
  obtain f where f: "tame f" "mset (queue_of s b) = image_mset f (mset (queue_of s0 b))"
    using assms by (auto simp: similar_def)
  show "budget att (queue_of s b) = budget att (queue_of s0 b)" by (rule budget_image [OF f])
  show "length (queue_of s b) = length (queue_of s0 b)" using f(2) by (metis size_image_mset size_mset)
qed

lemma similar_lookup:
  assumes "on_the_way s0 B s" and "engine_ok s0" and "lookup_op (queue_of s0 acc) x = Some c"
  obtains c' where "lookup_op (queue_of s acc) x = Some c'" and "opId c' = x"
    and "status c' = status c" and "retryCount c' = retryCount c"
proof -
  obtain f where f: "tame f" "mset (queue_of s acc) = image_mset f (mset (queue_of s0 acc))"
    using assms(1) unfolding similar_def on_the_way_def by blast
  have d: "distinct_ops (queue_of s0 acc)" using assms(2) by (rule engine_ok_queue)
  have "opId c = x" using lookup_op_Some_iff [OF d] assms(3) by blast
  moreover have "lookup_op (queue_of s acc) x = Some (f c)"
    using lookup_image [OF f d, of x] assms(3) by simp
  ultimately show thesis using that [of "f c"] f(1) by (simp add: tame_def)
qed

lemma progressed_similar:
  assumes "progressed acc att att' s0 t" and "on_the_way t {} s"
  shows "progressed acc att att' s0 s"
  using assms similar_measures [of t s] on_the_way_settled [OF assms(2)]
  by (auto simp: progressed_def on_the_way_def)

lemma acknowledged_length: "length (fst (acknowledge_in sfx m v q)) \<le> length q"
  by (auto simp: acknowledge_in_def rebase_first_def Let_def split: option.split intro: le_trans [OF _ length_filter_le])

lemma settled_set_other: "b \<noteq> acc \<Longrightarrow> settled (set_queue acc q s) b = settled s b"
  by (simp add: settled_def remembered_def set_queue_def stored_queue_def queue_of_def)

lemma acknowledge_state:
  assumes env: "reliable env" and s: "on_the_way s0 {} s" "engine_ok s0"
    and c: "lookup_op (queue_of s0 acc) (opId m) = Some c" "weight att c > 0"
    and t: "t = s \<or> t = set_queue acc q s" and q: "distinct_ops q"
  shows "ends ((=) t) (persistAcknowledgement env acc m v) (\<lambda>_ _. False) (\<lambda>_. progressed acc att att s0)"
proof -
  obtain w where w: "storageOutcome env (world t) = (Inr (), w)" using reliable_storage [OF env] by blast
  obtain sfx w' where sfx: "freshSuffix env w = (sfx, w')" by fastforce
  obtain rest found where ack: "acknowledge_in sfx m v (stored_queue t acc) = (rest, found)" by fastforce
  then have rest_def: "rest = fst (acknowledge_in sfx m v (stored_queue t acc))" by simp
  let ?u = "t\<lparr>world := w'\<rparr>"
  have e: "engine_ok t" using t s(1) q by (auto simp: on_the_way_def engine_ok_set_queue)
  have settled: "settled s acc" using s(1) by (simp add: on_the_way_def)
  have stored: "stored_queue t acc = queue_of s acc"
    using t settled by (auto simp: settled_def set_queue_def stored_queue_def)
  have ok: "distinct_ops rest" "sorted (map timestamp rest)"
    using acknowledge_in_ok [OF engine_ok_stored(1) [OF e] engine_ok_stored(2) [OF e], of sfx m v acc] by (simp_all add: rest_def)
  have run: "persistAcknowledgement env acc m v t = (Inr (case found of
      None \<Rightarrow> None | Some oid \<Rightarrow> List.find (\<lambda>c. opId c = oid) rest), after_write acc rest ?u)"
    by (simp add: persistAcknowledgement_def act_defs in_world_def suffix_def after_write_def w sfx ack)
  obtain c' where c': "lookup_op (queue_of s acc) (opId m) = Some c'" "opId c' = opId m" "status c' = status c"
      "retryCount c' = retryCount c"
    by (rule similar_lookup [OF s c(1)])
  have "opId c = opId m" using lookup_op_Some_iff [OF engine_ok_queue [OF s(2)]] c(1) by blast
  then have "weight att c' = weight att c" using c'(2-) by (simp add: weight_def isActiveMutation_def)
  then have "weight att c' > 0" using c(2) by simp
  from budget_acknowledge [OF _ c'(1) this, of sfx v]
  have "budget att rest < budget att (queue_of s0 acc)"
    using s(1) similar_measures(1) [of s0 s att acc] by (simp add: rest_def stored on_the_way_def engine_ok_queue)
  moreover have "length (queue_of (after_write acc rest ?u) b) \<le> length (queue_of s0 b)" for b
    using similar_measures(2) [of s0 s b] acknowledged_length [of sfx m v "queue_of s acc"] t s(1)
    by (auto simp: rest_def stored on_the_way_def)
  moreover have "all_settled (after_write acc rest ?u)"
    using t s(1) e ok settled_set_other [of _ acc q s]
    by (auto simp: all_settled_def on_the_way_def settled_after_write engine_ok_after_write)
  ultimately show ?thesis using run by (simp add: ends_def progressed_def)
qed

lemma preserve_progressed:
  assumes "reliable env" and "no_copies env"
  shows "ends (progressed acc att att' s0) (case z of None \<Rightarrow> ok () | Some c \<Rightarrow> preserveConflict env c)
    (\<lambda>_ _. False) (\<lambda>_. progressed acc att att' s0)"
proof (rule ends_option)
  show "ends (progressed acc att att' s0) (ok ()) (\<lambda>_ _. False) (\<lambda>_. progressed acc att att' s0)" by (rule ends_ok)
  fix d
  show "ends (progressed acc att att' s0) (preserveConflict env d) (\<lambda>_ _. False) (\<lambda>_. progressed acc att att' s0)"
  proof (rule ends_from)
    fix t assume t: "progressed acc att att' s0 t"
    then have "on_the_way t {} t" by (simp add: progressed_def on_the_way_start)
    then show "ends ((=) t) (preserveConflict env d) (\<lambda>_ _. False) (\<lambda>_. progressed acc att att' s0)"
      by (intro ends_weaken [OF preserve_ends [OF assms, of t d]]) (use t progressed_similar in auto)
  qed
qed

lemma emit_progressed: "ends (progressed acc att att' s0) emit (\<lambda>_ _. False) (\<lambda>_. progressed acc att att' s0)"
  by (auto simp: ends_def emit_def put_state_def progressed_def all_settled_def split: sum.splits)

lemma attempt_ends:
  assumes env: "reliable env" "no_copies env" and s0: "engine_ok s0"
    and c: "lookup_op (queue_of s0 acc) (opId m) = Some c" "weight att c > 0"
  shows "ends (on_the_way s0 {}) (attempt_command env acc i m) (\<lambda>_. on_the_way s0 {}) (\<lambda>_. progressed acc att att s0)"
  unfolding attempt_command_def
proof (rule ends_and_then [OF send_ends [OF env(1)]], rule ends_fact, rule ends_prod)
  fix p :: "command \<times> acknowledgement" and m' ack
  assume "opId (fst p) = opId m" "p = (m', ack)"
  then have c': "lookup_op (queue_of s0 acc) (opId m') = Some c" using c(1) by simp
  let ?P = "on_the_way s0 {}"
  let ?S = "\<lambda>t. \<exists>s q. ?P s \<and> distinct_ops q \<and> (t = s \<or> t = set_queue acc q s)"
  have ack: "ends ?P (acknowledgeReconciler env m' ack) (\<lambda>_. ?P) (\<lambda>_. ?P)"
    unfolding acknowledgeReconciler_def by (intro ends_option ends_ok in_world_ends)
  have splice: "ends ?P (put_state (\<lambda>s. if js_has (queuesByAccountId s) acc
                 then set_queue acc (splice_at i (queue_of s acc)) s else s)) (\<lambda>_. ?P) (\<lambda>_. ?S)"
  proof (rule ends_from)
    fix s assume s: "?P s"
    then have "distinct_ops (splice_at i (queue_of s acc))" "distinct_ops []"
      by (simp_all add: on_the_way_def distinct_ops_splice engine_ok_queue)
    with s have "?S (if js_has (queuesByAccountId s) acc then set_queue acc (splice_at i (queue_of s acc)) s else s)"
      by (cases "js_has (queuesByAccountId s) acc") (simp_all, blast+)
    then show "ends ((=) s) (put_state (\<lambda>s. if js_has (queuesByAccountId s) acc
        then set_queue acc (splice_at i (queue_of s acc)) s else s)) (\<lambda>_. ?P) (\<lambda>_. ?S)"
      by (simp add: ends_def put_state_def)
  qed
  have persist: "ends ?S (persistAcknowledgement env acc m' (ackVersion ack)) (\<lambda>_. ?P) (\<lambda>_. progressed acc att att s0)"
  proof (rule ends_from)
    fix t assume "?S t"
    then obtain s q where "?P s" "distinct_ops q" "t = s \<or> t = set_queue acc q s" by blast
    from acknowledge_state [OF env(1) this(1) s0 c' c(2) this(3,2)]
    show "ends ((=) t) (persistAcknowledgement env acc m' (ackVersion ack)) (\<lambda>_. ?P) (\<lambda>_. progressed acc att att s0)"
      by (rule never_any)
  qed
  show "ends ?P (and_then (acknowledgeReconciler env m' ack) (\<lambda>_.
     and_then (put_state (\<lambda>s. if js_has (queuesByAccountId s) acc
                 then set_queue acc (splice_at i (queue_of s acc)) s else s)) (\<lambda>_.
     and_then (persistAcknowledgement env acc m' (ackVersion ack)) (\<lambda>conflicted.
     and_then (case conflicted of None \<Rightarrow> ok () | Some c \<Rightarrow> preserveConflict env c) (\<lambda>_.
     emit))))) (\<lambda>_. ?P) (\<lambda>_. progressed acc att att s0)"
    by (rule ends_and_then [OF ack], rule ends_and_then [OF splice], rule ends_and_then [OF persist],
        rule ends_and_then [OF never_any [OF preserve_progressed [OF env]]], rule never_any [OF emit_progressed])
qed

section \<open>A failed round\<close>

text \<open>On the way, with the failed command still in the queue as c.\<close>

definition failing :: "string \<Rightarrow> 'w engine \<Rightarrow> command \<Rightarrow> 'w engine \<Rightarrow> bool" where
  "failing acc s0 c s \<longleftrightarrow> on_the_way s0 {} s \<and> lookup_op (queue_of s acc) (opId c) = Some c"

lemma failing_world: "failing acc s0 c (s\<lparr>world := w\<rparr>) = failing acc s0 c s"
  by (simp add: failing_def)

lemma failing_ends:
  "ends (failing acc s0 c) (in_world f) (\<lambda>_. failing acc s0 c) (\<lambda>_. failing acc s0 c)"
  "ends (failing acc s0 c) (suffix env) (\<lambda>_ _. False) (\<lambda>_. failing acc s0 c)"
  "ends (failing acc s0 c) (clock env) (\<lambda>_ _. False) (\<lambda>_. failing acc s0 c)"
  by (auto simp: ends_def suffix_def in_world_def clock_def get_state_def failing_world split: prod.splits sum.splits)

text \<open>What becomes of a command that failed: no longer active, or with one retry fewer to go.\<close>

definition demoted :: "command \<Rightarrow> command \<Rightarrow> bool" where
  "demoted c m \<longleftrightarrow> opId m = opId c \<and>
     (\<not> isActiveMutation m \<or> retryCount m = Suc (retryCount c) \<and> retryCount m < MAX_RETRY_COUNT)"

lemma demoted_weight: "demoted c m \<Longrightarrow> weight att c > 0 \<Longrightarrow> weight att m < weight att c"
  by (auto simp: demoted_def weight_def split: if_splits)

lemma demoted_rebase: "demoted c (fst (rebaseOnto sfx c v))"
  by (auto simp: demoted_def rebaseOnto_def markEncryptedConflict_def bumpRetry_def isActiveMutation_def opId_def Let_def
      split: option.splits)

lemma demoted_retry: "demoted c (scheduleRetry time (bumpRetry c) e)"
  by (auto simp: demoted_def scheduleRetry_def bumpRetry_def isActiveMutation_def opId_def)

lemma demoted_reject: "demoted c (reject_command copyId c e)"
  by (auto simp: demoted_def reject_command_def markEncryptedConflict_def isActiveMutation_def opId_def)

lemma budget_replace_attempted:
  "opId m = x \<Longrightarrow> budget (x # att) (replace_in m q) = budget (x # att) q"
  by (induction q) (auto simp: budget_def replace_in_def weight_def)

lemma progressedI:
  assumes s: "failing acc s0 c s" and u: "on_the_way (set_queue acc (replace_in m (queue_of s acc)) s) {} u"
    and less: "budget att' (replace_in m (queue_of s acc)) < budget att (queue_of s acc)"
  shows "progressed acc att att' s0 u"
proof -
  let ?t = "set_queue acc (replace_in m (queue_of s acc)) s"
  have sim: "similar ?t u" "similar s0 s" using u s by (simp_all add: on_the_way_def failing_def)
  have "budget att' (queue_of u acc) < budget att (queue_of s0 acc)"
    using less similar_measures(1) [OF sim(1), of att' acc] similar_measures(1) [OF sim(2), of att acc] by simp
  moreover have "length (queue_of u b) \<le> length (queue_of s0 b)" for b
    using similar_measures(2) [OF sim(1), of b] similar_measures(2) [OF sim(2), of b]
    by (cases "b = acc") (simp_all add: replace_in_def)
  ultimately show ?thesis using on_the_way_settled [OF u] by (simp add: progressed_def)
qed

text \<open>The command is replaced in the queue, and the queue written.\<close>

lemma replaced_ends:
  assumes env: "reliable env" and m: "opId m = opId c"
    and less: "\<And>s. failing acc s0 c s \<Longrightarrow> budget att' (replace_in m (queue_of s acc)) < budget att (queue_of s acc)"
    and rest: "ends (progressed acc att att' s0) (f ()) (\<lambda>_ _. False) Q"
  shows "ends (failing acc s0 c) (and_then (update_command acc m) (\<lambda>_. and_then (schedulePersistence env acc) f))
     (\<lambda>_ _. False) Q"
proof (rule ends_from)
  fix s assume s: "failing acc s0 c s"
  let ?t = "set_queue acc (replace_in m (queue_of s acc)) s"
  have look: "lookup_op (queue_of s acc) (opId m) \<noteq> None" using s m by (simp add: failing_def)
  have d: "distinct_ops (queue_of s acc)" using s by (simp add: failing_def on_the_way_def engine_ok_queue)
  have t: "on_the_way ?t {acc} ?t"
    using s d by (auto simp: failing_def on_the_way_def engine_ok_set_queue settled_def)
  have "ends ((=) s) (update_command acc m) (\<lambda>_ _. False) (\<lambda>_. (=) ?t)"
    using update_command_lookup [OF look] by (simp add: ends_def)
  moreover have "ends ((=) ?t) (schedulePersistence env acc) (\<lambda>_ _. False) (\<lambda>_. progressed acc att att' s0)"
    by (rule ends_weaken [OF persist_ends [OF env, of ?t "{acc}" acc]]) (use t progressedI [OF s _ less [OF s]] in auto)
  ultimately show "ends ((=) s) (and_then (update_command acc m) (\<lambda>_. and_then (schedulePersistence env acc) f)) (\<lambda>_ _. False) Q"
    by (rule ends_and_then [OF _ ends_and_then]) (use rest in simp)
qed

lemma failure_ends:
  assumes env: "reliable env" "no_copies env" and s0: "engine_ok s0"
    and c0: "lookup_op (queue_of s0 acc) (opId m0) = Some c0" "weight att c0 > 0"
  shows "ends (on_the_way s0 {}) (handle_failure env acc att m0 error) (\<lambda>_ _. False) (\<lambda>att' s. progressed acc att att' s0 s)"
proof (rule ends_from)
  fix s assume s: "on_the_way s0 {} s"
  obtain c where c: "lookup_op (queue_of s acc) (opId m0) = Some c" "opId c = opId m0" "status c = status c0"
      "retryCount c = retryCount c0"
    by (rule similar_lookup [OF s s0 c0(1)])
  have "opId c0 = opId m0" using lookup_op_Some_iff [OF engine_ok_queue [OF s0]] c0(1) by blast
  then have "weight att c = weight att c0" using c(2-) by (simp add: weight_def isActiveMutation_def)
  then have w: "weight att c > 0" using c0(2) by simp
  have failing: "failing acc s0 c s" using s c by (simp add: failing_def)
  have found: "coalesce (find_command s acc (opId m0)) m0 = c" using c(1) by (simp add: find_command_lookup)
  let ?F = "failing acc s0 c"
  have less: "budget att (replace_in m (queue_of u acc)) < budget att (queue_of u acc)" if "demoted c m" "?F u" for m u
    using budget_replace [of "queue_of u acc" m c att] that demoted_weight [OF that(1) w]
    by (simp add: failing_def on_the_way_def engine_ok_queue demoted_def)
  have after: "ends ?F (and_then (after_conflict env acc m) (\<lambda>_. ok att)) (\<lambda>_ _. False) (\<lambda>att'. progressed acc att att' s0)"
    if m: "demoted c m" for m
  proof (rule ends_and_then)
    have "ends (progressed acc att att s0) (if status m = Some Conflicted then preserveConflict env m else ok ())
        (\<lambda>_ _. False) (\<lambda>_. progressed acc att att s0)"
      using preserve_progressed [OF env, of acc att att s0 "if status m = Some Conflicted then Some m else None"]
      by (simp split: if_splits)
    from ends_and_then [OF emit_progressed this]
    show "ends ?F (after_conflict env acc m) (\<lambda>_ _. False) (\<lambda>_. progressed acc att att s0)"
      unfolding after_conflict_def by (intro replaced_ends [OF env(1) _ less [OF m]]) (use m in \<open>simp_all add: demoted_def\<close>)
  qed (rule ends_ok)
  have retry: "ends ?F (and_then (retry_later env acc c error) (\<lambda>_. ok (opId c # att))) (\<lambda>_ _. False)
      (\<lambda>att'. progressed acc att att' s0)"
  proof (rule ends_and_then)
    have attempted: "budget (opId c # att) (replace_in m (queue_of u acc)) < budget att (queue_of u acc)"
      if "opId m = opId c" "?F u" for m u
      using budget_replace_attempted [OF that(1), of att "queue_of u acc"] that(2) w
        budget_attempt_less [of "queue_of u acc" "opId c" c att]
      by (simp add: failing_def on_the_way_def engine_ok_queue)
    show "ends ?F (retry_later env acc c error) (\<lambda>_ _. False) (\<lambda>_. progressed acc att (opId c # att) s0)"
      unfolding retry_later_def
      by (rule ends_and_then [OF failing_ends(2)], rule ends_and_then [OF failing_ends(3)],
          rule replaced_ends [OF env(1) _ attempted emit_progressed])
         (simp_all add: markRetrying_def scheduleRetry_def bumpRetry_def opId_def Let_def)
  qed (rule ends_ok)
  have rebase: "ends ?F (rebaseMetadataMutation env acc c) (\<lambda>_ _. False) (\<lambda>p s. demoted c (fst p) \<and> ?F s)"
    unfolding rebaseMetadataMutation_def
  proof (rule ends_catch)
    have reconcile: "ends ?F (reconcileAuthoritative env c item) (\<lambda>_. ?F) (\<lambda>_. ?F)" for item
      unfolding reconcileAuthoritative_def by (intro ends_option ends_ok failing_ends(1))
    show "ends ?F (and_then (in_world (fetchItem env acc (entityId c))) (\<lambda>current.
      and_then (reconcileAuthoritative env c (getData current)) (\<lambda>_.
      and_then (suffix env) (\<lambda>sfx. ok (rebaseOnto sfx c (authoritative_version current))))))
      (\<lambda>_. ?F) (\<lambda>p s. demoted c (fst p) \<and> ?F s)"
      by (rule ends_and_then [OF failing_ends(1)], rule ends_and_then [OF reconcile],
          rule ends_and_then [OF never_any [OF failing_ends(2)]], rule ends_ok) (simp add: demoted_rebase)
    show "ends ?F (and_then (clock env) (\<lambda>time. ok (scheduleRetry time (bumpRetry c) error, False)))
      (\<lambda>_ _. False) (\<lambda>p s. demoted c (fst p) \<and> ?F s)" for error
      by (rule ends_and_then [OF failing_ends(3)], rule ends_ok) (simp add: demoted_retry)
  qed
  have "ends ?F (if isApiErrorStatus error 409 \<or> isApiErrorStatus error 412
     then and_then (rebaseMetadataMutation env acc c) (\<lambda>(m', _). and_then (after_conflict env acc m') (\<lambda>_. ok att))
     else if isApiErrorStatus error 400 \<or> isApiErrorStatus error 404
     then and_then (suffix env) (\<lambda>copyId. and_then (after_conflict env acc (reject_command copyId c error)) (\<lambda>_. ok att))
     else and_then (retry_later env acc c error) (\<lambda>_. ok (opId c # att))) (\<lambda>_ _. False) (\<lambda>att'. progressed acc att att' s0)"
  proof (intro ends_if)
    show "ends ?F (and_then (rebaseMetadataMutation env acc c) (\<lambda>(m', _). and_then (after_conflict env acc m') (\<lambda>_. ok att)))
        (\<lambda>_ _. False) (\<lambda>att'. progressed acc att att' s0)"
      by (rule ends_and_then [OF rebase], rule ends_fact, rule ends_prod, rule after) simp
    show "ends ?F (and_then (suffix env) (\<lambda>copyId. and_then (after_conflict env acc (reject_command copyId c error)) (\<lambda>_. ok att)))
        (\<lambda>_ _. False) (\<lambda>att'. progressed acc att att' s0)"
      by (rule ends_and_then [OF failing_ends(2)], rule after [OF demoted_reject])
  qed (rule retry)
  then show "ends ((=) s) (handle_failure env acc att m0 error) (\<lambda>_ _. False) (\<lambda>att' s. progressed acc att att' s0 s)"
    using failing by (auto simp: ends_def handle_failure_def with_state_def found)
qed

section \<open>The loops\<close>

text \<open>No account's queue has grown, and everything is settled.\<close>

definition no_longer :: "'w engine \<Rightarrow> 'w engine \<Rightarrow> bool" where
  "no_longer s0 s \<longleftrightarrow> all_settled s \<and> (\<forall>b. length (queue_of s b) \<le> length (queue_of s0 b))"

lemma no_longer_trans: "no_longer s0 s \<Longrightarrow> no_longer s t \<Longrightarrow> no_longer s0 t"
  unfolding no_longer_def by (meson le_trans)

lemma progressed_no_longer: "progressed acc att att' s0 t \<Longrightarrow> no_longer s0 t"
  by (simp add: progressed_def no_longer_def)

lemma runnable_weight:
  assumes "findRunnable time att q = Some i"
  shows "i < length q" "weight att (q ! i) > 0"
  using find_index_Some [OF assms [unfolded findRunnable_def]]
  by (auto simp: isRunnable_def isReadyMutation_def isActiveMutation_def weight_def)

lemma round_ends:
  assumes env: "reliable env" "no_copies env" and s: "all_settled s"
    and i: "findRunnable time att (queue_of s acc) = Some i"
  shows "ends ((=) s) (catch (and_then (attempt_command env acc i (queue_of s acc ! i)) (\<lambda>_. ok att))
      (handle_failure env acc att (queue_of s acc ! i))) (\<lambda>_ _. False) (\<lambda>att' t. progressed acc att att' s t)"
proof -
  let ?m = "queue_of s acc ! i"
  note i = runnable_weight [OF i]
  have e: "engine_ok s" using s by (simp add: all_settled_def)
  have c: "lookup_op (queue_of s acc) (opId ?m) = Some ?m"
    using lookup_op_Some_iff [OF engine_ok_queue [OF e]] i(1) by simp
  have attempt: "ends (on_the_way s {}) (and_then (attempt_command env acc i ?m) (\<lambda>_. ok att)) (\<lambda>_. on_the_way s {})
      (\<lambda>att'. progressed acc att att' s)"
    by (rule ends_and_then [OF attempt_ends [OF env e c i(2)]], rule ends_ok)
  have "ends (on_the_way s {}) (catch (and_then (attempt_command env acc i ?m) (\<lambda>_. ok att)) (handle_failure env acc att ?m))
      (\<lambda>_ _. False) (\<lambda>att'. progressed acc att att' s)"
    by (rule ends_catch [OF attempt failure_ends [OF env e c i(2)]])
  then show ?thesis by (rule ends_weaken) (use on_the_way_start [OF s] in auto)
qed

lemma drain_account_ends:
  assumes env: "reliable env" "no_copies env" and s: "all_settled s" and fuel: "budget att (queue_of s acc) < fuel"
  shows "ends ((=) s) (drain_account fuel env acc att) (\<lambda>_ _. False) (\<lambda>ended t. ended \<and> no_longer s t)"
  using s fuel
proof (induction fuel arbitrary: s att)
  case (Suc fuel)
  show ?case
  proof (cases "findRunnable (now env (world s)) att (queue_of s acc)")
    case None
    then show ?thesis using Suc.prems(1) by (auto simp: ends_def with_state_def ok_def no_longer_def)
  next
    case (Some i)
    let ?r = "catch (and_then (attempt_command env acc i (queue_of s acc ! i)) (\<lambda>_. ok att))
      (handle_failure env acc att (queue_of s acc ! i))"
    have rest: "ends (progressed acc att att' s) (drain_account fuel env acc att') (\<lambda>_ _. False) (\<lambda>ended t. ended \<and> no_longer s t)" for att'
    proof (rule ends_from)
      fix t assume t: "progressed acc att att' s t"
      then have "all_settled t" "budget att' (queue_of t acc) < fuel" using Suc.prems(2) by (auto simp: progressed_def)
      from Suc.IH [OF this] show "ends ((=) t) (drain_account fuel env acc att') (\<lambda>_ _. False) (\<lambda>ended t. ended \<and> no_longer s t)"
        by (rule ends_weaken) (use no_longer_trans [OF progressed_no_longer [OF t]] in auto)
    qed
    have "ends ((=) s) (and_then ?r (drain_account fuel env acc)) (\<lambda>_ _. False) (\<lambda>ended t. ended \<and> no_longer s t)"
      by (rule ends_and_then [OF round_ends [OF env Suc.prems(1) Some] rest])
    then show ?thesis by (simp add: ends_def with_state_def Some Let_def)
  qed
qed simp

lemma drain_entry_ends:
  assumes env: "reliable env" "no_copies env" and s: "all_settled s" and fuel: "6 * length (queue_of s acc) < fuel"
  shows "ends ((=) s) (drain_entry fuel env acc) (\<lambda>_ _. False) (\<lambda>ended t. ended \<and> no_longer s t)"
proof (cases "findRunnable (now env (world s)) [] (queue_of s acc)")
  case None
  then show ?thesis using s by (auto simp: ends_def drain_entry_def with_state_def ok_def no_longer_def)
next
  case (Some i)
  let ?m = "queue_of s acc ! i"
  note i = runnable_weight [OF Some]
  have e: "engine_ok s" using s by (simp add: all_settled_def)
  have m: "lookup_op (queue_of s acc) (opId ?m) = Some ?m"
    using lookup_op_Some_iff [OF engine_ok_queue [OF e]] i(1) by simp
  let ?P = "\<lambda>t. \<exists>w. s\<lparr>world := w\<rparr> = t"
  have s': "all_settled (s\<lparr>world := w\<rparr>)" for w using s by (simp add: all_settled_def)
  have client: "ends ((=) s) (catch (and_then (in_world (getClient env acc)) (\<lambda>_. ok None)) (\<lambda>error. ok (Some error)))
      (\<lambda>_ _. False) (\<lambda>_. ?P)"
    by (auto simp: ends_def catch_def and_then_def in_world_def ok_def split: prod.splits sum.splits)
  have retry: "ends ((=) (s\<lparr>world := w\<rparr>)) (and_then (retry_later env acc ?m error) (\<lambda>_. ok True)) (\<lambda>_ _. False)
      (\<lambda>ended t. ended \<and> no_longer s t)" for w error
  proof (rule ends_and_then)
    have failing: "failing acc (s\<lparr>world := w\<rparr>) ?m (s\<lparr>world := w\<rparr>)"
      using on_the_way_start [OF s', of w] m by (simp add: failing_def)
    have attempted: "budget [opId ?m] (replace_in m (queue_of u acc)) < budget [] (queue_of u acc)"
      if "opId m = opId ?m" "failing acc (s\<lparr>world := w\<rparr>) ?m u" for m u
      using budget_replace_attempted [OF that(1), of "[]" "queue_of u acc"] that(2) i(2)
        budget_attempt_less [of "queue_of u acc" "opId ?m" ?m "[]"]
      by (simp add: failing_def on_the_way_def engine_ok_queue)
    have "ends (failing acc (s\<lparr>world := w\<rparr>) ?m) (retry_later env acc ?m error) (\<lambda>_ _. False)
        (\<lambda>_. progressed acc [] [opId ?m] (s\<lparr>world := w\<rparr>))"
      unfolding retry_later_def
      by (rule ends_and_then [OF failing_ends(2)], rule ends_and_then [OF failing_ends(3)],
          rule replaced_ends [OF env(1) _ attempted emit_progressed])
         (simp_all add: markRetrying_def scheduleRetry_def bumpRetry_def opId_def Let_def)
    then show "ends ((=) (s\<lparr>world := w\<rparr>)) (retry_later env acc ?m error) (\<lambda>_ _. False) (\<lambda>_. no_longer s)"
      by (rule ends_weaken) (use failing in \<open>auto dest!: progressed_no_longer simp: no_longer_def\<close>)
  qed (auto intro: ends_ok)
  have go: "ends ((=) (s\<lparr>world := w\<rparr>)) (drain_account fuel env acc []) (\<lambda>_ _. False) (\<lambda>ended t. ended \<and> no_longer s t)" for w
    by (rule ends_weaken [OF drain_account_ends [where att = "[]" and acc = acc and fuel = fuel and s = "s\<lparr>world := w\<rparr>", OF env s']])
       (use fuel budget_le [of "[]" "queue_of s acc"] in \<open>auto simp: no_longer_def\<close>)
  have "ends ((=) s) (and_then (catch (and_then (in_world (getClient env acc)) (\<lambda>_. ok None)) (\<lambda>error. ok (Some error)))
      (\<lambda>failed. case failed of
              Some error \<Rightarrow> and_then (retry_later env acc ?m error) (\<lambda>_. ok True)
            | None \<Rightarrow> drain_account fuel env acc [])) (\<lambda>_ _. False) (\<lambda>ended t. ended \<and> no_longer s t)"
    by (rule ends_and_then [OF client], rule ends_exists, rule ends_option) (rule go retry)+
  then show ?thesis by (simp add: ends_def drain_entry_def with_state_def Some)
qed

lemma drain_once_ends:
  assumes env: "reliable env" "no_copies env" and s: "all_settled s" and fuel: "\<And>b. 6 * length (queue_of s b) < fuel"
  shows "ends ((=) s) (drain_once fuel env) (\<lambda>_ _. False) (\<lambda>ended t. ended \<and> no_longer s t)"
proof -
  have each: "ends (no_longer s) (map_each accs (drain_entry fuel env)) (\<lambda>_ _. False)
      (\<lambda>rs t. list_all id rs \<and> no_longer s t)" for accs
  proof (induction accs)
    case (Cons a accs)
    have first: "ends (no_longer s) (drain_entry fuel env a) (\<lambda>_ _. False) (\<lambda>r t. r \<and> no_longer s t)"
    proof (rule ends_from)
      fix u assume u: "no_longer s u"
      have "6 * length (queue_of u a) \<le> 6 * length (queue_of s a)" using u by (simp add: no_longer_def)
      then have "6 * length (queue_of u a) < fuel" using fuel [of a] by (rule le_less_trans)
      from drain_entry_ends [OF env _ this] u
      show "ends ((=) u) (drain_entry fuel env a) (\<lambda>_ _. False) (\<lambda>r t. r \<and> no_longer s t)"
        by (auto simp: no_longer_def elim!: ends_weaken intro: le_trans)
    qed
    show ?case
      unfolding map_each.simps
      by (rule ends_and_then [OF first], rule ends_fact, rule ends_and_then [OF Cons], rule ends_ok) simp
  qed (auto intro: ends_ok)
  have start: "no_longer s s" using s by (simp add: no_longer_def)
  have "ends ((=) s) (and_then (map_each accs (drain_entry fuel env)) (\<lambda>ended. ok (list_all id ended)))
      (\<lambda>_ _. False) (\<lambda>ended t. ended \<and> no_longer s t)" for accs
    by (rule ends_weaken [OF ends_and_then [OF each ends_ok]]) (use start in auto)
  then show ?thesis by (simp add: ends_def drain_once_def with_state_def)
qed

lemma drain_ends:
  assumes env: "reliable env" "no_copies env" and s: "all_settled s" "\<not> draining s"
    and fuel: "\<And>b. 6 * length (queue_of s b) < fuel"
  shows "\<exists>t. drain fuel env s = (Inr True, t) \<and> no_longer s t \<and> \<not> draining t"
proof -
  obtain n where n: "fuel = Suc n" using fuel [of "[]"] by (cases fuel) auto
  let ?u = "s\<lparr>draining := True, latestMappings := []\<rparr>"
  have u: "all_settled (?u\<lparr>drainRequested := False\<rparr>)" using s(1) by (simp add: all_settled_def)
  have longer: "no_longer (?u\<lparr>drainRequested := False\<rparr>) = no_longer s" by (simp add: no_longer_def fun_eq_iff)
  obtain r t where run: "drain_once fuel env (?u\<lparr>drainRequested := False\<rparr>) = (r, t)" by fastforce
  have once: "ends ((=) (?u\<lparr>drainRequested := False\<rparr>)) (drain_once fuel env) (\<lambda>_ _. False) (\<lambda>ended t. ended \<and> no_longer s t)"
    using drain_once_ends [OF env u] fuel longer by simp
  have "r = Inr True \<and> no_longer s t"
    using ends_error [OF once refl, of _ t] ends_value [OF once refl, of _ t] run by (cases r) auto
  then have "r = Inr True" "no_longer s t" "\<not> drainRequested t" by (simp_all add: no_longer_def all_settled_def)
  then have "drain_passes fuel env ?u = (Inr True, t)"
    using run by (simp add: n act_defs)
  then have "drain fuel env s = (Inr True, t\<lparr>draining := False\<rparr>)"
    using s(2) by (simp add: drain_def act_defs)
  moreover have "no_longer s (t\<lparr>draining := False\<rparr>)"
    using \<open>no_longer s t\<close> by (simp add: no_longer_def all_settled_def)
  ultimately show ?thesis by simp
qed

section \<open>Claim\<close>


definition waiting_command :: command where
  "waiting_command = normalizeMutation (sample_command ''o1'' Delete 7)"

definition waiting_engine :: "nat engine" where
  "waiting_engine = (new_engine 0 (Some [(''a'', [waiting_command])]))
     \<lparr>queuesByAccountId := [(''a'', [waiting_command])], persistedOperationIds := [(''a'', [opId waiting_command])],
      persistedCommandSignatures := [(''a'', [(opId waiting_command, waiting_command)])]\<rparr>"


end
