(* ===== verification/AccountKeys.thy ===== *)
theory AccountKeys
  imports TravelMode VaultCrypto QueueRules
begin

text \<open>
  Where the account store puts its values and as what text: the tier table of
  packages/storage/src/tiers.ts, the key scheme of keys.ts and the device key's base64 of
  packages/shared/src/crypto.ts. A value is named by a slot, a global name or an account's; the
  lemmas show that no two slots share a key, for any account ids.
\<close>

section \<open>Tiers\<close>

datatype storage_tier = SecretTier | PlainTier
datatype storage_class = SessionBound | DeviceBound
datatype storage_scope = SessionScope | DeviceScope

datatype stored_value =
    Jwt_token | Vault_keys | Encrypted_private_key
  | Session_data | Device_key | Secret_key
  | Pinned_kdf_params | Server_url | Auto_lock_timeout | Biometric_enabled | Last_biometric_auth
  | Background_timestamp | Travel_mode_cache | Accounts_list | Active_account
  | Master_password_reentry_period_ms | Native_view

fun value_name :: "stored_value \<Rightarrow> string" where
  "value_name Jwt_token = ''jwt_token''"
| "value_name Vault_keys = ''vault_keys''"
| "value_name Encrypted_private_key = ''encrypted_private_key''"
| "value_name Session_data = ''session_data''"
| "value_name Device_key = ''device_key''"
| "value_name Secret_key = ''secret_key''"
| "value_name Pinned_kdf_params = ''pinned_kdf_params''"
| "value_name Server_url = ''server_url''"
| "value_name Auto_lock_timeout = ''auto_lock_timeout''"
| "value_name Biometric_enabled = ''biometric_enabled''"
| "value_name Last_biometric_auth = ''last_biometric_auth''"
| "value_name Background_timestamp = ''background_timestamp''"
| "value_name Travel_mode_cache = ''travel_mode_cache''"
| "value_name Accounts_list = ''accounts_list''"
| "value_name Active_account = ''active_account''"
| "value_name Master_password_reentry_period_ms = ''master_password_reentry_period_ms''"
| "value_name Native_view = ''native_view''"

fun STORAGE_TIERS :: "stored_value \<Rightarrow> storage_tier \<times> storage_class" where
  "STORAGE_TIERS Jwt_token = (SecretTier, SessionBound)"
| "STORAGE_TIERS Vault_keys = (SecretTier, SessionBound)"
| "STORAGE_TIERS Encrypted_private_key = (SecretTier, SessionBound)"
| "STORAGE_TIERS Session_data = (SecretTier, DeviceBound)"
| "STORAGE_TIERS Device_key = (SecretTier, DeviceBound)"
| "STORAGE_TIERS Secret_key = (SecretTier, DeviceBound)"
| "STORAGE_TIERS _ = (PlainTier, DeviceBound)"

definition deriveScope :: "storage_class \<Rightarrow> bool \<Rightarrow> storage_scope" where
  "deriveScope c sessionSurvivesRestart =
     (if c = SessionBound \<and> \<not> sessionSurvivesRestart then SessionScope else DeviceScope)"

definition REQUIRED_TIERS :: "storage_tier list" where
  "REQUIRED_TIERS = [PlainTier, SecretTier]"

definition assertTiersHonoured :: "storage_tier list \<Rightarrow> js_error + unit" where
  "assertTiersHonoured tiers =
     (if filter (\<lambda>t. t \<notin> set tiers) REQUIRED_TIERS \<noteq> []
      then Inl (JsError ''Refusing to start rather than silently demoting stored values to a weaker tier.'')
      else Inr ())"

section \<open>Keys\<close>

definition accountKey :: "string \<Rightarrow> stored_value \<Rightarrow> string" where
  "accountKey acc n = ''bittery_account_'' @ acc @ ''_'' @ value_name n"

definition globalKey :: "stored_value \<Rightarrow> string" where
  "globalKey n = ''bittery_'' @ value_name n"

definition GLOBAL_VALUES :: "stored_value list" where
  "GLOBAL_VALUES =
     [Device_key, Accounts_list, Active_account, Master_password_reentry_period_ms, Native_view]"

definition ACCOUNT_VALUES :: "stored_value list" where
  "ACCOUNT_VALUES =
     [Secret_key, Session_data, Vault_keys, Pinned_kdf_params, Biometric_enabled,
      Last_biometric_auth, Server_url, Encrypted_private_key, Travel_mode_cache, Jwt_token,
      Auto_lock_timeout, Background_timestamp]"

text \<open>A value of the store: a global one or one of an account.\<close>

datatype slot = GlobalSlot stored_value | AccountSlot string stored_value

fun slot_ok :: "slot \<Rightarrow> bool" where
  "slot_ok (GlobalSlot n) = (n \<in> set GLOBAL_VALUES)"
| "slot_ok (AccountSlot _ n) = (n \<in> set ACCOUNT_VALUES)"

fun slot_value :: "slot \<Rightarrow> stored_value" where
  "slot_value (GlobalSlot n) = n" | "slot_value (AccountSlot _ n) = n"

fun slot_key :: "slot \<Rightarrow> string" where
  "slot_key (GlobalSlot n) = globalKey n" | "slot_key (AccountSlot acc n) = accountKey acc n"

lemma account_values_distinct [simp]: "distinct ACCOUNT_VALUES"
  by (simp add: ACCOUNT_VALUES_def)

lemma every_value_has_an_owner: "(n \<in> set GLOBAL_VALUES) \<noteq> (n \<in> set ACCOUNT_VALUES)"
  by (cases n) (simp_all add: GLOBAL_VALUES_def ACCOUNT_VALUES_def)

lemma same_end: "xs @ us = ys @ vs \<Longrightarrow> length us \<le> length vs \<Longrightarrow> drop (length vs - length us) vs = us"
proof -
  assume eq: "xs @ us = ys @ vs" and len: "length us \<le> length vs"
  have "length ys + (length vs - length us) = length xs"
    using arg_cong [OF eq, of length] len by simp
  then have "drop (length xs) (ys @ vs) = drop (length vs - length us) vs" by (simp flip: \<open>_ = length xs\<close>)
  then show ?thesis using eq by (metis append_eq_conv_conj)
qed

text \<open>No account value's name ends another one's, with the separator before it.\<close>

lemma no_name_ends_another:
  assumes "n \<in> set ACCOUNT_VALUES" "m \<in> set ACCOUNT_VALUES" "n \<noteq> m"
  shows "drop (length (value_name m) - length (value_name n)) (CHR ''_'' # value_name m) \<noteq> CHR ''_'' # value_name n"
proof -
  have "list_all (\<lambda>n. list_all (\<lambda>m. n = m \<or>
      drop (length (value_name m) - length (value_name n)) (CHR ''_'' # value_name m) \<noteq> CHR ''_'' # value_name n)
      ACCOUNT_VALUES) ACCOUNT_VALUES"
    by code_simp
  then show ?thesis using assms by (auto simp: list_all_iff)
qed

lemma account_key_injective:
  assumes "n \<in> set ACCOUNT_VALUES" "m \<in> set ACCOUNT_VALUES" and key: "accountKey a n = accountKey b m"
  shows "a = b \<and> n = m"
proof -
  have eq: "a @ (CHR ''_'' # value_name n) = b @ (CHR ''_'' # value_name m)"
    using key by (simp add: accountKey_def)
  have "n = m"
  proof (rule ccontr)
    assume ne: "n \<noteq> m"
    show False
    proof (cases "length (value_name n) \<le> length (value_name m)")
      case True
      then show ?thesis using same_end [OF eq] no_name_ends_another [OF assms(1,2) ne] by simp
    next
      case False
      then show ?thesis using same_end [OF eq [symmetric]] no_name_ends_another [OF assms(2,1)] ne by simp
    qed
  qed
  then show ?thesis using eq by simp
qed

definition all_values :: "stored_value list" where
  "all_values = GLOBAL_VALUES @ ACCOUNT_VALUES"

lemma every_value: "n \<in> set all_values"
  using every_value_has_an_owner [of n] by (auto simp: all_values_def)

lemma value_name_injective: "value_name n = value_name m \<Longrightarrow> n = m"
proof -
  have "list_all (\<lambda>n. list_all (\<lambda>m. value_name n = value_name m \<longrightarrow> n = m) all_values) all_values"
    by code_simp
  then show "value_name n = value_name m \<Longrightarrow> n = m"
    using every_value [of n] every_value [of m] by (simp add: list_all_iff)
qed

lemma global_key_injective: "globalKey n = globalKey m \<Longrightarrow> n = m"
  using value_name_injective by (simp add: globalKey_def)

lemma global_is_no_account_key: "globalKey n \<noteq> accountKey a m"
  by (cases n) (simp_all add: globalKey_def accountKey_def)

lemma slot_key_injective:
  assumes "slot_ok s" "slot_ok t" "slot_key s = slot_key t"
  shows "s = t"
proof (cases s)
  case (GlobalSlot n)
  then show ?thesis
    using assms global_key_injective [of n] global_is_no_account_key [of n] by (cases t) auto
next
  case s: (AccountSlot a n)
  show ?thesis
  proof (cases t)
    case (GlobalSlot m)
    then show ?thesis using assms s global_is_no_account_key [of m a n] by simp
  next
    case (AccountSlot b m)
    then show ?thesis using assms s account_key_injective [of n m a b] by simp
  qed
qed

section \<open>Numbers as texts\<close>

text \<open>parseInt with radix 10: white space, a sign, the digits up to the first other character.\<close>

definition parse_int :: "string \<Rightarrow> int option" where
  "parse_int s =
     (let t = trimStart s;
          neg = (t \<noteq> [] \<and> hd t = CHR ''-'');
          u = (if t \<noteq> [] \<and> (hd t = CHR ''-'' \<or> hd t = CHR ''+'') then tl t else t);
          ds = takeWhile is_digit u
      in if ds = [] then None else Some (if neg then - int (decimal ds) else int (decimal ds)))"

section \<open>Base64\<close>

text \<open>
  btoa and atob of the standard library over octets below 256. atob skips white space, takes up to
  two padding characters off a text of whole groups, refuses a text that leaves a single character
  or has another character, and drops the bits of an incomplete octet.
\<close>

definition base64_alphabet :: string where
  "base64_alphabet = ''ABCDEFGHIJKLMNOPQRSTUVWXYZabcdefghijklmnopqrstuvwxyz0123456789+/''"

definition sextet_char :: "nat \<Rightarrow> char" where
  "sextet_char n = base64_alphabet ! n"

definition char_sextet :: "char \<Rightarrow> nat option" where
  "char_sextet c = map_of (zip base64_alphabet [0..<64]) c"

fun btoa :: "nat list \<Rightarrow> string" where
  "btoa [] = []"
| "btoa [a] = [sextet_char (a div 4), sextet_char (a mod 4 * 16), CHR ''='', CHR ''='']"
| "btoa [a, b] = [sextet_char (a div 4), sextet_char (a mod 4 * 16 + b div 16),
     sextet_char (b mod 16 * 4), CHR ''='']"
| "btoa (a # b # c # rest) =
     sextet_char (a div 4) # sextet_char (a mod 4 * 16 + b div 16) #
     sextet_char (b mod 16 * 4 + c div 64) # sextet_char (c mod 64) # btoa rest"

fun octets :: "nat list \<Rightarrow> nat list" where
  "octets (a # b # c # d # rest) =
     (a * 4 + b div 16) # (b mod 16 * 16 + c div 4) # (c mod 4 * 64 + d) # octets rest"
| "octets [a, b, c] = [a * 4 + b div 16, b mod 16 * 16 + c div 4]"
| "octets [a, b] = [a * 4 + b div 16]"
| "octets _ = []"

definition base64_space :: "char list" where
  "base64_space = [CHR 0x09, CHR 0x0A, CHR 0x0C, CHR 0x0D, CHR 0x20]"

definition strip_padding :: "string \<Rightarrow> string" where
  "strip_padding s =
     (if length s mod 4 = 0 \<and> s \<noteq> [] \<and> last s = CHR ''=''
      then (if last (butlast s) = CHR ''='' then butlast (butlast s) else butlast s)
      else s)"

definition atob :: "string \<Rightarrow> nat list option" where
  "atob text =
     (let s = strip_padding (filter (\<lambda>c. c \<notin> set base64_space) text)
      in if length s mod 4 = 1 \<or> list_ex (\<lambda>c. char_sextet c = None) s then None
         else Some (octets (map (\<lambda>c. coalesce (char_sextet c) 0) s)))"

definition arrayBufferToBase64 :: "nat list \<Rightarrow> string" where
  "arrayBufferToBase64 buffer = btoa buffer"

definition base64ToArrayBuffer :: "string \<Rightarrow> nat list option" where
  "base64ToArrayBuffer base64 = atob base64"

lemma alphabet_sextet:
  assumes "n < 64"
  shows "char_sextet (sextet_char n) = Some n" and "sextet_char n \<notin> set base64_space"
    and "sextet_char n \<noteq> CHR ''=''"
proof -
  have "list_all (\<lambda>n. char_sextet (sextet_char n) = Some n \<and> sextet_char n \<notin> set base64_space \<and>
      sextet_char n \<noteq> CHR ''='') [0..<64]"
    by code_simp
  then show "char_sextet (sextet_char n) = Some n" "sextet_char n \<notin> set base64_space" "sextet_char n \<noteq> CHR ''=''"
    using assms by (simp_all add: list_all_iff)
qed

text \<open>What btoa writes: the sextets of the octets, and its padding.\<close>

fun sextets :: "nat list \<Rightarrow> nat list" where
  "sextets (a # b # c # rest) =
     (a div 4) # (a mod 4 * 16 + b div 16) # (b mod 16 * 4 + c div 64) # (c mod 64) # sextets rest"
| "sextets [a, b] = [a div 4, a mod 4 * 16 + b div 16, b mod 16 * 4]"
| "sextets [a] = [a div 4, a mod 4 * 16]"
| "sextets [] = []"

definition padding :: "nat \<Rightarrow> string" where
  "padding n = (if n mod 3 = 1 then ''=='' else if n mod 3 = 2 then ''='' else [])"

lemma btoa_sextets: "btoa bs = map sextet_char (sextets bs) @ padding (length bs)"
  by (induction bs rule: btoa.induct) (simp_all add: padding_def mod_Suc)

lemma sextets_bound: "list_all (\<lambda>a. a < 256) bs \<Longrightarrow> list_all (\<lambda>n. n < 64) (sextets bs)"
proof (induction bs rule: sextets.induct)
  case (1 a b c rest)
  then show ?case by simp linarith
qed (simp_all, linarith+)

lemma octets_sextets: "list_all (\<lambda>a. a < 256) bs \<Longrightarrow> octets (sextets bs) = bs"
proof (induction bs rule: sextets.induct)
  case (1 a b c rest)
  have b: "b < 256" and c: "c < 256" using 1 by simp_all
  have "b div 16 div 16 = 0" "c div 64 div 4 = 0" using b c by simp_all
  moreover have "b div 16 mod 16 * 16 + b mod 16 = b" "c div 64 mod 4 * 64 + c mod 64 = c"
    using b c div_mult_mod_eq [of b 16] div_mult_mod_eq [of c 64] by simp_all
  ultimately show ?case using 1 by simp
next
  case (2 a b)
  then have b: "b < 256" by simp
  have "b div 16 div 16 = 0" using b by simp
  moreover have "b div 16 mod 16 * 16 + b mod 16 = b"
    using b div_mult_mod_eq [of b 16] by simp
  ultimately show ?case using 2 by simp
qed simp_all

lemma mod_three: "(n::nat) mod 3 = 0 \<or> n mod 3 = 1 \<or> n mod 3 = 2"
  by linarith

lemma sextets_length: "length (sextets bs) mod 4 = (if length bs mod 3 = 0 then 0 else Suc (length bs mod 3))"
proof (induction bs rule: sextets.induct)
  case (1 a b c rest)
  then show ?case using mod_three [of "length rest"] by (auto simp: mod_Suc)
qed simp_all

lemma sextets_empty: "sextets bs = [] \<Longrightarrow> bs = []"
  by (cases bs rule: sextets.cases) auto

text \<open>Stripping takes exactly the padding off.\<close>

lemma strip_none: "xs \<noteq> [] \<Longrightarrow> last xs \<noteq> CHR ''='' \<Longrightarrow> strip_padding xs = xs"
  by (simp add: strip_padding_def)

lemma strip_one: "length (xs @ [CHR ''='']) mod 4 = 0 \<Longrightarrow> xs \<noteq> [] \<Longrightarrow> last xs \<noteq> CHR ''='' \<Longrightarrow>
    strip_padding (xs @ [CHR ''='']) = xs"
  by (simp add: strip_padding_def)

lemma strip_two: "length (xs @ [CHR ''='', CHR ''='']) mod 4 = 0 \<Longrightarrow>
    strip_padding (xs @ [CHR ''='', CHR ''='']) = xs"
  by (simp add: strip_padding_def butlast_append)

lemma strip_btoa:
  assumes "list_all (\<lambda>a. a < 256) bs"
  shows "strip_padding (btoa bs) = map sextet_char (sextets bs)"
proof (cases "bs = []")
  case True
  then show ?thesis by (simp add: strip_padding_def)
next
  case False
  let ?t = "map sextet_char (sextets bs)"
  have t: "?t \<noteq> []" using False sextets_empty [of bs] by auto
  have "last (sextets bs) \<in> set (sextets bs)" using t by simp
  then have "last (sextets bs) < 64" using sextets_bound [OF assms] by (simp only: list_all_iff)
  then have l: "last ?t \<noteq> CHR ''=''" using t by (simp add: last_map alphabet_sextet(3))
  consider "length bs mod 3 = 0" | "length bs mod 3 = 1" | "length bs mod 3 = 2"
    using mod_three [of "length bs"] by (elim disjE)
  then show ?thesis
  proof cases
    case 1
    then have "btoa bs = ?t" by (simp add: btoa_sextets padding_def)
    then show ?thesis using strip_none [OF t l] by simp
  next
    case 2
    then have "strip_padding (?t @ [CHR ''='', CHR ''='']) = ?t"
      using sextets_length [of bs] by (intro strip_two) (simp add: mod_Suc)
    moreover have "btoa bs = ?t @ [CHR ''='', CHR ''='']" using 2 by (simp add: btoa_sextets padding_def)
    ultimately show ?thesis by simp
  next
    case 3
    then have "strip_padding (?t @ [CHR ''='']) = ?t"
      using sextets_length [of bs] t l by (intro strip_one) (simp_all add: mod_Suc)
    moreover have "btoa bs = ?t @ [CHR ''='']" using 3 by (simp add: btoa_sextets padding_def)
    ultimately show ?thesis by simp
  qed
qed

lemma kept_btoa:
  assumes "list_all (\<lambda>a. a < 256) bs"
  shows "filter (\<lambda>c. c \<notin> set base64_space) (btoa bs) = btoa bs"
proof -
  have "set (padding (length bs)) \<subseteq> {CHR ''=''}" by (auto simp: padding_def)
  moreover have "CHR ''='' \<notin> set base64_space" by (simp add: base64_space_def)
  moreover have "\<forall>c \<in> set (map sextet_char (sextets bs)). c \<notin> set base64_space"
    using sextets_bound [OF assms] by (auto simp: list_all_iff alphabet_sextet(2))
  ultimately show ?thesis by (intro filter_True) (auto simp: btoa_sextets)
qed

theorem base64_roundtrip:
  assumes "list_all (\<lambda>a. a < 256) bs"
  shows "base64ToArrayBuffer (arrayBufferToBase64 bs) = Some bs"
proof -
  have small: "\<And>n. n \<in> set (sextets bs) \<Longrightarrow> n < 64" using sextets_bound [OF assms] by (simp add: list_all_iff)
  have digits: "map (\<lambda>c. coalesce (char_sextet c) 0) (map sextet_char (sextets bs)) = sextets bs"
    by (simp add: map_idI alphabet_sextet(1) small)
  have good: "\<not> list_ex (\<lambda>c. char_sextet c = None) (map sextet_char (sextets bs))"
    by (auto simp: list_ex_iff alphabet_sextet(1) dest!: small)
  have whole: "length (sextets bs) mod 4 \<noteq> 1"
    using sextets_length [of bs] by (simp split: if_splits)
  show ?thesis
    unfolding base64ToArrayBuffer_def arrayBufferToBase64_def atob_def kept_btoa [OF assms] strip_btoa [OF assms]
    using octets_sextets [OF assms] digits good whole by (simp add: Let_def)
qed

lemma base64_demo: "arrayBufferToBase64 [66, 105, 116, 116, 101, 114, 121] = ''Qml0dGVyeQ=='' \<and>
    base64ToArrayBuffer ''Qml0 dGVyeQ=='' = Some [66, 105, 116, 116, 101, 114, 121] \<and>
    base64ToArrayBuffer ''Qml0d'' = None"
  by code_simp

end
