(* ===== verification/AccountStore.thy ===== *)
theory AccountStore
  imports AccountKeys
begin

text \<open>
  packages/storage/src/account-store.ts over the platform seam of platform-port.ts: the accounts
  list, sessions, the cache of unlocked keys, settings, biometrics and the view published to the
  native host. Every method is a definition of its name; its world is the platform (the record
  platform_port) and the crypto seam (device_crypto, which adds the import and export of a key to
  the operations of VaultCrypto).

  A call runs alone, so the promise that coalesces two loads of the device key has no counterpart;
  the one place where another call can change the outcome, setUnlockEntry, is composed of its two
  halves. A listener is represented by what it is called with: unlockNotices lists those calls.
  console.error and the wiping of exported octets have no effect on the state.
\<close>

section \<open>Stored documents\<close>

text \<open>
  An expiry is a number, a Date or a text for Date; a Date holds None when it is invalid. In the
  accounts list, a missing server URL is the empty one and an insecureTransportConfirmed that is no
  boolean is None; teamAvatarUrl may be absent, null or a URL.
\<close>

datatype session_expiry = ExpiryNumber int | ExpiryDate "int option" | ExpiryText string

record account_metadata =
  amAccountId :: string
  amEmail :: string
  amUserId :: string
  amName :: string
  amServerUrl :: string
  amTeamName :: "string option"
  amTeamAvatarUrl :: "string option option"
  amSecretKeyHint :: string
  amAddedAt :: int
  amLastActiveAt :: int
  amBiometricEnabled :: bool
  amInsecureTransportConfirmed :: "bool option"

record accounts_document =
  adVersion :: "int option"
  adAccounts :: "account_metadata list"

text \<open>A session as its text has it, and as getStoredSessionData resolves it.\<close>

record session_document =
  sdEncryptedMasterUnlockKey :: encrypted_data
  sdEmail :: string
  sdUserId :: string
  sdSessionId :: "string option"
  sdExpiresAt :: "session_expiry option"
  sdServerExpiresAt :: "session_expiry option"
  sdCreatedAt :: int
  sdBiometricEnabled :: "bool option"
  sdLastMasterPasswordEntry :: "int option"

record resolved_session =
  ssEncryptedMasterUnlockKey :: encrypted_data
  ssEmail :: string
  ssUserId :: string
  ssSessionId :: "string option"
  ssExpiresAt :: int
  ssServerExpiresAt :: "int option"
  ssCreatedAt :: int
  ssBiometricEnabled :: "bool option"
  ssLastMasterPasswordEntry :: "int option"

record native_key_ref =
  nkKey :: string
  nkStore :: storage_tier

record native_account =
  naAccountId :: string
  naEmail :: string
  naUserId :: string
  naName :: string
  naSecretKeyHint :: string
  naTeamName :: "string option"
  naTeamAvatarUrl :: "string option option"
  naAddedAt :: int
  naLastActiveAt :: int
  naBiometricEnabled :: bool
  naToken :: native_key_ref
  naSessionData :: native_key_ref
  naVaultKeys :: native_key_ref
  naEncryptedPrivateKey :: native_key_ref
  naItemCacheState :: native_key_ref

record native_host_view =
  nhVersion :: int
  nhActiveAccountId :: "string option"
  nhUnlockedAccountIds :: "string list"
  nhAutoLockTimeoutMs :: int
  nhDeviceKey :: native_key_ref
  nhAccounts :: "native_account list"

text \<open>
  A stored text: one of the JSON documents the store writes, or any other text. A document is read
  back as the kind that was written; as plain text it is some text that opens a JSON value.
\<close>

datatype stored_text =
    PlainText string
  | AccountsText accounts_document
  | SessionText session_document
  | VaultKeysText "vault_key_entry list"
  | KdfText untrusted_kdf_profile
  | TravelText travel_config
  | ViewText native_host_view

fun text_of :: "stored_text \<Rightarrow> string" where
  "text_of (PlainText s) = s" | "text_of _ = ''{''"

fun parse_accounts :: "stored_text \<Rightarrow> accounts_document option" where
  "parse_accounts (AccountsText d) = Some d" | "parse_accounts _ = None"

fun parse_session :: "stored_text \<Rightarrow> session_document option" where
  "parse_session (SessionText d) = Some d" | "parse_session _ = None"

fun parse_vault_keys :: "stored_text \<Rightarrow> vault_key_entry list option" where
  "parse_vault_keys (VaultKeysText ks) = Some ks" | "parse_vault_keys _ = None"

fun parse_travel :: "stored_text \<Rightarrow> travel_config option" where
  "parse_travel (TravelText c) = Some c" | "parse_travel _ = None"

fun parse_kdf :: "stored_text \<Rightarrow> untrusted_kdf_profile option" where
  "parse_kdf (KdfText p) = Some p" | "parse_kdf _ = None"

definition parseStoredKdfProfile :: "stored_text option \<Rightarrow> kdf_profile option" where
  "parseStoredKdfProfile stored = (case Option.bind stored parse_kdf of
       None \<Rightarrow> None
     | Some p \<Rightarrow> (case validateKdfProfileOrThrow p None of
         Inl _ \<Rightarrow> None
       | Inr _ \<Rightarrow> Some \<lparr>kdfSchemaVersion = ukSchemaVersion p, kdfAlgorithm = ukAlgorithm p,
                        kdfIterations = coalesce (ukIterations p) 0\<rparr>))"

definition parseStoredNumber :: "stored_text option \<Rightarrow> int option" where
  "parseStoredNumber raw = Option.bind raw (\<lambda>t. parse_int (text_of t))"

section \<open>The seams\<close>

datatype port_biometric_error =
  PortUserCancelled | PortLockout | PortNotEnrolled | PortNotAvailable | PortFailed

record biometric_port_result =
  bpSuccess :: bool
  bpError :: "port_biometric_error option"
  bpMessage :: "string option"

record biometric_details =
  bdHasHardware :: bool
  bdIsEnrolled :: bool

record 'w platform_port =
  ppSessionSurvivesRestart :: bool
  ppTiers :: "storage_tier list"
  ppRecordKeyPrefix :: string
  ppInitialize :: "(js_error, 'w, unit) act"
  secretGet :: "string \<Rightarrow> (js_error, 'w, stored_text option) act"
  secretSet :: "string \<Rightarrow> stored_text \<Rightarrow> (js_error, 'w, unit) act"
  secretDelete :: "string \<Rightarrow> (js_error, 'w, unit) act"
  kvGet :: "string \<Rightarrow> storage_scope \<Rightarrow> (js_error, 'w, stored_text option) act"
  kvSet :: "string \<Rightarrow> stored_text \<Rightarrow> storage_scope \<Rightarrow> (js_error, 'w, unit) act"
  kvDelete :: "string \<Rightarrow> storage_scope \<Rightarrow> (js_error, 'w, unit) act"
  bioIsAvailable :: "(js_error, 'w, bool) act"
  bioGetDetails :: "(js_error, 'w, biometric_details) act"
  bioGetType :: "(js_error, 'w, string option) act"
  bioAuthenticate :: "string \<Rightarrow> (js_error, 'w, biometric_port_result) act"

record 's device_crypto = "'s crypto_port" +
  cpImportKey :: "nat list \<Rightarrow> (js_error, 's, key_ref) act"
  cpExportKey :: "key_ref \<Rightarrow> (js_error, 's, nat list) act"

text \<open>
  Date.now reads the world; the text of a Date, the URL constructor (None when it throws) and the
  random account id are the platform's.
\<close>

record 'w store_env =
  sePort :: "'w platform_port"
  seCrypto :: "'w device_crypto"
  seNow :: "'w \<Rightarrow> int"
  seParseDate :: "string \<Rightarrow> int option"
  seUrlText :: "string \<Rightarrow> string option"
  seGenerateAccountId :: "(js_error, 'w, string) act"

record 'w account_store =
  mukCache :: "(string \<times> key_ref) list"
  deviceKeyCache :: "key_ref option"
  unlockNotices :: "string list list"
  storeWorld :: 'w

type_synonym ('w, 'a) store_act = "(js_error, 'w account_store, 'a) act"

definition in_store_world :: "(js_error, 'w, 'a) act \<Rightarrow> ('w, 'a) store_act" where
  "in_store_world m = (\<lambda>s. case m (storeWorld s) of (r, w) \<Rightarrow> (r, s\<lparr>storeWorld := w\<rparr>))"

definition nowOf :: "'w store_env \<Rightarrow> ('w, int) store_act" where
  "nowOf env = get_state (\<lambda>s. seNow env (storeWorld s))"

section \<open>Constants\<close>

definition DEFAULT_SESSION_EXPIRY_MS :: int where "DEFAULT_SESSION_EXPIRY_MS = 14 * 24 * 60 * 60 * 1000"
definition DEFAULT_AUTO_LOCK_TIMEOUT_MS :: int where "DEFAULT_AUTO_LOCK_TIMEOUT_MS = 10 * 60 * 1000"
definition BIOMETRIC_GRACE_PERIOD_MS :: int where "BIOMETRIC_GRACE_PERIOD_MS = 10 * 60 * 1000"
definition MASTER_PASSWORD_REENTRY_PERIOD_MS :: int where
  "MASTER_PASSWORD_REENTRY_PERIOD_MS = 30 * 24 * 60 * 60 * 1000"
definition ACCOUNTS_LIST_VERSION :: int where "ACCOUNTS_LIST_VERSION = 2"
definition NATIVE_VIEW_VERSION :: int where "NATIVE_VIEW_VERSION = 3"

section \<open>The routing triple\<close>

definition tier_route :: "'w store_env \<Rightarrow> stored_value \<Rightarrow> storage_scope \<times> storage_tier" where
  "tier_route env n =
     (deriveScope (snd (STORAGE_TIERS n)) (ppSessionSurvivesRestart (sePort env)), fst (STORAGE_TIERS n))"

definition readValue :: "'w store_env \<Rightarrow> stored_value \<Rightarrow> string \<Rightarrow> ('w, stored_text option) store_act" where
  "readValue env n key = in_store_world (case tier_route env n of (scope, tier) \<Rightarrow>
     if scope = SessionScope then kvGet (sePort env) key SessionScope
     else if tier = SecretTier then secretGet (sePort env) key
     else kvGet (sePort env) key DeviceScope)"

definition writeValue :: "'w store_env \<Rightarrow> stored_value \<Rightarrow> string \<Rightarrow> stored_text \<Rightarrow> ('w, unit) store_act" where
  "writeValue env n key v = in_store_world (case tier_route env n of (scope, tier) \<Rightarrow>
     if scope = SessionScope then kvSet (sePort env) key v SessionScope
     else if tier = SecretTier then secretSet (sePort env) key v
     else kvSet (sePort env) key v DeviceScope)"

definition deleteValue :: "'w store_env \<Rightarrow> stored_value \<Rightarrow> string \<Rightarrow> ('w, unit) store_act" where
  "deleteValue env n key = in_store_world (case tier_route env n of (scope, tier) \<Rightarrow>
     if scope = SessionScope then kvDelete (sePort env) key SessionScope
     else if tier = SecretTier then secretDelete (sePort env) key
     else kvDelete (sePort env) key DeviceScope)"

definition keyRefFor :: "'w store_env \<Rightarrow> stored_value \<Rightarrow> string \<Rightarrow> native_key_ref" where
  "keyRefFor env n key = (case tier_route env n of (scope, tier) \<Rightarrow>
     \<lparr>nkKey = key, nkStore = (if scope = DeviceScope \<and> tier = SecretTier then SecretTier else PlainTier)\<rparr>)"

definition recordKeyFor :: "'w store_env \<Rightarrow> string \<Rightarrow> string \<Rightarrow> string" where
  "recordKeyFor env collection i = ppRecordKeyPrefix (sePort env) @ collection @ '':'' @ i"

definition readGlobal where "readGlobal env n = readValue env n (globalKey n)"
definition writeGlobal where "writeGlobal env n v = writeValue env n (globalKey n) v"
definition deleteGlobal where "deleteGlobal env n = deleteValue env n (globalKey n)"
definition readAccount where "readAccount env n acc = readValue env n (accountKey acc n)"
definition writeAccount where "writeAccount env n acc v = writeValue env n (accountKey acc n) v"
definition deleteAccount where "deleteAccount env n acc = deleteValue env n (accountKey acc n)"

section \<open>Pure helpers\<close>

definition resolveStoredSessionExpiryTimestamp ::
  "'w store_env \<Rightarrow> session_expiry option \<Rightarrow> int \<Rightarrow> int" where
  "resolveStoredSessionExpiryTimestamp env expiresAt createdAt = (case expiresAt of
       None \<Rightarrow> createdAt + DEFAULT_SESSION_EXPIRY_MS
     | Some (ExpiryNumber n) \<Rightarrow> if n > 1000000000000 then n else createdAt + n
     | Some (ExpiryText t) \<Rightarrow> coalesce (seParseDate env t) (createdAt + DEFAULT_SESSION_EXPIRY_MS)
     | Some (ExpiryDate d) \<Rightarrow> coalesce d (createdAt + DEFAULT_SESSION_EXPIRY_MS))"

definition effectiveSessionExpiry :: "resolved_session \<Rightarrow> int" where
  "effectiveSessionExpiry session = coalesce (ssServerExpiresAt session) (ssExpiresAt session)"

datatype biometric_error_type =
    NotAvailableError | NotEnrolledError | NotEnabledError | AuthenticationFailedError
  | UserCancelledError | LockoutError | MasterPasswordRequiredError | SessionExpiredError
  | AccountNotFoundError
  | UnknownBiometricError

record biometric_auth_result =
  baSuccess :: bool
  baError :: "biometric_error_type option"
  baMessage :: "string option"
  baMasterPasswordReentryPeriodMs :: "int option"

definition bio_failure :: "biometric_error_type \<Rightarrow> string \<Rightarrow> biometric_auth_result" where
  "bio_failure e m =
     \<lparr>baSuccess = False, baError = Some e, baMessage = Some m, baMasterPasswordReentryPeriodMs = None\<rparr>"

fun fallbackMessages :: "port_biometric_error \<Rightarrow> biometric_error_type \<times> string" where
  "fallbackMessages PortUserCancelled = (UserCancelledError, ''Authentication was cancelled'')"
| "fallbackMessages PortLockout =
     (LockoutError, ''Too many failed attempts. Please use your password to unlock'')"
| "fallbackMessages PortNotEnrolled = (NotEnrolledError,
     ''No biometrics enrolled. Please set up Face ID or Touch ID in your device settings'')"
| "fallbackMessages PortNotAvailable =
     (NotAvailableError, ''Biometric authentication not available'')"
| "fallbackMessages PortFailed =
     (AuthenticationFailedError, ''Biometric authentication failed. Please try again'')"

definition toBiometricAuthResult :: "biometric_port_result \<Rightarrow> biometric_auth_result" where
  "toBiometricAuthResult result =
     (case fallbackMessages (coalesce (bpError result) PortFailed) of (e, m) \<Rightarrow>
        bio_failure e (coalesce (bpMessage result) m))"

definition strip_slashes :: "string \<Rightarrow> string" where
  "strip_slashes s = rev (dropWhile (\<lambda>c. c = CHR ''/'') (rev s))"

definition findAccountById :: "account_metadata list \<Rightarrow> string \<Rightarrow> account_metadata option" where
  "findAccountById accounts acc = List.find (\<lambda>a. amAccountId a = acc) accounts"

definition normalizeAccountServerUrl :: "'w store_env \<Rightarrow> string \<Rightarrow> string" where
  "normalizeAccountServerUrl env url = strip_slashes (coalesce (seUrlText env (trim url)) (trim url))"

definition findAccountByServerUser ::
  "'w store_env \<Rightarrow> account_metadata list \<Rightarrow> string \<Rightarrow> string \<Rightarrow> account_metadata option" where
  "findAccountByServerUser env accounts url user =
     List.find (\<lambda>a. amUserId a = user \<and>
       normalizeAccountServerUrl env (amServerUrl a) = normalizeAccountServerUrl env url) accounts"

definition findAccountByServerEmail ::
  "'w store_env \<Rightarrow> account_metadata list \<Rightarrow> string \<Rightarrow> string \<Rightarrow> js_error + account_metadata option" where
  "findAccountByServerEmail env accounts url email =
     (let u = normalizeAccountServerUrl env url; e = map to_lower_char (trim email);
          matches = filter (\<lambda>a. normalizeAccountServerUrl env (amServerUrl a) = u \<and>
            map to_lower_char (trim (amEmail a)) = e) accounts
      in if length matches > 1
         then Inl (JsError (''Ambiguous account for server and email: '' @ u @ '' '' @ e))
         else Inr (case matches of [] \<Rightarrow> None | a # _ \<Rightarrow> Some a))"

definition resolveOrCreateAccountId ::
  "'w store_env \<Rightarrow> account_metadata list \<Rightarrow> string \<Rightarrow> string \<Rightarrow> (js_error, 'w, string) act" where
  "resolveOrCreateAccountId env accounts url user =
     (case findAccountByServerUser env accounts url user of
        Some a \<Rightarrow> ok (amAccountId a) | None \<Rightarrow> seGenerateAccountId env)"

definition resolveActiveAccountId :: "string \<Rightarrow> account_metadata list \<Rightarrow> string option" where
  "resolveActiveAccountId acc accounts =
     (case findAccountById accounts acc of None \<Rightarrow> None | Some _ \<Rightarrow> Some acc)"

section \<open>Accounts and sessions as stored\<close>

definition destroyKey :: "'w store_env \<Rightarrow> key_ref option \<Rightarrow> ('w, unit) store_act" where
  "destroyKey env key = (case key of
       None \<Rightarrow> ok ()
     | Some k \<Rightarrow> catch (in_store_world (cpDestroyKey (seCrypto env) k)) (\<lambda>_. ok ()))"

definition getActiveAccount :: "'w store_env \<Rightarrow> ('w, string option) store_act" where
  "getActiveAccount env = and_then (readGlobal env Active_account) (\<lambda>raw.
     ok (case raw of None \<Rightarrow> None | Some t \<Rightarrow> if text_of t = [] then None else Some (text_of t)))"

definition resolveAccountId :: "'w store_env \<Rightarrow> string option \<Rightarrow> ('w, string option) store_act" where
  "resolveAccountId env acc = (if absent acc then getActiveAccount env else ok acc)"

definition requireAccountId :: "'w store_env \<Rightarrow> string option \<Rightarrow> ('w, string) store_act" where
  "requireAccountId env acc = and_then (resolveAccountId env acc) (\<lambda>r. case r of
       None \<Rightarrow> throw (JsError ''No account specified'') | Some a \<Rightarrow> ok a)"

text \<open>The early return of a method that has no account to work on.\<close>

definition for_account ::
  "'w store_env \<Rightarrow> string option \<Rightarrow> 'a \<Rightarrow> (string \<Rightarrow> ('w, 'a) store_act) \<Rightarrow> ('w, 'a) store_act" where
  "for_account env acc otherwise f = and_then (resolveAccountId env acc) (\<lambda>r. case r of
       None \<Rightarrow> ok otherwise | Some a \<Rightarrow> f a)"

definition loadDeviceKey :: "'w store_env \<Rightarrow> ('w, key_ref) store_act" where
  "loadDeviceKey env = and_then (readGlobal env Device_key) (\<lambda>stored.
     if stored \<noteq> None \<and> text_of (the stored) \<noteq> []
     then (case base64ToArrayBuffer (text_of (the stored)) of
         None \<Rightarrow> throw (JsError ''The string to be decoded is not correctly encoded.'')
       | Some bytes \<Rightarrow> in_store_world (cpImportKey (seCrypto env) bytes))
     else and_then (in_store_world (cpGenerateEncryptionKey (seCrypto env))) (\<lambda>generated.
       catch
         (and_then (in_store_world (cpExportKey (seCrypto env) generated)) (\<lambda>exported.
          and_then (writeGlobal env Device_key (PlainText (arrayBufferToBase64 exported))) (\<lambda>_.
          ok generated)))
         (\<lambda>error. and_then (destroyKey env (Some generated)) (\<lambda>_. throw error))))"

definition getDeviceKey :: "'w store_env \<Rightarrow> ('w, key_ref) store_act" where
  "getDeviceKey env = and_then (get_state deviceKeyCache) (\<lambda>cached. case cached of
       Some k \<Rightarrow> ok k
     | None \<Rightarrow> and_then (loadDeviceKey env) (\<lambda>k.
         and_then (put_state (\<lambda>s. s\<lparr>deviceKeyCache := Some k\<rparr>)) (\<lambda>_. ok k)))"

definition readAccountsList :: "'w store_env \<Rightarrow> ('w, account_metadata list) store_act" where
  "readAccountsList env = and_then (readGlobal env Accounts_list) (\<lambda>raw.
     ok (case Option.bind raw parse_accounts of
         None \<Rightarrow> []
       | Some d \<Rightarrow>
           if adVersion d \<noteq> Some ACCOUNTS_LIST_VERSION \<or>
              list_ex (\<lambda>a. amServerUrl a = [] \<or> amInsecureTransportConfirmed a = None) (adAccounts d)
           then [] else adAccounts d))"

definition resolve_session :: "'w store_env \<Rightarrow> session_document \<Rightarrow> resolved_session" where
  "resolve_session env d =
     \<lparr>ssEncryptedMasterUnlockKey = sdEncryptedMasterUnlockKey d, ssEmail = sdEmail d,
      ssUserId = sdUserId d, ssSessionId = sdSessionId d,
      ssExpiresAt = resolveStoredSessionExpiryTimestamp env (sdExpiresAt d) (sdCreatedAt d),
      ssServerExpiresAt = (case sdServerExpiresAt d of None \<Rightarrow> None
        | Some e \<Rightarrow> Some (resolveStoredSessionExpiryTimestamp env (Some e) (sdCreatedAt d))),
      ssCreatedAt = sdCreatedAt d, ssBiometricEnabled = sdBiometricEnabled d,
      ssLastMasterPasswordEntry = sdLastMasterPasswordEntry d\<rparr>"

definition session_json :: "resolved_session \<Rightarrow> session_document" where
  "session_json s =
     \<lparr>sdEncryptedMasterUnlockKey = ssEncryptedMasterUnlockKey s, sdEmail = ssEmail s,
      sdUserId = ssUserId s, sdSessionId = ssSessionId s,
      sdExpiresAt = Some (ExpiryNumber (ssExpiresAt s)),
      sdServerExpiresAt = map_option ExpiryNumber (ssServerExpiresAt s),
      sdCreatedAt = ssCreatedAt s, sdBiometricEnabled = ssBiometricEnabled s,
      sdLastMasterPasswordEntry = ssLastMasterPasswordEntry s\<rparr>"

definition getStoredSessionData :: "'w store_env \<Rightarrow> string option \<Rightarrow> ('w, resolved_session option) store_act" where
  "getStoredSessionData env acc = for_account env acc None (\<lambda>a.
     and_then (readAccount env Session_data a) (\<lambda>raw.
     ok (map_option (resolve_session env) (Option.bind raw parse_session))))"

definition writeSessionData :: "'w store_env \<Rightarrow> string \<Rightarrow> resolved_session \<Rightarrow> ('w, unit) store_act" where
  "writeSessionData env acc session =
     writeAccount env Session_data acc (SessionText (session_json session))"

definition getAuthToken :: "'w store_env \<Rightarrow> string option \<Rightarrow> ('w, stored_text option) store_act" where
  "getAuthToken env acc = for_account env acc None (readAccount env Jwt_token)"

definition isSessionValid :: "'w store_env \<Rightarrow> string option \<Rightarrow> ('w, bool) store_act" where
  "isSessionValid env acc = for_account env acc False (\<lambda>a.
     and_then (getStoredSessionData env (Some a)) (\<lambda>session.
     and_then (getAuthToken env (Some a)) (\<lambda>token.
     case session of None \<Rightarrow> ok False
     | Some s \<Rightarrow>
         if token = None \<or> text_of (the token) = [] then ok False
         else and_then (nowOf env) (\<lambda>t. ok (t < effectiveSessionExpiry s)))))"

definition getAutoLockTimeout :: "'w store_env \<Rightarrow> string option \<Rightarrow> ('w, int option) store_act" where
  "getAutoLockTimeout env acc = for_account env acc None (\<lambda>a.
     and_then (readAccount env Auto_lock_timeout a) (\<lambda>raw. ok (parseStoredNumber raw)))"

definition getAutoLockTimeoutOrDefault :: "'w store_env \<Rightarrow> string option \<Rightarrow> ('w, int) store_act" where
  "getAutoLockTimeoutOrDefault env acc = and_then (getAutoLockTimeout env acc) (\<lambda>t.
     ok (coalesce t DEFAULT_AUTO_LOCK_TIMEOUT_MS))"

definition getMasterPasswordReentryPeriodMs :: "'w store_env \<Rightarrow> ('w, int) store_act" where
  "getMasterPasswordReentryPeriodMs env = and_then (readGlobal env Master_password_reentry_period_ms)
     (\<lambda>raw. ok (coalesce (parseStoredNumber raw) MASTER_PASSWORD_REENTRY_PERIOD_MS))"

definition isBiometricEnabled :: "'w store_env \<Rightarrow> string option \<Rightarrow> ('w, bool) store_act" where
  "isBiometricEnabled env acc = for_account env acc False (\<lambda>a.
     and_then (readAccount env Biometric_enabled a) (\<lambda>raw. ok (raw = Some (PlainText ''true''))))"

section \<open>The native view and the unlocked set\<close>

definition native_account_of :: "'w store_env \<Rightarrow> account_metadata \<Rightarrow> bool \<Rightarrow> native_account" where
  "native_account_of env a enabled = (let acc = amAccountId a in
     \<lparr>naAccountId = acc, naEmail = amEmail a, naUserId = amUserId a, naName = amName a,
      naSecretKeyHint = amSecretKeyHint a, naTeamName = amTeamName a,
      naTeamAvatarUrl = amTeamAvatarUrl a, naAddedAt = amAddedAt a,
      naLastActiveAt = amLastActiveAt a, naBiometricEnabled = enabled,
      naToken = keyRefFor env Jwt_token (accountKey acc Jwt_token),
      naSessionData = keyRefFor env Session_data (accountKey acc Session_data),
      naVaultKeys = keyRefFor env Vault_keys (accountKey acc Vault_keys),
      naEncryptedPrivateKey = keyRefFor env Encrypted_private_key (accountKey acc Encrypted_private_key),
      naItemCacheState =
        \<lparr>nkKey = recordKeyFor env (metaCollection acc) ''meta'', nkStore = PlainTier\<rparr>\<rparr>)"

definition refreshNativeView :: "'w store_env \<Rightarrow> string list \<Rightarrow> ('w, unit) store_act" where
  "refreshNativeView env unlocked =
     and_then (readAccountsList env) (\<lambda>accounts.
     and_then (getActiveAccount env) (\<lambda>active.
     and_then (getAutoLockTimeoutOrDefault env active) (\<lambda>timeout.
     and_then (map_each accounts (\<lambda>a.
       and_then (isBiometricEnabled env (Some (amAccountId a))) (\<lambda>enabled.
       ok (native_account_of env a enabled)))) (\<lambda>projected.
     writeGlobal env Native_view (ViewText
       \<lparr>nhVersion = NATIVE_VIEW_VERSION, nhActiveAccountId = active, nhUnlockedAccountIds = unlocked,
        nhAutoLockTimeoutMs = timeout, nhDeviceKey = keyRefFor env Device_key (globalKey Device_key),
        nhAccounts = projected\<rparr>)))))"

definition unlocked_ids :: "'w account_store \<Rightarrow> string list" where
  "unlocked_ids s = map fst (mukCache s)"

text \<open>The default argument: the ids unlocked when the call is made.\<close>

definition refresh_view :: "'w store_env \<Rightarrow> ('w, unit) store_act" where
  "refresh_view env = and_then (get_state unlocked_ids) (refreshNativeView env)"

definition notifyUnlockListeners :: "('w, unit) store_act" where
  "notifyUnlockListeners = put_state (\<lambda>s. s\<lparr>unlockNotices := unlockNotices s @ [unlocked_ids s]\<rparr>)"

definition next_unlocked :: "string \<Rightarrow> key_ref option \<Rightarrow> string list \<Rightarrow> string list" where
  "next_unlocked acc entry ids = (case entry of
       None \<Rightarrow> filter (\<lambda>i. i \<noteq> acc) ids
     | Some _ \<Rightarrow> if acc \<in> set ids then ids else ids @ [acc])"

text \<open>setUnlockEntry up to the publication it awaits, with the entry it found, and the rest.\<close>

definition publishUnlock :: "'w store_env \<Rightarrow> string \<Rightarrow> key_ref option \<Rightarrow> ('w, key_ref option) store_act" where
  "publishUnlock env acc entry = and_then (get_state (\<lambda>s. js_get (mukCache s) acc)) (\<lambda>previous.
     and_then (get_state (\<lambda>s. next_unlocked acc entry (unlocked_ids s))) (\<lambda>nextUnlocked.
     and_then (refreshNativeView env nextUnlocked) (\<lambda>_. ok previous)))"

definition cache_entry :: "string \<Rightarrow> key_ref option \<Rightarrow> 'w account_store \<Rightarrow> 'w account_store" where
  "cache_entry acc entry s = s\<lparr>mukCache := (case entry of
       None \<Rightarrow> js_delete acc (mukCache s) | Some k \<Rightarrow> js_set acc k (mukCache s))\<rparr>"

definition takeUnlock ::
  "'w store_env \<Rightarrow> string \<Rightarrow> key_ref option \<Rightarrow> key_ref option \<Rightarrow> ('w, unit) store_act" where
  "takeUnlock env acc entry previous =
     and_then (if previous \<noteq> entry then destroyKey env previous else ok ()) (\<lambda>_.
     and_then (put_state (cache_entry acc entry)) (\<lambda>_. notifyUnlockListeners))"

definition setUnlockEntry :: "'w store_env \<Rightarrow> string \<Rightarrow> key_ref option \<Rightarrow> ('w, unit) store_act" where
  "setUnlockEntry env acc entry = and_then (publishUnlock env acc entry) (takeUnlock env acc entry)"

definition writeAccountsList :: "'w store_env \<Rightarrow> account_metadata list \<Rightarrow> ('w, unit) store_act" where
  "writeAccountsList env accounts =
     and_then (writeGlobal env Accounts_list (AccountsText
       \<lparr>adVersion = Some ACCOUNTS_LIST_VERSION, adAccounts = accounts\<rparr>)) (\<lambda>_. refresh_view env)"

definition writeActiveAccount :: "'w store_env \<Rightarrow> string option \<Rightarrow> ('w, unit) store_act" where
  "writeActiveAccount env acc =
     and_then (if absent acc then deleteGlobal env Active_account
               else writeGlobal env Active_account (PlainText (the acc))) (\<lambda>_. refresh_view env)"

end
