(* ===== verification/AccountStoreOps.thy ===== *)
theory AccountStoreOps
  imports AccountStore
begin

text \<open>
  The methods createAccountStore returns: accounts, sessions, the unlocked set, secrets, settings
  and biometrics, each composed of the helpers of AccountStore as the code composes them.
\<close>

section \<open>Biometrics and re-entry\<close>

definition with_biometric :: "bool \<Rightarrow> account_metadata list \<Rightarrow> string \<Rightarrow> account_metadata list" where
  "with_biometric enabled accounts acc = (case find_index (\<lambda>_ a. amAccountId a = acc) accounts of
       None \<Rightarrow> accounts
     | Some i \<Rightarrow> accounts[i := (accounts ! i)\<lparr>amBiometricEnabled := enabled\<rparr>])"

definition setBiometricEnabled :: "'w store_env \<Rightarrow> string \<Rightarrow> bool \<Rightarrow> ('w, unit) store_act" where
  "setBiometricEnabled env acc enabled =
     and_then (writeAccount env Biometric_enabled acc (PlainText (if enabled then ''true'' else ''false''))) (\<lambda>_.
     and_then (readAccountsList env) (\<lambda>accounts.
     and_then (case findAccountById accounts acc of
         None \<Rightarrow> ok ()
       | Some a \<Rightarrow> if amBiometricEnabled a \<noteq> enabled
           then writeAccountsList env (with_biometric enabled accounts acc) else ok ()) (\<lambda>_.
     and_then (getStoredSessionData env (Some acc)) (\<lambda>session.
     and_then (case session of
         None \<Rightarrow> ok ()
       | Some s \<Rightarrow> if ssBiometricEnabled s \<noteq> Some enabled
           then writeSessionData env acc (s\<lparr>ssBiometricEnabled := Some enabled\<rparr>) else ok ()) (\<lambda>_.
     refresh_view env)))))"

definition session_wants_biometric :: "resolved_session \<Rightarrow> bool" where
  "session_wants_biometric s = (ssBiometricEnabled s = Some True)"

definition isBiometricAuthRequired :: "'w store_env \<Rightarrow> string \<Rightarrow> ('w, bool) store_act" where
  "isBiometricAuthRequired env acc = and_then (getStoredSessionData env (Some acc)) (\<lambda>session.
     if session = None \<or> \<not> session_wants_biometric (the session) then ok False
     else and_then (readAccount env Last_biometric_auth acc) (\<lambda>raw.
       case parseStoredNumber raw of
         None \<Rightarrow> ok True
       | Some lastAuth \<Rightarrow> and_then (nowOf env) (\<lambda>t. ok (t - lastAuth > BIOMETRIC_GRACE_PERIOD_MS))))"

definition authenticateWithBiometric :: "'w store_env \<Rightarrow> string \<Rightarrow> string option \<Rightarrow> ('w, bool) store_act" where
  "authenticateWithBiometric env reason acc = catch
     (for_account env acc False (\<lambda>a.
        and_then (in_store_world (bioAuthenticate (sePort env) reason)) (\<lambda>result.
        if \<not> bpSuccess result then ok False
        else and_then (nowOf env) (\<lambda>t.
             and_then (writeAccount env Last_biometric_auth a (PlainText (int_text t))) (\<lambda>_. ok True)))))
     (\<lambda>_. ok False)"

definition isMasterPasswordReentryRequired :: "'w store_env \<Rightarrow> string option \<Rightarrow> ('w, bool) store_act" where
  "isMasterPasswordReentryRequired env acc = for_account env acc False (\<lambda>a.
     and_then (getStoredSessionData env (Some a)) (\<lambda>session. case session of
       None \<Rightarrow> ok False
     | Some s \<Rightarrow>
         if \<not> session_wants_biometric s then ok False
         else and_then (getMasterPasswordReentryPeriodMs env) (\<lambda>periodMs.
           if periodMs < 0 then ok False
           else and_then (nowOf env) (\<lambda>t.
             ok (t - coalesce (ssLastMasterPasswordEntry s) (ssCreatedAt s) \<ge> periodMs)))))"

definition canBiometricUnlock :: "'w store_env \<Rightarrow> string option \<Rightarrow> ('w, bool) store_act" where
  "canBiometricUnlock env acc =
     and_then (in_store_world (bioIsAvailable (sePort env))) (\<lambda>available.
     and_then (isBiometricEnabled env acc) (\<lambda>enabled.
     and_then (isSessionValid env acc) (\<lambda>sessionValid.
     ok (available \<and> enabled \<and> sessionValid))))"

section \<open>The master unlock key\<close>

text \<open>The biometric check that stands before the stored key: True when it may be unwrapped.\<close>

definition pass_biometric :: "'w store_env \<Rightarrow> resolved_session \<Rightarrow> bool \<Rightarrow> string \<Rightarrow> string \<Rightarrow> ('w, bool) store_act" where
  "pass_biometric env session skipBiometric reason acc =
     (if \<not> skipBiometric \<and> session_wants_biometric session
      then and_then (isBiometricAuthRequired env acc) (\<lambda>required.
        if required then authenticateWithBiometric env reason (Some acc) else ok True)
      else ok True)"

definition unwrap_stored :: "'w store_env \<Rightarrow> resolved_session \<Rightarrow> ('w, key_ref option) store_act" where
  "unwrap_stored env session = catch
     (and_then (getDeviceKey env) (\<lambda>deviceKey.
      and_then (in_store_world (cpUnwrapKey (seCrypto env) (ssEncryptedMasterUnlockKey session) deviceKey None))
      (\<lambda>k. ok (Some k))))
     (\<lambda>_. ok None)"

definition decryptStoredMasterUnlockKey ::
  "'w store_env \<Rightarrow> string option \<Rightarrow> bool \<Rightarrow> string \<Rightarrow> ('w, key_ref option) store_act" where
  "decryptStoredMasterUnlockKey env acc skipBiometric reason = for_account env acc None (\<lambda>a.
     and_then (getStoredSessionData env (Some a)) (\<lambda>session. case session of
       None \<Rightarrow> ok None
     | Some s \<Rightarrow>
         and_then (isMasterPasswordReentryRequired env (Some a)) (\<lambda>reentry.
         if reentry then ok None
         else and_then (pass_biometric env s skipBiometric reason a) (\<lambda>passed.
           if \<not> passed then ok None else unwrap_stored env s))))"

definition getMasterUnlockKey :: "'w store_env \<Rightarrow> string option \<Rightarrow> ('w, key_ref option) store_act" where
  "getMasterUnlockKey env acc = for_account env acc None (\<lambda>a. get_state (\<lambda>s. js_get (mukCache s) a))"

definition setMasterUnlockKey :: "'w store_env \<Rightarrow> key_ref \<Rightarrow> string option \<Rightarrow> ('w, unit) store_act" where
  "setMasterUnlockKey env key acc =
     and_then (requireAccountId env acc) (\<lambda>a. setUnlockEntry env a (Some key))"

definition clearMasterUnlockKey :: "'w store_env \<Rightarrow> string option \<Rightarrow> ('w, unit) store_act" where
  "clearMasterUnlockKey env acc = for_account env acc () (\<lambda>a. setUnlockEntry env a None)"

definition lockAllAccounts :: "'w store_env \<Rightarrow> ('w, unit) store_act" where
  "lockAllAccounts env =
     and_then (get_state (\<lambda>s. map snd (mukCache s))) (\<lambda>entries.
     and_then (for_each entries (\<lambda>k. destroyKey env (Some k))) (\<lambda>_.
     and_then (put_state (\<lambda>s. s\<lparr>mukCache := []\<rparr>)) (\<lambda>_.
     and_then (readAccountsList env) (\<lambda>accounts.
     and_then (for_each accounts (\<lambda>a. deleteAccount env Last_biometric_auth (amAccountId a))) (\<lambda>_.
     and_then (refresh_view env) (\<lambda>_. notifyUnlockListeners))))))"

definition getUnlockedAccounts :: "('w, string list) store_act" where
  "getUnlockedAccounts = get_state unlocked_ids"

section \<open>Sessions\<close>

definition tryRestoreSession :: "'w store_env \<Rightarrow> bool \<Rightarrow> string option \<Rightarrow> ('w, bool) store_act" where
  "tryRestoreSession env skipBiometric acc = for_account env acc False (\<lambda>a.
     and_then (isSessionValid env (Some a)) (\<lambda>valid.
     if \<not> valid then ok False
     else and_then (get_state (\<lambda>s. js_has (mukCache s) a)) (\<lambda>unlocked.
       if unlocked then ok True
       else and_then (decryptStoredMasterUnlockKey env (Some a) skipBiometric ''Unlock your vault'') (\<lambda>muk.
         case muk of None \<Rightarrow> ok False
         | Some k \<Rightarrow> and_then (setUnlockEntry env a (Some k)) (\<lambda>_. ok True)))))"

definition tryRestoreSessionWithoutPrompt :: "'w store_env \<Rightarrow> string option \<Rightarrow> ('w, bool) store_act" where
  "tryRestoreSessionWithoutPrompt env acc = for_account env acc False (\<lambda>a.
     and_then (get_state (\<lambda>s. js_has (mukCache s) a)) (\<lambda>unlocked.
     if unlocked then ok True
     else and_then (isBiometricAuthRequired env a) (\<lambda>required.
       if required then ok False else tryRestoreSession env True (Some a))))"

definition storeSessionData ::
  "'w store_env \<Rightarrow> key_ref \<Rightarrow> string \<Rightarrow> string \<Rightarrow> string \<Rightarrow> session_expiry option \<Rightarrow> string option \<Rightarrow>
   ('w, unit) store_act" where
  "storeSessionData env muk acc email user expiresAt session =
     and_then (requireAccountId env (Some acc)) (\<lambda>a.
     and_then (getDeviceKey env) (\<lambda>deviceKey.
     and_then (nowOf env) (\<lambda>currentTime.
     and_then (in_store_world (cpWrapKey (seCrypto env) muk deviceKey None)) (\<lambda>encrypted.
     and_then (isBiometricEnabled env (Some a)) (\<lambda>enabled.
     writeSessionData env a
       \<lparr>ssEncryptedMasterUnlockKey = encrypted, ssEmail = map to_lower_char email, ssUserId = user,
        ssSessionId = session, ssExpiresAt = currentTime + DEFAULT_SESSION_EXPIRY_MS,
        ssServerExpiresAt = Some (resolveStoredSessionExpiryTimestamp env expiresAt currentTime),
        ssCreatedAt = currentTime, ssBiometricEnabled = Some enabled,
        ssLastMasterPasswordEntry = Some currentTime\<rparr>)))))"

definition updateStoredSessionMetadata ::
  "'w store_env \<Rightarrow> string \<Rightarrow> string option \<Rightarrow> session_expiry \<Rightarrow> ('w, unit) store_act" where
  "updateStoredSessionMetadata env acc session expiresAt =
     and_then (getStoredSessionData env (Some acc)) (\<lambda>existing. case existing of
       None \<Rightarrow> ok ()
     | Some s \<Rightarrow> writeSessionData env acc
         (s\<lparr>ssSessionId := (case session of None \<Rightarrow> ssSessionId s | Some i \<Rightarrow> Some i),
            ssServerExpiresAt :=
              Some (resolveStoredSessionExpiryTimestamp env (Some expiresAt) (ssCreatedAt s))\<rparr>))"

definition isAuthenticated :: "'w store_env \<Rightarrow> string option \<Rightarrow> ('w, bool) store_act" where
  "isAuthenticated env acc = and_then (getAuthToken env acc) (\<lambda>t. ok (t \<noteq> None))"

definition getStoredSecretKey :: "'w store_env \<Rightarrow> string option \<Rightarrow> ('w, stored_text option) store_act" where
  "getStoredSecretKey env acc = for_account env acc None (readAccount env Secret_key)"

definition canQuickUnlock :: "'w store_env \<Rightarrow> string option \<Rightarrow> ('w, bool) store_act" where
  "canQuickUnlock env acc = and_then (getStoredSecretKey env acc) (\<lambda>key.
     if key = None then ok False
     else and_then (getStoredSessionData env acc) (\<lambda>session. case session of
         None \<Rightarrow> ok False
       | Some s \<Rightarrow> and_then (nowOf env) (\<lambda>t. ok (t < effectiveSessionExpiry s))))"

definition clearSession :: "'w store_env \<Rightarrow> string option \<Rightarrow> ('w, unit) store_act" where
  "clearSession env acc = for_account env acc () (\<lambda>a.
     and_then (deleteAccount env Jwt_token a) (\<lambda>_.
     and_then (deleteAccount env Vault_keys a) (\<lambda>_.
     and_then (deleteAccount env Encrypted_private_key a) (\<lambda>_.
     and_then (deleteAccount env Last_biometric_auth a) (\<lambda>_.
     and_then (get_state (\<lambda>s. js_has (mukCache s) a)) (\<lambda>unlocked.
     if unlocked then setUnlockEntry env a None else ok ()))))))"

definition forgetSession :: "'w store_env \<Rightarrow> string option \<Rightarrow> ('w, unit) store_act" where
  "forgetSession env acc = for_account env acc () (\<lambda>a.
     and_then (clearSession env (Some a)) (\<lambda>_. deleteAccount env Session_data a))"

section \<open>Accounts\<close>

definition initialize :: "'w store_env \<Rightarrow> ('w, unit) store_act" where
  "initialize env = (case assertTiersHonoured (ppTiers (sePort env)) of
       Inl e \<Rightarrow> throw e
     | Inr _ \<Rightarrow> and_then (in_store_world (ppInitialize (sePort env))) (\<lambda>_. refresh_view env))"

definition touched :: "int \<Rightarrow> account_metadata list \<Rightarrow> string \<Rightarrow> account_metadata list" where
  "touched t accounts acc = (case find_index (\<lambda>_ a. amAccountId a = acc) accounts of
       None \<Rightarrow> accounts | Some i \<Rightarrow> accounts[i := (accounts ! i)\<lparr>amLastActiveAt := t\<rparr>])"

definition setActiveAccount :: "'w store_env \<Rightarrow> string option \<Rightarrow> ('w, unit) store_act" where
  "setActiveAccount env acc = and_then (writeActiveAccount env acc) (\<lambda>_.
     if absent acc then ok ()
     else and_then (readAccountsList env) (\<lambda>accounts.
       case findAccountById accounts (the acc) of
         None \<Rightarrow> ok ()
       | Some _ \<Rightarrow> and_then (nowOf env) (\<lambda>t. writeAccountsList env (touched t accounts (the acc)))))"

definition getActiveAccountUserId :: "'w store_env \<Rightarrow> ('w, string option) store_act" where
  "getActiveAccountUserId env = and_then (getActiveAccount env) (\<lambda>active. case active of
       None \<Rightarrow> ok None
     | Some a \<Rightarrow>
         and_then (getStoredSessionData env (Some a)) (\<lambda>session.
         if session \<noteq> None \<and> ssUserId (the session) \<noteq> [] then ok (Some (ssUserId (the session)))
         else and_then (readAccountsList env) (\<lambda>accounts.
           ok (map_option amUserId (findAccountById accounts a)))))"

definition getAccountMetadata :: "'w store_env \<Rightarrow> string \<Rightarrow> ('w, account_metadata option) store_act" where
  "getAccountMetadata env acc = and_then (readAccountsList env) (\<lambda>accounts. ok (findAccountById accounts acc))"

definition placed :: "account_metadata option \<Rightarrow> string \<Rightarrow> account_metadata \<Rightarrow> account_metadata list \<Rightarrow> account_metadata list" where
  "placed existing acc a accounts = (case existing of
       None \<Rightarrow> accounts @ [a]
     | Some _ \<Rightarrow> (case find_index (\<lambda>_ b. amAccountId b = acc) accounts of
         None \<Rightarrow> accounts | Some i \<Rightarrow> accounts[i := a]))"

definition addAccount :: "'w store_env \<Rightarrow> account_metadata \<Rightarrow> ('w, unit) store_act" where
  "addAccount env metadata =
     and_then (readAccountsList env) (\<lambda>accounts.
     and_then (if amAccountId metadata \<noteq> [] then ok metadata
               else and_then (in_store_world (seGenerateAccountId env)) (\<lambda>i.
                 ok (metadata\<lparr>amAccountId := i\<rparr>))) (\<lambda>withId.
     let byId = findAccountById accounts (amAccountId withId);
         byUser = (if amServerUrl withId \<noteq> [] \<and> amUserId withId \<noteq> []
           then findAccountByServerUser env accounts (amServerUrl withId) (amUserId withId) else None);
         existing = (if byId \<noteq> None then byId else byUser);
         acc = (case existing of None \<Rightarrow> amAccountId withId | Some a \<Rightarrow> amAccountId a)
     in and_then (readAccount env Biometric_enabled acc) (\<lambda>stored.
        let enabled = (if stored = None then amBiometricEnabled withId else stored = Some (PlainText ''true''))
        in and_then (if stored = None
             then writeAccount env Biometric_enabled acc (PlainText (if enabled then ''true'' else ''false''))
             else ok ()) (\<lambda>_.
           writeAccountsList env (placed existing acc
             (withId\<lparr>amAccountId := acc, amBiometricEnabled := enabled\<rparr>) accounts)))))"

definition setInsecureTransportConfirmed :: "'w store_env \<Rightarrow> string \<Rightarrow> bool \<Rightarrow> ('w, unit) store_act" where
  "setInsecureTransportConfirmed env acc confirmed = and_then (readAccountsList env) (\<lambda>accounts.
     case find_index (\<lambda>_ a. amAccountId a = acc) accounts of
       None \<Rightarrow> throw (JsError ''Account not found'')
     | Some i \<Rightarrow> writeAccountsList env
         (accounts[i := (accounts ! i)\<lparr>amInsecureTransportConfirmed := Some confirmed\<rparr>]))"

definition removeAccountInternal :: "'w store_env \<Rightarrow> string \<Rightarrow> ('w, unit) store_act" where
  "removeAccountInternal env acc =
     and_then (getActiveAccount env) (\<lambda>active.
     and_then (if active = Some acc then writeActiveAccount env None else ok ()) (\<lambda>_.
     and_then (for_each ACCOUNT_VALUES (\<lambda>n. deleteAccount env n acc)) (\<lambda>_.
     and_then (get_state (\<lambda>s. js_get (mukCache s) acc)) (\<lambda>entry.
     and_then (destroyKey env entry) (\<lambda>_.
     and_then (put_state (cache_entry acc None)) (\<lambda>_.
     and_then (readAccountsList env) (\<lambda>accounts.
     and_then (writeAccountsList env (filter (\<lambda>a. amAccountId a \<noteq> acc) accounts)) (\<lambda>_.
     if entry \<noteq> None then notifyUnlockListeners else ok ()))))))))"

definition clearAllStoredData :: "'w store_env \<Rightarrow> string option \<Rightarrow> ('w, unit) store_act" where
  "clearAllStoredData env acc =
     and_then (resolveAccountId env acc) (\<lambda>resolved.
     and_then (case resolved of None \<Rightarrow> ok () | Some a \<Rightarrow> removeAccountInternal env a) (\<lambda>_.
     and_then (readAccountsList env) (\<lambda>accounts.
     if accounts \<noteq> [] then ok ()
     else and_then (deleteGlobal env Device_key) (\<lambda>_.
          and_then (get_state deviceKeyCache) (\<lambda>cached.
          and_then (destroyKey env cached) (\<lambda>_.
          and_then (put_state (\<lambda>s. s\<lparr>deviceKeyCache := None\<rparr>)) (\<lambda>_.
          writeActiveAccount env None)))))))"

section \<open>Secrets and settings\<close>

definition storeSecretKey :: "'w store_env \<Rightarrow> string \<Rightarrow> string option \<Rightarrow> ('w, unit) store_act" where
  "storeSecretKey env key acc =
     and_then (requireAccountId env acc) (\<lambda>a. writeAccount env Secret_key a (PlainText key))"

definition hasStoredSecretKey :: "'w store_env \<Rightarrow> string option \<Rightarrow> ('w, bool) store_act" where
  "hasStoredSecretKey env acc = and_then (getStoredSecretKey env acc) (\<lambda>k. ok (k \<noteq> None))"

definition storeAuthToken :: "'w store_env \<Rightarrow> string \<Rightarrow> string option \<Rightarrow> ('w, unit) store_act" where
  "storeAuthToken env token acc =
     and_then (requireAccountId env acc) (\<lambda>a. writeAccount env Jwt_token a (PlainText token))"

definition writeVaultKeys :: "'w store_env \<Rightarrow> vault_key_entry list \<Rightarrow> string option \<Rightarrow> ('w, unit) store_act" where
  "writeVaultKeys env keys acc =
     and_then (requireAccountId env acc) (\<lambda>a. writeAccount env Vault_keys a (VaultKeysText keys))"

definition readVaultKeys :: "'w store_env \<Rightarrow> string option \<Rightarrow> ('w, vault_key_entry list option) store_act" where
  "readVaultKeys env acc = for_account env acc None (\<lambda>a.
     and_then (readAccount env Vault_keys a) (\<lambda>raw. ok (Option.bind raw parse_vault_keys)))"

definition storeEncryptedPrivateKey :: "'w store_env \<Rightarrow> string \<Rightarrow> string option \<Rightarrow> ('w, unit) store_act" where
  "storeEncryptedPrivateKey env key acc =
     and_then (requireAccountId env acc) (\<lambda>a. writeAccount env Encrypted_private_key a (PlainText key))"

definition getEncryptedPrivateKey :: "'w store_env \<Rightarrow> string option \<Rightarrow> ('w, stored_text option) store_act" where
  "getEncryptedPrivateKey env acc = for_account env acc None (readAccount env Encrypted_private_key)"

definition storePinnedKdfProfile :: "'w store_env \<Rightarrow> kdf_profile \<Rightarrow> string \<Rightarrow> ('w, unit) store_act" where
  "storePinnedKdfProfile env profile acc =
     writeAccount env Pinned_kdf_params acc (KdfText (untrusted profile))"

definition getPinnedKdfProfile :: "'w store_env \<Rightarrow> string \<Rightarrow> ('w, kdf_profile option) store_act" where
  "getPinnedKdfProfile env acc =
     and_then (readAccount env Pinned_kdf_params acc) (\<lambda>raw. ok (parseStoredKdfProfile raw))"

definition storeAutoLockTimeout :: "'w store_env \<Rightarrow> int \<Rightarrow> string option \<Rightarrow> ('w, unit) store_act" where
  "storeAutoLockTimeout env ms acc =
     and_then (requireAccountId env acc) (\<lambda>a.
     and_then (writeAccount env Auto_lock_timeout a (PlainText (int_text ms))) (\<lambda>_. refresh_view env))"

definition storeServerUrl :: "'w store_env \<Rightarrow> string \<Rightarrow> string option \<Rightarrow> ('w, unit) store_act" where
  "storeServerUrl env url acc =
     and_then (requireAccountId env acc) (\<lambda>a. writeAccount env Server_url a (PlainText url))"

definition getServerUrl :: "'w store_env \<Rightarrow> string option \<Rightarrow> ('w, stored_text option) store_act" where
  "getServerUrl env acc = for_account env acc None (readAccount env Server_url)"

definition storeMasterPasswordReentryPeriodMs :: "'w store_env \<Rightarrow> int \<Rightarrow> ('w, unit) store_act" where
  "storeMasterPasswordReentryPeriodMs env periodMs =
     writeGlobal env Master_password_reentry_period_ms (PlainText (int_text periodMs))"

definition updateLastMasterPasswordEntry :: "'w store_env \<Rightarrow> string option \<Rightarrow> ('w, unit) store_act" where
  "updateLastMasterPasswordEntry env acc = for_account env acc () (\<lambda>a.
     and_then (getStoredSessionData env (Some a)) (\<lambda>session. case session of
       None \<Rightarrow> ok ()
     | Some s \<Rightarrow> and_then (nowOf env) (\<lambda>t.
         writeSessionData env a (s\<lparr>ssLastMasterPasswordEntry := Some t\<rparr>))))"

definition storeTravelModeCache :: "'w store_env \<Rightarrow> travel_config \<Rightarrow> string option \<Rightarrow> ('w, unit) store_act" where
  "storeTravelModeCache env config acc =
     and_then (requireAccountId env acc) (\<lambda>a. writeAccount env Travel_mode_cache a (TravelText config))"

definition getTravelModeCache :: "'w store_env \<Rightarrow> string option \<Rightarrow> ('w, travel_config option) store_act" where
  "getTravelModeCache env acc = for_account env acc None (\<lambda>a.
     and_then (readAccount env Travel_mode_cache a) (\<lambda>raw. ok (Option.bind raw parse_travel)))"

definition storeBackgroundTimestamp :: "'w store_env \<Rightarrow> string option \<Rightarrow> ('w, unit) store_act" where
  "storeBackgroundTimestamp env acc = for_account env acc () (\<lambda>a.
     and_then (nowOf env) (\<lambda>t. writeAccount env Background_timestamp a (PlainText (int_text t))))"

definition getBackgroundTimestamp :: "'w store_env \<Rightarrow> string option \<Rightarrow> ('w, int option) store_act" where
  "getBackgroundTimestamp env acc = for_account env acc None (\<lambda>a.
     and_then (readAccount env Background_timestamp a) (\<lambda>raw. ok (parseStoredNumber raw)))"

definition clearBackgroundTimestamp :: "'w store_env \<Rightarrow> string option \<Rightarrow> ('w, unit) store_act" where
  "clearBackgroundTimestamp env acc = for_account env acc () (deleteAccount env Background_timestamp)"

section \<open>Biometric unlock\<close>

definition isBiometricAvailable :: "'w store_env \<Rightarrow> ('w, bool) store_act" where
  "isBiometricAvailable env = in_store_world (bioIsAvailable (sePort env))"

definition getBiometricAvailabilityDetails :: "'w store_env \<Rightarrow> ('w, biometric_details) store_act" where
  "getBiometricAvailabilityDetails env = in_store_world (bioGetDetails (sePort env))"

definition getBiometricType :: "'w store_env \<Rightarrow> ('w, string option) store_act" where
  "getBiometricType env = in_store_world (bioGetType (sePort env))"

definition enableBiometric :: "'w store_env \<Rightarrow> string option \<Rightarrow> ('w, unit) store_act" where
  "enableBiometric env acc = and_then (requireAccountId env acc) (\<lambda>a.
     and_then (in_store_world (bioIsAvailable (sePort env))) (\<lambda>available.
     if \<not> available then ok () else setBiometricEnabled env a True))"

definition disableBiometric :: "'w store_env \<Rightarrow> string option \<Rightarrow> ('w, unit) store_act" where
  "disableBiometric env acc = and_then (requireAccountId env acc) (\<lambda>a. setBiometricEnabled env a False)"

definition authenticateWithBiometricEnhanced ::
  "'w store_env \<Rightarrow> string \<Rightarrow> string option \<Rightarrow> ('w, biometric_auth_result) store_act" where
  "authenticateWithBiometricEnhanced env reason acc = catch
     (for_account env acc (bio_failure UnknownBiometricError ''No account specified'') (\<lambda>a.
      and_then (in_store_world (bioGetDetails (sePort env))) (\<lambda>details.
      if \<not> bdHasHardware details
      then ok (bio_failure NotAvailableError ''This device does not support biometric authentication'')
      else if \<not> bdIsEnrolled details
      then ok (bio_failure NotEnrolledError
        ''No biometrics enrolled. Please set up Face ID or Touch ID in your device settings'')
      else and_then (isBiometricEnabled env (Some a)) (\<lambda>enabled.
      if \<not> enabled
      then ok (bio_failure NotEnabledError ''Biometric authentication is not enabled for this account'')
      else and_then (isSessionValid env (Some a)) (\<lambda>valid.
      if \<not> valid
      then ok (bio_failure SessionExpiredError ''Your session has expired. Please log in again'')
      else and_then (isMasterPasswordReentryRequired env (Some a)) (\<lambda>reentry.
      if reentry
      then and_then (getMasterPasswordReentryPeriodMs env) (\<lambda>period.
        ok \<lparr>baSuccess = False, baError = Some MasterPasswordRequiredError, baMessage = None,
            baMasterPasswordReentryPeriodMs = Some period\<rparr>)
      else and_then (in_store_world (bioAuthenticate (sePort env) reason)) (\<lambda>result.
      if \<not> bpSuccess result then ok (toBiometricAuthResult result)
      else and_then (nowOf env) (\<lambda>t.
        and_then (writeAccount env Last_biometric_auth a (PlainText (int_text t))) (\<lambda>_.
        and_then (deleteAccount env Background_timestamp a) (\<lambda>_.
        ok \<lparr>baSuccess = True, baError = None, baMessage = None,
            baMasterPasswordReentryPeriodMs = None\<rparr>))))))))))
     (\<lambda>error. ok (bio_failure UnknownBiometricError (error_message error)))"

definition unlockWithBiometric :: "'w store_env \<Rightarrow> string option \<Rightarrow> string \<Rightarrow> ('w, bool) store_act" where
  "unlockWithBiometric env acc reason = catch
     (for_account env acc False (\<lambda>a.
        and_then (canBiometricUnlock env (Some a)) (\<lambda>can.
        if \<not> can then ok False
        else and_then (decryptStoredMasterUnlockKey env (Some a) False reason) (\<lambda>muk.
          case muk of None \<Rightarrow> ok False
          | Some k \<Rightarrow> and_then (setUnlockEntry env a (Some k)) (\<lambda>_. ok True)))))
     (\<lambda>_. ok False)"

text \<open>The first account biometrics can unlock; the loop stops there.\<close>

fun first_unlockable :: "'w store_env \<Rightarrow> account_metadata list \<Rightarrow> ('w, string option) store_act" where
  "first_unlockable env [] = ok None"
| "first_unlockable env (a # as) = and_then (canBiometricUnlock env (Some (amAccountId a))) (\<lambda>can.
     if can then ok (Some (amAccountId a)) else first_unlockable env as)"

definition unlock_after_prompt :: "'w store_env \<Rightarrow> string \<Rightarrow> ('w, string option) store_act" where
  "unlock_after_prompt env acc = catch
     (and_then (decryptStoredMasterUnlockKey env (Some acc) True ''Unlock your vault'') (\<lambda>muk.
        case muk of None \<Rightarrow> ok (Some ''Could not decrypt session data'')
        | Some k \<Rightarrow> and_then (setUnlockEntry env acc (Some k)) (\<lambda>_. ok None)))
     (\<lambda>error. ok (Some (error_message error)))"

definition unlock_outcome :: "account_metadata list \<Rightarrow> string option list \<Rightarrow> string list \<times> (string \<times> string) list" where
  "unlock_outcome accounts results =
     (let rs = zip (map amAccountId accounts) results
      in (map fst (filter (\<lambda>(_, r). r = None) rs),
          map (\<lambda>(i, r). (i, the r)) (filter (\<lambda>(_, r). r \<noteq> None) rs)))"

definition unlockAllAccountsWithBiometric ::
  "'w store_env \<Rightarrow> string \<Rightarrow> ('w, string list \<times> (string \<times> string) list) store_act" where
  "unlockAllAccountsWithBiometric env reason =
     and_then (readAccountsList env) (\<lambda>accounts.
     if accounts = [] then ok ([], [])
     else and_then (first_unlockable env accounts) (\<lambda>firstAccount.
       if absent firstAccount
       then ok ([], map (\<lambda>a. (amAccountId a, ''Biometric authentication not available'')) accounts)
       else and_then (authenticateWithBiometric env reason firstAccount) (\<lambda>authenticated.
         if \<not> authenticated
         then ok ([], map (\<lambda>a. (amAccountId a, ''Biometric authentication failed or cancelled'')) accounts)
         else and_then (map_each accounts (\<lambda>a. unlock_after_prompt env (amAccountId a))) (\<lambda>results.
           ok (unlock_outcome accounts results)))))"

end
