(* ===== verification/AccountStoreProps.thy ===== *)
theory AccountStoreProps
  imports AccountStoreOps
begin

text \<open>
  What the account store needs of a platform, and what its reads, its published view and its writes
  then do. A platform is seen through texts, the stored text at a place and key, and the clock; the
  locale account_platform states that the port's reads and writes do what they say, that a failed
  write does nothing, that everything else leaves the texts alone and that the clock never goes
  back. Inside it a value is addressed by its slot, and every method that only reads is a function
  of the slots.
\<close>

section \<open>Places and slots\<close>

datatype store_place = SessionKv | DeviceKv | SecretStore

definition place_of :: "'w store_env \<Rightarrow> stored_value \<Rightarrow> store_place" where
  "place_of env n = (case tier_route env n of (scope, tier) \<Rightarrow>
     if scope = SessionScope then SessionKv else if tier = SecretTier then SecretStore else DeviceKv)"

lemma secrets_stay_out_of_the_device_kv: "fst (STORAGE_TIERS n) = SecretTier \<Longrightarrow> place_of env n \<noteq> DeviceKv"
  by (simp add: place_of_def tier_route_def)

lemma settings_in_the_device_kv: "fst (STORAGE_TIERS n) = PlainTier \<Longrightarrow> place_of env n = DeviceKv"
  by (cases n) (simp_all add: place_of_def tier_route_def deriveScope_def)

type_synonym 'w store_texts = "'w \<Rightarrow> store_place \<Rightarrow> string \<Rightarrow> stored_text option"

definition calm_step :: "'w store_env \<Rightarrow> 'w store_texts \<Rightarrow> 'w \<Rightarrow> 'w \<Rightarrow> bool" where
  "calm_step env texts w w' \<longleftrightarrow> texts w' = texts w \<and> seNow env w \<le> seNow env w'"

definition calm_op :: "'w store_env \<Rightarrow> 'w store_texts \<Rightarrow> (js_error, 'w, 'a) act \<Rightarrow> bool" where
  "calm_op env texts m \<longleftrightarrow> (\<forall>w. calm_step env texts w (snd (m w)))"

definition reads_text where
  "reads_text env texts m p k \<longleftrightarrow> calm_op env texts m \<and> (\<forall>w x w'. m w = (Inr x, w') \<longrightarrow> x = texts w p k)"

definition writes_text ::
  "'w store_env \<Rightarrow> 'w store_texts \<Rightarrow> (js_error, 'w, unit) act \<Rightarrow> store_place \<Rightarrow> string \<Rightarrow> stored_text option \<Rightarrow> bool" where
  "writes_text env texts m p k v \<longleftrightarrow> (\<forall>w r w'. m w = (r, w') \<longrightarrow>
     seNow env w \<le> seNow env w' \<and>
     texts w' = (case r of Inl _ \<Rightarrow> texts w | Inr _ \<Rightarrow> (texts w)(p := (texts w p)(k := v))))"

definition slot_text :: "'w store_env \<Rightarrow> 'w store_texts \<Rightarrow> 'w account_store \<Rightarrow> slot \<Rightarrow> stored_text option" where
  "slot_text env texts s sl = texts (storeWorld s) (place_of env (slot_value sl)) (slot_key sl)"

definition store_clock :: "'w store_env \<Rightarrow> 'w account_store \<Rightarrow> int" where
  "store_clock env s = seNow env (storeWorld s)"

section \<open>What the texts say\<close>

type_synonym slot_texts = "slot \<Rightarrow> stored_text option"

definition active_in :: "slot_texts \<Rightarrow> string option" where
  "active_in v = (case v (GlobalSlot Active_account) of
     None \<Rightarrow> None | Some t \<Rightarrow> if text_of t = [] then None else Some (text_of t))"

definition accounts_in :: "slot_texts \<Rightarrow> account_metadata list" where
  "accounts_in v = (case Option.bind (v (GlobalSlot Accounts_list)) parse_accounts of
       None \<Rightarrow> []
     | Some d \<Rightarrow>
         if adVersion d \<noteq> Some ACCOUNTS_LIST_VERSION \<or>
            list_ex (\<lambda>a. amServerUrl a = [] \<or> amInsecureTransportConfirmed a = None) (adAccounts d)
         then [] else adAccounts d)"

definition resolved_in :: "slot_texts \<Rightarrow> string option \<Rightarrow> string option" where
  "resolved_in v acc = (if absent acc then active_in v else acc)"

definition session_in :: "'w store_env \<Rightarrow> slot_texts \<Rightarrow> string \<Rightarrow> resolved_session option" where
  "session_in env v a =
     map_option (resolve_session env) (Option.bind (v (AccountSlot a Session_data)) parse_session)"

definition timeout_in :: "slot_texts \<Rightarrow> string option \<Rightarrow> int" where
  "timeout_in v acc = coalesce (case resolved_in v acc of None \<Rightarrow> None
     | Some a \<Rightarrow> parseStoredNumber (v (AccountSlot a Auto_lock_timeout))) DEFAULT_AUTO_LOCK_TIMEOUT_MS"

definition enabled_in :: "slot_texts \<Rightarrow> string \<Rightarrow> bool" where
  "enabled_in v a = (v (AccountSlot a Biometric_enabled) = Some (PlainText ''true''))"

definition period_in :: "slot_texts \<Rightarrow> int" where
  "period_in v = coalesce (parseStoredNumber (v (GlobalSlot Master_password_reentry_period_ms)))
     MASTER_PASSWORD_REENTRY_PERIOD_MS"

definition view_in :: "'w store_env \<Rightarrow> slot_texts \<Rightarrow> string list \<Rightarrow> native_host_view" where
  "view_in env v ids =
     \<lparr>nhVersion = NATIVE_VIEW_VERSION, nhActiveAccountId = active_in v, nhUnlockedAccountIds = ids,
      nhAutoLockTimeoutMs = timeout_in v (active_in v),
      nhDeviceKey = keyRefFor env Device_key (globalKey Device_key),
      nhAccounts = map (\<lambda>a. native_account_of env a
        (case resolved_in v (Some (amAccountId a)) of None \<Rightarrow> False | Some i \<Rightarrow> enabled_in v i)) (accounts_in v)\<rparr>"

definition view_current :: "'w store_env \<Rightarrow> 'w store_texts \<Rightarrow> 'w account_store \<Rightarrow> bool" where
  "view_current env texts s \<longleftrightarrow> slot_text env texts s (GlobalSlot Native_view) =
     Some (ViewText (view_in env (slot_text env texts s) (unlocked_ids s)))"

text \<open>The slots the view is made of.\<close>

fun in_view :: "slot \<Rightarrow> bool" where
  "in_view (GlobalSlot n) = (n \<in> {Active_account, Accounts_list})"
| "in_view (AccountSlot _ n) = (n \<in> {Auto_lock_timeout, Biometric_enabled})"

lemma view_in_cong:
  assumes "v (GlobalSlot Active_account) = v' (GlobalSlot Active_account)"
    "v (GlobalSlot Accounts_list) = v' (GlobalSlot Accounts_list)"
    "\<And>a. v (AccountSlot a Auto_lock_timeout) = v' (AccountSlot a Auto_lock_timeout)"
    "\<And>a. v (AccountSlot a Biometric_enabled) = v' (AccountSlot a Biometric_enabled)"
  shows "view_in env v ids = view_in env v' ids"
  using assms
  by (simp add: view_in_def active_in_def accounts_in_def timeout_in_def enabled_in_def resolved_in_def cong: option.case_cong)

lemma and_then_assoc: "and_then (and_then m f) g = and_then m (\<lambda>a. and_then (f a) g)"
  by (rule ext) (simp add: and_then_def split: prod.split sum.split)

lemma ok_and_then [simp]: "and_then (ok a) f = f a"
  by (rule ext) (simp add: and_then_def ok_def)

locale account_platform =
  fixes env :: "'w store_env" and texts :: "'w store_texts"
  assumes secret_get: "reads_text env texts (secretGet (sePort env) k) SecretStore k"
    and kv_get_session: "reads_text env texts (kvGet (sePort env) k SessionScope) SessionKv k"
    and kv_get_device: "reads_text env texts (kvGet (sePort env) k DeviceScope) DeviceKv k"
    and secret_set: "writes_text env texts (secretSet (sePort env) k v) SecretStore k (Some v)"
    and kv_set_session: "writes_text env texts (kvSet (sePort env) k v SessionScope) SessionKv k (Some v)"
    and kv_set_device: "writes_text env texts (kvSet (sePort env) k v DeviceScope) DeviceKv k (Some v)"
    and secret_delete: "writes_text env texts (secretDelete (sePort env) k) SecretStore k None"
    and kv_delete_session: "writes_text env texts (kvDelete (sePort env) k SessionScope) SessionKv k None"
    and kv_delete_device: "writes_text env texts (kvDelete (sePort env) k DeviceScope) DeviceKv k None"
    and calm_initialize: "calm_op env texts (ppInitialize (sePort env))"
    and calm_available: "calm_op env texts (bioIsAvailable (sePort env))"
    and calm_details: "calm_op env texts (bioGetDetails (sePort env))"
    and calm_type: "calm_op env texts (bioGetType (sePort env))"
    and calm_authenticate: "calm_op env texts (bioAuthenticate (sePort env) reason)"
    and calm_generate_id: "calm_op env texts (seGenerateAccountId env)"
    and calm_import: "calm_op env texts (cpImportKey (seCrypto env) bytes)"
    and calm_export: "calm_op env texts (cpExportKey (seCrypto env) key)"
    and calm_generate: "calm_op env texts (cpGenerateEncryptionKey (seCrypto env))"
    and calm_wrap: "calm_op env texts (cpWrapKey (seCrypto env) key key' c)"
    and calm_unwrap: "calm_op env texts (cpUnwrapKey (seCrypto env) d key c)"
    and calm_destroy: "calm_op env texts (cpDestroyKey (seCrypto env) key)"
begin

section \<open>Reading\<close>

abbreviation value_at :: "'w account_store \<Rightarrow> slot \<Rightarrow> stored_text option" where
  "value_at \<equiv> slot_text env texts"

abbreviation clock :: "'w account_store \<Rightarrow> int" where
  "clock \<equiv> store_clock env"

text \<open>Same texts and caches, a clock that may have moved on.\<close>

definition unchanged :: "'w account_store \<Rightarrow> 'w account_store \<Rightarrow> bool" where
  "unchanged s t \<longleftrightarrow> texts (storeWorld t) = texts (storeWorld s) \<and> mukCache t = mukCache s \<and>
     deviceKeyCache t = deviceKeyCache s \<and> unlockNotices t = unlockNotices s \<and> clock s \<le> clock t"

lemma unchanged_refl [simp]: "unchanged s s"
  by (simp add: unchanged_def)

lemma unchanged_trans [trans]: "unchanged s t \<Longrightarrow> unchanged t u \<Longrightarrow> unchanged s u"
  by (simp add: unchanged_def)

lemma unchanged_values: "unchanged s t \<Longrightarrow> value_at t = value_at s"
  by (rule ext) (simp add: unchanged_def slot_text_def)

lemma unchanged_ids: "unchanged s t \<Longrightarrow> unlocked_ids t = unlocked_ids s"
  by (simp add: unchanged_def unlocked_ids_def)

text \<open>still s: what holds of a state that has not moved on from s but for the time.\<close>

definition leaves :: "('w, 'a) store_act \<Rightarrow> bool" where
  "leaves m \<longleftrightarrow> (\<forall>s. unchanged s (snd (m s)))"

definition yields :: "((slot \<Rightarrow> stored_text option) \<Rightarrow> 'a) \<Rightarrow> ('w, 'a) store_act \<Rightarrow> bool" where
  "yields f m \<longleftrightarrow> leaves m \<and> (\<forall>s x t. m s = (Inr x, t) \<longrightarrow> x = f (value_at s))"

lemma leaves_ends: "leaves m \<Longrightarrow> ends ((=) s) m (\<lambda>_. unchanged s) (\<lambda>_. unchanged s)"
  by (auto simp: leaves_def ends_def split: sum.split dest: arg_cong [where f = snd] spec [where x = s])

lemma leavesD: "leaves m \<Longrightarrow> m s = (r, t) \<Longrightarrow> unchanged s t"
  by (auto simp: leaves_def dest: spec [where x = s])

lemma yields_leaves: "yields f m \<Longrightarrow> leaves m"
  by (simp add: yields_def)

lemma yieldsD: "yields f m \<Longrightarrow> m s = (Inr x, t) \<Longrightarrow> x = f (value_at s) \<and> unchanged s t"
  by (auto simp: yields_def dest: leavesD)

lemma leaves_ok: "leaves (ok a)" and leaves_throw: "leaves (throw e)" and leaves_get: "leaves (get_state f)"
  by (simp_all add: leaves_def ok_def throw_def get_state_def)

lemma leaves_and_then:
  assumes "leaves m" "\<And>a. leaves (f a)"
  shows "leaves (and_then m f)"
  unfolding leaves_def
proof
  fix s
  obtain r t where m: "m s = (r, t)" by fastforce
  have t: "unchanged s t" using leavesD [OF assms(1) m] .
  show "unchanged s (snd (and_then m f s))"
  proof (cases r)
    case (Inr a)
    obtain r' u where f: "f a t = (r', u)" by fastforce
    show ?thesis using unchanged_trans [OF t leavesD [OF assms(2) f]] m Inr f by (simp add: and_then_def)
  qed (use m t in \<open>simp add: and_then_def\<close>)
qed

lemma leaves_catch:
  assumes "leaves m" "\<And>e. leaves (h e)"
  shows "leaves (catch m h)"
  unfolding leaves_def
proof
  fix s
  obtain r t where m: "m s = (r, t)" by fastforce
  have t: "unchanged s t" using leavesD [OF assms(1) m] .
  show "unchanged s (snd (catch m h s))"
  proof (cases r)
    case (Inl e)
    obtain r' u where h: "h e t = (r', u)" by fastforce
    show ?thesis using unchanged_trans [OF t leavesD [OF assms(2) h]] m Inl h by (simp add: catch_def)
  qed (use m t in \<open>simp add: catch_def\<close>)
qed

lemma leaves_if: "leaves m \<Longrightarrow> leaves n \<Longrightarrow> leaves (if b then m else n)"
  by simp

lemma leaves_option: "leaves m \<Longrightarrow> (\<And>x. leaves (f x)) \<Longrightarrow> leaves (case z of None \<Rightarrow> m | Some x \<Rightarrow> f x)"
  by (cases z) simp_all

lemmas leaves_intros = leaves_ok leaves_throw leaves_get leaves_and_then leaves_catch leaves_if leaves_option

lemma calm_leaves: "calm_op env texts m \<Longrightarrow> leaves (in_store_world m)"
  by (simp add: leaves_def calm_op_def calm_step_def in_store_world_def unchanged_def store_clock_def split_beta)

lemma leaves_now: "leaves (nowOf env)"
  by (simp add: nowOf_def leaves_get)

lemma yields_ok: "yields (\<lambda>_. a) (ok a)"
  by (simp add: yields_def leaves_ok) (simp add: ok_def)

lemma yields_bind:
  assumes "yields f m" "\<And>a. yields (g a) (k a)"
  shows "yields (\<lambda>v. g (f v) v) (and_then m k)"
  unfolding yields_def
proof (intro conjI allI impI)
  show "leaves (and_then m k)" using assms by (intro leaves_and_then yields_leaves)
  fix s x t assume run: "and_then m k s = (Inr x, t)"
  then obtain a u where m: "m s = (Inr a, u)" and k: "k a u = (Inr x, t)"
    by (auto simp: and_then_def split: prod.splits sum.splits)
  show "x = g (f (value_at s)) (value_at s)"
    using yieldsD [OF assms(1) m] yieldsD [OF assms(2) k] by (auto simp: unchanged_values)
qed

lemma yields_map: "yields f m \<Longrightarrow> yields (\<lambda>v. h (f v)) (and_then m (\<lambda>a. ok (h a)))"
  by (rule yields_bind) (auto intro: yields_ok)

lemma yields_option:
  assumes "yields f m" "\<And>x. yields (g x) (k x)"
  shows "yields (case z of None \<Rightarrow> f | Some x \<Rightarrow> g x) (case z of None \<Rightarrow> m | Some x \<Rightarrow> k x)"
  using assms by (cases z) simp_all

lemma yields_if: "yields f m \<Longrightarrow> yields g n \<Longrightarrow> yields (if b then f else g) (if b then m else n)"
  by simp

lemma yields_map_each: "(\<And>a. yields (f a) (k a)) \<Longrightarrow> yields (\<lambda>v. map (\<lambda>a. f a v) as) (map_each as k)"
proof (induction as)
  case (Cons a as)
  then show ?case by (simp, intro yields_bind [where g = "\<lambda>y v. y # map (\<lambda>a. f a v) as"] yields_map) auto
qed (simp add: yields_ok)

lemma yields_cong: "yields f m \<Longrightarrow> f = g \<Longrightarrow> yields g m"
  by simp

section \<open>The routing triple by slot\<close>

lemma readValue_yields:
  "yields (\<lambda>v. v sl) (readValue env (slot_value sl) (slot_key sl))"
proof -
  have read: "yields (\<lambda>v. v sl) (in_store_world m)"
    if "reads_text env texts m (place_of env (slot_value sl)) (slot_key sl)" for m
  proof -
    have "leaves (in_store_world m)" using that by (intro calm_leaves) (simp add: reads_text_def)
    then show ?thesis using that
      by (auto simp: yields_def reads_text_def in_store_world_def slot_text_def split: prod.splits)
  qed
  show ?thesis
    using read [of "kvGet (sePort env) (slot_key sl) SessionScope"] read [of "kvGet (sePort env) (slot_key sl) DeviceScope"]
      read [of "secretGet (sePort env) (slot_key sl)"] secret_get kv_get_session kv_get_device
    by (auto simp: readValue_def place_of_def split: prod.splits)
qed

lemma readGlobal_yields: "yields (\<lambda>v. v (GlobalSlot n)) (readGlobal env n)"
  using readValue_yields [of "GlobalSlot n"] by (simp add: readGlobal_def)

lemma readAccount_yields: "yields (\<lambda>v. v (AccountSlot a n)) (readAccount env n a)"
  using readValue_yields [of "AccountSlot a n"] by (simp add: readAccount_def)

text \<open>
  A write of a slot changes that slot when it returns and nothing when it throws; caches stay.
\<close>

definition stores :: "slot \<Rightarrow> stored_text option \<Rightarrow> ('w, unit) store_act \<Rightarrow> bool" where
  "stores sl x m \<longleftrightarrow> (\<forall>s r t. m s = (r, t) \<longrightarrow>
     mukCache t = mukCache s \<and> deviceKeyCache t = deviceKeyCache s \<and> unlockNotices t = unlockNotices s \<and>
     clock s \<le> clock t \<and>
     texts (storeWorld t) = (case r of Inl _ \<Rightarrow> texts (storeWorld s)
       | Inr _ \<Rightarrow> (texts (storeWorld s))(place_of env (slot_value sl) :=
                    (texts (storeWorld s) (place_of env (slot_value sl)))(slot_key sl := x))))"

lemma writes_stores:
  "writes_text env texts m (place_of env (slot_value sl)) (slot_key sl) x \<Longrightarrow> stores sl x (in_store_world m)"
  by (auto simp: writes_text_def stores_def in_store_world_def store_clock_def split: prod.splits)

lemma writeValue_stores: "stores sl (Some x) (writeValue env (slot_value sl) (slot_key sl) x)"
  using writes_stores [of "kvSet (sePort env) (slot_key sl) x SessionScope" sl "Some x"]
    writes_stores [of "kvSet (sePort env) (slot_key sl) x DeviceScope" sl "Some x"]
    writes_stores [of "secretSet (sePort env) (slot_key sl) x" sl "Some x"]
    secret_set kv_set_session kv_set_device
  by (auto simp: writeValue_def place_of_def split: prod.splits)

lemma deleteValue_stores: "stores sl None (deleteValue env (slot_value sl) (slot_key sl))"
  using writes_stores [of "kvDelete (sePort env) (slot_key sl) SessionScope" sl None]
    writes_stores [of "kvDelete (sePort env) (slot_key sl) DeviceScope" sl None]
    writes_stores [of "secretDelete (sePort env) (slot_key sl)" sl None]
    secret_delete kv_delete_session kv_delete_device
  by (auto simp: deleteValue_def place_of_def split: prod.splits)

lemma account_stores:
  "stores (AccountSlot a n) (Some x) (writeAccount env n a x)" "stores (AccountSlot a n) None (deleteAccount env n a)"
  "stores (GlobalSlot n) (Some x) (writeGlobal env n x)" "stores (GlobalSlot n) None (deleteGlobal env n)"
  using writeValue_stores [of "AccountSlot a n" x] writeValue_stores [of "GlobalSlot n" x]
    deleteValue_stores [of "AccountSlot a n"] deleteValue_stores [of "GlobalSlot n"]
  by (simp_all add: writeAccount_def deleteAccount_def writeGlobal_def deleteGlobal_def)

text \<open>No two slots share a key, so the write of one is not seen in another.\<close>

lemma stores_value:
  assumes "stores sl x m" "m s = (Inr (), t)" "slot_ok sl" "slot_ok other"
  shows "value_at t other = (if other = sl then x else value_at s other)"
  using assms slot_key_injective [of sl other] by (fastforce simp: stores_def slot_text_def)

lemma stores_error: "stores sl x m \<Longrightarrow> m s = (Inl e, t) \<Longrightarrow> unchanged s t"
  by (fastforce simp: stores_def unchanged_def)

lemma stores_caches:
  "stores sl x m \<Longrightarrow> m s = (r, t) \<Longrightarrow> mukCache t = mukCache s \<and> deviceKeyCache t = deviceKeyCache s \<and>
     unlockNotices t = unlockNotices s \<and> clock s \<le> clock t"
  by (fastforce simp: stores_def)

section \<open>What the methods read\<close>

lemma active_yields: "yields active_in (getActiveAccount env)"
  unfolding getActiveAccount_def active_in_def
  by (rule yields_map [where h = "\<lambda>raw. case raw of None \<Rightarrow> None | Some t \<Rightarrow> if text_of t = [] then None else Some (text_of t)"])
     (rule readGlobal_yields)

lemma accounts_yields: "yields accounts_in (readAccountsList env)"
  unfolding readAccountsList_def accounts_in_def
  by (rule yields_map [OF readGlobal_yields])

lemma resolve_yields: "yields (\<lambda>v. resolved_in v acc) (resolveAccountId env acc)"
  unfolding resolveAccountId_def resolved_in_def
  using active_yields yields_ok [of acc] by (cases "absent acc") simp_all

lemma for_account_yields:
  assumes "\<And>a. yields (f a) (m a)"
  shows "yields (\<lambda>v. case resolved_in v acc of None \<Rightarrow> x | Some a \<Rightarrow> f a v) (for_account env acc x m)"
  unfolding for_account_def
  by (rule yields_bind [OF resolve_yields, where g = "\<lambda>r v. case r of None \<Rightarrow> x | Some a \<Rightarrow> f a v"])
     (auto split: option.split intro: yields_ok assms)

lemma present [simp]: "a \<noteq> [] \<Longrightarrow> resolved_in v (Some a) = Some a"
  by (simp add: resolved_in_def absent_def)

lemma session_yields:
  "yields (\<lambda>v. case resolved_in v acc of None \<Rightarrow> None | Some a \<Rightarrow> session_in env v a) (getStoredSessionData env acc)"
  unfolding getStoredSessionData_def session_in_def
  by (rule for_account_yields, rule yields_map [OF readAccount_yields])

lemma token_yields:
  "yields (\<lambda>v. case resolved_in v acc of None \<Rightarrow> None | Some a \<Rightarrow> v (AccountSlot a Jwt_token)) (getAuthToken env acc)"
  unfolding getAuthToken_def by (rule for_account_yields, rule readAccount_yields)

lemma timeout_yields: "yields (\<lambda>v. timeout_in v acc) (getAutoLockTimeoutOrDefault env acc)"
  unfolding getAutoLockTimeoutOrDefault_def getAutoLockTimeout_def timeout_in_def
  by (rule yields_map, rule for_account_yields, rule yields_map [OF readAccount_yields])

lemma enabled_yields:
  "yields (\<lambda>v. case resolved_in v acc of None \<Rightarrow> False | Some a \<Rightarrow> enabled_in v a) (isBiometricEnabled env acc)"
  unfolding isBiometricEnabled_def enabled_in_def
  by (rule for_account_yields, rule yields_map [OF readAccount_yields])

lemma period_yields: "yields period_in (getMasterPasswordReentryPeriodMs env)"
  unfolding getMasterPasswordReentryPeriodMs_def period_in_def by (rule yields_map [OF readGlobal_yields])

section \<open>The published view\<close>

definition publish where
  "publish ids view = writeGlobal env Native_view (ViewText (view_in env view ids))"

lemma refresh_value:
  assumes run: "refreshNativeView env ids s = (r, t)"
  shows "case r of Inl _ \<Rightarrow> unchanged s t
    | Inr _ \<Rightarrow> \<exists>u. unchanged s u \<and> publish ids (value_at s) u = (Inr (), t)"
proof -
  define reading where "reading = and_then (readAccountsList env) (\<lambda>accounts.
     and_then (getActiveAccount env) (\<lambda>active.
     and_then (getAutoLockTimeoutOrDefault env active) (\<lambda>timeout.
     and_then (map_each accounts (\<lambda>a.
       and_then (isBiometricEnabled env (Some (amAccountId a))) (\<lambda>enabled.
       ok (native_account_of env a enabled)))) (\<lambda>projected.
     ok \<lparr>nhVersion = NATIVE_VIEW_VERSION, nhActiveAccountId = active, nhUnlockedAccountIds = ids,
        nhAutoLockTimeoutMs = timeout, nhDeviceKey = keyRefFor env Device_key (globalKey Device_key),
        nhAccounts = projected\<rparr>))))"
  have yields_view: "yields (\<lambda>v. view_in env v ids) reading"
    unfolding reading_def view_in_def
    by (rule yields_bind [OF accounts_yields], rule yields_bind [OF active_yields],
        rule yields_bind [OF timeout_yields], rule yields_map [OF yields_map_each],
        rule yields_map, rule enabled_yields)
  have "refreshNativeView env ids = and_then reading (\<lambda>view. writeGlobal env Native_view (ViewText view))"
    by (simp add: reading_def refreshNativeView_def and_then_assoc)
  then obtain r' u where read: "reading s = (r', u)"
    and rest: "(case r' of Inl e \<Rightarrow> (Inl e, u) | Inr view \<Rightarrow> writeGlobal env Native_view (ViewText view) u) = (r, t)"
    using run by (auto simp: and_then_def split: prod.splits)
  have u: "unchanged s u" using leavesD [OF yields_leaves [OF yields_view] read] .
  show ?thesis
  proof (cases r')
    case (Inl e)
    then show ?thesis using rest u by auto
  next
    case (Inr view)
    have view: "view = view_in env (value_at s) ids" using yieldsD [OF yields_view] read Inr by blast
    show ?thesis
    proof (cases r)
      case (Inl e)
      then show ?thesis using rest Inr stores_error [OF account_stores(3)] unchanged_trans [OF u] by auto
    next
      case (Inr x)
      then show ?thesis using rest \<open>r' = Inr view\<close> u view by (auto simp: publish_def)
    qed
  qed
qed

lemma refresh_error: "refreshNativeView env ids s = (Inl e, t) \<Longrightarrow> unchanged s t"
  using refresh_value [of ids s "Inl e" t] by simp

lemma refresh_returns:
  assumes "refreshNativeView env ids s = (Inr (), t)"
  shows "mukCache t = mukCache s" "deviceKeyCache t = deviceKeyCache s" "unlockNotices t = unlockNotices s"
    "clock s \<le> clock t"
    "slot_ok sl \<Longrightarrow> value_at t sl =
       (if sl = GlobalSlot Native_view then Some (ViewText (view_in env (value_at s) ids)) else value_at s sl)"
proof -
  obtain u where u: "unchanged s u"
    and w: "writeGlobal env Native_view (ViewText (view_in env (value_at s) ids)) u = (Inr (), t)"
    using refresh_value [OF assms] by (auto simp: publish_def)
  show "mukCache t = mukCache s" "deviceKeyCache t = deviceKeyCache s" "unlockNotices t = unlockNotices s" "clock s \<le> clock t"
    using u stores_caches [OF account_stores(3) w] by (auto simp: unchanged_def)
  show "slot_ok sl \<Longrightarrow> value_at t sl =
       (if sl = GlobalSlot Native_view then Some (ViewText (view_in env (value_at s) ids)) else value_at s sl)"
    using stores_value [OF account_stores(3) w, of sl] unchanged_values [OF u] by (simp add: GLOBAL_VALUES_def)
qed

abbreviation current :: "'w account_store \<Rightarrow> bool" where
  "current \<equiv> view_current env texts"

lemma current_after:
  assumes "refreshNativeView env ids s = (Inr (), t)" and "unlocked_ids u = ids" and "storeWorld u = storeWorld t"
  shows "current u"
proof -
  have same: "view_in env (value_at t) ids = view_in env (value_at s) ids"
    by (rule view_in_cong) (simp_all add: refresh_returns(5) [OF assms(1)] GLOBAL_VALUES_def ACCOUNT_VALUES_def)
  have "value_at u = value_at t" using assms(3) by (intro ext) (simp add: slot_text_def)
  then show ?thesis
    using refresh_returns(5) [OF assms(1), of "GlobalSlot Native_view"] same assms(2)
    by (simp add: view_current_def GLOBAL_VALUES_def)
qed

lemma leaves_current: "leaves m \<Longrightarrow> keeps current m"
  unfolding keeps_def leaves_def view_current_def using unchanged_values unchanged_ids by metis

lemma stores_current:
  assumes "stores sl x m" "slot_ok sl" "sl \<noteq> GlobalSlot Native_view" "\<not> in_view sl"
  shows "keeps current m"
proof (rule keepsI)
  fix s assume now: "current s"
  obtain r t where m: "m s = (r, t)" by fastforce
  show "current (snd (m s))"
  proof (cases r)
    case (Inl e)
    then show ?thesis using stores_error [OF assms(1)] m now unchanged_values unchanged_ids
      unfolding view_current_def by (metis snd_conv)
  next
    case (Inr y)
    have v: "slot_ok other \<Longrightarrow> value_at t other = (if other = sl then x else value_at s other)" for other
      using stores_value [OF assms(1) _ assms(2)] m Inr by simp
    have "view_in env (value_at t) ids = view_in env (value_at s) ids" for ids
      using assms(4) by (intro view_in_cong) (auto simp: v GLOBAL_VALUES_def ACCOUNT_VALUES_def)
    then show ?thesis
      using now v [of "GlobalSlot Native_view"] assms(3) m stores_caches [OF assms(1) m]
      by (auto simp: view_current_def GLOBAL_VALUES_def unlocked_ids_def)
  qed
qed

lemma refresh_view_publishes: "leads (\<lambda>_. True) (refresh_view env) (\<lambda>_. current)"
  by (rule leadsI)
     (auto simp: refresh_view_def and_then_def get_state_def refresh_returns(1) unlocked_ids_def
        intro!: current_after)

end

end
