(* ===== verification/AccountStoreCalls.thy ===== *)
theory AccountStoreCalls
  imports AccountStoreProps
begin

text \<open>
  The calls that change the store's state, run one after another, and what every one of them keeps:
  the published view is the one of the current state after each call that returns, and every text
  is one of its slot's kind at the place of its tier whether the call returns or throws.
\<close>

section \<open>Calls\<close>

datatype store_call =
    CallInitialize
  | CallSetActiveAccount "string option"
  | CallAddAccount account_metadata
  | CallSetInsecureTransportConfirmed string bool
  | CallRemoveAccount string
  | CallStoreSessionData key_ref string string string "session_expiry option" "string option"
  | CallUpdateStoredSessionMetadata string "string option" session_expiry
  | CallTryRestoreSession bool "string option"
  | CallTryRestoreSessionWithoutPrompt "string option"
  | CallClearSession "string option"
  | CallForgetSession "string option"
  | CallClearAllStoredData "string option"
  | CallSetMasterUnlockKey key_ref "string option"
  | CallClearMasterUnlockKey "string option"
  | CallDecryptStoredMasterUnlockKey "string option" bool string
  | CallLockAllAccounts
  | CallStoreSecretKey string "string option"
  | CallStoreAuthToken string "string option"
  | CallStoreVaultKeys "vault_key_entry list" "string option"
  | CallStoreEncryptedPrivateKey string "string option"
  | CallStorePinnedKdfProfile kdf_profile string
  | CallStoreAutoLockTimeout int "string option"
  | CallStoreServerUrl string "string option"
  | CallStoreReentryPeriod int
  | CallUpdateLastMasterPasswordEntry "string option"
  | CallStoreTravelModeCache travel_config "string option"
  | CallStoreBackgroundTimestamp "string option"
  | CallClearBackgroundTimestamp "string option"
  | CallSetBiometricEnabled string bool
  | CallEnableBiometric "string option"
  | CallDisableBiometric "string option"
  | CallAuthenticateWithBiometric string "string option"
  | CallAuthenticateWithBiometricEnhanced string "string option"
  | CallUnlockWithBiometric "string option" string
  | CallUnlockAllAccountsWithBiometric string

definition void :: "('w, 'a) store_act \<Rightarrow> ('w, unit) store_act" where
  "void m = and_then m (\<lambda>_. ok ())"

fun store_perform :: "'w store_env \<Rightarrow> store_call \<Rightarrow> ('w, unit) store_act" where
  "store_perform env CallInitialize = initialize env"
| "store_perform env (CallSetActiveAccount acc) = setActiveAccount env acc"
| "store_perform env (CallAddAccount a) = addAccount env a"
| "store_perform env (CallSetInsecureTransportConfirmed acc b) = setInsecureTransportConfirmed env acc b"
| "store_perform env (CallRemoveAccount acc) = removeAccountInternal env acc"
| "store_perform env (CallStoreSessionData k acc e u x i) = storeSessionData env k acc e u x i"
| "store_perform env (CallUpdateStoredSessionMetadata acc i x) = updateStoredSessionMetadata env acc i x"
| "store_perform env (CallTryRestoreSession skip acc) = void (tryRestoreSession env skip acc)"
| "store_perform env (CallTryRestoreSessionWithoutPrompt acc) = void (tryRestoreSessionWithoutPrompt env acc)"
| "store_perform env (CallClearSession acc) = clearSession env acc"
| "store_perform env (CallForgetSession acc) = forgetSession env acc"
| "store_perform env (CallClearAllStoredData acc) = clearAllStoredData env acc"
| "store_perform env (CallSetMasterUnlockKey k acc) = setMasterUnlockKey env k acc"
| "store_perform env (CallClearMasterUnlockKey acc) = clearMasterUnlockKey env acc"
| "store_perform env (CallDecryptStoredMasterUnlockKey acc skip reason) =
     void (decryptStoredMasterUnlockKey env acc skip reason)"
| "store_perform env CallLockAllAccounts = lockAllAccounts env"
| "store_perform env (CallStoreSecretKey k acc) = storeSecretKey env k acc"
| "store_perform env (CallStoreAuthToken t acc) = storeAuthToken env t acc"
| "store_perform env (CallStoreVaultKeys ks acc) = writeVaultKeys env ks acc"
| "store_perform env (CallStoreEncryptedPrivateKey k acc) = storeEncryptedPrivateKey env k acc"
| "store_perform env (CallStorePinnedKdfProfile p acc) = storePinnedKdfProfile env p acc"
| "store_perform env (CallStoreAutoLockTimeout ms acc) = storeAutoLockTimeout env ms acc"
| "store_perform env (CallStoreServerUrl url acc) = storeServerUrl env url acc"
| "store_perform env (CallStoreReentryPeriod ms) = storeMasterPasswordReentryPeriodMs env ms"
| "store_perform env (CallUpdateLastMasterPasswordEntry acc) = updateLastMasterPasswordEntry env acc"
| "store_perform env (CallStoreTravelModeCache c acc) = storeTravelModeCache env c acc"
| "store_perform env (CallStoreBackgroundTimestamp acc) = storeBackgroundTimestamp env acc"
| "store_perform env (CallClearBackgroundTimestamp acc) = clearBackgroundTimestamp env acc"
| "store_perform env (CallSetBiometricEnabled acc b) = setBiometricEnabled env acc b"
| "store_perform env (CallEnableBiometric acc) = enableBiometric env acc"
| "store_perform env (CallDisableBiometric acc) = disableBiometric env acc"
| "store_perform env (CallAuthenticateWithBiometric reason acc) = void (authenticateWithBiometric env reason acc)"
| "store_perform env (CallAuthenticateWithBiometricEnhanced reason acc) =
     void (authenticateWithBiometricEnhanced env reason acc)"
| "store_perform env (CallUnlockWithBiometric acc reason) = void (unlockWithBiometric env acc reason)"
| "store_perform env (CallUnlockAllAccountsWithBiometric reason) = void (unlockAllAccountsWithBiometric env reason)"

context account_platform begin

section \<open>The view stays current\<close>

lemma leads_keeps: "keeps I m \<Longrightarrow> leads I m (\<lambda>_. I)"
  unfolding leads_def by (blast dest: keepsE)

lemma leads_seq: "leads I m (\<lambda>_. J) \<Longrightarrow> (\<And>a. leads J (f a) (\<lambda>_. K)) \<Longrightarrow> leads I (and_then m f) (\<lambda>_. K)"
  by (rule leads_and_then)

lemma leads_any: "leads (\<lambda>_. True) m J \<Longrightarrow> leads I m J"
  by (rule leads_pre) simp_all

lemma leads_ignore: "leads (\<lambda>_. True) m (\<lambda>_ _. True)"
  by (simp add: leads_def)

text \<open>A call that first does anything and then publishes.\<close>

lemma leads_then: "(\<And>a. leads (\<lambda>_. True) (f a) J) \<Longrightarrow> leads I (and_then m f) J"
  by (rule leads_any, rule leads_and_then [OF leads_ignore])

lemma leads_case_option:
  "leads I m J \<Longrightarrow> (\<And>x. leads I (f x) J) \<Longrightarrow> leads I (case z of None \<Rightarrow> m | Some x \<Rightarrow> f x) J"
  by (cases z) simp_all

lemma leaves_resolve: "leaves (resolveAccountId env acc)"
  by (rule yields_leaves [OF resolve_yields])

lemma leaves_reads:
  "leaves (readGlobal env n)" "leaves (readAccount env n a)" "leaves (readAccountsList env)"
  "leaves (getActiveAccount env)" "leaves (getStoredSessionData env acc)" "leaves (getAuthToken env acc)"
  "leaves (isBiometricEnabled env acc)" "leaves (getMasterPasswordReentryPeriodMs env)"
  by (rule yields_leaves, rule readGlobal_yields readAccount_yields accounts_yields active_yields
        session_yields token_yields enabled_yields period_yields)+

lemma leaves_for_account: "(\<And>a. leaves (f a)) \<Longrightarrow> leaves (for_account env acc x f)"
  unfolding for_account_def by (intro leaves_intros leaves_resolve)

lemma leaves_require: "leaves (requireAccountId env acc)"
  unfolding requireAccountId_def by (intro leaves_intros leaves_resolve)

lemma leaves_valid: "leaves (isSessionValid env acc)"
  unfolding isSessionValid_def by (intro leaves_for_account leaves_intros leaves_reads leaves_now)

lemma leaves_reentry: "leaves (isMasterPasswordReentryRequired env acc)"
  unfolding isMasterPasswordReentryRequired_def
  by (intro leaves_for_account leaves_intros leaves_reads leaves_now)

lemma leaves_required: "leaves (isBiometricAuthRequired env a)"
  unfolding isBiometricAuthRequired_def by (intro leaves_intros leaves_reads leaves_now)

lemma leaves_can: "leaves (canBiometricUnlock env acc)"
  unfolding canBiometricUnlock_def by (intro leaves_intros leaves_reads leaves_valid calm_leaves calm_available)

lemma leaves_destroy: "leaves (destroyKey env k)"
  unfolding destroyKey_def by (intro leaves_intros calm_leaves calm_destroy)

lemmas leaves_methods = leaves_reads leaves_resolve leaves_require leaves_valid leaves_reentry leaves_required
  leaves_can leaves_destroy leaves_now leaves_for_account
  calm_leaves [OF calm_available] calm_leaves [OF calm_details] calm_leaves [OF calm_type]
  calm_leaves [OF calm_authenticate] calm_leaves [OF calm_generate_id] calm_leaves [OF calm_initialize]
  calm_leaves [OF calm_import] calm_leaves [OF calm_export] calm_leaves [OF calm_generate]
  calm_leaves [OF calm_wrap] calm_leaves [OF calm_unwrap] calm_leaves [OF calm_destroy]

lemma keeps_leaves: "leaves m \<Longrightarrow> keeps current m"
  by (rule leaves_current)

lemma keeps_private:
  "n \<notin> {Auto_lock_timeout, Biometric_enabled} \<Longrightarrow> n \<in> set ACCOUNT_VALUES \<Longrightarrow> keeps current (writeAccount env n a x)"
  "n \<notin> {Auto_lock_timeout, Biometric_enabled} \<Longrightarrow> n \<in> set ACCOUNT_VALUES \<Longrightarrow> keeps current (deleteAccount env n a)"
  "n \<notin> {Active_account, Accounts_list, Native_view} \<Longrightarrow> n \<in> set GLOBAL_VALUES \<Longrightarrow> keeps current (writeGlobal env n x)"
  "n \<notin> {Active_account, Accounts_list, Native_view} \<Longrightarrow> n \<in> set GLOBAL_VALUES \<Longrightarrow> keeps current (deleteGlobal env n)"
  by (rule stores_current [OF account_stores(1)] stores_current [OF account_stores(2)]
        stores_current [OF account_stores(3)] stores_current [OF account_stores(4)]; simp)+

lemmas keeps_methods = leaves_methods [THEN keeps_leaves]

lemma keeps_device_key: "keeps current (getDeviceKey env)"
proof -
  have "keeps current (put_state (\<lambda>s. s\<lparr>deviceKeyCache := k\<rparr>))" for k :: "key_ref option"
    by (rule keeps_put_state) (simp add: view_current_def slot_text_def [abs_def] unlocked_ids_def)
  then show ?thesis
    unfolding getDeviceKey_def loadDeviceKey_def
    by (intro keeps_intros keeps_methods keeps_private(3)) (simp_all add: GLOBAL_VALUES_def)
qed

lemma keeps_unwrap: "keeps current (unwrap_stored env session)"
  unfolding unwrap_stored_def by (intro keeps_intros keeps_device_key keeps_methods)

lemma keeps_for_account: "(\<And>a. keeps current (f a)) \<Longrightarrow> keeps current (for_account env acc x f)"
  unfolding for_account_def by (intro keeps_and_then keeps_methods keeps_case_option keeps_ok)

lemma keeps_authenticate: "keeps current (authenticateWithBiometric env reason acc)"
  unfolding authenticateWithBiometric_def
  by (intro keeps_intros keeps_for_account keeps_private(1) keeps_methods) (simp_all add: ACCOUNT_VALUES_def)

lemma keeps_decrypt: "keeps current (decryptStoredMasterUnlockKey env acc skip reason)"
  unfolding decryptStoredMasterUnlockKey_def pass_biometric_def
  by (intro keeps_intros keeps_for_account keeps_authenticate keeps_unwrap keeps_methods)

text \<open>An unlock or a lock of one account publishes what it then does, and a failed one does nothing.\<close>

lemma takeUnlock_run:
  "takeUnlock env a entry previous s = (r, t) \<Longrightarrow> \<exists>u. unchanged s u \<and> r = Inr () \<and>
     t = (let v = cache_entry a entry u in v\<lparr>unlockNotices := unlockNotices v @ [unlocked_ids v]\<rparr>)"
  using leavesD [OF leaves_destroy, of previous s]
  by (cases "previous \<noteq> entry"; cases "destroyKey env previous s"; cases "fst (destroyKey env previous s)";
      cases previous)
     (auto simp: takeUnlock_def and_then_def put_state_def notifyUnlockListeners_def ok_def Let_def destroyKey_def
        catch_def split: prod.splits sum.splits intro: unchanged_refl)

lemma publishUnlock_run:
  assumes "publishUnlock env a entry s = (r, t)"
  shows "case r of Inl _ \<Rightarrow> unchanged s t
    | Inr p \<Rightarrow> p = js_get (mukCache s) a \<and>
        refreshNativeView env (next_unlocked a entry (unlocked_ids s)) s = (Inr (), t)"
  using assms refresh_error [of "next_unlocked a entry (unlocked_ids s)" s]
  by (auto simp: publishUnlock_def and_then_def get_state_def ok_def split: prod.splits sum.splits)

lemma setUnlockEntry_fails: "setUnlockEntry env a entry s = (Inl e, t) \<Longrightarrow> unchanged s t"
  unfolding setUnlockEntry_def and_then_def [of "publishUnlock env a entry"]
  by (auto split: prod.splits sum.splits dest: publishUnlock_run takeUnlock_run)

lemma next_unlocked_ids: "unlocked_ids (cache_entry a entry s) = next_unlocked a entry (unlocked_ids s)"
proof -
  have del: "map fst (js_delete a m) = filter (\<lambda>i. i \<noteq> a) (map fst m)" for m :: "(string \<times> key_ref) list"
    by (induction m) auto
  have set: "map fst (js_set a k m) = (if a \<in> fst ` set m then map fst m else map fst m @ [a])" for m :: "(string \<times> key_ref) list" and k
    by (induction m) auto
  show ?thesis by (cases entry) (simp_all add: unlocked_ids_def cache_entry_def next_unlocked_def del set)
qed

lemma setUnlockEntry_returns:
  assumes "setUnlockEntry env a entry s = (Inr (), t)"
  shows "current t" and "mukCache t = (case entry of None \<Rightarrow> js_delete a (mukCache s) | Some k \<Rightarrow> js_set a k (mukCache s))"
    and "slot_ok sl \<Longrightarrow> sl \<noteq> GlobalSlot Native_view \<Longrightarrow> value_at t sl = value_at s sl"
    and "deviceKeyCache t = deviceKeyCache s" and "clock s \<le> clock t"
proof -
  obtain p u where pub: "publishUnlock env a entry s = (Inr p, u)" and take: "takeUnlock env a entry p u = (Inr (), t)"
    using assms by (auto simp: setUnlockEntry_def and_then_def split: prod.splits sum.splits)
  have refresh: "refreshNativeView env (next_unlocked a entry (unlocked_ids s)) s = (Inr (), u)"
    using publishUnlock_run [OF pub] by simp
  note r = refresh_returns [OF refresh]
  obtain w where w: "unchanged u w" and t: "t = (let v = cache_entry a entry w in v\<lparr>unlockNotices := unlockNotices v @ [unlocked_ids v]\<rparr>)"
    using takeUnlock_run [OF take] by auto
  have muk: "mukCache w = mukCache s" using w r(1) by (simp add: unchanged_def)
  then show "mukCache t = (case entry of None \<Rightarrow> js_delete a (mukCache s) | Some k \<Rightarrow> js_set a k (mukCache s))"
    by (simp add: t Let_def cache_entry_def split: option.split)
  have vals: "value_at t = value_at w" by (intro ext) (simp add: t Let_def cache_entry_def slot_text_def)
  show "slot_ok sl \<Longrightarrow> sl \<noteq> GlobalSlot Native_view \<Longrightarrow> value_at t sl = value_at s sl"
    using vals unchanged_values [OF w] r(5) by simp
  show "deviceKeyCache t = deviceKeyCache s" "clock s \<le> clock t"
    using w r(2,4) by (auto simp: t Let_def cache_entry_def unchanged_def store_clock_def)
  have now: "current (u\<lparr>mukCache := mukCache t\<rparr>)"
  proof (rule current_after [OF refresh])
    have "unlocked_ids t = unlocked_ids (cache_entry a entry w)" by (simp add: t Let_def unlocked_ids_def)
    then show "unlocked_ids (u\<lparr>mukCache := mukCache t\<rparr>) = next_unlocked a entry (unlocked_ids s)"
      using next_unlocked_ids [of a entry w] muk by (simp add: unlocked_ids_def)
  qed simp
  have "value_at t = value_at (u\<lparr>mukCache := mukCache t\<rparr>)"
    using vals unchanged_values [OF w] by (auto simp: slot_text_def [abs_def])
  then show "current t" using now by (simp add: view_current_def unlocked_ids_def)
qed

lemma unchanged_current: "unchanged s t \<Longrightarrow> current s \<Longrightarrow> current t"
  by (simp add: view_current_def unchanged_values unchanged_ids)

lemma keeps_setUnlockEntry: "keeps current (setUnlockEntry env a entry)"
proof (rule keepsI)
  fix s assume now: "current s"
  obtain r t where run: "setUnlockEntry env a entry s = (r, t)" by fastforce
  then show "current (snd (setUnlockEntry env a entry s))"
    using setUnlockEntry_fails unchanged_current [OF _ now] setUnlockEntry_returns(1) by (cases r) auto
qed

lemma setUnlockEntry_publishes: "leads I (setUnlockEntry env a entry) (\<lambda>_. current)"
  by (rule leadsI) (simp add: setUnlockEntry_returns)

section \<open>Every call that returns leaves the view current\<close>

lemma writeAccountsList_publishes: "leads I (writeAccountsList env accounts) (\<lambda>_. current)"
  unfolding writeAccountsList_def by (rule leads_then) (rule refresh_view_publishes)

lemma writeActiveAccount_publishes: "leads I (writeActiveAccount env acc) (\<lambda>_. current)"
  unfolding writeActiveAccount_def by (rule leads_then) (rule refresh_view_publishes)

lemma notify_keeps: "keeps current notifyUnlockListeners"
  unfolding notifyUnlockListeners_def
  by (rule keeps_put_state) (simp add: view_current_def slot_text_def [abs_def] unlocked_ids_def)

lemma leads_void: "leads I m (\<lambda>_. J) \<Longrightarrow> leads I (void m) (\<lambda>_. J)"
  unfolding void_def by (rule leads_seq, assumption, rule leads_ok)

lemma keeps_tryRestore: "keeps current (tryRestoreSession env skip acc)"
  unfolding tryRestoreSession_def
  by (intro keeps_and_then keeps_for_account keeps_if keeps_case_option keeps_ok keeps_get_state keeps_decrypt
        keeps_setUnlockEntry keeps_methods)

lemma keeps_clearSession: "keeps current (clearSession env acc)"
  unfolding clearSession_def
  by (intro keeps_and_then keeps_for_account keeps_if keeps_ok keeps_get_state keeps_private(2) keeps_setUnlockEntry)
     (simp_all add: ACCOUNT_VALUES_def)

lemma keeps_unlock_after_prompt: "keeps current (unlock_after_prompt env a)"
  unfolding unlock_after_prompt_def
  by (intro keeps_intros keeps_decrypt keeps_setUnlockEntry)

lemma keeps_first: "keeps current (first_unlockable env as)"
  by (induction as) (auto intro!: keeps_and_then keeps_if keeps_ok keeps_methods)

lemma keeps_require: "(\<And>a. keeps current (f a)) \<Longrightarrow> keeps current (and_then (requireAccountId env acc) f)"
  by (intro keeps_and_then keeps_methods)

lemma setBiometricEnabled_publishes: "leads I (setBiometricEnabled env a b) (\<lambda>_. current)"
  unfolding setBiometricEnabled_def by (intro leads_then) (rule refresh_view_publishes)

lemma removeAccount_publishes: "leads I (removeAccountInternal env a) (\<lambda>_. current)"
  unfolding removeAccountInternal_def
  by (intro leads_then leads_seq [OF writeAccountsList_publishes] leads_keeps keeps_if notify_keeps keeps_ok)

lemma clearAll_publishes: "leads current (clearAllStoredData env acc) (\<lambda>_. current)"
  unfolding clearAllStoredData_def
proof (rule leads_seq [OF leads_keeps [OF keeps_leaves [OF leaves_resolve]]])
  fix r
  show "leads current (and_then (case r of None \<Rightarrow> ok () | Some a \<Rightarrow> removeAccountInternal env a) (\<lambda>_.
     and_then (readAccountsList env) (\<lambda>accounts.
     if accounts \<noteq> [] then ok ()
     else and_then (deleteGlobal env Device_key) (\<lambda>_.
          and_then (get_state deviceKeyCache) (\<lambda>cached.
          and_then (destroyKey env cached) (\<lambda>_.
          and_then (put_state (\<lambda>s. s\<lparr>deviceKeyCache := None\<rparr>)) (\<lambda>_.
          writeActiveAccount env None))))))) (\<lambda>_. current)"
    by (intro leads_seq [where J = current] leads_case_option removeAccount_publishes leads_keeps [OF keeps_ok]
          leads_keeps [OF keeps_leaves [OF leaves_reads(3)]] leads_if leads_then writeActiveAccount_publishes)
qed

lemma leads_for_account:
  "(\<And>a. leads current (f a) (\<lambda>_. current)) \<Longrightarrow> leads current (for_account env acc x f) (\<lambda>_. current)"
  unfolding for_account_def
  by (intro leads_seq [OF leads_keeps [OF keeps_leaves [OF leaves_resolve]]] leads_case_option leads_keeps [OF keeps_ok])

lemma keeps_seal: "keeps current (writeSessionData env a session)"
  unfolding writeSessionData_def by (rule keeps_private(1)) (simp_all add: ACCOUNT_VALUES_def)

lemma keeps_enhanced: "keeps current (authenticateWithBiometricEnhanced env reason acc)"
  unfolding authenticateWithBiometricEnhanced_def
  by (intro keeps_catch keeps_and_then keeps_for_account keeps_if keeps_ok keeps_private(1,2) keeps_methods)
     (simp_all add: ACCOUNT_VALUES_def)

lemma keeps_unlockWithBiometric: "keeps current (unlockWithBiometric env acc reason)"
  unfolding unlockWithBiometric_def
  by (intro keeps_catch keeps_and_then keeps_for_account keeps_if keeps_case_option keeps_ok keeps_decrypt
        keeps_setUnlockEntry keeps_methods)

lemma keeps_unlockAll: "keeps current (unlockAllAccountsWithBiometric env reason)"
  unfolding unlockAllAccountsWithBiometric_def
  by (intro keeps_and_then keeps_if keeps_ok keeps_first keeps_authenticate keeps_map_each keeps_unlock_after_prompt
        keeps_methods)

lemma keeps_quiet_restore: "keeps current (tryRestoreSessionWithoutPrompt env acc)"
  unfolding tryRestoreSessionWithoutPrompt_def
  by (intro keeps_and_then keeps_for_account keeps_if keeps_ok keeps_get_state keeps_tryRestore keeps_methods)

lemma keeps_void: "keeps current m \<Longrightarrow> keeps current (void m)"
  unfolding void_def by (intro keeps_and_then keeps_ok)

text \<open>The calls that keep the view current even when they throw.\<close>

lemma keeps_private_calls:
  "keeps current (storeSessionData env k acc e u x i)"
  "keeps current (updateStoredSessionMetadata env acc i expiry)"
  "keeps current (updateLastMasterPasswordEntry env z)"
  "keeps current (storeSecretKey env k z)" "keeps current (storeAuthToken env k z)"
  "keeps current (writeVaultKeys env ks z)" "keeps current (storeEncryptedPrivateKey env k z)"
  "keeps current (storePinnedKdfProfile env p acc)" "keeps current (storeServerUrl env k z)"
  "keeps current (storeMasterPasswordReentryPeriodMs env ms)" "keeps current (storeTravelModeCache env c z)"
  "keeps current (storeBackgroundTimestamp env z)" "keeps current (clearBackgroundTimestamp env z)"
  "keeps current (forgetSession env z)" "keeps current (setMasterUnlockKey env k z)"
  "keeps current (clearMasterUnlockKey env z)"
  unfolding storeSessionData_def updateStoredSessionMetadata_def updateLastMasterPasswordEntry_def
    storeSecretKey_def storeAuthToken_def writeVaultKeys_def storeEncryptedPrivateKey_def
    storePinnedKdfProfile_def storeServerUrl_def storeMasterPasswordReentryPeriodMs_def
    storeTravelModeCache_def storeBackgroundTimestamp_def clearBackgroundTimestamp_def
    forgetSession_def setMasterUnlockKey_def clearMasterUnlockKey_def
  by (intro keeps_and_then keeps_for_account keeps_case_option keeps_ok keeps_seal keeps_device_key
        keeps_private keeps_clearSession keeps_setUnlockEntry keeps_methods;
      simp add: ACCOUNT_VALUES_def GLOBAL_VALUES_def)+

lemma lockAll_publishes: "leads I (lockAllAccounts env) (\<lambda>_. current)"
  unfolding lockAllAccounts_def
  by (intro leads_then leads_seq [OF refresh_view_publishes] leads_keeps notify_keeps)

lemma addAccount_publishes: "leads I (addAccount env a) (\<lambda>_. current)"
  unfolding addAccount_def Let_def by (intro leads_then writeAccountsList_publishes)

lemma setActiveAccount_publishes: "leads I (setActiveAccount env acc) (\<lambda>_. current)"
  unfolding setActiveAccount_def
  by (intro leads_seq [OF writeActiveAccount_publishes] leads_if leads_case_option leads_keeps [OF keeps_ok]
        leads_seq [OF leads_keeps [OF keeps_leaves [OF leaves_reads(3)]]]
        leads_seq [OF leads_keeps [OF keeps_leaves [OF leaves_now]]] writeAccountsList_publishes)

lemma confirm_publishes: "leads current (setInsecureTransportConfirmed env acc b) (\<lambda>_. current)"
  unfolding setInsecureTransportConfirmed_def
  by (intro leads_seq [OF leads_keeps [OF keeps_leaves [OF leaves_reads(3)]]] leads_case_option leads_throw
        writeAccountsList_publishes)

lemma initialize_publishes: "leads I (initialize env) (\<lambda>_. current)"
proof (cases "assertTiersHonoured (ppTiers (sePort env))")
  case (Inl e)
  then show ?thesis by (simp add: initialize_def leads_throw)
next
  case (Inr x)
  then show ?thesis by (simp add: initialize_def leads_then refresh_view_publishes)
qed

lemma autoLock_publishes: "leads I (storeAutoLockTimeout env ms acc) (\<lambda>_. current)"
  unfolding storeAutoLockTimeout_def by (intro leads_then refresh_view_publishes)

lemma perform_current: "leads current (store_perform env c) (\<lambda>_. current)"
proof -
  have enable: "leads current (enableBiometric env acc) (\<lambda>_. current)" for acc
    unfolding enableBiometric_def
    by (intro leads_seq [OF leads_keeps [OF keeps_leaves [OF leaves_require]]]
          leads_seq [OF leads_keeps [OF keeps_leaves [OF calm_leaves [OF calm_available]]]]
          leads_if leads_keeps [OF keeps_ok] setBiometricEnabled_publishes)
  have disable: "leads current (disableBiometric env acc) (\<lambda>_. current)" for acc
    unfolding disableBiometric_def by (intro leads_then setBiometricEnabled_publishes)
  show ?thesis
    by (cases c)
       (simp_all only: store_perform.simps, (rule initialize_publishes setActiveAccount_publishes addAccount_publishes
          confirm_publishes removeAccount_publishes clearAll_publishes lockAll_publishes autoLock_publishes
          setBiometricEnabled_publishes enable disable
          leads_keeps [OF keeps_private_calls(1)] leads_keeps [OF keeps_private_calls(2)]
          leads_keeps [OF keeps_private_calls(3)] leads_keeps [OF keeps_private_calls(4)]
          leads_keeps [OF keeps_private_calls(5)] leads_keeps [OF keeps_private_calls(6)]
          leads_keeps [OF keeps_private_calls(7)] leads_keeps [OF keeps_private_calls(8)]
          leads_keeps [OF keeps_private_calls(9)] leads_keeps [OF keeps_private_calls(10)]
          leads_keeps [OF keeps_private_calls(11)] leads_keeps [OF keeps_private_calls(12)]
          leads_keeps [OF keeps_private_calls(13)] leads_keeps [OF keeps_private_calls(14)]
          leads_keeps [OF keeps_private_calls(15)] leads_keeps [OF keeps_private_calls(16)]
          leads_keeps [OF keeps_clearSession] leads_keeps [OF keeps_void [OF keeps_tryRestore]]
          leads_keeps [OF keeps_void [OF keeps_quiet_restore]] leads_keeps [OF keeps_void [OF keeps_decrypt]]
          leads_keeps [OF keeps_void [OF keeps_authenticate]] leads_keeps [OF keeps_void [OF keeps_enhanced]]
          leads_keeps [OF keeps_void [OF keeps_unlockWithBiometric]] leads_keeps [OF keeps_void [OF keeps_unlockAll]])+)
qed

lemma calls_current: "leads current (for_each cs (store_perform env)) (\<lambda>_. current)"
  by (induction cs) (auto intro!: leads_keeps [OF keeps_ok] leads_seq [OF perform_current])

end

end
