(* ===== verification/AccountStoreUnlock.thy ===== *)
theory AccountStoreUnlock
  imports AccountStoreCalls
begin

text \<open>
  When a stored key may be unwrapped: the session conditions as functions of the texts and of the
  time, and the proof that a call which adds a key to the unlocked set was entitled to.
\<close>

section \<open>The conditions\<close>

definition reentry_due :: "slot_texts \<Rightarrow> int \<Rightarrow> resolved_session \<Rightarrow> bool" where
  "reentry_due v t session \<longleftrightarrow> session_wants_biometric session \<and> 0 \<le> period_in v \<and>
     period_in v \<le> t - coalesce (ssLastMasterPasswordEntry session) (ssCreatedAt session)"

definition prompt_due :: "'w store_env \<Rightarrow> slot_texts \<Rightarrow> int \<Rightarrow> string \<Rightarrow> bool" where
  "prompt_due env v t a = (case session_in env v a of
       None \<Rightarrow> False
     | Some session \<Rightarrow> session_wants_biometric session \<and>
         (case parseStoredNumber (v (AccountSlot a Last_biometric_auth)) of
            None \<Rightarrow> True | Some l \<Rightarrow> t - l > BIOMETRIC_GRACE_PERIOD_MS))"

definition session_valid :: "'w store_env \<Rightarrow> slot_texts \<Rightarrow> int \<Rightarrow> string \<Rightarrow> bool" where
  "session_valid env v t a = (case session_in env v a of
       None \<Rightarrow> False
     | Some session \<Rightarrow> t < effectiveSessionExpiry session \<and>
         (case v (AccountSlot a Jwt_token) of None \<Rightarrow> False | Some token \<Rightarrow> text_of token \<noteq> []))"

definition reentry_passed :: "'w store_env \<Rightarrow> slot_texts \<Rightarrow> int \<Rightarrow> string \<Rightarrow> bool" where
  "reentry_passed env v t a = (case session_in env v a of
       None \<Rightarrow> False | Some session \<Rightarrow> \<not> reentry_due v t session)"

lemma earlier:
  assumes "t \<le> t'"
  shows "session_valid env v t' a \<Longrightarrow> session_valid env v t a"
    and "reentry_passed env v t' a \<Longrightarrow> reentry_passed env v t a"
    and "\<not> prompt_due env v t' a \<Longrightarrow> \<not> prompt_due env v t a"
  using assms
  by (auto simp: session_valid_def reentry_passed_def reentry_due_def prompt_due_def split: option.splits)

text \<open>A prompt that succeeded after a state s left the time of the authentication behind.\<close>

definition prompted :: "'w store_env \<Rightarrow> 'w store_texts \<Rightarrow> 'w account_store \<Rightarrow> string \<Rightarrow> 'w account_store \<Rightarrow> bool" where
  "prompted env texts s a t \<longleftrightarrow> (\<exists>n. store_clock env s \<le> n \<and>
     slot_text env texts t (AccountSlot a Last_biometric_auth) = Some (PlainText (int_text n)))"

text \<open>The calls that unlock one account from its stored session; Restore says whether it skips the prompt.\<close>

datatype unlock_way = Restore bool | RestoreQuietly | WithBiometric string

fun unlock_by :: "'w store_env \<Rightarrow> unlock_way \<Rightarrow> string option \<Rightarrow> ('w, bool) store_act" where
  "unlock_by env (Restore skipBiometric) acc = tryRestoreSession env skipBiometric acc"
| "unlock_by env RestoreQuietly acc = tryRestoreSessionWithoutPrompt env acc"
| "unlock_by env (WithBiometric reason) acc = unlockWithBiometric env acc reason"

lemma resolved_nonempty: "resolved_in v acc = Some a \<Longrightarrow> a \<noteq> []"
  by (auto simp: resolved_in_def active_in_def absent_def split: option.splits if_splits)

context account_platform begin

section \<open>Reading in time\<close>

lemma leaves_from: "leaves m \<Longrightarrow> ends (unchanged s) m (\<lambda>_. unchanged s) (\<lambda>_. unchanged s)"
  by (rule endsI) (blast intro: unchanged_trans leavesD)+

lemma yields_from:
  assumes "yields f m"
  shows "ends (unchanged s) m (\<lambda>_. unchanged s) (\<lambda>x t. unchanged s t \<and> f (value_at s) = x)"
proof (rule endsI)
  fix u e t assume u: "unchanged s u" and m: "m u = (Inl e, t)"
  show "unchanged s t" using unchanged_trans [OF u leavesD [OF yields_leaves [OF assms] m]] .
next
  fix u x t assume u: "unchanged s u" and m: "m u = (Inr x, t)"
  show "unchanged s t \<and> f (value_at s) = x"
    using unchanged_trans [OF u] yieldsD [OF assms m] unchanged_values [OF u] by simp
qed

lemma ends_seq:
  assumes "ends P m E (\<lambda>x t. P t \<and> F x)" "\<And>x. F x \<Longrightarrow> ends P (f x) E Q"
  shows "ends P (and_then m f) E Q"
  by (rule ends_and_then [OF assms(1)], rule ends_conj_fact, rule assms(2))

lemma now_from: "ends (unchanged s) (nowOf env) E (\<lambda>n t. unchanged s t \<and> clock s \<le> n)"
  by (rule endsI) (auto simp: nowOf_def get_state_def unchanged_def store_clock_def)

lemma for_account_from:
  assumes "\<And>a. a \<noteq> [] \<Longrightarrow> resolved_in (value_at s) acc = Some a \<Longrightarrow> ends (unchanged s) (f a) E Q"
    and "\<And>t. unchanged s t \<Longrightarrow> Q x t" "\<And>e t. unchanged s t \<Longrightarrow> E e t"
  shows "ends (unchanged s) (for_account env acc x f) E Q"
proof -
  have resolve: "ends (unchanged s) (resolveAccountId env acc) E (\<lambda>r t. unchanged s t \<and> resolved_in (value_at s) acc = r)"
    by (rule ends_weaken [OF yields_from [OF resolve_yields]]) (simp_all add: assms(3))
  show ?thesis
    unfolding for_account_def
    by (rule ends_seq [OF resolve], rule ends_option, rule ends_ok, rule assms(2), assumption, rule assms(1))
       (simp_all add: resolved_nonempty [of "value_at s" acc])
qed

lemma for_named [simp]: "a \<noteq> [] \<Longrightarrow> for_account env (Some a) x f = f a"
  by (simp add: for_account_def resolveAccountId_def absent_def)

lemma session_from:
  assumes "a \<noteq> []"
  shows "ends (unchanged s) (getStoredSessionData env (Some a)) (\<lambda>_. unchanged s)
    (\<lambda>x t. unchanged s t \<and> session_in env (value_at s) a = x)"
  using yields_from [OF session_yields [of "Some a"], of s] assms by simp

lemma token_from:
  assumes "a \<noteq> []"
  shows "ends (unchanged s) (getAuthToken env (Some a)) (\<lambda>_. unchanged s)
    (\<lambda>x t. unchanged s t \<and> value_at s (AccountSlot a Jwt_token) = x)"
  using yields_from [OF token_yields [of "Some a"], of s] assms by simp

lemma valid_from:
  assumes "a \<noteq> []"
  shows "ends (unchanged s) (isSessionValid env (Some a)) (\<lambda>_. unchanged s)
    (\<lambda>x t. unchanged s t \<and> (x \<longrightarrow> session_valid env (value_at s) (clock s) a))"
proof -
  have "ends (unchanged s)
     (and_then (getStoredSessionData env (Some a)) (\<lambda>session.
      and_then (getAuthToken env (Some a)) (\<lambda>token.
      case session of None \<Rightarrow> ok False
      | Some ss \<Rightarrow> if token = None \<or> text_of (the token) = [] then ok False
          else and_then (nowOf env) (\<lambda>t. ok (t < effectiveSessionExpiry ss)))))
     (\<lambda>_. unchanged s) (\<lambda>x t. unchanged s t \<and> (x \<longrightarrow> session_valid env (value_at s) (clock s) a))"
    by (rule ends_seq [OF session_from [OF assms]], rule ends_seq [OF token_from [OF assms]],
        rule ends_option, rule ends_ok, simp, rule ends_if, rule ends_ok, simp,
        rule ends_seq [OF now_from], rule ends_ok)
       (auto simp: session_valid_def)
  then show ?thesis using assms by (simp add: isSessionValid_def)
qed

lemma required_from:
  assumes "a \<noteq> []"
  shows "ends (unchanged s) (isBiometricAuthRequired env a) (\<lambda>_. unchanged s)
    (\<lambda>x t. unchanged s t \<and> (\<not> x \<longrightarrow> \<not> prompt_due env (value_at s) (clock s) a))"
  unfolding isBiometricAuthRequired_def
proof (rule ends_seq [OF session_from [OF assms]])
  fix session assume session: "session_in env (value_at s) a = session"
  let ?Q = "\<lambda>x t. unchanged s t \<and> (\<not> x \<longrightarrow> \<not> prompt_due env (value_at s) (clock s) a)"
  have "ends (unchanged s) (case parseStoredNumber raw of
         None \<Rightarrow> ok True
       | Some lastAuth \<Rightarrow> and_then (nowOf env) (\<lambda>t. ok (t - lastAuth > BIOMETRIC_GRACE_PERIOD_MS)))
      (\<lambda>_. unchanged s) ?Q" if "value_at s (AccountSlot a Last_biometric_auth) = raw" for raw
    using session that
    by (intro ends_option ends_ok ends_seq [OF now_from]) (auto simp: prompt_due_def split: option.splits)
  then show "ends (unchanged s)
     (if session = None \<or> \<not> session_wants_biometric (the session) then ok False
      else and_then (readAccount env Last_biometric_auth a) (\<lambda>raw.
        case parseStoredNumber raw of
          None \<Rightarrow> ok True
        | Some lastAuth \<Rightarrow> and_then (nowOf env) (\<lambda>t. ok (t - lastAuth > BIOMETRIC_GRACE_PERIOD_MS))))
     (\<lambda>_. unchanged s) ?Q"
    using session
    by (intro ends_if ends_ok ends_seq [OF yields_from [OF readAccount_yields]]) (auto simp: prompt_due_def split: option.splits)
qed

lemma reentry_from:
  assumes "a \<noteq> []"
  shows "ends (unchanged s) (isMasterPasswordReentryRequired env (Some a)) (\<lambda>_. unchanged s)
    (\<lambda>x t. unchanged s t \<and> (\<not> x \<and> session_in env (value_at s) a \<noteq> None \<longrightarrow>
       reentry_passed env (value_at s) (clock s) a))"
proof -
  have "ends (unchanged s)
     (and_then (getStoredSessionData env (Some a)) (\<lambda>session. case session of
        None \<Rightarrow> ok False
      | Some ss \<Rightarrow> if \<not> session_wants_biometric ss then ok False
          else and_then (getMasterPasswordReentryPeriodMs env) (\<lambda>periodMs.
            if periodMs < 0 then ok False
            else and_then (nowOf env) (\<lambda>t.
              ok (t - coalesce (ssLastMasterPasswordEntry ss) (ssCreatedAt ss) \<ge> periodMs)))))
     (\<lambda>_. unchanged s) (\<lambda>x t. unchanged s t \<and> (\<not> x \<and> session_in env (value_at s) a \<noteq> None \<longrightarrow>
       reentry_passed env (value_at s) (clock s) a))"
    by (rule ends_seq [OF session_from [OF assms]], rule ends_option, rule ends_ok, simp, rule ends_if, rule ends_ok,
        simp add: reentry_passed_def reentry_due_def, rule ends_seq [OF yields_from [OF period_yields]],
        rule ends_if, rule ends_ok, simp add: reentry_passed_def reentry_due_def,
        rule ends_seq [OF now_from], rule ends_ok)
       (auto simp: reentry_passed_def reentry_due_def)
  then show ?thesis using assms by (simp add: isMasterPasswordReentryRequired_def)
qed

section \<open>What a call may change\<close>

text \<open>moved D s t: the unlocked set is that of s, and only the slots in D may differ.\<close>

definition moved :: "slot set \<Rightarrow> 'w account_store \<Rightarrow> 'w account_store \<Rightarrow> bool" where
  "moved D s t \<longleftrightarrow> mukCache t = mukCache s \<and> clock s \<le> clock t \<and>
     (\<forall>sl. slot_ok sl \<and> sl \<notin> D \<longrightarrow> value_at t sl = value_at s sl)"

definition moves :: "slot set \<Rightarrow> ('w, 'a) store_act \<Rightarrow> bool" where
  "moves D m \<longleftrightarrow> (\<forall>s. moved D s (snd (m s)))"

lemma moved_trans: "moved D s t \<Longrightarrow> moved D t u \<Longrightarrow> moved D s u"
  by (auto simp: moved_def)

lemma unchanged_moved: "unchanged s t \<Longrightarrow> moved D s t"
  by (simp add: moved_def unchanged_values) (simp add: unchanged_def)

lemma movesD: "moves D m \<Longrightarrow> m s = (r, t) \<Longrightarrow> moved D s t"
  by (auto simp: moves_def dest: spec [where x = s])

lemma leaves_moves: "leaves m \<Longrightarrow> moves D m"
  by (simp add: moves_def leaves_def unchanged_moved)

lemma moves_and_then:
  assumes "moves D m" "\<And>a. moves D (f a)"
  shows "moves D (and_then m f)"
  unfolding moves_def
proof
  fix s
  obtain r t where m: "m s = (r, t)" by fastforce
  show "moved D s (snd (and_then m f s))"
    using movesD [OF assms(1) m] moved_trans [of D s t] assms(2) m
    by (cases r) (auto simp: and_then_def moves_def)
qed

lemma moves_catch:
  assumes "moves D m" "\<And>e. moves D (h e)"
  shows "moves D (catch m h)"
  unfolding moves_def
proof
  fix s
  obtain r t where m: "m s = (r, t)" by fastforce
  show "moved D s (snd (catch m h s))"
    using movesD [OF assms(1) m] moved_trans [of D s t] assms(2) m
    by (cases r) (auto simp: catch_def moves_def)
qed

lemma moves_cases:
  "moves D m \<Longrightarrow> moves D n \<Longrightarrow> moves D (if b then m else n)"
  "moves D m \<Longrightarrow> (\<And>x. moves D (f x)) \<Longrightarrow> moves D (case z of None \<Rightarrow> m | Some x \<Rightarrow> f x)"
  by (simp, cases z) simp_all

lemma moves_stores:
  assumes st: "stores sl x m" and "slot_ok sl" "sl \<in> D"
  shows "moves D m"
  unfolding moves_def
proof
  fix s
  obtain r t where m: "m s = (r, t)" by fastforce
  show "moved D s (snd (m s))"
  proof (cases r)
    case (Inl e)
    then show ?thesis using unchanged_moved stores_error [OF st] m by simp
  next
    case (Inr a)
    then show ?thesis
      using stores_caches [OF st m] stores_value [OF st _ assms(2)] m assms(3) by (auto simp: moved_def)
  qed
qed

lemma moves_put_device: "moves D (put_state (\<lambda>s. s\<lparr>deviceKeyCache := k\<rparr>))"
  by (simp add: moves_def put_state_def moved_def store_clock_def slot_text_def)

lemmas moves_rules = moves_and_then moves_catch moves_cases leaves_moves [OF leaves_ok] leaves_moves [OF leaves_throw]
  leaves_moves [OF leaves_get]

lemma moves_device_key: "GlobalSlot Device_key \<in> D \<Longrightarrow> moves D (getDeviceKey env)"
  unfolding getDeviceKey_def loadDeviceKey_def
  by (intro moves_rules moves_put_device moves_stores [OF account_stores(3)] leaves_methods [THEN leaves_moves])
     (simp_all add: GLOBAL_VALUES_def)

lemma moves_unwrap: "GlobalSlot Device_key \<in> D \<Longrightarrow> moves D (unwrap_stored env session)"
  unfolding unwrap_stored_def by (intro moves_rules moves_device_key leaves_methods [THEN leaves_moves])

lemma unwrap_returns: "ends P (unwrap_stored env session) (\<lambda>_ _. False) (\<lambda>_ _. True)"
  by (rule endsI) (auto simp: unwrap_stored_def catch_def ok_def split: prod.splits sum.splits)

section \<open>Prompts and the stored key\<close>

definition touched_by_unlock :: "string \<Rightarrow> slot set" where
  "touched_by_unlock a = {GlobalSlot Device_key, AccountSlot a Last_biometric_auth}"

lemma authenticate_from:
  assumes "a \<noteq> []"
  shows "ends (unchanged s) (authenticateWithBiometric env reason (Some a)) (\<lambda>_ _. False)
    (\<lambda>x t. moved (touched_by_unlock a) s t \<and> (x \<longrightarrow> prompted env texts s a t))"
proof -
  let ?M = "moved (touched_by_unlock a)"
  have stamp: "ends (unchanged s) (writeAccount env Last_biometric_auth a (PlainText (int_text n))) (\<lambda>_. ?M s)
      (\<lambda>_ t. ?M s t \<and> prompted env texts s a t)" if n: "clock s \<le> n" for n
  proof (rule endsI)
    fix u e t assume u: "unchanged s u" and w: "writeAccount env Last_biometric_auth a (PlainText (int_text n)) u = (Inl e, t)"
    show "?M s t"
      using unchanged_trans [OF u stores_error [OF account_stores(1) w]] by (rule unchanged_moved)
  next
    fix u x t assume u: "unchanged s u" and w: "writeAccount env Last_biometric_auth a (PlainText (int_text n)) u = (Inr x, t)"
    have "?M u t"
      using moves_stores [OF account_stores(1) [of a Last_biometric_auth], of "touched_by_unlock a"] w
      by (auto simp: touched_by_unlock_def ACCOUNT_VALUES_def dest: movesD)
    moreover have "value_at t (AccountSlot a Last_biometric_auth) = Some (PlainText (int_text n))"
      using stores_value [OF account_stores(1) [of a Last_biometric_auth], of "PlainText (int_text n)" u t] w
      by (simp add: ACCOUNT_VALUES_def)
    ultimately show "?M s t \<and> prompted env texts s a t"
      using moved_trans [OF unchanged_moved [OF u]] n by (auto simp: prompted_def)
  qed
  show ?thesis
    unfolding authenticateWithBiometric_def for_named [OF assms]
    by (rule ends_catch [where E' = "\<lambda>_. ?M s"],
        rule ends_and_then [OF ends_weaken [OF leaves_from [OF calm_leaves [OF calm_authenticate]]]],
        assumption, erule unchanged_moved, assumption, rule ends_if, rule ends_ok, simp add: unchanged_moved,
        rule ends_seq [OF now_from], rule ends_and_then [OF stamp], assumption, rule ends_ok, simp, rule ends_ok, simp)
qed

lemma pass_from:
  assumes "a \<noteq> []" and session: "session_in env (value_at s) a = Some session"
  shows "ends (unchanged s) (pass_biometric env session skip reason a) (\<lambda>_. moved (touched_by_unlock a) s)
    (\<lambda>x t. moved (touched_by_unlock a) s t \<and>
       (x \<longrightarrow> skip \<or> \<not> prompt_due env (value_at s) (clock s) a \<or> prompted env texts s a t))"
proof -
  let ?M = "moved (touched_by_unlock a)"
  have skip: "\<not> session_wants_biometric session \<Longrightarrow> \<not> prompt_due env (value_at s) (clock s) a"
    using session by (simp add: prompt_due_def)
  have required: "ends (unchanged s) (isBiometricAuthRequired env a) (\<lambda>_. ?M s)
    (\<lambda>x t. unchanged s t \<and> (\<not> x \<longrightarrow> \<not> prompt_due env (value_at s) (clock s) a))"
    by (rule ends_weaken [OF required_from [OF assms(1)]]) (auto intro: unchanged_moved)
  show ?thesis
    unfolding pass_biometric_def
    by (rule ends_if, rule ends_seq [OF required], rule ends_if, rule ends_weaken [OF authenticate_from [OF assms(1)]],
        assumption, simp, blast, rule ends_ok, simp add: unchanged_moved, rule ends_ok,
        use skip in \<open>auto simp: unchanged_moved\<close>)
qed

lemma decrypt_from:
  assumes "a \<noteq> []"
  shows "ends (unchanged s) (decryptStoredMasterUnlockKey env (Some a) skip reason) (\<lambda>_. moved (touched_by_unlock a) s)
    (\<lambda>x t. moved (touched_by_unlock a) s t \<and> (x \<noteq> None \<longrightarrow> reentry_passed env (value_at s) (clock s) a \<and>
       (skip \<or> \<not> prompt_due env (value_at s) (clock s) a \<or> prompted env texts s a t)))"
proof -
  let ?M = "moved (touched_by_unlock a)"
  let ?B = "\<lambda>t. skip \<or> \<not> prompt_due env (value_at s) (clock s) a \<or> prompted env texts s a t"
  have unwrap: "ends (\<lambda>t. ?M s t \<and> ?B t) (unwrap_stored env session) (\<lambda>_. ?M s) (\<lambda>_ t. ?M s t \<and> ?B t)" for session
  proof (rule endsI)
    fix u x t assume u: "?M s u \<and> ?B u" and run: "unwrap_stored env session u = (Inr x, t)"
    have t: "moved {GlobalSlot Device_key} u t" using movesD [OF moves_unwrap run] by blast
    then have "?M u t" by (auto simp: moved_def touched_by_unlock_def)
    moreover have "value_at t (AccountSlot a Last_biometric_auth) = value_at u (AccountSlot a Last_biometric_auth)"
      using t by (simp add: moved_def ACCOUNT_VALUES_def)
    ultimately show "?M s t \<and> ?B t" using u moved_trans by (fastforce simp: prompted_def)
  next
    fix u e t assume "unwrap_stored env session u = (Inl e, t)"
    then show "?M s t" using ends_error [OF unwrap_returns [of "\<lambda>_. True"]] by blast
  qed
  have session': "ends (unchanged s) (getStoredSessionData env (Some a)) (\<lambda>_. ?M s)
    (\<lambda>x t. unchanged s t \<and> session_in env (value_at s) a = x)"
    by (rule ends_weaken [OF session_from [OF assms]]) (auto intro: unchanged_moved)
  have reentry: "ends (unchanged s) (isMasterPasswordReentryRequired env (Some a)) (\<lambda>_. ?M s)
    (\<lambda>x t. unchanged s t \<and> (\<not> x \<and> session_in env (value_at s) a \<noteq> None \<longrightarrow>
       reentry_passed env (value_at s) (clock s) a))"
    by (rule ends_weaken [OF reentry_from [OF assms]]) (auto intro: unchanged_moved)
  let ?Q = "\<lambda>x t. ?M s t \<and> (x \<noteq> None \<longrightarrow> reentry_passed env (value_at s) (clock s) a \<and> ?B t)"
  have rest: "ends (unchanged s) (and_then (pass_biometric env session skip reason a) (\<lambda>passed.
           if \<not> passed then ok None else unwrap_stored env session)) (\<lambda>_. ?M s) ?Q"
    if "session_in env (value_at s) a = Some session" "reentry_passed env (value_at s) (clock s) a" for session
    by (rule ends_and_then [OF pass_from [OF assms that(1)]], rule ends_if, rule ends_ok, simp,
        rule ends_weaken [OF unwrap], simp, simp, use that(2) in simp)
  show ?thesis
    unfolding decryptStoredMasterUnlockKey_def for_named [OF assms]
    by (rule ends_seq [OF session'], rule ends_option, rule ends_ok, simp add: unchanged_moved,
        rule ends_seq [OF reentry], rule ends_if, rule ends_ok, simp add: unchanged_moved, rule rest, simp_all)
qed

section \<open>Unlocking\<close>

text \<open>
  What an unlock of acc may do to the unlocked set it found in s: nothing, or add the key of the
  resolved account, whose session is valid and due neither for the master password nor, unless a
  prompt has just succeeded, for biometrics.
\<close>

definition unlock_allowed :: "bool \<Rightarrow> 'w account_store \<Rightarrow> string option \<Rightarrow> 'w account_store \<Rightarrow> bool" where
  "unlock_allowed skip s acc t \<longleftrightarrow> mukCache t = mukCache s \<or>
     (\<exists>a k. resolved_in (value_at s) acc = Some a \<and> mukCache t = js_set a k (mukCache s) \<and>
       session_valid env (value_at s) (clock s) a \<and> reentry_passed env (value_at s) (clock s) a \<and>
       (skip \<or> \<not> prompt_due env (value_at s) (clock s) a \<or> prompted env texts s a t))"

lemma unchanged_allowed: "unchanged s t \<Longrightarrow> unlock_allowed skip s acc t"
  by (simp add: unlock_allowed_def unchanged_def)

lemma moved_allowed: "moved D s t \<Longrightarrow> unlock_allowed skip s acc t"
  by (simp add: unlock_allowed_def moved_def)

lemma unlock_step:
  assumes "resolved_in (value_at s) acc = Some a" "session_valid env (value_at s) (clock s) a"
    "reentry_passed env (value_at s) (clock s) a"
  shows "ends (\<lambda>t. moved (touched_by_unlock a) s t \<and>
      (skip \<or> \<not> prompt_due env (value_at s) (clock s) a \<or> prompted env texts s a t))
    (setUnlockEntry env a (Some k)) (\<lambda>_. unlock_allowed skip s acc) (\<lambda>_. unlock_allowed skip s acc)"
proof (rule endsI)
  fix u e t assume u: "moved (touched_by_unlock a) s u \<and>
      (skip \<or> \<not> prompt_due env (value_at s) (clock s) a \<or> prompted env texts s a u)"
    and run: "setUnlockEntry env a (Some k) u = (Inl e, t)"
  show "unlock_allowed skip s acc t"
    using u setUnlockEntry_fails [OF run] by (simp add: unlock_allowed_def moved_def unchanged_def)
next
  fix u x t assume u: "moved (touched_by_unlock a) s u \<and>
      (skip \<or> \<not> prompt_due env (value_at s) (clock s) a \<or> prompted env texts s a u)"
    and run: "setUnlockEntry env a (Some k) u = (Inr x, t)"
  have returned: "setUnlockEntry env a (Some k) u = (Inr (), t)" using run by simp
  note r = setUnlockEntry_returns [OF returned]
  have "prompted env texts s a u \<Longrightarrow> prompted env texts s a t"
    using r(3) [of "AccountSlot a Last_biometric_auth"] by (simp add: prompted_def ACCOUNT_VALUES_def)
  then show "unlock_allowed skip s acc t"
    using u r(2) assms by (auto simp: unlock_allowed_def moved_def)
qed

lemma unlock_with_from:
  assumes "a \<noteq> []" "resolved_in (value_at s) acc = Some a" "session_valid env (value_at s) (clock s) a"
  shows "ends (unchanged s) (and_then (decryptStoredMasterUnlockKey env (Some a) skip reason) (\<lambda>muk.
      case muk of None \<Rightarrow> ok False | Some k \<Rightarrow> and_then (setUnlockEntry env a (Some k)) (\<lambda>_. ok True)))
    (\<lambda>_. unlock_allowed skip s acc) (\<lambda>_. unlock_allowed skip s acc)"
proof -
  let ?R = "\<lambda>x t. moved (touched_by_unlock a) s t \<and> (x \<noteq> None \<longrightarrow> reentry_passed env (value_at s) (clock s) a \<and>
       (skip \<or> \<not> prompt_due env (value_at s) (clock s) a \<or> prompted env texts s a t))"
  have decrypt: "ends (unchanged s) (decryptStoredMasterUnlockKey env (Some a) skip reason)
      (\<lambda>_. unlock_allowed skip s acc) ?R"
    by (rule ends_weaken [OF decrypt_from [OF assms(1)]]) (auto intro: moved_allowed)
  show ?thesis
  proof (rule ends_and_then [OF decrypt])
  fix x
  show "ends (?R x) (case x of None \<Rightarrow> ok False | Some k \<Rightarrow> and_then (setUnlockEntry env a (Some k)) (\<lambda>_. ok True))
      (\<lambda>_. unlock_allowed skip s acc) (\<lambda>_. unlock_allowed skip s acc)"
  proof (cases x)
    case None
    then show ?thesis by (simp add: ends_ok moved_allowed)
  next
    case (Some k)
    have "ends (?R x) (and_then (setUnlockEntry env a (Some k)) (\<lambda>_. ok True))
      (\<lambda>_. unlock_allowed skip s acc) (\<lambda>_. unlock_allowed skip s acc)"
    proof (cases "reentry_passed env (value_at s) (clock s) a")
      case True
      have "ends (?R x) (setUnlockEntry env a (Some k)) (\<lambda>_. unlock_allowed skip s acc) (\<lambda>_. unlock_allowed skip s acc)"
        by (rule ends_weaken [OF unlock_step [OF assms(2,3) True]]) (use Some in auto)
      then show ?thesis by (rule ends_and_then) (rule ends_ok)
    qed (use Some in \<open>simp add: ends_def\<close>)
    then show ?thesis using Some by simp
  qed
  qed
qed

lemma tryRestore_from:
  "ends (unchanged s) (tryRestoreSession env skip acc) (\<lambda>_. unlock_allowed skip s acc) (\<lambda>_. unlock_allowed skip s acc)"
  unfolding tryRestoreSession_def
proof (rule for_account_from)
  fix a assume a: "a \<noteq> []" "resolved_in (value_at s) acc = Some a"
  have valid: "ends (unchanged s) (isSessionValid env (Some a)) (\<lambda>_. unlock_allowed skip s acc)
    (\<lambda>x t. unchanged s t \<and> (x \<longrightarrow> session_valid env (value_at s) (clock s) a))"
    by (rule ends_weaken [OF valid_from [OF a(1)]]) (auto intro: unchanged_allowed)
  have cached: "ends (unchanged s) (get_state (\<lambda>s. js_has (mukCache s) a)) (\<lambda>_::js_error. unlock_allowed skip s acc)
    (\<lambda>x t. unchanged s t \<and> True)"
    by (rule ends_weaken [OF leaves_from [OF leaves_get]]) (auto intro: unchanged_allowed)
  show "ends (unchanged s)
     (and_then (isSessionValid env (Some a)) (\<lambda>valid.
     if \<not> valid then ok False
     else and_then (get_state (\<lambda>s. js_has (mukCache s) a)) (\<lambda>unlocked.
       if unlocked then ok True
       else and_then (decryptStoredMasterUnlockKey env (Some a) skip ''Unlock your vault'') (\<lambda>muk.
         case muk of None \<Rightarrow> ok False
         | Some k \<Rightarrow> and_then (setUnlockEntry env a (Some k)) (\<lambda>_. ok True)))))
     (\<lambda>_. unlock_allowed skip s acc) (\<lambda>_. unlock_allowed skip s acc)"
    by (rule ends_seq [OF valid], rule ends_if, rule ends_ok, erule unchanged_allowed,
        rule ends_seq [OF cached], rule ends_if, rule ends_ok, erule unchanged_allowed,
        rule unlock_with_from [OF a], simp)
qed (auto intro: unchanged_allowed)

lemma allowed_skip:
  "unlock_allowed True s acc t \<Longrightarrow> resolved_in (value_at s) acc = Some a \<Longrightarrow>
     \<not> prompt_due env (value_at s) (clock s) a \<Longrightarrow> unlock_allowed False s acc t"
  by (auto simp: unlock_allowed_def)

lemma withBiometric_from:
  "ends (unchanged s) (unlockWithBiometric env acc reason) (\<lambda>_ _. False) (\<lambda>_. unlock_allowed False s acc)"
  unfolding unlockWithBiometric_def
proof (rule ends_catch [where E' = "\<lambda>_. unlock_allowed False s acc"], rule for_account_from)
  fix a assume a: "a \<noteq> []" "resolved_in (value_at s) acc = Some a"
  have can: "ends (unchanged s) (canBiometricUnlock env (Some a)) (\<lambda>_. unlock_allowed False s acc)
    (\<lambda>x t. unchanged s t \<and> (x \<longrightarrow> session_valid env (value_at s) (clock s) a))"
    unfolding canBiometricUnlock_def
    by (rule ends_and_then [OF ends_weaken [OF leaves_from [OF calm_leaves [OF calm_available]]]], assumption,
        erule unchanged_allowed, assumption,
        rule ends_and_then [OF ends_weaken [OF leaves_from [OF leaves_reads(7)]]], assumption,
        erule unchanged_allowed, assumption,
        rule ends_seq [OF ends_weaken [OF valid_from [OF a(1)]]], assumption, erule unchanged_allowed, assumption,
        rule ends_ok, simp)
  show "ends (unchanged s)
     (and_then (canBiometricUnlock env (Some a)) (\<lambda>can.
        if \<not> can then ok False
        else and_then (decryptStoredMasterUnlockKey env (Some a) False reason) (\<lambda>muk.
          case muk of None \<Rightarrow> ok False
          | Some k \<Rightarrow> and_then (setUnlockEntry env a (Some k)) (\<lambda>_. ok True))))
     (\<lambda>_. unlock_allowed False s acc) (\<lambda>_. unlock_allowed False s acc)"
    by (rule ends_seq [OF can], rule ends_if, rule ends_ok, erule unchanged_allowed, rule unlock_with_from [OF a], simp)
qed (auto intro: unchanged_allowed ends_ok)

text \<open>The quiet way never prompts: it may only act where no prompt is due.\<close>

lemma quietly_from:
  "ends (unchanged s) (tryRestoreSessionWithoutPrompt env acc)
     (\<lambda>_ t. unlock_allowed False s acc t \<and> (mukCache t \<noteq> mukCache s \<longrightarrow>
        (\<forall>a. resolved_in (value_at s) acc = Some a \<longrightarrow> \<not> prompt_due env (value_at s) (clock s) a)))
     (\<lambda>_ t. unlock_allowed False s acc t \<and> (mukCache t \<noteq> mukCache s \<longrightarrow>
        (\<forall>a. resolved_in (value_at s) acc = Some a \<longrightarrow> \<not> prompt_due env (value_at s) (clock s) a)))"
    (is "ends _ _ (\<lambda>_. ?Q) (\<lambda>_. ?Q)")
  unfolding tryRestoreSessionWithoutPrompt_def
proof (rule for_account_from)
  have calm: "unchanged s t \<Longrightarrow> ?Q t" for t
    by (simp add: unchanged_allowed) (simp add: unchanged_def)
  fix a assume a: "a \<noteq> []" "resolved_in (value_at s) acc = Some a"
  have cached: "ends (unchanged s) (get_state (\<lambda>s. js_has (mukCache s) a)) (\<lambda>_::js_error. ?Q) (\<lambda>x t. unchanged s t \<and> True)"
    by (rule ends_weaken [OF leaves_from [OF leaves_get]]) (auto dest: calm)
  have required: "ends (unchanged s) (isBiometricAuthRequired env a) (\<lambda>_. ?Q)
    (\<lambda>x t. unchanged s t \<and> (\<not> x \<longrightarrow> \<not> prompt_due env (value_at s) (clock s) a))"
    by (rule ends_weaken [OF required_from [OF a(1)]]) (auto dest: calm)
  have same: "resolved_in (value_at s) (Some a) = Some a" using a(1) by simp
  have restore: "ends (unchanged s) (tryRestoreSession env True (Some a)) (\<lambda>_. ?Q) (\<lambda>_. ?Q)"
    if due: "\<not> prompt_due env (value_at s) (clock s) a"
    by (rule ends_weaken [OF tryRestore_from]) (use a same due in \<open>auto simp: unlock_allowed_def\<close>)
  show "ends (unchanged s)
     (and_then (get_state (\<lambda>s. js_has (mukCache s) a)) (\<lambda>unlocked.
     if unlocked then ok True
     else and_then (isBiometricAuthRequired env a) (\<lambda>required.
       if required then ok False else tryRestoreSession env True (Some a)))) (\<lambda>_. ?Q) (\<lambda>_. ?Q)"
    by (rule ends_seq [OF cached], rule ends_if, rule ends_ok, erule calm, rule ends_seq [OF required],
        rule ends_if, rule ends_ok, erule calm, rule restore, simp)
qed (simp_all add: unchanged_allowed, simp_all add: unchanged_def)

section \<open>Unlocking all accounts after one prompt\<close>

lemma can_from:
  "ends (unchanged s) (canBiometricUnlock env (Some a)) (\<lambda>_. unchanged s)
    (\<lambda>x t. unchanged s t \<and> (x \<and> a \<noteq> [] \<longrightarrow> session_valid env (value_at s) (clock s) a))"
proof (cases "a = []")
  case True
  have "leaves (canBiometricUnlock env (Some a))" by (rule leaves_methods)
  then show ?thesis using leaves_from True by (auto intro: ends_weaken)
next
  case False
  show ?thesis
    unfolding canBiometricUnlock_def
    by (rule ends_and_then [OF leaves_from [OF calm_leaves [OF calm_available]]],
        rule ends_and_then [OF leaves_from [OF leaves_reads(7)]],
        rule ends_seq [OF valid_from [OF False]], rule ends_ok, simp)
qed

lemma first_from:
  "ends (unchanged s) (first_unlockable env as) (\<lambda>_. unchanged s)
    (\<lambda>x t. unchanged s t \<and> (\<forall>f. x = Some f \<and> f \<noteq> [] \<longrightarrow>
       f \<in> amAccountId ` set as \<and> session_valid env (value_at s) (clock s) f))"
proof (induction as)
  case (Cons a as)
  show ?case
    unfolding first_unlockable.simps
    by (rule ends_seq [OF can_from], rule ends_if, rule ends_ok, simp, rule ends_weaken [OF Cons]) auto
qed (simp add: ends_ok)

lemma moves_decrypt: "GlobalSlot Device_key \<in> D \<Longrightarrow> moves D (decryptStoredMasterUnlockKey env acc True reason)"
proof -
  assume key: "GlobalSlot Device_key \<in> D"
  have "pass_biometric env session True reason a = ok True" for session a by (simp add: pass_biometric_def)
  then show ?thesis
    unfolding decryptStoredMasterUnlockKey_def for_account_def
    by (simp only:, intro moves_rules moves_unwrap [OF key] leaves_methods [THEN leaves_moves])
qed

text \<open>What the loop keeps: the stamp of the prompt, the sessions, and who may have been unlocked.\<close>

definition unlocking :: "'w account_store \<Rightarrow> string \<Rightarrow> string set \<Rightarrow> 'w account_store \<Rightarrow> bool" where
  "unlocking s f ids t \<longleftrightarrow> prompted env texts s f t \<and> clock s \<le> clock t \<and>
     (\<forall>sl. slot_ok sl \<and> sl \<notin> {GlobalSlot Device_key, GlobalSlot Native_view, AccountSlot f Last_biometric_auth} \<longrightarrow>
        value_at t sl = value_at s sl) \<and>
     (\<forall>b. js_get (mukCache t) b \<noteq> js_get (mukCache s) b \<longrightarrow>
        b \<in> ids \<and> (b \<noteq> [] \<longrightarrow> reentry_passed env (value_at s) (clock s) b))"

lemma reentry_same:
  assumes "v (AccountSlot b Session_data) = v' (AccountSlot b Session_data)"
    and "v (GlobalSlot Master_password_reentry_period_ms) = v' (GlobalSlot Master_password_reentry_period_ms)"
  shows "reentry_passed env v t b = reentry_passed env v' t b"
  using assms by (simp add: reentry_passed_def reentry_due_def session_in_def period_in_def split: option.split)

lemma unlocking_moved: "unlocking s f ids u \<Longrightarrow> moved {GlobalSlot Device_key} u t \<Longrightarrow> unlocking s f ids t"
  by (auto simp: unlocking_def moved_def prompted_def ACCOUNT_VALUES_def)

lemma unlocking_unchanged: "unlocking s f ids u \<Longrightarrow> unchanged u t \<Longrightarrow> unlocking s f ids t"
  by (rule unlocking_moved, assumption) (rule unchanged_moved)

lemma unlocking_passed:
  assumes u: "unlocking s f ids u" and passed: "reentry_passed env (value_at u) (clock u) b"
  shows "reentry_passed env (value_at s) (clock s) b"
proof -
  have "reentry_passed env (value_at s) (clock u) b"
    using passed u reentry_same [of "value_at u" b "value_at s"] by (simp add: unlocking_def ACCOUNT_VALUES_def GLOBAL_VALUES_def)
  then show ?thesis using u by (auto simp: unlocking_def intro: earlier(2))
qed

lemma unlocking_entry:
  assumes u: "unlocking s f ids u" and run: "setUnlockEntry env b (Some k) u = (Inr (), t)" and b: "b \<in> ids"
    and passed: "b \<noteq> [] \<Longrightarrow> reentry_passed env (value_at s) (clock s) b"
  shows "unlocking s f ids t"
proof -
  note r = setUnlockEntry_returns [OF run]
  have "prompted env texts s f t"
    using u r(3) [of "AccountSlot f Last_biometric_auth"] by (simp add: unlocking_def prompted_def ACCOUNT_VALUES_def)
  then show ?thesis
    using u r(2,5) b passed by (auto simp: unlocking_def r(3) split: if_splits)
qed

lemma unlock_after_from:
  assumes b: "b \<in> ids"
  shows "ends (unlocking s f ids) (unlock_after_prompt env b) (\<lambda>_ _. False) (\<lambda>_. unlocking s f ids)"
proof (rule endsI)
  fix u e t assume "unlock_after_prompt env b u = (Inl e, t)"
  then show False by (auto simp: unlock_after_prompt_def catch_def ok_def split: prod.splits sum.splits)
next
  fix u x t assume u: "unlocking s f ids u" and run: "unlock_after_prompt env b u = (Inr x, t)"
  obtain r v where dec: "decryptStoredMasterUnlockKey env (Some b) True ''Unlock your vault'' u = (r, v)" by fastforce
  have v: "unlocking s f ids v" using unlocking_moved [OF u movesD [OF moves_decrypt dec]] by simp
  have stays: "unlocking s f ids t" if "\<And>k. r \<noteq> Inr (Some k)"
    using run dec v that
    by (auto simp: unlock_after_prompt_def catch_def and_then_def ok_def split: sum.splits option.splits)
  have enters: "unlocking s f ids t" if r: "r = Inr (Some k)" for k
  proof -
    have passed: "reentry_passed env (value_at s) (clock s) b" if "b \<noteq> []"
    proof (rule unlocking_passed [OF u])
      have "decryptStoredMasterUnlockKey env (Some b) True ''Unlock your vault'' u = (Inr (Some k), v)"
        using dec r by simp
      from ends_value [OF decrypt_from [OF that] unchanged_refl this]
      show "reentry_passed env (value_at u) (clock u) b" by simp
    qed
    obtain q w where set: "setUnlockEntry env b (Some k) v = (q, w)" by fastforce
    then have t: "t = w"
      using run dec r by (cases q) (auto simp: unlock_after_prompt_def catch_def and_then_def ok_def)
    show ?thesis
    proof (cases q)
      case (Inl e)
      then show ?thesis using unlocking_unchanged [OF v] setUnlockEntry_fails set t by blast
    next
      case (Inr y)
      then show ?thesis using unlocking_entry [OF v _ b passed] set t by simp
    qed
  qed
  show "unlocking s f ids t" using stays enters by blast
qed

lemma unlock_each_from:
  "amAccountId ` set as \<subseteq> ids \<Longrightarrow>
     ends (unlocking s f ids) (map_each as (\<lambda>a. unlock_after_prompt env (amAccountId a))) (\<lambda>_ _. False) (\<lambda>_. unlocking s f ids)"
proof (induction as)
  case (Cons a as)
  have rest: "ends (unlocking s f ids) (map_each as (\<lambda>a. unlock_after_prompt env (amAccountId a))) (\<lambda>_ _. False) (\<lambda>_. unlocking s f ids)"
    using Cons by simp
  show ?case
    unfolding map_each.simps
    by (rule ends_and_then [OF unlock_after_from], use Cons.prems in simp, rule ends_and_then [OF rest], rule ends_ok)
qed (simp add: ends_ok)

text \<open>All accounts: nothing is unlocked without a prompt, asked for in the name of one account.\<close>

definition all_allowed :: "'w account_store \<Rightarrow> 'w account_store \<Rightarrow> bool" where
  "all_allowed s t \<longleftrightarrow> mukCache t = mukCache s \<or>
     (\<exists>f. f \<in> amAccountId ` set (accounts_in (value_at s)) \<and> session_valid env (value_at s) (clock s) f \<and>
       unlocking s f (amAccountId ` set (accounts_in (value_at s))) t)"

lemma unlockAll_from:
  "ends (unchanged s) (unlockAllAccountsWithBiometric env reason) (\<lambda>_. all_allowed s) (\<lambda>_. all_allowed s)"
proof -
  have calm: "unchanged s t \<Longrightarrow> all_allowed s t" for t by (simp add: all_allowed_def unchanged_def)
  have calm': "moved D s t \<Longrightarrow> all_allowed s t" for D t by (simp add: all_allowed_def moved_def)
  let ?as = "accounts_in (value_at s)" let ?ids = "amAccountId ` set ?as"
  have accounts: "ends (unchanged s) (readAccountsList env) (\<lambda>_. all_allowed s) (\<lambda>x t. unchanged s t \<and> ?as = x)"
    by (rule ends_weaken [OF yields_from [OF accounts_yields]]) (auto dest: calm)
  have first: "ends (unchanged s) (first_unlockable env ?as) (\<lambda>_. all_allowed s)
    (\<lambda>x t. unchanged s t \<and> (\<forall>f. x = Some f \<and> f \<noteq> [] \<longrightarrow> f \<in> ?ids \<and> session_valid env (value_at s) (clock s) f))"
    by (rule ends_weaken [OF first_from]) (auto dest: calm)
  have each: "ends (unlocking s f ?ids) (and_then (map_each ?as (\<lambda>a. unlock_after_prompt env (amAccountId a)))
      (\<lambda>results. ok (unlock_outcome ?as results))) (\<lambda>_. all_allowed s) (\<lambda>_. all_allowed s)"
    if "f \<in> ?ids" "session_valid env (value_at s) (clock s) f" for f
  proof -
    have "ends (unlocking s f ?ids) (map_each ?as (\<lambda>a. unlock_after_prompt env (amAccountId a))) (\<lambda>_. all_allowed s)
        (\<lambda>_. unlocking s f ?ids)"
      by (rule ends_weaken [OF unlock_each_from]) simp_all
    then show ?thesis by (rule ends_and_then) (rule ends_ok, use that in \<open>auto simp: all_allowed_def\<close>)
  qed
  have refused: "ends (moved (touched_by_unlock f) s) (ok x) (\<lambda>_. all_allowed s) (\<lambda>_. all_allowed s)" for f x
    by (rule ends_ok) (rule calm')
  have prompt: "ends (unchanged s) (and_then (authenticateWithBiometric env reason (Some f)) (\<lambda>authenticated.
      if \<not> authenticated then ok (no f)
      else and_then (map_each ?as (\<lambda>a. unlock_after_prompt env (amAccountId a)))
        (\<lambda>results. ok (unlock_outcome ?as results)))) (\<lambda>_. all_allowed s) (\<lambda>_. all_allowed s)"
    if f: "f \<noteq> []" "f \<in> ?ids" "session_valid env (value_at s) (clock s) f" for f no
  proof (rule ends_and_then)
    show "ends (unchanged s) (authenticateWithBiometric env reason (Some f)) (\<lambda>_. all_allowed s)
      (\<lambda>yes t. moved (touched_by_unlock f) s t \<and> (yes \<longrightarrow> prompted env texts s f t))"
      by (rule ends_weaken [OF authenticate_from [OF f(1)]]) simp_all
    fix yes
    have started: "moved (touched_by_unlock f) s t \<and> prompted env texts s f t \<Longrightarrow> unlocking s f ?ids t" for t
      by (auto simp: unlocking_def moved_def touched_by_unlock_def)
    show "ends (\<lambda>t. moved (touched_by_unlock f) s t \<and> (yes \<longrightarrow> prompted env texts s f t))
      (if \<not> yes then ok (no f) else and_then (map_each ?as (\<lambda>a. unlock_after_prompt env (amAccountId a)))
        (\<lambda>results. ok (unlock_outcome ?as results))) (\<lambda>_. all_allowed s) (\<lambda>_. all_allowed s)"
      by (rule ends_if, rule ends_ok, use calm' in blast, rule ends_weaken [OF each [OF f(2,3)]])
         (use started in auto)
  qed
  show ?thesis
    unfolding unlockAllAccountsWithBiometric_def
  proof (rule ends_seq [OF accounts], erule subst, rule ends_if, rule ends_ok, erule calm, rule ends_seq [OF first])
    fix x assume x: "\<forall>f. x = Some f \<and> f \<noteq> [] \<longrightarrow> f \<in> ?ids \<and> session_valid env (value_at s) (clock s) f"
    show "ends (unchanged s) (if absent x then ok ([], map (\<lambda>a. (amAccountId a, ''Biometric authentication not available'')) ?as)
       else and_then (authenticateWithBiometric env reason x) (\<lambda>authenticated.
         if \<not> authenticated
         then ok ([], map (\<lambda>a. (amAccountId a, ''Biometric authentication failed or cancelled'')) ?as)
         else and_then (map_each ?as (\<lambda>a. unlock_after_prompt env (amAccountId a))) (\<lambda>results.
           ok (unlock_outcome ?as results)))) (\<lambda>_. all_allowed s) (\<lambda>_. all_allowed s)"
    proof (rule ends_if, rule ends_ok, erule calm)
      assume "\<not> absent x"
      then obtain f where "x = Some f" "f \<noteq> []" by (auto simp: absent_def split: option.splits)
      then show "ends (unchanged s) (and_then (authenticateWithBiometric env reason x) (\<lambda>authenticated.
         if \<not> authenticated
         then ok ([], map (\<lambda>a. (amAccountId a, ''Biometric authentication failed or cancelled'')) ?as)
         else and_then (map_each ?as (\<lambda>a. unlock_after_prompt env (amAccountId a))) (\<lambda>results.
           ok (unlock_outcome ?as results)))) (\<lambda>_. all_allowed s) (\<lambda>_. all_allowed s)"
        using x by (auto intro!: prompt)
    qed
  qed
qed

end

end
