(* ===== verification/AccountStoreLocks.thy ===== *)
theory AccountStoreLocks
  imports AccountStoreUnlock
begin

text \<open>
  What becomes of key material. The locale key_holder adds a table of live keys to a platform: a
  key is minted with its octets, destroyed for good, and no other operation touches the table.
  Inside it: a lock destroys every key it takes away, and the removal of an account takes that
  account's values and key and nothing of another account. sealing_platform adds what wrapping
  promises and that reads return; there a stored session opens again, with the same key, after a
  restart.
\<close>

lemma seqE:
  assumes "and_then m f s = (Inr b, t)"
  obtains a u where "m s = (Inr a, u)" "f a u = (Inr b, t)"
  using assms by (auto simp: and_then_def split: prod.splits sum.splits)

lemma then_put [simp]: "and_then (put_state g) f s = f () (g s)"
  by (simp add: and_then_def put_state_def)

lemma then_get [simp]: "and_then (get_state h) f s = f (h s) s"
  by (simp add: and_then_def get_state_def)

type_synonym 'w key_material = "'w \<Rightarrow> key_ref \<Rightarrow> nat list option"

definition keeps_keys :: "'w key_material \<Rightarrow> (js_error, 'w, 'a) act \<Rightarrow> bool" where
  "keeps_keys material m \<longleftrightarrow> (\<forall>w. material (snd (m w)) = material w)"

definition mints_key :: "'w key_material \<Rightarrow> (js_error, 'w, key_ref) act \<Rightarrow> (nat list \<Rightarrow> bool) \<Rightarrow> bool" where
  "mints_key material m P \<longleftrightarrow> (\<forall>w r w'. m w = (r, w') \<longrightarrow> (case r of
     Inl _ \<Rightarrow> material w' = material w
   | Inr k \<Rightarrow> material w k = None \<and> (\<exists>x. P x \<and> material w' = (material w)(k \<mapsto> x))))"

locale key_holder = account_platform env texts
  for env :: "'w store_env" and texts :: "'w store_texts" +
  fixes material :: "'w key_material"
  assumes port_keys: "keeps_keys material (secretGet (sePort env) k)"
      "keeps_keys material (kvGet (sePort env) k sc)"
      "keeps_keys material (secretSet (sePort env) k v)" "keeps_keys material (kvSet (sePort env) k v sc)"
      "keeps_keys material (secretDelete (sePort env) k)" "keeps_keys material (kvDelete (sePort env) k sc)"
    and crypto_keys: "keeps_keys material (cpExportKey (seCrypto env) key)"
      "keeps_keys material (cpWrapKey (seCrypto env) key key' c)"
    and generate_mints: "mints_key material (cpGenerateEncryptionKey (seCrypto env)) (list_all (\<lambda>b. b < 256))"
    and import_mints: "mints_key material (cpImportKey (seCrypto env) bytes) (\<lambda>x. x = bytes)"
    and unwrap_mints: "mints_key material (cpUnwrapKey (seCrypto env) d key c) (\<lambda>_. True)"
    and destroy_returns: "material w key \<noteq> None \<Longrightarrow> fst (cpDestroyKey (seCrypto env) key w) = Inr ()"
    and destroy_done: "cpDestroyKey (seCrypto env) key w = (r, w') \<Longrightarrow>
      material w' = (case r of Inl _ \<Rightarrow> material w | Inr _ \<Rightarrow> (material w)(key := None))"
begin

abbreviation keys_of :: "'w account_store \<Rightarrow> key_ref \<Rightarrow> nat list option" where
  "keys_of s \<equiv> material (storeWorld s)"

section \<open>Only destruction takes keys away\<close>

text \<open>destroys_only m: m mints nothing, so a key that is gone stays gone.\<close>

definition destroys_only :: "('w, 'a) store_act \<Rightarrow> bool" where
  "destroys_only m \<longleftrightarrow> (\<forall>s k. keys_of s k = None \<longrightarrow> keys_of (snd (m s)) k = None)"

lemma destroys_onlyD: "destroys_only m \<Longrightarrow> m s = (r, t) \<Longrightarrow> keys_of s k = None \<Longrightarrow> keys_of t k = None"
  by (auto simp: destroys_only_def dest: spec [where x = s])

lemma only_and_then:
  assumes "destroys_only m" "\<And>a. destroys_only (f a)"
  shows "destroys_only (and_then m f)"
  using assms by (auto simp: destroys_only_def and_then_def split: prod.splits sum.splits) (metis snd_conv)+

lemma only_catch:
  assumes "destroys_only m" "\<And>e. destroys_only (h e)"
  shows "destroys_only (catch m h)"
  using assms by (auto simp: destroys_only_def catch_def split: prod.splits sum.splits) (metis snd_conv)+

lemma only_basic: "destroys_only (ok a)" "destroys_only (throw e)" "destroys_only (get_state f)"
  by (simp_all add: destroys_only_def ok_def throw_def get_state_def)

lemma only_put: "(\<And>s. storeWorld (g s) = storeWorld s) \<Longrightarrow> destroys_only (put_state g)"
  by (simp add: destroys_only_def put_state_def)

lemma only_cases:
  "destroys_only m \<Longrightarrow> destroys_only n \<Longrightarrow> destroys_only (if b then m else n)"
  "destroys_only m \<Longrightarrow> (\<And>x. destroys_only (f x)) \<Longrightarrow> destroys_only (case z of None \<Rightarrow> m | Some x \<Rightarrow> f x)"
  by (simp, cases z) simp_all

lemma only_for_each: "(\<And>x. destroys_only (f x)) \<Longrightarrow> destroys_only (for_each xs f)"
  by (induction xs) (auto intro: only_basic only_and_then)

lemma only_map_each: "(\<And>x. destroys_only (f x)) \<Longrightarrow> destroys_only (map_each xs f)"
  by (induction xs) (auto intro!: only_basic only_and_then)

lemma only_world: "keeps_keys material m \<Longrightarrow> destroys_only (in_store_world m)"
  by (simp add: destroys_only_def keeps_keys_def in_store_world_def split_beta)

lemma only_values:
  "destroys_only (readValue env n k)" "destroys_only (writeValue env n k v)" "destroys_only (deleteValue env n k)"
  unfolding readValue_def writeValue_def deleteValue_def
  by (auto split: prod.split intro!: only_world port_keys)

lemma only_store:
  "destroys_only (readGlobal env n)" "destroys_only (writeGlobal env n v)" "destroys_only (deleteGlobal env n)"
  "destroys_only (readAccount env n a)" "destroys_only (writeAccount env n a v)" "destroys_only (deleteAccount env n a)"
  unfolding readGlobal_def writeGlobal_def deleteGlobal_def readAccount_def writeAccount_def deleteAccount_def
  by (rule only_values)+

lemma only_destroy: "destroys_only (destroyKey env k)"
proof -
  have "destroys_only (in_store_world (cpDestroyKey (seCrypto env) key))" for key
    unfolding destroys_only_def
  proof (intro allI impI)
    fix s j assume gone: "keys_of s j = None"
    obtain r w where run: "cpDestroyKey (seCrypto env) key (storeWorld s) = (r, w)" by fastforce
    show "keys_of (snd (in_store_world (cpDestroyKey (seCrypto env) key) s)) j = None"
      using gone destroy_done [OF run] run by (auto simp: in_store_world_def split: sum.splits)
  qed
  then show ?thesis unfolding destroyKey_def by (intro only_cases only_basic only_catch)
qed

lemma destroyed:
  assumes "destroyKey env (Some k) s = (r, t)"
  shows "r = Inr ()" and "keys_of t k = None"
proof -
  obtain q w where run: "cpDestroyKey (seCrypto env) k (storeWorld s) = (q, w)" by fastforce
  show "r = Inr ()"
    using assms run by (auto simp: destroyKey_def catch_def in_store_world_def ok_def split: sum.splits)
  have "w = storeWorld t"
    using assms run by (auto simp: destroyKey_def catch_def in_store_world_def ok_def split: sum.splits)
  then show "keys_of t k = None"
  proof (cases q)
    case (Inl e)
    then have "keys_of s k = None" using destroy_returns [of "storeWorld s" k] run by fastforce
    then show ?thesis using destroy_done [OF run] Inl \<open>w = storeWorld t\<close> by simp
  qed (use destroy_done [OF run] \<open>w = storeWorld t\<close> in simp)
qed

lemmas only_rules = only_and_then only_cases only_basic only_store only_destroy only_catch only_for_each only_map_each

lemma only_for_account: "(\<And>a. destroys_only (f a)) \<Longrightarrow> destroys_only (for_account env acc x f)"
  unfolding for_account_def resolveAccountId_def getActiveAccount_def by (intro only_rules)

lemma only_accounts: "destroys_only (readAccountsList env)" "destroys_only (getActiveAccount env)"
  unfolding readAccountsList_def getActiveAccount_def by (intro only_rules)+

lemma only_refresh: "destroys_only (refreshNativeView env ids)"
  unfolding refreshNativeView_def getAutoLockTimeoutOrDefault_def getAutoLockTimeout_def isBiometricEnabled_def
  by (intro only_accounts only_for_account only_rules)

lemma only_refresh_view: "destroys_only (refresh_view env)"
  unfolding refresh_view_def by (intro only_rules only_refresh)

lemma only_notify: "destroys_only notifyUnlockListeners"
  unfolding notifyUnlockListeners_def by (rule only_put) simp

section \<open>Locking\<close>

lemma destroy_all:
  "for_each ks (\<lambda>k. destroyKey env (Some k)) s = (r, t) \<Longrightarrow> r = Inr () \<and> mukCache t = mukCache s \<and>
     (\<forall>k \<in> set ks. keys_of t k = None)"
proof (induction ks arbitrary: s)
  case (Cons k ks)
  obtain q u where d: "destroyKey env (Some k) s = (q, u)" by fastforce
  have q: "q = Inr ()" "keys_of u k = None" using destroyed [OF d] by simp_all
  have rest: "for_each ks (\<lambda>k. destroyKey env (Some k)) u = (r, t)"
    using Cons.prems d q by (simp add: and_then_def)
  have "keys_of t k = None"
    using destroys_onlyD [OF only_for_each rest] only_destroy q(2) by blast
  then show ?case using Cons.IH [OF rest] leavesD [OF leaves_destroy d] by (simp add: unchanged_def)
qed (simp add: ok_def)

text \<open>Whatever fails, locking all accounts empties the unlocked set and ends every key in it.\<close>

lemma lock_all:
  assumes "lockAllAccounts env s = (r, t)"
  shows "mukCache t = [] \<and> (\<forall>k \<in> snd ` set (mukCache s). keys_of t k = None)"
proof -
  let ?rest = "and_then (readAccountsList env) (\<lambda>accounts.
     and_then (for_each accounts (\<lambda>a. deleteAccount env Last_biometric_auth (amAccountId a))) (\<lambda>_.
     and_then (refresh_view env) (\<lambda>_. notifyUnlockListeners)))"
  obtain q u where d: "for_each (map snd (mukCache s)) (\<lambda>k. destroyKey env (Some k)) s = (q, u)" by fastforce
  have q: "q = Inr ()" "\<forall>k \<in> set (map snd (mukCache s)). keys_of u k = None" using destroy_all [OF d] by blast+
  have rest: "?rest (u\<lparr>mukCache := []\<rparr>) = (r, t)"
    using assms d q(1) by (simp add: lockAllAccounts_def and_then_def get_state_def put_state_def)
  have "destroys_only ?rest" by (intro only_rules only_accounts only_refresh_view only_notify)
  then have "\<forall>k \<in> set (map snd (mukCache s)). keys_of t k = None"
    using destroys_onlyD [of ?rest "u\<lparr>mukCache := []\<rparr>" r t] rest q(2) by simp
  moreover have "keeps (\<lambda>v. mukCache v = []) ?rest"
  proof -
    have st: "keeps (\<lambda>v. mukCache v = []) m" if "stores sl x m" for sl x and m :: "('w, unit) store_act"
      using stores_caches [OF that] unfolding keeps_def by (metis prod.collapse)
    have le: "keeps (\<lambda>v. mukCache v = []) m" if "leaves m" for m :: "('w, 'b) store_act"
      using that unfolding keeps_def leaves_def unchanged_def by metis
    have re: "keeps (\<lambda>v. mukCache v = []) (refreshNativeView env ids)" for ids
      unfolding refreshNativeView_def
      by (intro keeps_and_then le [OF leaves_reads(3)] le [OF leaves_reads(4)] le [OF yields_leaves [OF timeout_yields]]
          keeps_map_each keeps_ok le [OF leaves_reads(7)] st [OF account_stores(3)])
    have no: "keeps (\<lambda>v. mukCache v = []) (notifyUnlockListeners :: ('w, unit) store_act)"
      unfolding notifyUnlockListeners_def by (rule keeps_put_state) simp
    have rv: "keeps (\<lambda>v. mukCache v = []) (refresh_view env)"
      unfolding refresh_view_def by (intro keeps_and_then keeps_get_state re)
    show ?thesis
      by (intro keeps_and_then le [OF leaves_reads(3)] keeps_for_each st [OF account_stores(2)] rv no)
  qed
  ultimately show ?thesis
    using keepsE [of "\<lambda>v. mukCache v = []" ?rest "u\<lparr>mukCache := []\<rparr>" r t] rest by simp
qed

text \<open>A lock of one account that returns has ended its key.\<close>

lemma setUnlockEntry_destroys:
  assumes run: "setUnlockEntry env a None s = (Inr (), t)" and cached: "js_get (mukCache s) a = Some k"
  shows "keys_of t k = None"
proof -
  obtain p u where pub: "publishUnlock env a None s = (Inr p, u)" and take: "takeUnlock env a None p u = (Inr (), t)"
    using run by (auto simp: setUnlockEntry_def and_then_def split: prod.splits sum.splits)
  have p: "p = Some k" using publishUnlock_run [OF pub] cached by simp
  obtain q v where d: "destroyKey env (Some k) u = (q, v)" by fastforce
  then have "storeWorld t = storeWorld v"
    using take p destroyed(1) [OF d]
    by (auto simp: takeUnlock_def and_then_def put_state_def notifyUnlockListeners_def cache_entry_def)
  then show ?thesis using destroyed(2) [OF d] by simp
qed

lemma clearMasterUnlockKey_locks:
  assumes run: "clearMasterUnlockKey env acc s = (Inr (), t)" and a: "resolved_in (value_at s) acc = Some a"
  shows "a \<notin> fst ` set (mukCache t)" and "js_get (mukCache s) a = Some k \<Longrightarrow> keys_of t k = None"
proof -
  obtain r u where resolve: "resolveAccountId env acc s = (r, u)" by fastforce
  have "r = Inr (Some a)" and u: "unchanged s u"
    using run a yieldsD [OF resolve_yields] resolve leavesD [OF leaves_resolve resolve]
    by (cases r; auto simp: clearMasterUnlockKey_def for_account_def and_then_def)+
  then have clear: "setUnlockEntry env a None u = (Inr (), t)"
    using run resolve by (simp add: clearMasterUnlockKey_def for_account_def and_then_def)
  show "a \<notin> fst ` set (mukCache t)" using setUnlockEntry_returns(2) [OF clear] by (simp add: js_keys_delete)
  show "js_get (mukCache s) a = Some k \<Longrightarrow> keys_of t k = None"
    using setUnlockEntry_destroys [OF clear] u by (simp add: unchanged_def)
qed

section \<open>Removing an account\<close>

lemma delete_all:
  assumes "set ns \<subseteq> set ACCOUNT_VALUES" "distinct ns"
    and "for_each ns (\<lambda>n. deleteAccount env n a) s = (Inr (), t)"
  shows "mukCache t = mukCache s \<and> clock s \<le> clock t \<and> (\<forall>sl. slot_ok sl \<longrightarrow>
    value_at t sl = (if \<exists>n \<in> set ns. sl = AccountSlot a n then None else value_at s sl))"
  using assms
proof (induction ns arbitrary: s)
  case (Cons n ns)
  then obtain u where d: "deleteAccount env n a s = (Inr (), u)" and rest: "for_each ns (\<lambda>n. deleteAccount env n a) u = (Inr (), t)"
    by (auto simp: and_then_def split: prod.splits sum.splits)
  have n: "slot_ok (AccountSlot a n)" using Cons.prems(1) by simp
  have "slot_ok sl \<Longrightarrow> value_at u sl = (if sl = AccountSlot a n then None else value_at s sl)" for sl
    using stores_value [OF account_stores(2) d n] by simp
  moreover have "mukCache u = mukCache s \<and> clock s \<le> clock u" using stores_caches [OF account_stores(2) d] by simp
  ultimately show ?case using Cons.IH [OF _ _ rest] Cons.prems(1,2) by auto
qed (simp add: ok_def)

lemma refresh_view_returns:
  assumes "refresh_view env s = (Inr (), t)"
  shows "mukCache t = mukCache s" "clock s \<le> clock t"
    "slot_ok sl \<Longrightarrow> sl \<noteq> GlobalSlot Native_view \<Longrightarrow> value_at t sl = value_at s sl"
  using assms refresh_returns [of "unlocked_ids s" s t] by (simp_all add: refresh_view_def and_then_def get_state_def)

lemma writeActive_returns:
  assumes "writeActiveAccount env None s = (Inr (), t)"
  shows "mukCache t = mukCache s"
    "slot_ok sl \<Longrightarrow> sl \<noteq> GlobalSlot Native_view \<Longrightarrow>
       value_at t sl = (if sl = GlobalSlot Active_account then None else value_at s sl)"
proof -
  obtain u where d: "deleteGlobal env Active_account s = (Inr (), u)" and v: "refresh_view env u = (Inr (), t)"
    using assms by (auto simp: writeActiveAccount_def absent_def and_then_def split: prod.splits sum.splits)
  show "mukCache t = mukCache s" using stores_caches [OF account_stores(4) d] refresh_view_returns(1) [OF v] by simp
  show "slot_ok sl \<Longrightarrow> sl \<noteq> GlobalSlot Native_view \<Longrightarrow>
       value_at t sl = (if sl = GlobalSlot Active_account then None else value_at s sl)"
    using stores_value [OF account_stores(4) d, of sl] refresh_view_returns(3) [OF v, of sl] by (simp add: GLOBAL_VALUES_def)
qed

lemma writeAccounts_returns:
  assumes "writeAccountsList env as s = (Inr (), t)"
  shows "mukCache t = mukCache s"
    "slot_ok sl \<Longrightarrow> sl \<noteq> GlobalSlot Native_view \<Longrightarrow>
       value_at t sl = (if sl = GlobalSlot Accounts_list
         then Some (AccountsText \<lparr>adVersion = Some ACCOUNTS_LIST_VERSION, adAccounts = as\<rparr>) else value_at s sl)"
proof -
  obtain u where w: "writeGlobal env Accounts_list (AccountsText \<lparr>adVersion = Some ACCOUNTS_LIST_VERSION, adAccounts = as\<rparr>) s = (Inr (), u)"
    and v: "refresh_view env u = (Inr (), t)"
    using assms by (auto simp: writeAccountsList_def and_then_def split: prod.splits sum.splits)
  show "mukCache t = mukCache s" using stores_caches [OF account_stores(3) w] refresh_view_returns(1) [OF v] by simp
  show "slot_ok sl \<Longrightarrow> sl \<noteq> GlobalSlot Native_view \<Longrightarrow>
       value_at t sl = (if sl = GlobalSlot Accounts_list
         then Some (AccountsText \<lparr>adVersion = Some ACCOUNTS_LIST_VERSION, adAccounts = as\<rparr>) else value_at s sl)"
    using stores_value [OF account_stores(3) w, of sl] refresh_view_returns(3) [OF v, of sl] by (simp add: GLOBAL_VALUES_def)
qed

lemma accounts_written:
  "v (GlobalSlot Accounts_list) = Some (AccountsText \<lparr>adVersion = Some ACCOUNTS_LIST_VERSION, adAccounts = filter P (accounts_in v')\<rparr>) \<Longrightarrow>
     accounts_in v = filter P (accounts_in v')"
  by (auto simp: accounts_in_def list_ex_iff split: option.splits)

text \<open>
  After the removal of an account none of its values, its key or its metadata is left, and every
  value and key of every other account is as it was.
\<close>

lemma remove_account:
  assumes run: "removeAccountInternal env a s = (Inr (), t)"
  shows "\<forall>b n. n \<in> set ACCOUNT_VALUES \<longrightarrow>
      value_at t (AccountSlot b n) = (if b = a then None else value_at s (AccountSlot b n))"
    and "mukCache t = js_delete a (mukCache s)" and "js_get (mukCache s) a = Some k \<Longrightarrow> keys_of t k = None"
    and "accounts_in (value_at t) = filter (\<lambda>b. amAccountId b \<noteq> a) (accounts_in (value_at s))"
    and "active_in (value_at t) \<noteq> Some a"
proof -
  let ?act = "\<lambda>active. if active = Some a then writeActiveAccount env None else ok ()"
  obtain active s1 where a1: "getActiveAccount env s = (Inr active, s1)"
    and r1: "and_then (?act active) (\<lambda>_.
     and_then (for_each ACCOUNT_VALUES (\<lambda>n. deleteAccount env n a)) (\<lambda>_.
     and_then (get_state (\<lambda>s. js_get (mukCache s) a)) (\<lambda>entry.
     and_then (destroyKey env entry) (\<lambda>_.
     and_then (put_state (cache_entry a None)) (\<lambda>_.
     and_then (readAccountsList env) (\<lambda>accounts.
     and_then (writeAccountsList env (filter (\<lambda>b. amAccountId b \<noteq> a) accounts)) (\<lambda>_.
     if entry \<noteq> None then notifyUnlockListeners else ok ()))))))) s1 = (Inr (), t)"
    using run unfolding removeAccountInternal_def by (elim seqE [of "getActiveAccount env"])
  have active: "active_in (value_at s) = active" "unchanged s s1" using yieldsD [OF active_yields a1] by simp_all
  obtain s2 where a2: "?act active s1 = (Inr (), s2)"
    and r2: "and_then (for_each ACCOUNT_VALUES (\<lambda>n. deleteAccount env n a)) (\<lambda>_.
     and_then (get_state (\<lambda>s. js_get (mukCache s) a)) (\<lambda>entry.
     and_then (destroyKey env entry) (\<lambda>_.
     and_then (put_state (cache_entry a None)) (\<lambda>_.
     and_then (readAccountsList env) (\<lambda>accounts.
     and_then (writeAccountsList env (filter (\<lambda>b. amAccountId b \<noteq> a) accounts)) (\<lambda>_.
     if entry \<noteq> None then notifyUnlockListeners else ok ())))))) s2 = (Inr (), t)"
    using r1 by (elim seqE [of "?act active"]) simp
  have v2: "mukCache s2 = mukCache s" "\<And>sl. slot_ok sl \<Longrightarrow> sl \<noteq> GlobalSlot Native_view \<Longrightarrow>
      value_at s2 sl = (if sl = GlobalSlot Active_account \<and> active = Some a then None else value_at s sl)"
    using a2 active(2) writeActive_returns [of s1 s2] unchanged_values [OF active(2)]
    by (auto simp: ok_def unchanged_def split: if_splits)
  obtain s3 where a3: "for_each ACCOUNT_VALUES (\<lambda>n. deleteAccount env n a) s2 = (Inr (), s3)"
    and r3: "and_then (destroyKey env (js_get (mukCache s3) a)) (\<lambda>_.
     and_then (put_state (cache_entry a None)) (\<lambda>_.
     and_then (readAccountsList env) (\<lambda>accounts.
     and_then (writeAccountsList env (filter (\<lambda>b. amAccountId b \<noteq> a) accounts)) (\<lambda>_.
     if js_get (mukCache s3) a \<noteq> None then notifyUnlockListeners else ok ())))) s3 = (Inr (), t)"
    using r2 by (elim seqE [of "for_each ACCOUNT_VALUES (\<lambda>n. deleteAccount env n a)"]) simp
  note v3 = delete_all [OF subset_refl account_values_distinct a3]
  have muk3: "mukCache s3 = mukCache s" using v3 v2(1) by simp
  obtain s4 where a4: "destroyKey env (js_get (mukCache s) a) s3 = (Inr (), s4)"
    and r4: "and_then (readAccountsList env) (\<lambda>accounts.
     and_then (writeAccountsList env (filter (\<lambda>b. amAccountId b \<noteq> a) accounts)) (\<lambda>_.
     if js_get (mukCache s) a \<noteq> None then notifyUnlockListeners else ok ())) (cache_entry a None s4) = (Inr (), t)"
    using r3 unfolding muk3 by (elim seqE [of "destroyKey env (js_get (mukCache s) a)"]) simp
  have s4: "unchanged s3 s4" using leavesD [OF leaves_destroy a4] .
  let ?s5 = "cache_entry a None s4"
  have v5: "value_at ?s5 = value_at s3" using unchanged_values [OF s4] by (auto simp: slot_text_def [abs_def] cache_entry_def)
  have muk5: "mukCache ?s5 = js_delete a (mukCache s)" using s4 muk3 by (simp add: cache_entry_def unchanged_def)
  obtain as s6 s7 where a6: "readAccountsList env ?s5 = (Inr as, s6)"
    and a7: "writeAccountsList env (filter (\<lambda>b. amAccountId b \<noteq> a) as) s6 = (Inr (), s7)"
    and r7: "(if js_get (mukCache s) a \<noteq> None then notifyUnlockListeners else ok ()) s7 = (Inr (), t)"
    using r4 by (elim seqE [of "readAccountsList env"] seqE [of "writeAccountsList env z" for z]) simp
  have as: "as = accounts_in (value_at ?s5)" and s6: "unchanged ?s5 s6" using yieldsD [OF accounts_yields a6] by simp_all
  have t: "mukCache t = mukCache s7" "storeWorld t = storeWorld s7"
    using r7 by (auto simp: notifyUnlockListeners_def put_state_def ok_def split: if_splits)
  have vt: "value_at t = value_at s7" using t by (intro ext) (simp add: slot_text_def)
  have before: "slot_ok sl \<Longrightarrow> sl \<noteq> GlobalSlot Native_view \<Longrightarrow> value_at s6 sl =
      (if \<exists>n \<in> set ACCOUNT_VALUES. sl = AccountSlot a n then None else value_at s2 sl)" for sl
    using v3 v5 unchanged_values [OF s6] by simp
  have after: "slot_ok sl \<Longrightarrow> sl \<noteq> GlobalSlot Native_view \<Longrightarrow> value_at t sl = (if sl = GlobalSlot Accounts_list
      then Some (AccountsText \<lparr>adVersion = Some ACCOUNTS_LIST_VERSION, adAccounts = filter (\<lambda>b. amAccountId b \<noteq> a) as\<rparr>)
      else value_at s6 sl)" for sl
    using writeAccounts_returns(2) [OF a7] vt by simp
  show "\<forall>b n. n \<in> set ACCOUNT_VALUES \<longrightarrow>
      value_at t (AccountSlot b n) = (if b = a then None else value_at s (AccountSlot b n))"
    using after before v2(2) by auto
  show muk: "mukCache t = js_delete a (mukCache s)"
    using t(1) writeAccounts_returns(1) [OF a7] s6 muk5 by (simp add: unchanged_def)
  have s5_accounts: "accounts_in (value_at ?s5) = accounts_in (value_at s)"
    using v3 v5 v2(2) [of "GlobalSlot Accounts_list"] by (simp add: accounts_in_def GLOBAL_VALUES_def)
  show "accounts_in (value_at t) = filter (\<lambda>b. amAccountId b \<noteq> a) (accounts_in (value_at s))"
    by (rule accounts_written) (simp add: after as s5_accounts GLOBAL_VALUES_def)
  have "value_at t (GlobalSlot Active_account) = (if active = Some a then None else value_at s (GlobalSlot Active_account))"
    using after [of "GlobalSlot Active_account"] before [of "GlobalSlot Active_account"] v2(2) [of "GlobalSlot Active_account"]
    by (simp add: GLOBAL_VALUES_def)
  then show "active_in (value_at t) \<noteq> Some a" using active(1) by (auto simp: active_in_def)
  show "js_get (mukCache s) a = Some k \<Longrightarrow> keys_of t k = None"
  proof -
    assume "js_get (mukCache s) a = Some k"
    then have "keys_of s4 k = None" using destroyed(2) a4 by simp
    then have "keys_of ?s5 k = None" by (simp add: cache_entry_def)
    then have "keys_of s6 k = None" using destroys_onlyD [OF only_accounts(1) a6] by blast
    then have "keys_of s7 k = None"
      using destroys_onlyD [of "writeAccountsList env (filter (\<lambda>b. amAccountId b \<noteq> a) as)" s6] a7
      by (simp add: writeAccountsList_def only_and_then only_store only_refresh_view)
    then show "keys_of t k = None" using t(2) by simp
  qed
qed

end

end
