(* ===== verification/AccountStoreSeals.thy ===== *)
theory AccountStoreSeals
  imports AccountStoreLocks
begin

text \<open>
  Quick unlock: what is sealed under the device key opens again after a restart. The locale adds to
  key_holder that reads return, which octets the crypto seam accepts as a key, and that unwrapping
  opens what was wrapped under the same octets.
\<close>

locale sealing_platform = key_holder env texts material
  for env :: "'w store_env" and texts :: "'w store_texts" and material :: "'w key_material" +
  fixes accepts :: "nat list \<Rightarrow> bool" and opens_to :: "encrypted_data \<Rightarrow> nat list \<Rightarrow> nat list option"
  assumes secret_get_returns: "\<exists>x. fst (secretGet (sePort env) k w) = Inr x"
    and kv_get_returns: "\<exists>x. fst (kvGet (sePort env) k sc w) = Inr x"
    and generates_accepted: "mints_key material (cpGenerateEncryptionKey (seCrypto env))
      (\<lambda>x. x \<noteq> [] \<and> accepts x \<and> list_all (\<lambda>b. b < 256) x)"
    and import_returns: "(\<exists>key. fst (cpImportKey (seCrypto env) bytes w) = Inr key) = accepts bytes"
    and export_tells: "cpExportKey (seCrypto env) key w = (Inr bytes, w') \<Longrightarrow> material w key = Some bytes"
    and wrap_seals: "cpWrapKey (seCrypto env) key key' None w = (Inr d, w') \<Longrightarrow> material w key = Some x \<Longrightarrow>
      material w key' = Some u \<Longrightarrow> opens_to d u = Some x"
    and unwrap_opens: "material w key = Some u \<Longrightarrow> opens_to d u = Some x \<Longrightarrow>
      \<exists>k w'. cpUnwrapKey (seCrypto env) d key None w = (Inr k, w') \<and> material w' k = Some x"
begin

section \<open>Reads return\<close>

definition total :: "('w, 'a) store_act \<Rightarrow> bool" where
  "total m \<longleftrightarrow> (\<forall>s. \<exists>x. fst (m s) = Inr x)"

lemma total_and_then: "total m \<Longrightarrow> (\<And>a. total (f a)) \<Longrightarrow> total (and_then m f)"
  by (auto simp: total_def and_then_def split: prod.splits sum.splits) (metis fst_conv sum.distinct(1))

lemma total_basic: "total (ok a)" "total (get_state f)"
  by (simp_all add: total_def ok_def get_state_def)

lemma total_cases:
  "total m \<Longrightarrow> total n \<Longrightarrow> total (if b then m else n)"
  "total m \<Longrightarrow> (\<And>x. total (f x)) \<Longrightarrow> total (case z of None \<Rightarrow> m | Some x \<Rightarrow> f x)"
  by (simp, cases z) simp_all

lemma total_values: "total (readValue env n k)"
proof -
  have "total (in_store_world m)" if "\<And>w. \<exists>x. fst (m w) = Inr x" for m :: "(js_error, 'w, 'b) act"
    using that by (simp add: total_def in_store_world_def split_beta)
  note world = this
  have "total (in_store_world (secretGet (sePort env) k))" "total (in_store_world (kvGet (sePort env) k SessionScope))"
    "total (in_store_world (kvGet (sePort env) k DeviceScope))"
    by (rule world, rule secret_get_returns kv_get_returns)+
  then show ?thesis unfolding readValue_def by (auto split: prod.split)
qed

lemma total_reads: "total (readGlobal env n)" "total (readAccount env n a)"
  unfolding readGlobal_def readAccount_def by (rule total_values)+

lemma total_session: "a \<noteq> [] \<Longrightarrow> total (getStoredSessionData env (Some a))"
  unfolding getStoredSessionData_def by (simp, intro total_and_then total_reads total_basic)

lemma total_reentry: "a \<noteq> [] \<Longrightarrow> total (isMasterPasswordReentryRequired env (Some a))"
  unfolding isMasterPasswordReentryRequired_def getMasterPasswordReentryPeriodMs_def nowOf_def
  by (simp, intro total_and_then total_session total_basic total_cases total_reads) simp_all

lemma total_catch: "total (catch m (\<lambda>_. ok x))"
  by (auto simp: total_def catch_def ok_def split: prod.splits sum.splits)

lemma total_pass: "a \<noteq> [] \<Longrightarrow> total (pass_biometric env session skip reason a)"
  unfolding pass_biometric_def isBiometricAuthRequired_def authenticateWithBiometric_def nowOf_def
  by (intro total_and_then total_session total_basic total_cases total_reads total_catch)

lemma total_run:
  assumes "total m" "ends P m E Q" "P s"
  obtains x t where "m s = (Inr x, t)" "Q x t"
proof -
  obtain x t where "m s = (Inr x, t)" using assms(1) unfolding total_def by (metis prod.collapse)
  then show thesis using that ends_value [OF assms(2,3)] by blast
qed

lemma now_exact: "ends (unchanged s) (nowOf env) E (\<lambda>n t. unchanged s t \<and> n = clock t)"
  by (rule endsI) (auto simp: nowOf_def get_state_def store_clock_def)

text \<open>A password that must be typed again: the period has passed when the answer is given.\<close>

lemma reentry_when:
  assumes "a \<noteq> []" and session: "session_in env (value_at s) a = Some session"
  shows "ends (unchanged s) (isMasterPasswordReentryRequired env (Some a)) (\<lambda>_. unchanged s)
    (\<lambda>x t. unchanged s t \<and> (x \<longrightarrow> reentry_due (value_at s) (clock t) session))"
proof -
  have "ends (unchanged s)
     (and_then (getStoredSessionData env (Some a)) (\<lambda>session. case session of
        None \<Rightarrow> ok False
      | Some ss \<Rightarrow> if \<not> session_wants_biometric ss then ok False
          else and_then (getMasterPasswordReentryPeriodMs env) (\<lambda>periodMs.
            if periodMs < 0 then ok False
            else and_then (nowOf env) (\<lambda>t.
              ok (t - coalesce (ssLastMasterPasswordEntry ss) (ssCreatedAt ss) \<ge> periodMs)))))
     (\<lambda>_. unchanged s) (\<lambda>x t. unchanged s t \<and> (x \<longrightarrow> reentry_due (value_at s) (clock t) session))"
    by (rule ends_seq [OF session_from [OF assms(1)]], rule ends_option, rule ends_ok, simp, rule ends_if, rule ends_ok,
        simp, rule ends_seq [OF yields_from [OF period_yields]], rule ends_if, rule ends_ok, simp,
        rule ends_and_then [OF now_exact], rule ends_ok)
       (use session in \<open>auto simp: reentry_due_def\<close>)
  then show ?thesis using assms(1) by (simp add: isMasterPasswordReentryRequired_def)
qed

text \<open>A prompt stands in the way only where one is due, and then it is the prompt that was refused.\<close>

lemma required_when:
  assumes "a \<noteq> []"
  shows "ends (unchanged s) (isBiometricAuthRequired env a) (\<lambda>_. unchanged s)
    (\<lambda>x t. unchanged s t \<and> (x \<longrightarrow> prompt_due env (value_at t) (clock t) a))"
  unfolding isBiometricAuthRequired_def
proof (rule ends_seq [OF session_from [OF assms]])
  fix session assume session: "session_in env (value_at s) a = session"
  let ?Q = "\<lambda>x t. unchanged s t \<and> (x \<longrightarrow> prompt_due env (value_at t) (clock t) a)"
  have due: "unchanged s t \<Longrightarrow> session = Some ss \<Longrightarrow> session_wants_biometric ss \<Longrightarrow>
      (\<And>l. parseStoredNumber (value_at s (AccountSlot a Last_biometric_auth)) = Some l \<Longrightarrow>
         clock t - l > BIOMETRIC_GRACE_PERIOD_MS) \<Longrightarrow> prompt_due env (value_at t) (clock t) a" for t ss
    using session by (auto simp: prompt_due_def unchanged_values split: option.split)
  have "ends (unchanged s) (case parseStoredNumber raw of
         None \<Rightarrow> ok True
       | Some lastAuth \<Rightarrow> and_then (nowOf env) (\<lambda>t. ok (t - lastAuth > BIOMETRIC_GRACE_PERIOD_MS)))
      (\<lambda>_. unchanged s) ?Q" if "value_at s (AccountSlot a Last_biometric_auth) = raw" "session = Some ss"
      "session_wants_biometric ss" for raw ss
    using due that
    by (intro ends_option ends_ok ends_and_then [OF now_exact]) auto
  then show "ends (unchanged s)
     (if session = None \<or> \<not> session_wants_biometric (the session) then ok False
      else and_then (readAccount env Last_biometric_auth a) (\<lambda>raw.
        case parseStoredNumber raw of
          None \<Rightarrow> ok True
        | Some lastAuth \<Rightarrow> and_then (nowOf env) (\<lambda>t. ok (t - lastAuth > BIOMETRIC_GRACE_PERIOD_MS))))
     (\<lambda>_. unchanged s) ?Q"
    by (intro ends_if ends_ok ends_seq [OF yields_from [OF readAccount_yields]]) auto
qed

definition refused :: "string \<Rightarrow> string \<Rightarrow> 'w account_store \<Rightarrow> 'w account_store \<Rightarrow> bool" where
  "refused reason a s t \<longleftrightarrow> (\<exists>p. value_at p = value_at s \<and> prompt_due env (value_at p) (clock p) a \<and>
     authenticateWithBiometric env reason (Some a) p = (Inr False, t))"

lemma device_authenticate:
  assumes "a \<noteq> []"
  shows "keeps (\<lambda>s. deviceKeyCache s = c) (authenticateWithBiometric env reason (Some a))"
proof -
  have calm: "leaves m \<Longrightarrow> keeps (\<lambda>s. deviceKeyCache s = c) m" for m :: "('w, 'b) store_act"
    by (rule keepsI) (metis leavesD unchanged_def prod.collapse)
  have stamp: "keeps (\<lambda>s. deviceKeyCache s = c) (writeAccount env Last_biometric_auth a v)" for v
  proof (rule keepsI)
    fix s :: "'w account_store" assume c: "deviceKeyCache s = c"
    obtain r t where run: "writeAccount env Last_biometric_auth a v s = (r, t)" by fastforce
    show "deviceKeyCache (snd (writeAccount env Last_biometric_auth a v s)) = c"
      using run c stores_caches [OF account_stores(1) [of a Last_biometric_auth]]
        stores_error [OF account_stores(1) [of a Last_biometric_auth]]
      by (cases r) (auto simp: unchanged_def)
  qed
  show ?thesis
    unfolding authenticateWithBiometric_def for_named [OF assms]
    by (intro keeps_intros stamp calm [OF calm_leaves [OF calm_authenticate]] calm [OF leaves_now])
qed

lemma moves_authenticate:
  "a \<noteq> [] \<Longrightarrow> moves {AccountSlot a Last_biometric_auth} (authenticateWithBiometric env reason (Some a))"
  unfolding authenticateWithBiometric_def
  by (simp, intro moves_rules moves_stores [OF account_stores(1)] leaves_moves [OF calm_leaves [OF calm_authenticate]]
      leaves_methods [THEN leaves_moves]) (simp_all add: ACCOUNT_VALUES_def)

lemma pass_when:
  assumes a: "a \<noteq> []" and u: "unchanged s u" and run: "pass_biometric env session skip reason a u = (Inr x, t)"
  shows "moved {AccountSlot a Last_biometric_auth} s t \<and> deviceKeyCache t = deviceKeyCache s \<and>
    (\<not> x \<longrightarrow> \<not> skip \<and> session_wants_biometric session \<and> refused reason a s t)"
proof (cases "\<not> skip \<and> session_wants_biometric session")
  case False
  then show ?thesis using run u unchanged_moved [OF u] by (auto simp: pass_biometric_def ok_def unchanged_def)
next
  case True
  then have "and_then (isBiometricAuthRequired env a)
      (\<lambda>required. if required then authenticateWithBiometric env reason (Some a) else ok True) u = (Inr x, t)"
    using run by (simp add: pass_biometric_def)
  then obtain b v where req: "isBiometricAuthRequired env a u = (Inr b, v)"
    and rest: "(if b then authenticateWithBiometric env reason (Some a) else ok True) v = (Inr x, t)"
    by (elim seqE)
  have v: "unchanged s v" "b \<Longrightarrow> prompt_due env (value_at v) (clock v) a"
    using ends_value [OF required_when [OF a] u req] by simp_all
  show ?thesis
  proof (cases b)
    case b: True
    then have auth: "authenticateWithBiometric env reason (Some a) v = (Inr x, t)" using rest by simp
    have "moved {AccountSlot a Last_biometric_auth} s t"
      by (rule moved_trans [OF unchanged_moved [OF v(1)] movesD [OF moves_authenticate [OF a] auth]])
    moreover have "deviceKeyCache t = deviceKeyCache s"
      using keepsD [OF device_authenticate [OF a], of v "deviceKeyCache s" reason] auth v(1) by (simp add: unchanged_def)
    ultimately show ?thesis
      using auth v unchanged_values [OF v(1)] b True by (auto simp: refused_def)
  next
    case False
    then show ?thesis using rest v(1) unchanged_moved [OF v(1)] by (simp add: ok_def unchanged_def)
  qed
qed

section \<open>The device key\<close>

definition device_text :: "slot_texts \<Rightarrow> nat list \<Rightarrow> bool" where
  "device_text v x \<longleftrightarrow> accepts x \<and> (\<exists>raw. v (GlobalSlot Device_key) = Some raw \<and> text_of raw \<noteq> [] \<and>
     base64ToArrayBuffer (text_of raw) = Some x)"

text \<open>A cached device key is the one that is stored.\<close>

definition device_ok :: "'w account_store \<Rightarrow> bool" where
  "device_ok s \<longleftrightarrow> (\<forall>k. deviceKeyCache s = Some k \<longrightarrow>
     (\<exists>x. keys_of s k = Some x \<and> device_text (value_at s) x))"

text \<open>m mints at most: keys that live keep their octets.\<close>

definition mints_only :: "('w, 'a) store_act \<Rightarrow> bool" where
  "mints_only m \<longleftrightarrow> (\<forall>s k x. keys_of s k = Some x \<longrightarrow> keys_of (snd (m s)) k = Some x)"

lemma mints_onlyD: "mints_only m \<Longrightarrow> m s = (r, t) \<Longrightarrow> keys_of s k = Some x \<Longrightarrow> keys_of t k = Some x"
  by (auto simp: mints_only_def dest: spec [where x = s])

lemma quiet_mints: "keeps_keys material m \<Longrightarrow> mints_only (in_store_world m)"
  by (simp add: mints_only_def keeps_keys_def in_store_world_def split_beta)

lemma mints_mints: "mints_key material m P \<Longrightarrow> mints_only (in_store_world m)"
  unfolding mints_only_def
proof (intro allI impI)
  fix s k x assume law: "mints_key material m P" and live: "keys_of s k = Some x"
  obtain r w where run: "m (storeWorld s) = (r, w)" by fastforce
  have "material w k = Some x" using law live run unfolding mints_key_def by (cases r) fastforce+
  then show "keys_of (snd (in_store_world m s)) k = Some x" using run by (simp add: in_store_world_def)
qed

lemma mints_values: "mints_only (readValue env n k)" "mints_only (writeValue env n k v)"
  unfolding readValue_def writeValue_def by (auto split: prod.split intro!: quiet_mints port_keys)

lemma mints_store: "mints_only (readGlobal env n)" "mints_only (writeGlobal env n v)"
  "mints_only (readAccount env n a)" "mints_only (writeAccount env n a v)"
  unfolding readGlobal_def writeGlobal_def readAccount_def writeAccount_def by (rule mints_values)+

lemma minted:
  assumes "mints_key material m P" "in_store_world m s = (Inr k, t)"
  shows "\<exists>x. P x \<and> keys_of t k = Some x"
  using assms by (fastforce simp: mints_key_def in_store_world_def split: prod.splits)

lemma load_returns:
  assumes run: "loadDeviceKey env s = (Inr k, t)"
  shows "\<exists>x. keys_of t k = Some x \<and> device_text (value_at t) x"
    and "\<And>j y. keys_of s j = Some y \<Longrightarrow> keys_of t j = Some y"
    and "moved {GlobalSlot Device_key} s t"
proof -
  obtain stored u where read: "readGlobal env Device_key s = (Inr stored, u)"
    and rest: "(if stored \<noteq> None \<and> text_of (the stored) \<noteq> []
     then (case base64ToArrayBuffer (text_of (the stored)) of
         None \<Rightarrow> throw (JsError ''The string to be decoded is not correctly encoded.'')
       | Some bytes \<Rightarrow> in_store_world (cpImportKey (seCrypto env) bytes))
     else and_then (in_store_world (cpGenerateEncryptionKey (seCrypto env))) (\<lambda>generated.
       catch
         (and_then (in_store_world (cpExportKey (seCrypto env) generated)) (\<lambda>exported.
          and_then (writeGlobal env Device_key (PlainText (arrayBufferToBase64 exported))) (\<lambda>_.
          ok generated)))
         (\<lambda>error. and_then (destroyKey env (Some generated)) (\<lambda>_. throw error)))) u = (Inr k, t)"
    using run unfolding loadDeviceKey_def by (elim seqE [of "readGlobal env Device_key"])
  have stored: "stored = value_at s (GlobalSlot Device_key)" and u: "unchanged s u"
    using yieldsD [OF readGlobal_yields read] by simp_all
  have keep_u: "\<And>j y. keys_of s j = Some y \<Longrightarrow> keys_of u j = Some y" using mints_onlyD [OF mints_store(1) read] .
  have "(\<exists>x. keys_of t k = Some x \<and> device_text (value_at t) x) \<and>
    (\<forall>j y. keys_of s j = Some y \<longrightarrow> keys_of t j = Some y) \<and> moved {GlobalSlot Device_key} s t"
  proof (cases "stored \<noteq> None \<and> text_of (the stored) \<noteq> []")
    case True
    then obtain bytes where b: "base64ToArrayBuffer (text_of (the stored)) = Some bytes"
      and imp: "in_store_world (cpImportKey (seCrypto env) bytes) u = (Inr k, t)"
      using rest by (auto simp: throw_def split: option.splits)
    have t: "unchanged u t" using leavesD [OF calm_leaves [OF calm_import] imp] .
    have "accepts bytes"
      using imp import_returns [of bytes "storeWorld u"] by (auto simp: in_store_world_def split: prod.splits)
    moreover have "keys_of t k = Some bytes" using minted [OF import_mints imp] by simp
    ultimately show ?thesis
      using True b stored unchanged_values [OF u] unchanged_values [OF t] keep_u mints_onlyD [OF mints_mints [OF import_mints] imp]
        unchanged_moved [OF unchanged_trans [OF u t]]
      by (auto simp: device_text_def)
  next
    case False
    then obtain s1 where gen: "in_store_world (cpGenerateEncryptionKey (seCrypto env)) u = (Inr k, s1)"
      and body: "catch
         (and_then (in_store_world (cpExportKey (seCrypto env) k)) (\<lambda>exported.
          and_then (writeGlobal env Device_key (PlainText (arrayBufferToBase64 exported))) (\<lambda>_. ok k)))
         (\<lambda>error. and_then (destroyKey env (Some k)) (\<lambda>_. throw error)) s1 = (Inr k, t)"
      using rest
      by (auto elim!: seqE simp: catch_def and_then_def ok_def throw_def split: prod.splits sum.splits)
    then obtain bytes s2 where exp: "in_store_world (cpExportKey (seCrypto env) k) s1 = (Inr bytes, s2)"
      and wr: "writeGlobal env Device_key (PlainText (arrayBufferToBase64 bytes)) s2 = (Inr (), t)"
      by (auto simp: catch_def and_then_def ok_def throw_def split: prod.splits sum.splits)
    obtain x where x: "x \<noteq> []" "accepts x" "list_all (\<lambda>b. b < 256) x" "keys_of s1 k = Some x"
      using minted [OF generates_accepted gen] by blast
    have bytes: "bytes = x"
      using exp x(4) export_tells [of k "storeWorld s1"] by (auto simp: in_store_world_def split: prod.splits)
    have "arrayBufferToBase64 x \<noteq> []" using x(1) by (cases x rule: btoa.cases) (auto simp: arrayBufferToBase64_def)
    then have "device_text (value_at t) x"
      using stores_value [OF account_stores(3) wr, of "GlobalSlot Device_key"] bytes x(2) base64_roundtrip [OF x(3)]
      by (simp add: device_text_def GLOBAL_VALUES_def)
    moreover have keep: "keys_of t j = Some y" if "keys_of s1 j = Some y" for j y
      using mints_onlyD [OF mints_store(2) wr] mints_onlyD [OF quiet_mints [OF crypto_keys(1)] exp] that by blast
    moreover have "keys_of s1 j = Some y" if "keys_of s j = Some y" for j y
      using mints_onlyD [OF mints_mints [OF generates_accepted] gen] keep_u that by blast
    moreover have "moved {GlobalSlot Device_key} s t"
      using unchanged_trans [OF u unchanged_trans [OF leavesD [OF calm_leaves [OF calm_generate] gen]
          leavesD [OF calm_leaves [OF calm_export] exp]]]
        movesD [OF moves_stores [OF account_stores(3)] wr, of "{GlobalSlot Device_key}"]
      by (auto intro: moved_trans unchanged_moved simp: GLOBAL_VALUES_def)
    ultimately show ?thesis using x(4) by blast
  qed
  then show "\<exists>x. keys_of t k = Some x \<and> device_text (value_at t) x"
    "\<And>j y. keys_of s j = Some y \<Longrightarrow> keys_of t j = Some y" "moved {GlobalSlot Device_key} s t" by blast+
qed

lemma device_key_returns:
  assumes run: "getDeviceKey env s = (Inr k, t)" and dk: "device_ok s"
  shows "\<exists>x. keys_of t k = Some x \<and> device_text (value_at t) x"
    and "\<And>j y. keys_of s j = Some y \<Longrightarrow> keys_of t j = Some y" and "moved {GlobalSlot Device_key} s t"
proof -
  have "(\<exists>x. keys_of t k = Some x \<and> device_text (value_at t) x) \<and>
    (\<forall>j y. keys_of s j = Some y \<longrightarrow> keys_of t j = Some y) \<and> moved {GlobalSlot Device_key} s t"
  proof (cases "deviceKeyCache s")
    case (Some c)
    then have "k = c" "t = s" using run by (simp_all add: getDeviceKey_def ok_def)
    then show ?thesis using dk Some by (auto simp: device_ok_def moved_def)
  next
    case None
    then obtain u where load: "loadDeviceKey env s = (Inr k, u)" and t: "t = u\<lparr>deviceKeyCache := Some k\<rparr>"
      using run by (auto simp: getDeviceKey_def ok_def put_state_def and_then_def get_state_def split: prod.splits sum.splits)
    have "value_at t = value_at u" by (intro ext) (simp add: t slot_text_def)
    then show ?thesis
      using load_returns [OF load] by (auto simp: t moved_def store_clock_def)
  qed
  then show "\<exists>x. keys_of t k = Some x \<and> device_text (value_at t) x"
    "\<And>j y. keys_of s j = Some y \<Longrightarrow> keys_of t j = Some y" "moved {GlobalSlot Device_key} s t" by blast+
qed

section \<open>Storing a session and opening it again\<close>

lemma resolve_json:
  "ssEncryptedMasterUnlockKey (resolve_session env (session_json ss)) = ssEncryptedMasterUnlockKey ss"
  "ssBiometricEnabled (resolve_session env (session_json ss)) = ssBiometricEnabled ss"
  "ssLastMasterPasswordEntry (resolve_session env (session_json ss)) = ssLastMasterPasswordEntry ss"
  by (simp_all add: resolve_session_def session_json_def)

lemma resolved_session:
  assumes run: "storeSessionData env muk a email user expiry sid s = (Inr (), t)" and a: "a \<noteq> []"
    and dk: "device_ok s" and muk: "keys_of s muk = Some x"
  shows "\<exists>u session. device_text (value_at t) u \<and> session_in env (value_at t) a = Some session \<and>
    opens_to (ssEncryptedMasterUnlockKey session) u = Some x \<and>
    ssBiometricEnabled session = Some (enabled_in (value_at s) a) \<and>
    clock s \<le> coalesce (ssLastMasterPasswordEntry session) (ssCreatedAt session)"
proof -
  have require: "requireAccountId env (Some a) = ok a"
    by (rule ext) (use a in \<open>simp add: requireAccountId_def resolveAccountId_def absent_def\<close>)
  obtain k s1 n s2 d s3 b s4 where key: "getDeviceKey env s = (Inr k, s1)" and now: "nowOf env s1 = (Inr n, s2)"
    and wrap: "in_store_world (cpWrapKey (seCrypto env) muk k None) s2 = (Inr d, s3)"
    and enabled: "isBiometricEnabled env (Some a) s3 = (Inr b, s4)"
    and wr: "writeSessionData env a
       \<lparr>ssEncryptedMasterUnlockKey = d, ssEmail = map to_lower_char email, ssUserId = user,
        ssSessionId = sid, ssExpiresAt = n + DEFAULT_SESSION_EXPIRY_MS,
        ssServerExpiresAt = Some (resolveStoredSessionExpiryTimestamp env expiry n),
        ssCreatedAt = n, ssBiometricEnabled = Some b,
        ssLastMasterPasswordEntry = Some n\<rparr> s4 = (Inr (), t)"
    using run unfolding storeSessionData_def require ok_and_then
    by (elim seqE [of "getDeviceKey env"] seqE [of "nowOf env"] seqE [of "in_store_world m" for m] seqE [of "isBiometricEnabled env z" for z])
  obtain u where u: "keys_of s1 k = Some u" "device_text (value_at s1) u" and x1: "keys_of s1 muk = Some x"
    and s1: "moved {GlobalSlot Device_key} s s1"
    using device_key_returns [OF key dk] muk by blast
  have s2: "s2 = s1" and n: "clock s \<le> n" using now s1 by (auto simp: nowOf_def get_state_def moved_def store_clock_def)
  have s3: "unchanged s2 s3" using leavesD [OF calm_leaves [OF calm_wrap] wrap] .
  have sealed: "opens_to d u = Some x"
    using wrap u(1) x1 wrap_seals [of muk k "storeWorld s1" d] s2 by (auto simp: in_store_world_def split: prod.splits)
  have b: "b = enabled_in (value_at s3) a" and s4: "unchanged s3 s4"
    using yieldsD [OF enabled_yields enabled] a by simp_all
  have "value_at s1 (AccountSlot a Biometric_enabled) = value_at s (AccountSlot a Biometric_enabled)"
    using s1 by (simp add: moved_def ACCOUNT_VALUES_def)
  then have b': "b = enabled_in (value_at s) a" using b s2 unchanged_values [OF s3] by (simp add: enabled_in_def)
  let ?session = "\<lparr>ssEncryptedMasterUnlockKey = d, ssEmail = map to_lower_char email, ssUserId = user,
        ssSessionId = sid, ssExpiresAt = n + DEFAULT_SESSION_EXPIRY_MS,
        ssServerExpiresAt = Some (resolveStoredSessionExpiryTimestamp env expiry n),
        ssCreatedAt = n, ssBiometricEnabled = Some b, ssLastMasterPasswordEntry = Some n\<rparr>"
  have vt: "slot_ok sl \<Longrightarrow> value_at t sl = (if sl = AccountSlot a Session_data
      then Some (SessionText (session_json ?session)) else value_at s4 sl)" for sl
    using stores_value [OF account_stores(1) [of a Session_data], of "SessionText (session_json ?session)" s4 t sl] wr
    by (simp add: writeSessionData_def ACCOUNT_VALUES_def)
  have "device_text (value_at t) u"
    using u(2) vt [of "GlobalSlot Device_key"] s2 unchanged_values [OF s3] unchanged_values [OF s4]
    by (simp add: device_text_def GLOBAL_VALUES_def)
  moreover have "session_in env (value_at t) a = Some (resolve_session env (session_json ?session))"
    using vt [of "AccountSlot a Session_data"] by (simp add: session_in_def ACCOUNT_VALUES_def)
  ultimately show ?thesis using sealed b' n resolve_json [of ?session] by auto
qed

lemma load_stored:
  assumes "device_text (value_at s) u"
  obtains k t where "loadDeviceKey env s = (Inr k, t)" "keys_of t k = Some u"
proof -
  obtain raw where raw: "value_at s (GlobalSlot Device_key) = Some raw" "text_of raw \<noteq> []"
    "base64ToArrayBuffer (text_of raw) = Some u" and ok: "accepts u"
    using assms by (auto simp: device_text_def)
  obtain stored s1 where read: "readGlobal env Device_key s = (Inr stored, s1)"
    using total_reads(1) [of Device_key] unfolding total_def by (metis prod.collapse)
  have stored: "stored = Some raw" using yieldsD [OF readGlobal_yields read] raw(1) by simp
  obtain k w where imp: "cpImportKey (seCrypto env) u (storeWorld s1) = (Inr k, w)"
    using import_returns [of u "storeWorld s1"] ok by (metis prod.collapse)
  have run: "in_store_world (cpImportKey (seCrypto env) u) s1 = (Inr k, s1\<lparr>storeWorld := w\<rparr>)"
    using imp by (simp add: in_store_world_def)
  have "loadDeviceKey env s = (Inr k, s1\<lparr>storeWorld := w\<rparr>)"
    using read stored raw run by (simp add: loadDeviceKey_def and_then_def)
  moreover have "keys_of (s1\<lparr>storeWorld := w\<rparr>) k = Some u" using minted [OF import_mints run] by simp
  ultimately show thesis by (rule that)
qed

lemma opens_with:
  assumes dev: "device_text (value_at s) u" and none: "deviceKeyCache s = None"
    and opens: "opens_to (ssEncryptedMasterUnlockKey session) u = Some x"
  shows "\<exists>k t. unwrap_stored env session s = (Inr (Some k), t) \<and> keys_of t k = Some x"
proof -
  obtain k t where load: "loadDeviceKey env s = (Inr k, t)" and k: "keys_of t k = Some u"
    using load_stored [OF dev] by blast
  have key: "getDeviceKey env s = (Inr k, t\<lparr>deviceKeyCache := Some k\<rparr>)"
    using load none by (simp add: getDeviceKey_def and_then_def get_state_def put_state_def ok_def)
  obtain j w where "cpUnwrapKey (seCrypto env) (ssEncryptedMasterUnlockKey session) k None (storeWorld t) = (Inr j, w)"
    and j: "material w j = Some x"
    using unwrap_opens [of "storeWorld t" k u] k opens by blast
  then have "unwrap_stored env session s = (Inr (Some j), t\<lparr>deviceKeyCache := Some k, storeWorld := w\<rparr>)"
    using key by (simp add: unwrap_stored_def catch_def and_then_def in_store_world_def ok_def)
  then show ?thesis using j by simp
qed

lemma opens_again:
  assumes a: "a \<noteq> []" and dev: "device_text (value_at s) u" and none: "deviceKeyCache s = None"
    and session: "session_in env (value_at s) a = Some session"
    and opens: "opens_to (ssEncryptedMasterUnlockKey session) u = Some x"
  shows "\<exists>r t. decryptStoredMasterUnlockKey env (Some a) skip reason s = (Inr r, t) \<and>
    (case r of Some k \<Rightarrow> keys_of t k = Some x
     | None \<Rightarrow> reentry_due (value_at s) (clock t) session \<or>
         \<not> skip \<and> session_wants_biometric session \<and> refused reason a s t)"
proof -
  obtain s1 where read: "getStoredSessionData env (Some a) s = (Inr (Some session), s1)" and s1: "unchanged s s1"
    using total_run [OF total_session [OF a] session_from [OF a, of s] unchanged_refl] session by metis
  obtain b s2 where reentry: "isMasterPasswordReentryRequired env (Some a) s1 = (Inr b, s2)"
    and s2: "unchanged s s2" "b \<Longrightarrow> reentry_due (value_at s) (clock s2) session"
    using total_run [OF total_reentry [OF a] reentry_when [OF a session] s1] by blast
  obtain p s3 where pass: "pass_biometric env session skip reason a s2 = (Inr p, s3)"
    using total_pass [OF a] unfolding total_def by (metis prod.collapse)
  note s3 = pass_when [OF a s2(1) pass]
  have "device_text (value_at s3) u"
    using dev s3 by (simp add: device_text_def moved_def GLOBAL_VALUES_def)
  then obtain k t where opened: "unwrap_stored env session s3 = (Inr (Some k), t)" "keys_of t k = Some x"
    using opens_with [OF _ _ opens] s3 none by metis
  show ?thesis
    using a read reentry pass opened s2(2) s3
    by (cases b; cases p) (simp_all add: decryptStoredMasterUnlockKey_def and_then_def ok_def)
qed

end

end
