(* ===== verification/AccountStoreTypes.thy ===== *)
theory AccountStoreTypes
  imports AccountStoreCalls
begin

text \<open>
  What may lie where. A text is well typed when it is under the key of a slot, at the place the
  tier table gives the slot's value, and of the kind the store writes for it; every call keeps all
  texts well typed, also when it fails half way.
\<close>

fun kind_ok :: "stored_value \<Rightarrow> stored_text \<Rightarrow> bool" where
  "kind_ok Accounts_list x = (case x of AccountsText d \<Rightarrow> adVersion d = Some ACCOUNTS_LIST_VERSION | _ \<Rightarrow> False)"
| "kind_ok Session_data x = (\<exists>session. x = SessionText (session_json session))"
| "kind_ok Vault_keys x = (\<exists>ks. x = VaultKeysText ks)"
| "kind_ok Pinned_kdf_params x = (\<exists>p. x = KdfText (untrusted p))"
| "kind_ok Travel_mode_cache x = (\<exists>c. x = TravelText c)"
| "kind_ok Native_view x = (\<exists>view. x = ViewText view)"
| "kind_ok Biometric_enabled x = (x = PlainText ''true'' \<or> x = PlainText ''false'')"
| "kind_ok Last_biometric_auth x = (\<exists>n. x = PlainText (int_text n))"
| "kind_ok Background_timestamp x = (\<exists>n. x = PlainText (int_text n))"
| "kind_ok Auto_lock_timeout x = (\<exists>n. x = PlainText (int_text n))"
| "kind_ok Master_password_reentry_period_ms x = (\<exists>n. x = PlainText (int_text n))"
| "kind_ok Device_key x = (\<exists>bytes. x = PlainText (arrayBufferToBase64 bytes))"
| "kind_ok Active_account x = (\<exists>a. x = PlainText a \<and> a \<noteq> [])"
| "kind_ok _ x = (\<exists>a. x = PlainText a)"

definition well_typed :: "'w store_env \<Rightarrow> 'w store_texts \<Rightarrow> 'w account_store \<Rightarrow> bool" where
  "well_typed env texts s \<longleftrightarrow> (\<forall>p k x. texts (storeWorld s) p k = Some x \<longrightarrow>
     (\<exists>sl. slot_ok sl \<and> place_of env (slot_value sl) = p \<and> slot_key sl = k \<and> kind_ok (slot_value sl) x))"

context account_platform begin

abbreviation typed :: "'w account_store \<Rightarrow> bool" where
  "typed \<equiv> well_typed env texts"

lemma typed_leaves: "leaves m \<Longrightarrow> keeps typed m"
  unfolding keeps_def well_typed_def leaves_def unchanged_def by metis

lemmas typed_methods = leaves_methods [THEN typed_leaves]

lemma typed_put: "(\<And>s. storeWorld (g s) = storeWorld s) \<Longrightarrow> keeps typed (put_state g)"
  by (rule keeps_put_state) (simp add: well_typed_def)

lemma typed_stores:
  assumes st: "stores sl x m" and "slot_ok sl" and kind: "\<And>y. x = Some y \<Longrightarrow> kind_ok (slot_value sl) y"
  shows "keeps typed m"
proof (rule keepsI)
  fix s assume now: "typed s"
  obtain r t where m: "m s = (r, t)" by fastforce
  have t: "texts (storeWorld t) = (case r of Inl _ \<Rightarrow> texts (storeWorld s)
       | Inr _ \<Rightarrow> (texts (storeWorld s))(place_of env (slot_value sl) :=
                    (texts (storeWorld s) (place_of env (slot_value sl)))(slot_key sl := x)))"
    using st m unfolding stores_def by blast
  have "\<exists>sl. slot_ok sl \<and> place_of env (slot_value sl) = p \<and> slot_key sl = k \<and> kind_ok (slot_value sl) y"
    if y: "texts (storeWorld t) p k = Some y" for p k y
  proof (cases "(\<exists>a. r = Inr a) \<and> p = place_of env (slot_value sl) \<and> k = slot_key sl")
    case True
    then have "x = Some y" using t y by auto
    then show ?thesis using kind assms(2) True by blast
  next
    case False
    then have "texts (storeWorld s) p k = Some y" using t y by (auto split: sum.splits if_splits)
    then show ?thesis using now unfolding well_typed_def by blast
  qed
  then show "typed (snd (m s))" using m by (simp add: well_typed_def)
qed

lemma typed_account_write: "n \<in> set ACCOUNT_VALUES \<Longrightarrow> kind_ok n x \<Longrightarrow> keeps typed (writeAccount env n a x)"
  by (rule typed_stores [OF account_stores(1)]) auto

lemma typed_account_delete: "n \<in> set ACCOUNT_VALUES \<Longrightarrow> keeps typed (deleteAccount env n a)"
  by (rule typed_stores [OF account_stores(2)]) auto

lemma typed_global_write: "n \<in> set GLOBAL_VALUES \<Longrightarrow> kind_ok n x \<Longrightarrow> keeps typed (writeGlobal env n x)"
  by (rule typed_stores [OF account_stores(3)]) auto

lemma typed_global_delete: "n \<in> set GLOBAL_VALUES \<Longrightarrow> keeps typed (deleteGlobal env n)"
  by (rule typed_stores [OF account_stores(4)]) auto

lemmas typed_basics = keeps_and_then keeps_catch keeps_if keeps_case_option keeps_ok keeps_throw keeps_get_state

lemma typed_for_account: "(\<And>a. keeps typed (f a)) \<Longrightarrow> keeps typed (for_account env acc x f)"
  unfolding for_account_def by (intro typed_basics typed_methods)

lemma typed_timeout: "keeps typed (getAutoLockTimeoutOrDefault env acc)"
  by (rule typed_leaves, rule yields_leaves, rule timeout_yields)

lemma typed_refresh: "keeps typed (refreshNativeView env ids)"
  unfolding refreshNativeView_def
  by (intro typed_basics keeps_map_each typed_timeout typed_global_write typed_methods) (simp_all add: GLOBAL_VALUES_def)

lemma typed_refresh_view: "keeps typed (refresh_view env)"
  unfolding refresh_view_def by (intro typed_basics typed_refresh)

lemma typed_notify: "keeps typed notifyUnlockListeners"
  unfolding notifyUnlockListeners_def by (rule typed_put) simp

lemma typed_setUnlockEntry: "keeps typed (setUnlockEntry env a entry)"
  unfolding setUnlockEntry_def publishUnlock_def takeUnlock_def
  by (intro typed_basics typed_refresh typed_put typed_notify typed_methods) (simp add: cache_entry_def)

lemma typed_lists: "keeps typed (writeAccountsList env accounts)" "keeps typed (writeActiveAccount env acc)"
proof -
  show "keeps typed (writeAccountsList env accounts)"
    unfolding writeAccountsList_def
    by (intro typed_basics typed_refresh_view typed_global_write) (simp_all add: GLOBAL_VALUES_def)
  have "keeps typed (if absent acc then deleteGlobal env Active_account else writeGlobal env Active_account (PlainText (the acc)))"
    using typed_global_delete [of Active_account] typed_global_write [of Active_account "PlainText (the acc)"]
    by (cases acc) (auto simp: absent_def GLOBAL_VALUES_def)
  then show "keeps typed (writeActiveAccount env acc)"
    unfolding writeActiveAccount_def by (rule keeps_and_then) (rule typed_refresh_view)
qed

lemma typed_session: "keeps typed (writeSessionData env a session)"
  unfolding writeSessionData_def by (intro typed_account_write) (auto simp: ACCOUNT_VALUES_def)

lemma typed_device_key: "keeps typed (getDeviceKey env)"
  unfolding getDeviceKey_def loadDeviceKey_def
  by (intro typed_basics typed_put typed_global_write typed_methods) (auto simp: GLOBAL_VALUES_def)

lemma typed_authenticate: "keeps typed (authenticateWithBiometric env reason acc)"
  unfolding authenticateWithBiometric_def
  by (intro typed_basics typed_for_account typed_account_write typed_methods) (auto simp: ACCOUNT_VALUES_def)

lemma typed_decrypt: "keeps typed (decryptStoredMasterUnlockKey env acc skip reason)"
  unfolding decryptStoredMasterUnlockKey_def pass_biometric_def unwrap_stored_def
  by (intro typed_basics typed_for_account typed_authenticate typed_device_key typed_methods)

lemma typed_restore: "keeps typed (tryRestoreSession env skip acc)"
  unfolding tryRestoreSession_def
  by (intro typed_basics typed_for_account typed_decrypt typed_setUnlockEntry typed_methods)

lemma typed_clearSession: "keeps typed (clearSession env acc)"
  unfolding clearSession_def
  by (intro typed_basics typed_for_account typed_account_delete typed_setUnlockEntry; simp add: ACCOUNT_VALUES_def)

lemma typed_setBiometric: "keeps typed (setBiometricEnabled env a b)"
  unfolding setBiometricEnabled_def
  by (intro typed_basics typed_account_write typed_lists typed_session typed_refresh_view typed_methods)
     (simp_all add: ACCOUNT_VALUES_def)

lemma typed_remove: "keeps typed (removeAccountInternal env a)"
  unfolding removeAccountInternal_def
  by (intro typed_basics keeps_for_each_in typed_account_delete typed_lists typed_notify typed_put typed_methods)
     (simp_all add: cache_entry_def)

lemma typed_lockAll: "keeps typed (lockAllAccounts env)"
  unfolding lockAllAccounts_def
  by (intro typed_basics keeps_for_each typed_account_delete typed_refresh_view typed_notify typed_put typed_methods)
     (simp_all add: ACCOUNT_VALUES_def)

lemma typed_void: "keeps typed m \<Longrightarrow> keeps typed (void m)"
  unfolding void_def by (intro typed_basics)

lemma typed_initialize: "keeps typed (initialize env)"
proof (cases "assertTiersHonoured (ppTiers (sePort env))")
  case (Inr x)
  then show ?thesis by (simp add: initialize_def) (intro typed_basics typed_refresh_view typed_methods)
qed (simp add: initialize_def keeps_throw)

lemma typed_addAccount: "keeps typed (addAccount env a)"
  unfolding addAccount_def Let_def
  by (intro typed_basics typed_account_write typed_lists typed_methods) (simp_all add: ACCOUNT_VALUES_def)

lemma typed_clearAll: "keeps typed (clearAllStoredData env acc)"
  unfolding clearAllStoredData_def
  by (intro typed_basics typed_remove typed_global_delete typed_lists typed_put typed_methods)
     (simp_all add: GLOBAL_VALUES_def)

lemma typed_unlocks: "keeps typed (unlockWithBiometric env acc reason)" "keeps typed (unlockAllAccountsWithBiometric env reason)"
proof -
  have first: "keeps typed (first_unlockable env as)" for as
    by (induction as) (auto intro!: typed_basics typed_methods)
  show "keeps typed (unlockWithBiometric env acc reason)"
    unfolding unlockWithBiometric_def
    by (intro typed_basics typed_for_account typed_decrypt typed_setUnlockEntry typed_methods)
  show "keeps typed (unlockAllAccountsWithBiometric env reason)"
    unfolding unlockAllAccountsWithBiometric_def unlock_after_prompt_def
    by (intro typed_basics first keeps_map_each typed_decrypt typed_authenticate typed_setUnlockEntry typed_methods)
qed

lemma typed_enhanced: "keeps typed (authenticateWithBiometricEnhanced env reason acc)"
  unfolding authenticateWithBiometricEnhanced_def
  by (intro typed_basics typed_for_account typed_account_write typed_account_delete typed_methods)
     (auto simp: ACCOUNT_VALUES_def)

lemma typed_simple_calls:
  "keeps typed (storeSessionData env k a e u x i)" "keeps typed (updateStoredSessionMetadata env a i expiry)"
  "keeps typed (updateLastMasterPasswordEntry env z)" "keeps typed (storeSecretKey env k z)"
  "keeps typed (storeAuthToken env k z)" "keeps typed (writeVaultKeys env ks z)"
  "keeps typed (storeEncryptedPrivateKey env k z)" "keeps typed (storePinnedKdfProfile env p a)"
  "keeps typed (storeServerUrl env k z)" "keeps typed (storeMasterPasswordReentryPeriodMs env ms)"
  "keeps typed (storeTravelModeCache env c z)" "keeps typed (storeBackgroundTimestamp env z)"
  "keeps typed (clearBackgroundTimestamp env z)" "keeps typed (forgetSession env z)"
  "keeps typed (setMasterUnlockKey env k z)" "keeps typed (clearMasterUnlockKey env z)"
  "keeps typed (storeAutoLockTimeout env ms z)" "keeps typed (enableBiometric env z)"
  "keeps typed (disableBiometric env z)" "keeps typed (tryRestoreSessionWithoutPrompt env z)"
  "keeps typed (setActiveAccount env z)" "keeps typed (setInsecureTransportConfirmed env a b)"
  unfolding storeSessionData_def updateStoredSessionMetadata_def updateLastMasterPasswordEntry_def
    storeSecretKey_def storeAuthToken_def writeVaultKeys_def storeEncryptedPrivateKey_def
    storePinnedKdfProfile_def storeServerUrl_def storeMasterPasswordReentryPeriodMs_def
    storeTravelModeCache_def storeBackgroundTimestamp_def clearBackgroundTimestamp_def
    forgetSession_def setMasterUnlockKey_def clearMasterUnlockKey_def storeAutoLockTimeout_def
    enableBiometric_def disableBiometric_def tryRestoreSessionWithoutPrompt_def setActiveAccount_def
    setInsecureTransportConfirmed_def
  by (intro typed_basics typed_for_account typed_session typed_device_key typed_account_write typed_account_delete
        typed_global_write typed_clearSession typed_setUnlockEntry typed_refresh_view typed_setBiometric typed_restore
        typed_lists typed_methods;
      auto simp: ACCOUNT_VALUES_def GLOBAL_VALUES_def)+

lemma perform_typed: "keeps typed (store_perform env c)"
  by (cases c)
     (simp_all only: store_perform.simps, (rule typed_initialize typed_addAccount typed_remove typed_clearAll typed_lockAll
        typed_clearSession typed_setBiometric typed_simple_calls typed_void typed_restore typed_decrypt
        typed_authenticate typed_enhanced typed_unlocks)+)

end

end
