(* ===== verification/MemoryPlatform.thy ===== *)
theory MemoryPlatform
  imports AccountStoreSeals AccountStoreTypes CeremonyClaims
begin

text \<open>
  A platform for the account store: the in-memory port of
  packages/storage/src/testing/in-memory-port.ts beside a table of live keys, whose wrapped keys
  name the octets they were sealed under. It satisfies the laws of account_platform, key_holder and
  sealing_platform. The port's call counters, which no code reads, are left out.
\<close>

section \<open>The in-memory port\<close>

record in_memory_biometric =
  imHasHardware :: bool
  imIsEnrolled :: bool
  imType :: "string option"
  imAuthenticates :: bool
  imAuthenticateError :: port_biometric_error
  imAuthenticateMessage :: "string option"
  imLastReason :: "string option"

record memory_device =
  mdSecrets :: "(string \<times> stored_text) list"
  mdDevice :: "(string \<times> stored_text) list"
  mdSession :: "(string \<times> stored_text) list"
  mdBiometric :: in_memory_biometric
  mdKeys :: "(key_ref \<times> nat list) list"
  mdClock :: int

definition scopeStore :: "storage_scope \<Rightarrow> memory_device \<Rightarrow> (string \<times> stored_text) list" where
  "scopeStore scope w = (if scope = SessionScope then mdSession w else mdDevice w)"

definition in_scope ::
  "storage_scope \<Rightarrow> ((string \<times> stored_text) list \<Rightarrow> (string \<times> stored_text) list) \<Rightarrow> memory_device \<Rightarrow> memory_device" where
  "in_scope scope f w = (if scope = SessionScope then w\<lparr>mdSession := f (mdSession w)\<rparr>
     else w\<lparr>mdDevice := f (mdDevice w)\<rparr>)"

definition memory_authenticate :: "string \<Rightarrow> (js_error, memory_device, biometric_port_result) act" where
  "memory_authenticate reason =
     and_then (put_state (\<lambda>w. w\<lparr>mdBiometric := (mdBiometric w)\<lparr>imLastReason := Some reason\<rparr>\<rparr>)) (\<lambda>_.
     get_state (\<lambda>w. let b = mdBiometric w in
       if imAuthenticates b then \<lparr>bpSuccess = True, bpError = None, bpMessage = None\<rparr>
       else \<lparr>bpSuccess = False, bpError = Some (imAuthenticateError b), bpMessage = imAuthenticateMessage b\<rparr>))"

definition createInMemoryPlatformPort ::
  "bool \<Rightarrow> storage_tier list \<Rightarrow> string \<Rightarrow> memory_device platform_port" where
  "createInMemoryPlatformPort survives tiers prefix =
     \<lparr>ppSessionSurvivesRestart = survives, ppTiers = tiers, ppRecordKeyPrefix = prefix,
      ppInitialize = ok (),
      secretGet = (\<lambda>k. get_state (\<lambda>w. js_get (mdSecrets w) k)),
      secretSet = (\<lambda>k v. put_state (\<lambda>w. w\<lparr>mdSecrets := js_set k v (mdSecrets w)\<rparr>)),
      secretDelete = (\<lambda>k. put_state (\<lambda>w. w\<lparr>mdSecrets := js_delete k (mdSecrets w)\<rparr>)),
      kvGet = (\<lambda>k scope. get_state (\<lambda>w. js_get (scopeStore scope w) k)),
      kvSet = (\<lambda>k v scope. put_state (in_scope scope (js_set k v))),
      kvDelete = (\<lambda>k scope. put_state (in_scope scope (js_delete k))),
      bioIsAvailable = get_state (\<lambda>w. imHasHardware (mdBiometric w) \<and> imIsEnrolled (mdBiometric w)),
      bioGetDetails = get_state (\<lambda>w.
        \<lparr>bdHasHardware = imHasHardware (mdBiometric w), bdIsEnrolled = imIsEnrolled (mdBiometric w)\<rparr>),
      bioGetType = get_state (\<lambda>w. imType (mdBiometric w)),
      bioAuthenticate = memory_authenticate\<rparr>"

definition simulateRestart :: "memory_device \<Rightarrow> memory_device" where
  "simulateRestart w = w\<lparr>mdSession := []\<rparr>"

section \<open>A table of keys\<close>

definition key_octets :: "nat list \<Rightarrow> bool" where
  "key_octets x \<longleftrightarrow> x \<noteq> [] \<and> list_all (\<lambda>b. b < 256) x"

definition md_material :: "memory_device key_material" where
  "md_material w = map_of (mdKeys w)"

definition md_mint :: "nat list \<Rightarrow> (js_error, memory_device, key_ref) act" where
  "md_mint x = (\<lambda>w. (Inr (fresh_key (mdKeys w)), w\<lparr>mdKeys := (fresh_key (mdKeys w), x) # mdKeys w\<rparr>))"

definition md_with :: "key_ref \<Rightarrow> (nat list \<Rightarrow> (js_error, memory_device, 'a) act) \<Rightarrow> (js_error, memory_device, 'a) act" where
  "md_with k f = (\<lambda>w. case md_material w k of None \<Rightarrow> (Inl (JsError ''no such key''), w) | Some x \<Rightarrow> f x w)"

definition md_opens :: "encrypted_data \<Rightarrow> nat list \<Rightarrow> nat list option" where
  "md_opens d u = (if base64ToArrayBuffer (edIv d) = Some u then base64ToArrayBuffer (edCiphertext d) else None)"

definition md_refuse :: "(js_error, memory_device, 'a) act" where
  "md_refuse = throw (JsError ''not supported'')"

definition md_seal :: "nat list \<Rightarrow> nat list \<Rightarrow> (js_error, memory_device, encrypted_data) act" where
  "md_seal x u = (if key_octets x \<and> key_octets u
     then ok \<lparr>edCiphertext = arrayBufferToBase64 x, edIv = arrayBufferToBase64 u, edAlgorithm = ''wrap''\<rparr>
     else md_refuse)"

definition md_generated :: "memory_device \<Rightarrow> nat list" where
  "md_generated w = [length (mdKeys w) mod 256, 1]"

definition memory_crypto :: "memory_device device_crypto" where
  "memory_crypto =
     \<lparr>cpEncrypt = (\<lambda>_ _ _. md_refuse), cpDecrypt = (\<lambda>_ _ _. md_refuse), cpDecryptMany = (\<lambda>_. md_refuse),
      cpDestroyKey = (\<lambda>k w. case md_material w k of
          None \<Rightarrow> (Inl (JsError ''no such key''), w)
        | Some _ \<Rightarrow> (Inr (), w\<lparr>mdKeys := js_delete k (mdKeys w)\<rparr>)),
      cpWrapKey = (\<lambda>k k' c. md_with k (\<lambda>x. md_with k' (md_seal x))),
      cpUnwrapKey = (\<lambda>d k c. md_with k (\<lambda>u. case md_opens d u of
          None \<Rightarrow> throw (JsError ''wrong key'') | Some x \<Rightarrow> md_mint x)),
      cpDecryptRsaWrappedKey = (\<lambda>_ _ _. md_refuse),
      cpGenerateEncryptionKey = (\<lambda>w. md_mint (md_generated w) w),
      cpDeriveMasterKey = (\<lambda>_ _ _ _. md_refuse), cpDeriveKeysFromMasterKey = (\<lambda>_ _. md_refuse),
      cpDeriveSrpPassword = (\<lambda>_. md_refuse), cpEncryptMasterKey = (\<lambda>_ _ _. md_refuse),
      cpDecryptMasterKey = (\<lambda>_ _ _. md_refuse), cpGenerateSrpRegistration = (\<lambda>_. md_refuse),
      cpEncryptVaultKeyWithMuk = (\<lambda>_ _ _ _ _. md_refuse), cpGenerateSecretKey = md_refuse,
      cpGenerateRecoveryKey = md_refuse, cpValidateRecoveryKey = (\<lambda>_. md_refuse),
      cpGenerateUuid = md_refuse, cpGenerateRsaKeyPair = md_refuse,
      parseEnvelope = (\<lambda>_. None), parseData = (\<lambda>_. None), printData = (\<lambda>_. []),
      cpImportKey = (\<lambda>bytes. if key_octets bytes then md_mint bytes else md_refuse),
      cpExportKey = (\<lambda>k. md_with k ok)\<rparr>"

definition memory_env :: "bool \<Rightarrow> memory_device store_env" where
  "memory_env survives =
     \<lparr>sePort = createInMemoryPlatformPort survives [SecretTier, PlainTier] '''',
      seCrypto = memory_crypto, seNow = mdClock, seParseDate = (\<lambda>_. None), seUrlText = Some,
      seGenerateAccountId = ok ''acct''\<rparr>"

fun memory_texts :: "memory_device store_texts" where
  "memory_texts w SessionKv k = js_get (mdSession w) k"
| "memory_texts w DeviceKv k = js_get (mdDevice w) k"
| "memory_texts w SecretStore k = js_get (mdSecrets w) k"

section \<open>The laws\<close>

lemma memory_env_fields [simp]:
  "sePort (memory_env b) = createInMemoryPlatformPort b [SecretTier, PlainTier] []"
  "seCrypto (memory_env b) = memory_crypto" "seNow (memory_env b) = mdClock"
  "seGenerateAccountId (memory_env b) = ok ''acct''"
  by (simp_all add: memory_env_def)

lemma memory_crypto_fields [simp]:
  "cpDestroyKey memory_crypto = (\<lambda>k w. case md_material w k of
     None \<Rightarrow> (Inl (JsError ''no such key''), w) | Some _ \<Rightarrow> (Inr (), w\<lparr>mdKeys := js_delete k (mdKeys w)\<rparr>))"
  "cpWrapKey memory_crypto = (\<lambda>k k' c. md_with k (\<lambda>x. md_with k' (md_seal x)))"
  "cpUnwrapKey memory_crypto = (\<lambda>d k c. md_with k (\<lambda>u. case md_opens d u of
     None \<Rightarrow> throw (JsError ''wrong key'') | Some x \<Rightarrow> md_mint x))"
  "cpGenerateEncryptionKey memory_crypto = (\<lambda>w. md_mint (md_generated w) w)"
  "cpImportKey memory_crypto = (\<lambda>bytes. if key_octets bytes then md_mint bytes else md_refuse)"
  "cpExportKey memory_crypto = (\<lambda>k. md_with k ok)"
  by (simp_all add: memory_crypto_def)

lemma memory_texts_same [simp]:
  "memory_texts (w\<lparr>mdKeys := ks\<rparr>) = memory_texts w" "memory_texts (w\<lparr>mdBiometric := y\<rparr>) = memory_texts w"
proof -
  have "memory_texts (w\<lparr>mdKeys := ks\<rparr>) p k = memory_texts w p k" for p k by (cases p) simp_all
  then show "memory_texts (w\<lparr>mdKeys := ks\<rparr>) = memory_texts w" by blast
  have "memory_texts (w\<lparr>mdBiometric := y\<rparr>) p k = memory_texts w p k" for p k by (cases p) simp_all
  then show "memory_texts (w\<lparr>mdBiometric := y\<rparr>) = memory_texts w" by blast
qed

lemma md_calm:
  "calm_op (memory_env b) memory_texts (ok a)" "calm_op (memory_env b) memory_texts (throw e)"
  "calm_op (memory_env b) memory_texts (get_state f)" "calm_op (memory_env b) memory_texts (md_mint x)"
  "calm_op (memory_env b) memory_texts md_refuse" "calm_op (memory_env b) memory_texts (memory_authenticate r)"
  "calm_op (memory_env b) memory_texts (md_seal x u)"
  by (simp_all add: calm_op_def calm_step_def ok_def throw_def get_state_def md_mint_def md_refuse_def
      memory_authenticate_def and_then_def put_state_def md_seal_def)

lemma md_with_calm:
  "(\<And>x. calm_op (memory_env b) memory_texts (f x)) \<Longrightarrow> calm_op (memory_env b) memory_texts (md_with k f)"
  by (simp add: calm_op_def calm_step_def md_with_def split: option.split)

lemma md_opened_calm: "calm_op (memory_env b) memory_texts
    (case z of None \<Rightarrow> throw (JsError ''wrong key'') | Some x \<Rightarrow> md_mint x)"
  by (cases z) (simp_all add: md_calm)

lemma md_reads: "reads_text (memory_env b) memory_texts (get_state (\<lambda>w. memory_texts w p k)) p k"
  by (simp add: reads_text_def md_calm) (simp add: get_state_def)

lemma md_writes:
  assumes "\<And>w. mdClock (g w) = mdClock w" and "\<And>w. memory_texts (g w) = (memory_texts w)(p := (memory_texts w p)(k := v))"
  shows "writes_text (memory_env b) memory_texts (put_state g) p k v"
  by (simp add: writes_text_def put_state_def assms)

lemma memory_account_platform: "account_platform (memory_env b) memory_texts"
proof
  fix k v
  show "reads_text (memory_env b) memory_texts (secretGet (sePort (memory_env b)) k) SecretStore k"
    using md_reads [of b SecretStore k] by (simp add: createInMemoryPlatformPort_def)
  show "reads_text (memory_env b) memory_texts (kvGet (sePort (memory_env b)) k SessionScope) SessionKv k"
    using md_reads [of b SessionKv k] by (simp add: createInMemoryPlatformPort_def scopeStore_def)
  show "reads_text (memory_env b) memory_texts (kvGet (sePort (memory_env b)) k DeviceScope) DeviceKv k"
    using md_reads [of b DeviceKv k] by (simp add: createInMemoryPlatformPort_def scopeStore_def)
  have texts: "memory_texts (w\<lparr>mdSecrets := m\<rparr>) q j = (if q = SecretStore then js_get m j else memory_texts w q j)"
    "memory_texts (w\<lparr>mdSession := m\<rparr>) q j = (if q = SessionKv then js_get m j else memory_texts w q j)"
    "memory_texts (w\<lparr>mdDevice := m\<rparr>) q j = (if q = DeviceKv then js_get m j else memory_texts w q j)"
    for w m q j by (cases q; simp)+
  show "writes_text (memory_env b) memory_texts (secretSet (sePort (memory_env b)) k v) SecretStore k (Some v)"
    "writes_text (memory_env b) memory_texts (kvSet (sePort (memory_env b)) k v SessionScope) SessionKv k (Some v)"
    "writes_text (memory_env b) memory_texts (kvSet (sePort (memory_env b)) k v DeviceScope) DeviceKv k (Some v)"
    "writes_text (memory_env b) memory_texts (secretDelete (sePort (memory_env b)) k) SecretStore k None"
    "writes_text (memory_env b) memory_texts (kvDelete (sePort (memory_env b)) k SessionScope) SessionKv k None"
    "writes_text (memory_env b) memory_texts (kvDelete (sePort (memory_env b)) k DeviceScope) DeviceKv k None"
    by (simp_all add: createInMemoryPlatformPort_def in_scope_def [abs_def])
       (rule md_writes, simp, intro ext, simp add: texts)+
  show "calm_op (memory_env b) memory_texts (ppInitialize (sePort (memory_env b)))"
    "calm_op (memory_env b) memory_texts (bioIsAvailable (sePort (memory_env b)))"
    "calm_op (memory_env b) memory_texts (bioGetDetails (sePort (memory_env b)))"
    "calm_op (memory_env b) memory_texts (bioGetType (sePort (memory_env b)))"
    "calm_op (memory_env b) memory_texts (bioAuthenticate (sePort (memory_env b)) k)"
    "calm_op (memory_env b) memory_texts (seGenerateAccountId (memory_env b))"
    by (simp_all add: createInMemoryPlatformPort_def md_calm)
next
  fix d key key' c bytes
  show "calm_op (memory_env b) memory_texts (cpImportKey (seCrypto (memory_env b)) bytes)"
    by (simp add: md_calm)
  show "calm_op (memory_env b) memory_texts (cpExportKey (seCrypto (memory_env b)) key)"
    by (simp add: md_calm md_with_calm)
  show "calm_op (memory_env b) memory_texts (cpGenerateEncryptionKey (seCrypto (memory_env b)))"
    by (simp add: calm_op_def calm_step_def md_mint_def)
  show "calm_op (memory_env b) memory_texts (cpWrapKey (seCrypto (memory_env b)) key key' c)"
    by (simp add: md_calm md_with_calm)
  show "calm_op (memory_env b) memory_texts (cpUnwrapKey (seCrypto (memory_env b)) d key c)"
    by (simp add: md_opened_calm md_with_calm)
  show "calm_op (memory_env b) memory_texts (cpDestroyKey (seCrypto (memory_env b)) key)"
    by (simp add: calm_op_def calm_step_def split: option.split)
qed

interpretation memory_platform: account_platform "memory_env b" memory_texts for b
  by (rule memory_account_platform)

lemma md_mint_mints: "P x \<Longrightarrow> mints_key md_material (md_mint x) P"
  using fresh_key by (fastforce simp: mints_key_def md_mint_def md_material_def map_of_eq_None_iff)

lemma md_with_mints: "(\<And>x. mints_key md_material (f x) P) \<Longrightarrow> mints_key md_material (md_with k f) P"
  by (simp add: mints_key_def md_with_def split: option.split)

lemma md_refuse_mints: "mints_key md_material (throw e) P" "mints_key md_material md_refuse P"
  by (simp_all add: mints_key_def throw_def md_refuse_def)

lemma md_quiet:
  "keeps_keys md_material (ok a)" "keeps_keys md_material (throw e)" "keeps_keys md_material (get_state f)"
  "keeps_keys md_material (md_seal x u)"
  by (simp_all add: keeps_keys_def ok_def throw_def get_state_def md_seal_def md_refuse_def)

lemma md_with_quiet: "(\<And>x. keeps_keys md_material (f x)) \<Longrightarrow> keeps_keys md_material (md_with k f)"
  by (simp add: keeps_keys_def md_with_def split: option.split)

lemma md_put_quiet: "(\<And>w. mdKeys (g w) = mdKeys w) \<Longrightarrow> keeps_keys md_material (put_state g)"
  by (simp add: keeps_keys_def put_state_def md_material_def)

lemma md_generate_mints:
  "mints_key md_material (cpGenerateEncryptionKey memory_crypto) key_octets"
proof -
  have "mints_key md_material (md_mint (md_generated w)) key_octets" for w
    by (rule md_mint_mints) (simp add: md_generated_def key_octets_def)
  then show ?thesis by (simp add: mints_key_def)
qed

lemma mints_weaken: "mints_key material m P \<Longrightarrow> (\<And>x. P x \<Longrightarrow> Q x) \<Longrightarrow> mints_key material m Q"
proof -
  assume law: "mints_key material m P" and weak: "\<And>x. P x \<Longrightarrow> Q x"
  have "case r of Inl _ \<Rightarrow> material w' = material w
      | Inr k \<Rightarrow> material w k = None \<and> (\<exists>x. Q x \<and> material w' = (material w)(k \<mapsto> x))"
    if run: "m w = (r, w')" for w r w'
  proof -
    have "case r of Inl _ \<Rightarrow> material w' = material w
      | Inr k \<Rightarrow> material w k = None \<and> (\<exists>x. P x \<and> material w' = (material w)(k \<mapsto> x))"
      using law run unfolding mints_key_def by blast
    then show ?thesis using weak by (cases r) (simp, simp, blast)
  qed
  then show "mints_key material m Q" unfolding mints_key_def by blast
qed

lemma memory_key_holder: "key_holder (memory_env b) memory_texts md_material"
proof (rule key_holder.intro [OF memory_account_platform], unfold_locales)
  fix k v sc key key' c bytes d w r w'
  show "keeps_keys md_material (secretGet (sePort (memory_env b)) k)"
    "keeps_keys md_material (kvGet (sePort (memory_env b)) k sc)"
    "keeps_keys md_material (secretSet (sePort (memory_env b)) k v)"
    "keeps_keys md_material (kvSet (sePort (memory_env b)) k v sc)"
    "keeps_keys md_material (secretDelete (sePort (memory_env b)) k)"
    "keeps_keys md_material (kvDelete (sePort (memory_env b)) k sc)"
    by (simp_all add: createInMemoryPlatformPort_def md_quiet md_put_quiet in_scope_def)
  show "keeps_keys md_material (cpExportKey (seCrypto (memory_env b)) key)"
    "keeps_keys md_material (cpWrapKey (seCrypto (memory_env b)) key key' c)"
    by (simp_all add: md_quiet md_with_quiet)
  show "mints_key md_material (cpGenerateEncryptionKey (seCrypto (memory_env b))) (list_all (\<lambda>b. b < 256))"
    using mints_weaken [OF md_generate_mints, of "list_all (\<lambda>b. b < 256)"] by (simp add: key_octets_def)
  show "mints_key md_material (cpImportKey (seCrypto (memory_env b)) bytes) (\<lambda>x. x = bytes)"
    by (simp add: md_mint_mints md_refuse_mints)
  show "mints_key md_material (cpUnwrapKey (seCrypto (memory_env b)) d key c) (\<lambda>_. True)"
    by (simp, rule md_with_mints) (simp add: md_mint_mints md_refuse_mints split: option.split)
  show "md_material w key \<noteq> None \<Longrightarrow> fst (cpDestroyKey (seCrypto (memory_env b)) key w) = Inr ()"
    by auto
  show "cpDestroyKey (seCrypto (memory_env b)) key w = (r, w') \<Longrightarrow>
      md_material w' = (case r of Inl _ \<Rightarrow> md_material w | Inr _ \<Rightarrow> (md_material w)(key := None))"
    by (auto simp: md_material_def fun_eq_iff split: option.splits)
qed

interpretation memory_keys: key_holder "memory_env b" memory_texts md_material for b
  by (rule memory_key_holder)

lemma memory_sealing_platform: "sealing_platform (memory_env b) memory_texts md_material key_octets md_opens"
proof (rule sealing_platform.intro [OF memory_key_holder], unfold_locales)
  fix k sc w key key' d w' x u bytes
  show "\<exists>x. fst (secretGet (sePort (memory_env b)) k w) = Inr x" "\<exists>x. fst (kvGet (sePort (memory_env b)) k sc w) = Inr x"
    by (simp_all add: createInMemoryPlatformPort_def get_state_def)
  show "mints_key md_material (cpGenerateEncryptionKey (seCrypto (memory_env b)))
      (\<lambda>x. x \<noteq> [] \<and> key_octets x \<and> list_all (\<lambda>b. b < 256) x)"
    using mints_weaken [OF md_generate_mints, of "\<lambda>x. x \<noteq> [] \<and> key_octets x \<and> list_all (\<lambda>b. b < 256) x"]
    by (simp add: key_octets_def)
  show "(\<exists>key. fst (cpImportKey (seCrypto (memory_env b)) bytes w) = Inr key) = key_octets bytes"
    by (simp add: md_mint_def md_refuse_def throw_def)
  show "cpExportKey (seCrypto (memory_env b)) key w = (Inr bytes, w') \<Longrightarrow> md_material w key = Some bytes"
    by (auto simp: md_with_def ok_def split: option.splits)
  show "cpWrapKey (seCrypto (memory_env b)) key key' None w = (Inr d, w') \<Longrightarrow> md_material w key = Some x \<Longrightarrow>
      md_material w key' = Some u \<Longrightarrow> md_opens d u = Some x"
    by (auto simp: md_with_def md_seal_def md_refuse_def throw_def ok_def md_opens_def key_octets_def base64_roundtrip
        split: if_splits)
  show "md_material w key = Some u \<Longrightarrow> md_opens d u = Some x \<Longrightarrow>
      \<exists>k w'. cpUnwrapKey (seCrypto (memory_env b)) d key None w = (Inr k, w') \<and> md_material w' k = Some x"
    by (simp add: md_with_def md_mint_def md_material_def)
qed

interpretation memory_seals: sealing_platform "memory_env b" memory_texts md_material key_octets md_opens for b
  by (rule memory_sealing_platform)

end
