(* ===== verification/AccountStoreClaims.thy ===== *)
theory AccountStoreClaims
  imports MemoryPlatform
begin

text \<open>
  What the account store promises on every platform that keeps the laws, with the in-memory
  platform as the witness, and what it does where two calls meet or a write of the view fails.
\<close>

section \<open>A device\<close>

definition demo_biometric :: in_memory_biometric where
  "demo_biometric =
     \<lparr>imHasHardware = True, imIsEnrolled = True, imType = None, imAuthenticates = True,
      imAuthenticateError = PortFailed, imAuthenticateMessage = None, imLastReason = None\<rparr>"

definition demo_device :: memory_device where
  "demo_device =
     \<lparr>mdSecrets = [], mdDevice = [], mdSession = [], mdBiometric = demo_biometric,
      mdKeys = [(''m'', [1, 2])], mdClock = 2000000000000\<rparr>"

definition fresh_store :: "memory_device \<Rightarrow> memory_device account_store" where
  "fresh_store w = \<lparr>mukCache = [], deviceKeyCache = None, unlockNotices = [], storeWorld = w\<rparr>"

definition demo_account :: "string \<Rightarrow> account_metadata" where
  "demo_account a =
     \<lparr>amAccountId = a, amEmail = ''e'', amUserId = ''u'' @ a, amName = ''n'', amServerUrl = ''s'',
      amTeamName = None, amTeamAvatarUrl = None, amSecretKeyHint = [], amAddedAt = 1, amLastActiveAt = 1,
      amBiometricEnabled = False, amInsecureTransportConfirmed = Some False\<rparr>"

definition signed_in :: "string \<Rightarrow> store_call list" where
  "signed_in a =
     [CallAddAccount (demo_account a), CallSetActiveAccount (Some a), CallStoreAuthToken ''jwt'' (Some a),
      CallStoreSessionData ''m'' a ''E'' ''u'' None None]"

definition run_store :: "'w store_env \<Rightarrow> 'w account_store \<Rightarrow> store_call list \<Rightarrow> 'w account_store" where
  "run_store env s cs = foldl (\<lambda>t c. snd (store_perform env c t)) s cs"

definition demo_locked :: "memory_device account_store" where
  "demo_locked = run_store (memory_env True) (fresh_store demo_device) (signed_in ''a'')"

section \<open>Claims\<close>

text \<open>
  C25. On a platform that keeps its texts: any sequence of calls of the store, whether they
  return or throw, keeps the storage well typed, that is, each text lies where the tier table
  puts the value whose key it has, in the form that value is written in; and every text in the
  plain storage of the device is that of a value of the plain tier.
\<close>

theorem stored_texts_keep_their_place:
  assumes platform: "account_platform env texts" and start: "well_typed env texts s"
  shows "well_typed env texts (run_store env s cs) \<and>
    (\<forall>k x. texts (storeWorld (run_store env s cs)) DeviceKv k = Some x \<longrightarrow>
       (\<exists>sl. slot_ok sl \<and> slot_key sl = k \<and> fst (STORAGE_TIERS (slot_value sl)) = PlainTier))"
proof -
  have "stepper (\<lambda>t c. snd (store_perform env c t)) (well_typed env texts)"
    by (rule stepper.intro) (rule keepsD [OF account_platform.perform_typed [OF platform]])
  then have typed: "well_typed env texts (run_store env s cs)"
    unfolding run_store_def using start by (rule stepper.run_inv)
  have "fst (STORAGE_TIERS n) = PlainTier" if "place_of env n = DeviceKv" for n
    using that secrets_stay_out_of_the_device_kv [of n env] storage_tier.exhaust by metis
  then show ?thesis using typed unfolding well_typed_def by blast
qed

lemma well_typed_fresh: "well_typed (memory_env b) memory_texts (fresh_store demo_device)"
proof -
  have "memory_texts demo_device p k = None" for p k by (cases p) (simp_all add: demo_device_def)
  then show ?thesis by (simp add: well_typed_def fresh_store_def)
qed

theorem stored_texts_keep_their_place_witness:
  "well_typed (memory_env True) memory_texts demo_locked"
  using stored_texts_keep_their_place [OF memory_account_platform well_typed_fresh, of True "signed_in ''a''"]
  by (simp add: demo_locked_def)

text \<open>
  C16. On a platform that keeps its texts: after initialize and any further calls of the store,
  each of which returns, the published view is the projection of the accounts list, the active
  account, its auto-lock timeout and the biometric flags as they are stored, and of the accounts
  whose keys are cached.
\<close>

theorem published_view_is_current:
  assumes platform: "account_platform env texts"
    and run: "for_each (CallInitialize # cs) (store_perform env) s = (Inr (), t)"
  shows "slot_text env texts t (GlobalSlot Native_view) =
    Some (ViewText (view_in env (slot_text env texts t) (unlocked_ids t)))"
proof -
  have "leads (\<lambda>_. True) (for_each (CallInitialize # cs) (store_perform env)) (\<lambda>_. view_current env texts)"
    using account_platform.leads_seq [OF platform account_platform.initialize_publishes [OF platform]
        account_platform.calls_current [OF platform]] by simp
  then have "view_current env texts t" using run unfolding leads_def by simp
  then show ?thesis by (simp add: view_current_def)
qed

lemma signed_in_runs:
  "fst (for_each (CallInitialize # signed_in ''a'' @ [CallTryRestoreSession False (Some ''a'')])
     (store_perform (memory_env True)) (fresh_store demo_device)) = Inr ()"
  by code_simp

theorem published_view_is_current_witness:
  "\<exists>t. for_each (CallInitialize # signed_in ''a'' @ [CallTryRestoreSession False (Some ''a'')])
      (store_perform (memory_env True)) (fresh_store demo_device) = (Inr (), t) \<and>
    slot_text (memory_env True) memory_texts t (GlobalSlot Native_view) =
      Some (ViewText (view_in (memory_env True) (slot_text (memory_env True) memory_texts t) (unlocked_ids t)))"
proof -
  obtain t where run: "for_each (CallInitialize # signed_in ''a'' @ [CallTryRestoreSession False (Some ''a'')])
      (store_perform (memory_env True)) (fresh_store demo_device) = (Inr (), t)"
    using signed_in_runs by (metis prod.collapse)
  then show ?thesis using published_view_is_current [OF memory_account_platform run] by blast
qed


lemma demo_unlock:
  "map fst (mukCache (snd (unlock_by (memory_env True) (Restore False) (Some ''a'') demo_locked))) = [''a'']"
  "mukCache demo_locked = []"
  by code_simp+


text \<open>Two accounts: the session of the second has expired, its token is gone, its biometrics are off.\<close>

definition demo_session :: "bool \<Rightarrow> int \<Rightarrow> session_document" where
  "demo_session biometric expires =
     \<lparr>sdEncryptedMasterUnlockKey = \<lparr>edCiphertext = arrayBufferToBase64 [1], edIv = arrayBufferToBase64 [9],
        edAlgorithm = ''wrap''\<rparr>, sdEmail = ''e'', sdUserId = ''u'', sdSessionId = None,
      sdExpiresAt = Some (ExpiryNumber expires), sdServerExpiresAt = None, sdCreatedAt = 1,
      sdBiometricEnabled = Some biometric, sdLastMasterPasswordEntry = None\<rparr>"

definition demo_expired :: "memory_device account_store" where
  "demo_expired = fresh_store (demo_device\<lparr>mdClock := 5,
     mdSecrets := [(globalKey Device_key, PlainText (arrayBufferToBase64 [9])),
       (accountKey ''a'' Session_data, SessionText (demo_session True 3000000000000)),
       (accountKey ''b'' Session_data, SessionText (demo_session False 4)),
       (accountKey ''a'' Jwt_token, PlainText ''jwt'')],
     mdDevice := [(accountKey ''a'' Biometric_enabled, PlainText ''true''),
       (globalKey Accounts_list, AccountsText
         \<lparr>adVersion = Some 2, adAccounts = [demo_account ''a'', demo_account ''b'']\<rparr>)]\<rparr>)"

theorem unlocking_all_needs_a_prompt:
  assumes platform: "account_platform env texts"
    and run: "unlockAllAccountsWithBiometric env reason s = (r, t)" and changed: "mukCache t \<noteq> mukCache s"
  shows "(\<exists>f. f \<in> amAccountId ` set (accounts_in (slot_text env texts s)) \<and>
      session_valid env (slot_text env texts s) (store_clock env s) f \<and> prompted env texts s f t) \<and>
    (\<forall>b. js_get (mukCache t) b \<noteq> js_get (mukCache s) b \<longrightarrow>
      b \<in> amAccountId ` set (accounts_in (slot_text env texts s)) \<and>
      (b \<noteq> [] \<longrightarrow> reentry_passed env (slot_text env texts s) (store_clock env s) b))"
proof -
  have "account_platform.all_allowed env texts s t"
    using account_platform.unlockAll_from [OF platform, of s reason] run account_platform.unchanged_refl [OF platform, of s]
    unfolding ends_def by (cases r) fastforce+
  then show ?thesis
    using changed unfolding account_platform.all_allowed_def [OF platform] account_platform.unlocking_def [OF platform]
    by blast
qed

lemma demo_unlocks_all:
  "map fst (mukCache (snd (unlockAllAccountsWithBiometric (memory_env True) ''Unlock'' demo_expired))) = [''a'', ''b'']"
  "mukCache demo_expired = []"
  by code_simp+

theorem unlocking_all_needs_a_prompt_witness:
  "\<exists>r t. unlockAllAccountsWithBiometric (memory_env True) ''Unlock'' demo_expired = (r, t) \<and>
     map fst (mukCache t) = [''a'', ''b''] \<and> (\<exists>f. prompted (memory_env True) memory_texts demo_expired f t)"
proof -
  obtain r t where run: "unlockAllAccountsWithBiometric (memory_env True) ''Unlock'' demo_expired = (r, t)" by fastforce
  then have keys: "map fst (mukCache t) = [''a'', ''b'']" using demo_unlocks_all(1) by simp
  then have "mukCache t \<noteq> mukCache demo_expired" using demo_unlocks_all(2) by auto
  from unlocking_all_needs_a_prompt [OF memory_account_platform run this] have "\<exists>f. prompted (memory_env True) memory_texts demo_expired f t" by blast
  with run keys show ?thesis by (intro exI [where x = r] exI [where x = t] conjI)
qed

text \<open>
  C11. On a platform with a key table: however lockAllAccounts ends, no key is cached and none
  of the keys that were cached is alive; when clearMasterUnlockKey returns, the account it
  resolved has no cached key and the key it had is not alive.
\<close>

theorem locking_destroys_the_keys:
  assumes platform: "key_holder env texts material"
  shows "(\<forall>r t. lockAllAccounts env s = (r, t) \<longrightarrow>
      mukCache t = [] \<and> (\<forall>k \<in> snd ` set (mukCache s). material (storeWorld t) k = None)) \<and>
    (\<forall>acc a k t. clearMasterUnlockKey env acc s = (Inr (), t) \<and>
      resolved_in (slot_text env texts s) acc = Some a \<and> js_get (mukCache s) a = Some k \<longrightarrow>
      a \<notin> fst ` set (mukCache t) \<and> material (storeWorld t) k = None)"
proof (intro conjI allI impI)
  fix r t assume "lockAllAccounts env s = (r, t)"
  from key_holder.lock_all [OF platform this]
  show "mukCache t = []" "\<forall>k \<in> snd ` set (mukCache s). material (storeWorld t) k = None" by simp_all
next
  fix acc a k t
  assume "clearMasterUnlockKey env acc s = (Inr (), t) \<and> resolved_in (slot_text env texts s) acc = Some a \<and>
    js_get (mukCache s) a = Some k"
  then have run: "clearMasterUnlockKey env acc s = (Inr (), t)" and a: "resolved_in (slot_text env texts s) acc = Some a"
    and k: "js_get (mukCache s) a = Some k"
    by blast+
  show "a \<notin> fst ` set (mukCache t)" by (rule key_holder.clearMasterUnlockKey_locks(1) [OF platform run a])
  show "material (storeWorld t) k = None" by (rule key_holder.clearMasterUnlockKey_locks(2) [OF platform run a k])
qed

definition demo_unlocked :: "memory_device account_store" where
  "demo_unlocked = snd (unlock_by (memory_env True) (Restore False) (Some ''a'') demo_locked)"

theorem locking_destroys_the_keys_witness:
  "\<exists>r t. lockAllAccounts (memory_env True) demo_unlocked = (r, t) \<and> map fst (mukCache demo_unlocked) = [''a''] \<and>
     (\<forall>k \<in> snd ` set (mukCache demo_unlocked). md_material (storeWorld t) k = None)"
proof -
  obtain r t where run: "lockAllAccounts (memory_env True) demo_unlocked = (r, t)" by fastforce
  have "map fst (mukCache demo_unlocked) = [''a'']" using demo_unlock(1) by (simp add: demo_unlocked_def)
  moreover have "\<forall>k \<in> snd ` set (mukCache demo_unlocked). md_material (storeWorld t) k = None"
    using locking_destroys_the_keys [OF memory_key_holder, THEN conjunct1, rule_format, OF run] by simp
  ultimately show ?thesis using run by (intro exI conjI)
qed

text \<open>
  C22. On a platform with a key table: when removing an account returns, every stored value of
  that account is gone, its cached key is dropped and destroyed, the accounts list has lost it
  and it is not the active account; every stored value and cached key of every other account is
  as it was.
\<close>

theorem removal_takes_one_account_only:
  assumes platform: "key_holder env texts material"
    and run: "removeAccountInternal env a s = (Inr (), t)"
  shows "(\<forall>b n. n \<in> set ACCOUNT_VALUES \<longrightarrow> slot_text env texts t (AccountSlot b n) =
      (if b = a then None else slot_text env texts s (AccountSlot b n))) \<and>
    mukCache t = js_delete a (mukCache s) \<and>
    (\<forall>k. js_get (mukCache s) a = Some k \<longrightarrow> material (storeWorld t) k = None) \<and>
    accounts_in (slot_text env texts t) =
      filter (\<lambda>b. amAccountId b \<noteq> a) (accounts_in (slot_text env texts s)) \<and>
    active_in (slot_text env texts t) \<noteq> Some a"
  using key_holder.remove_account [OF platform run] by blast

definition demo_two :: "memory_device account_store" where
  "demo_two = \<lparr>mukCache = [(''a'', ''m''), (''b'', ''n'')], deviceKeyCache = None, unlockNotices = [],
     storeWorld = demo_device\<lparr>mdKeys := [(''m'', [1]), (''n'', [2])],
       mdSession := [(accountKey ''a'' Jwt_token, PlainText ''jwt''), (accountKey ''b'' Jwt_token, PlainText ''jwt'')],
       mdDevice := [(globalKey Active_account, PlainText ''b''), (globalKey Accounts_list, AccountsText
         \<lparr>adVersion = Some 2, adAccounts = [demo_account ''a'', demo_account ''b'']\<rparr>)]\<rparr>\<rparr>"

text \<open>In memory no write fails, so a removal returns.\<close>

lemma memory_writes_return:
  "memory_seals.total (writeValue (memory_env b) n k v)" "memory_seals.total (deleteValue (memory_env b) n k)"
  by (auto simp: memory_seals.total_def writeValue_def deleteValue_def in_store_world_def put_state_def
      createInMemoryPlatformPort_def split: prod.split)

lemma memory_accounts_return:
  "memory_seals.total (writeGlobal (memory_env b) n v)" "memory_seals.total (deleteGlobal (memory_env b) n)"
  "memory_seals.total (deleteAccount (memory_env b) n a)"
  unfolding writeGlobal_def deleteGlobal_def deleteAccount_def by (rule memory_writes_return)+

lemma memory_lists_return: "memory_seals.total (readAccountsList (memory_env b))" "memory_seals.total (getActiveAccount (memory_env b))"
  unfolding readAccountsList_def getActiveAccount_def
  by (intro memory_seals.total_and_then memory_seals.total_reads memory_seals.total_basic)+

lemma memory_each_returns:
  "(\<And>x. memory_seals.total (f x)) \<Longrightarrow> memory_seals.total (map_each xs f)"
  "(\<And>x. memory_seals.total (g x)) \<Longrightarrow> memory_seals.total (for_each xs g)"
  by (induction xs) (auto intro!: memory_seals.total_and_then memory_seals.total_basic)

lemma memory_refresh_returns: "memory_seals.total (refresh_view (memory_env b))"
  unfolding refresh_view_def refreshNativeView_def getAutoLockTimeoutOrDefault_def getAutoLockTimeout_def
    isBiometricEnabled_def for_account_def resolveAccountId_def
  by (intro memory_seals.total_and_then memory_seals.total_reads memory_seals.total_basic memory_seals.total_cases
      memory_lists_return memory_each_returns memory_accounts_return)

lemma memory_state_returns: "memory_seals.total (put_state g)" "memory_seals.total notifyUnlockListeners"
  "memory_seals.total (destroyKey (memory_env b) k)"
  by (auto simp: memory_seals.total_def put_state_def notifyUnlockListeners_def destroyKey_def catch_def ok_def
      split: option.split prod.split sum.split)

lemma demo_removal: "memory_seals.total (removeAccountInternal (memory_env b) a)"
  unfolding removeAccountInternal_def writeActiveAccount_def writeAccountsList_def
  by (intro memory_seals.total_and_then memory_seals.total_basic memory_seals.total_cases memory_lists_return
      memory_each_returns memory_accounts_return memory_refresh_returns memory_state_returns)

lemma demo_tokens:
  "slot_text (memory_env False) memory_texts demo_two (AccountSlot ''a'' Jwt_token) = Some (PlainText ''jwt'')"
  by code_simp

theorem removal_takes_one_account_only_witness:
  "\<exists>t. removeAccountInternal (memory_env False) ''b'' demo_two = (Inr (), t) \<and>
     slot_text (memory_env False) memory_texts t (AccountSlot ''a'' Jwt_token) = Some (PlainText ''jwt'') \<and>
     slot_text (memory_env False) memory_texts t (AccountSlot ''b'' Jwt_token) = None"
proof -
  obtain t where run: "removeAccountInternal (memory_env False) ''b'' demo_two = (Inr (), t)"
    using demo_removal unfolding memory_seals.total_def by (metis (full_types) old.unit.exhaust prod.collapse)
  have "Jwt_token \<in> set ACCOUNT_VALUES" by (simp add: ACCOUNT_VALUES_def)
  then show ?thesis
    using removal_takes_one_account_only [OF memory_key_holder run, THEN conjunct1] demo_tokens run by simp
qed

text \<open>
  C4. On a platform that seals keys: when storeSessionData returns for an account, a later store
  (the process has ended, the caches are empty) that still has the texts of the device key and
  of the account's session decrypts the session to a key with the material of the stored master
  unlock key, unless biometrics were enabled for the account and re-entry of the master password
  has a period.
\<close>

theorem quick_unlock_returns_the_same_key:
  assumes platform: "sealing_platform env texts material accepts opens_to"
    and run: "storeSessionData env muk a email user expiry sid s = (Inr (), t)" and a: "a \<noteq> []"
    and cached: "sealing_platform.device_ok env texts material accepts s"
    and muk: "material (storeWorld s) muk = Some x"
    and restarted: "deviceKeyCache u = None"
      "slot_text env texts u (GlobalSlot Device_key) = slot_text env texts t (GlobalSlot Device_key)"
      "slot_text env texts u (AccountSlot a Session_data) = slot_text env texts t (AccountSlot a Session_data)"
  shows "\<exists>r v. decryptStoredMasterUnlockKey env (Some a) skipBiometric reason u = (Inr r, v) \<and> (case r of
      Some k \<Rightarrow> material (storeWorld v) k = Some x
    | None \<Rightarrow> enabled_in (slot_text env texts s) a \<and>
        (0 \<le> period_in (slot_text env texts u) \<and>
           period_in (slot_text env texts u) \<le> store_clock env v - store_clock env s \<or>
         \<not> skipBiometric \<and> (\<exists>p. slot_text env texts p = slot_text env texts u \<and>
           prompt_due env (slot_text env texts p) (store_clock env p) a \<and>
           authenticateWithBiometric env reason (Some a) p = (Inr False, v))))"
proof -
  obtain y session where stored: "sealing_platform.device_text accepts (slot_text env texts t) y"
    and session: "session_in env (slot_text env texts t) a = Some session"
    and sealed: "opens_to (ssEncryptedMasterUnlockKey session) y = Some x"
    and flag: "ssBiometricEnabled session = Some (enabled_in (slot_text env texts s) a)"
    and entry: "store_clock env s \<le> coalesce (ssLastMasterPasswordEntry session) (ssCreatedAt session)"
    using sealing_platform.resolved_session [OF platform run a cached muk] by blast
  have kept: "sealing_platform.device_text accepts (slot_text env texts u) y"
    using stored restarted(2) unfolding sealing_platform.device_text_def [OF platform] by simp
  have session': "session_in env (slot_text env texts u) a = Some session"
    using session restarted(3) by (simp add: session_in_def)
  from sealing_platform.opens_again [OF platform a kept restarted(1) session' sealed, of skipBiometric reason]
  obtain r v where run': "decryptStoredMasterUnlockKey env (Some a) skipBiometric reason u = (Inr r, v)"
    and outcome: "case r of Some k \<Rightarrow> material (storeWorld v) k = Some x
      | None \<Rightarrow> reentry_due (slot_text env texts u) (store_clock env v) session \<or>
          \<not> skipBiometric \<and> session_wants_biometric session \<and> sealing_platform.refused env texts reason a u v"
    by blast
  show ?thesis
    using run' outcome flag entry
    by (auto simp: reentry_due_def session_wants_biometric_def sealing_platform.refused_def [OF platform] split: option.splits)
qed

definition demo_enabled :: "memory_device account_store" where
  "demo_enabled = fresh_store (demo_device\<lparr>mdDevice := [(accountKey ''a'' Biometric_enabled, PlainText ''true'')]\<rparr>)"

definition demo_stored :: "memory_device account_store" where
  "demo_stored = snd (storeSessionData (memory_env True) ''m'' ''a'' ''E'' ''u'' None None demo_enabled)"

text \<open>The process ends: the session store, the caches and every live key are gone.\<close>

definition demo_restarted :: "memory_device account_store" where
  "demo_restarted = fresh_store ((simulateRestart (storeWorld demo_stored))\<lparr>mdKeys := []\<rparr>)"

lemma demo_stores:
  "fst (storeSessionData (memory_env True) ''m'' ''a'' ''E'' ''u'' None None demo_enabled) = Inr ()"
  by code_simp

lemma restarted_slots:
  "place_of (memory_env True) (slot_value sl) = SecretStore \<Longrightarrow>
     slot_text (memory_env True) memory_texts demo_restarted sl = slot_text (memory_env True) memory_texts demo_stored sl"
  by (simp add: slot_text_def demo_restarted_def fresh_store_def simulateRestart_def)

text \<open>The account of the example has biometrics enabled; the prompt has been shown before.\<close>

lemma demo_reopens:
  "fst (decryptStoredMasterUnlockKey (memory_env True) (Some ''a'') True [] demo_restarted) \<noteq> Inr None"
  "enabled_in (slot_text (memory_env True) memory_texts demo_enabled) ''a''"
  by code_simp+

theorem quick_unlock_returns_the_same_key_witness:
  "\<exists>k v. decryptStoredMasterUnlockKey (memory_env True) (Some ''a'') True [] demo_restarted =
       (Inr (Some k), v) \<and> md_material (storeWorld v) k = Some [1, 2] \<and>
     enabled_in (slot_text (memory_env True) memory_texts demo_enabled) ''a''"
proof -
  have run: "storeSessionData (memory_env True) ''m'' ''a'' ''E'' ''u'' None None demo_enabled = (Inr (), demo_stored)"
    using demo_stores by (simp add: demo_stored_def prod_eq_iff)
  have cached: "memory_seals.device_ok True demo_enabled"
    by (simp add: memory_seals.device_ok_def demo_enabled_def fresh_store_def)
  have muk: "md_material (storeWorld demo_enabled) ''m'' = Some [1, 2]"
    by (simp add: md_material_def demo_enabled_def fresh_store_def demo_device_def)
  have none: "deviceKeyCache demo_restarted = None" by (simp add: demo_restarted_def fresh_store_def)
  have "place_of (memory_env True) n = SecretStore" if "n = Device_key \<or> n = Session_data" for n
    using that by (auto simp: place_of_def tier_route_def deriveScope_def)
  then have kept: "slot_text (memory_env True) memory_texts demo_restarted (GlobalSlot Device_key) =
      slot_text (memory_env True) memory_texts demo_stored (GlobalSlot Device_key)"
    "slot_text (memory_env True) memory_texts demo_restarted (AccountSlot ''a'' Session_data) =
      slot_text (memory_env True) memory_texts demo_stored (AccountSlot ''a'' Session_data)"
    by (auto intro!: restarted_slots)
  obtain r v where "decryptStoredMasterUnlockKey (memory_env True) (Some ''a'') True [] demo_restarted = (Inr r, v)"
    "case r of None \<Rightarrow> True | Some k \<Rightarrow> md_material (storeWorld v) k = Some [1, 2]"
    using quick_unlock_returns_the_same_key [OF memory_sealing_platform run _ cached muk none kept,
        of True "[]"]
    by (auto split: option.splits)
  then show ?thesis using demo_reopens by (cases r) auto
qed

section \<open>Where the code falls short\<close>

text \<open>
  Unlocking is not one step: a lock that runs while setUnlockEntry awaits the publication is undone,
  and the view then says that the account is locked while its key is cached.
\<close>

fun shown_unlocked :: "stored_text option \<Rightarrow> string list option" where
  "shown_unlocked (Some (ViewText view)) = Some (nhUnlockedAccountIds view)"
| "shown_unlocked _ = None"

lemma lock_during_unlock_is_undone:
  "case publishUnlock (memory_env True) ''a'' (Some ''m'') (fresh_store demo_device) of (_, s) \<Rightarrow>
   case lockAllAccounts (memory_env True) s of (_, t) \<Rightarrow>
   case takeUnlock (memory_env True) ''a'' (Some ''m'') None t of (_, u) \<Rightarrow>
     mukCache u = [(''a'', ''m'')] \<and>
     shown_unlocked (slot_text (memory_env True) memory_texts u (GlobalSlot Native_view)) = Some []"
  by code_simp

text \<open>A view that cannot be written leaves the freshly unwrapped key alive and owned by nobody.\<close>

definition view_fails :: "memory_device store_env" where
  "view_fails = (memory_env True)\<lparr>sePort := (sePort (memory_env True))\<lparr>kvSet := (\<lambda>k v scope.
     if k = globalKey Native_view then throw (JsError ''quota'') else kvSet (sePort (memory_env True)) k v scope)\<rparr>\<rparr>"

lemma failed_unlock_leaks_the_key:
  "case tryRestoreSession view_fails False (Some ''a'') demo_locked of (r, t) \<Rightarrow>
     r = Inl (JsError ''quota'') \<and> mukCache t = [] \<and> length (mdKeys (storeWorld demo_locked)) = 2 \<and>
     map snd (mdKeys (storeWorld t)) = [1, 2] # map snd (mdKeys (storeWorld demo_locked))"
  by code_simp

text \<open>
  After the one prompt of unlockAllAccountsWithBiometric, each account is unlocked by
  unlock_after_prompt, also one whose session has expired, whose token is gone and whose biometrics
  are off.
\<close>

lemma one_prompt_unlocks_an_expired_session:
  "fst (isSessionValid (memory_env True) (Some ''b'') demo_expired) = Inr False"
  "case unlock_after_prompt (memory_env True) ''b'' demo_expired of (r, t) \<Rightarrow>
     r = Inr None \<and> map fst (mukCache t) = [''b'']"
  by code_simp+

text \<open>An account added without a server URL hides every account of the list.\<close>

lemma account_without_url_hides_the_list:
  "case addAccount (memory_env True) ((demo_account ''c'')\<lparr>amServerUrl := []\<rparr>) demo_locked of (r, t) \<Rightarrow>
     r = Inr () \<and> length (accounts_in (slot_text (memory_env True) memory_texts demo_locked)) = 1 \<and>
     accounts_in (slot_text (memory_env True) memory_texts t) = []"
  by code_simp

end
