(* ===== verification/Spec2Isabelle.thy ===== *)
theory Spec2Isabelle
  imports QueueProps SyncExtras Orchestrator ItemCacheClaims VaultSessionProps
    RepositoryClaims RefreshCoalescing CeremonyClaims KeyPolicy QueueTermination AccountStoreClaims
begin

text \<open>
  Bittery is an end-to-end encrypted password manager. Its clients (web, desktop, mobile and a
  browser extension) share one TypeScript core that keeps an encrypted replica of the vault on the
  device, queues local edits while the server cannot be reached, and follows the server's change
  log. This library models that core: how an edit becomes durable and reaches the server once
  (packages/sync/src/outbound-queue.ts), how the device follows the server (catch-up.ts,
  delta-sync.ts, sync-manager.ts, sync-orchestrator.ts), how the encrypted cache is stored and
  swapped for a freshly fetched one (packages/storage/src/item-cache.ts), where accounts, sessions
  and secrets are stored and who may unlock them (packages/storage/src/account-store.ts), how an
  account changes its keys (packages/core/src/services/vault-crypto.ts), and who may hold the unlocked vault
  (apps/extension/src/background/vault-session).

  How the parts interact. The outbound queue holds the commands of each account, writes them to a
  storage document other processes share, sends them through the API client and tells a
  reconciler what was acknowledged. The sync manager keeps an event stream open and reports pings
  and status changes; on each of them the orchestrator runs a catch-up, which hands every event of
  the change log to delta sync, which fetches what changed and writes it to the replica; behind
  each applied event the orchestrator stores the cursor, and afterwards it drains the queue. The
  item cache is a replica. The account store keeps each account's session sealed under the device
  key and holds the master unlock keys of the unlocked accounts; the key ceremonies and the
  replicas take those keys from it. The vault session decides when the master key exists at all.

  Theories.
  \<^item> Prelude: insertion-ordered maps, arrays and strings of JavaScript; effectful code as state
    transformers with thrown errors, with the combinators and the keeps rules that carry invariants
    through them; the locale stepper that lifts an invariant from one step to every run.
  \<^item> SyncTypes, QueueRules, QueueEngine, QueueOps, QueueDrain: ItemSyncEngine. QueueRules holds its
    pure functions, QueueEngine its state and the merge inside the atomic storage update, QueueOps
    the public operations, QueueDrain the sending.
  \<^item> QueueInvariant, QueueMerge, QueueWrites, QueueCalls, QueueSealed, QueueProps: the invariant
    every operation keeps; the merge as a three-way merge; what a write by a single writer does;
    histories of calls; the locale command_law, a law on commands every operation respects, with its
    instance that sealed ciphertext keeps its revision; the properties of single operations.
  \<^item> VaultSession, VaultSessionProps: the reducer and the machine of the vault session, and the
    agreement of key, owner, timer, keepalive and indicator.
  \<^item> VaultMapping, RecordPort, ItemCache, ItemCacheProps, ItemCacheSpec, ItemCacheClaims: the cache
    over a port of records. The locales record_store, readable_store and total_store are what an
    adapter promises; they are interpreted on the in-memory adapter and, the first two, on one that
    fails after some writes. ItemCacheSpec states what a promotion publishes as a merge.
  \<^item> CatchUp, DeltaSync: the page loop against a server with a change log, and the fetch of one
    event. The locale sync_replica is what sync relies on of a replica, interpreted on the cache.
  \<^item> SyncStorage, SyncManager, SyncManagerProps: the storage seam (locale sync_store, interpreted on
    both implementations), the event stream, reconnection and the stored cursor.
  \<^item> Orchestrator: applying, acknowledging, catching up, draining, retrying.
  \<^item> SyncExtras: query invalidation, the native handoff and the terminal command count.
  \<^item> IsoTime, ItemMapping, VaultCrypto: time stamps, the mappings of items between their forms, the
    contexts ciphertext is bound to, wrapped vault keys and account keys over a crypto port, and the
    pinned key derivation policy.
  \<^item> RefreshCoalescing: the chain of openings of one account in the vault repository and the server
    refreshes that join the one in flight or wait for it (vault-repository.ts).
  \<^item> TravelMode, TravelLayers: the policy, its filters, the service and the enforcer; and that a
    policy is verified only when no layer holds anything it hides (locale travel_layers).
  \<^item> VaultRepository, RepositoryProps, RepositoryDevice, RepositoryClaims: the repository over the
    replicas of all accounts (vault-repository.ts): creating, opening and locking them, the sync
    baseline, the getters and the ports of sync; that calls about one account leave the others
    alone and that a locked account shows nothing. RepositoryDevice is the concrete device the
    locales worldly_travel and travel_layers are interpreted on.
  \<^item> Replica, ReplicaOps, ReplicaHydrate: the decrypted replica of one account
    (account-vault-replica.ts): state, getters and decryption; the projection of pending commands,
    inbound writes and commands; opening from the cache and from the server.
  \<^item> Contracts, CacheContracts: what an effectful operation keeps and establishes (under, leads),
    and the locale keyed_store of a cache that reads back what it was given.
  \<^item> ReplicaProps, ReplicaCalls, ReplicaOpening, ReplicaBootstrap, ReplicaSteps, ReplicaClaims: the
    locale calm_env of a surrounding that leaves the replica's fields alone, the step relation of
    a replica's calls and its invariant: every shown item is its pending commands replayed over
    its authoritative record, and is readable. ReplicaDevice is the concrete device the locales
    are interpreted on. ReplicaOvertaken, OvertakenClaims: the locale interruptible, a clear that
    runs inside an awaited call.
  \<^item> VaultCeremonies, CeremonyProps, CeremonyEnds, CeremonyClaims, KeyPolicy: changing the password,
    the email or the Secret Key, preparing a Recovery Key, recovering and creating an account, over
    a platform with a key table, where every key a ceremony mints is accounted for on each path, and
    the key derivation policy in force.
  \<^item> QueueTermination: a measure of the queues that every round of a drain decreases.
  \<^item> AccountKeys, AccountStore, AccountStoreOps: the account store (account-store.ts with tiers.ts,
    keys.ts, account-id.ts and the port of platform-port.ts): where each value is stored and under
    which key, the accounts list and sessions, the cache of unlocked keys, settings, biometrics, and
    the view the native host reads.
  \<^item> AccountStoreProps, AccountStoreCalls, AccountStoreTypes, AccountStoreUnlock, AccountStoreLocks,
    AccountStoreSeals: the locales account_platform, key_holder and sealing_platform, what a platform
    owes the store, each extending the one before; reads as functions of the stored texts; that the
    view is current after every call, that storage stays well typed, what an unlock requires, that a
    lock destroys keys, and that a stored session opens again. MemoryPlatform interprets the three on
    the in-memory port (testing/in-memory-port.ts) beside a table of keys. AccountStoreClaims holds
    the properties, and four lemmas on small stores where the code falls short: a lock during an
    unlock is undone, a failed publication leaks a key, one prompt unlocks an expired session, and
    an account without a server URL hides the list.

  How the code is modelled. An asynchronous method is a state transformer, and an awaited call is
  the application of one; methods of one object run one after another, which is what its promise
  chains and account locks arrange. Where other code can run inside a method and it matters, the
  method is given in halves (writeBegin and writeFinish of a queue write). A command held across
  an await is found again by its operation id, because storage adapters give back the objects of
  the queue they were given. The JSON text of a command is represented by the command, a stored
  text by the document it parses to or a text that does not parse. The platform is a parameter:
  clock, random suffixes, storage outcomes, API client, reconciler and string collation are
  functions of a world (record env), server pages and replicas are effectful operations; what is
  relied on of them is a named hypothesis or the assumption of a locale. Numbers are integers of
  the safe range, strings are ASCII.

  Bounds. Draining and catching up are loops that need not end, since a server or a reconciler can
  keep feeding them; they take fuel and answer whether they ended. A drain on storage no other
  process shares, with a reconciler that enqueues no conflict copies, ends within six rounds for
  each command of the longest queue. For a catch-up over a log, fuel
  for one page more than there are events is enough, since every page but the last advances. The
  pages of a bootstrap take fuel too, since the cursors come from the server.

  Not modelled: user interfaces and their hooks, the Rust server and cryptography, generated
  clients and schemas, the storage adapters of the platforms, importers, and the services that
  drive unlocking and the account lifecycle, the rotation of vault keys and cross-account moves.
  The account store's methods run one after another too; its coalesced load of the device key has
  no counterpart, and a listener is represented by the notices it is given.
\<close>

end
